(* ===== verification/Prelude.thy ===== *)
theory Prelude
  imports Complex_Main "HOL-Library.Word" "HOL-Library.Sublist"
begin

section \<open>Shared vocabulary of the reference runtime\<close>

text \<open>
  The values every component of the runtime uses (file \<open>binding/errors.ts\<close> and the parts of
  the JavaScript language the sources rely on): the error codes and the execution certainty of
  \<open>OnvifError\<close>, results as sums, JavaScript numbers as far as the code looks at them, bytes
  and big-endian fields of a \<open>Buffer\<close>, and strings.

  A JavaScript string is carried as its bytes in (generalised) UTF-8, so that
  \<open>Buffer.byteLength(s, "utf8")\<close> is \<open>length s\<close>; an unpaired surrogate is its three byte
  sequence \<open>ED A0..BF xx\<close>, which no well-formed text contains. The text of an error message
  is not modelled, its code and its execution certainty are.
\<close>

subsection \<open>Errors as values\<close>

datatype error_code =
    InvalidConfiguration | InvalidRegistry | InvalidValue | InvalidXml | XmlLimit
  | InvalidSecurity | AuthenticationFailed | PolicyDenied | UnsupportedCapability
  | TransportError | OutcomeUnknown | SoapFault | RuntimeClosed

datatype execution = NotSent | Rejected | Unknown

text \<open>
  \<open>HostError\<close> is an exception of the JavaScript runtime itself (a \<open>TypeError\<close> or \<open>RangeError\<close>)
  on the paths where the source does not turn it into an \<open>OnvifError\<close>.
\<close>

datatype onvif_error =
    OnvifError (error_code: error_code) (execution: execution)
  | HostError

type_synonym 'a result = "onvif_error + 'a"

abbreviation raise :: "error_code \<Rightarrow> 'a result" where
  "raise c \<equiv> Inl (OnvifError c NotSent)"

definition bind_result :: "'a result \<Rightarrow> ('a \<Rightarrow> 'b result) \<Rightarrow> 'b result" where
  "bind_result m f = (case m of Inl e \<Rightarrow> Inl e | Inr x \<Rightarrow> f x)"

lemma bind_result_simps [simp]:
  "bind_result (Inl e) f = Inl e"
  "bind_result (Inr x) f = f x"
  by (simp_all add: bind_result_def)

lemma bind_result_Inr_iff:
  "bind_result m f = Inr y \<longleftrightarrow> (\<exists>x. m = Inr x \<and> f x = Inr y)"
  by (cases m) auto

lemma bind_result_cong [fundef_cong]:
  "m = m' \<Longrightarrow> (\<And>x. m' = Inr x \<Longrightarrow> f x = g x) \<Longrightarrow> bind_result m f = bind_result m' g"
  by (cases m') auto

text \<open>\<open>for (const x of xs) check(x)\<close> and \<open>xs.map(f)\<close> with a callback that may throw.\<close>

fun map_result :: "('a \<Rightarrow> 'b result) \<Rightarrow> 'a list \<Rightarrow> 'b list result" where
  "map_result f [] = Inr []"
| "map_result f (x # xs) =
     bind_result (f x) (\<lambda>y. bind_result (map_result f xs) (\<lambda>ys. Inr (y # ys)))"

lemma map_result_Inr:
  "map_result f xs = Inr ys \<Longrightarrow> list_all2 (\<lambda>x y. f x = Inr y) xs ys"
  by (induction xs arbitrary: ys) (auto simp: bind_result_Inr_iff)

lemma map_result_length: "map_result f xs = Inr ys \<Longrightarrow> length ys = length xs"
  by (drule map_result_Inr, drule list_all2_lengthD) simp

lemma map_result_cong [fundef_cong]:
  "xs = ys \<Longrightarrow> (\<And>x. x \<in> set ys \<Longrightarrow> f x = g x) \<Longrightarrow> map_result f xs = map_result g ys"
proof -
  have "(\<And>x. x \<in> set ys \<Longrightarrow> f x = g x) \<Longrightarrow> map_result f ys = map_result g ys"
    by (induction ys) simp_all
  then show "xs = ys \<Longrightarrow> (\<And>x. x \<in> set ys \<Longrightarrow> f x = g x) \<Longrightarrow> map_result f xs = map_result g ys"
    by simp
qed

subsection \<open>JavaScript numbers\<close>

text \<open>
  A number is a whole number, a finite fraction, or one of the values that are not finite. The
  sources only test \<open>Number.isSafeInteger\<close>, \<open>Number.isInteger\<close> and
  \<open>Number.isFinite\<close> before they compute with a number, and compute on whole numbers.
\<close>

type_synonym byte = "8 word"

datatype jsnum = Whole int | Fraction rat | NaN | PosInfinity | NegInfinity

definition max_safe_integer :: int where
  "max_safe_integer = 9007199254740991"

fun is_safe_integer :: "jsnum \<Rightarrow> bool" where
  "is_safe_integer (Whole n) = (\<bar>n\<bar> \<le> max_safe_integer)"
| "is_safe_integer _ = False"

fun is_finite_number :: "jsnum \<Rightarrow> bool" where
  "is_finite_number (Whole n) = True"
| "is_finite_number (Fraction q) = True"
| "is_finite_number _ = False"

fun positive_integer :: "jsnum \<Rightarrow> int \<Rightarrow> int result" where
  "positive_integer (Whole n) maximum =
     (if \<not> is_safe_integer (Whole n) \<or> n \<le> 0 \<or> n > maximum then raise InvalidConfiguration
      else Inr n)"
| "positive_integer _ maximum = raise InvalidConfiguration"

lemma positive_integer_Inr:
  "positive_integer v m = Inr n \<longleftrightarrow>
     v = Whole n \<and> 0 < n \<and> n \<le> m \<and> n \<le> max_safe_integer"
  by (cases v) auto

lemma positive_integer_Inl:
  "positive_integer v m = Inl e \<Longrightarrow> e = OnvifError InvalidConfiguration NotSent"
  by (cases v) (auto split: if_splits)

subsection \<open>Strings\<close>

text \<open>\<open>s.startsWith(p)\<close>, \<open>s.includes(c)\<close> and a character class over a whole string.\<close>

definition starts_with :: "string \<Rightarrow> string \<Rightarrow> bool" where
  "starts_with p s = (take (length p) s = p)"

definition has_control_char :: "string \<Rightarrow> bool" where
  "has_control_char s = (\<exists>c\<in>set s. of_char c < (0x20 :: nat) \<or> of_char c = (0x7F :: nat))"

fun has_lone_surrogate :: "string \<Rightarrow> bool" where
  "has_lone_surrogate (a # b # s) =
     (of_char a = (0xED :: nat) \<and> of_char b \<ge> (0xA0 :: nat) \<or> has_lone_surrogate (b # s))"
| "has_lone_surrogate _ = False"

text \<open>\<open>s.length\<close>: UTF-16 code units, one per lead byte and two per four byte sequence.\<close>

definition utf16_length :: "string \<Rightarrow> nat" where
  "utf16_length s = (\<Sum>c\<leftarrow>s. if of_char c < (0x80 :: nat) then 1
     else if of_char c < (0xC0 :: nat) then 0 else if of_char c < (0xF0 :: nat) then 1 else 2)"

definition is_digit_char :: "char \<Rightarrow> bool" where
  "is_digit_char c = (of_char c \<ge> (48 :: nat) \<and> of_char c \<le> (57 :: nat))"

definition is_upper_char :: "char \<Rightarrow> bool" where
  "is_upper_char c = (of_char c \<ge> (65 :: nat) \<and> of_char c \<le> (90 :: nat))"

definition is_lower_char :: "char \<Rightarrow> bool" where
  "is_lower_char c = (of_char c \<ge> (97 :: nat) \<and> of_char c \<le> (122 :: nat))"

definition is_alpha_char :: "char \<Rightarrow> bool" where
  "is_alpha_char c = (is_upper_char c \<or> is_lower_char c)"

definition is_lower_hex_char :: "char \<Rightarrow> bool" where
  "is_lower_hex_char c = (is_digit_char c \<or> of_char c \<ge> (97 :: nat) \<and> of_char c \<le> (102 :: nat))"

definition digit_value :: "char \<Rightarrow> int" where
  "digit_value c = of_char c - 48"

text \<open>\<open>Number(text)\<close> of a text that a digits-only pattern has accepted.\<close>

definition digits_value :: "string \<Rightarrow> int" where
  "digits_value s = foldl (\<lambda>n c. 10 * n + digit_value c) 0 s"

text \<open>\<open>String(n)\<close> of a whole number that is not negative.\<close>

fun decimal :: "nat \<Rightarrow> string" where
  "decimal n = (if n < 10 then [char_of (48 + n)] else decimal (n div 10) @ [char_of (48 + n mod 10)])"

declare decimal.simps [simp del]

subsection \<open>Lists\<close>

lemma distinct_set_singleton: "distinct xs \<Longrightarrow> set xs = {x} \<Longrightarrow> xs = [x]"
  by (cases xs; cases "tl xs") auto

lemma count_le_1_distinct: "(\<And>x. count_list xs x \<le> 1) \<Longrightarrow> distinct xs"
proof (induction xs)
  case Nil
  then show ?case by simp
next
  case (Cons y xs)
  have "count_list xs x \<le> 1" for x using Cons.prems[of x] by (simp split: if_splits)
  moreover have "y \<notin> set xs" using Cons.prems[of y] by (simp add: count_list_0_iff)
  ultimately show ?case using Cons.IH by simp
qed

end
