(* ===== verification/Media_Queue.thy ===== *)
theory Media_Queue
  imports Prelude
begin

section \<open>The bounded media queue\<close>

text \<open>
  Model of \<open>media/queue.ts\<close> (class \<open>BoundedMediaQueue\<close>): a queue with several
  subscribers, a byte and a unit bound for each of them, two modes (live media drops the oldest
  units and reports a gap, recorded media refuses the new unit), and a reference count for each
  published unit, whose \<open>release\<close> callback runs when the last subscriber has let go of it.

  Subscriber objects live in a store indexed by their order of creation (\<open>slots\<close>), because
  an iterator keeps its slot after the slot has left the \<open>Set\<close> (\<open>subs\<close>, in insertion
  order). A pending read is named by a number; what the queue does to the outside (gap reports,
  releases, settled reads) is appended to \<open>effects\<close>.
\<close>

datatype media_mode = Live | Recorded

datatype 'v outcome = Yielded 'v | Done | Failed onvif_error

datatype 'v reply = Settled "'v outcome" | Waiting nat

datatype 'v effect = Gap nat | Released nat | Settle nat "'v outcome"

record 'v entry =
  entry_value :: 'v
  entry_bytes :: int
  entry_unit :: nat

record 'v subscriber =
  entries :: "'v entry list"
  slot_bytes :: int
  claimed :: bool
  slot_ended :: bool
  pending :: "nat option"

record queue_options =
  opt_max_bytes :: jsnum
  opt_max_units :: jsnum
  opt_max_subscribers :: jsnum
  opt_mode :: string
  opt_on_gap_callable :: bool

record 'v queue =
  max_bytes :: int
  max_units :: int
  max_subscribers :: int
  mode :: media_mode
  slots :: "nat \<Rightarrow> 'v subscriber"
  next_slot :: nat
  subs :: "nat list"
  initial :: nat
  queue_ended :: bool
  draining :: bool
  failure :: "onvif_error option"
  peak :: int
  refs :: "nat \<Rightarrow> int"
  next_unit :: nat
  next_read :: nat
  effects :: "'v effect list"

definition fresh_subscriber :: "bool \<Rightarrow> 'v subscriber" where
  "fresh_subscriber e = \<lparr>entries = [], slot_bytes = 0, claimed = False, slot_ended = e, pending = None\<rparr>"

definition update_slot :: "nat \<Rightarrow> ('v subscriber \<Rightarrow> 'v subscriber) \<Rightarrow> 'v queue \<Rightarrow> 'v queue" where
  "update_slot i f q = q\<lparr>slots := (slots q)(i := f (slots q i))\<rparr>"

definition emit :: "'v effect \<Rightarrow> 'v queue \<Rightarrow> 'v queue" where
  "emit e q = q\<lparr>effects := effects q @ [e]\<rparr>"

subsection \<open>Construction and size\<close>

text \<open>\<open>add()\<close>: the new slot joins the set only while the queue is open.\<close>

definition add :: "'v queue \<Rightarrow> nat result \<times> 'v queue" where
  "add q =
     (if int (length (subs q)) \<ge> max_subscribers q then (raise InvalidValue, q)
      else
        let i = next_slot q; e = queue_ended q \<or> draining q in
        (Inr i, q\<lparr>slots := (slots q)(i := fresh_subscriber e), next_slot := Suc i,
                  subs := (if e then subs q else subs q @ [i])\<rparr>))"

definition new_queue :: "queue_options \<Rightarrow> 'v queue result" where
  "new_queue opts =
     bind_result (positive_integer (opt_max_bytes opts) (128 * 1024 * 1024)) (\<lambda>mb.
     bind_result (positive_integer (opt_max_units opts) 256) (\<lambda>mu.
     bind_result (positive_integer (opt_max_subscribers opts) 16) (\<lambda>ms.
       if opt_mode opts \<noteq> ''live'' \<and> opt_mode opts \<noteq> ''recorded'' \<or> \<not> opt_on_gap_callable opts
       then raise InvalidConfiguration
       else
         let q = \<lparr>max_bytes = mb, max_units = mu, max_subscribers = ms,
                  mode = (if opt_mode opts = ''live'' then Live else Recorded),
                  slots = (\<lambda>_. fresh_subscriber True), next_slot = 0, subs = [], initial = 0,
                  queue_ended = False, draining = False, failure = None, peak = 0,
                  refs = (\<lambda>_. 0), next_unit = 0, next_read = 0, effects = []\<rparr>
         in case add q of (Inl e, _) \<Rightarrow> Inl e | (Inr i, q') \<Rightarrow> Inr (q'\<lparr>initial := i\<rparr>))))"

definition queued_bytes :: "'v queue \<Rightarrow> int" where
  "queued_bytes q = (\<Sum>i\<leftarrow>subs q. slot_bytes (slots q i))"

definition queued_units :: "'v queue \<Rightarrow> nat" where
  "queued_units q = (\<Sum>i\<leftarrow>subs q. length (entries (slots q i)))"

subsection \<open>Entries and reference counts\<close>

definition remove_entry :: "nat \<Rightarrow> 'v queue \<Rightarrow> 'v entry option \<times> 'v queue" where
  "remove_entry i q =
     (case entries (slots q i) of
        [] \<Rightarrow> (None, q)
      | e # es \<Rightarrow> (Some e, update_slot i (\<lambda>s. s\<lparr>entries := es, slot_bytes := slot_bytes s - entry_bytes e\<rparr>) q))"

text \<open>The closure \<open>relinquish\<close> of one published unit, which is every entry's \<open>release\<close>.\<close>

definition relinquish :: "nat \<Rightarrow> 'v queue \<Rightarrow> 'v queue" where
  "relinquish u q =
     (let r = refs q u - 1; q' = q\<lparr>refs := (refs q)(u := r)\<rparr>
      in if r = 0 then emit (Released u) q' else q')"

text \<open>
  \<open>while ((entry = removeEntry(slot)) !== undefined) entry.release()\<close>, with the number of
  entries released.
\<close>

function drain :: "nat \<Rightarrow> 'v queue \<Rightarrow> nat \<times> 'v queue" where
  "drain i q =
     (case remove_entry i q of
        (None, q') \<Rightarrow> (0, q')
      | (Some e, q') \<Rightarrow>
          (let (n, q'') = drain i (relinquish (entry_unit e) q') in (Suc n, q'')))"
  by pat_completeness auto
termination
  by (relation "measure (\<lambda>(i, q). length (entries (slots q i)))")
     (auto simp: remove_entry_def update_slot_def relinquish_def emit_def Let_def split: list.splits)

declare drain.simps [simp del]

subsection \<open>Publication\<close>

text \<open>
  The loop that makes room in one slot: recorded media refuses, live media drops the oldest
  entry and counts it.
\<close>

function make_room :: "nat \<Rightarrow> int \<Rightarrow> nat \<Rightarrow> 'v queue \<Rightarrow> nat result \<times> 'v queue" where
  "make_room i b dropped q =
     (if int (length (entries (slots q i))) \<ge> max_units q \<or> slot_bytes (slots q i) + b > max_bytes q then
        if mode q = Recorded then (raise InvalidValue, q)
        else case remove_entry i q of
            (None, q') \<Rightarrow> (raise InvalidValue, q')
          | (Some e, q') \<Rightarrow> make_room i b (Suc dropped) (relinquish (entry_unit e) q')
      else (Inr dropped, q))"
  by pat_completeness auto
termination
  by (relation "measure (\<lambda>(i, b, d, q). length (entries (slots q i)))")
     (auto simp: remove_entry_def update_slot_def relinquish_def emit_def Let_def split: list.splits)

declare make_room.simps [simp del]

definition push_entry :: "nat \<Rightarrow> nat \<Rightarrow> 'v \<Rightarrow> int \<Rightarrow> 'v queue \<Rightarrow> 'v queue" where
  "push_entry i u v b q =
     (let q1 = q\<lparr>refs := (refs q)(u := refs q u + 1)\<rparr>;
          q2 = update_slot i (\<lambda>s. s\<lparr>entries := entries s @ [\<lparr>entry_value = v, entry_bytes = b, entry_unit = u\<rparr>],
                                     slot_bytes := slot_bytes s + b\<rparr>) q1
      in q2\<lparr>peak := max (peak q2) (slot_bytes (slots q2 i))\<rparr>)"

text \<open>The body of the loop over the subscribers in \<open>publish\<close>.\<close>

definition publish_slot :: "nat \<Rightarrow> 'v \<Rightarrow> int \<Rightarrow> nat \<Rightarrow> 'v queue \<Rightarrow> unit result \<times> 'v queue" where
  "publish_slot u v b i q =
     (case pending (slots q i) of
        Some r \<Rightarrow> (Inr (), emit (Settle r (Yielded v)) (update_slot i (\<lambda>s. s\<lparr>pending := None\<rparr>) q))
      | None \<Rightarrow>
          if b > max_bytes q then
            (if mode q = Recorded then (raise InvalidValue, q) else (Inr (), emit (Gap 1) q))
          else case make_room i b 0 q of
              (Inl e, q') \<Rightarrow> (Inl e, q')
            | (Inr dropped, q') \<Rightarrow>
                (Inr (), push_entry i u v b (if dropped > 0 then emit (Gap dropped) q' else q')))"

fun publish_all :: "nat \<Rightarrow> 'v \<Rightarrow> int \<Rightarrow> nat list \<Rightarrow> 'v queue \<Rightarrow> unit result \<times> 'v queue" where
  "publish_all u v b [] q = (Inr (), q)"
| "publish_all u v b (i # is) q =
     (case publish_slot u v b i q of
        (Inl e, q') \<Rightarrow> (Inl e, q')
      | (Inr _, q') \<Rightarrow> publish_all u v b is q')"

text \<open>
  \<open>publish\<close>: the publication itself holds one reference, which the \<open>finally\<close> block gives
  back whatever happened in the loop.
\<close>

definition publish :: "'v \<Rightarrow> jsnum \<Rightarrow> 'v queue \<Rightarrow> unit result \<times> 'v queue" where
  "publish v bytes q =
     (case positive_integer bytes (128 * 1024 * 1024) of
        Inl e \<Rightarrow> (Inl e, q)
      | Inr b \<Rightarrow>
          let u = next_unit q;
              q0 = q\<lparr>next_unit := Suc u, refs := (refs q)(u := 1)\<rparr>;
              (r, q1) = (if queue_ended q \<or> draining q then (Inr (), q0)
                         else publish_all u v b (subs q) q0)
          in (r, relinquish u q1))"

subsection \<open>Discarding and ending\<close>

fun discard_all :: "nat list \<Rightarrow> 'v queue \<Rightarrow> nat \<times> 'v queue" where
  "discard_all [] q = (0, q)"
| "discard_all (i # is) q =
     (let (n, q') = drain i q; (m, q'') = discard_all is q' in (n + m, q''))"

definition discard :: "'v queue \<Rightarrow> nat \<times> 'v queue" where
  "discard q = discard_all (subs q) q"

definition detach :: "nat \<Rightarrow> 'v queue \<Rightarrow> 'v queue" where
  "detach i q =
     (let q1 = update_slot i (\<lambda>s. s\<lparr>slot_ended := True\<rparr>) q;
          q2 = snd (drain i q1);
          p = pending (slots q2 i);
          q3 = update_slot i (\<lambda>s. s\<lparr>pending := None\<rparr>) q2;
          q4 = (case p of
                  None \<Rightarrow> q3
                | Some r \<Rightarrow> emit (Settle r (case failure q3 of Some e \<Rightarrow> Failed e | None \<Rightarrow> Done)) q3)
      in q4\<lparr>subs := removeAll i (subs q4)\<rparr>)"

fun detach_all :: "nat list \<Rightarrow> 'v queue \<Rightarrow> 'v queue" where
  "detach_all [] q = q"
| "detach_all (i # is) q = detach_all is (detach i q)"

fun detach_empty :: "nat list \<Rightarrow> 'v queue \<Rightarrow> 'v queue" where
  "detach_empty [] q = q"
| "detach_empty (i # is) q =
     detach_empty is (if entries (slots q i) = [] then detach i q else q)"

definition end_queue :: "'v queue \<Rightarrow> 'v queue" where
  "end_queue q =
     (if queue_ended q \<or> draining q then q
      else detach_empty (subs q) (q\<lparr>draining := True\<rparr>))"

definition resume :: "'v queue \<Rightarrow> unit result \<times> 'v queue" where
  "resume q =
     (if queue_ended q then (raise RuntimeClosed, q)
      else if \<not> draining q then (Inr (), q)
      else case add ((detach_all (subs q) q)\<lparr>draining := False\<rparr>) of
          (Inl e, q') \<Rightarrow> (Inl e, q')
        | (Inr i, q') \<Rightarrow> (Inr (), q'\<lparr>initial := i\<rparr>))"

definition finish :: "onvif_error option \<Rightarrow> 'v queue \<Rightarrow> 'v queue" where
  "finish err q =
     (if queue_ended q then q
      else
        let q1 = snd (discard (q\<lparr>queue_ended := True, failure := err\<rparr>));
            q2 = detach_all (subs q1) q1
        in q2\<lparr>subs := []\<rparr>)"

subsection \<open>The iterator of a subscriber\<close>

definition iterator :: "'v queue \<Rightarrow> nat result \<times> 'v queue" where
  "iterator q =
     (case (if claimed (slots q (initial q)) then add q else (Inr (initial q), q)) of
        (Inl e, q') \<Rightarrow> (Inl e, q')
      | (Inr i, q') \<Rightarrow> (Inr i, update_slot i (\<lambda>s. s\<lparr>claimed := True\<rparr>) q'))"

definition next_item :: "nat \<Rightarrow> 'v queue \<Rightarrow> 'v reply \<times> 'v queue" where
  "next_item i q =
     (if slot_ended (slots q i) \<or> queue_ended q then
        (Settled (case failure q of None \<Rightarrow> Done | Some e \<Rightarrow> Failed e), q)
      else case remove_entry i q of
          (Some e, q') \<Rightarrow> (Settled (Yielded (entry_value e)), relinquish (entry_unit e) q')
        | (None, q') \<Rightarrow>
            if draining q' then (Settled Done, detach i q')
            else if pending (slots q' i) \<noteq> None then (Settled (Failed (OnvifError InvalidValue NotSent)), q')
            else (Waiting (next_read q'),
                  (update_slot i (\<lambda>s. s\<lparr>pending := Some (next_read q')\<rparr>) q')\<lparr>next_read := Suc (next_read q')\<rparr>))"

definition return_item :: "nat \<Rightarrow> 'v queue \<Rightarrow> 'v reply \<times> 'v queue" where
  "return_item i q = (Settled Done, detach i q)"

definition throw_item :: "nat \<Rightarrow> onvif_error \<Rightarrow> 'v queue \<Rightarrow> 'v reply \<times> 'v queue" where
  "throw_item i e q = (Settled (Failed e), detach i q)"

end
