(* ===== verification/Js_Values.thy ===== *)
theory Js_Values
  imports Prelude
begin

section \<open>Values of unknown type\<close>

text \<open>
  Configuration objects, decoded JSON and everything else the sources take as \<open>unknown\<close> and
  check at run time. An object is the list of its own enumerable properties in insertion order
  (JavaScript never repeats a key); \<open>JBytes\<close> is a \<open>Uint8Array\<close>, \<open>JHost\<close> an object of another host
  class, such as \<open>AbortSignal\<close>. Property access (\<open>get\<close>) gives \<open>JUndefined\<close> for a property that is not there.
\<close>

datatype js =
    JUndefined | JNull | JBool bool | JNum jsnum | JBig int | JStr string
  | JArr "js list" | JObj "(string \<times> js) list" | JBytes "byte list" | JHost string

fun json_children :: "js \<Rightarrow> js list" where
  "json_children (JArr xs) = xs"
| "json_children (JObj kvs) = map snd kvs"
| "json_children _ = []"

fun is_record :: "js \<Rightarrow> bool" where
  "is_record (JObj _) = True"
| "is_record (JBytes _) = True"
| "is_record (JHost _) = True"
| "is_record _ = False"

fun own_keys :: "js \<Rightarrow> string list" where
  "own_keys (JObj kvs) = map fst kvs"
| "own_keys (JBytes bs) = map decimal [0..<length bs]"
| "own_keys _ = []"

fun get :: "js \<Rightarrow> string \<Rightarrow> js" where
  "get (JObj kvs) k = (case map_of kvs k of None \<Rightarrow> JUndefined | Some v \<Rightarrow> v)"
| "get _ k = JUndefined"

fun is_string :: "js \<Rightarrow> bool" where
  "is_string (JStr _) = True"
| "is_string _ = False"

fun is_boolean :: "js \<Rightarrow> bool" where
  "is_boolean (JBool _) = True"
| "is_boolean _ = False"

text \<open>\<open>positiveInteger\<close> on a value of unknown type.\<close>

fun positive_integer_js :: "js \<Rightarrow> int \<Rightarrow> int result" where
  "positive_integer_js (JNum n) maximum = positive_integer n maximum"
| "positive_integer_js _ maximum = raise InvalidConfiguration"

lemma positive_integer_js_Inr:
  "positive_integer_js v m = Inr n \<longleftrightarrow> v = JNum (Whole n) \<and> 0 < n \<and> n \<le> m \<and> n \<le> max_safe_integer"
  by (cases v) (auto simp: positive_integer_Inr)

text \<open>\<open>keys(value, allowed, label)\<close> of \<open>media/policy.ts\<close> and its likes: a record without other keys.\<close>

definition keys :: "js \<Rightarrow> string list \<Rightarrow> unit result" where
  "keys v allowed =
     (if \<not> is_record v \<or> (\<exists>k\<in>set (own_keys v). k \<notin> set allowed) then raise InvalidConfiguration else Inr ())"

lemma keys_Inr: "keys v allowed = Inr () \<longleftrightarrow> is_record v \<and> set (own_keys v) \<subseteq> set allowed"
  by (auto simp: keys_def)

text \<open>
  \<open>list(value, maximum, check)\<close>: a bounded nonempty allowlist of which every entry passes its
  check and none repeats.
\<close>

definition allow_list :: "js \<Rightarrow> nat \<Rightarrow> (js \<Rightarrow> 'a result) \<Rightarrow> 'a list result" where
  "allow_list v maximum check =
     (case v of
        JArr xs \<Rightarrow>
          if xs = [] \<or> length xs > maximum then raise InvalidConfiguration
          else bind_result (map_result check xs) (\<lambda>ys.
            if \<not> distinct ys then raise InvalidConfiguration else Inr ys)
      | _ \<Rightarrow> raise InvalidConfiguration)"

lemma allow_list_Inr:
  "allow_list v m check = Inr ys \<Longrightarrow>
   ys \<noteq> [] \<and> length ys \<le> m \<and> distinct ys \<and> (\<forall>y\<in>set ys. \<exists>x. check x = Inr y)
   \<and> (\<exists>xs. v = JArr xs \<and> list_all2 (\<lambda>x y. check x = Inr y) xs ys)"
proof -
  assume a: "allow_list v m check = Inr ys"
  then obtain xs where xs: "v = JArr xs" "xs \<noteq> []" "length xs \<le> m" "map_result check xs = Inr ys" "distinct ys"
    by (cases v) (auto simp: allow_list_def bind_result_Inr_iff split: if_splits)
  have l: "list_all2 (\<lambda>x y. check x = Inr y) xs ys" by (rule map_result_Inr[OF xs(4)])
  have "\<exists>x. check x = Inr y" if "y \<in> set ys" for y
    using l that by (auto simp: list_all2_conv_all_nth in_set_conv_nth)
  with xs l show ?thesis using map_result_length[OF xs(4)] by auto
qed

end
