(* ===== verification/Media_Ipc.thy ===== *)
theory Media_Ipc
  imports Js_Values
begin

section \<open>Framing of the native media pipes\<close>

text \<open>
  Model of \<open>media/ipc.ts\<close>: the 24 byte envelope (\<open>encodeEnvelope\<close>), the incremental frame
  decoder of one pipe (\<open>IpcFrameDecoder\<close>), the bounded walk over a control message
  (\<open>decodeControl\<close>) and the length-prefixed strings (\<open>ipcString\<close>).

  A \<open>Buffer\<close> is a list of bytes. The decoder's 24 byte header buffer is the list of the header
  bytes received so far (the rest of the buffer is overwritten before it is read), its payload
  buffer is the announced length with the bytes received so far. The callback \<open>accept\<close> is a
  function on the state of its owner, and may fail. \<open>JSON.parse\<close> of a UTF-8 text is a parameter.
\<close>

subsection \<open>Big-endian fields\<close>

fun be_bytes :: "nat \<Rightarrow> nat \<Rightarrow> byte list" where
  "be_bytes 0 n = []"
| "be_bytes (Suc k) n = be_bytes k (n div 256) @ [word_of_nat n]"

definition be_value :: "byte list \<Rightarrow> nat" where
  "be_value bs = foldl (\<lambda>n b. n * 256 + unat b) 0 bs"

definition slice :: "nat \<Rightarrow> nat \<Rightarrow> byte list \<Rightarrow> byte list" where
  "slice i n bs = take n (drop i bs)"

text \<open>\<open>readUInt16BE\<close>, \<open>readUInt32BE\<close> and \<open>readBigUInt64BE\<close> inside the buffer.\<close>

definition read16 :: "byte list \<Rightarrow> nat \<Rightarrow> nat" where
  "read16 bs i = be_value (slice i 2 bs)"

definition read32 :: "byte list \<Rightarrow> nat \<Rightarrow> nat" where
  "read32 bs i = be_value (slice i 4 bs)"

definition read64 :: "byte list \<Rightarrow> nat \<Rightarrow> nat" where
  "read64 bs i = be_value (slice i 8 bs)"

text \<open>ASCII text and UTF-8 text as bytes.\<close>

definition text_bytes :: "string \<Rightarrow> byte list" where
  "text_bytes s = map of_char s"

subsection \<open>Constants\<close>

definition protocol_version :: nat where "protocol_version = 2"
definition header_size :: nat where "header_size = 24"
definition control_max :: nat where "control_max = 65536"
definition data_max :: nat where "data_max = 64 * 1024 * 1024 + 64"

definition kind_open :: nat where "kind_open = 1"
definition kind_close :: nat where "kind_close = 2"
definition kind_pause :: nat where "kind_pause = 3"
definition kind_play :: nat where "kind_play = 4"
definition kind_seek :: nat where "kind_seek = 5"
definition kind_credit :: nat where "kind_credit = 6"
definition kind_security :: nat where "kind_security = 0x10"
definition kind_backchannel :: nat where "kind_backchannel = 0x1001"
definition kind_hello :: nat where "kind_hello = 0x8001"
definition kind_ready :: nat where "kind_ready = 0x8002"
definition kind_closed :: nat where "kind_closed = 0x8003"
definition kind_error :: nat where "kind_error = 0x8004"
definition kind_response :: nat where "kind_response = 0x8005"
definition kind_gap :: nat where "kind_gap = 0x8006"
definition kind_diagnostic :: nat where "kind_diagnostic = 0x8007"
definition kind_control :: nat where "kind_control = 0x8008"
definition kind_end :: nat where "kind_end = 0x8009"
definition kind_rtp :: nat where "kind_rtp = 0x9001"
definition kind_decoded :: nat where "kind_decoded = 0x9002"
definition kind_metadata :: nat where "kind_metadata = 0x9003"
definition kind_rtcp :: nat where "kind_rtcp = 0x9004"

lemmas kind_defs = kind_open_def kind_close_def kind_pause_def kind_play_def kind_seek_def
  kind_credit_def kind_security_def kind_backchannel_def kind_hello_def kind_ready_def
  kind_closed_def kind_error_def kind_response_def kind_gap_def kind_diagnostic_def
  kind_control_def kind_end_def kind_rtp_def kind_decoded_def kind_metadata_def kind_rtcp_def

record ipc_frame =
  kind :: nat
  session :: nat
  generation :: nat
  sequence :: nat
  payload :: "byte list"

subsection \<open>Encoding an envelope\<close>

fun ipc_uint :: "jsnum \<Rightarrow> int \<Rightarrow> nat result" where
  "ipc_uint (Whole n) maximum =
     (if \<not> is_safe_integer (Whole n) \<or> n < 0 \<or> n > maximum then raise InvalidValue else Inr (nat n))"
| "ipc_uint _ maximum = raise InvalidValue"

definition encode_envelope ::
    "jsnum \<Rightarrow> jsnum \<Rightarrow> jsnum \<Rightarrow> jsnum \<Rightarrow> byte list \<Rightarrow> byte list result" where
  "encode_envelope k s g q body =
     (if length body > data_max then raise InvalidValue
      else bind_result (ipc_uint k 0xffff) (\<lambda>k'.
           bind_result (ipc_uint s 0xffffffff) (\<lambda>s'.
           bind_result (ipc_uint g 0xffffffff) (\<lambda>g'.
           bind_result (ipc_uint q 0xffffffff) (\<lambda>q'.
             Inr (text_bytes ''OMPG'' @ be_bytes 2 protocol_version @ be_bytes 2 k' @ be_bytes 4 s'
                  @ be_bytes 4 g' @ be_bytes 4 q' @ be_bytes 4 (length body) @ body))))))"

subsection \<open>The incremental decoder\<close>

datatype channel = Control | Data

record decoder =
  channel :: channel
  maximum :: nat
  header :: "byte list"
  expected :: "nat option"
  received :: "byte list"
  partial_at :: "int option"
  decoder_ended :: bool

definition new_decoder :: "channel \<Rightarrow> jsnum option \<Rightarrow> decoder result" where
  "new_decoder c m =
     (let bound = (case c of Control \<Rightarrow> control_max | Data \<Rightarrow> data_max) in
      bind_result (positive_integer (case m of None \<Rightarrow> Whole (int bound) | Some v \<Rightarrow> v) (int bound)) (\<lambda>n.
        Inr \<lparr>channel = c, maximum = nat n, header = [], expected = None, received = [],
             partial_at = None, decoder_ended = False\<rparr>))"

definition buffered_bytes :: "decoder \<Rightarrow> nat" where
  "buffered_bytes d = length (header d) + length (received d)"

text \<open>The checks on a complete header, with the announced payload length.\<close>

definition check_header :: "channel \<Rightarrow> nat \<Rightarrow> byte list \<Rightarrow> nat result" where
  "check_header c bound h =
     (let k = read16 h 6; len = read32 h 20 in
      if slice 0 4 h \<noteq> text_bytes ''OMPG'' then raise InvalidValue
      else if read16 h 4 \<noteq> protocol_version then raise UnsupportedCapability
      else if (case c of Control \<Rightarrow> k < kind_hello \<or> k > kind_end | Data \<Rightarrow> k < kind_rtp \<or> k > kind_rtcp)
      then raise UnsupportedCapability
      else if len = 0 \<or> len > bound then raise InvalidValue
      else Inr len)"

text \<open>
  One pass through the loop of \<open>push\<close> on the rest of a chunk: it stops with an error, goes on
  with less input, or completes a frame. (The payload never outgrows its announced length, so
  the source's test for inequality is written as \<open><\<close>.)
\<close>

datatype parse_step =
    Stop onvif_error decoder
  | More "byte list" decoder
  | Frame ipc_frame "byte list" decoder

definition body_step :: "byte list \<Rightarrow> decoder \<Rightarrow> parse_step" where
  "body_step chunk d =
     (case expected d of
        None \<Rightarrow> Stop (OnvifError InvalidValue NotSent) d
      | Some len \<Rightarrow>
          let count = min (len - length (received d)) (length chunk);
              p = received d @ take count chunk; rest = drop count chunk
          in if length p < len then More rest (d\<lparr>received := p\<rparr>)
             else Frame \<lparr>kind = read16 (header d) 6, session = read32 (header d) 8,
                         generation = read32 (header d) 12, sequence = read32 (header d) 16, payload = p\<rparr>
                    rest (d\<lparr>header := [], expected := None, received := [], partial_at := None\<rparr>))"

definition parse_step :: "int \<Rightarrow> byte list \<Rightarrow> decoder \<Rightarrow> parse_step" where
  "parse_step now chunk d0 =
     (let d = d0\<lparr>partial_at := Some (case partial_at d0 of None \<Rightarrow> now | Some t \<Rightarrow> t)\<rparr> in
      if length (header d) < header_size then
        let count = min (header_size - length (header d)) (length chunk);
            d1 = d\<lparr>header := header d @ take count chunk\<rparr>; rest = drop count chunk
        in if length (header d1) < header_size then More rest d1
           else case check_header (channel d1) (maximum d1) (header d1) of
               Inl e \<Rightarrow> Stop e d1
             | Inr len \<Rightarrow> body_step rest (d1\<lparr>expected := Some len, received := []\<rparr>)
      else body_step chunk d)"

function push_loop ::
    "int \<Rightarrow> (ipc_frame \<Rightarrow> 's \<Rightarrow> unit result \<times> 's) \<Rightarrow> byte list \<Rightarrow> decoder \<Rightarrow> 's \<Rightarrow> unit result \<times> decoder \<times> 's" where
  "push_loop now accept chunk d s =
     (if chunk = [] then (Inr (), d, s)
      else case parse_step now chunk d of
          Stop e d' \<Rightarrow> (Inl e, d', s)
        | More rest d' \<Rightarrow> push_loop now accept rest d' s
        | Frame f rest d' \<Rightarrow>
            (case accept f s of
               (Inl e, s') \<Rightarrow> (Inl e, d', s')
             | (Inr _, s') \<Rightarrow> push_loop now accept rest d' s'))"
  by pat_completeness auto
termination
  by (relation "measure (\<lambda>(now, accept, chunk, d, s).
        2 * length chunk + (if length (header d) < header_size then 0 else 1))")
     (auto simp: parse_step_def body_step_def Let_def header_size_def
       split: if_splits option.splits sum.splits)

declare push_loop.simps [simp del]

definition push ::
    "int \<Rightarrow> (ipc_frame \<Rightarrow> 's \<Rightarrow> unit result \<times> 's) \<Rightarrow> byte list \<Rightarrow> decoder \<Rightarrow> 's \<Rightarrow> unit result \<times> decoder \<times> 's" where
  "push now accept chunk d s =
     (if decoder_ended d then (raise InvalidValue, d, s) else push_loop now accept chunk d s)"

definition end_decoder :: "decoder \<Rightarrow> unit result \<times> decoder" where
  "end_decoder d =
     (let d' = d\<lparr>decoder_ended := True\<rparr> in
      if buffered_bytes d' \<noteq> 0 then (Inl (OnvifError TransportError Unknown), d') else (Inr (), d'))"

subsection \<open>Control messages\<close>

fun json_number_finite :: "js \<Rightarrow> bool" where
  "json_number_finite (JNum n) = is_finite_number n"
| "json_number_finite _ = True"

text \<open>
  The explicit stack of \<open>decodeControl\<close>: \<open>pending.pop()\<close> takes the item pushed last, so the
  model keeps the stack in reverse.
\<close>

fun json_weight :: "js \<Rightarrow> nat" and json_weights :: "js list \<Rightarrow> nat"
  and json_field_weights :: "(string \<times> js) list \<Rightarrow> nat" where
  "json_weight (JArr xs) = Suc (json_weights xs)"
| "json_weight (JObj kvs) = Suc (json_field_weights kvs)"
| "json_weight _ = 1"
| "json_weights [] = 0"
| "json_weights (x # xs) = json_weight x + json_weights xs"
| "json_field_weights [] = 0"
| "json_field_weights ((k, x) # xs) = json_weight x + json_field_weights xs"

lemma json_weight_children: "json_weight v = Suc (\<Sum>x\<leftarrow>json_children v. json_weight x)"
proof -
  have "json_weights xs = (\<Sum>x\<leftarrow>xs. json_weight x)" for xs by (induction xs) auto
  moreover have "json_field_weights kvs = (\<Sum>x\<leftarrow>map snd kvs. json_weight x)" for kvs
    by (induction kvs) auto
  ultimately show ?thesis by (cases v) auto
qed

lemma json_weights_pushed:
  "(\<Sum>(v, d)\<leftarrow>rev (map (\<lambda>c. (c, k)) cs) @ stack. json_weight v)
    = (\<Sum>c\<leftarrow>cs. json_weight c) + (\<Sum>(v, d)\<leftarrow>stack. json_weight v)"
  by (induction cs) simp_all

function bounded_walk :: "nat \<Rightarrow> (js \<times> nat) list \<Rightarrow> unit result" where
  "bounded_walk nodes [] = Inr ()"
| "bounded_walk nodes ((v, depth) # stack) =
     (if Suc nodes > 20000 \<or> depth > 128 \<or> \<not> json_number_finite v then raise InvalidValue
      else bounded_walk (Suc nodes) (rev (map (\<lambda>c. (c, Suc depth)) (json_children v)) @ stack))"
  by pat_completeness auto
termination
proof (relation "measure (\<lambda>(n, stack). \<Sum>(v, d)\<leftarrow>stack. json_weight v)", goal_cases)
  case 1
  show ?case by simp
next
  case (2 nodes v depth stack)
  then show ?case using json_weight_children[of v]
      json_weights_pushed[where k = "Suc depth" and cs = "json_children v" and stack = stack]
    by simp
qed

definition decode_control :: "(byte list \<Rightarrow> js option) \<Rightarrow> ipc_frame \<Rightarrow> (string \<times> js) list result" where
  "decode_control parse f =
     (case parse (payload f) of
        None \<Rightarrow> raise InvalidValue
      | Some v \<Rightarrow>
          (case v of
             JObj kvs \<Rightarrow> bind_result (bounded_walk 0 [(v, 0)]) (\<lambda>_. Inr kvs)
           | _ \<Rightarrow> raise InvalidValue))"

subsection \<open>Length-prefixed strings\<close>

definition ipc_string :: "string \<Rightarrow> nat \<Rightarrow> byte list result" where
  "ipc_string s bound =
     (if CHR 0x00 \<in> set s then raise InvalidConfiguration
      else if has_lone_surrogate s \<or> length s > min bound 65535 then raise InvalidConfiguration
      else Inr (be_bytes 2 (length s) @ text_bytes s))"

end
