(* ===== verification/Media_Policy.thy ===== *)
theory Media_Policy
  imports Js_Values
begin

section \<open>Media policy\<close>

text \<open>
  Model of \<open>media/policy.ts\<close>: the validation of URIs, trust policies, credentials, replay ranges,
  resource limits and requests for native media. Unchecked inputs are values of type \<open>js\<close>, the
  validated results are records. The WHATWG URL parser (\<open>new URL\<close>, \<open>None\<close> when it throws) and
  \<open>isIP\<close> of Node are parameters.
\<close>

unbundle bit_operations_syntax

subsection \<open>Vocabulary\<close>

datatype media_transport = TcpInterleaved | UdpUnicast | HttpTunnel | HttpsTunnel | TlsInterleaved

definition media_transports :: "(string \<times> media_transport) list" where
  "media_transports = [(''tcp-interleaved'', TcpInterleaved), (''udp-unicast'', UdpUnicast),
     (''http-tunnel'', HttpTunnel), (''https-tunnel'', HttpsTunnel), (''tls-interleaved'', TlsInterleaved)]"

datatype media_codec = JPEG | H264 | H265 | MP4V_ES | PCMU | MPEG4_GENERIC

fun codec_bit :: "media_codec \<Rightarrow> nat" where
  "codec_bit JPEG = 1" | "codec_bit H264 = 2" | "codec_bit H265 = 4"
| "codec_bit MP4V_ES = 8" | "codec_bit PCMU = 16" | "codec_bit MPEG4_GENERIC = 32"

definition media_codecs :: "(string \<times> media_codec) list" where
  "media_codecs = [(''JPEG'', JPEG), (''H264'', H264), (''H265'', H265), (''MP4V-ES'', MP4V_ES),
     (''PCMU'', PCMU), (''MPEG4-GENERIC'', MPEG4_GENERIC)]"

fun media_codec_of :: "js \<Rightarrow> media_codec option" where
  "media_codec_of (JStr s) = map_of media_codecs s"
| "media_codec_of _ = None"

fun media_transport_of :: "js \<Rightarrow> media_transport option" where
  "media_transport_of (JStr s) = map_of media_transports s"
| "media_transport_of _ = None"

fun media_text :: "js \<Rightarrow> nat \<Rightarrow> bool \<Rightarrow> string result" where
  "media_text (JStr s) maximum allow_empty =
     (if \<not> allow_empty \<and> s = [] \<or> has_control_char s then raise InvalidConfiguration
      else if length s \<le> maximum \<and> \<not> has_lone_surrogate s then Inr s
      else raise InvalidConfiguration)"
| "media_text _ maximum allow_empty = raise InvalidConfiguration"

subsection \<open>URIs\<close>

record url_parts =
  url_protocol :: string
  url_username :: string
  url_password :: string
  url_hostname :: string
  url_port :: string
  url_hash :: string
  url_href :: string

text \<open>The classes \<open>[\u0000-\u0020\u007f\\#]\<close> and \<open>\s\<close> on UTF-8.\<close>

definition has_uri_forbidden_char :: "string \<Rightarrow> bool" where
  "has_uri_forbidden_char s =
     (\<exists>c\<in>set s. of_char c \<le> (0x20 :: nat) \<or> of_char c = (0x7F :: nat) \<or> c = CHR 0x5C \<or> c = CHR ''#'')"

definition js_spaces :: "nat list list" where
  "js_spaces = [[9], [10], [11], [12], [13], [32], [0xC2, 0xA0], [0xE1, 0x9A, 0x80], [0xE2, 0x80, 0x80],
     [0xE2, 0x80, 0x81], [0xE2, 0x80, 0x82], [0xE2, 0x80, 0x83], [0xE2, 0x80, 0x84], [0xE2, 0x80, 0x85],
     [0xE2, 0x80, 0x86], [0xE2, 0x80, 0x87], [0xE2, 0x80, 0x88], [0xE2, 0x80, 0x89], [0xE2, 0x80, 0x8A],
     [0xE2, 0x80, 0xA8], [0xE2, 0x80, 0xA9], [0xE2, 0x80, 0xAF], [0xE2, 0x81, 0x9F], [0xE3, 0x80, 0x80],
     [0xEF, 0xBB, 0xBF]]"

fun has_js_space :: "string \<Rightarrow> bool" where
  "has_js_space [] = False"
| "has_js_space (c # s) =
     ((\<exists>w\<in>set js_spaces. map of_char (take (length w) (c # s)) = w) \<or> has_js_space s)"

text \<open>\<open>/^rtsps?:\/\/[^/?#@]+(?:[/?]|$)/\<close>\<close>

definition rtsp_authority :: "string \<Rightarrow> bool" where
  "rtsp_authority s =
     (let rest = (if starts_with ''rtsp://'' s then drop 7 s else drop 8 s);
          run = takeWhile (\<lambda>c. c \<notin> {CHR ''/'', CHR ''?'', CHR ''#'', CHR ''@''}) rest;
          after = drop (length run) rest
      in (starts_with ''rtsp://'' s \<or> starts_with ''rtsps://'' s) \<and> run \<noteq> []
         \<and> (after = [] \<or> hd after \<in> {CHR ''/'', CHR ''?''}))"

text \<open>\<open>Number(port) < 1 || Number(port) > 65535\<close>; a text that is no number compares false.\<close>

definition port_out_of_range :: "string \<Rightarrow> bool" where
  "port_out_of_range p = (list_all is_digit_char p \<and> (digits_value p < 1 \<or> digits_value p > 65535))"

definition url_origin :: "url_parts \<Rightarrow> string" where
  "url_origin u = url_protocol u @ ''//'' @ url_hostname u @ '':'' @ url_port u"

fun native_media_url :: "(string \<Rightarrow> url_parts option) \<Rightarrow> js \<Rightarrow> (url_parts \<times> string) result" where
  "native_media_url parse_url (JStr uri) =
     (if length uri > 2048 \<or> has_uri_forbidden_char uri \<or> \<not> rtsp_authority uri then raise PolicyDenied
      else case parse_url uri of
          None \<Rightarrow> raise PolicyDenied
        | Some u \<Rightarrow>
            if url_protocol u \<notin> {''rtsp:'', ''rtsps:''} \<or> url_username u \<noteq> [] \<or> url_password u \<noteq> []
              \<or> url_hash u \<noteq> [] \<or> url_hostname u = [] \<or> url_port u = []
              \<or> CHR ''%'' \<in> set (url_hostname u) \<or> has_js_space (url_hostname u)
              \<or> port_out_of_range (url_port u)
            then raise PolicyDenied
            else Inr (u, url_origin u))"
| "native_media_url parse_url _ = raise PolicyDenied"

text \<open>\<open>/^[a-z]+:\/\/[^/?]*@/\<close>\<close>

definition has_raw_userinfo :: "string \<Rightarrow> bool" where
  "has_raw_userinfo s =
     (let scheme = takeWhile is_lower_char s; rest = drop (length scheme) s
      in scheme \<noteq> [] \<and> starts_with ''://'' rest
         \<and> CHR ''@'' \<in> set (takeWhile (\<lambda>c. c \<notin> {CHR ''/'', CHR ''?''}) (drop 3 rest)))"

fun media_service_target :: "(string \<Rightarrow> url_parts option) \<Rightarrow> js \<Rightarrow> string result" where
  "media_service_target parse_url (JStr href) =
     (if has_uri_forbidden_char href then raise PolicyDenied
      else case parse_url href of
          None \<Rightarrow> raise PolicyDenied
        | Some u \<Rightarrow>
            if url_protocol u \<notin> {''http:'', ''https:''} \<or> url_username u \<noteq> [] \<or> url_password u \<noteq> []
              \<or> url_hostname u = [] \<or> has_raw_userinfo href
            then raise PolicyDenied else Inr (url_href u))"
| "media_service_target parse_url _ = raise PolicyDenied"

subsection \<open>Authentication and trust\<close>

datatype media_authentication = NoAuthentication | Digest (auth_realm: string) (allow_legacy: "bool option")

definition authentication :: "js \<Rightarrow> media_authentication result" where
  "authentication v =
     bind_result (keys v [''kind'', ''realm'', ''allowLegacyMd5'']) (\<lambda>_.
       if get v ''kind'' = JStr ''none'' \<and> length (own_keys v) = 1 then Inr NoAuthentication
       else if get v ''kind'' \<noteq> JStr ''digest''
         \<or> get v ''allowLegacyMd5'' \<noteq> JUndefined \<and> \<not> is_boolean (get v ''allowLegacyMd5'')
       then raise UnsupportedCapability
       else bind_result (media_text (get v ''realm'') 1024 False) (\<lambda>realm.
         Inr (Digest realm (case get v ''allowLegacyMd5'' of JBool b \<Rightarrow> Some b | _ \<Rightarrow> None))))"

text \<open>\<open>!!auth.allowLegacyMd5\<close>\<close>

fun legacy_md5 :: "media_authentication \<Rightarrow> bool" where
  "legacy_md5 (Digest _ (Some True)) = True"
| "legacy_md5 _ = False"

fun is_digest :: "media_authentication \<Rightarrow> bool" where
  "is_digest (Digest _ _) = True"
| "is_digest NoAuthentication = False"

record media_trust =
  service_targets :: "string list"
  allowed_origins :: "string list"
  allowed_redirect_origins :: "string list"
  allowed_targets :: "string list option"
  trust_transports :: "media_transport list"
  trust_authentication :: media_authentication
  tunnel_authentication :: "media_authentication option"

definition check_origin :: "(string \<Rightarrow> url_parts option) \<Rightarrow> js \<Rightarrow> string result" where
  "check_origin parse_url e =
     bind_result (native_media_url parse_url e) (\<lambda>(u, origin).
       if JStr origin \<noteq> e then raise InvalidConfiguration else Inr origin)"

definition check_redirect :: "string list \<Rightarrow> js \<Rightarrow> string result" where
  "check_redirect origins e =
     (case e of JStr s \<Rightarrow> if s \<in> set origins then Inr s else raise PolicyDenied | _ \<Rightarrow> raise PolicyDenied)"

definition check_target :: "(string \<Rightarrow> url_parts option) \<Rightarrow> string list \<Rightarrow> js \<Rightarrow> string result" where
  "check_target parse_url origins e =
     bind_result (native_media_url parse_url e) (\<lambda>(u, origin).
       if origin \<notin> set origins then raise PolicyDenied
       else case e of JStr s \<Rightarrow> Inr s | _ \<Rightarrow> raise PolicyDenied)"

definition check_transport :: "js \<Rightarrow> media_transport result" where
  "check_transport e =
     (case media_transport_of e of None \<Rightarrow> raise UnsupportedCapability | Some t \<Rightarrow> Inr t)"

definition trust_keys :: "string list" where
  "trust_keys = [''serviceTargets'', ''allowedOrigins'', ''allowedTargets'', ''allowedRedirectOrigins'',
     ''transports'', ''authentication'', ''tunnelAuthentication'']"

definition redirect_list :: "string list \<Rightarrow> js \<Rightarrow> string list result" where
  "redirect_list origins v =
     (case v of
        JUndefined \<Rightarrow> Inr []
      | JArr xs \<Rightarrow> if xs = [] then Inr [] else allow_list v 16 (check_redirect origins)
      | _ \<Rightarrow> raise InvalidConfiguration)"

definition optional :: "('a \<Rightarrow> 'b result) \<Rightarrow> 'a option \<Rightarrow> 'b option result" where
  "optional f x = (case x of None \<Rightarrow> Inr None | Some y \<Rightarrow> bind_result (f y) (\<lambda>z. Inr (Some z)))"

definition defined :: "js \<Rightarrow> js option" where
  "defined v = (if v = JUndefined then None else Some v)"

definition validate_media_trust :: "(string \<Rightarrow> url_parts option) \<Rightarrow> js \<Rightarrow> media_trust result" where
  "validate_media_trust parse_url v =
     bind_result (keys v trust_keys) (\<lambda>_.
     bind_result (allow_list (get v ''allowedOrigins'') 16 (check_origin parse_url)) (\<lambda>origins.
     bind_result (redirect_list origins (get v ''allowedRedirectOrigins'')) (\<lambda>redirects.
     bind_result (authentication (get v ''authentication'')) (\<lambda>auth.
     bind_result (optional authentication (defined (get v ''tunnelAuthentication''))) (\<lambda>tunnel.
       if is_digest auth \<and> (case tunnel of Some t \<Rightarrow> is_digest t \<and> legacy_md5 auth \<noteq> legacy_md5 t | None \<Rightarrow> False)
       then raise UnsupportedCapability
       else
         bind_result (allow_list (get v ''serviceTargets'') 64 (media_service_target parse_url)) (\<lambda>services.
         bind_result (optional (\<lambda>ts. allow_list ts 256 (check_target parse_url origins))
             (defined (get v ''allowedTargets''))) (\<lambda>targets.
         bind_result (allow_list (get v ''transports'') 5 check_transport) (\<lambda>transports.
           Inr \<lparr>service_targets = services, allowed_origins = origins, allowed_redirect_origins = redirects,
                allowed_targets = targets, trust_transports = transports,
                trust_authentication = auth, tunnel_authentication = tunnel\<rparr>))))))))"

record authorized_target =
  target_origin :: string
  target_tunnel_origin :: "string option"

definition authorize_media_target ::
    "(string \<Rightarrow> url_parts option) \<Rightarrow> string \<Rightarrow> media_transport \<Rightarrow> media_trust \<Rightarrow> authorized_target result" where
  "authorize_media_target parse_url uri transport trust =
     bind_result (native_media_url parse_url (JStr uri)) (\<lambda>(u, origin).
       if origin \<notin> set (allowed_origins trust) \<or> transport \<notin> set (trust_transports trust)
         \<or> (case allowed_targets trust of None \<Rightarrow> False | Some ts \<Rightarrow> uri \<notin> set ts)
       then raise PolicyDenied
       else if (transport = TlsInterleaved) \<noteq> (url_protocol u = ''rtsps:'') then raise PolicyDenied
       else if transport = HttpTunnel \<or> transport = HttpsTunnel then
         Inr \<lparr>target_origin = origin,
              target_tunnel_origin = Some ((if transport = HttpsTunnel then ''https'' else ''http'')
                @ ''://'' @ url_hostname u @ '':'' @ url_port u)\<rparr>
       else if (case tunnel_authentication trust of Some t \<Rightarrow> is_digest t | None \<Rightarrow> False)
       then raise PolicyDenied
       else Inr \<lparr>target_origin = origin, target_tunnel_origin = None\<rparr>)"

subsection \<open>Credentials\<close>

record media_security_scope =
  scope_thing :: string
  scope_target :: string
  scope_principal :: string
  scope_service :: string
  scope_uri :: string
  scope_origin :: string
  scope_transport :: media_transport
  scope_tunnel_origin :: "string option"
  scope_authentication :: media_authentication
  scope_tunnel_authentication :: "media_authentication option"

record scoped_password =
  cred_origin :: string
  cred_principal :: string
  cred_realm :: string
  cred_username :: string
  cred_password :: string

record media_security_material =
  material_thing :: string
  material_target :: string
  material_principal :: string
  material_origin :: string
  material_native :: "scoped_password option"
  material_tunnel :: "scoped_password option"
  material_ca :: "string option"

definition scoped_credential ::
    "js \<Rightarrow> media_security_scope \<Rightarrow> string \<Rightarrow> media_authentication \<Rightarrow> scoped_password option result" where
  "scoped_credential v scope origin auth =
     (case auth of
        NoAuthentication \<Rightarrow> if v \<noteq> JUndefined then raise PolicyDenied else Inr None
      | Digest realm _ \<Rightarrow>
          if v = JUndefined then Inl (OnvifError AuthenticationFailed Rejected)
          else bind_result (keys v [''origin'', ''principal'', ''realm'', ''username'', ''password'']) (\<lambda>_.
            if get v ''origin'' \<noteq> JStr origin \<or> get v ''principal'' \<noteq> JStr (scope_principal scope)
              \<or> get v ''realm'' \<noteq> JStr realm
            then Inl (OnvifError PolicyDenied Rejected)
            else bind_result (media_text (get v ''username'') 1024 False) (\<lambda>user.
              bind_result (media_text (get v ''password'') 1024 True) (\<lambda>pass.
                Inr (Some \<lparr>cred_origin = origin, cred_principal = scope_principal scope, cred_realm = realm,
                           cred_username = user, cred_password = pass\<rparr>)))))"

text \<open>\<open>/[^\u0009\u000a\u000d\u0020-\u007e]/\<close> finds nothing.\<close>

definition is_pem_text :: "string \<Rightarrow> bool" where
  "is_pem_text s = list_all (\<lambda>c. of_char c \<in> {9, 10, 13 :: nat} \<or> (0x20 :: nat) \<le> of_char c \<and> of_char c \<le> (0x7E :: nat)) s"

definition ca_material :: "js \<Rightarrow> string option result" where
  "ca_material v =
     (case v of
        JUndefined \<Rightarrow> Inr None
      | JStr s \<Rightarrow>
          if CHR 0x00 \<in> set s \<or> length s > 32768 \<or> \<not> is_pem_text s then raise InvalidSecurity else Inr (Some s)
      | _ \<Rightarrow> raise InvalidSecurity)"

definition validate_media_security :: "media_security_scope \<Rightarrow> js \<Rightarrow> media_security_material result" where
  "validate_media_security scope v =
     bind_result (keys v [''thingId'', ''targetRef'', ''principal'', ''origin'', ''native'', ''tunnel'', ''caPem'']) (\<lambda>_.
       if get v ''thingId'' \<noteq> JStr (scope_thing scope) \<or> get v ''targetRef'' \<noteq> JStr (scope_target scope)
         \<or> get v ''principal'' \<noteq> JStr (scope_principal scope) \<or> get v ''origin'' \<noteq> JStr (scope_origin scope)
       then Inl (OnvifError PolicyDenied Rejected)
       else bind_result (scoped_credential (get v ''native'') scope (scope_origin scope) (scope_authentication scope)) (\<lambda>native.
         bind_result (scoped_credential (get v ''tunnel'') scope
             (case scope_tunnel_origin scope of None \<Rightarrow> [] | Some t \<Rightarrow> t)
             (case scope_tunnel_authentication scope of None \<Rightarrow> NoAuthentication | Some a \<Rightarrow> a)) (\<lambda>tunnel.
         bind_result (ca_material (get v ''caPem'')) (\<lambda>ca.
           Inr \<lparr>material_thing = scope_thing scope, material_target = scope_target scope,
                material_principal = scope_principal scope, material_origin = scope_origin scope,
                material_native = native, material_tunnel = tunnel, material_ca = ca\<rparr>))))"

subsection \<open>Replay range and resource limits\<close>

record replay_range =
  start_ntp_ns :: int
  end_ntp_ns :: int

definition validate_replay_range :: "js \<Rightarrow> replay_range result" where
  "validate_replay_range v =
     bind_result (keys v [''startNtpNs'', ''endNtpNs'']) (\<lambda>_.
       case (get v ''startNtpNs'', get v ''endNtpNs'') of
         (JBig a, JBig b) \<Rightarrow>
           if a < 2208988800000000000 \<or> b \<le> a \<or> b > 9223372036854775807 then raise InvalidValue
           else Inr \<lparr>start_ntp_ns = a, end_ntp_ns = b\<rparr>
       | _ \<Rightarrow> raise InvalidValue)"

record media_limits =
  wire_bytes :: int
  inflated_bytes :: int
  metadata_deadline_ms :: int
  queue_bytes :: int
  queue_units :: int
  limit_subscribers :: int
  max_width :: int
  max_height :: int
  decoded_bytes :: int
  close_timeout_ms :: int
  kill_timeout_ms :: int
  control_timeout_ms :: int
  partial_frame_timeout_ms :: int
  stderr_bytes :: int

text \<open>The names of \<open>MediaLimits\<close> with their default and their maximum.\<close>

definition limit_table :: "(string \<times> int \<times> int) list" where
  "limit_table =
     [(''wireBytes'', 2 * 1024 * 1024, 8 * 1024 * 1024), (''inflatedBytes'', 8 * 1024 * 1024, 32 * 1024 * 1024),
      (''metadataDeadlineMs'', 2000, 10000), (''queueBytes'', 32 * 1024 * 1024, 128 * 1024 * 1024),
      (''queueUnits'', 64, 256), (''maxSubscribers'', 8, 16), (''maxWidth'', 4096, 8192),
      (''maxHeight'', 2160, 8192), (''decodedBytes'', 32 * 1024 * 1024, 64 * 1024 * 1024),
      (''closeTimeoutMs'', 6000, 60000), (''killTimeoutMs'', 3000, 30000), (''controlTimeoutMs'', 10000, 60000),
      (''partialFrameTimeoutMs'', 2000, 30000), (''stderrBytes'', 128 * 1024, 1024 * 1024)]"

text \<open>\<open>{ ...defaults, ...input }[key]\<close>, checked against the maximum.\<close>

definition limit_value :: "js \<Rightarrow> string \<times> int \<times> int \<Rightarrow> int result" where
  "limit_value input = (\<lambda>(key, default, maximum).
     positive_integer_js (if key \<in> set (own_keys input) then get input key else JNum (Whole default)) maximum)"

definition limits_of :: "int list \<Rightarrow> media_limits" where
  "limits_of ns = \<lparr>wire_bytes = ns ! 0, inflated_bytes = ns ! 1, metadata_deadline_ms = ns ! 2,
     queue_bytes = ns ! 3, queue_units = ns ! 4, limit_subscribers = ns ! 5, max_width = ns ! 6,
     max_height = ns ! 7, decoded_bytes = ns ! 8, close_timeout_ms = ns ! 9, kill_timeout_ms = ns ! 10,
     control_timeout_ms = ns ! 11, partial_frame_timeout_ms = ns ! 12, stderr_bytes = ns ! 13\<rparr>"

definition media_limits_of :: "js \<Rightarrow> media_limits result" where
  "media_limits_of v =
     (let input = (if v = JUndefined then JObj [] else v) in
      bind_result (keys input (map fst limit_table)) (\<lambda>_.
      bind_result (map_result (limit_value input) limit_table) (\<lambda>ns.
        let l = limits_of ns in
        if queue_bytes l < 65536 \<or> decoded_bytes l < 384 then raise InvalidConfiguration else Inr l)))"

subsection \<open>Requests\<close>

definition form_identity :: "string \<Rightarrow> bool" where
  "form_identity s =
     (case s of [] \<Rightarrow> False
      | c # rest \<Rightarrow> is_alpha_char c
          \<and> starts_with '':'' (dropWhile (\<lambda>d. is_alpha_char d \<or> is_digit_char d \<or> d \<in> set ''+.-'') rest))"

definition check_form_ref :: "(string \<Rightarrow> url_parts option) \<Rightarrow> js \<Rightarrow> unit result" where
  "check_form_ref parse_url v =
     (if v = JUndefined then Inr ()
      else
        bind_result (keys v [''document'', ''form'', ''operation'']) (\<lambda>_.
        bind_result (media_service_target parse_url (get v ''document'')) (\<lambda>_.
        bind_result (media_text (get v ''form'') 4096 False) (\<lambda>form.
          if \<not> form_identity form
            \<or> get v ''operation'' \<noteq> JStr ''https://www.w3.org/2019/wot/td#invokeAction''
          then raise UnsupportedCapability else Inr ()))))"

definition is_index :: "js \<Rightarrow> bool" where
  "is_index v = (case v of JNum (Whole n) \<Rightarrow> is_safe_integer (Whole n) \<and> n \<ge> 0 | _ \<Rightarrow> False)"

text \<open>
  The explicit local interface. \<open>new URL\<close> of an address that \<open>isIP\<close> accepts and the URL parser
  does not throws a \<open>TypeError\<close>, which the source lets through.
\<close>

definition check_local_address ::
    "(string \<Rightarrow> url_parts option) \<Rightarrow> (string \<Rightarrow> nat) \<Rightarrow> js \<Rightarrow> unit result" where
  "check_local_address parse_url is_ip v =
     (case v of
        JStr a \<Rightarrow>
          let ip = is_ip a; first = takeWhile (\<lambda>c. c \<noteq> CHR ''.'') a in
          if ip = 0 \<or> utf16_length a > 64
            \<or> ip = 4 \<and> (starts_with ''0.'' a \<or> list_all is_digit_char first \<and> digits_value first \<ge> 224)
          then raise PolicyDenied
          else if ip = 6 then
            case parse_url (''http://['' @ a @ '']'') of
              None \<Rightarrow> Inl HostError
            | Some u \<Rightarrow>
                if url_hostname u = ''[::]'' \<or> map of_char (take 2 a) \<in> {[102, 102], [102, 70], [70, 102], [70, 70 :: nat]}
                then raise PolicyDenied else Inr ()
          else Inr ()
      | _ \<Rightarrow> raise PolicyDenied)"

definition check_codec :: "(media_codec \<Rightarrow> bool) \<Rightarrow> js \<Rightarrow> media_codec result" where
  "check_codec allowed v =
     (case media_codec_of v of
        None \<Rightarrow> raise UnsupportedCapability
      | Some c \<Rightarrow> if allowed c then Inr c else raise UnsupportedCapability)"

definition codec_mask :: "media_codec list \<Rightarrow> nat" where
  "codec_mask cs = foldl (\<lambda>m c. m OR codec_bit c) 0 cs"

text \<open>The track bit and the codec bits of an optional list of codecs.\<close>

definition codec_track :: "js \<Rightarrow> nat \<Rightarrow> (media_codec \<Rightarrow> bool) \<Rightarrow> nat \<Rightarrow> (nat \<times> nat) result" where
  "codec_track v maximum allowed track =
     (if v = JUndefined then Inr (0, 0)
      else bind_result (allow_list v maximum (check_codec allowed)) (\<lambda>cs. Inr (track, codec_mask cs)))"

definition is_false :: "js \<Rightarrow> bool" where
  "is_false v = (v = JUndefined \<or> v = JBool False)"

definition track_masks :: "js \<Rightarrow> (nat \<times> nat) result" where
  "track_masks tracks =
     bind_result (keys tracks [''video'', ''audio'', ''metadata'', ''backchannel'']) (\<lambda>_.
     bind_result (codec_track (get tracks ''video'') 4 (\<lambda>c. codec_bit c < 16) 1) (\<lambda>(vt, vc).
     bind_result (codec_track (get tracks ''audio'') 2 (\<lambda>c. codec_bit c \<ge> 16) 2) (\<lambda>(aut, auc).
       if get tracks ''metadata'' \<noteq> JUndefined \<and> \<not> is_boolean (get tracks ''metadata'') then raise InvalidConfiguration
       else
         let mt = (if is_false (get tracks ''metadata'') then 0 else 4 :: nat) in
         if get tracks ''backchannel'' \<noteq> JUndefined \<and> get tracks ''backchannel'' \<noteq> JStr ''PCMU''
         then raise UnsupportedCapability
         else
           let bt = (if get tracks ''backchannel'' = JUndefined then 0 else 8 :: nat);
               bc = (if get tracks ''backchannel'' = JUndefined then 0 else codec_bit PCMU);
               track = vt OR aut OR mt OR bt
           in if track = 0 then raise InvalidConfiguration else Inr (track, vc OR auc OR bc))))"

record media_selection =
  selected_limits :: media_limits
  selected_tracks :: nat
  selected_codecs :: nat

definition request_keys :: "string list" where
  "request_keys = [''action'', ''input'', ''formIndex'', ''formRef'', ''addressing'', ''transport'', ''tracks'',
     ''packetOutput'', ''localAddress'', ''replay'', ''signal'', ''timeoutMs'', ''limits'']"

definition validate_media_request ::
    "(string \<Rightarrow> url_parts option) \<Rightarrow> (string \<Rightarrow> nat) \<Rightarrow> js \<Rightarrow> media_selection result" where
  "validate_media_request parse_url is_ip request =
     bind_result (keys request request_keys) (\<lambda>_.
     bind_result (media_text (get request ''action'') 1024 False) (\<lambda>_.
     bind_result (check_form_ref parse_url (get request ''formRef'')) (\<lambda>_.
       if media_transport_of (get request ''transport'') = None
         \<or> get request ''packetOutput'' \<noteq> JUndefined \<and> \<not> is_boolean (get request ''packetOutput'')
         \<or> get request ''formIndex'' \<noteq> JUndefined \<and> \<not> is_index (get request ''formIndex'')
         \<or> get request ''signal'' \<noteq> JUndefined \<and> get request ''signal'' \<noteq> JHost ''AbortSignal''
       then raise InvalidConfiguration
       else
         bind_result (positive_integer_js
             (case get request ''timeoutMs'' of JUndefined \<Rightarrow> JNum (Whole 12000) | JNull \<Rightarrow> JNum (Whole 12000) | t \<Rightarrow> t)
             60000) (\<lambda>_.
         bind_result (check_local_address parse_url is_ip (get request ''localAddress'')) (\<lambda>_.
         bind_result (track_masks (get request ''tracks'')) (\<lambda>(track, codec).
         bind_result (if get request ''replay'' = JUndefined then Inr ()
             else bind_result (validate_replay_range (get request ''replay'')) (\<lambda>_.
               if get request ''transport'' = JStr ''udp-unicast''
                 \<or> get (get request ''tracks'') ''backchannel'' \<noteq> JUndefined
               then raise UnsupportedCapability else Inr ())) (\<lambda>_.
         bind_result (media_limits_of (get request ''limits'')) (\<lambda>limits.
           Inr \<lparr>selected_limits = limits, selected_tracks = track,
                selected_codecs = (if codec = 0 then 1 else codec)\<rparr>))))))))"

end
