(* ===== verification/Media_Protocol.thy ===== *)
theory Media_Protocol
  imports Media_Ipc Media_Policy
begin

section \<open>Messages of the native media protocol\<close>

text \<open>
  Model of \<open>media/protocol.ts\<close>: the checks on the worker's HELLO, READY and CLOSED messages, the
  encoders of OPEN, SECURITY and backchannel payloads, and the decoder of data frames. Messages
  arrive as decoded JSON objects or as frames of \<open>Media_Ipc\<close>; accepted values are records.
  Overwriting of buffers that held secrets is not modelled.
\<close>

subsection \<open>Checked fields\<close>

definition uint_field :: "js \<Rightarrow> int \<Rightarrow> int \<Rightarrow> int result" where
  "uint_field v bound minimum =
     (case v of
        JNum (Whole n) \<Rightarrow>
          if \<not> is_safe_integer (Whole n) \<or> n < minimum \<or> n > bound then raise InvalidValue else Inr n
      | _ \<Rightarrow> raise InvalidValue)"

definition text_field :: "js \<Rightarrow> nat \<Rightarrow> string result" where
  "text_field v bound =
     (case v of
        JStr s \<Rightarrow> if s = [] \<or> has_control_char s \<or> length s > bound then raise InvalidValue else Inr s
      | _ \<Rightarrow> raise InvalidValue)"

text \<open>
  \<open>array(value, bound, check)\<close>: the duplicate check by \<open>Set\<close> compares primitives by value;
  objects that the check has just created never coincide.
\<close>

definition object_array :: "js \<Rightarrow> nat \<Rightarrow> (js \<Rightarrow> 'a result) \<Rightarrow> 'a list result" where
  "object_array v bound check =
     (case v of JArr xs \<Rightarrow> if length xs > bound then raise InvalidValue else map_result check xs
      | _ \<Rightarrow> raise InvalidValue)"

definition value_array :: "js \<Rightarrow> nat \<Rightarrow> (js \<Rightarrow> 'a result) \<Rightarrow> 'a list result" where
  "value_array v bound check =
     bind_result (object_array v bound check) (\<lambda>ys. if distinct ys then Inr ys else raise InvalidValue)"

datatype media_control = OpenControl | CloseControl | PauseControl | PlayControl | SeekControl | CreditControl

definition media_controls :: "(string \<times> media_control) list" where
  "media_controls = [(''open'', OpenControl), (''close'', CloseControl), (''pause'', PauseControl),
     (''play'', PlayControl), (''seek'', SeekControl), (''credit'', CreditControl)]"

definition transport_field :: "js \<Rightarrow> media_transport result" where
  "transport_field v = (case media_transport_of v of None \<Rightarrow> raise InvalidValue | Some t \<Rightarrow> Inr t)"

definition control_field :: "js \<Rightarrow> media_control result" where
  "control_field v =
     (case v of
        JStr s \<Rightarrow> (case map_of media_controls s of None \<Rightarrow> raise InvalidValue | Some c \<Rightarrow> Inr c)
      | _ \<Rightarrow> raise InvalidValue)"

definition codec_field :: "js \<Rightarrow> media_codec result" where
  "codec_field v = (case media_codec_of v of None \<Rightarrow> raise InvalidValue | Some c \<Rightarrow> Inr c)"

subsection \<open>HELLO\<close>

record media_plugin =
  plugin_name :: string
  plugin_version :: string
  plugin_license :: string
  plugin_bytes :: int
  plugin_sha256 :: string

record media_support =
  support_worker :: string
  gstreamer :: string
  native_revision :: string
  decoders :: "media_codec list"
  support_transports :: "media_transport list"
  controls :: "media_control list"
  tls :: bool
  plugins :: "media_plugin list"
  support_backchannel :: bool

text \<open>\<open>/^classic-media-v2-scoped-auth-([1-9][0-9]*)$/\<close> with a safe revision of at least 2.\<close>

definition revision_supported :: "js \<Rightarrow> bool" where
  "revision_supported v =
     (case v of
        JStr s \<Rightarrow>
          let digits = drop 28 s in
          starts_with ''classic-media-v2-scoped-auth'' s \<and> starts_with ''-'' digits
          \<and> list_all is_digit_char (tl digits) \<and> tl digits \<noteq> [] \<and> hd (tl digits) \<noteq> CHR ''0''
          \<and> digits_value (tl digits) \<le> max_safe_integer \<and> digits_value (tl digits) \<ge> 2
      | _ \<Rightarrow> False)"

definition parse_plugin :: "js \<Rightarrow> media_plugin result" where
  "parse_plugin e =
     (if \<not> is_record e then raise InvalidValue
      else bind_result (text_field (get e ''sha256'') 64) (\<lambda>sha.
        if \<not> (length sha = 64 \<and> list_all is_lower_hex_char sha) then raise InvalidValue
        else bind_result (text_field (get e ''name'') 256) (\<lambda>name.
          bind_result (text_field (get e ''version'') 64) (\<lambda>version.
          bind_result (text_field (get e ''license'') 256) (\<lambda>license.
          bind_result (uint_field (get e ''bytes'') 0xffffffff 1) (\<lambda>bytes.
            Inr \<lparr>plugin_name = name, plugin_version = version, plugin_license = license,
                 plugin_bytes = bytes, plugin_sha256 = sha\<rparr>))))))"

definition parse_support :: "js \<Rightarrow> media_support result" where
  "parse_support v =
     (if get v ''protocol'' \<noteq> JNum (Whole 2) \<or> \<not> revision_supported (get v ''nativeRevision'')
        \<or> get v ''nativeCredentialInput'' \<noteq> JBool True \<or> get v ''worker'' \<noteq> JStr ''onvif-media-reference''
        \<or> get v ''scope'' \<noteq> JStr ''explicit-native-origin-interface-principal-policy''
        \<or> get v ''metadataGuard'' \<noteq> JStr ''bounded-xml-root-not-canonical-validation''
        \<or> get v ''certification'' \<noteq> JBool False \<or> get v ''distributionApproved'' \<noteq> JBool False
      then raise UnsupportedCapability
      else if \<not> is_boolean (get v ''tlsBackend'') then raise InvalidValue
      else bind_result (object_array (get v ''plugins'') 128 parse_plugin) (\<lambda>ps.
        if \<not> distinct (map plugin_name ps) then raise InvalidValue
        else if get v ''backchannelInput'' \<noteq> JUndefined
          \<and> get v ''backchannelInput'' \<noteq> JStr ''PCMU-from-S16LE-8000-mono-private-fd5'' then raise UnsupportedCapability
        else
          bind_result (text_field (get v ''gstreamer'') 64) (\<lambda>gst.
          bind_result (text_field (get v ''nativeRevision'') 128) (\<lambda>revision.
          bind_result (value_array (get v ''availableDecoders'') 6 codec_field) (\<lambda>ds.
          bind_result (value_array (get v ''transports'') 5 transport_field) (\<lambda>ts.
          bind_result (value_array (get v ''controls'') 6 control_field) (\<lambda>cs.
            Inr \<lparr>support_worker = ''onvif-media-reference'', gstreamer = gst, native_revision = revision,
                 decoders = ds, support_transports = ts, controls = cs,
                 tls = (get v ''tlsBackend'' = JBool True), plugins = ps,
                 support_backchannel = (get v ''backchannelInput'' \<noteq> JUndefined)\<rparr>))))))) "

subsection \<open>Requests the worker can serve\<close>

text \<open>The fields of a validated \<open>OpenMediaRequest\<close> that the protocol uses.\<close>

record media_request =
  req_transport :: media_transport
  req_video :: "media_codec list option"
  req_audio :: "media_codec list option"
  req_metadata :: bool
  req_backchannel :: bool
  req_packet_output :: bool
  req_local_address :: string
  req_replay :: "replay_range option"
  req_timeout :: int

definition codecs_available :: "media_support \<Rightarrow> media_codec list option \<Rightarrow> bool" where
  "codecs_available support cs = (case cs of None \<Rightarrow> True | Some l \<Rightarrow> \<exists>c\<in>set l. c \<in> set (decoders support))"

definition require_media_support :: "media_support \<Rightarrow> media_request \<Rightarrow> unit result" where
  "require_media_support support request =
     (if req_transport request \<notin> set (support_transports support)
        \<or> \<not> {OpenControl, CloseControl, CreditControl} \<subseteq> set (controls support)
        \<or> req_transport request \<in> {HttpsTunnel, TlsInterleaved} \<and> \<not> tls support
      then raise UnsupportedCapability
      else if \<not> codecs_available support (req_video request) \<or> \<not> codecs_available support (req_audio request)
      then raise UnsupportedCapability
      else if req_backchannel request \<and> (\<not> support_backchannel support \<or> PCMU \<notin> set (decoders support))
      then raise UnsupportedCapability
      else Inr ())"

subsection \<open>READY\<close>

datatype track_kind = VideoTrack | AudioTrack | MetadataTrack

record media_track =
  track_id :: int
  track_kind :: track_kind
  track_receives :: bool
  track_encoding :: string
  track_payload_type :: int
  track_clock_rate :: int

text \<open>
  \<open>encoding.toUpperCase()\<close> as far as it can give one of the two metadata encodings: a to z, and
  the dotless i (U+0131), whose upper case is I.
\<close>

fun upper_case :: "string \<Rightarrow> string" where
  "upper_case (c # d # s) =
     (if of_char c = (0xC4 :: nat) \<and> of_char d = (0xB1 :: nat) then CHR ''I'' # upper_case s
      else (if is_lower_char c then char_of (of_char c - (32 :: nat)) else c) # upper_case (d # s))"
| "upper_case [c] = [if is_lower_char c then char_of (of_char c - (32 :: nat)) else c]"
| "upper_case [] = []"

definition track_kind_name :: "int \<Rightarrow> string" where
  "track_kind_name n = (if n = 1 then ''video'' else if n = 3 then ''metadata'' else ''audio'')"

definition selected_codecs_for :: "media_request \<Rightarrow> int \<Rightarrow> media_codec list option" where
  "selected_codecs_for request n =
     (if n = 1 then req_video request else if n = 2 then req_audio request
      else if req_backchannel request then Some [PCMU] else None)"

definition codec_negotiable :: "media_request \<Rightarrow> media_support \<Rightarrow> js \<Rightarrow> int \<Rightarrow> string \<Rightarrow> bool" where
  "codec_negotiable request support rate n encoding =
     (case (map_of media_codecs encoding, selected_codecs_for request n) of
        (Some c, Some selected) \<Rightarrow> c \<in> set selected \<and> c \<in> set (decoders support)
          \<and> (n = 4 \<longrightarrow> support_backchannel support \<and> rate = JNum (Whole 8000))
      | _ \<Rightarrow> False)"

definition parse_track :: "media_request \<Rightarrow> media_support \<Rightarrow> js \<Rightarrow> media_track result" where
  "parse_track request support e =
     (if \<not> is_record e then raise InvalidValue
      else bind_result (uint_field (get e ''id'') 4 1) (\<lambda>n.
        bind_result (text_field (get e ''encoding'') 128) (\<lambda>encoding.
          if get e ''kind'' \<noteq> JStr (track_kind_name n)
            \<or> get e ''direction'' \<noteq> JStr (if n = 4 then ''send'' else ''receive'') then raise InvalidValue
          else if n = 3 \<and> (\<not> req_metadata request
              \<or> upper_case encoding \<notin> {''VND.ONVIF.METADATA'', ''VND.ONVIF.METADATA.GZIP''})
          then raise UnsupportedCapability
          else if n \<noteq> 3 \<and> \<not> codec_negotiable request support (get e ''clockRate'') n encoding
          then raise UnsupportedCapability
          else bind_result (uint_field (get e ''payloadType'') 127 0) (\<lambda>pt.
            bind_result (uint_field (get e ''clockRate'') 192000 1) (\<lambda>rate.
              Inr \<lparr>track_id = n,
                   track_kind = (if n = 1 then VideoTrack else if n = 3 then MetadataTrack else AudioTrack),
                   track_receives = (n \<noteq> 4), track_encoding = encoding,
                   track_payload_type = pt, track_clock_rate = rate\<rparr>)))))"

definition native_session_id :: "js \<Rightarrow> string result" where
  "native_session_id v = text_field (get v ''nativeSessionId'') 256"

definition parse_ready :: "js \<Rightarrow> media_request \<Rightarrow> media_support \<Rightarrow> media_track list result" where
  "parse_ready v request support =
     bind_result (native_session_id v) (\<lambda>_.
       if get v ''state'' \<noteq> JStr ''playing'' \<or> get v ''protocolReady'' \<noteq> JBool True
         \<or> get v ''receivingIsSeparate'' \<noteq> JBool True then raise InvalidValue
       else bind_result (object_array (get v ''tracks'') 4 (parse_track request support)) (\<lambda>tracks.
         let ids = map track_id tracks in
         if \<not> distinct ids \<or> (req_video request \<noteq> None) \<noteq> (1 \<in> set ids)
           \<or> (req_audio request \<noteq> None) \<noteq> (2 \<in> set ids) \<or> req_metadata request \<noteq> (3 \<in> set ids)
           \<or> req_backchannel request \<noteq> (4 \<in> set ids)
         then raise UnsupportedCapability else Inr tracks))"

subsection \<open>Backchannel\<close>

record backchannel_chunk =
  chunk_pts_ns :: int
  chunk_bytes :: "byte list"

definition backchannel_chunk_of :: "js \<Rightarrow> backchannel_chunk result" where
  "backchannel_chunk_of v =
     (if \<not> is_record v
        \<or> (\<exists>k\<in>set (own_keys v). k \<notin> {''format'', ''sampleRate'', ''channels'', ''ptsNs'', ''bytes''})
        \<or> get v ''format'' \<noteq> JStr ''S16LE'' \<or> get v ''sampleRate'' \<noteq> JNum (Whole 8000)
        \<or> get v ''channels'' \<noteq> JNum (Whole 1)
      then raise InvalidValue
      else case (get v ''ptsNs'', get v ''bytes'') of
          (JBig pts, JBytes bs) \<Rightarrow>
            if pts < 0 \<or> pts > 0xffffffffffffffff \<or> bs = [] \<or> length bs > 1600 \<or> length bs mod 320 \<noteq> 0
            then raise InvalidValue
            else Inr \<lparr>chunk_pts_ns = pts, chunk_bytes = bs\<rparr>
        | _ \<Rightarrow> raise InvalidValue)"

definition encode_backchannel :: "backchannel_chunk \<Rightarrow> int \<Rightarrow> byte list result" where
  "encode_backchannel chunk samples =
     (if chunk_pts_ns chunk \<noteq> samples * 125000 then raise InvalidValue
      else Inr (be_bytes 2 4 @ be_bytes 2 2 @ be_bytes 4 8000 @ be_bytes 2 1 @ be_bytes 2 0
             @ be_bytes 4 (length (chunk_bytes chunk) div 2) @ chunk_bytes chunk))"

subsection \<open>OPEN and SECURITY\<close>

record open_descriptor =
  open_request :: media_request
  open_scope :: media_security_scope
  open_trust :: media_trust
  open_limits :: media_limits
  open_track_mask :: nat
  open_codec_mask :: nat
  credential_handle :: int
  trust_handle :: int

definition uint32 :: "int \<Rightarrow> int \<Rightarrow> byte list result" where
  "uint32 n minimum = bind_result (uint_field (JNum (Whole n)) 0xffffffff minimum) (\<lambda>m. Inr (be_bytes 4 (nat m)))"

definition transport_number :: "media_transport \<Rightarrow> nat" where
  "transport_number t = (case t of TcpInterleaved \<Rightarrow> 1 | UdpUnicast \<Rightarrow> 2 | HttpTunnel \<Rightarrow> 3
     | HttpsTunnel \<Rightarrow> 4 | TlsInterleaved \<Rightarrow> 5)"

definition concat_results :: "byte list result list \<Rightarrow> byte list result" where
  "concat_results rs = bind_result (map_result (\<lambda>r. r) rs) (\<lambda>bss. Inr (concat bss))"

definition ipc_strings :: "string list \<Rightarrow> byte list result" where
  "ipc_strings values =
     bind_result (uint_field (JNum (Whole (int (length values)))) 16 0) (\<lambda>n.
     bind_result (map_result (\<lambda>s. ipc_string s 2048) values) (\<lambda>bss.
       Inr (be_bytes 2 (nat n) @ concat bss)))"

text \<open>
  The fixed part of OPEN. A replay range has passed \<open>validateReplayRange\<close>, so that its bounds
  fit \<open>writeBigUInt64BE\<close>.
\<close>

definition open_fixed :: "open_descriptor \<Rightarrow> byte list result" where
  "open_fixed d =
     (let request = open_request d; limits = open_limits d in
      bind_result (uint_field (JNum (Whole (int (open_track_mask d)))) 15 1) (\<lambda>tracks.
      bind_result (concat_results (uint32 (credential_handle d) 0 # uint32 (trust_handle d) 1
          # Inr (be_bytes 8 (nat (case req_replay request of None \<Rightarrow> 0 | Some r \<Rightarrow> start_ntp_ns r)))
          # Inr (be_bytes 8 (nat (case req_replay request of None \<Rightarrow> 0 | Some r \<Rightarrow> end_ntp_ns r)))
          # map (\<lambda>n. uint32 n 0)
              [wire_bytes limits, inflated_bytes limits, metadata_deadline_ms limits, queue_bytes limits,
               queue_units limits, max_width limits, max_height limits, decoded_bytes limits,
               int (open_codec_mask d)])) (\<lambda>rest.
        Inr ([(if req_replay request = None then 0 else 1), word_of_nat (transport_number (req_transport request)),
              word_of_int tracks,
              (if req_packet_output request then 1 else 0) + (if is_digest (scope_authentication (open_scope d)) then 0 else 2)]
             @ rest))))"

definition encode_open :: "open_descriptor \<Rightarrow> byte list result" where
  "encode_open d =
     bind_result (concat_results
         [open_fixed d,
          ipc_string (scope_uri (open_scope d)) 2048, ipc_string (scope_target (open_scope d)) 256,
          ipc_string (scope_principal (open_scope d)) 256, ipc_string (req_local_address (open_request d)) 64,
          ipc_strings (allowed_origins (open_trust d)), ipc_strings (allowed_redirect_origins (open_trust d))]) (\<lambda>bs.
       if length bs > control_max then raise InvalidValue else Inr bs)"

definition legacy_flag :: "media_security_scope \<Rightarrow> byte" where
  "legacy_flag scope =
     (if legacy_md5 (scope_authentication scope)
        \<or> (case scope_tunnel_authentication scope of Some t \<Rightarrow> legacy_md5 t | None \<Rightarrow> False) then 1 else 0)"

definition from_credential :: "(scoped_password \<Rightarrow> string) \<Rightarrow> scoped_password option \<Rightarrow> string" where
  "from_credential f c = (case c of None \<Rightarrow> [] | Some p \<Rightarrow> f p)"

definition encode_security :: "open_descriptor \<Rightarrow> media_security_material \<Rightarrow> byte list result" where
  "encode_security d material =
     (let scope = open_scope d; native = material_native material; tunnel = material_tunnel material in
      bind_result (concat_results
          [uint32 (credential_handle d) 0, uint32 (trust_handle d) 1, Inr [legacy_flag scope, 0, 0, 0],
           ipc_string (scope_target scope) 256, ipc_string (scope_principal scope) 256,
           ipc_string (scope_origin scope) 2048,
           ipc_string (from_credential cred_realm native) 1024, ipc_string (from_credential cred_username native) 1024,
           ipc_string (from_credential cred_password native) 1024,
           ipc_string (from_credential cred_origin tunnel) 2048, ipc_string (from_credential cred_realm tunnel) 1024,
           ipc_string (from_credential cred_username tunnel) 1024, ipc_string (from_credential cred_password tunnel) 1024,
           ipc_string (case material_ca material of None \<Rightarrow> [] | Some s \<Rightarrow> s) 32768]) (\<lambda>bs.
        if length bs > control_max then raise InvalidValue else Inr bs))"

subsection \<open>Data frames\<close>

text \<open>\<open>buffer[i] ?? 0\<close>\<close>

definition read8 :: "byte list \<Rightarrow> nat \<Rightarrow> nat" where
  "read8 bs i = (if i < length bs then unat (bs ! i) else 0)"

definition check_descriptor :: "ipc_frame \<Rightarrow> nat \<Rightarrow> nat option \<Rightarrow> int \<Rightarrow> unit result" where
  "check_descriptor f fixed length_at bound =
     (let p = payload f in
      if session f = 0 \<or> generation f = 0 \<or> sequence f = 0 \<or> length p < fixed
        \<or> length_at = None \<and> length p \<noteq> fixed then raise InvalidValue
      else case length_at of
          None \<Rightarrow> Inr ()
        | Some i \<Rightarrow>
            if read32 p i = 0 \<or> read32 p i \<noteq> length p - fixed \<or> int (read32 p i) > bound
            then raise InvalidValue else Inr ())"

text \<open>The header extension of an RTP packet: (replay, jpeg, offset of the payload).\<close>

definition rtp_extension :: "byte list \<Rightarrow> byte list \<Rightarrow> nat \<Rightarrow> (bool \<times> bool \<times> nat) result" where
  "rtp_extension p packet offset =
     (if read8 packet 0 div 16 mod 2 = 0 then Inr (False, False, offset)
      else if offset + 4 > length packet then raise InvalidValue
      else
        let profile = read16 packet offset; words = read16 packet (offset + 2);
            stop = offset + 4 + words * 4; base = offset + 4
        in if stop > length packet then raise InvalidValue
           else if profile = 0xabac then
             (if words < 3 \<or> read64 packet base \<noteq> read64 p 24 \<or> read8 packet (base + 8) \<noteq> read8 p 10
                \<or> read8 packet (base + 9) \<noteq> read8 p 11 \<or> read16 packet (base + 10) \<noteq> 0
                \<or> read8 packet (base + 8) mod 16 \<noteq> 0
              then raise InvalidValue
              else if words > 3 then
                (if words < 4 \<or> words \<noteq> 4 + read16 packet (base + 14) then raise InvalidValue
                 else Inr (True, read16 packet (base + 12) \<in> {0xffd8, 0xffff}, stop))
              else Inr (True, profile \<in> {0xffd8, 0xffff}, stop))
           else Inr (False, profile \<in> {0xffd8, 0xffff}, stop))"

definition check_rtp :: "byte list \<Rightarrow> byte list \<Rightarrow> unit result" where
  "check_rtp p packet =
     (if length packet < 12 \<or> read8 packet 0 div 64 \<noteq> 2 \<or> read8 p 3 > 1
        \<or> read8 packet 1 mod 128 \<noteq> read8 p 2 \<or> read8 packet 1 div 128 \<noteq> read8 p 3
        \<or> read16 packet 2 \<noteq> read16 p 8 \<or> read32 packet 4 \<noteq> read32 p 12 \<or> read32 packet 8 \<noteq> read32 p 4
      then raise InvalidValue
      else
        let offset = 12 + 4 * (read8 packet 0 mod 16) in
        if offset > length packet then raise InvalidValue
        else bind_result (rtp_extension p packet offset) (\<lambda>(replay, jpeg, stop).
          let options = read32 p 32 in
          if options > 3 \<or> (options mod 2 = 1) \<noteq> replay \<or> (options div 2 mod 2 = 1) \<noteq> jpeg
            \<or> \<not> replay \<and> (read64 p 24 \<noteq> 0 \<or> read8 p 10 \<noteq> 0 \<or> read8 p 11 \<noteq> 0) then raise InvalidValue
          else if read8 packet 0 div 32 mod 2 = 1
            \<and> (read8 packet (length packet - 1) = 0 \<or> read8 packet (length packet - 1) > length packet - stop)
          then raise InvalidValue else Inr ()))"

record media_unit =
  unit_track :: nat
  unit_generation :: nat
  unit_sequence :: nat

record rtp_packet = media_unit +
  payload_type :: nat
  marker :: bool
  ssrc :: nat
  rtp_sequence :: nat
  rtp_timestamp :: nat
  receipt_mono_ns :: nat
  replay_ntp :: nat
  replay_flags :: nat
  play_cseq_low :: nat
  replay_extension :: bool
  jpeg_extension :: bool
  packet_bytes :: "byte list"

record sender_report = media_unit +
  report_ssrc :: nat
  report_rtp_timestamp :: nat
  report_ntp :: nat
  report_receipt_mono_ns :: nat
  report_clock_rate :: nat
  incarnation :: nat

datatype sample_format = I420 | S16LE

record decoded_frame = media_unit +
  frame_format :: sample_format
  frame_width :: nat
  frame_height :: nat
  sample_rate :: nat
  channel_count :: nat
  sample_count :: nat
  pts_ns :: "nat option"
  sample_bytes :: "byte list"

record metadata_document = media_unit +
  first_rtp_sequence :: nat
  last_rtp_sequence :: nat
  metadata_ssrc :: nat
  first_rtp_timestamp :: nat
  last_rtp_timestamp :: nat
  metadata_receipt_mono_ns :: nat
  xml :: "byte list"

datatype native_unit =
    RtpUnit rtp_packet | DecodedUnit decoded_frame | MetadataUnit metadata_document | ReportUnit sender_report

fun native_track :: "native_unit \<Rightarrow> nat" where
  "native_track (RtpUnit u) = unit_track u"
| "native_track (DecodedUnit u) = unit_track u"
| "native_track (MetadataUnit u) = unit_track u"
| "native_track (ReportUnit u) = unit_track u"

definition uint_value :: "nat \<Rightarrow> int \<Rightarrow> int \<Rightarrow> nat result" where
  "uint_value n bound minimum = bind_result (uint_field (JNum (Whole (int n))) bound minimum) (\<lambda>m. Inr (nat m))"

definition decode_rtp :: "ipc_frame \<Rightarrow> media_limits \<Rightarrow> native_unit result" where
  "decode_rtp f limits =
     (let p = payload f in
      bind_result (check_descriptor f 40 (Some 36) (wire_bytes limits)) (\<lambda>_.
      bind_result (uint_value (read16 p 0) 3 1) (\<lambda>track.
      bind_result (check_rtp p (drop 40 p)) (\<lambda>_.
        Inr (RtpUnit \<lparr>unit_track = track, unit_generation = generation f, unit_sequence = sequence f,
          payload_type = read8 p 2, marker = (read8 p 3 = 1), ssrc = read32 p 4, rtp_sequence = read16 p 8,
          rtp_timestamp = read32 p 12, receipt_mono_ns = read64 p 16, replay_ntp = read64 p 24,
          replay_flags = read8 p 10, play_cseq_low = read8 p 11,
          replay_extension = (read32 p 32 mod 2 = 1), jpeg_extension = (read32 p 32 div 2 mod 2 = 1),
          packet_bytes = drop 40 p\<rparr>)))))"

definition decode_decoded :: "ipc_frame \<Rightarrow> media_limits \<Rightarrow> native_unit result" where
  "decode_decoded f limits =
     (let p = payload f in
      bind_result (check_descriptor f 36 (Some 32) (decoded_bytes limits)) (\<lambda>_.
      bind_result (uint_value (read16 p 0) 2 1) (\<lambda>track.
        let format = read16 p 2; width = read32 p 4; height = read32 p 8; rate = read32 p 12;
            chans = read16 p 16; count = read32 p 20; bs = drop 36 p; pts = read64 p 24
        in if format \<noteq> track \<or> read16 p 18 \<noteq> 0 \<or> count = 0 then raise InvalidValue
           else if format = 1 \<and> (width = 0 \<or> height = 0 \<or> int width > max_width limits \<or> int height > max_height limits
               \<or> rate \<noteq> 0 \<or> chans \<noteq> 0 \<or> count \<noteq> 1
               \<or> length bs \<noteq> width * height + 2 * ((width + 1) div 2) * ((height + 1) div 2))
           then raise InvalidValue
           else if format \<noteq> 1 \<and> (width \<noteq> 0 \<or> height \<noteq> 0 \<or> rate = 0 \<or> rate > 96000 \<or> chans = 0 \<or> chans > 8
               \<or> length bs \<noteq> count * chans * 2)
           then raise InvalidValue
           else Inr (DecodedUnit \<lparr>unit_track = track, unit_generation = generation f, unit_sequence = sequence f,
             frame_format = (if format = 1 then I420 else S16LE), frame_width = width, frame_height = height,
             sample_rate = rate, channel_count = chans, sample_count = count,
             pts_ns = (if pts = 0xffffffffffffffff then None else Some pts), sample_bytes = bs\<rparr>))))"

definition decode_metadata_frame :: "ipc_frame \<Rightarrow> media_limits \<Rightarrow> native_unit result" where
  "decode_metadata_frame f limits =
     (let p = payload f in
      bind_result (check_descriptor f 32 (Some 28) (inflated_bytes limits)) (\<lambda>_.
        if read16 p 0 \<noteq> 3 \<or> read16 p 2 \<noteq> 0 then raise InvalidValue
        else Inr (MetadataUnit \<lparr>unit_track = 3, unit_generation = generation f, unit_sequence = sequence f,
          first_rtp_sequence = read16 p 4, last_rtp_sequence = read16 p 6, metadata_ssrc = read32 p 8,
          first_rtp_timestamp = read32 p 12, last_rtp_timestamp = read32 p 16,
          metadata_receipt_mono_ns = read64 p 20, xml = drop 32 p\<rparr>)))"

definition decode_report :: "ipc_frame \<Rightarrow> native_unit result" where
  "decode_report f =
     (let p = payload f in
      bind_result (check_descriptor f 36 None 0) (\<lambda>_.
        if read16 p 2 \<noteq> 0 then raise InvalidValue
        else bind_result (uint_value (read16 p 0) 3 1) (\<lambda>track.
          bind_result (uint_value (read32 p 28) 192000 1) (\<lambda>rate.
          bind_result (uint_value (read32 p 32) 0xffffffff 1) (\<lambda>inc.
            Inr (ReportUnit \<lparr>unit_track = track, unit_generation = generation f, unit_sequence = sequence f,
              report_ssrc = read32 p 4, report_rtp_timestamp = read32 p 8, report_ntp = read64 p 12,
              report_receipt_mono_ns = read64 p 20, report_clock_rate = rate, incarnation = inc\<rparr>))))))"

definition decode_media_data :: "ipc_frame \<Rightarrow> media_limits \<Rightarrow> native_unit result" where
  "decode_media_data f limits =
     (if kind f = kind_rtp then decode_rtp f limits
      else if kind f = kind_decoded then decode_decoded f limits
      else if kind f = kind_metadata then decode_metadata_frame f limits
      else if kind f = kind_rtcp then decode_report f
      else raise InvalidValue)"

subsection \<open>CLOSED\<close>

datatype remote_outcome = Acknowledged | AlreadyEnded | Uncertain | NotCreated

record close_receipt =
  receipt_cleanup :: bool
  receipt_remote :: remote_outcome
  receipt_status :: int
  receipt_discarded :: int
  receipt_peak :: int
  receipt_packets :: int
  receipt_samples :: int

definition remote_outcomes :: "(string \<times> remote_outcome) list" where
  "remote_outcomes = [(''acknowledged'', Acknowledged), (''already-ended'', AlreadyEnded),
     (''uncertain'', Uncertain), (''not-created'', NotCreated)]"

definition status_agrees :: "remote_outcome \<Rightarrow> int \<Rightarrow> bool" where
  "status_agrees remote status =
     (case remote of
        Acknowledged \<Rightarrow> 200 \<le> status \<and> status < 300
      | AlreadyEnded \<Rightarrow> status = 454
      | NotCreated \<Rightarrow> status = 0
      | Uncertain \<Rightarrow> \<not> (200 \<le> status \<and> status < 300 \<or> status = 454))"

definition parse_close :: "js \<Rightarrow> close_receipt result" where
  "parse_close v =
     (case (get v ''localCleanup'', case get v ''remote'' of JStr s \<Rightarrow> map_of remote_outcomes s | _ \<Rightarrow> None) of
        (JBool cleanup, Some remote) \<Rightarrow>
          if get v ''awaitWorkerExit'' \<noteq> JBool True then raise InvalidValue
          else bind_result (uint_field (get v ''teardownStatus'') 599 0) (\<lambda>status.
            if \<not> status_agrees remote status then raise InvalidValue
            else bind_result (uint_field (get v ''backchannelPackets'') 0xffffffff 0) (\<lambda>packets.
              bind_result (uint_field (get v ''backchannelSamples'') 0xffffffff 0) (\<lambda>samples.
                if samples < packets \<or> samples > packets * 160 then raise InvalidValue
                else bind_result (uint_field (get v ''dataDiscardedFrames'') 0xffffffff 0) (\<lambda>discarded.
                  bind_result (uint_field (get v ''dataQueuePeakBytes'') (128 * 1024 * 1024) 0) (\<lambda>peak.
                    Inr \<lparr>receipt_cleanup = cleanup, receipt_remote = remote, receipt_status = status,
                         receipt_discarded = discarded, receipt_peak = peak,
                         receipt_packets = packets, receipt_samples = samples\<rparr>)))))
      | _ \<Rightarrow> raise InvalidValue)"

end
