(* ===== verification/Media_Session.thy ===== *)
theory Media_Session
  imports Media_Queue Media_Protocol
begin

section \<open>The native media session\<close>

text \<open>
  Model of class \<open>NativeSession\<close> in \<open>media/session.ts\<close>, which owns one media worker: it opens
  the session (HELLO, SECURITY, OPEN, READY), routes data frames into three bounded queues,
  returns credits for what consumers have released, runs one media control at a time, and closes
  (CLOSE, CLOSED, process exit, deadlines).

  The state is the object's private fields. Each callback the object registers is one event of
  \<open>session_step\<close>; a handler that may throw returns a result with the state it leaves. What the
  object does to the outside is appended to \<open>outputs\<close>; its promises are \<open>ready\<close>,
  \<open>completion\<close> and the log \<open>control_results\<close>. The outcome of a pipe write arrives as an event of
  its own, at any later time and with any result, which covers what \<open>write\<close> can do.

  A queue announces a release or a gap to the session through its effect log; the session absorbs
  the new effects after each queue operation. (Releases and gaps only move counters and publish
  diagnostics, and the state of the session does not change inside a queue operation, so it does
  not matter that the source interleaves them with the rest of the queue operation.)
\<close>

subsection \<open>Values\<close>

datatype session_state = Opening | Playing | Paused | Closing | Closed

datatype diagnostic_kind = GapDiagnostic | NativeDiagnostic | LifecycleDiagnostic

record diagnostic =
  diagnostic_kind :: diagnostic_kind
  diagnostic_code :: string
  diagnostic_generation :: nat
  diagnostic_track :: "nat option"
  dropped_units :: "int option"
  diagnostic_status :: "int option"
  diagnostic_method :: "string option"
  last_data_sequence :: "nat option"
  certificate_errors :: "int option"

record media_metadata =
  metadata_source :: metadata_document
  metadata_value :: js
  original_thing :: string
  original_target :: string
  original_uri :: string
  original_session :: string
  clock_rate :: int
  clock_report :: "sender_report option"

datatype media_item = PacketItem native_unit | MetadataItem media_metadata | FrameItem decoded_frame

datatype media_stream = Packets | Metadata | Frames

record staged_unit =
  staged_value :: native_unit
  staged_size :: nat

record end_mark =
  end_generation :: nat
  watermark :: nat
  observed_at :: int
  end_complete :: bool

record pending_control =
  pending_kind :: nat
  pending_sequence :: nat
  pending_generation :: nat

record control_receipt =
  receipt_state :: session_state
  receipt_generation :: nat

record worker_exit =
  exit_observed :: bool
  exit_code :: "int option"
  exit_signal :: "string option"
  spawn_failed :: bool

record close_result =
  close_remote :: remote_outcome
  local_cleanup :: bool
  teardown_status :: int
  close_exit :: worker_exit
  close_terminated :: bool
  close_dropped :: int
  close_dropped_diagnostics :: int
  close_stderr :: nat
  close_backchannel :: "(int \<times> int) option"
  close_failure :: "onvif_error option"

datatype session_output =
    CommandFrame ipc_frame "byte list" | SecretsFrame "byte list" | AudioFrame ipc_frame "byte list"
  | EndSecrets | EndAudio | DestroyCommands | DestroySecrets | DestroyAudio | TerminateWorker

text \<open>
  The writable that sends audio back: the chunks it has accepted and not yet completed (the first
  one is being written or paced), and the native sample clock. \<open>bc_ended\<close> says that its owner has
  ended it, \<open>bc_flushed\<close> that it has ended the pipe after its last chunk.
\<close>

datatype write_phase = Idle | Sending | Pacing

record backchannel =
  bc_chunks :: "backchannel_chunk list"
  bc_phase :: write_phase
  bc_samples :: int
  bc_sequence :: nat
  bc_ended :: bool
  bc_flushed :: bool
  bc_destroyed :: bool

record native_session =
  session_id :: nat
  descriptor :: open_descriptor
  session_mode :: media_mode
  streams :: "media_stream \<Rightarrow> media_item queue"
  unit_sizes :: "media_stream \<Rightarrow> nat \<Rightarrow> int"
  diagnostics :: "diagnostic queue"
  readers :: "nat list"
  sender_reports :: "nat \<Rightarrow> sender_report option"
  control_decoder :: decoder
  data_decoder :: decoder
  material :: "media_security_material option"
  inventory :: "media_support option"
  negotiated :: "media_track list"
  sending :: "backchannel option"
  native_identity :: string
  ending :: "end_mark option"
  current_state :: session_state
  current_generation :: nat
  expected_generation :: nat
  command_sequence :: nat
  open_sequence :: nat
  close_sequence :: nat
  data_sequence :: nat
  open_sent :: bool
  session_failure :: "onvif_error option"
  receipt :: "close_receipt option"
  pending_command :: "pending_control option"
  abandoned :: "pending_control option"
  staged :: "staged_unit list"
  staged_bytes :: int
  credit_bytes :: int
  credit_units :: int
  credit_writing :: bool
  outstanding_bytes :: int
  outstanding_units :: int
  local_dropped :: int
  diagnostic_dropped :: int
  stderr_count :: nat
  terminated :: bool
  open_timer :: bool
  close_timer :: bool
  kill_timer :: bool
  watchdog :: bool
  signal_aborted :: bool
  awaiting_secrets :: bool
  deferred :: "onvif_error list"
  uncaught :: "onvif_error list"
  ready :: "unit result option"
  completion :: "close_result option"
  control_results :: "(nat \<times> control_receipt result) list"
  outputs :: "session_output list"

abbreviation session_limits :: "native_session \<Rightarrow> media_limits" where
  "session_limits s \<equiv> open_limits (descriptor s)"

definition is_closing :: "native_session \<Rightarrow> bool" where
  "is_closing s = (current_state s = Closing \<or> current_state s = Closed)"

definition put_output :: "session_output \<Rightarrow> native_session \<Rightarrow> native_session" where
  "put_output out s = s\<lparr>outputs := outputs s @ [out]\<rparr>"

text \<open>\<open>mediaError\<close> and \<open>mediaAborted\<close> of \<open>media/async.ts\<close>, and the settling of a \<open>Deferred\<close>.\<close>

definition media_error :: "onvif_error \<Rightarrow> execution \<Rightarrow> onvif_error" where
  "media_error e x = (case e of OnvifError _ _ \<Rightarrow> e | HostError \<Rightarrow> OnvifError TransportError x)"

definition media_aborted :: "execution \<Rightarrow> onvif_error" where
  "media_aborted x = OnvifError TransportError x"

definition sent_execution :: "native_session \<Rightarrow> execution" where
  "sent_execution s = (if open_sent s then Unknown else NotSent)"

definition settle_ready :: "unit result \<Rightarrow> native_session \<Rightarrow> native_session" where
  "settle_ready r s = (if ready s = None then s\<lparr>ready := Some r\<rparr> else s)"

definition or_else :: "'a option \<Rightarrow> 'a \<Rightarrow> 'a" where
  "or_else x y = (case x of None \<Rightarrow> y | Some z \<Rightarrow> z)"

subsection \<open>Diagnostics, credits and queues\<close>

definition diagnose :: "diagnostic_kind \<Rightarrow> string \<Rightarrow> nat option \<Rightarrow> int option \<Rightarrow> diagnostic" where
  "diagnose k code track dropped = \<lparr>diagnostic_kind = k, diagnostic_code = code, diagnostic_generation = 0,
     diagnostic_track = track, dropped_units = dropped, diagnostic_status = None, diagnostic_method = None,
     last_data_sequence = None, certificate_errors = None\<rparr>"

fun gap_total :: "'v effect list \<Rightarrow> int" where
  "gap_total [] = 0"
| "gap_total (Gap n # es) = int n + gap_total es"
| "gap_total (_ # es) = gap_total es"

definition diagnostic :: "diagnostic \<Rightarrow> native_session \<Rightarrow> native_session" where
  "diagnostic d s =
     (let q = diagnostics s;
          q' = snd (publish (d\<lparr>diagnostic_generation := current_generation s\<rparr>) (Whole 256) q)
      in s\<lparr>diagnostics := q',
           diagnostic_dropped := diagnostic_dropped s + gap_total (drop (length (effects q)) (effects q'))\<rparr>)"

definition credit :: "int \<Rightarrow> native_session \<Rightarrow> native_session" where
  "credit n s =
     (if is_closing s then s else s\<lparr>credit_bytes := credit_bytes s + n, credit_units := credit_units s + 1\<rparr>)"

fun absorb :: "media_stream \<Rightarrow> media_item effect \<Rightarrow> native_session \<Rightarrow> native_session" where
  "absorb stream (Gap n) s =
     diagnostic (diagnose GapDiagnostic ''ConsumerQueueOverflow'' None (Some (int n)))
       (s\<lparr>local_dropped := local_dropped s + int n\<rparr>)"
| "absorb stream (Released u) s = credit (unit_sizes s stream u) s"
| "absorb stream (Settle r v) s = s"

definition on_stream :: "media_stream \<Rightarrow> (media_item queue \<Rightarrow> 'r \<times> media_item queue) \<Rightarrow> native_session \<Rightarrow> 'r \<times> native_session" where
  "on_stream stream f s =
     (let q = streams s stream; (r, q') = f q
      in (r, fold (absorb stream) (drop (length (effects q)) (effects q')) (s\<lparr>streams := (streams s)(stream := q')\<rparr>)))"

definition publish_item :: "media_stream \<Rightarrow> media_item \<Rightarrow> nat \<Rightarrow> native_session \<Rightarrow> unit result \<times> native_session" where
  "publish_item stream item n s =
     on_stream stream (publish item (Whole (int n)))
       (s\<lparr>unit_sizes := (unit_sizes s)(stream := (unit_sizes s stream)(next_unit (streams s stream) := int n))\<rparr>)"

definition update_stream :: "media_stream \<Rightarrow> (media_item queue \<Rightarrow> media_item queue) \<Rightarrow> native_session \<Rightarrow> native_session" where
  "update_stream stream f s = snd (on_stream stream (\<lambda>q. ((), f q)) s)"

subsection \<open>Commands\<close>

definition allocate_sequence :: "native_session \<Rightarrow> nat result \<times> native_session" where
  "allocate_sequence s =
     (if command_sequence s = 0xffffffff then (raise InvalidValue, s)
      else (Inr (Suc (command_sequence s)), s\<lparr>command_sequence := Suc (command_sequence s)\<rparr>))"

definition envelope :: "nat \<Rightarrow> nat \<Rightarrow> nat \<Rightarrow> nat \<Rightarrow> byte list \<Rightarrow> byte list result" where
  "envelope k owner gen seq body =
     encode_envelope (Whole (int k)) (Whole (int owner)) (Whole (int gen)) (Whole (int seq)) body"

definition send :: "nat \<Rightarrow> nat \<Rightarrow> byte list \<Rightarrow> nat \<Rightarrow> native_session \<Rightarrow> unit result \<times> native_session" where
  "send k seq body gen s =
     (case envelope k (session_id s) gen seq body of
        Inl e \<Rightarrow> (Inl e, s)
      | Inr bs \<Rightarrow> (Inr (), put_output (CommandFrame
          \<lparr>kind = k, session = session_id s, generation = gen, sequence = seq, payload = body\<rparr> bs) s))"

subsection \<open>Closing\<close>

definition destroy_backchannel :: "backchannel \<Rightarrow> backchannel" where
  "destroy_backchannel b = b\<lparr>bc_chunks := [], bc_phase := Idle, bc_destroyed := True\<rparr>"

definition destroy_sending :: "native_session \<Rightarrow> native_session" where
  "destroy_sending s =
     (case sending s of
        None \<Rightarrow> s
      | Some b \<Rightarrow>
          if bc_destroyed b then s
          else (if bc_flushed b then s else put_output EndAudio s)\<lparr>sending := Some (destroy_backchannel b)\<rparr>)"

definition destroy_readers :: "native_session \<Rightarrow> native_session" where
  "destroy_readers s =
     (fold (\<lambda>i. update_stream Frames (detach i)) (readers s) s)\<lparr>readers := []\<rparr>"

definition finish_readers :: "native_session \<Rightarrow> native_session" where
  "finish_readers s =
     (let s1 = fold (\<lambda>item s. credit (int (staged_size item)) (s\<lparr>local_dropped := local_dropped s + 1\<rparr>))
                 (staged s) (s\<lparr>material := None\<rparr>);
          s2 = s1\<lparr>staged := [], staged_bytes := 0,
                  local_dropped := local_dropped s1 + int (queued_units (streams s1 Packets))
                    + int (queued_units (streams s1 Metadata)) + int (queued_units (streams s1 Frames))\<rparr>;
          s3 = update_stream Frames (finish (session_failure s2))
                (update_stream Metadata (finish (session_failure s2))
                (update_stream Packets (finish (session_failure s2)) s2));
          s4 = destroy_sending (destroy_readers s3)
      in s4\<lparr>credit_bytes := 0, credit_units := 0\<rparr>)"

definition abandon_pending :: "native_session \<Rightarrow> native_session" where
  "abandon_pending s =
     (case pending_command s of
        None \<Rightarrow> s
      | Some p \<Rightarrow> s\<lparr>abandoned := Some p, pending_command := None,
          control_results := control_results s
            @ [(pending_sequence p, Inl (or_else (session_failure s) (OnvifError OutcomeUnknown Unknown)))]\<rparr>)"

definition begin_close :: "native_session \<Rightarrow> unit result \<times> native_session" where
  "begin_close s =
     (if is_closing s then (Inr (), s)
      else
        let acknowledged = (open_sent s \<and> receipt s = None);
            s1 = settle_ready (Inl (or_else (session_failure s) (OnvifError RuntimeClosed NotSent)))
                   (s\<lparr>current_state := Closing, ending := None, open_timer := False\<rparr>);
            s2 = put_output DestroyAudio (put_output DestroySecrets (finish_readers (abandon_pending s1)));
            s3 = s2\<lparr>close_timer := True\<rparr>
        in if acknowledged then
             (case allocate_sequence s3 of
                (Inl e, s4) \<Rightarrow> (Inl e, s4)
              | (Inr n, s4) \<Rightarrow> send kind_close n [] (current_generation s4) (s4\<lparr>close_sequence := n\<rparr>))
           else (Inr (), put_output DestroyCommands s3))"

definition fail :: "onvif_error \<Rightarrow> native_session \<Rightarrow> unit result \<times> native_session" where
  "fail e s =
     (if current_state s = Closed then (Inr (), s)
      else
        let f = or_else (session_failure s) e
        in begin_close (settle_ready (Inl f) (s\<lparr>session_failure := Some f\<rparr>)))"

text \<open>An exception that leaves a callback of the event loop.\<close>

definition escape :: "unit result \<times> native_session \<Rightarrow> native_session" where
  "escape rs = (case rs of (Inl e, s) \<Rightarrow> s\<lparr>uncaught := uncaught s @ [e]\<rparr> | (Inr _, s) \<Rightarrow> s)"

text \<open>\<open>try { handler } catch (error) { this.fail(mediaError(error, ...)) }\<close>\<close>

definition guarded :: "execution \<Rightarrow> unit result \<times> native_session \<Rightarrow> native_session" where
  "guarded x rs = (case rs of (Inl e, s) \<Rightarrow> escape (fail (media_error e x) s) | (Inr _, s) \<Rightarrow> s)"

definition clean_exit :: "worker_exit \<Rightarrow> bool" where
  "clean_exit x = (exit_observed x \<and> exit_code x = Some 0 \<and> exit_signal x = None \<and> \<not> spawn_failed x)"

definition note_failure :: "onvif_error \<Rightarrow> native_session \<Rightarrow> native_session" where
  "note_failure e s = s\<lparr>session_failure := Some (or_else (session_failure s) e)\<rparr>"

text \<open>
  \<open>exited\<close>: what the exit adds to the failure, the state it closes into, and the result it reports.
\<close>

definition exit_remote :: "native_session \<Rightarrow> remote_outcome" where
  "exit_remote s = (case receipt s of Some r \<Rightarrow> receipt_remote r | None \<Rightarrow> if open_sent s then Uncertain else NotCreated)"

definition exit_noted :: "worker_exit \<Rightarrow> native_session \<Rightarrow> native_session" where
  "exit_noted x s =
     (let s1 = (if clean_exit x then s else note_failure (OnvifError TransportError (sent_execution s)) s)
      in if exit_remote s1 = Uncertain then note_failure (OnvifError OutcomeUnknown Unknown) s1 else s1)"

definition closed_state :: "worker_exit \<Rightarrow> native_session \<Rightarrow> native_session" where
  "closed_state x s =
     (let s4 = finish_readers (s\<lparr>current_state := Closed, watchdog := False, open_timer := False,
                 close_timer := False, kill_timer := False\<rparr>);
          s5 = put_output DestroyAudio (put_output DestroySecrets (put_output DestroyCommands s4));
          s6 = diagnostic (diagnose LifecycleDiagnostic
                 (if exit_observed x then ''WorkerExited'' else ''WorkerExitUnconfirmed'') None None) s5
      in s6\<lparr>diagnostics := finish None (diagnostics s6)\<rparr>)"

definition close_report :: "worker_exit \<Rightarrow> remote_outcome \<Rightarrow> native_session \<Rightarrow> close_result" where
  "close_report x remote s =
     \<lparr>close_remote = remote,
      local_cleanup = ((case receipt s of Some r \<Rightarrow> receipt_cleanup r | None \<Rightarrow> False) \<and> exit_observed x
        \<and> exit_code x = Some 0 \<and> exit_signal x = None \<and> \<not> terminated s),
      teardown_status = (case receipt s of Some r \<Rightarrow> receipt_status r | None \<Rightarrow> 0),
      close_exit = x, close_terminated = terminated s,
      close_dropped = local_dropped s + (case receipt s of Some r \<Rightarrow> receipt_discarded r | None \<Rightarrow> 0),
      close_dropped_diagnostics = diagnostic_dropped s, close_stderr = stderr_count s,
      close_backchannel = map_option (\<lambda>r. (receipt_packets r, receipt_samples r)) (receipt s),
      close_failure = session_failure s\<rparr>"

definition exited :: "worker_exit \<Rightarrow> native_session \<Rightarrow> unit result \<times> native_session" where
  "exited x s =
     (if current_state s = Closed then (Inr (), s)
      else
        case (if current_state s = Closing then (Inr (), exit_noted x s) else begin_close (exit_noted x s)) of
          (Inl e, t) \<Rightarrow> (Inl e, t)
        | (Inr _, t) \<Rightarrow>
            let u = closed_state x t
            in (Inr (), if completion u \<noteq> None then u
                 else u\<lparr>completion := Some (close_report x (exit_remote s) u)\<rparr>))"

text \<open>The two deadlines of closing: terminate the worker, then stop waiting for its exit.\<close>

definition close_deadline :: "bool result \<Rightarrow> native_session \<Rightarrow> native_session" where
  "close_deadline termination s =
     (if \<not> close_timer s then s
      else
        let s1 = diagnostic (diagnose LifecycleDiagnostic ''OwnedWorkerTermination'' None None)
                   (note_failure (OnvifError OutcomeUnknown Unknown) (s\<lparr>close_timer := False\<rparr>));
            s2 = (case termination of
                    Inr t \<Rightarrow> s1\<lparr>terminated := t\<rparr>
                  | Inl e \<Rightarrow> s1\<lparr>session_failure := Some (media_error e Unknown)\<rparr>)
        in (put_output DestroyCommands (put_output TerminateWorker s2))\<lparr>kill_timer := True\<rparr>)"

definition kill_deadline :: "native_session \<Rightarrow> native_session" where
  "kill_deadline s =
     (if \<not> kill_timer s then s
      else escape (exited \<lparr>exit_observed = False, exit_code = None, exit_signal = None, spawn_failed = False\<rparr>
             (s\<lparr>kill_timer := False\<rparr>)))"

end
