(* ===== verification/Media_Session_Events.thy ===== *)
theory Media_Session_Events
  imports Media_Session
begin

section \<open>The events of a native media session\<close>

text \<open>
  The handlers of \<open>NativeSession\<close> (\<open>media/session.ts\<close>): opening, control messages, data frames and
  their delivery, credits, media controls, the backchannel writable, timers and the end of the
  worker; \<open>session_step\<close> is the transition of one event and \<open>new_session\<close> the constructor.

  \<open>parse\<close> is the JSON parser of \<open>decodeControl\<close>, \<open>decode\<close> the canonical metadata decoder the
  session is constructed with. The OPEN coroutine runs up to its first \<open>await\<close> inside HELLO; an
  error there is handled in a microtask, after the rest of the chunk (\<open>deferred\<close>).
\<close>

subsection \<open>Delivery\<close>

text \<open>\<open>find\<close> the negotiated track and check what the source checks of it.\<close>

definition unit_track_entry :: "native_session \<Rightarrow> native_unit \<Rightarrow> media_track option" where
  "unit_track_entry s v = find (\<lambda>t. track_id t = int (native_track v)) (negotiated s)"

definition track_disagrees :: "native_unit \<Rightarrow> media_track \<Rightarrow> bool" where
  "track_disagrees v t =
     (\<not> track_receives t
      \<or> (case v of
           RtpUnit u \<Rightarrow> int (payload_type u) \<noteq> track_payload_type t
         | ReportUnit u \<Rightarrow> int (report_clock_rate u) \<noteq> track_clock_rate t
         | _ \<Rightarrow> False))"

definition release :: "staged_unit \<Rightarrow> native_session \<Rightarrow> native_session" where
  "release item s = credit (int (staged_size item)) s"

definition drop_unit :: "string \<Rightarrow> nat option \<Rightarrow> native_session \<Rightarrow> native_session" where
  "drop_unit code track s =
     diagnostic (diagnose GapDiagnostic code track (Some 1)) (s\<lparr>local_dropped := local_dropped s + 1\<rparr>)"

definition canonical_rejection :: "onvif_error \<Rightarrow> bool" where
  "canonical_rejection e =
     (case e of OnvifError c _ \<Rightarrow> c \<in> {InvalidXml, InvalidValue, XmlLimit} | HostError \<Rightarrow> False)"

definition metadata_item :: "native_session \<Rightarrow> metadata_document \<Rightarrow> js \<Rightarrow> media_track \<Rightarrow> media_metadata" where
  "metadata_item s m canonical t =
     \<lparr>metadata_source = m, metadata_value = canonical,
      original_thing = scope_thing (open_scope (descriptor s)), original_target = scope_target (open_scope (descriptor s)),
      original_uri = scope_uri (open_scope (descriptor s)), original_session = native_identity s,
      clock_rate = track_clock_rate t,
      clock_report = (case sender_reports s (unit_track m) of
          Some r \<Rightarrow> if report_ssrc r = metadata_ssrc m \<and> unit_generation r = unit_generation m then Some r else None
        | None \<Rightarrow> None)\<rparr>"

definition deliver :: "(byte list \<Rightarrow> js result) \<Rightarrow> staged_unit \<Rightarrow> native_session \<Rightarrow> unit result \<times> native_session" where
  "deliver decode item s =
     (case unit_track_entry s (staged_value item) of
        None \<Rightarrow> (raise InvalidValue, s)
      | Some t \<Rightarrow>
          if track_disagrees (staged_value item) t then (raise InvalidValue, s)
          else case staged_value item of
              MetadataUnit m \<Rightarrow>
                (case decode (xml m) of
                   Inl e \<Rightarrow>
                     if canonical_rejection e
                     then (Inr (), release item (drop_unit ''CanonicalMetadataRejected'' (Some 3) s))
                     else (Inl e, s)
                 | Inr canonical \<Rightarrow>
                     if canonical = JUndefined then (raise UnsupportedCapability, s)
                     else publish_item Metadata (MetadataItem (metadata_item s m canonical t)) (staged_size item) s)
            | DecodedUnit f \<Rightarrow> publish_item Frames (FrameItem f) (staged_size item) s
            | v \<Rightarrow>
                let s1 = (case v of ReportUnit r \<Rightarrow> s\<lparr>sender_reports := (sender_reports s)(unit_track r \<mapsto> r)\<rparr> | _ \<Rightarrow> s)
                in if req_packet_output (open_request (descriptor s1))
                   then publish_item Packets (PacketItem v) (staged_size item) s1
                   else (Inr (), release item s1))"

fun deliver_all :: "(byte list \<Rightarrow> js result) \<Rightarrow> staged_unit list \<Rightarrow> native_session \<Rightarrow> unit result \<times> native_session" where
  "deliver_all decode [] s = (Inr (), s)"
| "deliver_all decode (item # items) s =
     (case deliver decode item s of
        (Inl e, s') \<Rightarrow> (Inl e, s')
      | (Inr _, s') \<Rightarrow> deliver_all decode items s')"

definition finish_generation :: "native_session \<Rightarrow> unit result \<times> native_session" where
  "finish_generation s =
     (case ending s of
        None \<Rightarrow> (Inr (), s)
      | Some e \<Rightarrow>
          if end_generation e \<noteq> current_generation s \<or> pending_command s \<noteq> None \<or> current_state s = Opening
          then (Inr (), s)
          else if data_sequence s > watermark e then (raise InvalidValue, s)
          else if data_sequence s \<noteq> watermark e \<or> end_complete e then (Inr (), s)
          else
            let s1 = s\<lparr>ending := Some (e\<lparr>end_complete := True\<rparr>)\<rparr>;
                s2 = update_stream Frames end_queue (update_stream Metadata end_queue (update_stream Packets end_queue s1))
            in (Inr (), diagnostic ((diagnose LifecycleDiagnostic ''NativeEnd'' None None)
                  \<lparr>last_data_sequence := Some (watermark e)\<rparr>) s2))"

definition flush_staged :: "(byte list \<Rightarrow> js result) \<Rightarrow> native_session \<Rightarrow> unit result \<times> native_session" where
  "flush_staged decode s =
     (case deliver_all decode (staged s) (s\<lparr>staged := [], staged_bytes := 0\<rparr>) of
        (Inl e, s') \<Rightarrow> (Inl e, s')
      | (Inr _, s') \<Rightarrow> finish_generation s')"

subsection \<open>Data frames\<close>

text \<open>
  The loop that makes room among the staged units of a generation that is not yet acknowledged:
  \<open>Inr False\<close> is the early return after the unit itself was dropped.
\<close>

function stage_room :: "nat \<Rightarrow> native_session \<Rightarrow> bool result \<times> native_session" where
  "stage_room n s =
     (if int (length (staged s)) \<ge> queue_units (session_limits s)
        \<or> staged_bytes s + int n > queue_bytes (session_limits s) then
        if session_mode s = Recorded then (raise InvalidValue, s)
        else case staged s of
            [] \<Rightarrow> (Inr False, credit (int n) (drop_unit ''GenerationQueueOverflow'' None s))
          | x # xs \<Rightarrow>
              stage_room n (drop_unit ''GenerationQueueOverflow'' None
                (release x (s\<lparr>staged := xs, staged_bytes := staged_bytes s - int (staged_size x)\<rparr>)))
      else (Inr True, s))"
  by pat_completeness auto
termination
  by (relation "measure (\<lambda>(n, s). length (staged s))")
     (auto simp: drop_unit_def release_def credit_def diagnostic_def Let_def)

declare stage_room.simps [simp del]

definition sequence_gap :: "nat \<Rightarrow> native_session \<Rightarrow> native_session" where
  "sequence_gap n s =
     (if data_sequence s \<noteq> 0 \<and> n > data_sequence s + 1
      then diagnostic (diagnose GapDiagnostic ''NativeDataSequenceGap'' None (Some (int n - int (data_sequence s) - 1))) s
      else s)"

definition data_unexpected :: "ipc_frame \<Rightarrow> native_session \<Rightarrow> bool" where
  "data_unexpected f s =
     (\<not> open_sent s \<or> session f \<noteq> session_id s \<or> generation f = 0
      \<or> generation f > expected_generation s \<or> sequence f \<le> data_sequence s
      \<or> (case ending s of Some e \<Rightarrow> end_generation e = generation f \<and> sequence f > watermark e | None \<Rightarrow> False))"

text \<open>The unit leaves the window, then is discarded, staged or delivered.\<close>

definition place_unit ::
    "(byte list \<Rightarrow> js result) \<Rightarrow> nat \<Rightarrow> staged_unit \<Rightarrow> native_session \<Rightarrow> unit result \<times> native_session" where
  "place_unit decode gen item s =
     (if outstanding_bytes s > queue_bytes (session_limits s) \<or> outstanding_units s > queue_units (session_limits s)
      then (raise InvalidValue, s)
      else if gen < current_generation s \<or> pending_command s \<noteq> None \<and> gen = current_generation s
      then finish_generation (release item
             (drop_unit ''ControlBoundaryDiscard'' (Some (native_track (staged_value item))) s))
      else if current_state s = Opening \<or> gen \<noteq> current_generation s then
        (case stage_room (staged_size item) s of
           (Inl e, s1) \<Rightarrow> (Inl e, s1)
         | (Inr False, s1) \<Rightarrow> (Inr (), s1)
         | (Inr True, s1) \<Rightarrow> finish_generation
             (s1\<lparr>staged := staged s1 @ [item], staged_bytes := staged_bytes s1 + int (staged_size item)\<rparr>))
      else (case deliver decode item s of
          (Inl e, s1) \<Rightarrow> (Inl e, s1)
        | (Inr _, s1) \<Rightarrow> finish_generation s1))"

definition data_frame :: "(byte list \<Rightarrow> js result) \<Rightarrow> ipc_frame \<Rightarrow> native_session \<Rightarrow> unit result \<times> native_session" where
  "data_frame decode f s =
     (if is_closing s then (Inr (), s\<lparr>local_dropped := local_dropped s + 1\<rparr>)
      else if data_unexpected f s then (raise InvalidValue, s)
      else
        let s1 = (sequence_gap (sequence f) s)\<lparr>data_sequence := sequence f\<rparr> in
        case decode_media_data f (session_limits s1) of
          Inl e \<Rightarrow> (Inl e, s1)
        | Inr v \<Rightarrow>
            let total = length (payload f) + 24 in
            place_unit decode (generation f) \<lparr>staged_value = v, staged_size = total\<rparr>
              (s1\<lparr>outstanding_bytes := outstanding_bytes s1 + int total, outstanding_units := outstanding_units s1 + 1\<rparr>))"

subsection \<open>Credits\<close>

definition flush_credits :: "native_session \<Rightarrow> unit result \<times> native_session" where
  "flush_credits s =
     (if credit_units s = 0 \<or> credit_writing s \<or> is_closing s then (Inr (), s)
      else if credit_bytes s > outstanding_bytes s \<or> credit_units s > outstanding_units s then (raise InvalidValue, s)
      else
        let body = be_bytes 4 (nat (credit_bytes s)) @ be_bytes 4 (nat (credit_units s));
            s1 = s\<lparr>outstanding_bytes := outstanding_bytes s - credit_bytes s,
                   outstanding_units := outstanding_units s - credit_units s,
                   credit_bytes := 0, credit_units := 0, credit_writing := True\<rparr>
        in case allocate_sequence s1 of
             (Inl e, s2) \<Rightarrow> (Inl e, s2)
           | (Inr n, s2) \<Rightarrow> send kind_credit n body (current_generation s2) s2)"

subsection \<open>Opening\<close>

definition begin_open :: "native_session \<Rightarrow> unit result \<times> native_session" where
  "begin_open s =
     (case inventory s of
        None \<Rightarrow> (raise RuntimeClosed, s)
      | Some support \<Rightarrow>
          case require_media_support support (open_request (descriptor s)) of
            Inl e \<Rightarrow> (Inl e, s)
          | Inr _ \<Rightarrow>
              if current_state s \<noteq> Opening \<or> signal_aborted s then (Inl (media_aborted NotSent), s)
              else
                let s1 = s\<lparr>material := None\<rparr> in
                case material s of
                  None \<Rightarrow> (raise InvalidSecurity, s1)
                | Some m \<Rightarrow>
                    case bind_result (encode_security (descriptor s1) m)
                        (envelope kind_security (session_id s1) 0 1) of
                      Inl e \<Rightarrow> (Inl e, s1)
                    | Inr bs \<Rightarrow> (Inr (), put_output (SecretsFrame bs) (s1\<lparr>awaiting_secrets := True\<rparr>)))"

definition continue_open :: "native_session \<Rightarrow> unit result \<times> native_session" where
  "continue_open s0 =
     (let s = put_output EndSecrets s0 in
      if current_state s \<noteq> Opening \<or> signal_aborted s then (Inl (media_aborted NotSent), s)
      else case encode_open (descriptor s) of
          Inl e \<Rightarrow> (Inl e, s)
        | Inr body \<Rightarrow>
            case allocate_sequence s of
              (Inl e, s1) \<Rightarrow> (Inl e, s1)
            | (Inr n, s1) \<Rightarrow> send kind_open n body 0 (s1\<lparr>open_sequence := n, open_sent := True\<rparr>))"

text \<open>The \<open>catch\<close> of the OPEN coroutine.\<close>

definition open_failed :: "onvif_error \<Rightarrow> native_session \<Rightarrow> native_session" where
  "open_failed e s = escape (fail (media_error e (sent_execution s)) s)"

subsection \<open>Control messages\<close>

definition is_code_char :: "string \<Rightarrow> char \<Rightarrow> bool" where
  "is_code_char extra c = (is_alpha_char c \<or> is_digit_char c \<or> c \<in> set extra)"

text \<open>\<open>/^[A-Za-z][A-Za-z0-9 extra]{0,m}$/\<close>\<close>

definition is_code :: "string \<Rightarrow> nat \<Rightarrow> string \<Rightarrow> bool" where
  "is_code extra m s = (case s of [] \<Rightarrow> False | c # cs \<Rightarrow> is_alpha_char c \<and> length cs \<le> m \<and> list_all (is_code_char extra) cs)"

definition native_error_code :: "string \<Rightarrow> error_code" where
  "native_error_code code =
     (if code = ''TlsCertificateRejected'' then InvalidSecurity
      else if starts_with ''Unsupported'' code \<or> starts_with ''NoDecoder'' code
        \<or> starts_with ''MissingRequiredTrack'' code \<or> starts_with ''NoTlsBackend'' code then UnsupportedCapability
      else if starts_with ''Forbidden'' code \<or> starts_with ''InvalidOrUnauthorizedOpen'' code
        \<or> starts_with ''InvalidScopeOrNativeOpen'' code then PolicyDenied
      else TransportError)"

definition on_hello :: "ipc_frame \<Rightarrow> js \<Rightarrow> native_session \<Rightarrow> unit result \<times> native_session" where
  "on_hello f v s =
     (if inventory s \<noteq> None \<or> session f \<noteq> 0 \<or> generation f \<noteq> 0 \<or> sequence f \<noteq> 0 \<or> open_sent s
      then (raise InvalidValue, s)
      else case parse_support v of
          Inl e \<Rightarrow> (Inl e, s)
        | Inr support \<Rightarrow>
            let s1 = s\<lparr>inventory := Some support\<rparr> in
            if current_state s1 = Opening then
              (case begin_open s1 of
                 (Inl e, s2) \<Rightarrow> (Inr (), s2\<lparr>deferred := deferred s2 @ [e]\<rparr>)
               | (Inr _, s2) \<Rightarrow> (Inr (), s2))
            else (Inr (), s1))"

definition on_error :: "js \<Rightarrow> native_session \<Rightarrow> unit result \<times> native_session" where
  "on_error v s =
     (case get v ''code'' of
        JStr code \<Rightarrow>
          if \<not> is_code '':_.-'' 127 code then (raise InvalidValue, s)
          else fail (OnvifError (native_error_code code) (sent_execution s)) s
      | _ \<Rightarrow> (raise InvalidValue, s))"

definition ready_tracks :: "js \<Rightarrow> native_session \<Rightarrow> media_track list result" where
  "ready_tracks v s =
     (case inventory s of None \<Rightarrow> raise RuntimeClosed
      | Some support \<Rightarrow> parse_ready v (open_request (descriptor s)) support)"

definition new_backchannel :: backchannel where
  "new_backchannel = \<lparr>bc_chunks = [], bc_phase = Idle, bc_samples = 0, bc_sequence = 0,
     bc_ended = False, bc_flushed = False, bc_destroyed = False\<rparr>"

definition on_ready :: "(byte list \<Rightarrow> js result) \<Rightarrow> ipc_frame \<Rightarrow> js \<Rightarrow> native_session \<Rightarrow> unit result \<times> native_session" where
  "on_ready decode f v s =
     (if current_state s = Closing \<and> open_sent s \<and> generation f = 1 \<and> sequence f = open_sequence s then
        (case ready_tracks v s of
           Inl e \<Rightarrow> (Inl e, s)
         | Inr _ \<Rightarrow> (Inr (), diagnostic (diagnose LifecycleDiagnostic ''ReadyAfterCancellation'' None None) s))
      else if current_state s \<noteq> Opening \<or> \<not> open_sent s \<or> generation f \<noteq> 1 \<or> sequence f \<noteq> open_sequence s
      then (raise InvalidValue, s)
      else case ready_tracks v s of
          Inl e \<Rightarrow> (Inl e, s)
        | Inr tracks \<Rightarrow>
            case native_session_id v of
              Inl e \<Rightarrow> (Inl e, s\<lparr>negotiated := tracks\<rparr>)
            | Inr identity \<Rightarrow>
                let s1 = s\<lparr>negotiated := tracks, native_identity := identity, open_timer := False,
                           current_generation := 1, current_state := Playing\<rparr>;
                    s2 = (if \<exists>t\<in>set tracks. track_id t = 4 then s1\<lparr>sending := Some new_backchannel\<rparr>
                          else put_output EndAudio s1)
                in case flush_staged decode s2 of
                     (Inl e, s3) \<Rightarrow> (Inl e, s3)
                   | (Inr _, s3) \<Rightarrow> (Inr (), settle_ready (Inr ()) s3))"

definition acknowledged_state :: "pending_control \<Rightarrow> session_state" where
  "acknowledged_state p = (if pending_kind p = kind_pause then Paused else Playing)"

definition on_control :: "(byte list \<Rightarrow> js result) \<Rightarrow> ipc_frame \<Rightarrow> js \<Rightarrow> native_session \<Rightarrow> unit result \<times> native_session" where
  "on_control decode f v s =
     (case (case pending_command s of Some p \<Rightarrow> Some p
            | None \<Rightarrow> if current_state s = Closing then abandoned s else None) of
        None \<Rightarrow> (raise InvalidValue, s)
      | Some p \<Rightarrow>
          if sequence f \<noteq> pending_sequence p \<or> generation f \<noteq> pending_generation p
            \<or> get v ''acknowledged'' \<noteq> JBool True \<or> get v ''command'' \<noteq> JNum (Whole (int (pending_kind p)))
            \<or> get v ''state'' \<noteq> JStr (if acknowledged_state p = Paused then ''paused'' else ''playing'')
          then (raise InvalidValue, s)
          else if current_state s = Closing then
            (Inr (), diagnostic (diagnose LifecycleDiagnostic ''ControlAcknowledgedDuringClose'' None None)
               (s\<lparr>abandoned := None\<rparr>))
          else
            case flush_staged decode (s\<lparr>current_generation := generation f, current_state := acknowledged_state p\<rparr>) of
              (Inl e, s1) \<Rightarrow> (Inl e, s1)
            | (Inr _, s1) \<Rightarrow>
                case finish_generation (s1\<lparr>pending_command := None\<rparr>) of
                  (Inl e, s2) \<Rightarrow> (Inl e, s2)
                | (Inr _, s2) \<Rightarrow> (Inr (), s2\<lparr>control_results := control_results s2
                    @ [(pending_sequence p, Inr \<lparr>receipt_state = acknowledged_state p, receipt_generation = generation f\<rparr>)]\<rparr>))"

definition on_closed :: "ipc_frame \<Rightarrow> js \<Rightarrow> native_session \<Rightarrow> unit result \<times> native_session" where
  "on_closed f v s =
     (if receipt s \<noteq> None \<or> generation f < current_generation s
        \<or> sequence f \<noteq> 0 \<and> sequence f \<noteq> close_sequence s then (raise InvalidValue, s)
      else case parse_close v of
          Inl e \<Rightarrow> (Inl e, s)
        | Inr r \<Rightarrow>
            let s1 = s\<lparr>receipt := Some r\<rparr> in
            if is_closing s1 then (Inr (), s1)
            else begin_close (note_failure (OnvifError TransportError Unknown) s1))"

definition whole_between :: "js \<Rightarrow> int \<Rightarrow> int \<Rightarrow> bool" where
  "whole_between v lo hi = (case v of JNum (Whole n) \<Rightarrow> lo \<le> n \<and> n \<le> hi | _ \<Rightarrow> False)"

definition whole_value :: "js \<Rightarrow> int option" where
  "whole_value v = (case v of JNum (Whole n) \<Rightarrow> Some n | _ \<Rightarrow> None)"

text \<open>\<open>/^[A-Z_]{1,32}$/\<close>\<close>

definition is_method :: "string \<Rightarrow> bool" where
  "is_method m = (m \<noteq> [] \<and> length m \<le> 32 \<and> list_all (\<lambda>c. is_upper_char c \<or> c = CHR ''_'') m)"

definition on_response :: "js \<Rightarrow> native_session \<Rightarrow> unit result \<times> native_session" where
  "on_response v s =
     (case (get v ''method'', get v ''range'') of
        (JStr method, JStr npt) \<Rightarrow>
          if \<not> is_method method \<or> \<not> whole_between (get v ''status'') 100 599
            \<or> \<not> whole_between (get v ''cseq'') 1 0xffffffff \<or> utf16_length npt > 160 then (raise InvalidValue, s)
          else (Inr (), diagnostic ((diagnose NativeDiagnostic ''RtspResponse'' None None)
                 \<lparr>diagnostic_method := Some method, diagnostic_status := whole_value (get v ''status'')\<rparr>) s)
      | _ \<Rightarrow> (raise InvalidValue, s))"

definition on_gap :: "js \<Rightarrow> native_session \<Rightarrow> unit result \<times> native_session" where
  "on_gap v s =
     (case get v ''code'' of
        JStr code \<Rightarrow>
          if \<not> is_code ''_.-'' 95 code
            \<or> get v ''track'' \<noteq> JUndefined \<and> \<not> whole_between (get v ''track'') 0 4
            \<or> get v ''wholeFramesDropped'' \<noteq> JUndefined \<and> \<not> whole_between (get v ''wholeFramesDropped'') 1 0xffffffff
          then (raise InvalidValue, s)
          else (Inr (), diagnostic (diagnose GapDiagnostic code (map_option nat (whole_value (get v ''track'')))
                 (whole_value (get v ''wholeFramesDropped''))) s)
      | _ \<Rightarrow> (raise InvalidValue, s))"

definition safe_whole :: "js \<Rightarrow> bool" where
  "safe_whole v = whole_between v (- max_safe_integer) max_safe_integer"

definition on_diagnostic :: "js \<Rightarrow> native_session \<Rightarrow> unit result \<times> native_session" where
  "on_diagnostic v s =
     (if (case get v ''code'' of JStr code \<Rightarrow> is_code ''_.-'' 95 code | _ \<Rightarrow> False) then
        (if get v ''certificateErrors'' \<noteq> JUndefined \<and> \<not> whole_between (get v ''certificateErrors'') 0 0xffffffff
         then (raise InvalidValue, s)
         else (Inr (), diagnostic ((diagnose NativeDiagnostic (case get v ''code'' of JStr code \<Rightarrow> code | _ \<Rightarrow> []) None None)
                \<lparr>certificate_errors := whole_value (get v ''certificateErrors'')\<rparr>) s))
      else if is_string (get v ''domain'') \<and> safe_whole (get v ''code'')
      then (Inr (), diagnostic (diagnose NativeDiagnostic ''NativePipelineDiagnostic'' None None) s)
      else (raise InvalidValue, s))"

definition on_end :: "int \<Rightarrow> ipc_frame \<Rightarrow> js \<Rightarrow> native_session \<Rightarrow> unit result \<times> native_session" where
  "on_end now f v s =
     (if get v ''reason'' \<noteq> JStr ''native-eos'' \<or> \<not> whole_between (get v ''lastDataSequence'') 0 0xffffffff
        \<or> generation f = 0 then (raise InvalidValue, s)
      else if generation f < current_generation s \<or> is_closing s
        \<or> pending_command s \<noteq> None \<and> generation f = current_generation s then (Inr (), s)
      else if ending s \<noteq> None then (raise InvalidValue, s)
      else finish_generation (s\<lparr>ending := Some \<lparr>end_generation = generation f,
          watermark = nat (or_else (whole_value (get v ''lastDataSequence'')) 0), observed_at = now, end_complete = False\<rparr>\<rparr>))"

definition control_frame ::
    "(byte list \<Rightarrow> js option) \<Rightarrow> (byte list \<Rightarrow> js result) \<Rightarrow> int \<Rightarrow> ipc_frame \<Rightarrow> native_session \<Rightarrow> unit result \<times> native_session" where
  "control_frame parse decode now f s =
     (case decode_control parse f of
        Inl e \<Rightarrow> (Inl e, s)
      | Inr kvs \<Rightarrow>
          let v = JObj kvs; startup = (\<not> open_sent s \<and> session f = 0 \<and> generation f = 0 \<and> sequence f = 0)
          in if kind f = kind_hello then on_hello f v s
             else if \<not> startup \<and> (session f \<noteq> session_id s \<or> generation f > expected_generation s
               \<or> sequence f > command_sequence s) then (raise InvalidValue, s)
             else if kind f = kind_error then on_error v s
             else if kind f = kind_ready then on_ready decode f v s
             else if kind f = kind_control then on_control decode f v s
             else if kind f = kind_closed then on_closed f v s
             else if kind f = kind_response then on_response v s
             else if kind f = kind_gap then on_gap v s
             else if kind f = kind_diagnostic then on_diagnostic v s
             else if kind f = kind_end then on_end now f v s
             else (raise UnsupportedCapability, s))"

subsection \<open>Operations of the owner\<close>

definition frames :: "native_session \<Rightarrow> nat result \<times> native_session" where
  "frames s =
     (if current_state s \<noteq> Playing \<and> current_state s \<noteq> Paused then (raise RuntimeClosed, s)
      else if \<not> (\<exists>t\<in>set (negotiated s). track_id t = 1 \<or> track_id t = 2) then (raise UnsupportedCapability, s)
      else case on_stream Frames iterator s of
          (Inl e, s1) \<Rightarrow> (Inl e, s1)
        | (Inr i, s1) \<Rightarrow> (Inr i, s1\<lparr>readers := readers s1 @ [i]\<rparr>))"

definition control_name :: "nat \<Rightarrow> media_control" where
  "control_name k = (if k = kind_pause then PauseControl else if k = kind_seek then SeekControl else PlayControl)"

definition range_bytes :: "js option \<Rightarrow> byte list result" where
  "range_bytes range_arg =
     (case range_arg of
        None \<Rightarrow> Inr []
      | Some v \<Rightarrow> bind_result (validate_replay_range v) (\<lambda>r.
          Inr (be_bytes 8 (nat (start_ntp_ns r)) @ be_bytes 8 (nat (end_ntp_ns r)))))"

definition discard_streams :: "native_session \<Rightarrow> native_session" where
  "discard_streams s =
     (let (a, s1) = on_stream Packets discard s; (b, s2) = on_stream Metadata discard s1;
          (c, s3) = on_stream Frames discard s2; n = int (a + b + c)
      in if n = 0 then s3
         else diagnostic (diagnose GapDiagnostic ''ControlBoundaryDiscard'' None (Some n))
                (s3\<lparr>local_dropped := local_dropped s3 + n\<rparr>))"

definition resume_streams :: "native_session \<Rightarrow> unit result \<times> native_session" where
  "resume_streams s =
     (case on_stream Packets resume s of
        (Inl e, s1) \<Rightarrow> (Inl e, s1)
      | (Inr _, s1) \<Rightarrow>
          case on_stream Metadata resume s1 of
            (Inl e, s2) \<Rightarrow> (Inl e, s2)
          | (Inr _, s2) \<Rightarrow> on_stream Frames resume s2)"

text \<open>\<open>command\<close>: what refuses a control, else the payload of its frame; then the control itself.\<close>

definition control_check :: "nat \<Rightarrow> js option \<Rightarrow> native_session \<Rightarrow> byte list result" where
  "control_check k range_arg s =
     (if current_state s \<noteq> Playing \<and> current_state s \<noteq> Paused then raise RuntimeClosed
      else if inventory s = None then raise RuntimeClosed
      else if (case inventory s of None \<Rightarrow> True | Some i \<Rightarrow> control_name k \<notin> set (controls i))
        \<or> k = kind_seek \<and> session_mode s \<noteq> Recorded then raise UnsupportedCapability
      else if pending_command s \<noteq> None \<or> k = kind_pause \<and> current_state s = Paused then raise InvalidValue
      else if (case sending s of Some b \<Rightarrow> bc_chunks b \<noteq> [] | None \<Rightarrow> False) then raise InvalidValue
      else bind_result (range_bytes range_arg) (\<lambda>body.
        if k \<noteq> kind_pause \<and> current_generation s = 0xffffffff then raise InvalidValue else Inr body))"

definition issue_control :: "nat \<Rightarrow> byte list \<Rightarrow> native_session \<Rightarrow> nat result \<times> native_session" where
  "issue_control k body s =
     (let gen = current_generation s + (if k = kind_pause then 0 else 1) in
      case allocate_sequence (s\<lparr>sender_reports := (\<lambda>_. None)\<rparr>) of
        (Inl e, s1) \<Rightarrow> (Inl e, s1)
      | (Inr n, s1) \<Rightarrow>
          let s2 = discard_streams (s1\<lparr>expected_generation := gen,
                pending_command := Some \<lparr>pending_kind = k, pending_sequence = n, pending_generation = gen\<rparr>\<rparr>)
          in case (if k = kind_pause then (Inr (), s2) else resume_streams (s2\<lparr>ending := None\<rparr>)) of
               (Inl e, s3) \<Rightarrow> (Inl e, s3)
             | (Inr _, s3) \<Rightarrow>
                 case send k n body (current_generation s3) s3 of
                   (Inl e, s4) \<Rightarrow> (Inl e, s4)
                 | (Inr _, s4) \<Rightarrow> (Inr n, s4))"

text \<open>\<open>Inr n\<close> promises the receipt that \<open>control_results\<close> will hold for sequence \<open>n\<close>.\<close>

definition command :: "nat \<Rightarrow> js option \<Rightarrow> native_session \<Rightarrow> nat result \<times> native_session" where
  "command k range_arg s =
     (case control_check k range_arg s of Inl e \<Rightarrow> (Inl e, s) | Inr body \<Rightarrow> issue_control k body s)"

subsection \<open>The backchannel writable\<close>

definition can_write :: "native_session \<Rightarrow> bool" where
  "can_write s = (current_state s = Playing \<and> pending_command s = None)"

text \<open>\<open>complete(error)\<close> with an error: the stream is destroyed.\<close>

definition backchannel_broken :: "native_session \<Rightarrow> native_session" where
  "backchannel_broken s =
     (case sending s of
        None \<Rightarrow> s
      | Some b \<Rightarrow>
          if bc_destroyed b then s
          else diagnostic (diagnose LifecycleDiagnostic ''BackchannelInputClosed'' None None) (destroy_sending s))"

text \<open>\<open>_write\<close> of the first buffered chunk, when the stream is not writing already.\<close>

definition backchannel_start :: "native_session \<Rightarrow> native_session" where
  "backchannel_start s =
     (case sending s of
        None \<Rightarrow> s
      | Some b \<Rightarrow>
          if bc_destroyed b \<or> bc_phase b \<noteq> Idle then s
          else case bc_chunks b of
              [] \<Rightarrow> s
            | c # cs \<Rightarrow>
                if \<not> can_write s \<or> bc_sequence b = 0xffffffff then backchannel_broken s
                else case bind_result (encode_backchannel c (bc_samples b))
                       (\<lambda>body. bind_result (envelope kind_backchannel (session_id s) (current_generation s) (Suc (bc_sequence b)) body)
                         (\<lambda>bs. Inr (body, bs))) of
                    Inl e \<Rightarrow> backchannel_broken s
                  | Inr (body, bs) \<Rightarrow>
                      put_output (AudioFrame \<lparr>kind = kind_backchannel, session = session_id s,
                          generation = current_generation s, sequence = Suc (bc_sequence b), payload = body\<rparr> bs)
                        (s\<lparr>sending := Some (b\<lparr>bc_phase := Sending, bc_sequence := Suc (bc_sequence b)\<rparr>)\<rparr>))"

definition backchannel_write :: "js \<Rightarrow> native_session \<Rightarrow> native_session" where
  "backchannel_write v s =
     (case sending s of
        None \<Rightarrow> s
      | Some b \<Rightarrow>
          if bc_destroyed b then s
          else if bc_ended b \<or> length (bc_chunks b) \<ge> 8 then backchannel_broken s
          else case backchannel_chunk_of v of
              Inl e \<Rightarrow> backchannel_broken s
            | Inr c \<Rightarrow> backchannel_start (s\<lparr>sending := Some (b\<lparr>bc_chunks := bc_chunks b @ [c]\<rparr>)\<rparr>))"

text \<open>The write has reached the pipe (the clock advances), and the pacing timer has run out.\<close>

definition backchannel_transmitted :: "unit result \<Rightarrow> native_session \<Rightarrow> native_session" where
  "backchannel_transmitted r s =
     (case sending s of
        None \<Rightarrow> s
      | Some b \<Rightarrow>
          if bc_destroyed b \<or> bc_phase b \<noteq> Sending then s
          else case (r, bc_chunks b) of
              (Inr _, c # cs) \<Rightarrow> 
                s\<lparr>sending := Some (b\<lparr>bc_phase := Pacing, bc_samples := bc_samples b + int (length (chunk_bytes c) div 2)\<rparr>)\<rparr>
            | _ \<Rightarrow> backchannel_broken s)"

text \<open>\<open>_final\<close>: the owner has ended the stream and no chunk is left.\<close>

definition backchannel_final :: "native_session \<Rightarrow> native_session" where
  "backchannel_final s =
     (case sending s of
        None \<Rightarrow> s
      | Some b \<Rightarrow>
          if bc_destroyed b \<or> \<not> bc_ended b \<or> bc_chunks b \<noteq> [] then s
          else put_output EndAudio (s\<lparr>sending := Some (b\<lparr>bc_flushed := True, bc_destroyed := True\<rparr>)\<rparr>))"

definition backchannel_end :: "native_session \<Rightarrow> native_session" where
  "backchannel_end s =
     backchannel_final (s\<lparr>sending := map_option (\<lambda>b. b\<lparr>bc_ended := True\<rparr>) (sending s)\<rparr>)"

definition backchannel_paced :: "native_session \<Rightarrow> native_session" where
  "backchannel_paced s =
     (case sending s of
        None \<Rightarrow> s
      | Some b \<Rightarrow>
          if bc_destroyed b \<or> bc_phase b \<noteq> Pacing then s
          else backchannel_final (backchannel_start
                 (s\<lparr>sending := Some (b\<lparr>bc_phase := Idle, bc_chunks := tl (bc_chunks b)\<rparr>)\<rparr>)))"

subsection \<open>Pipes, timers and the transition\<close>

definition run_deferred :: "native_session \<Rightarrow> native_session" where
  "run_deferred s = fold open_failed (deferred s) (s\<lparr>deferred := []\<rparr>)"

definition control_chunk ::
    "(byte list \<Rightarrow> js option) \<Rightarrow> (byte list \<Rightarrow> js result) \<Rightarrow> int \<Rightarrow> byte list \<Rightarrow> native_session \<Rightarrow> native_session" where
  "control_chunk parse decode now chunk s =
     (let (r, d, s1) = push now (control_frame parse decode now) chunk (control_decoder s) s
      in run_deferred (guarded Unknown (r, s1\<lparr>control_decoder := d\<rparr>)))"

definition data_chunk :: "(byte list \<Rightarrow> js result) \<Rightarrow> int \<Rightarrow> byte list \<Rightarrow> native_session \<Rightarrow> native_session" where
  "data_chunk decode now chunk s =
     (let (r, d, s1) = push now (data_frame decode) chunk (data_decoder s) s
      in guarded Unknown (r, s1\<lparr>data_decoder := d\<rparr>))"

definition control_end :: "native_session \<Rightarrow> native_session" where
  "control_end s =
     (let (r, d) = end_decoder (control_decoder s); s1 = s\<lparr>control_decoder := d\<rparr> in
      guarded Unknown
        (case r of
           Inl e \<Rightarrow> (Inl e, s1)
         | Inr _ \<Rightarrow>
             if receipt s1 = None \<and> current_state s1 \<noteq> Closed
             then fail (OnvifError OutcomeUnknown (sent_execution s1)) s1 else (Inr (), s1)))"

definition data_end :: "native_session \<Rightarrow> native_session" where
  "data_end s =
     (let (r, d) = end_decoder (data_decoder s); s1 = s\<lparr>data_decoder := d\<rparr> in
      guarded Unknown
        (case r of
           Inl e \<Rightarrow> (Inl e, s1)
         | Inr _ \<Rightarrow>
             if \<not> is_closing s1 \<and> (case ending s1 of Some e \<Rightarrow> \<not> end_complete e | None \<Rightarrow> True)
             then fail (OnvifError TransportError Unknown) s1 else (Inr (), s1)))"

definition stderr_chunk :: "nat \<Rightarrow> native_session \<Rightarrow> native_session" where
  "stderr_chunk n s =
     (let s1 = (if stderr_count s = 0 then diagnostic (diagnose NativeDiagnostic ''NativeStderrReceived'' None None) s else s);
          s2 = s1\<lparr>stderr_count := stderr_count s1 + n\<rparr>
      in if int (stderr_count s2) > stderr_bytes (session_limits s2)
         then escape (fail (OnvifError TransportError Unknown) s2) else s2)"

definition input_failed :: "native_session \<Rightarrow> native_session" where
  "input_failed s =
     (if is_closing s then s else escape (fail (OnvifError TransportError (sent_execution s)) s))"

definition partial_overdue :: "int \<Rightarrow> native_session \<Rightarrow> decoder \<Rightarrow> bool" where
  "partial_overdue now s d =
     (case partial_at d of Some t \<Rightarrow> now - t > partial_frame_timeout_ms (session_limits s) | None \<Rightarrow> False)"

definition watchdog_tick :: "int \<Rightarrow> native_session \<Rightarrow> native_session" where
  "watchdog_tick now s =
     (if \<not> watchdog s then s
      else
        let s1 = (if partial_overdue now s (control_decoder s) \<or> partial_overdue now s (data_decoder s)
                  then escape (fail (OnvifError TransportError Unknown) s) else s);
            s2 = (if (case ending s1 of Some e \<Rightarrow> \<not> end_complete e
                        \<and> now - observed_at e > control_timeout_ms (session_limits s1) | None \<Rightarrow> False)
                  then escape (fail (OnvifError TransportError Unknown) s1) else s1)
        in guarded Unknown (flush_credits s2))"

definition open_deadline :: "native_session \<Rightarrow> native_session" where
  "open_deadline s =
     (if open_timer s then escape (fail (OnvifError TransportError Unknown) (s\<lparr>open_timer := False\<rparr>)) else s)"

definition control_deadline :: "nat \<Rightarrow> native_session \<Rightarrow> native_session" where
  "control_deadline n s =
     (case pending_command s of
        Some p \<Rightarrow> if pending_sequence p = n then escape (fail (OnvifError OutcomeUnknown Unknown) s) else s
      | None \<Rightarrow> s)"

definition secrets_written :: "unit result \<Rightarrow> native_session \<Rightarrow> native_session" where
  "secrets_written r s =
     (if \<not> awaiting_secrets s then s
      else
        let s1 = s\<lparr>awaiting_secrets := False\<rparr> in
        case r of
          Inl e \<Rightarrow> open_failed e s1
        | Inr _ \<Rightarrow> (case continue_open s1 of (Inl e, s2) \<Rightarrow> open_failed e s2 | (Inr _, s2) \<Rightarrow> s2))"

text \<open>A failed write of OPEN, of a media control, of CREDIT or of CLOSE.\<close>

definition open_write_failed :: "onvif_error \<Rightarrow> native_session \<Rightarrow> native_session" where
  "open_write_failed e s = (if open_sent s then open_failed e s else s)"

definition control_write_failed :: "nat \<Rightarrow> onvif_error \<Rightarrow> native_session \<Rightarrow> native_session" where
  "control_write_failed n e s =
     (case pending_command s of
        Some p \<Rightarrow> if pending_sequence p = n then escape (fail (media_error e Unknown) s) else s
      | None \<Rightarrow> s)"

definition credit_written :: "unit result \<Rightarrow> native_session \<Rightarrow> native_session" where
  "credit_written r s =
     (if \<not> credit_writing s then s
      else
        let s1 = s\<lparr>credit_writing := False\<rparr> in
        case r of
          Inr _ \<Rightarrow> s1
        | Inl e \<Rightarrow> if is_closing s1 then s1 else escape (fail (media_error e Unknown) s1))"

definition close_write_failed :: "onvif_error \<Rightarrow> native_session \<Rightarrow> native_session" where
  "close_write_failed e s =
     (if close_sequence s = 0 \<or> receipt s \<noteq> None then s else escape (fail (media_error e Unknown) s))"

definition abort :: "native_session \<Rightarrow> native_session" where
  "abort s =
     (if signal_aborted s then s
      else escape (fail (media_aborted (sent_execution s)) (s\<lparr>signal_aborted := True\<rparr>)))"

datatype consumer_op = Iterate | ReadNext nat | ReturnReader nat | ThrowReader nat onvif_error

text \<open>The reads of consumers; the frame queue is reached through \<open>frames\<close> only.\<close>

definition consume :: "media_stream \<Rightarrow> consumer_op \<Rightarrow> native_session \<Rightarrow> native_session" where
  "consume stream op s =
     (case op of
        Iterate \<Rightarrow> if stream = Frames then s else snd (on_stream stream iterator s)
      | ReadNext i \<Rightarrow> snd (on_stream stream (next_item i) s)
      | ReturnReader i \<Rightarrow>
          (let s1 = snd (on_stream stream (return_item i) s)
           in if stream = Frames then s1\<lparr>readers := removeAll i (readers s1)\<rparr> else s1)
      | ThrowReader i e \<Rightarrow> snd (on_stream stream (throw_item i e) s))"

text \<open>
  The error of a reader that was destroyed, by the session, its consumer or itself, reaches its listener in a later
  turn of the event loop.
\<close>

definition reader_failed :: "native_session \<Rightarrow> native_session" where
  "reader_failed s = diagnostic (diagnose LifecycleDiagnostic ''FrameSubscriberClosed'' None None) s"

datatype session_event =
    ControlChunk int "byte list" | DataChunk int "byte list" | ControlEnd | DataEnd | OutputFailed
  | StderrChunk nat | StderrFailed | StderrEncoding | InputFailed | Exited worker_exit | ExitUnobservable onvif_error
  | Abort | OpenDeadline | ControlDeadline nat | CloseDeadline "bool result" | KillDeadline | WatchdogTick int
  | SecretsWritten "unit result" | OpenWriteFailed onvif_error | ControlWriteFailed nat onvif_error
  | CreditWritten "unit result" | CloseWriteFailed onvif_error
  | Play | Pause | Seek js | GetFrames | Close | Consume media_stream consumer_op
  | BackchannelWrite js | BackchannelTransmitted "unit result" | BackchannelPaced | BackchannelEnd
  | ReaderFailed

fun session_step ::
    "(byte list \<Rightarrow> js option) \<Rightarrow> (byte list \<Rightarrow> js result) \<Rightarrow> session_event \<Rightarrow> native_session \<Rightarrow> native_session" where
  "session_step parse decode (ControlChunk now bs) s = control_chunk parse decode now bs s"
| "session_step parse decode (DataChunk now bs) s = data_chunk decode now bs s"
| "session_step parse decode ControlEnd s = control_end s"
| "session_step parse decode DataEnd s = data_end s"
| "session_step parse decode OutputFailed s = escape (fail (OnvifError TransportError Unknown) s)"
| "session_step parse decode (StderrChunk n) s = stderr_chunk n s"
| "session_step parse decode StderrFailed s = escape (fail (OnvifError TransportError Unknown) s)"
| "session_step parse decode StderrEncoding s = escape (fail (OnvifError InvalidValue NotSent) s)"
| "session_step parse decode InputFailed s = input_failed s"
| "session_step parse decode (Exited x) s = escape (exited x s)"
| "session_step parse decode (ExitUnobservable e) s = escape (fail (media_error e Unknown) s)"
| "session_step parse decode Abort s = abort s"
| "session_step parse decode OpenDeadline s = open_deadline s"
| "session_step parse decode (ControlDeadline n) s = control_deadline n s"
| "session_step parse decode (CloseDeadline t) s = close_deadline t s"
| "session_step parse decode KillDeadline s = kill_deadline s"
| "session_step parse decode (WatchdogTick now) s = watchdog_tick now s"
| "session_step parse decode (SecretsWritten r) s = secrets_written r s"
| "session_step parse decode (OpenWriteFailed e) s = open_write_failed e s"
| "session_step parse decode (ControlWriteFailed n e) s = control_write_failed n e s"
| "session_step parse decode (CreditWritten r) s = credit_written r s"
| "session_step parse decode (CloseWriteFailed e) s = close_write_failed e s"
| "session_step parse decode Play s = snd (command kind_play None s)"
| "session_step parse decode Pause s = snd (command kind_pause None s)"
| "session_step parse decode (Seek v) s = snd (command kind_seek (Some v) s)"
| "session_step parse decode GetFrames s = snd (frames s)"
| "session_step parse decode Close s = escape (begin_close s)"
| "session_step parse decode (Consume stream op) s = consume stream op s"
| "session_step parse decode (BackchannelWrite v) s = backchannel_write v s"
| "session_step parse decode (BackchannelTransmitted r) s = backchannel_transmitted r s"
| "session_step parse decode BackchannelPaced s = backchannel_paced s"
| "session_step parse decode BackchannelEnd s = backchannel_end s"
| "session_step parse decode ReaderFailed s = reader_failed s"

subsection \<open>The constructor\<close>

definition stream_options :: "media_limits \<Rightarrow> media_mode \<Rightarrow> queue_options" where
  "stream_options l m = \<lparr>opt_max_bytes = Whole (queue_bytes l), opt_max_units = Whole (queue_units l),
     opt_max_subscribers = Whole (limit_subscribers l), opt_mode = (if m = Live then ''live'' else ''recorded''),
     opt_on_gap_callable = True\<rparr>"

definition diagnostic_options :: "media_limits \<Rightarrow> queue_options" where
  "diagnostic_options l = \<lparr>opt_max_bytes = Whole 65536, opt_max_units = Whole 128,
     opt_max_subscribers = Whole (limit_subscribers l), opt_mode = ''live'', opt_on_gap_callable = True\<rparr>"

definition data_maximum :: "media_limits \<Rightarrow> int" where
  "data_maximum l = min (queue_bytes l - 24) (max (max (decoded_bytes l + 36) (inflated_bytes l + 32)) (wire_bytes l + 40))"

definition new_session ::
    "nat \<Rightarrow> open_descriptor \<Rightarrow> media_mode \<Rightarrow> media_security_material \<Rightarrow> bool \<Rightarrow> native_session result" where
  "new_session n d m secret aborted =
     bind_result (new_decoder Control None) (\<lambda>cd.
     bind_result (new_decoder Data (Some (Whole (data_maximum (open_limits d))))) (\<lambda>dd.
     bind_result (new_queue (diagnostic_options (open_limits d))) (\<lambda>dq.
     bind_result (new_queue (stream_options (open_limits d) m)) (\<lambda>q.
       let s = \<lparr>session_id = n, descriptor = d, session_mode = m, streams = (\<lambda>_. q), unit_sizes = (\<lambda>_ _. 0),
            diagnostics = dq, readers = [], sender_reports = (\<lambda>_. None), control_decoder = cd, data_decoder = dd,
            material = Some secret, inventory = None, negotiated = [], sending = None, native_identity = [],
            ending = None, current_state = Opening, current_generation = 0, expected_generation = 1,
            command_sequence = 0, open_sequence = 0, close_sequence = 0, data_sequence = 0, open_sent = False,
            session_failure = None, receipt = None, pending_command = None, abandoned = None, staged = [],
            staged_bytes = 0, credit_bytes = 0, credit_units = 0, credit_writing = False, outstanding_bytes = 0,
            outstanding_units = 0, local_dropped = 0, diagnostic_dropped = 0, stderr_count = 0, terminated = False,
            open_timer = True, close_timer = False, kill_timer = False, watchdog = True, signal_aborted = False,
            awaiting_secrets = False, deferred = [], uncaught = [], ready = None, completion = None,
            control_results = [], outputs = []\<rparr>
       in Inr (if aborted then abort s else s)))))"

text \<open>\<open>startMediaSession\<close>: the session once it is ready, or its open error with the cleanup.\<close>

definition start_outcome :: "native_session \<Rightarrow> ((onvif_error \<times> close_result) + unit) option" where
  "start_outcome s =
     (case ready s of
        None \<Rightarrow> None
      | Some (Inr _) \<Rightarrow> Some (Inr ())
      | Some (Inl e) \<Rightarrow> map_option (\<lambda>c. Inl (media_error e Unknown, c)) (completion s))"

end
