(* ===== verification/Media_Queue_Laws.thy ===== *)
theory Media_Queue_Laws
  imports Media_Queue
begin

section \<open>Correctness of the media queue\<close>

text \<open>
  The invariant of \<open>BoundedMediaQueue\<close> (accounting of bytes, membership of the subscriber
  set, reference counts), its preservation by every operation, the release contract its owner
  relies on as a locale with its interpretation, and the properties of the queue: bounded memory,
  exactly-once release, order, losslessness of recorded media, and the end of pending reads.
\<close>



subsection \<open>Projections of the small updates\<close>


lemma update_slot_simps [simp]:
  "slots (update_slot i f q) = (slots q)(i := f (slots q i))"
  "max_bytes (update_slot i f q) = max_bytes q" "max_units (update_slot i f q) = max_units q"
  "max_subscribers (update_slot i f q) = max_subscribers q" "mode (update_slot i f q) = mode q"
  "next_slot (update_slot i f q) = next_slot q" "subs (update_slot i f q) = subs q"
  "initial (update_slot i f q) = initial q" "queue_ended (update_slot i f q) = queue_ended q"
  "draining (update_slot i f q) = draining q" "failure (update_slot i f q) = failure q"
  "peak (update_slot i f q) = peak q" "refs (update_slot i f q) = refs q"
  "next_unit (update_slot i f q) = next_unit q" "next_read (update_slot i f q) = next_read q"
  "effects (update_slot i f q) = effects q"
  by (simp_all add: update_slot_def)

lemma emit_simps [simp]:
  "slots (emit e q) = slots q"
  "max_bytes (emit e q) = max_bytes q" "max_units (emit e q) = max_units q"
  "max_subscribers (emit e q) = max_subscribers q" "mode (emit e q) = mode q"
  "next_slot (emit e q) = next_slot q" "subs (emit e q) = subs q"
  "initial (emit e q) = initial q" "queue_ended (emit e q) = queue_ended q"
  "draining (emit e q) = draining q" "failure (emit e q) = failure q"
  "peak (emit e q) = peak q" "refs (emit e q) = refs q"
  "next_unit (emit e q) = next_unit q" "next_read (emit e q) = next_read q"
  "effects (emit e q) = effects q @ [e]"
  by (simp_all add: emit_def)

lemma relinquish_simps [simp]:
  "slots (relinquish u q) = slots q"
  "max_bytes (relinquish u q) = max_bytes q" "max_units (relinquish u q) = max_units q"
  "max_subscribers (relinquish u q) = max_subscribers q" "mode (relinquish u q) = mode q"
  "next_slot (relinquish u q) = next_slot q" "subs (relinquish u q) = subs q"
  "initial (relinquish u q) = initial q" "queue_ended (relinquish u q) = queue_ended q"
  "draining (relinquish u q) = draining q" "failure (relinquish u q) = failure q"
  "peak (relinquish u q) = peak q" "refs (relinquish u q) = (refs q)(u := refs q u - 1)"
  "next_unit (relinquish u q) = next_unit q" "next_read (relinquish u q) = next_read q"
  "effects (relinquish u q) = effects q @ (if refs q u = 1 then [Released u] else [])"
  by (simp_all add: relinquish_def Let_def)

text \<open>One entry leaves the head of a slot and its release runs: the step all loops repeat.\<close>

definition pop :: "nat \<Rightarrow> 'v queue \<Rightarrow> 'v queue" where
  "pop i q = (case remove_entry i q of (None, q') \<Rightarrow> q' | (Some e, q') \<Rightarrow> relinquish (entry_unit e) q')"

lemma remove_entry_Nil: "entries (slots q i) = [] \<Longrightarrow> remove_entry i q = (None, q)"
  by (simp add: remove_entry_def)

lemma remove_entry_Cons:
  "entries (slots q i) = e # es \<Longrightarrow>
   remove_entry i q = (Some e, update_slot i (\<lambda>s. s\<lparr>entries := es, slot_bytes := slot_bytes s - entry_bytes e\<rparr>) q)"
  by (simp add: remove_entry_def)

lemma drain_Nil: "entries (slots q i) = [] \<Longrightarrow> drain i q = (0, q)"
  by (subst drain.simps) (simp add: remove_entry_Nil)

lemma drain_Cons:
  "entries (slots q i) = e # es \<Longrightarrow> drain i q = (Suc (fst (drain i (pop i q))), snd (drain i (pop i q)))"
  by (subst drain.simps) (simp add: remove_entry_Cons pop_def split: prod.split)

lemma entries_pop: "entries (slots (pop i q) i) = tl (entries (slots q i))"
  by (cases "entries (slots q i)") (simp_all add: pop_def remove_entry_def)

lemma drain_rule:
  assumes "P q" and "\<And>q e es. P q \<Longrightarrow> entries (slots q i) = e # es \<Longrightarrow> P (pop i q)"
  shows "P (snd (drain i q))"
  using assms(1)
proof (induction "length (entries (slots q i))" arbitrary: q)
  case 0
  then show ?case by (simp add: drain_Nil)
next
  case (Suc n)
  then obtain e es where es: "entries (slots q i) = e # es" by (cases "entries (slots q i)") auto
  with Suc(1)[of "pop i q"] Suc(2) assms(2)[OF Suc(3) es] show ?case
    by (simp add: drain_Cons entries_pop)
qed

lemma drain_entries: "entries (slots (snd (drain i q)) i) = []"
proof (induction "length (entries (slots q i))" arbitrary: q)
  case 0
  then show ?case by (simp add: drain_Nil)
next
  case (Suc n)
  then obtain e es where es: "entries (slots q i) = e # es" by (cases "entries (slots q i)") auto
  with Suc(1)[of "pop i q"] Suc(2) show ?case by (simp add: drain_Cons entries_pop)
qed

lemma drain_count: "fst (drain i q) = length (entries (slots q i))"
proof (induction "length (entries (slots q i))" arbitrary: q)
  case 0
  then show ?case by (simp add: drain_Nil)
next
  case (Suc n)
  then obtain e es where es: "entries (slots q i) = e # es" by (cases "entries (slots q i)") auto
  with Suc(1)[of "pop i q"] Suc(2) show ?case by (simp add: drain_Cons entries_pop)
qed

definition same_frame :: "'v queue \<Rightarrow> 'v queue \<Rightarrow> bool" where
  "same_frame q q' \<longleftrightarrow> max_bytes q' = max_bytes q \<and> max_units q' = max_units q
     \<and> max_subscribers q' = max_subscribers q \<and> mode q' = mode q \<and> next_slot q' = next_slot q
     \<and> subs q' = subs q \<and> initial q' = initial q \<and> queue_ended q' = queue_ended q
     \<and> draining q' = draining q \<and> failure q' = failure q \<and> peak q' = peak q
     \<and> next_unit q' = next_unit q \<and> next_read q' = next_read q
     \<and> (\<forall>j. pending (slots q' j) = pending (slots q j)
          \<and> claimed (slots q' j) = claimed (slots q j)
          \<and> slot_ended (slots q' j) = slot_ended (slots q j))"

lemma same_frame_refl: "same_frame q q" by (simp add: same_frame_def)

lemma same_frame_trans: "same_frame a b \<Longrightarrow> same_frame b c \<Longrightarrow> same_frame a c"
  by (simp add: same_frame_def)

lemma pop_frame: "same_frame q (pop i q)"
  by (cases "entries (slots q i)") (simp_all add: pop_def remove_entry_def same_frame_def)

lemma pop_other: "j \<noteq> i \<Longrightarrow> slots (pop i q) j = slots q j"
  by (cases "entries (slots q i)") (simp_all add: pop_def remove_entry_def)

lemma drain_frame: "same_frame q (snd (drain i q))"
  by (rule drain_rule[where P = "same_frame q"]) (auto intro: same_frame_refl same_frame_trans pop_frame)

lemma drain_other: "j \<noteq> i \<Longrightarrow> slots (snd (drain i q)) j = slots q j"
  by (rule drain_rule[where P = "\<lambda>q'. slots q' j = slots q j"]) (auto simp: pop_other)

subsection \<open>The invariant\<close>

definition slot_units :: "'v subscriber \<Rightarrow> nat \<Rightarrow> int" where
  "slot_units s u = int (count_list (map entry_unit (entries s)) u)"

definition held :: "'v queue \<Rightarrow> nat \<Rightarrow> int" where
  "held q u = (\<Sum>i<next_slot q. slot_units (slots q i) u)"

definition released_count :: "'v queue \<Rightarrow> nat \<Rightarrow> nat" where
  "released_count q u = count_list (effects q) (Released u)"

definition slot_wf :: "'v queue \<Rightarrow> 'v subscriber \<Rightarrow> bool" where
  "slot_wf q s \<longleftrightarrow> slot_bytes s = (\<Sum>e\<leftarrow>entries s. entry_bytes e)
     \<and> (\<forall>e\<in>set (entries s). 0 < entry_bytes e \<and> entry_unit e < next_unit q)
     \<and> slot_bytes s \<le> max_bytes q \<and> int (length (entries s)) \<le> max_units q
     \<and> (pending s \<noteq> None \<longrightarrow> entries s = []) \<and> slot_bytes s \<le> peak q"

definition limits_ok :: "'v queue \<Rightarrow> bool" where
  "limits_ok q \<longleftrightarrow> 0 < max_bytes q \<and> max_bytes q \<le> 128 * 1024 * 1024
     \<and> 0 < max_units q \<and> max_units q \<le> 256
     \<and> 0 < max_subscribers q \<and> max_subscribers q \<le> 16
     \<and> 0 \<le> peak q \<and> peak q \<le> max_bytes q"

definition subs_ok :: "'v queue \<Rightarrow> bool" where
  "subs_ok q \<longleftrightarrow> distinct (subs q) \<and> (\<forall>i\<in>set (subs q). i < next_slot q)
     \<and> initial q < next_slot q \<and> int (length (subs q)) \<le> max_subscribers q
     \<and> (\<forall>i. slot_ended (slots q i) \<longleftrightarrow> i \<notin> set (subs q))
     \<and> (\<forall>i. i \<notin> set (subs q) \<longrightarrow> entries (slots q i) = [] \<and> pending (slots q i) = None)"

definition closing_ok :: "'v queue \<Rightarrow> bool" where
  "closing_ok q \<longleftrightarrow> (queue_ended q \<longrightarrow> subs q = [])
     \<and> (draining q \<longrightarrow> (\<forall>i. pending (slots q i) = None))
     \<and> (failure q \<noteq> None \<longrightarrow> queue_ended q)"

text \<open>
  Reference counts: a unit has one reference for each entry that holds it, and one more while
  its publication runs (\<open>guard\<close>); it has been released exactly when it has none.
\<close>

definition refs_ok :: "nat option \<Rightarrow> 'v queue \<Rightarrow> bool" where
  "refs_ok guard q \<longleftrightarrow>
     (\<forall>u. refs q u = held q u + (if guard = Some u then 1 else 0))
     \<and> (\<forall>u. released_count q u = (if u < next_unit q \<and> refs q u = 0 then 1 else 0))
     \<and> (\<forall>u. guard = Some u \<longrightarrow> u < next_unit q)"

definition queue_inv :: "nat option \<Rightarrow> 'v queue \<Rightarrow> bool" where
  "queue_inv guard q \<longleftrightarrow> limits_ok q \<and> (\<forall>i. slot_wf q (slots q i)) \<and> subs_ok q
     \<and> closing_ok q \<and> refs_ok guard q"

lemmas queue_inv_defs = queue_inv_def limits_ok_def slot_wf_def subs_ok_def closing_ok_def refs_ok_def

lemma slot_units_nonneg: "0 \<le> slot_units s u"
  by (simp add: slot_units_def)

lemma held_nonneg: "0 \<le> held q u"
  by (simp add: held_def sum_nonneg slot_units_nonneg)

lemma held_cong:
  "next_slot q' = next_slot q \<Longrightarrow> (\<And>i. entries (slots q' i) = entries (slots q i)) \<Longrightarrow> held q' u = held q u"
  by (simp add: held_def slot_units_def)

lemma held_change:
  assumes "i < next_slot q" "next_slot q' = next_slot q" "\<And>j. j \<noteq> i \<Longrightarrow> slots q' j = slots q j"
  shows "held q' u = held q u - slot_units (slots q i) u + slot_units (slots q' i) u"
proof -
  have "(\<Sum>j\<in>{..<next_slot q} - {i}. slot_units (slots q' j) u)
      = (\<Sum>j\<in>{..<next_slot q} - {i}. slot_units (slots q j) u)"
    by (rule sum.cong) (auto simp: assms(3))
  with assms(1,2) show ?thesis
    by (simp add: held_def sum.remove[of "{..<next_slot q}" i])
qed

lemma queue_inv_slot: "queue_inv g q \<Longrightarrow> slot_wf q (slots q j)"
  by (simp add: queue_inv_def)

lemma entry_slot_sub: "queue_inv g q \<Longrightarrow> entries (slots q i) \<noteq> [] \<Longrightarrow> i \<in> set (subs q)"
  by (auto simp: queue_inv_def subs_ok_def)

lemma pending_slot_sub: "queue_inv g q \<Longrightarrow> pending (slots q i) \<noteq> None \<Longrightarrow> i \<in> set (subs q)"
  by (auto simp: queue_inv_def subs_ok_def)

lemma sub_less: "queue_inv g q \<Longrightarrow> i \<in> set (subs q) \<Longrightarrow> i < next_slot q"
  by (auto simp: queue_inv_def subs_ok_def)

lemma pop_Cons_slots:
  "entries (slots q i) = e # es \<Longrightarrow>
   slots (pop i q) = (slots q)(i := (slots q i)\<lparr>entries := es, slot_bytes := slot_bytes (slots q i) - entry_bytes e\<rparr>)"
  by (simp add: pop_def remove_entry_Cons)

lemma pop_Cons_refs:
  "entries (slots q i) = e # es \<Longrightarrow>
   refs (pop i q) = (refs q)(entry_unit e := refs q (entry_unit e) - 1)
   \<and> effects (pop i q) = effects q @ (if refs q (entry_unit e) = 1 then [Released (entry_unit e)] else [])"
  by (simp add: pop_def remove_entry_Cons)

lemma held_pop:
  assumes "i < next_slot q" "entries (slots q i) = e # es"
  shows "held (pop i q) u = held q u - (if u = entry_unit e then 1 else 0)"
  using held_change[OF assms(1), of "pop i q" u] pop_frame[of q i] assms(2)
  by (simp add: pop_other same_frame_def pop_Cons_slots slot_units_def)

text \<open>Giving back one reference: the heart of the release accounting.\<close>

lemma count_list_snoc_if:
  "count_list (xs @ (if b then [y] else [])) x = count_list xs x + (if b \<and> x = y then 1 else 0)"
  by simp

lemma pop_inv:
  assumes inv: "queue_inv g q" and e: "entries (slots q i) = e # es"
  shows "queue_inv g (pop i q)"
proof -
  note F = pop_frame[of q i, unfolded same_frame_def]
  have i: "i \<in> set (subs q)" using entry_slot_sub[OF inv] e by simp
  have lt: "i < next_slot q" using sub_less[OF inv i] .
  have wf: "slot_wf q (slots q j)" for j using inv by (simp add: queue_inv_def)
  have "limits_ok (pop i q)" using inv F by (simp add: queue_inv_def limits_ok_def)
  moreover have "slot_wf (pop i q) (slots (pop i q) j)" for j
  proof (cases "j = i")
    case True
    then show ?thesis using wf[of i] F e by (auto simp: slot_wf_def pop_Cons_slots[OF e])
  next
    case False
    then show ?thesis using wf[of j] F by (simp add: slot_wf_def pop_other)
  qed
  moreover have "subs_ok (pop i q)"
    using inv F i by (auto simp: queue_inv_def subs_ok_def pop_Cons_slots[OF e])
  moreover have "closing_ok (pop i q)" using inv F by (simp add: queue_inv_def closing_ok_def)
  moreover have "refs_ok g (pop i q)"
  proof -
    let ?u = "entry_unit e"
    have R: "refs_ok g q" using inv by (simp add: queue_inv_def)
    have held: "held (pop i q) u = held q u - (if u = ?u then 1 else 0)" for u
      by (rule held_pop[OF lt e])
    have pos: "1 \<le> refs q ?u"
      using held[of ?u] held_nonneg[of "pop i q" ?u] R by (simp add: refs_ok_def split: if_splits)
    have less: "?u < next_unit q" using wf[of i] e by (simp add: slot_wf_def)
    show ?thesis
      using R held pos less F pop_Cons_refs[OF e]
      by (auto simp: refs_ok_def released_count_def)
  qed
  ultimately show ?thesis by (simp add: queue_inv_def)
qed

lemma drain_inv: "queue_inv g q \<Longrightarrow> queue_inv g (snd (drain i q))"
  by (rule drain_rule[where P = "queue_inv g"]) (auto intro: pop_inv)


subsection \<open>Making room\<close>

lemma make_room_stop:
  "int (length (entries (slots q i))) < max_units q \<Longrightarrow> slot_bytes (slots q i) + b \<le> max_bytes q \<Longrightarrow>
   make_room i b d q = (Inr d, q)"
  by (subst make_room.simps) simp

lemma make_room_recorded:
  "mode q = Recorded \<Longrightarrow> make_room i b d q =
     (if int (length (entries (slots q i))) \<ge> max_units q \<or> slot_bytes (slots q i) + b > max_bytes q
      then (raise InvalidValue, q) else (Inr d, q))"
  by (subst make_room.simps) simp

lemma make_room_Cons:
  "mode q = Live \<Longrightarrow> entries (slots q i) = e # es \<Longrightarrow>
   int (length (entries (slots q i))) \<ge> max_units q \<or> slot_bytes (slots q i) + b > max_bytes q \<Longrightarrow>
   make_room i b d q = make_room i b (Suc d) (pop i q)"
  by (subst make_room.simps) (auto simp: remove_entry_Cons pop_def)

text \<open>
  In live mode a unit within the byte bound always finds room, by dropping a prefix of the
  slot's entries and nothing else.
\<close>

lemma make_room_live:
  assumes "queue_inv g q" "mode q = Live" "b \<le> max_bytes q"
  shows "\<exists>n q'. make_room i b d q = (Inr (d + n), q') \<and> n \<le> length (entries (slots q i))
    \<and> q' = (pop i ^^ n) q \<and> queue_inv g q'
    \<and> entries (slots q' i) = drop n (entries (slots q i))
    \<and> int (length (entries (slots q' i))) < max_units q \<and> slot_bytes (slots q' i) + b \<le> max_bytes q
    \<and> same_frame q q' \<and> (\<forall>j. j \<noteq> i \<longrightarrow> slots q' j = slots q j)"
  using assms
proof (induction "length (entries (slots q i))" arbitrary: q d)
  case 0
  then have nil: "entries (slots q i) = []" by simp
  moreover have "slot_bytes (slots q i) = 0" "0 < max_units q"
    using 0 nil by (auto simp: queue_inv_def slot_wf_def limits_ok_def)
  ultimately have "make_room i b d q = (Inr (d + 0), q)" using 0(4) by (simp add: make_room_stop)
  with 0 nil \<open>slot_bytes (slots q i) = 0\<close> \<open>0 < max_units q\<close> show ?case
    by (intro exI[of _ "0::nat"] exI[of _ q]) (simp add: same_frame_refl)
next
  case (Suc k)
  then obtain e es where e: "entries (slots q i) = e # es" by (cases "entries (slots q i)") auto
  show ?case
  proof (cases "int (length (entries (slots q i))) \<ge> max_units q \<or> slot_bytes (slots q i) + b > max_bytes q")
    case False
    then have "make_room i b d q = (Inr (d + 0), q)" by (simp add: make_room_stop)
    with Suc False show ?thesis
      by (intro exI[of _ "0::nat"] exI[of _ q]) (simp add: same_frame_refl)
  next
    case True
    note F = pop_frame[of q i, unfolded same_frame_def]
    have "k = length (entries (slots (pop i q) i))" using Suc(2) e by (simp add: entries_pop)
    moreover have "queue_inv g (pop i q)" "mode (pop i q) = Live" "b \<le> max_bytes (pop i q)"
      using pop_inv[OF Suc(3) e] Suc(4,5) F by auto
    ultimately obtain n q' where
      n: "make_room i b (Suc d) (pop i q) = (Inr (Suc d + n), q')" "n \<le> length (entries (slots (pop i q) i))"
        "q' = (pop i ^^ n) (pop i q)" "queue_inv g q'"
        "entries (slots q' i) = drop n (entries (slots (pop i q) i))"
        "int (length (entries (slots q' i))) < max_units (pop i q)"
        "slot_bytes (slots q' i) + b \<le> max_bytes (pop i q)" "same_frame (pop i q) q'"
        "\<forall>j. j \<noteq> i \<longrightarrow> slots q' j = slots (pop i q) j"
      using Suc(1)[of "pop i q" "Suc d"] by blast
    have "make_room i b d q = (Inr (d + Suc n), q')" using n(1) make_room_Cons[OF Suc(4) e True] by simp
    moreover have "q' = (pop i ^^ Suc n) q" using n(3) by (simp add: funpow_swap1)
    moreover have "same_frame q q'" using n(8) same_frame_trans[OF pop_frame] by blast
    moreover have "\<forall>j. j \<noteq> i \<longrightarrow> slots q' j = slots q j" using n(9) pop_other by metis
    ultimately show ?thesis using n F e
      by (intro exI[of _ "Suc n"] exI[of _ q']) (simp add: entries_pop)
  qed
qed

subsection \<open>Pushing an entry and publishing\<close>

lemma push_entry_simps:
  "slots (push_entry i u v b q) = (slots q)(i := (slots q i)
     \<lparr>entries := entries (slots q i) @ [\<lparr>entry_value = v, entry_bytes = b, entry_unit = u\<rparr>],
      slot_bytes := slot_bytes (slots q i) + b\<rparr>)"
  "max_bytes (push_entry i u v b q) = max_bytes q" "max_units (push_entry i u v b q) = max_units q"
  "max_subscribers (push_entry i u v b q) = max_subscribers q" "mode (push_entry i u v b q) = mode q"
  "next_slot (push_entry i u v b q) = next_slot q" "subs (push_entry i u v b q) = subs q"
  "initial (push_entry i u v b q) = initial q" "queue_ended (push_entry i u v b q) = queue_ended q"
  "draining (push_entry i u v b q) = draining q" "failure (push_entry i u v b q) = failure q"
  "peak (push_entry i u v b q) = max (peak q) (slot_bytes (slots q i) + b)"
  "refs (push_entry i u v b q) = (refs q)(u := refs q u + 1)"
  "next_unit (push_entry i u v b q) = next_unit q" "next_read (push_entry i u v b q) = next_read q"
  "effects (push_entry i u v b q) = effects q"
  by (simp_all add: push_entry_def Let_def)

lemma push_entry_inv:
  assumes inv: "queue_inv (Some u) q" and i: "i \<in> set (subs q)" and "0 < b"
    and "int (length (entries (slots q i))) < max_units q" "slot_bytes (slots q i) + b \<le> max_bytes q"
    and "pending (slots q i) = None"
  shows "queue_inv (Some u) (push_entry i u v b q)"
proof -
  let ?q = "push_entry i u v b q"
  have lt: "i < next_slot q" using sub_less[OF inv i] .
  have wf: "slot_wf q (slots q j)" for j using inv by (simp add: queue_inv_def)
  have u: "u < next_unit q" using inv by (simp add: queue_inv_def refs_ok_def)
  have "limits_ok ?q" using inv assms(5) by (auto simp: queue_inv_def limits_ok_def push_entry_simps)
  moreover have "slot_wf ?q (slots ?q j)" for j
  proof (cases "j = i")
    case True
    then show ?thesis using wf[of i] assms u by (auto simp: slot_wf_def push_entry_simps)
  next
    case False
    then show ?thesis using wf[of j] by (auto simp: slot_wf_def push_entry_simps)
  qed
  moreover have "subs_ok ?q" using inv i by (auto simp: queue_inv_def subs_ok_def push_entry_simps)
  moreover have "closing_ok ?q" using inv by (simp add: queue_inv_def closing_ok_def push_entry_simps)
  moreover have "refs_ok (Some u) ?q"
  proof -
    have R: "refs_ok (Some u) q" using inv by (simp add: queue_inv_def)
    have H: "held ?q w = held q w + (if w = u then 1 else 0)" for w
      using held_change[OF lt, of ?q w] by (simp add: push_entry_simps slot_units_def)
    have pos: "1 \<le> refs q u" using R held_nonneg[of q u] by (simp add: refs_ok_def)
    show ?thesis using R H pos by (auto simp: refs_ok_def released_count_def push_entry_simps)
  qed
  ultimately show ?thesis by (simp add: queue_inv_def)
qed

lemma emit_ok [simp]:
  "limits_ok (emit e q) = limits_ok q" "slot_wf (emit e q) s = slot_wf q s"
  "subs_ok (emit e q) = subs_ok q" "closing_ok (emit e q) = closing_ok q" "held (emit e q) u = held q u"
  by (simp_all add: limits_ok_def slot_wf_def subs_ok_def closing_ok_def held_def)

lemma emit_inv: "queue_inv g q \<Longrightarrow> (\<And>u. e \<noteq> Released u) \<Longrightarrow> queue_inv g (emit e q)"
  by (simp add: queue_inv_def refs_ok_def released_count_def)

text \<open>Settling the pending read of a slot keeps the invariant: the slot holds nothing.\<close>

lemma clear_pending_inv:
  assumes "queue_inv g q"
  shows "queue_inv g (update_slot i (\<lambda>s. s\<lparr>pending := None\<rparr>) q)"
proof -
  let ?q = "update_slot i (\<lambda>s. s\<lparr>pending := None\<rparr>) q"
  have "held ?q u = held q u" for u by (rule held_cong) auto
  moreover have "limits_ok ?q" using assms by (simp add: queue_inv_def limits_ok_def)
  moreover have "slot_wf ?q (slots ?q j)" for j
    using queue_inv_slot[OF assms, of j] by (auto simp: slot_wf_def)
  moreover have "subs_ok ?q" using assms by (simp add: queue_inv_def subs_ok_def)
  moreover have "closing_ok ?q" using assms by (simp add: queue_inv_def closing_ok_def)
  ultimately show ?thesis using assms by (simp add: queue_inv_def refs_ok_def released_count_def)
qed

lemma publish_slot_inv:
  assumes inv: "queue_inv (Some u) q" and i: "i \<in> set (subs q)" and b: "0 < b"
    and ps: "publish_slot u v b i q = (r, q')"
  shows "queue_inv (Some u) q' \<and> same_frame q (q'\<lparr>peak := peak q, slots := slots q\<rparr>)"
proof (cases "pending (slots q i)")
  case (Some p)
  with ps inv show ?thesis
    by (auto simp: publish_slot_def same_frame_def intro!: emit_inv clear_pending_inv)
next
  case None
  show ?thesis
  proof (cases "b > max_bytes q")
    case True
    with ps None inv show ?thesis
      by (auto simp: publish_slot_def same_frame_def intro!: emit_inv split: if_splits)
  next
    case fits: False
    show ?thesis
    proof (cases "mode q")
      case Recorded
      with ps None fits inv i b show ?thesis
        by (auto simp: publish_slot_def make_room_recorded same_frame_def push_entry_simps
            intro!: push_entry_inv split: if_splits)
    next
      case Live
      then obtain n q1 where q1: "make_room i b 0 q = (Inr n, q1)" "queue_inv (Some u) q1"
        "int (length (entries (slots q1 i))) < max_units q" "slot_bytes (slots q1 i) + b \<le> max_bytes q"
        "same_frame q q1"
        using make_room_live[OF inv Live, of b i 0] fits by auto
      define q2 where "q2 = (if n > 0 then emit (Gap n) q1 else q1)"
      have "queue_inv (Some u) q2" using q1(2) by (auto simp: q2_def intro: emit_inv)
      moreover have "slots q2 = slots q1" "same_frame q q2"
        using q1(5) by (auto simp: q2_def same_frame_def)
      ultimately show ?thesis
        using ps None fits q1 i b push_entry_inv[of u q2 i b v]
        by (simp add: publish_slot_def flip: q2_def)
          (auto simp: same_frame_def push_entry_simps)
    qed
  qed
qed

lemma publish_all_inv:
  "queue_inv (Some u) q \<Longrightarrow> set is \<subseteq> set (subs q) \<Longrightarrow> 0 < b \<Longrightarrow> publish_all u v b is q = (r, q') \<Longrightarrow>
   queue_inv (Some u) q' \<and> same_frame q (q'\<lparr>peak := peak q, slots := slots q\<rparr>)"
proof (induction "is" arbitrary: q)
  case Nil
  then show ?case by (auto simp: same_frame_def)
next
  case (Cons i "is")
  obtain r1 q1 where q1: "publish_slot u v b i q = (r1, q1)" by (cases "publish_slot u v b i q")
  with publish_slot_inv[of u q i b v r1 q1] Cons.prems
  have inv: "queue_inv (Some u) q1" and F: "same_frame q (q1\<lparr>peak := peak q, slots := slots q\<rparr>)" by auto
  show ?case
  proof (cases r1)
    case (Inl e)
    with q1 inv F Cons.prems show ?thesis by simp
  next
    case (Inr x)
    with q1 Cons.prems F have "publish_all u v b is q1 = (r, q')" "set is \<subseteq> set (subs q1)"
      by (auto simp: same_frame_def)
    with Cons.IH[OF inv] Cons.prems(3) F show ?thesis by (auto simp: same_frame_def)
  qed
qed

text \<open>The end of a publication: the guard reference goes.\<close>

lemma relinquish_ok [simp]:
  "limits_ok (relinquish u q) = limits_ok q" "slot_wf (relinquish u q) s = slot_wf q s"
  "subs_ok (relinquish u q) = subs_ok q" "closing_ok (relinquish u q) = closing_ok q"
  "held (relinquish u q) w = held q w"
  by (simp_all add: limits_ok_def slot_wf_def subs_ok_def closing_ok_def held_def)

lemma relinquish_guard_inv: "queue_inv (Some u) q \<Longrightarrow> queue_inv None (relinquish u q)"
  using held_nonneg[of q u] by (auto simp: queue_inv_def refs_ok_def released_count_def)

lemma begin_publish_inv:
  assumes inv: "queue_inv None q" and u: "u = next_unit q"
  shows "queue_inv (Some u) (q\<lparr>next_unit := Suc u, refs := (refs q)(u := 1)\<rparr>)" (is "queue_inv _ ?q")
proof -
  have "u \<notin> entry_unit ` set (entries (slots q i))" for i
    using queue_inv_slot[OF inv, of i] u by (auto simp: slot_wf_def)
  then have h: "held q u = 0" by (simp add: held_def slot_units_def count_list_0_iff)
  have "held ?q w = held q w" for w by (simp add: held_def)
  moreover have "limits_ok ?q" using inv by (simp add: queue_inv_def limits_ok_def)
  moreover have "slot_wf ?q (slots ?q j)" for j
    using queue_inv_slot[OF inv, of j] u by (auto simp: slot_wf_def)
  moreover have "subs_ok ?q" using inv by (simp add: queue_inv_def subs_ok_def)
  moreover have "closing_ok ?q" using inv by (simp add: queue_inv_def closing_ok_def)
  ultimately show ?thesis using inv u h
    by (auto simp: queue_inv_def refs_ok_def released_count_def less_Suc_eq)
qed

lemma publish_inv: "queue_inv None q \<Longrightarrow> publish v n q = (r, q') \<Longrightarrow> queue_inv None q'"
proof -
  assume inv: "queue_inv None q" and p: "publish v n q = (r, q')"
  show ?thesis
  proof (cases "positive_integer n (128 * 1024 * 1024)")
    case (Inl e)
    with p inv show ?thesis by (simp add: publish_def)
  next
    case (Inr b)
    then have b: "0 < b" by (simp add: positive_integer_Inr)
    let ?q0 = "q\<lparr>next_unit := Suc (next_unit q), refs := (refs q)(next_unit q := 1)\<rparr>"
    have i0: "queue_inv (Some (next_unit q)) ?q0" by (rule begin_publish_inv[OF inv refl])
    show ?thesis
    proof (cases "queue_ended q \<or> draining q")
      case True
      with p Inr i0 show ?thesis by (auto simp: publish_def Let_def intro: relinquish_guard_inv)
    next
      case False
      obtain r1 q1 where q1: "publish_all (next_unit q) v b (subs q) ?q0 = (r1, q1)"
        by (cases "publish_all (next_unit q) v b (subs q) ?q0")
      with publish_all_inv[OF i0 _ b q1] have "queue_inv (Some (next_unit q)) q1" by simp
      with p Inr q1 False show ?thesis by (auto simp: publish_def Let_def intro: relinquish_guard_inv)
    qed
  qed
qed


subsection \<open>Discarding, detaching, ending\<close>

lemma discard_all_inv:
  "queue_inv g q \<Longrightarrow> queue_inv g (snd (discard_all is q)) \<and> same_frame q (snd (discard_all is q))"
proof (induction "is" arbitrary: q)
  case Nil
  then show ?case by (simp add: same_frame_refl)
next
  case (Cons i "is")
  have "queue_inv g (snd (drain i q))" by (rule drain_inv[OF Cons.prems])
  with Cons.IH[of "snd (drain i q)"] drain_frame[of q i] show ?case
    by (auto simp: split_beta Let_def intro: same_frame_trans)
qed

lemma discard_all_other: "j \<notin> set is \<Longrightarrow> slots (snd (discard_all is q)) j = slots q j"
  by (induction "is" arbitrary: q) (auto simp: split_beta Let_def drain_other)

lemma discard_all_entries:
  "j \<in> set is \<or> entries (slots q j) = [] \<Longrightarrow> entries (slots (snd (discard_all is q)) j) = []"
proof (induction "is" arbitrary: q)
  case Nil
  then show ?case by simp
next
  case (Cons i "is")
  have "j \<in> set is \<or> entries (slots (snd (drain i q)) j) = []"
    using Cons.prems by (cases "j = i") (auto simp: drain_entries drain_other)
  with Cons.IH[of "snd (drain i q)"] show ?case by (simp add: split_beta Let_def)
qed

lemma discard_all_count:
  "distinct is \<Longrightarrow> fst (discard_all is q) = (\<Sum>i\<leftarrow>is. length (entries (slots q i)))"
proof (induction "is" arbitrary: q)
  case Nil
  then show ?case by simp
next
  case (Cons i "is")
  have "(\<Sum>j\<leftarrow>is. length (entries (slots (snd (drain i q)) j))) = (\<Sum>j\<leftarrow>is. length (entries (slots q j)))"
  proof (rule arg_cong[where f = sum_list], rule map_cong)
    fix j assume "j \<in> set is"
    with Cons.prems have "j \<noteq> i" by auto
    then show "length (entries (slots (snd (drain i q)) j)) = length (entries (slots q j))"
      by (simp add: drain_other)
  qed simp
  with Cons show ?case by (simp add: split_beta Let_def drain_count)
qed

text \<open>
  \<open>detach\<close> marks the slot before it drains it; marking and draining commute, so the
  invariant is carried to the drained queue first.
\<close>

definition mark_ended :: "nat \<Rightarrow> 'v queue \<Rightarrow> 'v queue" where
  "mark_ended i q = update_slot i (\<lambda>s. s\<lparr>slot_ended := True\<rparr>) q"

lemma pop_mark_ended: "pop i (mark_ended i q) = mark_ended i (pop i q)"
  by (cases "entries (slots q i)")
    (auto simp: pop_def remove_entry_def mark_ended_def intro!: queue.equality)

lemma drain_mark_ended: "snd (drain i (mark_ended i q)) = mark_ended i (snd (drain i q))"
proof (induction "length (entries (slots q i))" arbitrary: q)
  case 0
  then show ?case by (simp add: drain_Nil mark_ended_def)
next
  case (Suc n)
  then obtain e es where es: "entries (slots q i) = e # es" by (cases "entries (slots q i)") auto
  moreover from es have "entries (slots (mark_ended i q) i) = e # es" by (simp add: mark_ended_def)
  ultimately show ?case
    using Suc(1)[of "pop i q"] Suc(2) by (simp add: drain_Cons entries_pop pop_mark_ended)
qed

definition closing_outcome :: "'v queue \<Rightarrow> 'v outcome" where
  "closing_outcome q = (case failure q of Some e \<Rightarrow> Failed e | None \<Rightarrow> Done)"

definition settle_pending :: "nat \<Rightarrow> 'v queue \<Rightarrow> 'v effect list" where
  "settle_pending i q = (case pending (slots q i) of None \<Rightarrow> [] | Some r \<Rightarrow> [Settle r (closing_outcome q)])"

lemma detach_eq:
  "detach i q = (let d = snd (drain i q) in
     d\<lparr>slots := (slots d)(i := (slots d i)\<lparr>slot_ended := True, pending := None\<rparr>),
       effects := effects d @ settle_pending i q, subs := removeAll i (subs d)\<rparr>)"
  using drain_mark_ended[of i q] drain_frame[of q i]
  by (simp add: detach_def Let_def flip: mark_ended_def)
    (auto simp: mark_ended_def update_slot_def emit_def settle_pending_def closing_outcome_def
      same_frame_def split: option.splits)

lemma detach_simps:
  "max_bytes (detach i q) = max_bytes q" "max_units (detach i q) = max_units q"
  "max_subscribers (detach i q) = max_subscribers q" "mode (detach i q) = mode q"
  "next_slot (detach i q) = next_slot q" "subs (detach i q) = removeAll i (subs q)"
  "initial (detach i q) = initial q" "queue_ended (detach i q) = queue_ended q"
  "draining (detach i q) = draining q" "failure (detach i q) = failure q" "peak (detach i q) = peak q"
  "next_unit (detach i q) = next_unit q" "next_read (detach i q) = next_read q"
  "entries (slots (detach i q) i) = []" "pending (slots (detach i q) i) = None"
  "slot_ended (slots (detach i q) i)"
  using drain_frame[of q i] by (simp_all add: detach_eq Let_def same_frame_def drain_entries)

lemma detach_other: "j \<noteq> i \<Longrightarrow> slots (detach i q) j = slots q j"
  by (simp add: detach_eq Let_def drain_other)

lemma detach_inv:
  assumes "queue_inv g q"
  shows "queue_inv g (detach i q)"
proof -
  let ?d = "snd (drain i q)" and ?q = "detach i q"
  have inv: "queue_inv g ?d" by (rule drain_inv[OF assms])
  have F: "same_frame q ?d" by (rule drain_frame)
  have "held ?q u = held ?d u" for u
    by (rule held_cong) (simp_all add: detach_eq Let_def)
  then have "refs_ok g ?q"
    using inv by (auto simp: queue_inv_def refs_ok_def released_count_def detach_eq Let_def
        settle_pending_def split: option.splits)
  moreover have "limits_ok ?q" using inv by (simp add: queue_inv_def limits_ok_def detach_eq Let_def)
  moreover have "slot_wf ?q (slots ?q j)" for j
    using queue_inv_slot[OF inv, of j] by (auto simp: slot_wf_def detach_eq Let_def)
  moreover have "subs_ok ?q"
  proof -
    have "int (length (removeAll i (subs q))) \<le> int (length (subs q))" by simp
    also have "\<dots> \<le> max_subscribers q" using assms by (simp add: queue_inv_def subs_ok_def)
    finally have "int (length (removeAll i (subs q))) \<le> max_subscribers q" .
    then show ?thesis using inv F drain_entries[of i q]
      by (auto simp: queue_inv_def subs_ok_def detach_eq Let_def same_frame_def distinct_removeAll)
  qed
  moreover have "closing_ok ?q"
    using inv F by (auto simp: queue_inv_def closing_ok_def detach_eq Let_def same_frame_def)
  ultimately show ?thesis by (simp add: queue_inv_def)
qed

lemma detach_all_inv:
  "queue_inv g q \<Longrightarrow> queue_inv g (detach_all is q) \<and> subs (detach_all is q) = filter (\<lambda>j. j \<notin> set is) (subs q)
   \<and> next_slot (detach_all is q) = next_slot q \<and> queue_ended (detach_all is q) = queue_ended q
   \<and> draining (detach_all is q) = draining q \<and> failure (detach_all is q) = failure q
   \<and> max_subscribers (detach_all is q) = max_subscribers q \<and> initial (detach_all is q) = initial q
   \<and> next_unit (detach_all is q) = next_unit q \<and> mode (detach_all is q) = mode q"
proof (induction "is" arbitrary: q)
  case Nil
  then show ?case by simp
next
  case (Cons i "is")
  have "queue_inv g (detach i q)" by (rule detach_inv[OF Cons.prems])
  from Cons.IH[OF this] show ?case
    by (auto simp: detach_simps removeAll_filter_not_eq intro: filter_cong)
qed

lemma detach_empty_inv:
  "queue_inv g q \<Longrightarrow> queue_inv g (detach_empty is q)"
  by (induction "is" arbitrary: q) (auto intro: detach_inv)

lemma detach_empty_frame:
  "queue_ended (detach_empty is q) = queue_ended q \<and> draining (detach_empty is q) = draining q
   \<and> next_unit (detach_empty is q) = next_unit q \<and> mode (detach_empty is q) = mode q"
  by (induction "is" arbitrary: q) (auto simp: detach_simps)

text \<open>
  Draining starts with reads still pending; \<open>detach_empty\<close> settles every one of them, because
  a slot with a pending read has no entries. Setting the flag first or last gives the same queue.
\<close>

lemma set_draining_slot_wf [simp]: "slot_wf (q\<lparr>draining := d\<rparr>) s = slot_wf q s"
  by (simp add: slot_wf_def)

lemma set_draining_ok [simp]:
  "limits_ok (q\<lparr>draining := d\<rparr>) = limits_ok q" "subs_ok (q\<lparr>draining := d\<rparr>) = subs_ok q"
  "refs_ok g (q\<lparr>draining := d\<rparr>) = refs_ok g q" "closing_outcome (q\<lparr>draining := d\<rparr>) = closing_outcome q"
  by (simp_all add: closing_outcome_def limits_ok_def subs_ok_def refs_ok_def held_def released_count_def)

lemma pop_set_draining: "pop i (q\<lparr>draining := d\<rparr>) = (pop i q)\<lparr>draining := d\<rparr>"
  by (cases "entries (slots q i)")
    (auto simp: pop_def remove_entry_def intro!: queue.equality)

lemma drain_set_draining: "snd (drain i (q\<lparr>draining := d\<rparr>)) = (snd (drain i q))\<lparr>draining := d\<rparr>"
proof (induction "length (entries (slots q i))" arbitrary: q)
  case 0
  then show ?case by (simp add: drain_Nil)
next
  case (Suc n)
  then obtain e es where es: "entries (slots q i) = e # es" by (cases "entries (slots q i)") auto
  then show ?case using Suc(1)[of "pop i q"] Suc(2)
    by (simp add: drain_Cons entries_pop pop_set_draining)
qed

lemma detach_set_draining: "detach i (q\<lparr>draining := d\<rparr>) = (detach i q)\<lparr>draining := d\<rparr>"
  by (rule queue.equality)
    (simp_all add: detach_eq Let_def drain_set_draining settle_pending_def split: option.split)

lemma detach_empty_set_draining:
  "detach_empty is (q\<lparr>draining := d\<rparr>) = (detach_empty is q)\<lparr>draining := d\<rparr>"
  by (induction "is" arbitrary: q) (auto simp: detach_set_draining)

lemma detach_empty_slots:
  "entries (slots q j) \<noteq> [] \<Longrightarrow> slots (detach_empty is q) j = slots q j"
proof (induction "is" arbitrary: q)
  case Nil
  then show ?case by simp
next
  case (Cons i "is")
  then show ?case using Cons.IH[of "detach i q"] detach_other[of j i q] by fastforce
qed

lemma detach_empty_pending:
  assumes "queue_inv g q" "j \<in> set is \<or> pending (slots q j) = None" "entries (slots q j) = []"
  shows "pending (slots (detach_empty is q) j) = None"
  using assms
proof (induction "is" arbitrary: q)
  case Nil
  then show ?case by simp
next
  case (Cons i "is")
  let ?q = "if entries (slots q i) = [] then detach i q else q"
  have "queue_inv g ?q" using Cons.prems(1) by (auto intro: detach_inv)
  moreover have "j \<in> set is \<or> pending (slots ?q j) = None" "entries (slots ?q j) = []"
    using Cons.prems by (cases "j = i"; simp add: detach_simps detach_other)+
  ultimately show ?case using Cons.IH[of ?q] by simp
qed

lemma end_queue_inv: assumes inv: "queue_inv g q" shows "queue_inv g (end_queue q)"
proof (cases "queue_ended q \<or> draining q")
  case True
  with inv show ?thesis by (simp add: end_queue_def)
next
  case False
  let ?q = "detach_empty (subs q) q"
  have i: "queue_inv g ?q" by (rule detach_empty_inv[OF inv])
  have "pending (slots ?q j) = None" for j
  proof (cases "entries (slots q j) = []")
    case True
    with detach_empty_pending[OF inv, of j "subs q"] pending_slot_sub[OF inv, of j] show ?thesis by blast
  next
    case False
    then have "pending (slots q j) = None" using queue_inv_slot[OF inv, of j] by (auto simp: slot_wf_def)
    moreover have "slots ?q j = slots q j"
      using False by (rule detach_empty_slots)
    ultimately show ?thesis by simp
  qed
  with i False show ?thesis
    by (simp add: end_queue_def detach_empty_set_draining queue_inv_def closing_ok_def)
qed


lemma fresh_slot_wf: "limits_ok q \<Longrightarrow> slot_wf q (fresh_subscriber e)"
  by (simp add: slot_wf_def fresh_subscriber_def limits_ok_def)

lemma add_inv:
  assumes inv: "queue_inv g q" and a: "add q = (Inr i, q')"
  shows "queue_inv g q' \<and> i = next_slot q \<and> next_slot q' = Suc i
    \<and> (i \<in> set (subs q') \<longleftrightarrow> \<not> queue_ended q \<and> \<not> draining q)"
proof -
  define e where "e = (queue_ended q \<or> draining q)"
  have i: "i = next_slot q" and small: "int (length (subs q)) < max_subscribers q"
    and q': "q' = q\<lparr>slots := (slots q)(i := fresh_subscriber e), next_slot := Suc i,
                   subs := (if e then subs q else subs q @ [i])\<rparr>"
    using a by (auto simp: add_def Let_def e_def split: if_splits)
  have notin: "i \<notin> set (subs q)" using inv i by (auto simp: queue_inv_def subs_ok_def)
  have nil: "entries (slots q i) = []" using inv notin by (simp add: queue_inv_def subs_ok_def)
  have "held q' u = held q u" for u
    using i by (simp add: held_def q' slot_units_def nil fresh_subscriber_def)
  then have "refs_ok g q'" using inv by (simp add: queue_inv_def refs_ok_def released_count_def q')
  moreover have "limits_ok q'" using inv by (simp add: queue_inv_def limits_ok_def q')
  moreover have "slot_wf q' (slots q' j)" for j
    using queue_inv_slot[OF inv, of j] fresh_slot_wf[of q' e] \<open>limits_ok q'\<close>
    by (auto simp: slot_wf_def q')
  moreover have "subs_ok q'" using inv small notin
    by (auto simp: queue_inv_def subs_ok_def q' fresh_subscriber_def i less_Suc_eq)
  moreover have "closing_ok q'" using inv
    by (auto simp: queue_inv_def closing_ok_def q' fresh_subscriber_def e_def)
  ultimately show ?thesis using i notin by (auto simp: queue_inv_def q' e_def)
qed

lemma add_error: "add q = (Inl e, q') \<Longrightarrow> q' = q \<and> e = OnvifError InvalidValue NotSent"
  by (auto simp: add_def Let_def split: if_splits)

lemma set_flags_ok [simp]:
  "slot_wf (q\<lparr>initial := i\<rparr>) s = slot_wf q s" "limits_ok (q\<lparr>initial := i\<rparr>) = limits_ok q"
  "refs_ok g (q\<lparr>initial := i\<rparr>) = refs_ok g q" "closing_ok (q\<lparr>initial := i\<rparr>) = closing_ok q"
  "slot_wf (q\<lparr>queue_ended := b, failure := e\<rparr>) s = slot_wf q s"
  "limits_ok (q\<lparr>queue_ended := b, failure := e\<rparr>) = limits_ok q"
  "refs_ok g (q\<lparr>queue_ended := b, failure := e\<rparr>) = refs_ok g q"
  "subs_ok (q\<lparr>queue_ended := b, failure := e\<rparr>) = subs_ok q"
  by (simp_all add: slot_wf_def limits_ok_def refs_ok_def subs_ok_def closing_ok_def held_def
      released_count_def)

lemma set_initial_inv: "queue_inv g q \<Longrightarrow> i < next_slot q \<Longrightarrow> queue_inv g (q\<lparr>initial := i\<rparr>)"
  by (simp add: queue_inv_def) (simp add: subs_ok_def)

lemma clear_draining_inv: "queue_inv g q \<Longrightarrow> queue_inv g (q\<lparr>draining := False\<rparr>)"
  by (simp add: queue_inv_def closing_ok_def)

lemma resume_inv:
  assumes inv: "queue_inv g q" and r: "resume q = (x, q')"
  shows "queue_inv g q'"
proof (cases "queue_ended q \<or> \<not> draining q")
  case True
  with r inv show ?thesis by (auto simp: resume_def split: if_splits)
next
  case False
  let ?d = "(detach_all (subs q) q)\<lparr>draining := False\<rparr>"
  have d: "queue_inv g ?d"
    using detach_all_inv[OF inv, of "subs q"] by (auto intro: clear_draining_inv)
  show ?thesis
  proof (cases "fst (add ?d)")
    case (Inl e)
    with r False add_error[of ?d e "snd (add ?d)"] d show ?thesis
      by (auto simp: resume_def split: prod.splits)
  next
    case (Inr i)
    then have a: "add ?d = (Inr i, snd (add ?d))" by (simp add: prod_eq_iff)
    with add_inv[OF d a] r False show ?thesis
      by (auto simp: resume_def intro!: set_initial_inv split: prod.splits)
  qed
qed

text \<open>
  \<open>finish\<close> sets its flag before it empties the subscribers, so the discarding runs outside
  the invariant; setting the flag commutes with discarding and detaching is all that is left.
\<close>

definition set_ended :: "onvif_error option \<Rightarrow> 'v queue \<Rightarrow> 'v queue" where
  "set_ended e q = q\<lparr>queue_ended := True, failure := e\<rparr>"

lemma pop_set_ended: "pop i (set_ended e q) = set_ended e (pop i q)"
  by (cases "entries (slots q i)")
    (auto simp: pop_def remove_entry_def set_ended_def intro!: queue.equality)

lemma drain_set_ended: "drain i (set_ended e q) = (fst (drain i q), set_ended e (snd (drain i q)))"
proof (induction "length (entries (slots q i))" arbitrary: q)
  case 0
  then show ?case by (simp add: drain_Nil set_ended_def)
next
  case (Suc n)
  then obtain x es where es: "entries (slots q i) = x # es" by (cases "entries (slots q i)") auto
  moreover from es have "entries (slots (set_ended e q) i) = x # es" by (simp add: set_ended_def)
  ultimately show ?case using Suc(1)[of "pop i q"] Suc(2)
    by (simp add: drain_Cons entries_pop pop_set_ended)
qed

lemma discard_all_set_ended:
  "discard_all is (set_ended e q) = (fst (discard_all is q), set_ended e (snd (discard_all is q)))"
  by (induction "is" arbitrary: q) (auto simp: drain_set_ended split_beta Let_def)

text \<open>All of the invariant but the clause that an ended queue has no subscribers.\<close>

definition ending_inv :: "nat option \<Rightarrow> 'v queue \<Rightarrow> bool" where
  "ending_inv g q \<longleftrightarrow> queue_inv g (q\<lparr>queue_ended := False, failure := None\<rparr>)"

lemma detach_ending_frame:
  "ending_inv g q \<Longrightarrow> ending_inv g (detach i q)"
proof -
  assume a: "ending_inv g q"
  let ?q = "q\<lparr>queue_ended := False, failure := None\<rparr>"
  have d: "queue_inv g (detach i ?q)" using a detach_inv by (auto simp: ending_inv_def)
  have "set_ended (failure q) ?q = q\<lparr>queue_ended := True\<rparr>" by (simp add: set_ended_def)
  have dr: "snd (drain i q) = (snd (drain i ?q))\<lparr>queue_ended := queue_ended q, failure := failure q\<rparr>"
  proof (induction "length (entries (slots q i))" arbitrary: q)
    case 0
    then show ?case by (simp add: drain_Nil)
  next
    case (Suc n)
    then obtain x es where es: "entries (slots q i) = x # es" by (cases "entries (slots q i)") auto
    let ?p = "\<lambda>q::'a queue. q\<lparr>queue_ended := False, failure := None\<rparr>"
    have "pop i (?p q) = ?p (pop i q)"
      using es by (auto simp: pop_def remove_entry_def intro!: queue.equality)
    moreover have "queue_ended (pop i q) = queue_ended q" "failure (pop i q) = failure q"
      using pop_frame[of q i] by (simp_all add: same_frame_def)
    ultimately show ?case using Suc(1)[of "pop i q"] Suc(2) es
      by (simp add: drain_Cons entries_pop)
  qed
  let ?a = "(detach i q)\<lparr>queue_ended := False, failure := None\<rparr>" and ?b = "detach i ?q"
  have "slots ?a = slots ?b" "subs ?a = subs ?b" "refs ?a = refs ?b"
    by (simp_all add: detach_eq Let_def dr)
  moreover have "released_count ?a u = released_count ?b u" for u
    by (simp add: detach_eq Let_def dr released_count_def settle_pending_def split: option.split)
  moreover have "held ?a u = held ?b u" for u
    by (rule held_cong) (simp_all add: detach_eq Let_def dr)
  moreover have "slot_wf ?a x = slot_wf ?b x" for x by (simp add: slot_wf_def detach_simps)
  ultimately have "queue_inv g ?a" using d
    by (simp add: queue_inv_def limits_ok_def subs_ok_def closing_ok_def refs_ok_def detach_simps)
  then show ?thesis by (simp add: ending_inv_def)
qed

lemma detach_all_ending:
  "ending_inv g q \<Longrightarrow> ending_inv g (detach_all is q) \<and> subs (detach_all is q) = filter (\<lambda>j. j \<notin> set is) (subs q)
   \<and> queue_ended (detach_all is q) = queue_ended q \<and> failure (detach_all is q) = failure q"
proof (induction "is" arbitrary: q)
  case Nil
  then show ?case by simp
next
  case (Cons i "is")
  from Cons.IH[OF detach_ending_frame[OF Cons.prems]] show ?case
    by (auto simp: detach_simps removeAll_filter_not_eq intro: filter_cong)
qed

lemma ending_inv_closed:
  "ending_inv g q \<Longrightarrow> subs q = [] \<Longrightarrow> failure q \<noteq> None \<longrightarrow> queue_ended q \<Longrightarrow> queue_inv g q"
  by (auto simp: ending_inv_def queue_inv_def closing_ok_def)

lemma finish_inv:
  assumes inv: "queue_inv g q"
  shows "queue_inv g (finish err q) \<and> queue_ended (finish err q) \<and> subs (finish err q) = []"
proof (cases "queue_ended q")
  case True
  with inv show ?thesis by (simp add: finish_def queue_inv_def closing_ok_def)
next
  case False
  define q1 where "q1 = set_ended err (snd (discard q))"
  have q1': "snd (discard (q\<lparr>queue_ended := True, failure := err\<rparr>)) = q1"
    using discard_all_set_ended[of "subs q" err q] by (simp add: q1_def discard_def set_ended_def)
  have d: "queue_inv g (snd (discard q))" "same_frame q (snd (discard q))"
    using discard_all_inv[OF inv] by (auto simp: discard_def)
  have "ending_inv g q1"
    using d False inv by (auto simp: ending_inv_def q1_def set_ended_def queue_inv_def closing_ok_def
        same_frame_def)
  from detach_all_ending[OF this, of "subs q1"]
  have e: "ending_inv g (detach_all (subs q1) q1)" "subs (detach_all (subs q1) q1) = []"
    "queue_ended (detach_all (subs q1) q1)"
    by (auto simp: q1_def set_ended_def)
  have "queue_inv g (detach_all (subs q1) q1)" using e by (intro ending_inv_closed) auto
  moreover have "finish err q = detach_all (subs q1) q1"
    using False e(2) by (simp add: finish_def q1' Let_def)
  ultimately show ?thesis using e by simp
qed

subsection \<open>The iterator\<close>

lemma set_claimed_inv:
  assumes "queue_inv g q" shows "queue_inv g (update_slot i (\<lambda>s. s\<lparr>claimed := c\<rparr>) q)" (is "queue_inv g ?q")
proof -
  have "held ?q u = held q u" for u by (rule held_cong) auto
  moreover have "slot_wf ?q (slots ?q j)" for j
    using queue_inv_slot[OF assms, of j] by (auto simp: slot_wf_def)
  ultimately show ?thesis using assms
    by (auto simp: queue_inv_def limits_ok_def subs_ok_def closing_ok_def refs_ok_def released_count_def)
qed

lemma iterator_inv: "queue_inv g q \<Longrightarrow> iterator q = (x, q') \<Longrightarrow> queue_inv g q'"
proof -
  assume inv: "queue_inv g q" and it: "iterator q = (x, q')"
  show ?thesis
  proof (cases "claimed (slots q (initial q))")
    case False
    with it inv show ?thesis by (auto simp: iterator_def intro: set_claimed_inv)
  next
    case True
    with it inv add_inv[OF inv, of "projr (fst (add q))" "snd (add q)"]
      add_error[of q "projl (fst (add q))" "snd (add q)"] show ?thesis
      by (auto simp: iterator_def intro!: set_claimed_inv split: sum.splits prod.splits)
  qed
qed

lemma next_item_pop:
  "entries (slots q i) = e # es \<Longrightarrow> \<not> slot_ended (slots q i) \<Longrightarrow> \<not> queue_ended q \<Longrightarrow>
   next_item i q = (Settled (Yielded (entry_value e)), pop i q)"
  by (simp add: next_item_def pop_def remove_entry_Cons)

lemma wait_inv:
  assumes inv: "queue_inv g q" and i: "i \<in> set (subs q)" "entries (slots q i) = []" "\<not> draining q"
  shows "queue_inv g ((update_slot i (\<lambda>s. s\<lparr>pending := Some r\<rparr>) q)\<lparr>next_read := Suc r\<rparr>)" (is "queue_inv g ?q")
proof -
  have "held ?q u = held q u" for u by (rule held_cong) auto
  moreover have "slot_wf ?q (slots ?q j)" for j
    using queue_inv_slot[OF inv, of j] i by (auto simp: slot_wf_def)
  ultimately show ?thesis using assms
    by (auto simp: queue_inv_def limits_ok_def subs_ok_def closing_ok_def refs_ok_def released_count_def)
qed

lemma next_item_inv:
  assumes inv: "queue_inv g q" and n: "next_item i q = (r, q')"
  shows "queue_inv g q'"
proof (cases "slot_ended (slots q i) \<or> queue_ended q")
  case True
  with n inv show ?thesis by (simp add: next_item_def)
next
  case False
  then have i: "i \<in> set (subs q)" using inv by (auto simp: queue_inv_def subs_ok_def)
  show ?thesis
  proof (cases "entries (slots q i)")
    case (Cons e es)
    with n False pop_inv[OF inv Cons] show ?thesis by (simp add: next_item_pop)
  next
    case Nil
    with n False i inv show ?thesis
      by (auto simp: next_item_def remove_entry_Nil intro: detach_inv wait_inv split: if_splits)
  qed
qed

lemma new_queue_inv:
  assumes "new_queue opts = Inr q"
  shows "queue_inv None q \<and> subs q = [0] \<and> initial q = 0"
proof -
  obtain mb mu ms where lim: "0 < mb" "mb \<le> 128 * 1024 * 1024" "0 < mu" "mu \<le> 256" "0 < ms" "ms \<le> 16"
    and q: "q = \<lparr>max_bytes = mb, max_units = mu, max_subscribers = ms,
      mode = (if opt_mode opts = ''live'' then Live else Recorded),
      slots = (\<lambda>_. fresh_subscriber True)(0 := fresh_subscriber False), next_slot = 1, subs = [0], initial = 0,
      queue_ended = False, draining = False, failure = None, peak = 0,
      refs = (\<lambda>_. 0), next_unit = 0, next_read = 0, effects = []\<rparr>"
    using assms by (auto simp: new_queue_def bind_result_Inr_iff positive_integer_Inr add_def Let_def
        split: if_splits)
  show ?thesis using lim
    by (auto simp: q queue_inv_def limits_ok_def slot_wf_def subs_ok_def closing_ok_def refs_ok_def
        held_def slot_units_def released_count_def fresh_subscriber_def)
qed


subsection \<open>Operations as steps\<close>

text \<open>The public operations, in one type, so that a history of a queue is a list of them.\<close>

datatype 'v queue_op =
    Publish 'v jsnum | Discard | End | Resume | Finish "onvif_error option"
  | Subscribe | Next nat | Return nat | Throw nat onvif_error

fun queue_step :: "'v queue_op \<Rightarrow> 'v queue \<Rightarrow> 'v queue" where
  "queue_step (Publish v n) q = snd (publish v n q)"
| "queue_step Discard q = snd (discard q)"
| "queue_step End q = end_queue q"
| "queue_step Resume q = snd (resume q)"
| "queue_step (Finish e) q = finish e q"
| "queue_step Subscribe q = snd (iterator q)"
| "queue_step (Next i) q = snd (next_item i q)"
| "queue_step (Return i) q = snd (return_item i q)"
| "queue_step (Throw i e) q = snd (throw_item i e q)"

inductive queue_reachable :: "queue_options \<Rightarrow> 'v queue \<Rightarrow> bool" for opts where
  created: "new_queue opts = Inr q \<Longrightarrow> queue_reachable opts q"
| stepped: "queue_reachable opts q \<Longrightarrow> queue_reachable opts (queue_step op q)"

lemma queue_step_inv: "queue_inv None q \<Longrightarrow> queue_inv None (queue_step op q)"
proof (cases op)
  case (Publish v n)
  then show "queue_inv None q \<Longrightarrow> ?thesis"
    using publish_inv[of q v n "fst (publish v n q)" "snd (publish v n q)"] by simp
next
  case Discard
  then show "queue_inv None q \<Longrightarrow> ?thesis" by (simp add: discard_def discard_all_inv)
next
  case Resume
  then show "queue_inv None q \<Longrightarrow> ?thesis"
    using resume_inv[of None q "fst (resume q)" "snd (resume q)"] by simp
next
  case Subscribe
  then show "queue_inv None q \<Longrightarrow> ?thesis"
    using iterator_inv[of None q "fst (iterator q)" "snd (iterator q)"] by simp
next
  case (Next i)
  then show "queue_inv None q \<Longrightarrow> ?thesis"
    using next_item_inv[of None q i "fst (next_item i q)" "snd (next_item i q)"] by simp
qed (simp_all add: end_queue_inv finish_inv return_item_def throw_item_def detach_inv)

lemma reachable_inv: "queue_reachable opts q \<Longrightarrow> queue_inv None q"
  by (induction rule: queue_reachable.induct) (auto dest: new_queue_inv intro: queue_step_inv)

subsection \<open>The release log\<close>

definition released_units :: "'v queue \<Rightarrow> nat list" where
  "released_units q = concat (map (\<lambda>e. case e of Released u \<Rightarrow> [u] | _ \<Rightarrow> []) (effects q))"

lemma count_released_units: "count_list (released_units q) u = released_count q u"
proof -
  have "count_list (concat (map (\<lambda>e. case e of Released u \<Rightarrow> [u] | _ \<Rightarrow> []) es)) u = count_list es (Released u)"
    for es :: "'a effect list"
    by (induction es) (auto split: effect.split)
  then show ?thesis by (simp add: released_units_def released_count_def)
qed

definition extends :: "'v queue \<Rightarrow> 'v queue \<Rightarrow> bool" where
  "extends q q' \<longleftrightarrow> prefix (effects q) (effects q') \<and> next_unit q \<le> next_unit q'
     \<and> max_bytes q' = max_bytes q \<and> max_units q' = max_units q
     \<and> max_subscribers q' = max_subscribers q \<and> mode q' = mode q"

lemma extends_refl [simp]: "extends q q" by (simp add: extends_def)

lemma extends_trans: "extends a b \<Longrightarrow> extends b c \<Longrightarrow> extends a c"
  by (auto simp: extends_def)

lemma extends_update [simp]:
  "extends q (update_slot i f q)" "extends q (emit e q)" "extends q (relinquish u q)"
  "extends q (push_entry i u v b q)" "extends q (q\<lparr>draining := d\<rparr>)" "extends q (q\<lparr>initial := k\<rparr>)"
  "extends q (q\<lparr>queue_ended := b', failure := f'\<rparr>)" "extends q (q\<lparr>subs := ss\<rparr>)"
  by (simp_all add: extends_def push_entry_simps)

lemma extends_pop [simp]: "extends q (pop i q)"
  by (cases "entries (slots q i)")
    (auto simp: pop_def remove_entry_def extends_def)

lemma extends_drain [simp]: "extends q (snd (drain i q))"
  by (rule drain_rule[where P = "extends q"]) (auto intro: extends_trans)

lemma extends_discard_all [simp]: "extends q (snd (discard_all is q))"
  by (induction "is" arbitrary: q) (auto simp: split_beta Let_def intro: extends_trans[OF extends_drain])

lemma extends_detach [simp]: "extends q (detach i q)"
proof -
  have "extends q (snd (drain i q))" by simp
  then show ?thesis by (auto simp: detach_eq Let_def extends_def)
qed

lemma extends_detach_all [simp]: "extends q (detach_all is q)"
  by (induction "is" arbitrary: q) (auto intro: extends_trans[OF extends_detach])

lemma extends_detach_empty [simp]: "extends q (detach_empty is q)"
  by (induction "is" arbitrary: q) (auto intro: extends_trans[OF extends_detach])

lemma extends_add [simp]: "extends q (snd (add q))"
  by (simp add: add_def Let_def extends_def)

lemma extends_make_room [simp]: "extends q (snd (make_room i b d q))"
proof (induction i b d q rule: make_room.induct)
  case (1 i b d q)
  show ?case
  proof (cases "int (length (entries (slots q i))) \<ge> max_units q \<or> slot_bytes (slots q i) + b > max_bytes q")
    case False
    then show ?thesis by (subst make_room.simps) auto
  next
    case True
    show ?thesis
    proof (cases "mode q = Recorded")
      case True
      then show ?thesis by (subst make_room.simps) auto
    next
      case live: False
      show ?thesis
      proof (cases "entries (slots q i)")
        case Nil
        then show ?thesis using True live by (subst make_room.simps) (auto simp: remove_entry_Nil)
      next
        case (Cons e es)
        have m: "mode q = Live" using live by (cases "mode q") auto
        have "extends (pop i q) (snd (make_room i b (Suc d) (pop i q)))"
          using 1[OF True live] Cons by (simp add: remove_entry_Cons pop_def)
        then show ?thesis using make_room_Cons[OF m Cons True] extends_trans[OF extends_pop] by simp
      qed
    qed
  qed
qed

lemma extends_publish_slot [simp]: "extends q (snd (publish_slot u v b i q))"
proof -
  obtain r q1 where m: "make_room i b 0 q = (r, q1)" by (cases "make_room i b 0 q")
  then have q1: "extends q q1" using extends_make_room[of q i b 0] by simp
  have "extends q (emit e (update_slot i f q))" for e f
    by (rule extends_trans[OF extends_update(1) extends_update(2)])
  moreover have "extends q (push_entry i u v b (emit e q1))" for e
    by (rule extends_trans[OF q1 extends_trans[OF extends_update(2) extends_update(4)]])
  moreover have "extends q (push_entry i u v b q1)" by (rule extends_trans[OF q1 extends_update(4)])
  ultimately show ?thesis using q1 by (simp add: publish_slot_def m split: option.split sum.split)
qed

lemma extends_publish_all [simp]: "extends q (snd (publish_all u v b is q))"
proof (induction "is" arbitrary: q)
  case Nil
  then show ?case by simp
next
  case (Cons i "is")
  obtain r q1 where p: "publish_slot u v b i q = (r, q1)" by (cases "publish_slot u v b i q")
  then have q1: "extends q q1" using extends_publish_slot[of q u v b i] by simp
  then have "extends q (snd (publish_all u v b is q1))" by (rule extends_trans[OF _ Cons.IH])
  with q1 show ?case by (simp add: p split: sum.split)
qed

lemma extends_publish: "extends q (snd (publish v n q))"
proof (cases "positive_integer n (128 * 1024 * 1024)")
  case (Inl e)
  then show ?thesis by (simp add: publish_def)
next
  case (Inr b)
  define q0 where "q0 = q\<lparr>next_unit := Suc (next_unit q), refs := (refs q)(next_unit q := 1)\<rparr>"
  have q0: "extends q q0" by (simp add: q0_def extends_def)
  have "extends q (relinquish (next_unit q) q0)" by (rule extends_trans[OF q0 extends_update(3)])
  moreover have "extends q (relinquish (next_unit q) (snd (publish_all (next_unit q) v b (subs q) q0)))"
    by (rule extends_trans[OF q0 extends_trans[OF extends_publish_all extends_update(3)]])
  ultimately show ?thesis using Inr
    by (auto simp: publish_def Let_def split_beta simp flip: q0_def)
qed

lemma publish_next_unit:
  assumes "queue_inv None q" "publish v n q = (r, q')"
  shows "next_unit q' = (if positive_integer n (128 * 1024 * 1024) = raise InvalidConfiguration
    then next_unit q else Suc (next_unit q))"
proof (cases "positive_integer n (128 * 1024 * 1024)")
  case (Inl e)
  then show ?thesis using assms positive_integer_Inl[OF Inl] by (simp add: publish_def)
next
  case (Inr b)
  let ?q0 = "q\<lparr>next_unit := Suc (next_unit q), refs := (refs q)(next_unit q := 1)\<rparr>"
  have b: "0 < b" using Inr by (simp add: positive_integer_Inr)
  have i0: "queue_inv (Some (next_unit q)) ?q0" by (rule begin_publish_inv[OF assms(1) refl])
  show ?thesis using assms Inr
      publish_all_inv[OF i0 _ b, of "subs q" v "fst (publish_all (next_unit q) v b (subs q) ?q0)"
        "snd (publish_all (next_unit q) v b (subs q) ?q0)"]
    by (auto simp: publish_def Let_def split_beta same_frame_def split: if_splits)
qed

lemma extends_step: "extends q (queue_step op q)"
proof (cases op)
  case (Publish v n)
  then show ?thesis using extends_publish by simp
next
  case End
  have "extends q (detach_empty (subs q) (q\<lparr>draining := True\<rparr>))"
    by (rule extends_trans[OF extends_update(5) extends_detach_empty])
  then show ?thesis using End by (simp add: end_queue_def)
next
  case Resume
  let ?d = "detach_all (subs q) q"
  have "extends q (?d\<lparr>draining := False\<rparr>)" by (rule extends_trans[OF extends_detach_all extends_update(5)])
  then have "extends q (snd (add (?d\<lparr>draining := False\<rparr>)))" by (rule extends_trans) simp
  then show ?thesis using Resume
    by (auto simp: resume_def split: prod.split sum.split intro: extends_trans[OF _ extends_update(6)])
next
  case (Finish e)
  let ?q = "q\<lparr>queue_ended := True, failure := e\<rparr>"
  have "extends q (snd (discard ?q))"
    by (rule extends_trans[OF extends_update(7)[of q e True]]) (simp add: discard_def)
  then have "extends q (detach_all (subs (snd (discard ?q))) (snd (discard ?q)))"
    by (rule extends_trans) simp
  then show ?thesis using Finish by (auto simp: finish_def Let_def intro: extends_trans[OF _ extends_update(8)])
next
  case Subscribe
  obtain r q1 where a: "add q = (r, q1)" by (cases "add q")
  then have "extends q q1" using extends_add[of q] by simp
  then show ?thesis using Subscribe
    by (auto simp: iterator_def a split: sum.split intro: extends_trans[OF _ extends_update(1)])
next
  case (Next i)
  show ?thesis
  proof (cases "entries (slots q i)")
    case Nil
    then show ?thesis using Next
      by (auto simp: next_item_def remove_entry_Nil) (simp add: extends_def)
  next
    case (Cons e es)
    then show ?thesis using Next next_item_pop[OF Cons]
      by (cases "slot_ended (slots q i) \<or> queue_ended q") (auto simp: next_item_def)
  qed
qed (simp_all add: discard_def return_item_def throw_item_def)

lemma step_allocated:
  "queue_inv None q \<Longrightarrow> next_unit (queue_step op q) = next_unit q \<or> next_unit (queue_step op q) = Suc (next_unit q)"
proof (cases op)
  case (Publish v n)
  then show "queue_inv None q \<Longrightarrow> ?thesis"
    using publish_next_unit[of q v n "fst (publish v n q)" "snd (publish v n q)"] by auto
next
  case Discard
  then show "queue_inv None q \<Longrightarrow> ?thesis"
    using discard_all_inv[of None q "subs q"] by (auto simp: discard_def same_frame_def)
next
  case End
  then show ?thesis using detach_empty_frame[of "subs q" "q\<lparr>draining := True\<rparr>"] by (auto simp: end_queue_def)
next
  case Resume
  then show "queue_inv None q \<Longrightarrow> ?thesis" using detach_all_inv[of None q "subs q"]
    by (auto simp: resume_def add_def Let_def split: if_splits)
next
  case (Finish e)
  have *: "next_unit (detach_all is q) = next_unit q" for "is" and q :: "'a queue"
    by (induction "is" arbitrary: q) (simp_all add: detach_simps)
  show "queue_inv None q \<Longrightarrow> ?thesis" using Finish discard_all_inv[of None q "subs q"]
    discard_all_set_ended[of "subs q" e q]
    by (auto simp: finish_def Let_def * discard_def set_ended_def same_frame_def)
next
  case Subscribe
  then show ?thesis by (auto simp: iterator_def add_def Let_def split: if_splits)
next
  case (Next i)
  then show ?thesis using next_item_pop[of q i] pop_frame[of q i]
    by (cases "entries (slots q i)")
      (auto simp: next_item_def remove_entry_Nil detach_simps same_frame_def remove_entry_Cons)
qed (simp_all add: detach_simps return_item_def throw_item_def)


subsection \<open>The contract the owner of a queue relies on\<close>

text \<open>
  The owner of a queue gives each published unit a \<open>release\<close> callback that returns a credit
  (\<open>NativeSession.credit\<close>). What it relies on: a unit is released at most once, only after it
  was handed over, and every unit handed over is released once the queue is finished.
\<close>

locale release_ledger =
  fixes inv :: "'q \<Rightarrow> bool"
    and step :: "'op \<Rightarrow> 'q \<Rightarrow> 'q"
    and released :: "'q \<Rightarrow> nat list"
    and allocated :: "'q \<Rightarrow> nat"
    and closing :: "'op \<Rightarrow> bool"
  assumes step_inv: "inv q \<Longrightarrow> inv (step op q)"
    and released_once: "inv q \<Longrightarrow> distinct (released q)"
    and released_allocated: "inv q \<Longrightarrow> set (released q) \<subseteq> {..<allocated q}"
    and released_grows: "prefix (released q) (released (step op q))"
    and allocated_grows: "allocated q \<le> allocated (step op q)"
    and closing_releases: "inv q \<Longrightarrow> closing op \<Longrightarrow> set (released (step op q)) = {..<allocated (step op q)}"
begin

definition outstanding :: "(nat \<Rightarrow> int) \<Rightarrow> 'q \<Rightarrow> int" where
  "outstanding w q = (\<Sum>u<allocated q. w u) - (\<Sum>u\<leftarrow>released q. w u)"

lemma released_sum: "inv q \<Longrightarrow> (\<Sum>u\<leftarrow>released q. w u) = (\<Sum>u\<in>set (released q). w u)"
  for w :: "nat \<Rightarrow> int"
  by (simp add: released_once sum_list_distinct_conv_sum_set)

lemma outstanding_nonneg:
  assumes "inv q" "\<And>u. 0 \<le> w u" shows "0 \<le> outstanding w q"
proof -
  have "(\<Sum>u\<in>set (released q). w u) \<le> (\<Sum>u<allocated q. w u)"
    by (rule sum_mono2) (use released_allocated[OF assms(1)] assms(2) in auto)
  then show ?thesis by (simp add: outstanding_def released_sum[OF assms(1)])
qed

text \<open>
  The credits one step gives back never exceed what is outstanding before it plus what the
  step itself hands over.
\<close>

lemma credits_bounded:
  assumes "inv q" "\<And>u. 0 \<le> w u"
  shows "(\<Sum>u\<leftarrow>released (step op q). w u) - (\<Sum>u\<leftarrow>released q. w u)
    \<le> outstanding w q + (\<Sum>u\<in>{allocated q..<allocated (step op q)}. w u)"
proof -
  have "0 \<le> outstanding w (step op q)" by (rule outstanding_nonneg[OF step_inv[OF assms(1)] assms(2)])
  moreover have "(\<Sum>u<allocated (step op q). w u)
      = (\<Sum>u<allocated q. w u) + (\<Sum>u\<in>{allocated q..<allocated (step op q)}. w u)"
    using allocated_grows[of q op] by (simp add: lessThan_atLeast0 sum.atLeastLessThan_concat)
  ultimately show ?thesis by (simp add: outstanding_def)
qed

lemma closed_outstanding:
  "inv q \<Longrightarrow> closing op \<Longrightarrow> outstanding w (step op q) = 0"
  by (simp add: outstanding_def released_sum[OF step_inv] closing_releases)

lemma run_inv: "inv q \<Longrightarrow> inv (fold step ops q)"
  by (induction ops arbitrary: q) (auto intro: step_inv)

lemma run_released_once: "inv q \<Longrightarrow> distinct (released (fold step ops q))"
  by (rule released_once[OF run_inv])

end

fun is_finish :: "'v queue_op \<Rightarrow> bool" where
  "is_finish (Finish _) = True"
| "is_finish _ = False"

lemma released_units_mem:
  "queue_inv None q \<Longrightarrow> u \<in> set (released_units q) \<longleftrightarrow> u < next_unit q \<and> refs q u = 0"
  using count_list_0_iff[of "released_units q" u]
  by (auto simp: count_released_units queue_inv_def refs_ok_def split: if_splits)

lemma released_units_distinct: "queue_inv None q \<Longrightarrow> distinct (released_units q)"
  by (rule count_le_1_distinct) (simp add: count_released_units queue_inv_def refs_ok_def)

lemma closed_refs: "queue_inv None q \<Longrightarrow> subs q = [] \<Longrightarrow> refs q u = 0"
  by (simp add: queue_inv_def refs_ok_def held_def subs_ok_def slot_units_def)

lemma released_units_prefix: "prefix (effects q) (effects q') \<Longrightarrow> prefix (released_units q) (released_units q')"
  by (auto simp: released_units_def prefix_def)

interpretation ledger: release_ledger
  "queue_inv None" queue_step released_units next_unit is_finish
proof unfold_locales
  fix q :: "'v queue" and op :: "'v queue_op"
  assume inv: "queue_inv None q" and "is_finish op"
  then obtain e where "op = Finish e" by (cases op) auto
  then have "queue_inv None (queue_step op q)" "subs (queue_step op q) = []"
    using finish_inv[OF inv, of e] by auto
  then show "set (released_units (queue_step op q)) = {..<next_unit (queue_step op q)}"
    using released_units_mem closed_refs by blast
next
  fix q :: "'v queue" and op :: "'v queue_op"
  show "prefix (released_units q) (released_units (queue_step op q))"
    using extends_step[of q op] by (simp add: extends_def released_units_prefix)
  show "next_unit q \<le> next_unit (queue_step op q)" using extends_step[of q op] by (simp add: extends_def)
qed (auto simp: released_units_mem intro: queue_step_inv released_units_distinct)


subsection \<open>Order and loss\<close>

definition slot_values :: "'v queue \<Rightarrow> nat \<Rightarrow> 'v list" where
  "slot_values q i = map entry_value (entries (slots q i))"

text \<open>
  What one operation hands to the reader of slot \<open>i\<close>: the value that a read of his returns at once, and the values
  with which the read that he has pending is settled, as the log of effects has them.
\<close>

fun settled_value :: "'v effect \<Rightarrow> (nat \<times> 'v) list" where
  "settled_value (Settle r (Yielded v)) = [(r, v)]"
| "settled_value _ = []"

definition yields :: "'v queue \<Rightarrow> (nat \<times> 'v) list" where
  "yields q = concat (map settled_value (effects q))"

definition new_yields :: "nat \<Rightarrow> 'v queue \<Rightarrow> 'v queue \<Rightarrow> 'v list" where
  "new_yields r q q' = map snd (filter (\<lambda>p. fst p = r) (drop (length (yields q)) (yields q')))"

fun answered :: "nat \<Rightarrow> 'v queue_op \<Rightarrow> 'v queue \<Rightarrow> 'v list" where
  "answered i (Next j) q =
     (if i = j then (case fst (next_item j q) of Settled (Yielded v) \<Rightarrow> [v] | _ \<Rightarrow> []) else [])"
| "answered i _ q = []"

definition delivered :: "nat \<Rightarrow> 'v queue_op \<Rightarrow> 'v queue \<Rightarrow> 'v list" where
  "delivered i op q = answered i op q
     @ (case pending (slots q i) of None \<Rightarrow> [] | Some r \<Rightarrow> new_yields r q (queue_step op q))"

fun published :: "'v queue_op \<Rightarrow> 'v list" where
  "published (Publish v n) = (case positive_integer n (128 * 1024 * 1024) of Inl _ \<Rightarrow> [] | Inr _ \<Rightarrow> [v])"
| "published _ = []"

fun run_delivered :: "nat \<Rightarrow> 'v queue_op list \<Rightarrow> 'v queue \<Rightarrow> 'v list" where
  "run_delivered i [] q = []"
| "run_delivered i (op # ops) q = delivered i op q @ run_delivered i ops (queue_step op q)"

lemma make_room_other: "j \<noteq> i \<Longrightarrow> slots (snd (make_room i b d q)) j = slots q j"
proof (induction i b d q rule: make_room.induct)
  case (1 i b d q)
  then show ?case
    by (subst make_room.simps) (auto split: option.split prod.split simp: remove_entry_def split: list.splits)
qed

lemma publish_slot_other: "j \<noteq> i \<Longrightarrow> slots (snd (publish_slot u v b i q)) j = slots q j"
  using make_room_other[of j i b 0 q]
  by (auto simp: publish_slot_def push_entry_simps split: option.split prod.split sum.split)

lemma publish_all_other: "j \<notin> set is \<Longrightarrow> slots (snd (publish_all u v b is q)) j = slots q j"
proof (induction "is" arbitrary: q)
  case Nil
  then show ?case by simp
next
  case (Cons i "is")
  have "slots (snd (publish_slot u v b i q)) j = slots q j" using Cons.prems publish_slot_other by fastforce
  moreover have "slots (snd (publish_all u v b is q1)) j = slots q1 j" for q1 using Cons by simp
  ultimately show ?case by (auto split: prod.split sum.split)
qed

subsection \<open>Pending reads\<close>

definition reads_ok :: "'v queue \<Rightarrow> bool" where
  "reads_ok q \<longleftrightarrow> (\<forall>i r. pending (slots q i) = Some r \<longrightarrow> r < next_read q)
     \<and> (\<forall>i j r. pending (slots q i) = Some r \<longrightarrow> pending (slots q j) = Some r \<longrightarrow> i = j)"

definition reads_kept :: "'v queue \<Rightarrow> 'v queue \<Rightarrow> bool" where
  "reads_kept q q' \<longleftrightarrow> next_read q' = next_read q \<and> yields q' = yields q
     \<and> (\<forall>i. pending (slots q' i) = None \<or> pending (slots q' i) = pending (slots q i))"

lemma reads_kept_ok: "reads_kept q q' \<Longrightarrow> reads_ok q \<Longrightarrow> reads_ok q'"
  unfolding reads_kept_def reads_ok_def by (metis option.distinct(1))

lemma reads_kept_refl [simp]: "reads_kept q q" by (simp add: reads_kept_def)

lemma reads_kept_trans: "reads_kept a b \<Longrightarrow> reads_kept b c \<Longrightarrow> reads_kept a c"
  unfolding reads_kept_def by metis

lemma reads_kept_update [simp]:
  "reads_kept q (relinquish u q)" "reads_kept q (push_entry i u v b q)" "reads_kept q (q\<lparr>draining := d\<rparr>)"
  "reads_kept q (q\<lparr>initial := k\<rparr>)" "reads_kept q (q\<lparr>queue_ended := b', failure := f'\<rparr>)"
  "reads_kept q (q\<lparr>subs := ss\<rparr>)" "reads_kept q (emit (Gap n) q)"
  "reads_kept q (update_slot i (\<lambda>s. s\<lparr>claimed := True\<rparr>) q)"
  "reads_kept q (q\<lparr>next_unit := m, refs := rs\<rparr>)"
  by (auto simp: reads_kept_def yields_def push_entry_simps)

lemma reads_kept_pop [simp]: "reads_kept q (pop i q)"
  by (cases "entries (slots q i)") (auto simp: pop_def remove_entry_def reads_kept_def yields_def)

lemma reads_kept_drain [simp]: "reads_kept q (snd (drain i q))"
  by (rule drain_rule[where P = "reads_kept q"]) (auto intro: reads_kept_trans)

lemma reads_kept_discard_all [simp]: "reads_kept q (snd (discard_all is q))"
  by (induction "is" arbitrary: q) (auto simp: split_beta Let_def intro: reads_kept_trans[OF reads_kept_drain])

lemma reads_kept_detach [simp]: "reads_kept q (detach i q)"
proof -
  have "reads_kept q (snd (drain i q))" by simp
  then show ?thesis
    by (auto simp: detach_eq Let_def reads_kept_def yields_def settle_pending_def closing_outcome_def split: option.split)
qed

lemma reads_kept_detach_all [simp]: "reads_kept q (detach_all is q)"
  by (induction "is" arbitrary: q) (auto intro: reads_kept_trans[OF reads_kept_detach])

lemma reads_kept_detach_empty [simp]: "reads_kept q (detach_empty is q)"
  by (induction "is" arbitrary: q) (auto intro: reads_kept_trans[OF reads_kept_detach])

lemma reads_kept_add [simp]: "reads_kept q (snd (add q))"
  by (simp add: add_def Let_def reads_kept_def yields_def fresh_subscriber_def)

lemma reads_kept_make_room [simp]: "reads_kept q (snd (make_room i b d q))"
proof (induction i b d q rule: make_room.induct)
  case (1 i b d q)
  show ?case
  proof (cases "int (length (entries (slots q i))) \<ge> max_units q \<or> slot_bytes (slots q i) + b > max_bytes q")
    case False
    then show ?thesis by (subst make_room.simps) auto
  next
    case True
    show ?thesis
    proof (cases "mode q = Live \<and> entries (slots q i) \<noteq> []")
      case False
      then show ?thesis by (subst make_room.simps) (auto simp: remove_entry_Nil split: media_mode.split intro: media_mode.exhaust)
    next
      case live: True
      then obtain e es where es: "entries (slots q i) = e # es" by (cases "entries (slots q i)") auto
      have "reads_kept (pop i q) (snd (make_room i b (Suc d) (pop i q)))"
        using 1[OF True] live es by (simp add: remove_entry_Cons pop_def)
      then show ?thesis using make_room_Cons[OF conjunct1[OF live] es True] reads_kept_trans[OF reads_kept_pop] by simp
    qed
  qed
qed

lemma publish_slot_reads:
  "pending (slots q i) = None \<Longrightarrow> reads_kept q (snd (publish_slot u v b i q))"
  "pending (slots q i) = Some r \<Longrightarrow>
     snd (publish_slot u v b i q) = emit (Settle r (Yielded v)) (update_slot i (\<lambda>s. s\<lparr>pending := None\<rparr>) q)"
proof -
  obtain x q1 where m: "make_room i b 0 q = (x, q1)" by force
  then have "reads_kept q q1" using reads_kept_make_room[of q i b 0] by simp
  note kept = this reads_kept_trans[OF this reads_kept_update(2)]
    reads_kept_trans[OF reads_kept_trans[OF this reads_kept_update(7)] reads_kept_update(2)]
  then show "pending (slots q i) = None \<Longrightarrow> reads_kept q (snd (publish_slot u v b i q))"
    using kept by (cases x) (simp_all add: publish_slot_def m)
qed (simp add: publish_slot_def)

definition pending_yield :: "'v \<Rightarrow> 'v queue \<Rightarrow> nat \<Rightarrow> (nat \<times> 'v) list" where
  "pending_yield v q i = (case pending (slots q i) of None \<Rightarrow> [] | Some r \<Rightarrow> [(r, v)])"

lemma publish_slot_pending:
  "yields (snd (publish_slot u v b i q)) = yields q @ pending_yield v q i"
  "next_read (snd (publish_slot u v b i q)) = next_read q"
  "pending (slots (snd (publish_slot u v b i q)) i) = None"
  using publish_slot_reads(1)[of q i u v b] publish_slot_reads(2)[of q i _ u v b]
  by (cases "pending (slots q i)"; auto simp: pending_yield_def reads_kept_def yields_def)+

lemma publish_all_pending:
  "distinct is \<Longrightarrow> \<exists>k. yields (snd (publish_all u v b is q)) = yields q @ concat (map (pending_yield v q) (take k is))
     \<and> next_read (snd (publish_all u v b is q)) = next_read q
     \<and> (\<forall>j. pending (slots (snd (publish_all u v b is q)) j) = (if j \<in> set (take k is) then None else pending (slots q j)))"
proof (induction "is" arbitrary: q)
  case Nil
  then show ?case by simp
next
  case (Cons i "is")
  let ?q1 = "snd (publish_slot u v b i q)"
  have o: "j \<noteq> i \<Longrightarrow> slots ?q1 j = slots q j" for j by (rule publish_slot_other)
  have m: "map (pending_yield v ?q1) (take k is) = map (pending_yield v q) (take k is)" for k
  proof (rule map_cong)
    fix x assume "x \<in> set (take k is)"
    then have "x \<noteq> i" using Cons.prems by (auto dest: in_set_takeD)
    then show "pending_yield v ?q1 x = pending_yield v q x" by (simp add: pending_yield_def o)
  qed simp
  have p1: "pending (slots ?q1 j) = (if j = i then None else pending (slots q j))" for j
    using o[of j] publish_slot_pending(3)[of u v b i q] by simp
  show ?case
  proof (cases "fst (publish_slot u v b i q)")
    case (Inl e)
    then have "snd (publish_all u v b (i # is) q) = ?q1" by (cases "publish_slot u v b i q") simp
    then show ?thesis using publish_slot_pending[of u v b i q] p1 by (intro exI[of _ "Suc 0"]) simp
  next
    case (Inr x)
    then have s: "snd (publish_all u v b (i # is) q) = snd (publish_all u v b is ?q1)" by (cases "publish_slot u v b i q") simp
    obtain k where k: "yields (snd (publish_all u v b is ?q1)) = yields ?q1 @ concat (map (pending_yield v ?q1) (take k is))"
      "next_read (snd (publish_all u v b is ?q1)) = next_read ?q1"
      "\<forall>j. pending (slots (snd (publish_all u v b is ?q1)) j) = (if j \<in> set (take k is) then None else pending (slots ?q1 j))"
      using Cons.IH[of ?q1] Cons.prems by auto
    show ?thesis unfolding s using k m p1 publish_slot_pending[of u v b i q] by (intro exI[of _ "Suc k"]) simp
  qed
qed

lemma one_pending_yield:
  assumes "pending (slots q i) = Some r" "\<And>j. pending (slots q j) = Some r \<Longrightarrow> j = i"
  shows "distinct is \<Longrightarrow> map snd (filter (\<lambda>p. fst p = r) (concat (map (pending_yield v q) is))) = (if i \<in> set is then [v] else [])"
proof (induction "is")
  case (Cons j "is")
  have "pending_yield v q j = (if j = i then [(r, v)] else pending_yield v q j)" using assms(1) by (simp add: pending_yield_def)
  moreover have "filter (\<lambda>p. fst p = r) (pending_yield v q j) = []" if "j \<noteq> i"
    using assms(2)[of j] that by (cases "pending (slots q j)") (auto simp: pending_yield_def)
  ultimately show ?case using Cons by (cases "j = i") simp_all
qed simp

lemma publish_reads:
  assumes "reads_ok q" "queue_inv None q" "pending (slots q i) = Some r"
  shows "new_yields r q (snd (publish v n q)) = (if pending (slots (snd (publish v n q)) i) = None then [v] else [])"
proof (cases "positive_integer n (128 * 1024 * 1024)")
  case (Inl e)
  then show ?thesis using assms(3) by (simp add: publish_def new_yields_def)
next
  case (Inr b)
  let ?u = "next_unit q"
  let ?q0 = "q\<lparr>next_unit := Suc ?u, refs := (refs q)(?u := 1)\<rparr>"
  have y0: "yields ?q0 = yields q" "yields (relinquish u q') = yields q'" for u and q' :: "'a queue"
    by (auto simp: yields_def)
  show ?thesis
  proof (cases "queue_ended q \<or> draining q")
    case True
    then show ?thesis using Inr assms(3) y0 by (simp add: publish_def Let_def new_yields_def)
  next
    case False
    let ?q1 = "snd (publish_all ?u v b (subs q) ?q0)"
    have d: "distinct (subs q)" using assms(2) by (simp add: queue_inv_def subs_ok_def)
    obtain k where k: "yields ?q1 = yields q @ concat (map (pending_yield v ?q0) (take k (subs q)))"
      "\<forall>j. pending (slots ?q1 j) = (if j \<in> set (take k (subs q)) then None else pending (slots ?q0 j))"
      using publish_all_pending[OF d, of ?u v b ?q0] y0 by auto
    have "map snd (filter (\<lambda>p. fst p = r) (concat (map (pending_yield v ?q0) (take k (subs q)))))
        = (if i \<in> set (take k (subs q)) then [v] else [])"
      by (rule one_pending_yield) (use assms d in \<open>auto simp: reads_ok_def\<close>)
    moreover have "snd (publish v n q) = relinquish ?u ?q1" using Inr False by (simp add: publish_def Let_def split_beta)
    ultimately show ?thesis using k assms(3) y0 by (simp add: new_yields_def)
  qed
qed

lemma publish_reads_ok: "reads_ok q \<Longrightarrow> queue_inv None q \<Longrightarrow> reads_ok (snd (publish v n q))"
proof -
  assume a: "reads_ok q" "queue_inv None q"
  have "next_read (snd (publish v n q)) = next_read q
    \<and> (\<forall>j. pending (slots (snd (publish v n q)) j) = None \<or> pending (slots (snd (publish v n q)) j) = pending (slots q j))"
  proof (cases "positive_integer n (128 * 1024 * 1024)")
    case (Inr b)
    let ?q0 = "q\<lparr>next_unit := Suc (next_unit q), refs := (refs q)(next_unit q := 1)\<rparr>"
    have d: "distinct (subs q)" using a(2) by (simp add: queue_inv_def subs_ok_def)
    from publish_all_pending[OF d, of "next_unit q" v b ?q0] Inr show ?thesis
      by (auto simp: publish_def Let_def split_beta)
  qed (simp add: publish_def)
  with a(1) show ?thesis unfolding reads_ok_def by (metis option.distinct(1))
qed

lemma next_item_reads:
  "reads_ok q \<Longrightarrow> reads_ok (snd (next_item i q)) \<and> yields (snd (next_item i q)) = yields q"
proof -
  assume ok: "reads_ok q"
  show ?thesis
  proof (cases "slot_ended (slots q i) \<or> queue_ended q")
    case True
    then show ?thesis using ok by (simp add: next_item_def)
  next
    case running: False
    show ?thesis
    proof (cases "entries (slots q i)")
      case (Cons e es)
      then have "snd (next_item i q) = pop i q" using running by (simp add: next_item_def remove_entry_Cons pop_def)
      then show ?thesis using ok reads_kept_pop[of q i] reads_kept_ok by (auto simp: reads_kept_def)
    next
      case Nil
      show ?thesis
      proof (cases "draining q")
        case True
        then show ?thesis using ok running Nil reads_kept_detach[of q i] reads_kept_ok
          by (auto simp: next_item_def remove_entry_Nil reads_kept_def)
      next
        case False
        have "reads_ok ((update_slot i (\<lambda>s. s\<lparr>pending := Some (next_read q)\<rparr>) q)\<lparr>next_read := Suc (next_read q)\<rparr>)"
          using ok unfolding reads_ok_def by (auto simp: less_Suc_eq)
        then show ?thesis using ok running Nil False by (auto simp: next_item_def remove_entry_Nil yields_def)
      qed
    qed
  qed
qed

lemma reads_kept_step:
  assumes "\<forall>v n. op \<noteq> Publish v n" "\<forall>j. op \<noteq> Next j"
  shows "reads_kept q (queue_step op q)"
proof (cases op)
  case Resume
  have "reads_kept q ((detach_all (subs q) q)\<lparr>draining := False\<rparr>)"
    by (rule reads_kept_trans[OF reads_kept_detach_all reads_kept_update(3)])
  from reads_kept_trans[OF this reads_kept_add] show ?thesis using Resume
    by (auto simp: resume_def split: prod.split sum.split intro: reads_kept_trans dest: arg_cong[where f = snd])
next
  case (Finish e)
  let ?q = "q\<lparr>queue_ended := True, failure := e\<rparr>"
  have "reads_kept q (snd (discard ?q))" unfolding discard_def
    by (rule reads_kept_trans[OF reads_kept_update(5) reads_kept_discard_all])
  from reads_kept_trans[OF reads_kept_trans[OF this reads_kept_detach_all] reads_kept_update(6)] show ?thesis using Finish
    by (simp add: finish_def Let_def)
next
  case End
  then show ?thesis
    using reads_kept_trans[OF reads_kept_update(3) reads_kept_detach_empty, of q "subs q" True] by (simp add: end_queue_def)
next
  case Subscribe
  obtain x q1 where a: "add q = (x, q1)" by force
  then have "reads_kept q q1" using reads_kept_add[of q] by simp
  then show ?thesis using Subscribe reads_kept_trans[OF _ reads_kept_update(8)]
    by (cases x) (auto simp: iterator_def a)
qed (use assms in \<open>simp_all add: discard_def return_item_def throw_item_def\<close>)

lemma queue_step_reads: "queue_inv None q \<Longrightarrow> reads_ok q \<Longrightarrow> reads_ok (queue_step op q)"
  using reads_kept_ok[OF reads_kept_step[of op q]] publish_reads_ok[of q] next_item_reads[of q]
  by (cases op) auto

lemma new_queue_reads: "new_queue opts = Inr q \<Longrightarrow> reads_ok q"
  by (auto simp: new_queue_def bind_result_def add_def Let_def fresh_subscriber_def reads_ok_def split: sum.splits if_splits)

lemma reachable_reads: "queue_reachable opts q \<Longrightarrow> reads_ok q"
  by (induction rule: queue_reachable.induct) (auto intro: new_queue_reads queue_step_reads reachable_inv)

lemma same_yields: "yields q' = yields q \<Longrightarrow> new_yields r q q' = []"
  by (simp add: new_yields_def)

text \<open>The same, read off the states before and after; the two agree (\<open>delivered_eq\<close>).\<close>

fun taken :: "nat \<Rightarrow> 'v queue_op \<Rightarrow> 'v queue \<Rightarrow> 'v list" where
  "taken i (Next j) q =
     (if i = j then (case fst (next_item j q) of Settled (Yielded v) \<Rightarrow> [v] | _ \<Rightarrow> []) else [])"
| "taken i (Publish v n) q =
     (if pending (slots q i) \<noteq> None \<and> pending (slots (snd (publish v n q)) i) = None then [v] else [])"
| "taken i _ q = []"

lemma delivered_eq:
  assumes "queue_inv None q" "reads_ok q"
  shows "delivered i op q = taken i op q"
proof (cases "(\<exists>v n. op = Publish v n) \<or> (\<exists>j. op = Next j)")
  case True
  then show ?thesis
    using publish_reads[OF assms(2,1)] next_item_reads[OF assms(2)]
    by (auto simp: delivered_def same_yields split: option.split)
next
  case False
  then have "yields (queue_step op q) = yields q" using reads_kept_step[of op q] by (auto simp: reads_kept_def)
  then show ?thesis using False by (cases op) (auto simp: delivered_def same_yields split: option.split)
qed

subsection \<open>What a publication does to a slot\<close>

definition slot_effect :: "'v \<Rightarrow> nat \<Rightarrow> 'v queue \<Rightarrow> 'v queue \<Rightarrow> bool" where
  "slot_effect v i q q' \<longleftrightarrow>
     pending (slots q i) \<noteq> None \<and> pending (slots q' i) = None \<and> slot_values q i = [] \<and> slot_values q' i = []
   \<or> pending (slots q' i) = pending (slots q i)
     \<and> (\<exists>n. slot_values q' i = drop n (slot_values q i) \<or> slot_values q' i = drop n (slot_values q i) @ [v])"

lemma slot_effect_refl: "slots q' i = slots q i \<Longrightarrow> slot_effect v i q q'"
  by (auto simp: slot_effect_def slot_values_def intro: exI[of _ "0::nat"])

lemma slot_effect_cong:
  "slots a i = slots a' i \<Longrightarrow> slots b i = slots b' i \<Longrightarrow> slot_effect v i a b = slot_effect v i a' b'"
  by (simp add: slot_effect_def slot_values_def)

lemma publish_slot_effect:
  assumes inv: "queue_inv g q" shows "slot_effect v i q (snd (publish_slot u v b i q))"
proof (cases "pending (slots q i)")
  case (Some r)
  with queue_inv_slot[OF inv, of i] show ?thesis
    by (simp add: publish_slot_def slot_effect_def slot_values_def slot_wf_def)
next
  case None
  show ?thesis
  proof (cases "b > max_bytes q")
    case True
    then show ?thesis using None by (simp add: publish_slot_def slot_effect_refl)
  next
    case fits: False
    show ?thesis
    proof (cases "mode q")
      case Recorded
      with None fits show ?thesis
        by (auto simp: publish_slot_def make_room_recorded slot_effect_def slot_values_def push_entry_simps
            intro: exI[of _ "0::nat"])
    next
      case Live
      from make_room_live[OF inv Live, of b i 0] fits obtain n q1 where
        q1: "make_room i b 0 q = (Inr n, q1)" "entries (slots q1 i) = drop n (entries (slots q i))"
        "same_frame q q1" by auto
      let ?q = "snd (publish_slot u v b i q)"
      have "slot_values ?q i = drop n (slot_values q i) @ [v]" "pending (slots ?q i) = pending (slots q i)"
        using None fits q1 by (simp_all add: publish_slot_def slot_values_def push_entry_simps
            same_frame_def drop_map)
      then show ?thesis by (auto simp: slot_effect_def)
    qed
  qed
qed

lemma publish_all_effect:
  "queue_inv (Some u) q \<Longrightarrow> distinct is \<Longrightarrow> set is \<subseteq> set (subs q) \<Longrightarrow> 0 < b \<Longrightarrow>
   slot_effect v i q (snd (publish_all u v b is q))"
proof (induction "is" arbitrary: q)
  case Nil
  then show ?case by (simp add: slot_effect_refl)
next
  case (Cons j "is")
  obtain r q1 where p: "publish_slot u v b j q = (r, q1)" by (cases "publish_slot u v b j q")
  have inv1: "queue_inv (Some u) q1" and F: "same_frame q (q1\<lparr>peak := peak q, slots := slots q\<rparr>)"
    using publish_slot_inv[OF Cons.prems(1) _ Cons.prems(4) p] Cons.prems(3) by auto
  show ?case
  proof (cases "j = i")
    case True
    have "slot_effect v i q q1" using publish_slot_effect[OF Cons.prems(1), of v i u b] p True by simp
    moreover have "slots (snd (publish_all u v b is q1)) i = slots q1 i"
      using Cons.prems(2) True by (simp add: publish_all_other)
    ultimately show ?thesis
      using slot_effect_cong[of q i q q1 "snd (publish_all u v b is q1)" v] by (cases r) (simp_all add: p)
  next
    case False
    then have s: "slots q1 i = slots q i" using publish_slot_other[of i j u v b q] p by simp
    have "slot_effect v i q1 (snd (publish_all u v b is q1))"
      using Cons.IH[OF inv1] Cons.prems F by (simp add: same_frame_def)
    then show ?thesis using s slot_effect_cong[OF s refl, of v] slot_effect_refl[OF s, of v]
      by (cases r) (simp_all add: p)
  qed
qed

lemma publish_effect:
  assumes inv: "queue_inv None q"
  shows "case positive_integer n (128 * 1024 * 1024) of
      Inl e \<Rightarrow> snd (publish v n q) = q | Inr b \<Rightarrow> slot_effect v i q (snd (publish v n q))"
proof (cases "positive_integer n (128 * 1024 * 1024)")
  case (Inl e)
  then show ?thesis by (simp add: publish_def)
next
  case (Inr b)
  let ?u = "next_unit q"
  let ?q0 = "q\<lparr>next_unit := Suc ?u, refs := (refs q)(?u := 1)\<rparr>"
  have b: "0 < b" using Inr by (simp add: positive_integer_Inr)
  have "slot_effect v i ?q0 (snd (publish_all ?u v b (subs q) ?q0))"
    using inv publish_all_effect[OF begin_publish_inv[OF inv refl] _ _ b]
    by (simp add: queue_inv_def subs_ok_def)
  with Inr show ?thesis
    by (auto simp: publish_def Let_def split_beta slot_effect_def slot_values_def intro: exI[of _ "0::nat"])
qed

definition kept_or_cleared :: "nat \<Rightarrow> 'v queue \<Rightarrow> 'v queue \<Rightarrow> bool" where
  "kept_or_cleared i q q' \<longleftrightarrow> entries (slots q' i) = entries (slots q i) \<or> entries (slots q' i) = []"

lemma kept_trans: "kept_or_cleared i a b \<Longrightarrow> kept_or_cleared i b c \<Longrightarrow> kept_or_cleared i a c"
  by (auto simp: kept_or_cleared_def)

lemma kept_drain: "kept_or_cleared i q (snd (drain j q))"
  by (cases "i = j") (simp_all add: kept_or_cleared_def drain_entries drain_other)

lemma kept_detach: "kept_or_cleared i q (detach j q)"
  by (cases "i = j") (simp_all add: kept_or_cleared_def detach_simps detach_other)

lemma kept_discard_all: "kept_or_cleared i q (snd (discard_all is q))"
proof (induction "is" arbitrary: q)
  case Nil
  show ?case by (simp add: kept_or_cleared_def)
next
  case (Cons j "is")
  show ?case using kept_trans[OF kept_drain[of i q j] Cons.IH] by (simp add: split_beta Let_def)
qed

lemma kept_detach_all: "kept_or_cleared i q (detach_all is q)"
proof (induction "is" arbitrary: q)
  case Nil
  show ?case by (simp add: kept_or_cleared_def)
next
  case (Cons j "is")
  show ?case using kept_trans[OF kept_detach[of i q j] Cons.IH] by simp
qed

lemma kept_detach_empty: "kept_or_cleared i q (detach_empty is q)"
proof (induction "is" arbitrary: q)
  case Nil
  show ?case by (simp add: kept_or_cleared_def)
next
  case (Cons j "is")
  show ?case using kept_trans[OF kept_detach[of i q j] Cons.IH] Cons.IH[of q] by simp
qed

lemma kept_add: "kept_or_cleared i q (snd (add q))"
  by (simp add: add_def Let_def kept_or_cleared_def fresh_subscriber_def)

lemma kept_step:
  assumes "\<forall>v n. op \<noteq> Publish v n" "\<forall>j. op \<noteq> Next j"
  shows "kept_or_cleared i q (queue_step op q)"
proof (cases op)
  case Discard
  then show ?thesis using kept_discard_all by (simp add: discard_def)
next
  case End
  then show ?thesis using kept_detach_empty[of i "q\<lparr>draining := True\<rparr>" "subs q"]
    by (simp add: end_queue_def kept_or_cleared_def)
next
  case Resume
  let ?d = "(detach_all (subs q) q)\<lparr>draining := False\<rparr>"
  have "kept_or_cleared i q ?d" using kept_detach_all[of i q "subs q"] by (simp add: kept_or_cleared_def)
  from kept_trans[OF this kept_add] show ?thesis using Resume
    by (auto simp: resume_def kept_or_cleared_def split: prod.split sum.split)
next
  case (Finish e)
  let ?q = "q\<lparr>queue_ended := True, failure := e\<rparr>"
  have "kept_or_cleared i q (snd (discard ?q))"
    using kept_discard_all[of i ?q "subs q"] by (simp add: kept_or_cleared_def discard_def)
  from kept_trans[OF this kept_detach_all] show ?thesis using Finish
    by (auto simp: finish_def Let_def kept_or_cleared_def)
next
  case Subscribe
  then show ?thesis using kept_add[of i q]
    by (auto simp: iterator_def kept_or_cleared_def split: prod.split sum.split)
qed (use assms kept_detach in \<open>auto simp: return_item_def throw_item_def\<close>)

lemma deliver_step:
  assumes inv: "queue_inv None q"
  shows "subseq (taken i op q @ slot_values (queue_step op q) i) (slot_values q i @ published op)"
proof (cases "\<exists>v n. op = Publish v n")
  case True
  then obtain v n where op: "op = Publish v n" by auto
  have sub: "subseq (drop k xs) (xs @ [v])" "subseq (drop k xs @ [v]) (xs @ [v])" for k and xs :: "'a list"
    by (auto intro: subseq_rev_drop_many suffix_imp_subseq suffix_drop)
  show ?thesis
  proof (cases "positive_integer n (128 * 1024 * 1024)")
    case (Inl e)
    then show ?thesis using publish_effect[OF inv, where n = n and v = v and i = i] op
      by (cases "pending (slots q i)") simp_all
  next
    case (Inr b)
    then show ?thesis using publish_effect[OF inv, where n = n and v = v and i = i] op sub
      by (auto simp: slot_effect_def)
  qed
next
  case nopub: False
  show ?thesis
  proof (cases "op = Next i")
    case True
    show ?thesis
    proof (cases "slot_ended (slots q i) \<or> queue_ended q")
      case True
      with \<open>op = Next i\<close> show ?thesis
        by (auto simp: next_item_def split: option.split)
    next
      case False
      then show ?thesis using \<open>op = Next i\<close> next_item_pop[of q i] kept_detach[of i q i]
        by (cases "entries (slots q i)")
          (auto simp: slot_values_def entries_pop next_item_def remove_entry_Nil kept_or_cleared_def)
    qed
  next
    case False
    have "taken i op q = []" using False nopub by (cases op) auto
    moreover have "kept_or_cleared i q (queue_step op q)"
    proof (cases "\<exists>j. op = Next j")
      case True
      then obtain j where j: "op = Next j" "j \<noteq> i" using False by auto
      show ?thesis
        by (cases "entries (slots q j)")
          (use j kept_detach[of i q j] pop_other[of i j q] in
            \<open>auto simp: next_item_def remove_entry_Nil remove_entry_Cons kept_or_cleared_def\<close>)
    next
      case False
      then show ?thesis using kept_step[of op i q] nopub by auto
    qed
    moreover have "published op = []" using nopub by (cases op) auto
    ultimately show ?thesis by (auto simp: kept_or_cleared_def slot_values_def)
  qed
qed

lemma deliver_run:
  "queue_inv None q \<Longrightarrow> reads_ok q \<Longrightarrow>
   subseq (run_delivered i ops q @ slot_values (fold queue_step ops q) i)
     (slot_values q i @ concat (map published ops))"
proof (induction ops arbitrary: q)
  case Nil
  then show ?case by simp
next
  case (Cons op ops)
  let ?q = "queue_step op q"
  have "subseq (run_delivered i ops ?q @ slot_values (fold queue_step ops ?q) i)
      (slot_values ?q i @ concat (map published ops))"
    by (rule Cons.IH[OF queue_step_inv[OF Cons.prems(1)] queue_step_reads[OF Cons.prems]])
  then have "subseq (delivered i op q @ run_delivered i ops ?q @ slot_values (fold queue_step ops ?q) i)
      (delivered i op q @ slot_values ?q i @ concat (map published ops))"
    by (rule list_emb_append_mono[OF subseq_order.order_refl])
  moreover have "subseq ((delivered i op q @ slot_values ?q i) @ concat (map published ops))
      ((slot_values q i @ published op) @ concat (map published ops))"
    by (rule list_emb_append_mono[OF deliver_step[OF Cons.prems(1), of i op, folded delivered_eq[OF Cons.prems]] subseq_order.order_refl])
  ultimately show ?case by (auto intro: subseq_order.order_trans)
qed


subsection \<open>Recorded media\<close>


lemma publish_slot_recorded_gap:
  "mode q = Recorded \<Longrightarrow> Gap n \<in> set (effects (snd (publish_slot u v b i q))) \<Longrightarrow> Gap n \<in> set (effects q)"
  by (auto simp: publish_slot_def make_room_recorded push_entry_simps split: option.splits if_splits)

lemma publish_slot_mode: "mode (snd (publish_slot u v b i q)) = mode q"
  using extends_publish_slot[of q u v b i] by (simp add: extends_def)

lemma publish_all_recorded_gap:
  "mode q = Recorded \<Longrightarrow> Gap n \<in> set (effects (snd (publish_all u v b is q))) \<Longrightarrow> Gap n \<in> set (effects q)"
proof (induction "is" arbitrary: q)
  case Nil
  then show ?case by simp
next
  case (Cons i "is")
  obtain r q1 where p: "publish_slot u v b i q = (r, q1)" by (cases "publish_slot u v b i q")
  have m: "mode q1 = Recorded" using publish_slot_mode[of u v b i q] p Cons.prems(1) by simp
  have "Gap n \<in> set (effects q1)" using Cons.IH[OF m] Cons.prems(2) p by (cases r) auto
  then show ?case using publish_slot_recorded_gap[OF Cons.prems(1), of n u v b i] p by simp
qed






subsection \<open>Live media\<close>

lemma publish_slot_live:
  assumes "queue_inv (Some u) q" "mode q = Live"
  shows "fst (publish_slot u v b i q) = Inr ()
    \<and> (pending (slots q i) = None \<and> b \<le> max_bytes q \<longrightarrow>
         (\<exists>n. slot_values (snd (publish_slot u v b i q)) i = drop n (slot_values q i) @ [v]
            \<and> (n > 0 \<longrightarrow> Gap n \<in> set (effects (snd (publish_slot u v b i q))))))"
proof (cases "pending (slots q i) \<noteq> None \<or> max_bytes q < b")
  case True
  with assms(2) show ?thesis by (auto simp: publish_slot_def split: option.split)
next
  case False
  then obtain n q1 where q1: "make_room i b 0 q = (Inr n, q1)" "entries (slots q1 i) = drop n (entries (slots q i))"
    using make_room_live[OF assms, of b i 0] by auto
  then have "publish_slot u v b i q = (Inr (), push_entry i u v b (if n > 0 then emit (Gap n) q1 else q1))"
    using False by (simp add: publish_slot_def)
  with q1 show ?thesis by (auto simp: slot_values_def push_entry_simps drop_map intro!: exI[of _ n])
qed

lemma publish_all_live:
  "queue_inv (Some u) q \<Longrightarrow> mode q = Live \<Longrightarrow> 0 < b \<Longrightarrow> set is \<subseteq> set (subs q) \<Longrightarrow> distinct is \<Longrightarrow>
   fst (publish_all u v b is q) = Inr ()
   \<and> (\<forall>i\<in>set is. pending (slots q i) = None \<and> b \<le> max_bytes q \<longrightarrow>
        (\<exists>n. slot_values (snd (publish_all u v b is q)) i = drop n (slot_values q i) @ [v]
           \<and> (n > 0 \<longrightarrow> Gap n \<in> set (effects (snd (publish_all u v b is q))))))"
proof (induction "is" arbitrary: q)
  case Nil
  then show ?case by simp
next
  case (Cons j "is")
  note L = publish_slot_live[OF Cons.prems(1,2), of v b j]
  obtain q1 where p: "publish_slot u v b j q = (Inr (), q1)"
    using L by (cases "publish_slot u v b j q") auto
  have inv1: "queue_inv (Some u) q1" and F: "same_frame q (q1\<lparr>peak := peak q, slots := slots q\<rparr>)"
    using publish_slot_inv[OF Cons.prems(1) _ Cons.prems(3) p] Cons.prems(4) by auto
  have o: "slots q1 i = slots q i" if "i \<noteq> j" for i using publish_slot_other[OF that, of u v b q] p by simp
  have m: "mode q1 = Live" "set is \<subseteq> set (subs q1)" "distinct is" "j \<notin> set is" "max_bytes q1 = max_bytes q"
    using F Cons.prems by (auto simp: same_frame_def)
  note IH = Cons.IH[OF inv1 m(1) Cons.prems(3) m(2,3)]
  have x: "extends q1 (snd (publish_all u v b is q1))" by simp
  have j: "slots (snd (publish_all u v b is q1)) j = slots q1 j" by (rule publish_all_other[OF m(4)])
  have "\<exists>n. slot_values (snd (publish_all u v b is q1)) i = drop n (slot_values q i) @ [v]
           \<and> (n > 0 \<longrightarrow> Gap n \<in> set (effects (snd (publish_all u v b is q1))))"
    if i: "i \<in> set (j # is)" "pending (slots q i) = None" "b \<le> max_bytes q" for i
  proof (cases "i = j")
    case True
    have "set (effects q1) \<subseteq> set (effects (snd (publish_all u v b is q1)))"
      using x by (simp add: extends_def set_mono_prefix)
    then show ?thesis using L p i j True by (auto simp: slot_values_def)
  next
    case False
    then have "i \<in> set is" "pending (slots q1 i) = None" "b \<le> max_bytes q1"
      using i o[OF False] m(5) by auto
    with IH have "\<exists>n. slot_values (snd (publish_all u v b is q1)) i = drop n (slot_values q1 i) @ [v]
           \<and> (n > 0 \<longrightarrow> Gap n \<in> set (effects (snd (publish_all u v b is q1))))" by blast
    then show ?thesis using o[OF False] by (simp add: slot_values_def)
  qed
  then show ?case using IH p by simp
qed


subsection \<open>Properties of the queue\<close>

text \<open>A small queue on which the properties with hypotheses are applied.\<close>

definition sample_options :: "string \<Rightarrow> queue_options" where
  "sample_options m = \<lparr>opt_max_bytes = Whole 10, opt_max_units = Whole 2, opt_max_subscribers = Whole 3,
     opt_mode = m, opt_on_gap_callable = True\<rparr>"

definition sample_queue :: "media_mode \<Rightarrow> nat queue" where
  "sample_queue m = \<lparr>max_bytes = 10, max_units = 2, max_subscribers = 3, mode = m,
     slots = (\<lambda>_. fresh_subscriber True)(0 := fresh_subscriber False), next_slot = 1, subs = [0], initial = 0,
     queue_ended = False, draining = False, failure = None, peak = 0,
     refs = (\<lambda>_. 0), next_unit = 0, next_read = 0, effects = []\<rparr>"

lemma sample_reachable:
  "queue_reachable (sample_options ''live'') (sample_queue Live)"
  "queue_reachable (sample_options ''recorded'') (sample_queue Recorded)"
  by (rule queue_reachable.created, simp add: new_queue_def sample_options_def sample_queue_def
      max_safe_integer_def add_def Let_def)+

text \<open>
  C1. Memory is bounded in every state a queue can reach: the entries of each subscriber are at most
  as many as the unit bound and their bytes at most the byte bound and the recorded peak; the reported
  number of queued bytes is that of the entries, and all subscribers together hold at most the byte (unit)
  bound times the subscriber bound, whatever was published and however slowly it is read.
\<close>

theorem queue_memory_bounded:
  assumes "queue_reachable opts q"
  shows "(\<Sum>e\<leftarrow>entries (slots q i). entry_bytes e) \<le> max_bytes q \<and> int (length (entries (slots q i))) \<le> max_units q
    \<and> (\<Sum>e\<leftarrow>entries (slots q i). entry_bytes e) \<le> peak q \<and> peak q \<le> max_bytes q
    \<and> queued_bytes q = (\<Sum>j\<leftarrow>subs q. \<Sum>e\<leftarrow>entries (slots q j). entry_bytes e)
    \<and> queued_bytes q \<le> max_subscribers q * max_bytes q
    \<and> int (queued_units q) \<le> max_subscribers q * max_units q"
proof -
  have inv: "queue_inv None q" by (rule reachable_inv[OF assms])
  have s: "slot_bytes (slots q j) \<le> max_bytes q" "int (length (entries (slots q j))) \<le> max_units q"
    "slot_bytes (slots q j) = (\<Sum>e\<leftarrow>entries (slots q j). entry_bytes e)" for j
    using queue_inv_slot[OF inv, of j] by (simp_all add: slot_wf_def)
  have n: "int (length (subs q)) \<le> max_subscribers q" "0 < max_bytes q" "0 < max_units q"
    using inv by (simp_all add: queue_inv_def subs_ok_def limits_ok_def)
  have "queued_bytes q \<le> int (length (subs q)) * max_bytes q"
    using sum_list_mono[of "subs q" "\<lambda>j. slot_bytes (slots q j)" "\<lambda>_. max_bytes q"] s(1)
    by (simp add: queued_bytes_def sum_list_triv)
  moreover have "int (queued_units q) \<le> int (length (subs q)) * max_units q"
    using sum_list_mono[of "subs q" "\<lambda>j. int (length (entries (slots q j)))" "\<lambda>_. max_units q"] s(2)
    by (simp add: queued_units_def sum_list_triv comp_def flip: sum_list_of_nat)
  moreover have "int (length (subs q)) * max_bytes q \<le> max_subscribers q * max_bytes q"
    "int (length (subs q)) * max_units q \<le> max_subscribers q * max_units q"
    using n by (simp_all add: mult_right_mono)
  moreover have "slot_bytes (slots q i) \<le> peak q" "peak q \<le> max_bytes q"
    using queue_inv_slot[OF inv, of i] inv by (simp_all add: slot_wf_def queue_inv_def limits_ok_def)
  moreover have "queued_bytes q = (\<Sum>j\<leftarrow>subs q. \<Sum>e\<leftarrow>entries (slots q j). entry_bytes e)"
    by (simp add: queued_bytes_def s(3))
  ultimately show ?thesis using s[of i] by linarith
qed

theorem queue_memory_bounded_witness:
  "(\<Sum>e\<leftarrow>entries (slots (queue_step (Publish 7 (Whole 4)) (sample_queue Live)) 0). entry_bytes e) \<le> 10"
proof -
  have "max_bytes (queue_step (Publish 7 (Whole 4)) (sample_queue Live)) = max_bytes (sample_queue Live)"
    using extends_step[of "sample_queue Live" "Publish 7 (Whole 4)"] unfolding extends_def by blast
  then have "max_bytes (queue_step (Publish 7 (Whole 4)) (sample_queue Live)) = 10" by (simp only: sample_queue_def queue.simps)
  then show ?thesis using queue_memory_bounded[OF queue_reachable.stepped[OF sample_reachable(1)], of "Publish 7 (Whole 4)" 0]
    by linarith
qed

text \<open>
  C2. The release callback of a published unit runs at most once, only for units that were
  published, and exactly once for every one of them by the time the queue is finished.
\<close>

theorem queue_releases_exactly_once:
  assumes "queue_reachable opts q"
  shows "distinct (released_units q) \<and> set (released_units q) \<subseteq> {..<next_unit q}
    \<and> distinct (released_units (finish e q))
    \<and> set (released_units (finish e q)) = {..<next_unit (finish e q)}"
proof -
  have inv: "queue_inv None q" by (rule reachable_inv[OF assms])
  have f: "queue_inv None (finish e q)" using ledger.step_inv[OF inv, of "Finish e"] by simp
  show ?thesis
    using ledger.released_once[OF inv] ledger.released_allocated[OF inv] ledger.released_once[OF f]
      ledger.closing_releases[OF inv, of "Finish e"] by simp
qed

theorem queue_releases_exactly_once_witness:
  "released_units (finish None (queue_step (Publish 7 (Whole 4)) (sample_queue Live))) = [0]"
proof -
  let ?q = "queue_step (Publish (7::nat) (Whole 4)) (sample_queue Live)"
  have "next_unit (finish None ?q) = 1"
    by (simp add: publish_def sample_queue_def finish_def Let_def max_safe_integer_def publish_slot_def
        fresh_subscriber_def make_room_stop push_entry_def update_slot_def relinquish_def emit_def
        discard_def drain_Cons drain_Nil pop_def remove_entry_def detach_def)
  with queue_releases_exactly_once[OF queue_reachable.stepped[OF sample_reachable(1)], of "Publish 7 (Whole 4)" None]
  have "distinct (released_units (finish None ?q))" "set (released_units (finish None ?q)) = {0}"
    by auto
  then show ?thesis by (rule distinct_set_singleton)
qed


text \<open>
  C3. No reordering, no duplication, no invention: whatever happens to the queue, what the
  reader of a slot has been handed followed by what still waits for it is a subsequence of what
  was waiting at the start followed by the units published since, in the order of publication.
\<close>

theorem queue_order_preserved:
  assumes "queue_reachable opts q"
  shows "subseq (run_delivered i ops q @ slot_values (fold queue_step ops q) i)
    (slot_values q i @ concat (map published ops))"
  by (rule deliver_run[OF reachable_inv[OF assms] reachable_reads[OF assms]])

theorem queue_order_preserved_witness:
  "subseq (run_delivered 0 [Publish 7 (Whole 4), Next 0] (sample_queue Live)) [7]"
proof -
  let ?ops = "[Publish (7::nat) (Whole 4), Next 0]"
  have "subseq (run_delivered 0 ?ops (sample_queue Live) @ slot_values (fold queue_step ?ops (sample_queue Live)) 0)
      (slot_values (sample_queue Live) 0 @ concat (map published ?ops))"
    by (rule queue_order_preserved[OF sample_reachable(1)])
  moreover have "slot_values (sample_queue Live) 0 @ concat (map published ?ops) = [7]"
    by (simp add: slot_values_def sample_queue_def fresh_subscriber_def max_safe_integer_def)
  ultimately show ?thesis by (metis list_emb_append2 prefixI prefix_imp_subseq subseq_order.order_trans)
qed


lemmas sample_eval = publish_def sample_queue_def Let_def max_safe_integer_def publish_slot_def
  fresh_subscriber_def make_room_stop push_entry_def update_slot_def relinquish_def emit_def
  next_item_def remove_entry_def detach_def end_queue_def drain_Nil


text \<open>
  Recorded media never drops a unit to make room: no gap is ever reported, and a
  publication that does not fit one of the subscribers fails instead.
\<close>

theorem recorded_never_gaps:
  assumes "mode q = Recorded"
  shows "Gap n \<in> set (effects (snd (publish v b q))) \<longleftrightarrow> Gap n \<in> set (effects q)"
proof
  assume "Gap n \<in> set (effects q)"
  moreover have "set (effects q) \<subseteq> set (effects (snd (publish v b q)))"
    using extends_publish[of q v b] by (simp add: extends_def set_mono_prefix)
  ultimately show "Gap n \<in> set (effects (snd (publish v b q)))" by blast
next
  assume "Gap n \<in> set (effects (snd (publish v b q)))"
  then show "Gap n \<in> set (effects q)"
    using assms publish_all_recorded_gap[of "q\<lparr>next_unit := Suc (next_unit q), refs := (refs q)(next_unit q := 1)\<rparr>" n]
    by (fastforce simp: publish_def Let_def split_beta split: sum.splits if_splits)
qed

theorem recorded_never_gaps_witness:
  "Gap 1 \<notin> set (effects (snd (publish 7 (Whole 11) (sample_queue Recorded))))
   \<and> fst (publish 7 (Whole 11) (sample_queue Recorded)) = raise InvalidValue"
  using recorded_never_gaps[of "sample_queue Recorded" 1 7 "Whole 11"] by (simp add: sample_eval)

text \<open>
  Live media is never refused: publishing a unit of a valid size on an open live queue
  succeeds, and every subscriber that is not waiting in a read and for whose bound the unit is
  not too big has it as its newest entry, after dropping a prefix of the older ones and
  reporting the number dropped as a gap.
\<close>

theorem live_keeps_newest:
  assumes "queue_reachable opts q" "mode q = Live" "\<not> queue_ended q" "\<not> draining q"
    and "positive_integer n (128 * 1024 * 1024) = Inr b"
  shows "fst (publish v n q) = Inr ()
    \<and> (i \<in> set (subs q) \<and> pending (slots q i) = None \<and> b \<le> max_bytes q \<longrightarrow>
         (\<exists>k. slot_values (snd (publish v n q)) i = drop k (slot_values q i) @ [v]
            \<and> (k > 0 \<longrightarrow> Gap k \<in> set (effects (snd (publish v n q))))))"
proof -
  let ?u = "next_unit q"
  let ?q0 = "q\<lparr>next_unit := Suc ?u, refs := (refs q)(?u := 1)\<rparr>"
  have inv: "queue_inv None q" by (rule reachable_inv[OF assms(1)])
  have b: "0 < b" using assms(5) by (simp add: positive_integer_Inr)
  have d: "distinct (subs ?q0)" using inv by (simp add: queue_inv_def subs_ok_def)
  from publish_all_live[OF begin_publish_inv[OF inv refl] _ b _ d, of v] assms(2) b
  have "fst (publish_all ?u v b (subs q) ?q0) = Inr ()
    \<and> (\<forall>i\<in>set (subs q). pending (slots q i) = None \<and> b \<le> max_bytes q \<longrightarrow>
        (\<exists>k. slot_values (snd (publish_all ?u v b (subs q) ?q0)) i = drop k (slot_values q i) @ [v]
           \<and> (k > 0 \<longrightarrow> Gap k \<in> set (effects (snd (publish_all ?u v b (subs q) ?q0))))))"
    by (simp add: slot_values_def)
  then show ?thesis using assms(3,4,5)
    by (auto simp: publish_def Let_def split_beta slot_values_def)
qed

theorem live_keeps_newest_witness:
  "\<exists>k. slot_values (snd (publish 9 (Whole 6) (snd (publish 7 (Whole 6) (sample_queue Live))))) 0
     = drop k [7] @ [9]"
proof -
  let ?q = "queue_step (Publish (7::nat) (Whole 6)) (sample_queue Live)"
  have "slot_values ?q 0 = [7]" "mode ?q = Live" "\<not> queue_ended ?q" "\<not> draining ?q" "subs ?q = [0]"
    "pending (slots ?q 0) = None" "max_bytes ?q = 10"
    by (simp_all add: sample_eval slot_values_def)
  then show ?thesis
    using live_keeps_newest[OF queue_reachable.stepped[OF sample_reachable(1), of "Publish 7 (Whole 6)"],
        of "Whole 6" 6 9 0]
    by (auto simp: max_safe_integer_def)
qed

lemma detach_settles: "pending (slots q i) = Some r \<Longrightarrow> failure q = None \<Longrightarrow> Settle r Done \<in> set (effects (detach i q))"
  by (simp add: detach_eq Let_def settle_pending_def closing_outcome_def)

lemma detach_empty_settles:
  "i \<in> set is \<Longrightarrow> entries (slots q i) = [] \<Longrightarrow> pending (slots q i) = Some r \<Longrightarrow> failure q = None \<Longrightarrow>
   Settle r Done \<in> set (effects (detach_empty is q))"
proof (induction "is" arbitrary: q)
  case Nil
  then show ?case by simp
next
  case (Cons j "is")
  show ?case
  proof (cases "i = j")
    case True
    have "set (effects (detach i q)) \<subseteq> set (effects (detach_empty is (detach i q)))"
      using extends_detach_empty[of "detach i q" "is"] by (simp add: extends_def set_mono_prefix)
    with True Cons.prems detach_settles[of q i r] show ?thesis by auto
  next
    case False
    with Cons show ?thesis by (simp add: detach_other detach_simps)
  qed
qed

text \<open>
  C36. Ending a queue leaves no reader waiting: after \<open>end()\<close> on an open queue no slot has a
  pending read, and each read that was pending has been settled as done.
\<close>

theorem end_settles_all_reads:
  assumes "queue_reachable opts q" "\<not> queue_ended q" "\<not> draining q"
  shows "pending (slots (end_queue q) i) = None
    \<and> (pending (slots q i) = Some r \<longrightarrow> Settle r Done \<in> set (effects (end_queue q)))"
proof -
  have inv: "queue_inv None q" by (rule reachable_inv[OF assms(1)])
  have "draining (end_queue q)"
    using assms(2,3) detach_empty_frame[of "subs q" "q\<lparr>draining := True\<rparr>"] by (simp add: end_queue_def)
  then have "pending (slots (end_queue q) i) = None"
    using end_queue_inv[OF inv] by (simp add: queue_inv_def closing_ok_def)
  moreover have "Settle r Done \<in> set (effects (end_queue q))" if r: "pending (slots q i) = Some r"
  proof -
    have "i \<in> set (subs q)" "entries (slots q i) = []" "failure q = None"
      using r inv pending_slot_sub[OF inv, of i] queue_inv_slot[OF inv, of i] assms(2)
      by (auto simp: slot_wf_def queue_inv_def closing_ok_def)
    then show ?thesis using r assms(2,3) detach_empty_settles[of i "subs q" "q\<lparr>draining := True\<rparr>" r]
      by (simp add: end_queue_def)
  qed
  ultimately show ?thesis by blast
qed

theorem end_settles_all_reads_witness:
  "Settle 0 Done \<in> set (effects (end_queue (queue_step (Next 0) (sample_queue Live))))"
proof -
  let ?q = "queue_step (Next 0) (sample_queue Live)"
  have "\<not> queue_ended ?q" "\<not> draining ?q" "pending (slots ?q 0) = Some 0" by (simp_all add: sample_eval)
  with end_settles_all_reads[OF queue_reachable.stepped[OF sample_reachable(1), of "Next 0"], of 0 0]
  show ?thesis by simp
qed

end
