(* ===== verification/Media_Session_Frame.thy ===== *)
theory Media_Session_Frame
  imports Media_Session_Events Media_Queue_Laws
begin

section \<open>What the bookkeeping of a session leaves alone\<close>

text \<open>
  Diagnostics, credits and the reads and publications of the three stream queues only touch the
  bookkeeping fields of a session: \<open>quiet s t\<close> says that \<open>t\<close> is \<open>s\<close> up to those fields, that
  no ended queue has been opened again and that a closing session has gained no credit. The
  handlers of \<open>Media_Session_Events\<close> are then described up to \<open>quiet\<close> steps.
\<close>

definition framed :: "native_session \<Rightarrow> native_session \<Rightarrow> bool" where
  "framed s t \<longleftrightarrow>
     t = s\<lparr>streams := streams t, unit_sizes := unit_sizes t, diagnostics := diagnostics t,
           sender_reports := sender_reports t, credit_bytes := credit_bytes t, credit_units := credit_units t,
           local_dropped := local_dropped t, diagnostic_dropped := diagnostic_dropped t\<rparr>"

definition same_shape :: "'v queue \<Rightarrow> 'v queue \<Rightarrow> bool" where
  "same_shape q q' \<longleftrightarrow> queue_ended q' = queue_ended q \<and> max_subscribers q' = max_subscribers q"

definition quiet :: "native_session \<Rightarrow> native_session \<Rightarrow> bool" where
  "quiet s t \<longleftrightarrow> framed s t \<and> (\<forall>x. same_shape (streams s x) (streams t x))
     \<and> same_shape (diagnostics s) (diagnostics t) \<and> credit_units s \<le> credit_units t
     \<and> (is_closing s \<longrightarrow> credit_bytes t = credit_bytes s \<and> credit_units t = credit_units s)"

lemma same_shape_refl [simp]: "same_shape q q" by (simp add: same_shape_def)

lemma same_shape_trans: "same_shape p q \<Longrightarrow> same_shape q r \<Longrightarrow> same_shape p r" by (simp add: same_shape_def)

lemma framed_refl [simp]: "framed s s" by (simp add: framed_def)

lemma quiet_refl [simp, intro]: "quiet s s" by (simp add: quiet_def)

lemma framed_fields:
  assumes "framed s t"
  shows "session_id t = session_id s" "descriptor t = descriptor s" "session_mode t = session_mode s"
    "readers t = readers s" "control_decoder t = control_decoder s" "data_decoder t = data_decoder s"
    "material t = material s" "inventory t = inventory s" "negotiated t = negotiated s" "sending t = sending s"
    "native_identity t = native_identity s" "ending t = ending s" "current_state t = current_state s"
    "current_generation t = current_generation s" "expected_generation t = expected_generation s"
    "command_sequence t = command_sequence s" "open_sequence t = open_sequence s"
    "close_sequence t = close_sequence s" "data_sequence t = data_sequence s" "open_sent t = open_sent s"
    "session_failure t = session_failure s" "receipt t = receipt s" "pending_command t = pending_command s"
    "abandoned t = abandoned s" "staged t = staged s" "staged_bytes t = staged_bytes s"
    "credit_writing t = credit_writing s" "outstanding_bytes t = outstanding_bytes s"
    "outstanding_units t = outstanding_units s" "stderr_count t = stderr_count s" "terminated t = terminated s"
    "open_timer t = open_timer s" "close_timer t = close_timer s" "kill_timer t = kill_timer s"
    "watchdog t = watchdog s" "signal_aborted t = signal_aborted s" "awaiting_secrets t = awaiting_secrets s"
    "deferred t = deferred s" "uncaught t = uncaught s" "ready t = ready s" "completion t = completion s"
    "control_results t = control_results s" "outputs t = outputs s"
proof -
  define u where "u = s\<lparr>streams := streams t, unit_sizes := unit_sizes t, diagnostics := diagnostics t,
           sender_reports := sender_reports t, credit_bytes := credit_bytes t, credit_units := credit_units t,
           local_dropped := local_dropped t, diagnostic_dropped := diagnostic_dropped t\<rparr>"
  have t: "t = u" using assms unfolding framed_def u_def by blast
  show "session_id t = session_id s" "descriptor t = descriptor s" "session_mode t = session_mode s"
    "readers t = readers s" "control_decoder t = control_decoder s" "data_decoder t = data_decoder s"
    "material t = material s" "inventory t = inventory s" "negotiated t = negotiated s" "sending t = sending s"
    "native_identity t = native_identity s" "ending t = ending s" "current_state t = current_state s"
    "current_generation t = current_generation s" "expected_generation t = expected_generation s"
    "command_sequence t = command_sequence s" "open_sequence t = open_sequence s"
    "close_sequence t = close_sequence s" "data_sequence t = data_sequence s" "open_sent t = open_sent s"
    "session_failure t = session_failure s" "receipt t = receipt s" "pending_command t = pending_command s"
    "abandoned t = abandoned s" "staged t = staged s" "staged_bytes t = staged_bytes s"
    "credit_writing t = credit_writing s" "outstanding_bytes t = outstanding_bytes s"
    "outstanding_units t = outstanding_units s" "stderr_count t = stderr_count s" "terminated t = terminated s"
    "open_timer t = open_timer s" "close_timer t = close_timer s" "kill_timer t = kill_timer s"
    "watchdog t = watchdog s" "signal_aborted t = signal_aborted s" "awaiting_secrets t = awaiting_secrets s"
    "deferred t = deferred s" "uncaught t = uncaught s" "ready t = ready s" "completion t = completion s"
    "control_results t = control_results s" "outputs t = outputs s"
    unfolding t by (simp_all add: u_def)
qed

lemma framed_trans:
  assumes st: "framed s t" and tu: "framed t u"
  shows "framed s u"
proof -
  have "u = t\<lparr>streams := streams u, unit_sizes := unit_sizes u, diagnostics := diagnostics u,
           sender_reports := sender_reports u, credit_bytes := credit_bytes u, credit_units := credit_units u,
           local_dropped := local_dropped u, diagnostic_dropped := diagnostic_dropped u\<rparr>"
    using tu unfolding framed_def by blast
  also have "\<dots> = s\<lparr>streams := streams u, unit_sizes := unit_sizes u, diagnostics := diagnostics u,
           sender_reports := sender_reports u, credit_bytes := credit_bytes u, credit_units := credit_units u,
           local_dropped := local_dropped u, diagnostic_dropped := diagnostic_dropped u\<rparr>"
    by (rule native_session.equality) (simp_all add: framed_fields[OF st])
  finally show ?thesis unfolding framed_def .
qed

lemma quiet_framed: "quiet s t \<Longrightarrow> framed s t" by (simp add: quiet_def)

lemmas quiet_fields = framed_fields[OF quiet_framed]

lemma quiet_closing: "quiet s t \<Longrightarrow> is_closing t = is_closing s"
  by (simp add: is_closing_def quiet_fields)

lemma quiet_trans: "quiet s t \<Longrightarrow> quiet t u \<Longrightarrow> quiet s u"
  using quiet_closing[of s t] framed_trans[of s t u] same_shape_trans order_trans[of "credit_units s" "credit_units t"] unfolding quiet_def by metis

subsection \<open>The shape of the queues\<close>

lemma shape_updates [simp]:
  "same_shape q (update_slot i f q)" "same_shape q (emit e q)" "same_shape q (relinquish u q)"
  "same_shape q (push_entry i u v b q)" "same_shape q (q\<lparr>draining := d\<rparr>)" "same_shape q (q\<lparr>initial := k\<rparr>)"
  "same_shape q (q\<lparr>subs := ss\<rparr>)" "same_shape q (snd (add q))" "same_shape q (detach i q)"
  by (simp_all add: same_shape_def push_entry_simps add_def Let_def detach_simps)

lemma shape_drain [simp]: "same_shape q (snd (drain i q))"
  using drain_frame[of q i] by (simp add: same_shape_def same_frame_def)

lemma shape_pop [simp]: "same_shape q (pop i q)"
  using pop_frame[of q i] by (simp add: same_shape_def same_frame_def)

lemma shape_detach_all [simp]: "same_shape q (detach_all is q)"
  by (induction "is" arbitrary: q) (auto intro: same_shape_trans[OF shape_updates(9)])

lemma shape_detach_empty: "same_shape q (detach_empty is q)"
  by (induction "is" arbitrary: q) (auto intro: same_shape_trans[OF shape_updates(9)])

lemma shape_discard [simp]: "same_shape q (snd (discard q))"
proof -
  have "same_shape q (snd (discard_all is q))" for "is"
    by (induction "is" arbitrary: q) (auto simp: split_beta Let_def intro: same_shape_trans[OF shape_drain])
  then show ?thesis by (simp add: discard_def)
qed

lemma shape_make_room: "same_shape q (snd (make_room i b d q))"
proof (induction i b d q rule: make_room.induct)
  case (1 i b d q)
  consider (stop) "\<not> (int (length (entries (slots q i))) \<ge> max_units q \<or> slot_bytes (slots q i) + b > max_bytes q)
        \<or> mode q = Recorded \<or> entries (slots q i) = []"
    | (pop) e es where "int (length (entries (slots q i))) \<ge> max_units q \<or> slot_bytes (slots q i) + b > max_bytes q"
        "mode q = Live" "entries (slots q i) = e # es"
    by (cases "mode q"; cases "entries (slots q i)") auto
  then show ?case
  proof cases
    case stop
    then show ?thesis by (subst make_room.simps) (auto simp: remove_entry_Nil)
  next
    case pop
    have "same_shape (pop i q) (snd (make_room i b (Suc d) (pop i q)))"
      using 1[OF pop(1)] pop by (simp add: remove_entry_Cons pop_def)
    then show ?thesis using make_room_Cons[OF pop(2,3,1)] same_shape_trans[OF shape_pop] by simp
  qed
qed

lemma shape_publish_slot: "same_shape q (snd (publish_slot u v b i q))"
proof -
  obtain r q1 where m: "make_room i b 0 q = (r, q1)" by (cases "make_room i b 0 q")
  then have q1: "same_shape q q1" using shape_make_room[of q i b 0] by simp
  then show ?thesis by (auto simp: publish_slot_def m same_shape_def push_entry_simps split: option.split sum.split)
qed

lemma shape_publish_all: "same_shape q (snd (publish_all u v b is q))"
proof (induction "is" arbitrary: q)
  case (Cons i "is")
  obtain r q1 where p: "publish_slot u v b i q = (r, q1)" by (cases "publish_slot u v b i q")
  then have q1: "same_shape q q1" using shape_publish_slot[of q u v b i] by simp
  with same_shape_trans[OF q1 Cons.IH] show ?case by (simp add: p split: sum.split)
qed simp

lemma shape_publish [simp]: "same_shape q (snd (publish v n q))"
  using shape_publish_all[of "q\<lparr>next_unit := Suc (next_unit q), refs := (refs q)(next_unit q := 1)\<rparr>" "next_unit q" v _ "subs q"]
  by (auto simp: publish_def Let_def split_beta same_shape_def split: sum.split)

lemma shape_end [simp]: "same_shape q (end_queue q)"
  using shape_detach_empty[of "q\<lparr>draining := True\<rparr>" "subs q"] by (simp add: end_queue_def same_shape_def)

lemma shape_resume [simp]: "same_shape q (snd (resume q))"
  using shape_detach_all[of q "subs q"]
  by (auto simp: resume_def same_shape_def add_def Let_def split: sum.split)

lemma shape_iterator [simp]: "same_shape q (snd (iterator q))"
  by (auto simp: iterator_def add_def Let_def same_shape_def split: sum.split)

lemma shape_next [simp]: "same_shape q (snd (next_item i q))"
  by (cases "entries (slots q i)") (auto simp: next_item_def remove_entry_Nil next_item_pop remove_entry_Cons same_shape_def detach_simps)

lemma shape_reply [simp]: "same_shape q (snd (return_item i q))" "same_shape q (snd (throw_item i e q))"
  by (simp_all add: return_item_def throw_item_def)

lemma queue_ended_finish [simp]: "queue_ended (finish e q)"
proof -
  have d: "queue_ended (detach_all is q) = queue_ended q" for "is" and q :: "'a queue"
    using shape_detach_all[of q "is"] by (simp add: same_shape_def)
  show ?thesis using shape_discard[of "q\<lparr>queue_ended := True, failure := e\<rparr>"]
    by (simp add: finish_def Let_def d same_shape_def)
qed

subsection \<open>Quiet steps\<close>

lemma quiet_diagnostic [simp, intro]: "quiet s (diagnostic d s)"
  by (simp add: quiet_def framed_def diagnostic_def Let_def)

lemma quiet_credit [simp, intro]: "quiet s (credit n s)"
  by (simp add: quiet_def framed_def credit_def)

lemma quiet_local [simp, intro]: "quiet s (s\<lparr>local_dropped := n\<rparr>)"
  by (simp add: quiet_def framed_def)

lemma quiet_absorb [simp, intro]: "quiet s (absorb x e s)"
  by (cases e) (auto intro: quiet_trans[OF quiet_local])

lemma quiet_fold: "(\<And>x s. quiet s (f x s)) \<Longrightarrow> quiet s (fold f xs s)"
  by (induction xs arbitrary: s) (auto intro: quiet_trans)

lemma quiet_on_stream:
  assumes "same_shape (streams s x) (snd (f (streams s x)))"
  shows "quiet s (snd (on_stream x f s))"
proof -
  have "quiet s (s\<lparr>streams := (streams s)(x := snd (f (streams s x)))\<rparr>)"
    using assms by (simp add: quiet_def framed_def)
  then show ?thesis
    by (auto simp: on_stream_def Let_def split_beta intro: quiet_trans[OF _ quiet_fold])
qed

lemma quiet_update_stream:
  "same_shape (streams s x) (f (streams s x)) \<Longrightarrow> quiet s (update_stream x f s)"
  unfolding update_stream_def by (rule quiet_on_stream) simp

lemma quiet_publish [simp, intro]: "quiet s (snd (publish_item x v n s))"
proof -
  have "quiet s (s\<lparr>unit_sizes := f\<rparr>)" for f by (simp add: quiet_def framed_def)
  then show ?thesis unfolding publish_item_def
    by (rule quiet_trans[OF _ quiet_on_stream]) simp
qed

lemma quiet_release [simp, intro]: "quiet s (release item s)" by (simp add: release_def)

lemma quiet_drop [simp, intro]: "quiet s (drop_unit code t s)"
  unfolding drop_unit_def by (rule quiet_trans[OF quiet_local quiet_diagnostic])

lemma quiet_reports [simp, intro]: "quiet s (s\<lparr>sender_reports := r\<rparr>)" by (simp add: quiet_def framed_def)

lemma quiet_deliver [simp, intro]: "quiet s (snd (deliver decode item s))"
proof -
  have report: "quiet s (snd (if b then publish_item x v n (s\<lparr>sender_reports := r\<rparr>) else (Inr (), release item (s\<lparr>sender_reports := r\<rparr>))))"
    for b x v n r
    using quiet_trans[OF quiet_reports[of s r] quiet_publish] quiet_trans[OF quiet_reports[of s r] quiet_release] by simp
  have rejected: "quiet s (release item (drop_unit code t s))" for code t
    by (rule quiet_trans[OF quiet_drop quiet_release])
  show ?thesis
    by (cases "staged_value item")
      (auto simp: deliver_def Let_def rejected report intro: report[simplified] split: option.split sum.split)
qed

lemma quiet_deliver_all [simp, intro]: "quiet s (snd (deliver_all decode items s))"
proof (induction items arbitrary: s)
  case (Cons item items)
  obtain r t where d: "deliver decode item s = (r, t)" by (cases "deliver decode item s")
  then have "quiet s t" using quiet_deliver[of s decode item] by simp
  then show ?case using quiet_trans[OF _ Cons.IH] by (simp add: d split: sum.split)
qed simp

lemma quiet_sequence_gap [simp, intro]: "quiet s (sequence_gap n s)" by (simp add: sequence_gap_def)

lemma quiet_discard_streams [simp, intro]: "quiet s (discard_streams s)"
proof -
  have d: "quiet s (snd (on_stream x discard s))" for x s by (rule quiet_on_stream) simp
  obtain a s1 b s2 c s3 where o: "on_stream Packets discard s = (a, s1)" "on_stream Metadata discard s1 = (b, s2)"
    "on_stream Frames discard s2 = (c, s3)" by (metis prod.exhaust)
  have q: "quiet s s3" using d[of s Packets] d[of s1 Metadata] d[of s2 Frames] o by (auto intro: quiet_trans)
  moreover have "quiet s3 (diagnostic d (s3\<lparr>local_dropped := n\<rparr>))" for d n
    by (rule quiet_trans[OF quiet_local quiet_diagnostic])
  ultimately show ?thesis by (auto simp: discard_streams_def o Let_def intro: quiet_trans)
qed

lemma quiet_resume_streams [simp, intro]: "quiet s (snd (resume_streams s))"
proof -
  have d: "quiet s (snd (on_stream x resume s))" for x s by (rule quiet_on_stream) simp
  show ?thesis using d[of s Packets]
    by (auto simp: resume_streams_def split: prod.split sum.split) (metis d quiet_trans snd_conv)+
qed

subsection \<open>Finishing the readers\<close>

definition destroyed_sending :: "native_session \<Rightarrow> backchannel option" where
  "destroyed_sending s = map_option (\<lambda>b. if bc_destroyed b then b else destroy_backchannel b) (sending s)"

definition audio_ends :: "native_session \<Rightarrow> session_output list" where
  "audio_ends s = (case sending s of Some b \<Rightarrow> if bc_destroyed b \<or> bc_flushed b then [] else [EndAudio] | None \<Rightarrow> [])"

lemma destroy_sending_eq:
  "destroy_sending s = s\<lparr>sending := destroyed_sending s, outputs := outputs s @ audio_ends s\<rparr>"
  by (auto simp: destroy_sending_def destroyed_sending_def audio_ends_def put_output_def split: option.split)

lemma on_stream_ended:
  assumes "\<And>q. queue_ended (f q)" "\<And>q. max_subscribers (f q) = max_subscribers q"
  shows "framed s (update_stream x f s)" "queue_ended (streams (update_stream x f s) x)"
    "y \<noteq> x \<Longrightarrow> queue_ended (streams (update_stream x f s) y) = queue_ended (streams s y)"
    "is_closing s \<Longrightarrow> credit_bytes (update_stream x f s) = credit_bytes s \<and> credit_units (update_stream x f s) = credit_units s"
proof -
  let ?s = "s\<lparr>streams := (streams s)(x := f (streams s x))\<rparr>"
  have u: "update_stream x f s = fold (absorb x) (drop (length (effects (streams s x))) (effects (f (streams s x)))) ?s"
    by (simp add: update_stream_def on_stream_def Let_def)
  have f0: "framed s ?s" by (simp add: framed_def)
  have q: "quiet ?s (update_stream x f s)" unfolding u by (rule quiet_fold) simp
  then show "framed s (update_stream x f s)" using framed_trans[OF f0] by (simp add: quiet_def)
  show "queue_ended (streams (update_stream x f s) x)"
    "y \<noteq> x \<Longrightarrow> queue_ended (streams (update_stream x f s) y) = queue_ended (streams s y)"
    "is_closing s \<Longrightarrow> credit_bytes (update_stream x f s) = credit_bytes s \<and> credit_units (update_stream x f s) = credit_units s"
    using q assms unfolding quiet_def same_shape_def is_closing_def by auto
qed

lemma max_subscribers_finish [simp]: "max_subscribers (finish e q) = max_subscribers q"
proof -
  have d: "max_subscribers (detach_all is q) = max_subscribers q" for "is" and q :: "'a queue"
    using shape_detach_all[of q "is"] by (simp add: same_shape_def)
  show ?thesis using shape_discard[of "q\<lparr>queue_ended := True, failure := e\<rparr>"]
    by (simp add: finish_def Let_def d same_shape_def)
qed

text \<open>What \<open>finish_readers\<close> leaves behind, up to the bookkeeping.\<close>

definition finished :: "native_session \<Rightarrow> native_session \<Rightarrow> bool" where
  "finished s t \<longleftrightarrow>
     framed (s\<lparr>material := None, staged := [], staged_bytes := 0, readers := [],
       sending := destroyed_sending s, outputs := outputs s @ audio_ends s\<rparr>) t
     \<and> (\<forall>x. queue_ended (streams t x)) \<and> credit_bytes t = 0 \<and> credit_units t = 0"

lemma finish_three:
  "framed s (update_stream Frames (finish e) (update_stream Metadata (finish e) (update_stream Packets (finish e) s)))"
  "queue_ended (streams (update_stream Frames (finish e) (update_stream Metadata (finish e) (update_stream Packets (finish e) s))) x)"
proof -
  let ?a = "update_stream Packets (finish e) s"
  let ?b = "update_stream Metadata (finish e) ?a"
  note fin = on_stream_ended[OF queue_ended_finish max_subscribers_finish]
  show "framed s (update_stream Frames (finish e) ?b)"
    by (rule framed_trans[OF fin(1) framed_trans[OF fin(1) fin(1)]])
  show "queue_ended (streams (update_stream Frames (finish e) ?b) x)"
    by (cases x) (simp_all add: fin(2,3))
qed

lemma finish_readers_finished: "finished s (finish_readers s)"
proof -
  let ?s0 = "s\<lparr>material := None\<rparr>"
  define s1 where "s1 = fold (\<lambda>item s. credit (int (staged_size item)) (s\<lparr>local_dropped := local_dropped s + 1\<rparr>)) (staged s) ?s0"
  define s2 where "s2 = s1\<lparr>staged := [], staged_bytes := 0,
                  local_dropped := local_dropped s1 + int (queued_units (streams s1 Packets))
                    + int (queued_units (streams s1 Metadata)) + int (queued_units (streams s1 Frames))\<rparr>"
  define e where "e = session_failure s2"
  define s3 where "s3 = update_stream Frames (finish e) (update_stream Metadata (finish e) (update_stream Packets (finish e) s2))"
  define s4 where "s4 = fold (\<lambda>i. update_stream Frames (detach i)) (readers s3) s3"
  define s5 where "s5 = s4\<lparr>readers := []\<rparr>"
  have "quiet ?s0 s1" unfolding s1_def by (rule quiet_fold) (rule quiet_trans[OF quiet_local quiet_credit])
  note f1 = quiet_fields[OF this]
  have f3: "framed s2 s3" unfolding s3_def by (rule finish_three)
  have q4: "quiet s3 s4" unfolding s4_def by (rule quiet_fold) (rule quiet_update_stream, simp)
  have ended: "queue_ended (streams s4 x)" for x
    using q4 finish_three(2)[of e s2 x] by (simp add: quiet_def same_shape_def s3_def)
  have eq: "finish_readers s = (destroy_sending s5)\<lparr>credit_bytes := 0, credit_units := 0\<rparr>"
    unfolding finish_readers_def Let_def destroy_readers_def s5_def s4_def s3_def e_def s2_def s1_def by simp
  note f4 = framed_fields[OF framed_trans[OF f3 quiet_framed[OF q4]]]
  have "framed (s\<lparr>material := None, staged := [], staged_bytes := 0, readers := [],
       sending := destroyed_sending s, outputs := outputs s @ audio_ends s\<rparr>) (finish_readers s)"
    unfolding framed_def eq
    by (rule native_session.equality)
      (simp_all add: destroy_sending_eq s5_def f4 s2_def f1 destroyed_sending_def audio_ends_def)
  then show ?thesis using ended by (simp add: finished_def eq destroy_sending_eq s5_def)
qed

lemma finished_fields:
  assumes "finished s t"
  shows "session_id t = session_id s" "descriptor t = descriptor s" "session_mode t = session_mode s"
    "readers t = []" "control_decoder t = control_decoder s" "data_decoder t = data_decoder s"
    "material t = None" "inventory t = inventory s" "negotiated t = negotiated s" "sending t = destroyed_sending s"
    "native_identity t = native_identity s" "ending t = ending s" "current_state t = current_state s"
    "current_generation t = current_generation s" "expected_generation t = expected_generation s"
    "command_sequence t = command_sequence s" "open_sequence t = open_sequence s"
    "close_sequence t = close_sequence s" "data_sequence t = data_sequence s" "open_sent t = open_sent s"
    "session_failure t = session_failure s" "receipt t = receipt s" "pending_command t = pending_command s"
    "abandoned t = abandoned s" "staged t = []" "staged_bytes t = 0"
    "credit_writing t = credit_writing s" "outstanding_bytes t = outstanding_bytes s"
    "outstanding_units t = outstanding_units s" "stderr_count t = stderr_count s" "terminated t = terminated s"
    "open_timer t = open_timer s" "close_timer t = close_timer s" "kill_timer t = kill_timer s"
    "watchdog t = watchdog s" "signal_aborted t = signal_aborted s" "awaiting_secrets t = awaiting_secrets s"
    "deferred t = deferred s" "uncaught t = uncaught s" "ready t = ready s" "completion t = completion s"
    "control_results t = control_results s" "outputs t = outputs s @ audio_ends s"
    "queue_ended (streams t x)" "credit_bytes t = 0" "credit_units t = 0"
  using assms framed_fields[of "s\<lparr>material := None, staged := [], staged_bytes := 0, readers := [],
       sending := destroyed_sending s, outputs := outputs s @ audio_ends s\<rparr>" t]
  by (simp_all add: finished_def)

end
