(* ===== verification/Media_Ipc_Laws.thy ===== *)
theory Media_Ipc_Laws
  imports Media_Ipc
begin

section \<open>Correctness of the framing\<close>

text \<open>
  Big-endian fields round trip, a stream of envelopes is parsed into exactly the frames that were
  encoded however the pipe cuts it into chunks, the decoder's memory is bounded, and the bounded
  walk over a control message decides its size, depth and finiteness.
\<close>

subsection \<open>Big-endian fields\<close>

lemma length_be_bytes [simp]: "length (be_bytes k n) = k"
  by (induction k arbitrary: n) auto

lemma be_value_snoc: "be_value (bs @ [b]) = be_value bs * 256 + unat b"
  by (simp add: be_value_def)

lemma be_value_be_bytes: "be_value (be_bytes k n) = n mod 256 ^ k"
proof (induction k arbitrary: n)
  case 0
  then show ?case by (simp add: be_value_def)
next
  case (Suc k)
  have "n mod 256 ^ Suc k = n div 256 mod 256 ^ k * 256 + n mod 256"
    by (simp add: mod_mult2_eq)
  with Suc show ?case by (simp add: be_value_snoc unat_of_nat)
qed

lemma unat_byte_less: "unat (b :: byte) < 256"
  using unsigned_less[of b] by simp

lemma unat_of_char: "unat (of_char c :: byte) = of_char c"
proof -
  have "(of_char c :: byte) = of_nat (of_char c)" by (simp only: of_nat_of_char)
  then show ?thesis by (simp add: unat_of_nat del: of_nat_of_char)
qed

lemma be_value_bound: "be_value bs < 256 ^ length bs"
proof (induction bs rule: rev_induct)
  case Nil
  then show ?case by (simp add: be_value_def)
next
  case (snoc b bs)
  from snoc unat_byte_less[of b] show ?case by (simp add: be_value_snoc)
qed

lemma slice_append_left: "i + n \<le> length a \<Longrightarrow> slice i n (a @ b) = slice i n a"
  by (simp add: slice_def)

lemma slice_append_right: "length a \<le> i \<Longrightarrow> slice i n (a @ b) = slice (i - length a) n b"
  by (simp add: slice_def)

lemma slice_all: "length a = n \<Longrightarrow> slice 0 n a = a"
  by (simp add: slice_def)

lemmas slice_simps = slice_append_left slice_append_right slice_all

lemma length_text_bytes [simp]: "length (text_bytes s) = length s"
  by (simp add: text_bytes_def)

lemma text_bytes_inj: "text_bytes s = text_bytes t \<longleftrightarrow> s = t"
proof -
  have "inj (of_char :: char \<Rightarrow> byte)"
    by (rule injI) (metis of_char_eq_iff unat_of_char)
  then show ?thesis by (simp add: text_bytes_def inj_map_eq_map)
qed

subsection \<open>The decoder's invariant\<close>

definition wf_decoder :: "decoder \<Rightarrow> bool" where
  "wf_decoder d \<longleftrightarrow> length (header d) \<le> header_size
     \<and> (case expected d of
          None \<Rightarrow> received d = []
        | Some len \<Rightarrow> length (header d) = header_size \<and> length (received d) < len \<and> len \<le> maximum d)"

lemma new_decoder_wf: "new_decoder c m = Inr d \<Longrightarrow> wf_decoder d \<and> header d = [] \<and> \<not> decoder_ended d"
  by (auto simp: new_decoder_def Let_def bind_result_Inr_iff wf_decoder_def)

lemma check_header_bound: "check_header c bound h = Inr len \<Longrightarrow> 0 < len \<and> len \<le> bound"
  by (auto simp: check_header_def Let_def split: if_splits)

definition step_decoder :: "parse_step \<Rightarrow> decoder" where
  "step_decoder s = (case s of Stop e d \<Rightarrow> d | More r d \<Rightarrow> d | Frame f r d \<Rightarrow> d)"

lemma body_step_wf:
  assumes "wf_decoder d" shows "wf_decoder (step_decoder (body_step chunk d))"
  using assms by (auto simp: body_step_def wf_decoder_def step_decoder_def Let_def split: option.splits)

definition stamp :: "int \<Rightarrow> decoder \<Rightarrow> decoder" where
  "stamp now d = d\<lparr>partial_at := Some (case partial_at d of None \<Rightarrow> now | Some t \<Rightarrow> t)\<rparr>"

lemma stamp_simps [simp]:
  "header (stamp now d) = header d" "expected (stamp now d) = expected d" "received (stamp now d) = received d"
  "channel (stamp now d) = channel d" "maximum (stamp now d) = maximum d"
  "decoder_ended (stamp now d) = decoder_ended d" "partial_at (stamp now d) \<noteq> None"
  by (simp_all add: stamp_def)

lemma stamp_wf [simp]: "wf_decoder (stamp now d) = wf_decoder d"
  by (simp add: wf_decoder_def split: option.split)

lemma stamp_stamped: "partial_at d \<noteq> None \<Longrightarrow> stamp now d = d"
  by (cases d) (auto simp: stamp_def)

lemma parse_step_short:
  "length (header d) < header_size \<Longrightarrow> length (header d) + length chunk < header_size \<Longrightarrow>
   parse_step now chunk d = More [] ((stamp now d)\<lparr>header := header d @ chunk\<rparr>)"
  by (simp add: parse_step_def Let_def stamp_def)

lemma parse_step_header:
  "length (header d) < header_size \<Longrightarrow> header_size - length (header d) \<le> length chunk \<Longrightarrow>
   h = header d @ take (header_size - length (header d)) chunk \<Longrightarrow>
   parse_step now chunk d =
     (case check_header (channel d) (maximum d) h of
        Inl e \<Rightarrow> Stop e ((stamp now d)\<lparr>header := h\<rparr>)
      | Inr len \<Rightarrow> body_step (drop (header_size - length (header d)) chunk)
          ((stamp now d)\<lparr>header := h, expected := Some len, received := []\<rparr>))"
  by (simp add: parse_step_def Let_def stamp_def split: sum.split)

lemma parse_step_body:
  "\<not> length (header d) < header_size \<Longrightarrow> parse_step now chunk d = body_step chunk (stamp now d)"
  by (simp add: parse_step_def stamp_def)

lemma header_body_wf:
  "wf_decoder d \<Longrightarrow> length h = header_size \<Longrightarrow> check_header (channel d) (maximum d) h = Inr len \<Longrightarrow>
   wf_decoder ((stamp now d)\<lparr>header := h, expected := Some len, received := []\<rparr>)"
  using check_header_bound by (auto simp: wf_decoder_def)

lemma wf_short: "wf_decoder d \<Longrightarrow> length (header d) < header_size \<Longrightarrow> expected d = None \<and> received d = []"
  by (auto simp: wf_decoder_def split: option.splits)

lemma parse_step_cases [consumes 1, case_names short complete body]:
  assumes "wf_decoder d"
    and "length (header d) < header_size \<Longrightarrow> length (header d) + length chunk < header_size \<Longrightarrow> P"
    and "\<And>h. length (header d) < header_size \<Longrightarrow> header_size - length (header d) \<le> length chunk \<Longrightarrow>
      h = header d @ take (header_size - length (header d)) chunk \<Longrightarrow> length h = header_size \<Longrightarrow> P"
    and "\<not> length (header d) < header_size \<Longrightarrow> P"
  shows P
  using assms(2,4) assms(3)[of "header d @ take (header_size - length (header d)) chunk"]
  by (cases "length (header d) < header_size"; cases "length (header d) + length chunk < header_size") auto

lemma parse_step_wf:
  assumes w: "wf_decoder d"
  shows "wf_decoder (step_decoder (parse_step now chunk d))"
  using w
proof (cases rule: parse_step_cases[where chunk = chunk])
  case short
  then show ?thesis using w wf_short[OF w]
    by (simp add: parse_step_short step_decoder_def wf_decoder_def)
next
  case (complete h)
  show ?thesis
  proof (cases "check_header (channel d) (maximum d) h")
    case (Inl e)
    then show ?thesis using complete wf_short[OF w]
      by (simp add: parse_step_header[OF complete(1,2,3)] step_decoder_def wf_decoder_def)
  next
    case (Inr len)
    then show ?thesis using body_step_wf[OF header_body_wf[OF w complete(4) Inr]]
      by (simp add: parse_step_header[OF complete(1,2,3)])
  qed
next
  case body
  then show ?thesis using body_step_wf[of "stamp now d"] w by (simp add: parse_step_body)
qed

lemma push_loop_wf: "wf_decoder d \<Longrightarrow> wf_decoder (fst (snd (push_loop now accept chunk d s)))"
proof (induction now accept chunk d s rule: push_loop.induct)
  case (1 now accept chunk d s)
  show ?case
  proof (cases "chunk = []")
    case True
    then show ?thesis using 1 by (simp add: push_loop.simps)
  next
    case False
    note w = parse_step_wf[OF 1(3), of now chunk]
    show ?thesis using 1(1)[OF False] 1(2)[OF False] False w
      by (subst push_loop.simps) (auto simp: step_decoder_def split: parse_step.split sum.split prod.split)
  qed
qed

lemma wf_buffered: "wf_decoder d \<Longrightarrow> buffered_bytes d \<le> header_size + maximum d"
  by (auto simp: wf_decoder_def buffered_bytes_def split: option.splits)

subsection \<open>Chunks do not matter\<close>

text \<open>Two chunks one after the other do what their concatenation does.\<close>

lemma body_step_append:
  assumes "wf_decoder d"
  shows "body_step (a @ b) d = (case body_step a d of
      Stop e d' \<Rightarrow> Stop e d' | Frame f rest d' \<Rightarrow> Frame f (rest @ b) d'
    | More rest d' \<Rightarrow> body_step b d')"
proof (cases "expected d")
  case None
  then show ?thesis by (simp add: body_step_def)
next
  case (Some len)
  let ?need = "len - length (received d)"
  have lt: "length (received d) < len" using assms Some by (simp add: wf_decoder_def)
  show ?thesis
  proof (cases "?need \<le> length a")
    case True
    then show ?thesis using Some lt by (simp add: body_step_def Let_def)
  next
    case False
    then have "body_step a d = More [] (d\<lparr>received := received d @ a\<rparr>)"
      using Some lt by (simp add: body_step_def Let_def)
    moreover have "body_step (a @ b) d = body_step b (d\<lparr>received := received d @ a\<rparr>)"
    proof -
      have "min ?need (length (a @ b)) = length a + min (?need - length a) (length b)" using False by simp
      then show ?thesis using Some False lt by (auto simp: body_step_def Let_def)
    qed
    ultimately show ?thesis by simp
  qed
qed

lemma body_step_More: "wf_decoder d \<Longrightarrow> body_step a d = More rest d' \<Longrightarrow>
    rest = [] \<and> length (header d') = header_size \<and> partial_at d' = partial_at d
    \<and> channel d' = channel d \<and> maximum d' = maximum d"
  by (auto simp: body_step_def Let_def wf_decoder_def split: option.splits if_splits)

lemma body_step_parse:
  "length (header d) = header_size \<Longrightarrow> partial_at d \<noteq> None \<Longrightarrow> body_step b d = parse_step now b d"
  by (simp add: parse_step_body stamp_stamped)

definition resume_step :: "int \<Rightarrow> byte list \<Rightarrow> parse_step \<Rightarrow> parse_step" where
  "resume_step now b s = (case s of Stop e d \<Rightarrow> Stop e d | Frame f rest d \<Rightarrow> Frame f (rest @ b) d
     | More rest d \<Rightarrow> parse_step now b d)"

lemma body_step_resume:
  assumes "wf_decoder d" "partial_at d \<noteq> None"
  shows "body_step (a @ b) d = resume_step now b (body_step a d)"
  using body_step_append[OF assms(1), of a b] body_step_More[OF assms(1), of a] assms(2)
  by (auto simp: resume_step_def split: parse_step.split intro!: body_step_parse)

lemma parse_step_append:
  assumes w: "wf_decoder d"
  shows "parse_step now (a @ b) d = resume_step now b (parse_step now a d)"
  using w
proof (cases rule: parse_step_cases[where chunk = a])
  case short
  let ?d = "(stamp now d)\<lparr>header := header d @ a\<rparr>"
  have st: "stamp now ?d = ?d" by (rule stamp_stamped) (simp add: stamp_def)
  have r: "resume_step now b (parse_step now a d) = parse_step now b ?d"
    using short by (simp add: parse_step_short resume_step_def)
  have hd: "length (header ?d) < header_size" using short by simp
  show ?thesis
  proof (cases "length (header d) + length (a @ b) < header_size")
    case True
    then show ?thesis unfolding r using short(1) hd st by (simp add: parse_step_short)
  next
    case False
    let ?h = "header d @ take (header_size - length (header d)) (a @ b)"
    have h2: "?h = header ?d @ take (header_size - length (header ?d)) b" using short by simp
    have "parse_step now (a @ b) d = (case check_header (channel d) (maximum d) ?h of
        Inl e \<Rightarrow> Stop e ((stamp now d)\<lparr>header := ?h\<rparr>)
      | Inr len \<Rightarrow> body_step (drop (header_size - length (header d)) (a @ b))
          ((stamp now d)\<lparr>header := ?h, expected := Some len, received := []\<rparr>))"
      by (rule parse_step_header) (use short False in auto)
    moreover have "parse_step now b ?d = (case check_header (channel ?d) (maximum ?d) ?h of
        Inl e \<Rightarrow> Stop e ((stamp now ?d)\<lparr>header := ?h\<rparr>)
      | Inr len \<Rightarrow> body_step (drop (header_size - length (header ?d)) b)
          ((stamp now ?d)\<lparr>header := ?h, expected := Some len, received := []\<rparr>))"
      by (rule parse_step_header[OF hd _ h2]) (use short False in auto)
    ultimately show ?thesis using short by (simp add: r st split: sum.split)
  qed
next
  case (complete h)
  have h: "h = header d @ take (header_size - length (header d)) (a @ b)" using complete by simp
  have ab: "header_size - length (header d) \<le> length (a @ b)" using complete by simp
  show ?thesis
  proof (cases "check_header (channel d) (maximum d) h")
    case (Inl e)
    then show ?thesis
      by (simp add: parse_step_header[OF complete(1,2,3)] parse_step_header[OF complete(1) ab h] resume_step_def)
  next
    case (Inr len)
    then show ?thesis using complete(2)
        body_step_resume[OF header_body_wf[OF w complete(4) Inr], of now "drop (header_size - length (header d)) a" b now]
      by (simp add: parse_step_header[OF complete(1,2,3)] parse_step_header[OF complete(1) ab h])
  qed
next
  case body
  then show ?thesis using body_step_resume[of "stamp now d" a b now] w by (simp add: parse_step_body)
qed

text \<open>
  \<open>accept\<close> runs on the frames in the order of the stream, so the loop over a concatenation is
  the loop over the first part followed, unless it failed, by the loop over the second.
\<close>

definition then_push :: "int \<Rightarrow> (ipc_frame \<Rightarrow> 's \<Rightarrow> unit result \<times> 's) \<Rightarrow> byte list \<Rightarrow>
    unit result \<times> decoder \<times> 's \<Rightarrow> unit result \<times> decoder \<times> 's" where
  "then_push now accept b r = (case r of (Inl e, d, s) \<Rightarrow> (Inl e, d, s)
     | (Inr _, d, s) \<Rightarrow> push_loop now accept b d s)"

lemma push_loop_Nil [simp]: "push_loop now accept [] d s = (Inr (), d, s)"
  by (simp add: push_loop.simps)

lemma parse_step_nonempty_rest:
  assumes w: "wf_decoder d" and p: "parse_step now a d = More rest d'"
  shows "rest = []"
  using w
proof (cases rule: parse_step_cases[where chunk = a])
  case short
  with p show ?thesis by (simp add: parse_step_short)
next
  case (complete h)
  show ?thesis
  proof (cases "check_header (channel d) (maximum d) h")
    case (Inl e)
    with p show ?thesis by (simp add: parse_step_header[OF complete(1,2,3)])
  next
    case (Inr len)
    with p have "body_step (drop (header_size - length (header d)) a)
        ((stamp now d)\<lparr>header := h, expected := Some len, received := []\<rparr>) = More rest d'"
      by (simp only: parse_step_header[OF complete(1,2,3)]) simp
    from body_step_More[OF header_body_wf[OF w complete(4) Inr] this] show ?thesis by simp
  qed
next
  case body
  with p have "body_step a (stamp now d) = More rest d'" by (simp add: parse_step_body)
  with w show ?thesis using body_step_More[of "stamp now d" a rest d'] by simp
qed

lemma push_loop_Stop:
  "chunk \<noteq> [] \<Longrightarrow> parse_step now chunk d = Stop e d' \<Longrightarrow> push_loop now accept chunk d s = (Inl e, d', s)"
  by (subst push_loop.simps) simp

lemma push_loop_More:
  "chunk \<noteq> [] \<Longrightarrow> parse_step now chunk d = More rest d' \<Longrightarrow>
   push_loop now accept chunk d s = push_loop now accept rest d' s"
  by (subst push_loop.simps) simp

lemma push_loop_Frame:
  "chunk \<noteq> [] \<Longrightarrow> parse_step now chunk d = Frame f rest d' \<Longrightarrow> accept f s = (r, s') \<Longrightarrow>
   push_loop now accept chunk d s = (case r of Inl e \<Rightarrow> (Inl e, d', s') | Inr _ \<Rightarrow> push_loop now accept rest d' s')"
  by (subst push_loop.simps) simp

lemma push_loop_append:
  "wf_decoder d \<Longrightarrow> push_loop now accept (a @ b) d s = then_push now accept b (push_loop now accept a d s)"
proof (induction now accept a d s rule: push_loop.induct)
  case (1 now accept a d s)
  show ?case
  proof (cases "a = []")
    case True
    then show ?thesis by (simp add: then_push_def)
  next
    case a: False
    then have ab: "a @ b \<noteq> []" by simp
    note w = parse_step_wf[OF 1(3), of now a]
    note app = parse_step_append[OF 1(3), of now a b]
    show ?thesis
    proof (cases "parse_step now a d")
      case (Stop e d')
      with app have "parse_step now (a @ b) d = Stop e d'" by (simp add: resume_step_def)
      then show ?thesis by (simp add: push_loop_Stop[OF ab] push_loop_Stop[OF a Stop] then_push_def)
    next
      case (More rest d')
      then have rest: "rest = []" by (rule parse_step_nonempty_rest[OF 1(3)])
      have l: "push_loop now accept a d s = (Inr (), d', s)" using push_loop_More[OF a More] rest by simp
      have p: "parse_step now (a @ b) d = parse_step now b d'" using app More by (simp add: resume_step_def)
      have "push_loop now accept (a @ b) d s = push_loop now accept b d' s"
      proof (cases "b = []")
        case True
        then show ?thesis using l by simp
      next
        case False
        then show ?thesis using ab p by (subst (1 2) push_loop.simps) simp
      qed
      then show ?thesis using l by (simp add: then_push_def)
    next
      case (Frame f rest d')
      have w': "wf_decoder d'" using w Frame by (simp add: step_decoder_def)
      obtain r s' where f: "accept f s = (r, s')" by (cases "accept f s")
      have p: "parse_step now (a @ b) d = Frame f (rest @ b) d'" using app Frame by (simp add: resume_step_def)
      show ?thesis
      proof (cases r)
        case (Inl e)
        then show ?thesis
          by (simp add: push_loop_Frame[where accept = accept and s = s, OF ab p f] push_loop_Frame[where accept = accept and s = s, OF a Frame f] then_push_def)
      next
        case (Inr u)
        then show ?thesis using 1(2)[OF a Frame f[symmetric] _ w']
          by (simp add: push_loop_Frame[where accept = accept and s = s, OF ab p f] push_loop_Frame[where accept = accept and s = s, OF a Frame f])
      qed
    qed
  qed
qed

subsection \<open>The clock does not matter\<close>

text \<open>The time of arrival only enters \<open>partial_at\<close>; the parsed frames do not depend on it.\<close>

definition forget :: "decoder \<Rightarrow> decoder" where
  "forget d = d\<lparr>partial_at := None\<rparr>"

definition forget_step :: "parse_step \<Rightarrow> parse_step" where
  "forget_step s = (case s of Stop e d \<Rightarrow> Stop e (forget d) | More r d \<Rightarrow> More r (forget d)
     | Frame f r d \<Rightarrow> Frame f r (forget d))"

lemma forget_fields:
  "forget d = forget e \<longleftrightarrow> channel d = channel e \<and> maximum d = maximum e \<and> header d = header e
     \<and> expected d = expected e \<and> received d = received e \<and> decoder_ended d = decoder_ended e"
  by (cases d; cases e) (auto simp: forget_def)

lemma body_step_forget:
  "forget d = forget e \<Longrightarrow> forget_step (body_step a d) = forget_step (body_step a e)"
  by (auto simp: forget_fields body_step_def forget_step_def Let_def split: option.split)

lemma parse_step_forget:
  assumes e: "forget d = forget e" shows "forget_step (parse_step t a d) = forget_step (parse_step u a e)"
proof -
  have f: "header d = header e" "channel d = channel e" "maximum d = maximum e"
    using e by (simp_all add: forget_fields)
  consider (short) "length (header d) < header_size" "length (header d) + length a < header_size"
    | (complete) "length (header d) < header_size" "header_size - length (header d) \<le> length a"
    | (body) "\<not> length (header d) < header_size" by linarith
  then show ?thesis
  proof cases
    case short
    then have "parse_step t a d = More [] ((stamp t d)\<lparr>header := header d @ a\<rparr>)"
      "parse_step u a e = More [] ((stamp u e)\<lparr>header := header e @ a\<rparr>)"
      using f by (simp_all add: parse_step_short)
    then show ?thesis using e by (simp add: forget_step_def forget_fields)
  next
    case complete
    let ?h = "header d @ take (header_size - length (header d)) a"
    note P = parse_step_header[OF complete refl, of t]
    note Q = parse_step_header[of e a ?h u]
    show ?thesis
    proof (cases "check_header (channel d) (maximum d) ?h")
      case (Inl x)
      then show ?thesis using P Q complete f e by (simp add: forget_step_def forget_fields)
    next
      case (Inr len)
      have "forget ((stamp t d)\<lparr>header := ?h, expected := Some len, received := []\<rparr>)
          = forget ((stamp u e)\<lparr>header := ?h, expected := Some len, received := []\<rparr>)"
        using e by (simp add: forget_fields)
      from body_step_forget[OF this] show ?thesis using P Q complete f Inr by simp
    qed
  next
    case body
    have "forget (stamp t d) = forget (stamp u e)" using e by (simp add: forget_fields)
    from body_step_forget[OF this] show ?thesis using body f by (simp add: parse_step_body)
  qed
qed

definition forget_result :: "unit result \<times> decoder \<times> 's \<Rightarrow> unit result \<times> decoder \<times> 's" where
  "forget_result r = (case r of (x, d, s) \<Rightarrow> (x, forget d, s))"

lemma push_loop_forget:
  "forget d = forget e \<Longrightarrow>
   forget_result (push_loop t accept a d s) = forget_result (push_loop u accept a e s)"
proof (induction t accept a d s arbitrary: e rule: push_loop.induct)
  case (1 t accept a d s)
  show ?case
  proof (cases "a = []")
    case True
    then show ?thesis using 1(3) by (simp add: forget_result_def)
  next
    case a: False
    note S = parse_step_forget[OF 1(3), of t a u]
    show ?thesis
    proof (cases "parse_step t a d")
      case (Stop x d')
      with S obtain e' where e': "parse_step u a e = Stop x e'" "forget e' = forget d'"
        by (auto simp: forget_step_def split: parse_step.splits)
      then show ?thesis
        by (simp add: push_loop_Stop[OF a Stop] push_loop_Stop[OF a e'(1)] forget_result_def)
    next
      case (More rest d')
      with S obtain e' where e': "parse_step u a e = More rest e'" "forget e' = forget d'"
        by (auto simp: forget_step_def split: parse_step.splits)
      from 1(1)[OF a More e'(2)[symmetric]] show ?thesis
        by (simp add: push_loop_More[OF a More] push_loop_More[OF a e'(1)])
    next
      case (Frame f rest d')
      with S obtain e' where e': "parse_step u a e = Frame f rest e'" "forget e' = forget d'"
        by (auto simp: forget_step_def split: parse_step.splits)
      obtain r s' where f: "accept f s = (r, s')" by (cases "accept f s")
      show ?thesis
      proof (cases r)
        case (Inl x)
        then show ?thesis using e'(2)
          by (simp add: push_loop_Frame[where accept = accept and s = s, OF a Frame f]
              push_loop_Frame[where accept = accept and s = s, OF a e'(1) f] forget_result_def)
      next
        case (Inr y)
        from 1(2)[OF a Frame f[symmetric] Inr e'(2)[symmetric]] show ?thesis
          by (simp add: push_loop_Frame[where accept = accept and s = s, OF a Frame f]
              push_loop_Frame[where accept = accept and s = s, OF a e'(1) f] Inr)
      qed
    qed
  qed
qed

subsection \<open>Streams of envelopes\<close>

definition valid_frame :: "channel \<Rightarrow> nat \<Rightarrow> ipc_frame \<Rightarrow> bool" where
  "valid_frame c bound f \<longleftrightarrow>
     (case c of Control \<Rightarrow> kind_hello \<le> kind f \<and> kind f \<le> kind_end
      | Data \<Rightarrow> kind_rtp \<le> kind f \<and> kind f \<le> kind_rtcp)
     \<and> session f < 2 ^ 32 \<and> generation f < 2 ^ 32 \<and> sequence f < 2 ^ 32
     \<and> 0 < length (payload f) \<and> length (payload f) \<le> bound"

definition encode_frame :: "ipc_frame \<Rightarrow> byte list result" where
  "encode_frame f = encode_envelope (Whole (int (kind f))) (Whole (int (session f)))
     (Whole (int (generation f))) (Whole (int (sequence f))) (payload f)"

definition frame_header :: "ipc_frame \<Rightarrow> byte list" where
  "frame_header f = text_bytes ''OMPG'' @ be_bytes 2 protocol_version @ be_bytes 2 (kind f)
     @ be_bytes 4 (session f) @ be_bytes 4 (generation f) @ be_bytes 4 (sequence f)
     @ be_bytes 4 (length (payload f))"

lemma length_frame_header [simp]: "length (frame_header f) = header_size"
  by (simp add: frame_header_def header_size_def)

lemma encode_frame_eq:
  assumes "valid_frame c bound f" "bound \<le> data_max"
  shows "encode_frame f = Inr (frame_header f @ payload f)"
proof -
  have "kind f \<le> 65535" using assms(1) by (cases c) (auto simp: valid_frame_def kind_defs)
  then show ?thesis using assms
    by (simp add: encode_frame_def encode_envelope_def valid_frame_def frame_header_def
        max_safe_integer_def)
qed

lemma frame_header_fields:
  assumes "valid_frame c bound f" "bound \<le> data_max"
  shows "slice 0 4 (frame_header f) = text_bytes ''OMPG''"
    "read16 (frame_header f) 4 = protocol_version" "read16 (frame_header f) 6 = kind f"
    "read32 (frame_header f) 8 = session f" "read32 (frame_header f) 12 = generation f"
    "read32 (frame_header f) 16 = sequence f" "read32 (frame_header f) 20 = length (payload f)"
proof -
  have b: "kind f < 65536" "session f < 4294967296" "generation f < 4294967296" "sequence f < 4294967296"
    "length (payload f) < 4294967296"
    using assms by (cases c; auto simp: valid_frame_def kind_defs data_max_def)+
  show "slice 0 4 (frame_header f) = text_bytes ''OMPG''"
    "read16 (frame_header f) 4 = protocol_version" "read16 (frame_header f) 6 = kind f"
    "read32 (frame_header f) 8 = session f" "read32 (frame_header f) 12 = generation f"
    "read32 (frame_header f) 16 = sequence f" "read32 (frame_header f) 20 = length (payload f)"
    using b by (simp_all add: frame_header_def slice_def read16_def read32_def be_value_be_bytes
        protocol_version_def)
qed

lemma parse_frame:
  assumes v: "valid_frame (channel d) (maximum d) f" "maximum d \<le> data_max" and h: "header d = []"
  shows "parse_step now (frame_header f @ payload f @ rest) d
    = Frame f rest (d\<lparr>header := [], expected := None, received := [], partial_at := None\<rparr>)"
proof -
  note F = frame_header_fields[OF v]
  have c: "check_header (channel d) (maximum d) (frame_header f) = Inr (length (payload f))"
    using v by (cases "channel d") (auto simp: check_header_def Let_def F valid_frame_def)
  have p: "parse_step now (frame_header f @ payload f @ rest) d =
      (case check_header (channel d) (maximum d) (frame_header f) of
        Inl e \<Rightarrow> Stop e ((stamp now d)\<lparr>header := frame_header f\<rparr>)
      | Inr len \<Rightarrow> body_step (drop (header_size - length (header d)) (frame_header f @ payload f @ rest))
          ((stamp now d)\<lparr>header := frame_header f, expected := Some len, received := []\<rparr>))"
    by (rule parse_step_header) (use h in \<open>auto simp: header_size_def\<close>)
  have len: "0 < length (payload f)" using v(1) by (simp add: valid_frame_def)
  have "body_step (payload f @ rest)
      ((stamp now d)\<lparr>header := frame_header f, expected := Some (length (payload f)), received := []\<rparr>)
    = Frame f rest (d\<lparr>header := [], expected := None, received := [], partial_at := None\<rparr>)"
    by (simp add: body_step_def Let_def F stamp_def)
  then show ?thesis unfolding p c using h by simp
qed

text \<open>The frames handed to the callback, collected.\<close>

definition collect :: "ipc_frame \<Rightarrow> ipc_frame list \<Rightarrow> unit result \<times> ipc_frame list" where
  "collect f fs = (Inr (), fs @ [f])"

lemma push_loop_stream:
  "\<forall>f\<in>set fs. valid_frame (channel d) (maximum d) f \<Longrightarrow> maximum d \<le> data_max \<Longrightarrow> header d = [] \<Longrightarrow>
   expected d = None \<Longrightarrow> received d = [] \<Longrightarrow>
   forget_result (push_loop now collect (concat (map (\<lambda>f. frame_header f @ payload f) fs)) d gs)
     = (Inr (), forget d, gs @ fs)"
proof (induction fs arbitrary: d gs)
  case Nil
  then show ?case by (simp add: forget_result_def)
next
  case (Cons f fs)
  let ?rest = "concat (map (\<lambda>f. frame_header f @ payload f) fs)"
  let ?d = "d\<lparr>header := [], expected := None, received := [], partial_at := None\<rparr>"
  have v: "valid_frame (channel d) (maximum d) f" using Cons.prems(1) by simp
  have p: "parse_step now (frame_header f @ payload f @ ?rest) d = Frame f ?rest ?d"
    by (rule parse_frame[OF v Cons.prems(2,3)])
  have ne: "frame_header f @ payload f @ ?rest \<noteq> []"
    using length_frame_header[of f] by (auto simp: header_size_def simp del: length_frame_header)
  have "push_loop now collect (frame_header f @ payload f @ ?rest) d gs = push_loop now collect ?rest ?d (gs @ [f])"
    using push_loop_Frame[where accept = collect and s = gs, OF ne p] by (simp add: collect_def)
  moreover have "forget_result (push_loop now collect ?rest ?d (gs @ [f])) = (Inr (), forget ?d, (gs @ [f]) @ fs)"
    using Cons.prems by (intro Cons.IH) auto
  moreover have "forget ?d = forget d" using Cons.prems by (simp add: forget_fields)
  ultimately show ?case by simp
qed

text \<open>A pipe: chunks with their times of arrival.\<close>

fun push_chunks ::
    "(ipc_frame \<Rightarrow> 's \<Rightarrow> unit result \<times> 's) \<Rightarrow> (int \<times> byte list) list \<Rightarrow> decoder \<Rightarrow> 's \<Rightarrow> unit result \<times> decoder \<times> 's" where
  "push_chunks accept [] d s = (Inr (), d, s)"
| "push_chunks accept ((t, c) # cs) d s =
     (case push t accept c d s of
        (Inl e, d', s') \<Rightarrow> (Inl e, d', s')
      | (Inr _, d', s') \<Rightarrow> push_chunks accept cs d' s')"

lemma parse_step_open: "\<not> decoder_ended d \<Longrightarrow> \<not> decoder_ended (step_decoder (parse_step now a d))"
  by (auto simp: parse_step_def body_step_def Let_def step_decoder_def split: option.split sum.split)

lemma push_loop_open: "\<not> decoder_ended d \<Longrightarrow> \<not> decoder_ended (fst (snd (push_loop now accept a d s)))"
proof (induction now accept a d s rule: push_loop.induct)
  case (1 now accept a d s)
  show ?case
  proof (cases "a = []")
    case True
    then show ?thesis using 1(3) by simp
  next
    case False
    note w = parse_step_open[OF 1(3), of now a]
    show ?thesis using 1(1)[OF False] 1(2)[OF False] False w
      by (subst push_loop.simps) (auto simp: step_decoder_def split: parse_step.split sum.split prod.split)
  qed
qed

lemma push_chunks_concat:
  "wf_decoder d \<Longrightarrow> \<not> decoder_ended d \<Longrightarrow>
   forget_result (push_chunks accept cs d s) = forget_result (push_loop now accept (concat (map snd cs)) d s)"
proof (induction cs arbitrary: d s)
  case Nil
  then show ?case by simp
next
  case (Cons tc cs)
  obtain t c where tc: "tc = (t, c)" by (cases tc)
  obtain r d' s' where p: "push_loop t accept c d s = (r, d', s')" by (metis prod_cases3)
  obtain r2 e' s2 where q: "push_loop now accept c d s = (r2, e', s2)" by (metis prod_cases3)
  have same: "r2 = r" "s2 = s'" "forget e' = forget d'"
    using push_loop_forget[OF refl, of t accept c d s now] p q by (auto simp: forget_result_def)
  have w: "wf_decoder d'" "\<not> decoder_ended d'" "wf_decoder e'"
    using push_loop_wf[OF Cons.prems(1), of t accept c s] push_loop_open[OF Cons.prems(2), of t accept c s]
      push_loop_wf[OF Cons.prems(1), of now accept c s] p q by auto
  show ?case
  proof (cases r)
    case (Inl e)
    then show ?thesis using p q same Cons.prems push_loop_append[OF Cons.prems(1), of now accept c "concat (map snd cs)" s]
      by (simp add: tc push_def then_push_def forget_result_def)
  next
    case (Inr u)
    have "forget_result (push_chunks accept cs d' s') = forget_result (push_loop now accept (concat (map snd cs)) d' s')"
      by (rule Cons.IH[OF w(1,2)])
    also have "\<dots> = forget_result (push_loop now accept (concat (map snd cs)) e' s')"
      by (rule push_loop_forget) (simp add: same)
    finally show ?thesis using p q same Inr Cons.prems push_loop_append[OF Cons.prems(1), of now accept c "concat (map snd cs)" s]
      by (simp add: tc push_def then_push_def)
  qed
qed

subsection \<open>Whatever arrives\<close>

text \<open>
  The bytes a decoder holds, the frames it has handed on and the input are the same stream; and
  a frame is handed on only after its header passed every check.
\<close>

definition held :: "decoder \<Rightarrow> byte list" where
  "held d = header d @ received d"

definition frame_bytes :: "ipc_frame \<Rightarrow> byte list" where
  "frame_bytes f = frame_header f @ payload f"

definition checked_decoder :: "decoder \<Rightarrow> bool" where
  "checked_decoder d \<longleftrightarrow> wf_decoder d
     \<and> (case expected d of None \<Rightarrow> length (header d) < header_size
        | Some len \<Rightarrow> check_header (channel d) (maximum d) (header d) = Inr len)"

lemma be_bytes_be_value: "be_bytes (length bs) (be_value bs) = bs"
proof (induction bs rule: rev_induct)
  case Nil
  then show ?case by simp
next
  case (snoc b bs)
  have "(be_value bs * 256 + unat b) div 256 = be_value bs" using unat_byte_less[of b] by simp
  moreover have "word_of_nat (be_value bs * 256 + unat b) = b"
    using unat_byte_less[of b] by (simp only: word_unat_eq_iff unat_of_nat) simp
  ultimately show ?case using snoc by (simp add: be_value_snoc)
qed

lemma be_bytes_slice: "i + n \<le> length h \<Longrightarrow> be_bytes n (be_value (slice i n h)) = slice i n h"
  using be_bytes_be_value[of "slice i n h"] by (simp add: slice_def)

lemma slice_split: "drop i h = slice i n h @ drop (n + i) h"
  by (simp add: slice_def) (metis append_take_drop_id drop_drop)

lemma header_of_checked:
  assumes "length h = header_size" "check_header c bound h = Inr (length p)"
  shows "frame_header \<lparr>kind = read16 h 6, session = read32 h 8, generation = read32 h 12,
    sequence = read32 h 16, payload = p\<rparr> = h"
proof -
  have l: "length h = 24" using assms(1) by (simp add: header_size_def)
  have m: "slice 0 4 h = text_bytes ''OMPG''" "be_value (slice 4 2 h) = protocol_version"
    and len: "length p = be_value (slice 20 4 h)"
    using assms(2) by (auto simp: check_header_def read16_def read32_def Let_def split: if_splits)
  have v: "be_bytes 2 protocol_version = slice 4 2 h" using be_bytes_slice[of 4 2 h] m(2) l by simp
  have h: "h = slice 0 4 h @ slice 4 2 h @ slice 6 2 h @ slice 8 4 h @ slice 12 4 h @ slice 16 4 h @ slice 20 4 h"
    using l slice_split[of 0 h 4] slice_split[of 4 h 2] slice_split[of 6 h 2] slice_split[of 8 h 4]
      slice_split[of 12 h 4] slice_split[of 16 h 4] slice_split[of 20 h 4] by simp
  have "frame_header \<lparr>kind = read16 h 6, session = read32 h 8, generation = read32 h 12,
      sequence = read32 h 16, payload = p\<rparr>
    = slice 0 4 h @ slice 4 2 h @ slice 6 2 h @ slice 8 4 h @ slice 12 4 h @ slice 16 4 h @ slice 20 4 h"
    using l by (simp add: frame_header_def v m(1)[symmetric] len read16_def read32_def be_bytes_slice)
  then show ?thesis by (rule trans[OF _ h[symmetric]])
qed

lemma checked_kind:
  assumes "length h = header_size" "check_header c bound h = Inr (length p)"
  shows "valid_frame c bound \<lparr>kind = read16 h 6, session = read32 h 8, generation = read32 h 12,
    sequence = read32 h 16, payload = p\<rparr>"
proof -
  have l: "length h = 24" using assms(1) by (simp add: header_size_def)
  have "read32 h i < 2 ^ 32" if "i + 4 \<le> 24" for i
    using be_value_bound[of "slice i 4 h"] that l by (simp add: read32_def slice_def)
  then show ?thesis using assms(2)
    by (cases c) (auto simp: valid_frame_def check_header_def Let_def split: if_splits)
qed

text \<open>What one step does to the stream.\<close>

definition step_sound :: "byte list \<Rightarrow> decoder \<Rightarrow> parse_step \<Rightarrow> bool" where
  "step_sound input d s \<longleftrightarrow> (case s of
       Stop e d' \<Rightarrow> True
     | More rest d' \<Rightarrow> held d' @ rest = input \<and> checked_decoder d'
         \<and> channel d' = channel d \<and> maximum d' = maximum d
     | Frame f rest d' \<Rightarrow> frame_bytes f @ rest = input \<and> held d' = [] \<and> checked_decoder d'
         \<and> valid_frame (channel d) (maximum d) f \<and> channel d' = channel d \<and> maximum d' = maximum d)"

lemma body_step_sound:
  assumes "checked_decoder d" "length (header d) = header_size"
  shows "step_sound (held d @ a) d (body_step a d)"
proof -
  obtain len where e: "expected d = Some len" "check_header (channel d) (maximum d) (header d) = Inr len"
    using assms by (auto simp: checked_decoder_def split: option.splits)
  have w: "length (received d) < len" "len \<le> maximum d" using assms e by (auto simp: checked_decoder_def wf_decoder_def)
  show ?thesis
  proof (cases "len - length (received d) \<le> length a")
    case True
    define p where "p = received d @ take (len - length (received d)) a"
    have lp: "length p = len" using True w by (simp add: p_def)
    have c: "check_header (channel d) (maximum d) (header d) = Inr (length p)" using e lp by simp
    let ?f = "\<lparr>kind = read16 (header d) 6, session = read32 (header d) 8, generation = read32 (header d) 12,
        sequence = read32 (header d) 16, payload = p\<rparr>"
    have b: "body_step a d = Frame ?f (drop (len - length (received d)) a)
        (d\<lparr>header := [], expected := None, received := [], partial_at := None\<rparr>)"
      using True e(1) lp by (simp add: body_step_def Let_def p_def)
    have "frame_bytes ?f @ drop (len - length (received d)) a = held d @ a"
      using header_of_checked[OF assms(2) c] by (simp add: frame_bytes_def held_def p_def)
    then show ?thesis using checked_kind[OF assms(2) c] unfolding b
      by (simp add: step_sound_def held_def checked_decoder_def wf_decoder_def header_size_def)
  next
    case False
    then have b: "body_step a d = More [] (d\<lparr>received := received d @ a\<rparr>)"
      using e(1) w by (simp add: body_step_def Let_def)
    show ?thesis using assms e w False unfolding b
      by (simp add: step_sound_def held_def checked_decoder_def wf_decoder_def)
  qed
qed

lemma step_sound_same: "step_sound i d' s \<Longrightarrow> channel d' = channel d \<Longrightarrow> maximum d' = maximum d \<Longrightarrow> step_sound i d s"
  by (simp add: step_sound_def split: parse_step.splits)

lemma parse_step_sound:
  assumes c: "checked_decoder d"
  shows "step_sound (held d @ a) d (parse_step now a d)"
proof -
  have w: "wf_decoder d" using c by (simp add: checked_decoder_def)
  from w show ?thesis
  proof (cases rule: parse_step_cases[where chunk = a])
    case short
    then show ?thesis using w wf_short[OF w]
      by (simp add: parse_step_short step_sound_def held_def checked_decoder_def wf_decoder_def)
  next
    case (complete h)
    show ?thesis
    proof (cases "check_header (channel d) (maximum d) h")
      case (Inl e)
      then show ?thesis by (simp add: parse_step_header[OF complete(1,2,3)] step_sound_def)
    next
      case (Inr len)
      let ?d = "(stamp now d)\<lparr>header := h, expected := Some len, received := []\<rparr>"
      have k: "checked_decoder ?d" using header_body_wf[OF w complete(4) Inr] Inr by (simp add: checked_decoder_def)
      have "held ?d @ drop (header_size - length (header d)) a = held d @ a"
        using complete(3) wf_short[OF w complete(1)] by (simp add: held_def)
      then show ?thesis using body_step_sound[OF k, of "drop (header_size - length (header d)) a"] complete(4) Inr
        by (auto simp: parse_step_header[OF complete(1,2,3)] intro: step_sound_same[where d' = ?d])
    qed
  next
    case body
    have "checked_decoder (stamp now d)" using c by (simp add: checked_decoder_def split: option.splits)
    moreover have "length (header d) = header_size" using body w by (simp add: wf_decoder_def)
    ultimately show ?thesis using body_step_sound[of "stamp now d" a] body
      by (auto simp: parse_step_body held_def intro: step_sound_same[where d' = "stamp now d"])
  qed
qed

lemma push_loop_sound:
  assumes "checked_decoder d" "push_loop now collect a d gs = (r, d', hs)"
  shows "\<exists>fs rest. hs = gs @ fs \<and> (\<forall>f\<in>set fs. valid_frame (channel d) (maximum d) f)
    \<and> held d @ a = concat (map frame_bytes fs) @ rest
    \<and> (r = Inr () \<longrightarrow> rest = held d' \<and> checked_decoder d')"
  using assms
proof (induction now "collect" a d gs arbitrary: r d' hs rule: push_loop.induct)
  case (1 now a d gs)
  show ?case
  proof (cases "a = []")
    case True
    then show ?thesis using 1(3,4) by auto
  next
    case a: False
    note S = parse_step_sound[OF 1(3), of a now]
    show ?thesis
    proof (cases "parse_step now a d")
      case (Stop e d1)
      then show ?thesis using 1(4) by (auto simp: push_loop_Stop[OF a])
    next
      case (More rest d1)
      with S have s: "held d1 @ rest = held d @ a" "checked_decoder d1" "channel d1 = channel d" "maximum d1 = maximum d"
        by (auto simp: step_sound_def)
      have "push_loop now collect rest d1 gs = (r, d', hs)" using 1(4) More by (simp add: push_loop_More[OF a])
      from 1(1)[OF a More s(2) this] show ?thesis using s by auto
    next
      case (Frame f rest d1)
      with S have s: "frame_bytes f @ rest = held d @ a" "held d1 = []" "checked_decoder d1"
        "valid_frame (channel d) (maximum d) f" "channel d1 = channel d" "maximum d1 = maximum d"
        by (auto simp: step_sound_def)
      have "push_loop now collect rest d1 (gs @ [f]) = (r, d', hs)" using 1(4) push_loop_Frame[where accept = collect and s = gs, OF a Frame]
        by (simp add: collect_def)
      from 1(2)[OF a Frame _ _ s(3) this] obtain fs rest' where "hs = (gs @ [f]) @ fs"
        "\<forall>f\<in>set fs. valid_frame (channel d1) (maximum d1) f"
        "held d1 @ rest = concat (map frame_bytes fs) @ rest'" "r = Inr () \<longrightarrow> rest' = held d' \<and> checked_decoder d'"
        by (auto simp: collect_def)
      then show ?thesis using s by (intro exI[of _ "f # fs"] exI[of _ rest']) auto
    qed
  qed
qed

subsection \<open>Properties of the pipe\<close>

lemma new_decoder_fields:
  "new_decoder c m = Inr d \<Longrightarrow> channel d = c \<and> held d = [] \<and> checked_decoder d \<and> expected d = None \<and> received d = []
     \<and> maximum d \<le> (case c of Control \<Rightarrow> control_max | Data \<Rightarrow> data_max)"
  by (auto simp: new_decoder_def Let_def bind_result_Inr_iff held_def checked_decoder_def wf_decoder_def header_size_def
      positive_integer_Inr split: channel.splits)

lemma new_decoder_max: "new_decoder c m = Inr d \<Longrightarrow> maximum d \<le> data_max"
  using new_decoder_fields[of c m d] by (auto simp: control_max_def data_max_def split: channel.splits)

lemma encode_frames_eq:
  "\<forall>f\<in>set fs. valid_frame c b f \<Longrightarrow> b \<le> data_max \<Longrightarrow> map_result encode_frame fs = Inr (map frame_bytes fs)"
  by (induction fs) (auto simp: encode_frame_eq frame_bytes_def)

lemma push_loop_frames:
  assumes "new_decoder c m = Inr d" "\<forall>f\<in>set fs. valid_frame c (maximum d) f"
  shows "forget_result (push_loop now collect (concat (map frame_bytes fs)) d []) = (Inr (), forget d, fs)"
proof -
  note n = new_decoder_fields[OF assms(1)] new_decoder_wf[OF assms(1)]
  have "forget_result (push_loop now collect (concat (map (\<lambda>f. frame_header f @ payload f) fs)) d []) = (Inr (), forget d, [] @ fs)"
    using n assms new_decoder_max[OF assms(1)] by (intro push_loop_stream) auto
  then show ?thesis by (simp add: frame_bytes_def[abs_def])
qed

lemma forget_result_cases:
  "forget_result x = (r, forget d, s) \<Longrightarrow> \<exists>d'. x = (r, d', s) \<and> forget d' = forget d"
  by (cases x) (auto simp: forget_result_def)

lemma forget_end: "forget d' = forget d \<Longrightarrow> fst (end_decoder d') = fst (end_decoder d)"
  by (simp add: end_decoder_def buffered_bytes_def Let_def forget_fields)

text \<open>
  C13: whatever frames the media process writes, and however the pipe cuts their bytes into
  chunks, the decoder hands exactly these frames on, in order, and its end is clean.
\<close>

theorem ipc_stream_decoded:
  assumes d: "new_decoder c m = Inr d" and v: "\<forall>f\<in>set fs. valid_frame c (maximum d) f"
    and e: "map_result encode_frame fs = Inr envelopes" and cs: "concat (map snd chunks) = concat envelopes"
  shows "\<exists>d'. push_chunks collect chunks d [] = (Inr (), d', fs) \<and> fst (end_decoder d') = Inr ()"
proof -
  have env: "envelopes = map frame_bytes fs" using encode_frames_eq[OF v new_decoder_max[OF d]] e by simp
  have "forget_result (push_chunks collect chunks d []) = forget_result (push_loop 0 collect (concat envelopes) d [])"
    using push_chunks_concat[where accept = collect and cs = chunks and s = "[]" and now = 0] new_decoder_wf[OF d] cs by simp
  also have "\<dots> = (Inr (), forget d, fs)" unfolding env by (rule push_loop_frames[OF d v])
  finally have "forget_result (push_chunks collect chunks d []) = (Inr (), forget d, fs)" .
  from forget_result_cases[OF this] obtain d' where
    p: "push_chunks collect chunks d [] = (Inr (), d', fs)" "forget d' = forget d" by auto
  have "fst (end_decoder d) = Inr ()" using new_decoder_fields[OF d] by (simp add: end_decoder_def buffered_bytes_def held_def)
  then show ?thesis using p forget_end[OF p(2)] by auto
qed

definition sample_frame :: ipc_frame where
  "sample_frame = \<lparr>kind = kind_ready, session = 7, generation = 1, sequence = 9, payload = [1, 2]\<rparr>"

theorem ipc_stream_decoded_witness:
  "\<exists>d d'. new_decoder Control None = Inr d
     \<and> push_chunks collect [(5, take 3 (frame_bytes sample_frame)), (6, drop 3 (frame_bytes sample_frame))] d []
         = (Inr (), d', [sample_frame]) \<and> fst (end_decoder d') = Inr ()"
proof -
  have "new_decoder Control None = Inr \<lparr>channel = Control, maximum = 65536, header = [], expected = None,
      received = [], partial_at = None, decoder_ended = False\<rparr>"
    by (simp add: new_decoder_def control_max_def max_safe_integer_def)
  then obtain d where d: "new_decoder Control None = Inr d" "maximum d = 65536" by fastforce
  have v: "valid_frame Control (maximum d) sample_frame"
    by (simp add: d valid_frame_def sample_frame_def kind_defs)
  have e: "map_result encode_frame [sample_frame] = Inr [frame_bytes sample_frame]"
    using encode_frames_eq[of "[sample_frame]" Control "maximum d"] v by (simp add: d(2) data_max_def)
  show ?thesis
    using ipc_stream_decoded[OF d(1) _ e, of "[(5, take 3 (frame_bytes sample_frame)), (6, drop 3 (frame_bytes sample_frame))]"]
      v d(1) by auto
qed

text \<open>
  When the pipe closes in the middle of an envelope, every complete frame before it has
  been handed on and the end of the stream is reported as a broken transport.
\<close>

theorem ipc_truncation_reported:
  assumes d: "new_decoder c m = Inr d" and v: "\<forall>f\<in>set (fs @ [g]). valid_frame c (maximum d) f"
    and cs: "concat (map snd chunks) = concat (map frame_bytes fs) @ take k (frame_bytes g)"
    and k: "0 < k" "k < length (frame_bytes g)"
  shows "\<exists>d'. push_chunks collect chunks d [] = (Inr (), d', fs)
     \<and> fst (end_decoder d') = Inl (OnvifError TransportError Unknown)"
proof -
  let ?a = "concat (map frame_bytes fs)" and ?b = "take k (frame_bytes g)" and ?c = "drop k (frame_bytes g)"
  have n: "wf_decoder d" "\<not> decoder_ended d" "checked_decoder d"
    using new_decoder_wf[OF d] new_decoder_fields[OF d] by auto
  obtain d0 where p0: "push_loop 0 collect ?a d [] = (Inr (), d0, fs)" "forget d0 = forget d"
    using forget_result_cases[OF push_loop_frames[OF d]] v by fastforce
  have h0: "held d0 = []" using new_decoder_fields[OF d] p0(2) by (simp add: held_def forget_fields)
  have c0: "checked_decoder d0" "wf_decoder d0" using push_loop_sound[OF n(3) p0(1)] by (auto simp: checked_decoder_def)
  obtain r d1 hs where p1: "push_loop 0 collect ?b d0 fs = (r, d1, hs)" by (metis prod_cases3)
  have "push_loop 0 collect (?a @ (?b @ ?c)) d [] = then_push 0 collect ?c (r, d1, hs)"
    using push_loop_append[OF n(1), of 0 collect ?a "?b @ ?c" "[]"] p0(1)
      push_loop_append[OF c0(2), of 0 collect ?b ?c fs] p1 by (simp add: then_push_def)
  moreover have "?a @ (?b @ ?c) = concat (map frame_bytes (fs @ [g]))" by simp
  ultimately have full: "forget_result (then_push 0 collect ?c (r, d1, hs)) = (Inr (), forget d, fs @ [g])"
    using push_loop_frames[OF d v, of 0] by simp
  then have r: "r = Inr ()" by (cases r) (auto simp: then_push_def forget_result_def)
  obtain fs' rest where s: "hs = fs @ fs'" "held d0 @ ?b = concat (map frame_bytes fs') @ rest"
    "rest = held d1" "checked_decoder d1" using push_loop_sound[OF c0(1) p1] r by auto
  obtain r2 d2 hs2 where p2: "push_loop 0 collect ?c d1 hs = (r2, d2, hs2)" by (metis prod_cases3)
  then obtain more where "hs2 = hs @ more" using push_loop_sound[OF s(4) p2] by auto
  moreover have "hs2 = fs @ [g]" using full p2 r by (simp add: then_push_def forget_result_def)
  ultimately have "fs' = [] \<or> fs' = [g]" using s(1) by (cases fs') (auto simp: append_eq_Cons_conv)
  moreover have "fs' \<noteq> [g]"
  proof
    assume "fs' = [g]"
    then have "length (held d0 @ ?b) \<ge> length (frame_bytes g)" using s(2) by simp
    then show False using k h0 by simp
  qed
  ultimately have fs': "hs = fs" "held d1 = ?b" using s h0 by auto
  have "forget_result (push_chunks collect chunks d []) = forget_result (push_loop 0 collect (?a @ ?b) d [])"
    using push_chunks_concat[OF n(1,2), where accept = collect and cs = chunks and s = "[]" and now = 0] cs by simp
  also have "push_loop 0 collect (?a @ ?b) d [] = (Inr (), d1, fs)"
    using push_loop_append[OF n(1), of 0 collect ?a ?b "[]"] p0(1) p1 r fs' by (simp add: then_push_def)
  finally have "forget_result (push_chunks collect chunks d []) = (Inr (), forget d1, fs)"
    by (simp add: forget_result_def)
  from forget_result_cases[OF this] obtain d' where
    d': "push_chunks collect chunks d [] = (Inr (), d', fs)" "forget d' = forget d1" by auto
  have "held d1 \<noteq> []" using fs'(2) k by (cases "frame_bytes g") auto
  then have "fst (end_decoder d1) = Inl (OnvifError TransportError Unknown)"
    by (simp add: end_decoder_def buffered_bytes_def held_def Let_def)
  then show ?thesis using d' forget_end[OF d'(2)] by auto
qed

theorem ipc_truncation_reported_witness:
  "\<exists>d d'. new_decoder Control None = Inr d
     \<and> push_chunks collect [(5, frame_bytes sample_frame), (6, take 25 (frame_bytes sample_frame))] d []
         = (Inr (), d', [sample_frame]) \<and> fst (end_decoder d') = Inl (OnvifError TransportError Unknown)"
proof -
  have "new_decoder Control None = Inr \<lparr>channel = Control, maximum = 65536, header = [], expected = None,
      received = [], partial_at = None, decoder_ended = False\<rparr>"
    by (simp add: new_decoder_def control_max_def max_safe_integer_def)
  then obtain d where d: "new_decoder Control None = Inr d" "maximum d = 65536" by fastforce
  have v: "valid_frame Control (maximum d) sample_frame"
    by (simp add: d valid_frame_def sample_frame_def kind_defs)
  have l: "length (frame_bytes sample_frame) = 26" by (simp add: frame_bytes_def header_size_def sample_frame_def)
  show ?thesis
    using ipc_truncation_reported[OF d(1), of "[sample_frame]" sample_frame
        "[(5, frame_bytes sample_frame), (6, take 25 (frame_bytes sample_frame))]" 25] v l d(1) by auto
qed

lemma push_loop_max: "maximum (fst (snd (push_loop now accept a d s))) = maximum d
    \<and> channel (fst (snd (push_loop now accept a d s))) = channel d"
proof (induction now accept a d s rule: push_loop.induct)
  case (1 now accept a d s)
  have step: "maximum (step_decoder (parse_step now a d)) = maximum d \<and> channel (step_decoder (parse_step now a d)) = channel d"
    by (auto simp: parse_step_def body_step_def Let_def step_decoder_def split: option.split sum.split)
  show ?case
  proof (cases "a = []")
    case True
    then show ?thesis by simp
  next
    case False
    show ?thesis using 1(1)[OF False] 1(2)[OF False] False step
      by (subst (1 2) push_loop.simps) (auto simp: step_decoder_def split: parse_step.split sum.split prod.split)
  qed
qed

lemma push_chunks_bounded:
  "wf_decoder d \<Longrightarrow> push_chunks accept cs d s = (r, d', s') \<Longrightarrow> wf_decoder d' \<and> maximum d' = maximum d"
proof (induction cs arbitrary: d s)
  case Nil
  then show ?case by simp
next
  case (Cons tc cs)
  obtain t c where tc: "tc = (t, c)" by (cases tc)
  obtain r1 d1 s1 where p: "push t accept c d s = (r1, d1, s1)" by (metis prod_cases3)
  have w: "wf_decoder d1 \<and> maximum d1 = maximum d"
    using push_loop_wf[OF Cons.prems(1), of t accept c s] push_loop_max[of t accept c d s] p Cons.prems(1)
    by (auto simp: push_def split: if_splits)
  show ?case using Cons.prems(2) Cons.IH[of d1 s1] w p by (cases r1) (auto simp: tc)
qed

text \<open>
  C38: whatever bytes arrive in whatever chunks, the decoder never holds more than one header
  and one payload of the configured size, and only frames whose header passed every check
  reach the callback; their encodings are the beginning of what arrived.
\<close>

theorem ipc_decoder_bounded:
  assumes d: "new_decoder c m = Inr d" and p: "push_chunks collect chunks d [] = (r, d', fs)"
  shows "buffered_bytes d' \<le> header_size + maximum d \<and> maximum d \<le> data_max
     \<and> (\<forall>f\<in>set fs. valid_frame c (maximum d) f)
     \<and> prefix (concat (map frame_bytes fs)) (concat (map snd chunks))"
proof -
  note n = new_decoder_wf[OF d] new_decoder_fields[OF d]
  have b: "buffered_bytes d' \<le> header_size + maximum d"
    using push_chunks_bounded[OF _ p] wf_buffered[of d'] n by simp
  obtain r0 d0 hs where l: "push_loop 0 collect (concat (map snd chunks)) d [] = (r0, d0, hs)" by (metis prod_cases3)
  have "fs = hs"
    using push_chunks_concat[where accept = collect and cs = chunks and s = "[]" and now = 0 and d = d] n p l
    by (simp add: forget_result_def)
  then show ?thesis using push_loop_sound[OF _ l] n b new_decoder_max[OF d] by (auto simp: prefix_def)
qed

theorem ipc_decoder_bounded_witness:
  "\<exists>d r d' fs. new_decoder Data (Some (Whole 8)) = Inr d \<and> push_chunks collect [(0, [79, 77])] d [] = (r, d', fs)
     \<and> buffered_bytes d' \<le> 32"
proof -
  have "new_decoder Data (Some (Whole 8)) = Inr \<lparr>channel = Data, maximum = 8, header = [], expected = None,
      received = [], partial_at = None, decoder_ended = False\<rparr>"
    by (simp add: new_decoder_def data_max_def max_safe_integer_def)
  then obtain d where d: "new_decoder Data (Some (Whole 8)) = Inr d" "maximum d = 8" by fastforce
  obtain r d' fs where p: "push_chunks collect [(0, [79, 77])] d [] = (r, d', fs)" by (metis prod_cases3)
  show ?thesis using ipc_decoder_bounded[OF d(1) p] d p by (auto simp: header_size_def)
qed

subsection \<open>Control messages\<close>

text \<open>\<open>json_at v d w\<close>: \<open>w\<close> is a node of \<open>v\<close>, \<open>d\<close> levels below its root.\<close>

inductive json_at :: "js \<Rightarrow> nat \<Rightarrow> js \<Rightarrow> bool" where
  at_root: "json_at v 0 v"
| at_child: "c \<in> set (json_children v) \<Longrightarrow> json_at c d w \<Longrightarrow> json_at v (Suc d) w"

definition walk_bounded :: "nat \<Rightarrow> js \<Rightarrow> bool" where
  "walk_bounded k v \<longleftrightarrow> (\<forall>d w. json_at v d w \<longrightarrow> k + d \<le> 128 \<and> json_number_finite w)"

lemma json_at_unfold:
  "json_at v d w \<Longrightarrow> d = 0 \<and> w = v \<or> (\<exists>c e. d = Suc e \<and> c \<in> set (json_children v) \<and> json_at c e w)"
  by (erule json_at.cases) blast+

lemma walk_boundedD: "walk_bounded k v \<Longrightarrow> json_at v d w \<Longrightarrow> k + d \<le> 128 \<and> json_number_finite w"
  unfolding walk_bounded_def by blast

lemma walk_bounded_step:
  "walk_bounded k v \<longleftrightarrow> k \<le> 128 \<and> json_number_finite v \<and> (\<forall>c\<in>set (json_children v). walk_bounded (Suc k) c)"
proof
  assume b: "walk_bounded k v"
  have "walk_bounded (Suc k) c" if "c \<in> set (json_children v)" for c
    using b at_child[OF that] unfolding walk_bounded_def by fastforce
  moreover have "k \<le> 128 \<and> json_number_finite v" using b at_root[of v] unfolding walk_bounded_def by fastforce
  ultimately show "k \<le> 128 \<and> json_number_finite v \<and> (\<forall>c\<in>set (json_children v). walk_bounded (Suc k) c)" by simp
next
  assume b: "k \<le> 128 \<and> json_number_finite v \<and> (\<forall>c\<in>set (json_children v). walk_bounded (Suc k) c)"
  show "walk_bounded k v" unfolding walk_bounded_def
  proof (intro allI impI)
    fix d w assume "json_at v d w"
    then consider "d = 0" "w = v"
      | c e where "d = Suc e" "c \<in> set (json_children v)" "json_at c e w" using json_at_unfold by blast
    then show "k + d \<le> 128 \<and> json_number_finite w"
    proof cases
      case 1
      with b show ?thesis by simp
    next
      case 2
      with b have "walk_bounded (Suc k) c" by simp
      from walk_boundedD[OF this 2(3)] show ?thesis by (simp add: 2(1))
    qed
  qed
qed

lemma json_weight_pos: "0 < json_weight v"
  by (subst json_weight_children) simp

lemma bounded_walk_iff:
  "n \<le> 20000 \<Longrightarrow> bounded_walk n stack =
    (if n + (\<Sum>(v, d)\<leftarrow>stack. json_weight v) \<le> 20000 \<and> (\<forall>(v, d)\<in>set stack. walk_bounded d v)
     then Inr () else raise InvalidValue)"
proof (induction n stack rule: bounded_walk.induct)
  case (1 nodes)
  then show ?case by simp
next
  case (2 nodes v depth stack)
  show ?case
  proof (cases "Suc nodes > 20000 \<or> depth > 128 \<or> \<not> json_number_finite v")
    case True
    then show ?thesis using json_weight_pos[of v] walk_bounded_step[of depth v] by auto
  next
    case False
    let ?s = "rev (map (\<lambda>c. (c, Suc depth)) (json_children v)) @ stack"
    have e: "bounded_walk nodes ((v, depth) # stack) = bounded_walk (Suc nodes) ?s" using False by simp
    have s: "Suc nodes + (\<Sum>(v, d)\<leftarrow>?s. json_weight v) = nodes + (\<Sum>(v, d)\<leftarrow>(v, depth) # stack. json_weight v)"
      using json_weight_children[of v]
        json_weights_pushed[where k = "Suc depth" and cs = "json_children v" and stack = stack] by simp
    have w: "(\<forall>(v, d)\<in>set ?s. walk_bounded d v) = (\<forall>(v, d)\<in>set ((v, depth) # stack). walk_bounded d v)"
      using False by (auto simp: walk_bounded_step[of depth v])
    show ?thesis unfolding e using 2(1)[OF False] False unfolding s w by simp
  qed
qed

text \<open>
  A control message is accepted exactly when its payload is a JSON object of at most
  20000 nodes, none of them more than 128 levels deep and every number of it finite; anything
  else is an invalid value, found without recursion.
\<close>

theorem decode_control_decides:
  "decode_control parse f =
    (case parse (payload f) of
       Some (JObj kvs) \<Rightarrow>
         if json_weight (JObj kvs) \<le> 20000 \<and> walk_bounded 0 (JObj kvs) then Inr kvs else raise InvalidValue
     | _ \<Rightarrow> raise InvalidValue)"
  by (auto simp: decode_control_def bounded_walk_iff split: option.split js.split simp del: bounded_walk.simps)

text \<open>
  A string written with its length is read back whole: the length field never wraps, and a
  text that could not be read back is refused.
\<close>

theorem ipc_string_roundtrip:
  assumes "ipc_string s bound = Inr bs"
  shows "read16 bs 0 = length s \<and> drop 2 bs = text_bytes s \<and> length s \<le> min bound 65535
     \<and> (ipc_string t bound = Inr bs \<longrightarrow> t = s)"
proof -
  have len: "length s \<le> min bound 65535" and bs: "bs = be_bytes 2 (length s) @ text_bytes s"
    using assms by (auto simp: ipc_string_def split: if_splits)
  have "read16 bs 0 = length s" using len by (simp add: bs read16_def slice_def be_value_be_bytes)
  moreover have "drop 2 bs = text_bytes s" by (simp add: bs)
  moreover have "t = s" if "ipc_string t bound = Inr bs"
  proof -
    have "bs = be_bytes 2 (length t) @ text_bytes t" using that by (auto simp: ipc_string_def split: if_splits)
    then show ?thesis using bs by (simp add: text_bytes_inj)
  qed
  ultimately show ?thesis using len by simp
qed

theorem ipc_string_roundtrip_witness:
  "\<exists>bs. ipc_string ''abc'' 16 = Inr bs \<and> read16 bs 0 = 3 \<and> drop 2 bs = [97, 98, 99]"
proof -
  have e: "ipc_string ''abc'' 16 = Inr (be_bytes 2 3 @ text_bytes ''abc'')" by (simp add: ipc_string_def numeral_3_eq_3)
  have l: "length ''abc'' = 3" by simp
  have t: "text_bytes ''abc'' = [97, 98, 99]" by (simp add: text_bytes_def)
  note r = ipc_string_roundtrip[OF e, of "''abc''"]
  show ?thesis by (intro exI conjI, rule e) (use r l t in simp_all)
qed

end
