(* ===== verification/Media_Session_Laws.thy ===== *)
theory Media_Session_Laws
  imports Media_Session_Frame Media_Ipc_Laws
begin

section \<open>The laws of a session, event by event\<close>

text \<open>
  A law of the session is a relation \<open>R\<close> between the state before and after any event. What the
  handlers promise when they raise is the weaker \<open>W\<close>: the callbacks catch the error and call
  \<open>fail\<close>, which has to repair \<open>R\<close>. The locale derives the law for every event, and for every run,
  from the handlers; it is interpreted below for the life cycle of the session and, in
  \<open>Media_Session_Credits\<close>, for its credit accounting.
\<close>

definition minor :: "native_session \<Rightarrow> native_session \<Rightarrow> bool" where
  "minor s t \<longleftrightarrow>
     t = s\<lparr>control_decoder := control_decoder t, data_decoder := data_decoder t, deferred := deferred t,
           uncaught := uncaught t, stderr_count := stderr_count t, credit_writing := credit_writing t,
           awaiting_secrets := awaiting_secrets t, signal_aborted := signal_aborted t, open_timer := open_timer t\<rparr>
     \<and> (open_timer t \<longrightarrow> open_timer s) \<and> (awaiting_secrets t \<longrightarrow> awaiting_secrets s)"

lemma minor_updates [simp, intro]:
  "minor s (s\<lparr>control_decoder := d\<rparr>)" "minor s (s\<lparr>data_decoder := d\<rparr>)" "minor s (s\<lparr>deferred := es\<rparr>)"
  "minor s (s\<lparr>uncaught := es\<rparr>)" "minor s (s\<lparr>stderr_count := n\<rparr>)" "minor s (s\<lparr>credit_writing := b\<rparr>)"
  "minor s (s\<lparr>awaiting_secrets := False\<rparr>)" "minor s (s\<lparr>signal_aborted := b\<rparr>)" "minor s (s\<lparr>open_timer := False\<rparr>)"
  by (simp_all add: minor_def)

definition lawful ::
    "(native_session \<Rightarrow> native_session \<Rightarrow> bool) \<Rightarrow> (native_session \<Rightarrow> native_session \<Rightarrow> bool)
      \<Rightarrow> native_session \<Rightarrow> unit result \<times> native_session \<Rightarrow> bool" where
  "lawful R W s p = (case fst p of Inl e \<Rightarrow> W s (snd p) | Inr _ \<Rightarrow> R s (snd p))"

locale session_law =
  fixes R W :: "native_session \<Rightarrow> native_session \<Rightarrow> bool"
    and parse :: "byte list \<Rightarrow> js option"
    and decode :: "byte list \<Rightarrow> js result"
  assumes trans: "R s t \<Longrightarrow> R t u \<Longrightarrow> R s u"
    and weak: "R s t \<Longrightarrow> W s t"
    and weak_trans: "R s t \<Longrightarrow> W t u \<Longrightarrow> W s u"
    and minor: "minor s t \<Longrightarrow> R s t"
    and weak_minor: "W s t \<Longrightarrow> minor t u \<Longrightarrow> W s u"
    and repair: "W s t \<Longrightarrow> R s (snd (fail e t))"
    and diagnosed: "R s (diagnostic d s)"
    and frame_data: "lawful R W s (data_frame decode f s)"
    and frame_control: "lawful R W s (control_frame parse decode now f s)"
    and credits: "lawful R W s (flush_credits s)"
    and opened: "awaiting_secrets s \<Longrightarrow> lawful R W s (continue_open (s\<lparr>awaiting_secrets := False\<rparr>))"
    and closed: "R s (snd (begin_close s))"
    and exit: "R s (snd (exited x s))"
    and deadline: "R s (close_deadline b s)" "R s (kill_deadline s)"
    and owner: "k \<in> {kind_play, kind_pause, kind_seek} \<Longrightarrow> R s (snd (command k range_arg s))" "R s (snd (frames s))" "R s (consume stream op s)"
    and backchannel: "R s (backchannel_write v s)" "R s (backchannel_transmitted r s)"
      "R s (backchannel_paced s)" "R s (backchannel_end s)"
begin

lemma refl: "R s s" by (rule minor) (simp add: minor_def)

lemma escaped: "R s (snd p) \<Longrightarrow> R s (escape p)"
  by (cases p) (auto simp: escape_def split: sum.split intro: trans[OF _ minor])

lemma failed: "R s (escape (fail e s))" by (rule escaped) (rule repair[OF weak[OF refl]])

lemma failed_minor: "minor s t \<Longrightarrow> R s (escape (fail e t))"
  by (rule trans[OF minor failed])

lemma guard: "lawful R W s p \<Longrightarrow> R s (guarded x p)"
  by (cases p) (auto simp: guarded_def lawful_def split: sum.splits intro: escaped repair)

lemma lawful_trans: "R s t \<Longrightarrow> lawful R W t p \<Longrightarrow> lawful R W s p"
  by (auto simp: lawful_def split: sum.splits intro: trans weak_trans)

lemma lawful_minor: "lawful R W s (r, t) \<Longrightarrow> minor t u \<Longrightarrow> lawful R W s (r, u)"
  by (auto simp: lawful_def split: sum.splits intro: trans[OF _ minor] weak_minor)

lemma pushed_loop:
  assumes "\<And>f s. lawful R W s (accept f s)" and "push_loop now accept chunk d s = (r, d', t)"
  shows "lawful R W s (r, t)"
  using assms
proof (induction now accept chunk d s rule: push_loop.induct)
  case (1 now accept chunk d s)
  show ?case
  proof (cases "chunk = []")
    case True
    then show ?thesis using 1(4) refl by (auto simp: lawful_def)
  next
    case False
    show ?thesis
    proof (cases "parse_step now chunk d")
      case (Stop e d1)
      then show ?thesis using 1 False weak[OF refl] by (auto simp: push_loop_Stop lawful_def)
    next
      case (More rest d1)
      then show ?thesis using 1 False by (auto simp: push_loop_More)
    next
      case (Frame f rest d1)
      obtain r1 s1 where a: "accept f s = (r1, s1)" by (cases "accept f s")
      have l: "lawful R W s (r1, s1)" using 1(3)[of s f] a by simp
      show ?thesis
      proof (cases r1)
        case (Inl e)
        then show ?thesis using 1 False Frame a l by (auto simp: push_loop_Frame)
      next
        case (Inr u)
        then have "push_loop now accept rest d1 s1 = (r, d', t)" using 1 False Frame a by (simp add: push_loop_Frame)
        then have "lawful R W s1 (r, t)" using 1(2)[OF False Frame a[symmetric] Inr 1(3)] by blast
        moreover have "R s s1" using l Inr by (simp add: lawful_def)
        ultimately show ?thesis by (rule lawful_trans[rotated])
      qed
    qed
  qed
qed

lemma pushed:
  assumes "\<And>f s. lawful R W s (accept f s)" and "push now accept chunk d s = (r, d', t)"
  shows "lawful R W s (r, t)"
  using assms pushed_loop[of accept now chunk d s r d' t] weak[OF refl]
  by (auto simp: push_def lawful_def split: if_splits)

lemma deferred_run: "R s (run_deferred s)"
proof -
  have "R s (fold open_failed es s)" for es s
    by (induction es arbitrary: s) (auto simp: open_failed_def intro: refl trans[OF failed])
  then show ?thesis using trans[OF minor, of s "s\<lparr>deferred := []\<rparr>"] by (simp add: run_deferred_def)
qed

lemma control_chunk_law: "R s (control_chunk parse decode now bs s)"
proof -
  obtain r d s1 where p: "push now (control_frame parse decode now) bs (control_decoder s) s = (r, d, s1)"
    by (metis prod.exhaust)
  have "R s (guarded Unknown (r, s1\<lparr>control_decoder := d\<rparr>))"
    by (rule guard[OF lawful_minor[OF pushed[OF frame_control p]]]) simp
  then show ?thesis by (simp add: control_chunk_def p trans[OF _ deferred_run])
qed

lemma data_chunk_law: "R s (data_chunk decode now bs s)"
proof -
  obtain r d s1 where p: "push now (data_frame decode) bs (data_decoder s) s = (r, d, s1)"
    by (metis prod.exhaust)
  have "R s (guarded Unknown (r, s1\<lparr>data_decoder := d\<rparr>))"
    by (rule guard[OF lawful_minor[OF pushed[OF frame_data p]]]) simp
  then show ?thesis by (simp add: data_chunk_def p)
qed

lemma lawful_fail: "minor s t \<Longrightarrow> lawful R W s (fail e t)"
  using repair[OF weak[OF minor], of s t e] weak by (simp add: lawful_def split: sum.split)

lemma lawful_same: "minor s t \<Longrightarrow> lawful R W s (r, t)"
  using minor[of s t] weak by (simp add: lawful_def split: sum.split)

lemma end_law: "R s (control_end s)" "R s (data_end s)"
  by (auto simp: control_end_def data_end_def split_beta Let_def split: sum.split
      intro!: guard lawful_fail lawful_same)

lemma stderr_law: "R s (stderr_chunk n s)"
proof -
  define s1 where "s1 = (if stderr_count s = 0
    then diagnostic (diagnose NativeDiagnostic ''NativeStderrReceived'' None None) s else s)"
  define s2 where "s2 = s1\<lparr>stderr_count := stderr_count s1 + n\<rparr>"
  have "R s s1" using diagnosed refl by (simp add: s1_def)
  then have "R s s2" unfolding s2_def by (rule trans[OF _ minor]) simp
  then show ?thesis using trans[OF _ failed] by (simp add: stderr_chunk_def Let_def flip: s1_def s2_def)
qed

lemma watchdog_law: "R s (watchdog_tick now s)"
proof -
  define s1 where "s1 = (if partial_overdue now s (control_decoder s) \<or> partial_overdue now s (data_decoder s)
    then escape (fail (OnvifError TransportError Unknown) s) else s)"
  define s2 where "s2 = (if (case ending s1 of Some e \<Rightarrow> \<not> end_complete e
      \<and> now - observed_at e > control_timeout_ms (session_limits s1) | None \<Rightarrow> False)
    then escape (fail (OnvifError TransportError Unknown) s1) else s1)"
  have "R s s1" "R s1 s2" using failed refl by (simp_all add: s1_def s2_def)
  then have "R s (guarded Unknown (flush_credits s2))" using trans guard[OF credits] by blast
  then show ?thesis using refl by (simp add: watchdog_tick_def Let_def flip: s1_def s2_def)
qed

lemma written_law: "R s (secrets_written r s)" "R s (open_write_failed e s)" "R s (control_write_failed n e s)"
  "R s (credit_written r s)" "R s (close_write_failed e s)"
proof -
  have "R s (case continue_open (s\<lparr>awaiting_secrets := False\<rparr>) of (Inl e, s2) \<Rightarrow> open_failed e s2 | (Inr _, s2) \<Rightarrow> s2)"
    if "awaiting_secrets s"
    using opened[OF that]
    by (cases "continue_open (s\<lparr>awaiting_secrets := False\<rparr>)")
      (auto simp: lawful_def open_failed_def split: sum.splits intro: escaped repair)
  then show "R s (secrets_written r s)"
    by (auto simp: secrets_written_def Let_def open_failed_def refl split: sum.split intro: failed_minor)
  show "R s (open_write_failed e s)" "R s (control_write_failed n e s)"
    "R s (credit_written r s)" "R s (close_write_failed e s)"
    by (auto simp: open_write_failed_def open_failed_def control_write_failed_def credit_written_def close_write_failed_def
        Let_def refl split: sum.split option.split intro: failed failed_minor minor)
qed

lemma timer_law: "R s (open_deadline s)" "R s (control_deadline n s)" "R s (abort s)" "R s (input_failed s)"
  by (auto simp: open_deadline_def control_deadline_def abort_def input_failed_def refl split: option.split
      intro: failed failed_minor)

theorem step: "R s (session_step parse decode ev s)"
  by (cases ev) (auto simp: reader_failed_def intro: control_chunk_law data_chunk_law end_law stderr_law watchdog_law written_law
      timer_law failed escaped exit closed deadline owner backchannel diagnosed)

theorem run: "R s (fold (session_step parse decode) evs s)"
  by (induction evs arbitrary: s) (auto intro: refl trans[OF step])

end

end
