(* ===== verification/Media_Policy_Laws.thy ===== *)
theory Media_Policy_Laws
  imports Media_Policy
begin

section \<open>Correctness of the media policy\<close>

text \<open>
  A validated trust policy is closed (its redirects and exact targets lie in its origins), an
  authorized target lies inside the policy, credentials never leave their scope, limits stay in
  their documented ranges and the masks sent to the native process say what was requested.
\<close>

subsection \<open>URIs\<close>

lemma native_media_url_Inr:
  "native_media_url parse_url v = Inr (u, origin) \<Longrightarrow>
   \<exists>s. v = JStr s \<and> parse_url s = Some u \<and> origin = url_origin u
     \<and> url_protocol u \<in> {''rtsp:'', ''rtsps:''} \<and> url_username u = [] \<and> url_password u = []
     \<and> url_hash u = [] \<and> url_hostname u \<noteq> [] \<and> url_port u \<noteq> [] \<and> length s \<le> 2048"
  by (cases v) (auto split: if_splits option.splits)

subsection \<open>Trust\<close>

definition trust_closed :: "(string \<Rightarrow> url_parts option) \<Rightarrow> media_trust \<Rightarrow> bool" where
  "trust_closed parse_url t \<longleftrightarrow>
     allowed_origins t \<noteq> [] \<and> distinct (allowed_origins t) \<and> length (allowed_origins t) \<le> 16
     \<and> (\<forall>x\<in>set (allowed_origins t). \<exists>u. native_media_url parse_url (JStr x) = Inr (u, x))
     \<and> set (allowed_redirect_origins t) \<subseteq> set (allowed_origins t)
     \<and> (\<forall>ts. allowed_targets t = Some ts \<longrightarrow> ts \<noteq> [] \<and> distinct ts \<and>
          (\<forall>x\<in>set ts. \<exists>u. native_media_url parse_url (JStr x) = Inr (u, url_origin u) \<and> url_origin u \<in> set (allowed_origins t)))
     \<and> trust_transports t \<noteq> [] \<and> distinct (trust_transports t) \<and> service_targets t \<noteq> []
     \<and> \<not> (is_digest (trust_authentication t) \<and> (\<exists>a. tunnel_authentication t = Some a \<and> is_digest a
            \<and> legacy_md5 (trust_authentication t) \<noteq> legacy_md5 a))"

lemma check_origin_Inr: "check_origin parse_url e = Inr x \<Longrightarrow> e = JStr x \<and> (\<exists>u. native_media_url parse_url (JStr x) = Inr (u, x))"
  by (auto simp: check_origin_def bind_result_Inr_iff split: if_splits)

lemma check_redirect_Inr: "check_redirect origins e = Inr x \<Longrightarrow> x \<in> set origins"
  by (auto simp: check_redirect_def split: js.splits if_splits)

lemma check_target_Inr:
  "check_target parse_url origins e = Inr x \<Longrightarrow>
   \<exists>u. native_media_url parse_url (JStr x) = Inr (u, url_origin u) \<and> url_origin u \<in> set origins"
proof -
  assume a: "check_target parse_url origins e = Inr x"
  then obtain u origin where n: "native_media_url parse_url e = Inr (u, origin)" "origin \<in> set origins" "e = JStr x"
    by (auto simp: check_target_def bind_result_Inr_iff simp del: native_media_url.simps split: js.splits if_splits)
  from native_media_url_Inr[OF n(1)] n show ?thesis by blast
qed

lemma redirect_list_Inr: "redirect_list origins v = Inr xs \<Longrightarrow> set xs \<subseteq> set origins"
  using allow_list_Inr[of v 16 "check_redirect origins" xs] check_redirect_Inr[of origins]
  by (cases v) (auto simp: redirect_list_def split: if_splits)

lemma validate_media_trust_Inr:
  assumes "validate_media_trust parse_url v = Inr t"
  shows "allow_list (get v ''allowedOrigins'') 16 (check_origin parse_url) = Inr (allowed_origins t)"
    "redirect_list (allowed_origins t) (get v ''allowedRedirectOrigins'') = Inr (allowed_redirect_origins t)"
    "optional (\<lambda>ts. allow_list ts 256 (check_target parse_url (allowed_origins t)))
       (defined (get v ''allowedTargets'')) = Inr (allowed_targets t)"
    "allow_list (get v ''serviceTargets'') 64 (media_service_target parse_url) = Inr (service_targets t)"
    "allow_list (get v ''transports'') 5 check_transport = Inr (trust_transports t)"
    "authentication (get v ''authentication'') = Inr (trust_authentication t)"
    "optional authentication (defined (get v ''tunnelAuthentication'')) = Inr (tunnel_authentication t)"
    "is_digest (trust_authentication t) \<Longrightarrow> tunnel_authentication t = Some a \<Longrightarrow> is_digest a \<Longrightarrow>
       legacy_md5 (trust_authentication t) = legacy_md5 a"
  using assms by (auto simp: validate_media_trust_def bind_result_Inr_iff split: if_splits)

text \<open>
  A validated trust policy is closed: its origins are exact origins of native URIs with an
  explicit port, every redirect origin and the origin of every exact target is one of them, no
  entry repeats, and both authentication layers agree on legacy MD5.
\<close>

theorem trust_validated_closed:
  assumes "validate_media_trust parse_url v = Inr t"
  shows "trust_closed parse_url t"
proof -
  note f = validate_media_trust_Inr[OF assms]
  have o: "allowed_origins t \<noteq> [] \<and> distinct (allowed_origins t) \<and> length (allowed_origins t) \<le> 16"
    "\<forall>x\<in>set (allowed_origins t). \<exists>u. native_media_url parse_url (JStr x) = Inr (u, x)"
    using allow_list_Inr[OF f(1)] check_origin_Inr by blast+
  have ts: "ts \<noteq> [] \<and> distinct ts \<and> (\<forall>x\<in>set ts. \<exists>u. native_media_url parse_url (JStr x) = Inr (u, url_origin u)
      \<and> url_origin u \<in> set (allowed_origins t))" if tt: "allowed_targets t = Some ts" for ts
  proof -
    obtain w where "allow_list w 256 (check_target parse_url (allowed_origins t)) = Inr ts"
      using f(3)[unfolded tt] by (auto simp: optional_def bind_result_Inr_iff split: option.splits)
    from allow_list_Inr[OF this] check_target_Inr show ?thesis by blast
  qed
  show ?thesis unfolding trust_closed_def
    using o ts redirect_list_Inr[OF f(2)] allow_list_Inr[OF f(4)] allow_list_Inr[OF f(5)] f(8) by auto
qed

definition sample_url :: "string \<Rightarrow> url_parts option" where
  "sample_url s =
     (if s = ''rtsp://cam:554'' \<or> s = ''rtsp://cam:554/live'' then
        Some \<lparr>url_protocol = ''rtsp:'', url_username = [], url_password = [], url_hostname = ''cam'',
              url_port = ''554'', url_hash = [], url_href = s\<rparr>
      else if s = ''http://cam/media'' then
        Some \<lparr>url_protocol = ''http:'', url_username = [], url_password = [], url_hostname = ''cam'',
              url_port = [], url_hash = [], url_href = s\<rparr>
      else None)"

definition sample_trust :: js where
  "sample_trust = JObj
     [(''serviceTargets'', JArr [JStr ''http://cam/media'']),
      (''allowedOrigins'', JArr [JStr ''rtsp://cam:554'']),
      (''allowedTargets'', JArr [JStr ''rtsp://cam:554/live'']),
      (''transports'', JArr [JStr ''tcp-interleaved'', JStr ''http-tunnel'']),
      (''authentication'', JObj [(''kind'', JStr ''digest''), (''realm'', JStr ''r'')])]"

lemma sample_trust_valid:
  "validate_media_trust sample_url sample_trust = Inr
    \<lparr>service_targets = [''http://cam/media''], allowed_origins = [''rtsp://cam:554''],
     allowed_redirect_origins = [], allowed_targets = Some [''rtsp://cam:554/live''],
     trust_transports = [TcpInterleaved, HttpTunnel], trust_authentication = Digest ''r'' None,
     tunnel_authentication = None\<rparr>"
  by code_simp

theorem trust_validated_closed_witness:
  "\<exists>t. validate_media_trust sample_url sample_trust = Inr t \<and> trust_closed sample_url t"
  using trust_validated_closed[OF sample_trust_valid] sample_trust_valid by blast

text \<open>
  C16: a target that is authorized lies inside the policy: its origin and its transport are on
  their allowlists, an exact-target list contains it, TLS is used exactly for rtsps, the tunnel
  origin exists exactly for the tunnel transports and names the same host and port, and tunnel
  credentials are never configured for a transport without a tunnel.
\<close>

theorem target_authorized_inside_trust:
  assumes "authorize_media_target parse_url uri transport trust = Inr r"
  shows "\<exists>u. parse_url uri = Some u \<and> target_origin r = url_origin u
     \<and> target_origin r \<in> set (allowed_origins trust) \<and> transport \<in> set (trust_transports trust)
     \<and> (\<forall>ts. allowed_targets trust = Some ts \<longrightarrow> uri \<in> set ts)
     \<and> (transport = TlsInterleaved \<longleftrightarrow> url_protocol u = ''rtsps:'')
     \<and> url_username u = [] \<and> url_password u = [] \<and> url_port u \<noteq> []
     \<and> target_tunnel_origin r =
         (if transport = HttpTunnel then Some (''http://'' @ url_hostname u @ '':'' @ url_port u)
          else if transport = HttpsTunnel then Some (''https://'' @ url_hostname u @ '':'' @ url_port u) else None)
     \<and> (target_tunnel_origin r = None \<longrightarrow> (\<forall>a. tunnel_authentication trust = Some a \<longrightarrow> \<not> is_digest a))"
proof -
  obtain u origin where n: "native_media_url parse_url (JStr uri) = Inr (u, origin)"
    using assms by (auto simp: authorize_media_target_def bind_result_Inr_iff)
  show ?thesis using native_media_url_Inr[OF n] assms
    unfolding authorize_media_target_def n
    by (cases transport) (auto split: if_splits option.splits)
qed

theorem target_authorized_inside_trust_witness:
  "\<exists>t r. validate_media_trust sample_url sample_trust = Inr t
    \<and> authorize_media_target sample_url ''rtsp://cam:554/live'' HttpTunnel t = Inr r
    \<and> target_tunnel_origin r = Some ''http://cam:554''"
proof -
  obtain t where t: "validate_media_trust sample_url sample_trust = Inr t"
    "allowed_origins t = [''rtsp://cam:554'']" "allowed_targets t = Some [''rtsp://cam:554/live'']"
    "trust_transports t = [TcpInterleaved, HttpTunnel]" "tunnel_authentication t = None"
    using sample_trust_valid by simp
  have n: "native_media_url sample_url (JStr ''rtsp://cam:554/live'')
      = Inr (the (sample_url ''rtsp://cam:554/live''), ''rtsp://cam:554'')" by code_simp
  have u: "sample_url ''rtsp://cam:554/live'' = Some \<lparr>url_protocol = ''rtsp:'', url_username = [], url_password = [],
      url_hostname = ''cam'', url_port = ''554'', url_hash = [], url_href = ''rtsp://cam:554/live''\<rparr>" by code_simp
  have a: "authorize_media_target sample_url ''rtsp://cam:554/live'' HttpTunnel t
      = Inr \<lparr>target_origin = ''rtsp://cam:554'', target_tunnel_origin = Some ''http://cam:554''\<rparr>"
    by (simp add: authorize_media_target_def n t u del: native_media_url.simps)
  from target_authorized_inside_trust[OF a] show ?thesis using t(1) a by (auto simp: u)
qed
subsection \<open>Credentials\<close>

definition credential_matches :: "media_security_scope \<Rightarrow> string \<Rightarrow> media_authentication \<Rightarrow> scoped_password option \<Rightarrow> bool" where
  "credential_matches scope origin auth c \<longleftrightarrow>
     (case c of None \<Rightarrow> auth = NoAuthentication
      | Some p \<Rightarrow> is_digest auth \<and> cred_origin p = origin \<and> cred_principal p = scope_principal scope
          \<and> cred_realm p = auth_realm auth \<and> cred_username p \<noteq> [] \<and> length (cred_username p) \<le> 1024
          \<and> length (cred_password p) \<le> 1024)"

lemma media_text_Inr:
  "media_text v m e = Inr s \<longleftrightarrow> v = JStr s \<and> (e \<or> s \<noteq> []) \<and> \<not> has_control_char s \<and> length s \<le> m \<and> \<not> has_lone_surrogate s"
  by (cases v) auto

lemma scoped_credential_Inr:
  "scoped_credential v scope origin auth = Inr c \<Longrightarrow> credential_matches scope origin auth c"
  by (cases auth) (auto simp: scoped_credential_def credential_matches_def bind_result_Inr_iff media_text_Inr split: if_splits)

text \<open>
  Accepted credentials never leave their scope: the material names the Thing, target,
  principal and origin that were asked for, the native password is for exactly the origin and
  realm of the native scope and present exactly when it uses Digest, and the tunnel password
  is for the tunnel's origin and realm and present exactly when the tunnel uses Digest.
\<close>

theorem credentials_stay_in_scope:
  assumes "validate_media_security scope v = Inr m"
  shows "material_thing m = scope_thing scope \<and> material_target m = scope_target scope
     \<and> material_principal m = scope_principal scope \<and> material_origin m = scope_origin scope
     \<and> get v ''thingId'' = JStr (scope_thing scope) \<and> get v ''origin'' = JStr (scope_origin scope)
     \<and> credential_matches scope (scope_origin scope) (scope_authentication scope) (material_native m)
     \<and> credential_matches scope (case scope_tunnel_origin scope of None \<Rightarrow> [] | Some t \<Rightarrow> t)
         (case scope_tunnel_authentication scope of None \<Rightarrow> NoAuthentication | Some a \<Rightarrow> a) (material_tunnel m)"
  using assms by (auto simp: validate_media_security_def bind_result_Inr_iff split: if_splits dest!: scoped_credential_Inr)

definition sample_scope :: media_security_scope where
  "sample_scope = \<lparr>scope_thing = ''t'', scope_target = ''r'', scope_principal = ''p'',
     scope_service = ''http://cam/media'', scope_uri = ''rtsp://cam:554/live'', scope_origin = ''rtsp://cam:554'',
     scope_transport = TcpInterleaved, scope_tunnel_origin = None, scope_authentication = Digest ''realm'' None, scope_tunnel_authentication = None\<rparr>"

definition sample_material :: js where
  "sample_material = JObj [(''thingId'', JStr ''t''), (''targetRef'', JStr ''r''), (''principal'', JStr ''p''),
     (''origin'', JStr ''rtsp://cam:554''),
     (''native'', JObj [(''origin'', JStr ''rtsp://cam:554''), (''principal'', JStr ''p''), (''realm'', JStr ''realm''),
        (''username'', JStr ''u''), (''password'', JStr ''x'')])]"

theorem credentials_stay_in_scope_witness:
  "\<exists>m. validate_media_security sample_scope sample_material = Inr m \<and> material_tunnel m = None
     \<and> (\<exists>p. material_native m = Some p \<and> cred_origin p = ''rtsp://cam:554'')"
proof -
  have m: "validate_media_security sample_scope sample_material = Inr
    \<lparr>material_thing = ''t'', material_target = ''r'', material_principal = ''p'', material_origin = ''rtsp://cam:554'',
     material_native = Some \<lparr>cred_origin = ''rtsp://cam:554'', cred_principal = ''p'', cred_realm = ''realm'',
       cred_username = ''u'', cred_password = ''x''\<rparr>, material_tunnel = None, material_ca = None\<rparr>"
    by code_simp
  from credentials_stay_in_scope[OF m] m show ?thesis by (auto simp: credential_matches_def)
qed

subsection \<open>Limits\<close>

lemma limit_value_Inr:
  "limit_value v (k, d, m) = Inr n \<Longrightarrow> 0 < n \<and> n \<le> m \<and> (k \<notin> set (own_keys v) \<longrightarrow> n = d)"
  by (auto simp: limit_value_def positive_integer_js_Inr split: if_splits)

lemma map_result_nth: "map_result f xs = Inr ys \<Longrightarrow> i < length xs \<Longrightarrow> f (xs ! i) = Inr (ys ! i)"
  using map_result_Inr[of f xs ys] by (simp add: list_all2_conv_all_nth)

definition in_range :: "int \<Rightarrow> int \<Rightarrow> int \<Rightarrow> bool" where
  "in_range lo hi n \<longleftrightarrow> lo \<le> n \<and> n \<le> hi"

lemma media_limits_of_Inr:
  assumes "media_limits_of v = Inr l"
  shows "\<exists>ns. map_result (limit_value (if v = JUndefined then JObj [] else v)) limit_table = Inr ns
    \<and> l = limits_of ns \<and> queue_bytes l \<ge> 65536 \<and> decoded_bytes l \<ge> 384"
  using assms by (auto simp: media_limits_of_def Let_def bind_result_Inr_iff split: if_splits)

lemma media_limits_bounds:
  assumes "media_limits_of v = Inr l"
  shows "in_range 1 8388608 (wire_bytes l) \<and> in_range 1 33554432 (inflated_bytes l)
     \<and> in_range 1 10000 (metadata_deadline_ms l) \<and> in_range 65536 134217728 (queue_bytes l)
     \<and> in_range 1 256 (queue_units l) \<and> in_range 1 16 (limit_subscribers l) \<and> in_range 1 8192 (max_width l)
     \<and> in_range 1 8192 (max_height l) \<and> in_range 384 67108864 (decoded_bytes l)
     \<and> in_range 1 60000 (close_timeout_ms l) \<and> in_range 1 30000 (kill_timeout_ms l)
     \<and> in_range 1 60000 (control_timeout_ms l) \<and> in_range 1 30000 (partial_frame_timeout_ms l)
     \<and> in_range 1 1048576 (stderr_bytes l)
     \<and> (''queueBytes'' \<notin> set (own_keys v) \<longrightarrow> queue_bytes l = 33554432)
     \<and> (''closeTimeoutMs'' \<notin> set (own_keys v) \<longrightarrow> close_timeout_ms l = 6000)"
proof -
  let ?v = "if v = JUndefined then JObj [] else v"
  obtain ns where ns: "map_result (limit_value ?v) limit_table = Inr ns" "l = limits_of ns"
    and m: "queue_bytes l \<ge> 65536" "decoded_bytes l \<ge> 384" using media_limits_of_Inr[OF assms] by blast
  have e: "limit_value ?v (limit_table ! i) = Inr (ns ! i)" if "i < 14" for i
    by (rule map_result_nth[OF ns(1)]) (use that in \<open>simp add: limit_table_def\<close>)
  have k: "own_keys ?v = own_keys v" by (cases v) auto
  note b = limit_value_Inr[of ?v, unfolded k]
  have f: "in_range 1 mx n \<and> (key \<notin> set (own_keys v) \<longrightarrow> n = df)"
    if "limit_value ?v (key, df, mx) = Inr n" for key df mx n using b[OF that] by (simp add: in_range_def)
  have g: "in_range 1 (snd (snd (limit_table ! i))) (ns ! i)
      \<and> (fst (limit_table ! i) \<notin> set (own_keys v) \<longrightarrow> ns ! i = fst (snd (limit_table ! i)))" if "i < 14" for i
    using f[of "fst (limit_table ! i)" "fst (snd (limit_table ! i))" "snd (snd (limit_table ! i))" "ns ! i"] e[OF that] by simp
  note t = g[of 0] g[of 1] g[of 2] g[of 3] g[of 4] g[of 5] g[of 6] g[of 7] g[of 8] g[of 9] g[of 10] g[of 11]
    g[of 12] g[of 13]
  have q: "queue_bytes l = ns ! 3" "decoded_bytes l = ns ! 8" by (simp_all add: ns(2) limits_of_def)
  have r: "in_range 65536 134217728 (queue_bytes l)" "in_range 384 67108864 (decoded_bytes l)"
    using g[of 3] g[of 8] m unfolding q by (simp_all add: limit_table_def in_range_def)
  show ?thesis using t r unfolding ns(2)
    by (simp add: limit_table_def limits_of_def)
qed

text \<open>
  Accepted resource limits are positive and at most their documented maxima, a limit that
  is not given has its default, and the queue and decoded-frame limits reach the minimum of the
  protocol.
\<close>

theorem limits_within_maxima:
  assumes "media_limits_of v = Inr l"
  shows "in_range 1 8388608 (wire_bytes l) \<and> in_range 1 33554432 (inflated_bytes l)
     \<and> in_range 1 10000 (metadata_deadline_ms l) \<and> in_range 65536 134217728 (queue_bytes l)
     \<and> in_range 1 256 (queue_units l) \<and> in_range 1 16 (limit_subscribers l) \<and> in_range 1 8192 (max_width l)
     \<and> in_range 1 8192 (max_height l) \<and> in_range 384 67108864 (decoded_bytes l)
     \<and> in_range 1 60000 (close_timeout_ms l) \<and> in_range 1 30000 (kill_timeout_ms l)
     \<and> in_range 1 60000 (control_timeout_ms l) \<and> in_range 1 30000 (partial_frame_timeout_ms l)
     \<and> in_range 1 1048576 (stderr_bytes l)
     \<and> (''queueBytes'' \<notin> set (own_keys v) \<longrightarrow> queue_bytes l = 33554432)
     \<and> (''closeTimeoutMs'' \<notin> set (own_keys v) \<longrightarrow> close_timeout_ms l = 6000)"
  by (rule media_limits_bounds[OF assms])

theorem limits_within_maxima_witness:
  "\<exists>l. media_limits_of (JObj [(''queueBytes'', JNum (Whole 65536))]) = Inr l \<and> in_range 65536 134217728 (queue_bytes l)"
proof -
  obtain l where l: "media_limits_of (JObj [(''queueBytes'', JNum (Whole 65536))]) = Inr l"
    by (simp add: media_limits_of_def limit_table_def limit_value_def limits_of_def max_safe_integer_def keys_def Let_def)
  from limits_within_maxima[OF l] l show ?thesis by blast
qed

subsection \<open>Masks\<close>

lemma codec_bit_exp: "\<exists>n. codec_bit c = 2 ^ n"
proof (cases c)
  case JPEG then show ?thesis by (auto intro: exI[of _ 0])
next
  case H264 then show ?thesis by (auto intro: exI[of _ 1])
next
  case H265 then show ?thesis by (auto intro: exI[of _ 2])
next
  case MP4V_ES then show ?thesis by (auto intro: exI[of _ 3])
next
  case PCMU then show ?thesis by (auto intro: exI[of _ 4])
next
  case MPEG4_GENERIC then show ?thesis by (auto intro: exI[of _ 5])
qed

lemma codec_bit_inj: "codec_bit c = codec_bit d \<longleftrightarrow> c = d"
  by (cases c; cases d) simp_all

definition has_codec :: "nat \<Rightarrow> media_codec \<Rightarrow> bool" where
  "has_codec m c \<longleftrightarrow> m AND codec_bit c \<noteq> 0"

lemma has_codec_or [simp]: "has_codec (a OR b) c \<longleftrightarrow> has_codec a c \<or> has_codec b c"
proof -
  obtain n where "codec_bit c = 2 ^ n" using codec_bit_exp by blast
  then show ?thesis by (simp add: has_codec_def and_exp_eq_0_iff_not_bit bit_or_iff)
qed

lemma has_codec_0 [simp]: "\<not> has_codec 0 c"
  by (simp add: has_codec_def)

lemma has_codec_bit [simp]: "has_codec (codec_bit d) c \<longleftrightarrow> d = c"
  by (cases c; cases d) (simp_all add: has_codec_def)

lemma has_codec_fold: "has_codec (foldl (\<lambda>m c. m OR codec_bit c) a cs) c \<longleftrightarrow> has_codec a c \<or> c \<in> set cs"
  by (induction cs arbitrary: a) auto

lemma has_codec_mask: "has_codec (codec_mask cs) c \<longleftrightarrow> c \<in> set cs"
  by (simp add: codec_mask_def has_codec_fold)

lemma codec_mask_0: "codec_mask cs = 0 \<longleftrightarrow> cs = []"
proof (cases cs)
  case Nil
  then show ?thesis by (simp add: codec_mask_def)
next
  case (Cons c ds)
  then have "has_codec (codec_mask cs) c" by (simp add: has_codec_mask)
  then have "codec_mask cs \<noteq> 0" using has_codec_0[of c] by metis
  then show ?thesis using Cons by simp
qed

text \<open>The codecs an optional list of names selects.\<close>

definition listed_codecs :: "js \<Rightarrow> media_codec set" where
  "listed_codecs v = {c. \<exists>xs. v = JArr xs \<and> (\<exists>x\<in>set xs. media_codec_of x = Some c)}"

definition requested_codecs :: "js \<Rightarrow> media_codec set" where
  "requested_codecs tracks = listed_codecs (get tracks ''video'') \<union> listed_codecs (get tracks ''audio'')
     \<union> (if get tracks ''backchannel'' = JUndefined then {} else {PCMU})"

lemma check_codec_Inr: "check_codec p x = Inr c \<longleftrightarrow> media_codec_of x = Some c \<and> p c"
  by (auto simp: check_codec_def split: option.splits)

lemma allow_list_codecs:
  "allow_list v m (check_codec p) = Inr cs \<Longrightarrow> set cs = listed_codecs v \<and> cs \<noteq> [] \<and> (\<forall>c\<in>set cs. p c)"
proof -
  assume a: "allow_list v m (check_codec p) = Inr cs"
  obtain xs where xs: "v = JArr xs" "list_all2 (\<lambda>x c. check_codec p x = Inr c) xs cs" "cs \<noteq> []"
    using allow_list_Inr[OF a] by auto
  then have l: "length xs = length cs" "\<And>i. i < length cs \<Longrightarrow> media_codec_of (xs ! i) = Some (cs ! i) \<and> p (cs ! i)"
    by (auto simp: list_all2_conv_all_nth check_codec_Inr)
  have "set cs = listed_codecs v"
  proof (intro equalityI subsetI)
    fix c assume "c \<in> set cs"
    then obtain i where "i < length cs" "cs ! i = c" by (auto simp: in_set_conv_nth)
    with l show "c \<in> listed_codecs v" by (auto simp: listed_codecs_def xs(1) intro!: bexI[of _ "xs ! i"])
  next
    fix c assume "c \<in> listed_codecs v"
    then obtain i where "i < length xs" "media_codec_of (xs ! i) = Some c" by (auto simp: listed_codecs_def xs(1) in_set_conv_nth)
    with l show "c \<in> set cs" by auto
  qed
  moreover have "\<forall>c\<in>set cs. p c" using l by (auto simp: in_set_conv_nth)
  ultimately show ?thesis using xs(3) by blast
qed

lemma codec_track_Inr:
  assumes "codec_track v m p t = Inr (a, b)"
  shows "a = (if v = JUndefined then 0 else t) \<and> (\<forall>c. has_codec b c \<longleftrightarrow> c \<in> listed_codecs v) \<and> (\<forall>c\<in>listed_codecs v. p c)
   \<and> (b = 0 \<longleftrightarrow> listed_codecs v = {})"
proof (cases "v = JUndefined")
  case True
  with assms show ?thesis by (simp add: codec_track_def listed_codecs_def)
next
  case False
  then obtain cs where cs: "allow_list v m (check_codec p) = Inr cs" "a = t" "b = codec_mask cs"
    using assms by (auto simp: codec_track_def bind_result_Inr_iff)
  from allow_list_codecs[OF cs(1)] have "set cs = listed_codecs v" "cs \<noteq> []" "\<forall>c\<in>listed_codecs v. p c" by auto
  with cs False show ?thesis by (metis has_codec_mask codec_mask_0 set_empty)
qed

lemma track_masks_Inr:
  assumes "track_masks tracks = Inr (track, codec)"
  shows "track = (if get tracks ''video'' = JUndefined then 0 else 1) + (if get tracks ''audio'' = JUndefined then 0 else 2)
       + (if get tracks ''metadata'' = JBool True then 4 else 0) + (if get tracks ''backchannel'' = JUndefined then 0 else 8)"
    "track \<noteq> 0" "has_codec codec c \<longleftrightarrow> c \<in> requested_codecs tracks"
    "codec = 0 \<longleftrightarrow> requested_codecs tracks = {}"
    "\<forall>c\<in>listed_codecs (get tracks ''video''). codec_bit c < 16"
    "\<forall>c\<in>listed_codecs (get tracks ''audio''). codec_bit c \<ge> 16"
proof -
  obtain vt vc aut auc where v: "codec_track (get tracks ''video'') 4 (\<lambda>c. codec_bit c < 16) 1 = Inr (vt, vc)"
    and a: "codec_track (get tracks ''audio'') 2 (\<lambda>c. codec_bit c \<ge> 16) 2 = Inr (aut, auc)"
    and r: "get tracks ''metadata'' = JUndefined \<or> is_boolean (get tracks ''metadata'')"
    and t: "track = vt OR aut OR (if is_false (get tracks ''metadata'') then 0 else 4)
      OR (if get tracks ''backchannel'' = JUndefined then 0 else 8)" "track \<noteq> 0"
    and c: "codec = vc OR auc OR (if get tracks ''backchannel'' = JUndefined then 0 else codec_bit PCMU)"
    using assms by (auto simp: track_masks_def bind_result_Inr_iff Let_def split: if_splits)
  note v' = codec_track_Inr[OF v] and a' = codec_track_Inr[OF a]
  have m: "is_false (get tracks ''metadata'') \<longleftrightarrow> get tracks ''metadata'' \<noteq> JBool True"
    using r by (cases "get tracks ''metadata''") (auto simp: is_false_def)
  show "track = (if get tracks ''video'' = JUndefined then 0 else 1) + (if get tracks ''audio'' = JUndefined then 0 else 2)
       + (if get tracks ''metadata'' = JBool True then 4 else 0) + (if get tracks ''backchannel'' = JUndefined then 0 else 8)"
    using v' a' by (simp add: t(1) m)
  show "track \<noteq> 0" by (rule t(2))
  show "has_codec codec c \<longleftrightarrow> c \<in> requested_codecs tracks"
    using v' a' has_codec_bit[of PCMU c] by (auto simp: c requested_codecs_def simp del: has_codec_bit codec_bit.simps)
  show "codec = 0 \<longleftrightarrow> requested_codecs tracks = {}"
    using v' a' by (simp add: c requested_codecs_def or_eq_0_iff)
  show "\<forall>c\<in>listed_codecs (get tracks ''video''). codec_bit c < 16"
    "\<forall>c\<in>listed_codecs (get tracks ''audio''). codec_bit c \<ge> 16" using v' a' by blast+
qed

text \<open>
  The masks of a validated request say exactly what was asked for: one bit per track, a
  codec bit exactly for each requested codec (JPEG alone stands for none), at least one track,
  and a recorded replay never asks for UDP or a backchannel.
\<close>

theorem request_masks_faithful:
  assumes "validate_media_request parse_url is_ip request = Inr sel"
  shows "selected_tracks sel = (if get (get request ''tracks'') ''video'' = JUndefined then 0 else 1)
       + (if get (get request ''tracks'') ''audio'' = JUndefined then 0 else 2)
       + (if get (get request ''tracks'') ''metadata'' = JBool True then 4 else 0)
       + (if get (get request ''tracks'') ''backchannel'' = JUndefined then 0 else 8)
     \<and> selected_tracks sel \<noteq> 0
     \<and> (has_codec (selected_codecs sel) c \<longleftrightarrow>
          c \<in> requested_codecs (get request ''tracks'') \<or> requested_codecs (get request ''tracks'') = {} \<and> c = JPEG)
     \<and> (get request ''replay'' \<noteq> JUndefined \<longrightarrow> get request ''transport'' \<noteq> JStr ''udp-unicast''
          \<and> get (get request ''tracks'') ''backchannel'' = JUndefined)"
proof -
  obtain codec where t: "track_masks (get request ''tracks'') = Inr (selected_tracks sel, codec)"
    and s: "selected_codecs sel = (if codec = 0 then 1 else codec)"
    and r: "get request ''replay'' \<noteq> JUndefined \<longrightarrow> get request ''transport'' \<noteq> JStr ''udp-unicast''
          \<and> get (get request ''tracks'') ''backchannel'' = JUndefined"
    using assms by (auto simp: validate_media_request_def bind_result_Inr_iff split: if_splits)
  note m = track_masks_Inr[OF t]
  have "has_codec 1 c \<longleftrightarrow> c = JPEG" using has_codec_bit[of JPEG c] by auto
  then show ?thesis using m(1,2,4) m(3)[of c] r by (auto simp: s)
qed

definition sample_request :: js where
  "sample_request = JObj [(''action'', JStr ''getStream''), (''transport'', JStr ''udp-unicast''),
     (''tracks'', JObj [(''video'', JArr [JStr ''H264'', JStr ''H265'']), (''backchannel'', JStr ''PCMU'')]),
     (''localAddress'', JStr ''10.0.0.1'')]"

lemma sample_request_valid:
  "map_sum id (\<lambda>s. (selected_tracks s, selected_codecs s)) (validate_media_request sample_url (\<lambda>_. 4) sample_request) = Inr (9, 22)"
  by code_simp

theorem request_masks_faithful_witness:
  "\<exists>sel. validate_media_request sample_url (\<lambda>_. 4) sample_request = Inr sel
     \<and> selected_tracks sel = 9 \<and> has_codec (selected_codecs sel) PCMU \<and> \<not> has_codec (selected_codecs sel) JPEG"
proof -
  obtain sel where v: "validate_media_request sample_url (\<lambda>_. 4) sample_request = Inr sel" "selected_codecs sel = 22"
    using sample_request_valid by (cases "validate_media_request sample_url (\<lambda>_. 4) sample_request") auto
  have "listed_codecs (JArr [JStr ''H264'', JStr ''H265'']) = {H264, H265}" "listed_codecs JUndefined = {}"
    by (auto simp: listed_codecs_def media_codecs_def)
  then show ?thesis using v request_masks_faithful[OF v(1), of PCMU] request_masks_faithful[OF v(1), of JPEG]
    by (auto simp: sample_request_def requested_codecs_def)
qed

end
