(* ===== verification/Media_Protocol_Laws.thy ===== *)
theory Media_Protocol_Laws
  imports Media_Protocol Media_Ipc_Laws Media_Policy_Laws
begin

section \<open>Correctness of the protocol messages\<close>

text \<open>
  The worker reads back from OPEN and SECURITY exactly what the session meant, accepted data
  frames are consistent and bounded, and READY and CLOSED say nothing the request excludes.
\<close>

subsection \<open>Checked fields\<close>

lemma uint_field_Inr:
  "uint_field v b m = Inr n \<longleftrightarrow> v = JNum (Whole n) \<and> \<bar>n\<bar> \<le> max_safe_integer \<and> m \<le> n \<and> n \<le> b"
  by (cases v; cases "case v of JNum x \<Rightarrow> x | _ \<Rightarrow> NaN") (auto simp: uint_field_def split: jsnum.splits)

lemma text_field_Inr:
  "text_field v m = Inr s \<longleftrightarrow> v = JStr s \<and> s \<noteq> [] \<and> \<not> has_control_char s \<and> length s \<le> m"
  by (cases v) (auto simp: text_field_def)

lemma object_array_Inr:
  "object_array v m check = Inr ys \<Longrightarrow>
   \<exists>xs. v = JArr xs \<and> length xs \<le> m \<and> list_all2 (\<lambda>x y. check x = Inr y) xs ys"
  by (cases v) (auto simp: object_array_def split: if_splits dest: map_result_Inr)

lemma object_array_all: "object_array v m check = Inr ys \<Longrightarrow> y \<in> set ys \<Longrightarrow> \<exists>x. check x = Inr y"
  using object_array_Inr[of v m check ys] by (auto simp: list_all2_conv_all_nth in_set_conv_nth)


lemma uint32_Inr: "uint32 n m = Inr bs \<longleftrightarrow> bs = be_bytes 4 (nat n) \<and> \<bar>n\<bar> \<le> max_safe_integer \<and> m \<le> n \<and> n \<le> 0xffffffff"
  by (auto simp: uint32_def bind_result_Inr_iff uint_field_Inr)

subsection \<open>Reading strings back\<close>

definition read_text :: "byte list \<Rightarrow> byte list \<times> byte list" where
  "read_text bs = (let n = read16 bs 0 in (take n (drop 2 bs), drop (2 + n) bs))"

fun read_texts :: "nat \<Rightarrow> byte list \<Rightarrow> byte list list \<times> byte list" where
  "read_texts 0 bs = ([], bs)"
| "read_texts (Suc n) bs =
     (let (t, bs') = read_text bs; (ts, bs'') = read_texts n bs' in (t # ts, bs''))"

lemma ipc_string_Inr: "ipc_string s m = Inr bs \<Longrightarrow> bs = be_bytes 2 (length s) @ text_bytes s \<and> length s \<le> min m 65535"
  by (auto simp: ipc_string_def split: if_splits)

lemma read_text_ipc: "ipc_string s m = Inr bs \<Longrightarrow> read_text (bs @ rest) = (text_bytes s, rest)"
  using ipc_string_Inr[of s m bs]
  by (auto simp: read_text_def read16_def slice_simps be_value_be_bytes Let_def)

lemma read_texts_ipc:
  "list_all2 (\<lambda>s bs. ipc_string s m = Inr bs) ss bss \<Longrightarrow>
   read_texts (length ss) (concat bss @ rest) = (map text_bytes ss, rest)"
proof (induction ss arbitrary: bss)
  case Nil
  then show ?case by simp
next
  case (Cons s ss)
  then obtain b bss' where b: "bss = b # bss'" "ipc_string s m = Inr b" "list_all2 (\<lambda>s bs. ipc_string s m = Inr bs) ss bss'"
    by (auto simp: list_all2_Cons1)
  with Cons.IH[OF b(3)] read_text_ipc[OF b(2)] show ?case by (simp add: Let_def)
qed

definition read_list :: "byte list \<Rightarrow> byte list list \<times> byte list" where
  "read_list bs = read_texts (read16 bs 0) (drop 2 bs)"

lemma read_list_ipc:
  assumes "ipc_strings ss = Inr bs"
  shows "read_list (bs @ rest) = (map text_bytes ss, rest)"
proof -
  obtain bss where b: "map_result (\<lambda>s. ipc_string s 2048) ss = Inr bss" "bs = be_bytes 2 (length ss) @ concat bss" "length ss \<le> 16"
    using assms by (auto simp: ipc_strings_def bind_result_Inr_iff uint_field_Inr)
  then show ?thesis using read_texts_ipc[OF map_result_Inr[OF b(1)], of rest]
    by (simp add: read_list_def read16_def slice_simps be_value_be_bytes)
qed

subsection \<open>OPEN\<close>

lemma concat_results_Cons:
  "concat_results (r # rs) = Inr bs \<longleftrightarrow> (\<exists>b cs. r = Inr b \<and> concat_results rs = Inr cs \<and> bs = b @ cs)"
  by (auto simp: concat_results_def bind_result_Inr_iff)

lemma concat_results_Nil: "concat_results [] = Inr bs \<longleftrightarrow> bs = []"
  by (auto simp: concat_results_def)

lemma concat_results_words:
  "concat_results (map (\<lambda>n. uint32 n 0) ns) = Inr bs \<longleftrightarrow>
   bs = concat (map (\<lambda>n. be_bytes 4 (nat n)) ns) \<and> (\<forall>n\<in>set ns. 0 \<le> n \<and> n \<le> 0xffffffff)"
  by (induction ns arbitrary: bs) (auto simp: concat_results_Nil concat_results_Cons uint32_Inr max_safe_integer_def)

text \<open>What the worker reads from an OPEN payload.\<close>

record open_message =
  msg_replay :: nat
  msg_transport :: nat
  msg_tracks :: nat
  msg_flags :: nat
  msg_handles :: "nat list"
  msg_range :: "nat list"
  msg_limits :: "nat list"
  msg_texts :: "byte list list"
  msg_origins :: "byte list list"
  msg_redirects :: "byte list list"

definition read_open :: "byte list \<Rightarrow> open_message" where
  "read_open bs =
     (let (texts, r1) = read_texts 4 (drop 64 bs); (origins, r2) = read_list r1; (redirects, r3) = read_list r2
      in \<lparr>msg_replay = read8 bs 0, msg_transport = read8 bs 1, msg_tracks = read8 bs 2, msg_flags = read8 bs 3,
          msg_handles = [read32 bs 4, read32 bs 8], msg_range = [read64 bs 12, read64 bs 20],
          msg_limits = map (\<lambda>i. read32 bs (28 + 4 * i)) [0..<9], msg_texts = texts, msg_origins = origins,
          msg_redirects = redirects\<rparr>)"

definition range_ok :: "media_request \<Rightarrow> bool" where
  "range_ok r \<longleftrightarrow> (\<forall>x. req_replay r = Some x \<longrightarrow> 0 \<le> start_ntp_ns x \<and> start_ntp_ns x < 2 ^ 64 \<and> 0 \<le> end_ntp_ns x \<and> end_ntp_ns x < 2 ^ 64)"

definition limit_words :: "open_descriptor \<Rightarrow> nat list" where
  "limit_words d = (let l = open_limits d in
     map nat [wire_bytes l, inflated_bytes l, metadata_deadline_ms l, queue_bytes l, queue_units l, max_width l,
       max_height l, decoded_bytes l] @ [open_codec_mask d])"

lemma open_fixed_Inr:
  assumes "open_fixed d = Inr bs"
  shows "bs = [if req_replay (open_request d) = None then 0 else 1,
      word_of_nat (transport_number (req_transport (open_request d))), word_of_int (int (open_track_mask d)),
      (if req_packet_output (open_request d) then 1 else 0) + (if is_digest (scope_authentication (open_scope d)) then 0 else 2)]
    @ be_bytes 4 (nat (credential_handle d)) @ be_bytes 4 (nat (trust_handle d))
    @ be_bytes 8 (nat (case req_replay (open_request d) of None \<Rightarrow> 0 | Some r \<Rightarrow> start_ntp_ns r))
    @ be_bytes 8 (nat (case req_replay (open_request d) of None \<Rightarrow> 0 | Some r \<Rightarrow> end_ntp_ns r))
    @ concat (map (be_bytes 4) (limit_words d))
   \<and> 1 \<le> open_track_mask d \<and> open_track_mask d \<le> 15 \<and> nat (credential_handle d) \<le> 0xffffffff \<and> nat (trust_handle d) \<le> 0xffffffff
   \<and> (\<forall>n\<in>set (limit_words d). n \<le> 0xffffffff)"
proof -
  let ?ns = "[wire_bytes (open_limits d), inflated_bytes (open_limits d), metadata_deadline_ms (open_limits d),
    queue_bytes (open_limits d), queue_units (open_limits d), max_width (open_limits d), max_height (open_limits d),
    decoded_bytes (open_limits d), int (open_codec_mask d)]"
  obtain t rest where t: "uint_field (JNum (Whole (int (open_track_mask d)))) 15 1 = Inr t"
    and r: "concat_results (uint32 (credential_handle d) 0 # uint32 (trust_handle d) 1
          # Inr (be_bytes 8 (nat (case req_replay (open_request d) of None \<Rightarrow> 0 | Some r \<Rightarrow> start_ntp_ns r)))
          # Inr (be_bytes 8 (nat (case req_replay (open_request d) of None \<Rightarrow> 0 | Some r \<Rightarrow> end_ntp_ns r)))
          # map (\<lambda>n. uint32 n 0) ?ns) = Inr rest"
    and bs: "bs = [(if req_replay (open_request d) = None then 0 else 1), word_of_nat (transport_number (req_transport (open_request d))),
              word_of_int t,
              (if req_packet_output (open_request d) then 1 else 0) + (if is_digest (scope_authentication (open_scope d)) then 0 else 2)]
             @ rest"
    using assms unfolding open_fixed_def Let_def bind_result_Inr_iff by blast
  obtain w where w: "concat_results (map (\<lambda>n. uint32 n 0) ?ns) = Inr w"
    and h: "0 \<le> credential_handle d" "credential_handle d \<le> 0xffffffff" "1 \<le> trust_handle d" "trust_handle d \<le> 0xffffffff"
    and rest: "rest = be_bytes 4 (nat (credential_handle d)) @ be_bytes 4 (nat (trust_handle d))
      @ be_bytes 8 (nat (case req_replay (open_request d) of None \<Rightarrow> 0 | Some r \<Rightarrow> start_ntp_ns r))
      @ be_bytes 8 (nat (case req_replay (open_request d) of None \<Rightarrow> 0 | Some r \<Rightarrow> end_ntp_ns r)) @ w"
    using r unfolding concat_results_Cons uint32_Inr by blast
  have W: "w = concat (map (\<lambda>n. be_bytes 4 (nat n)) ?ns)" "\<forall>n\<in>set ?ns. 0 \<le> n \<and> n \<le> 0xffffffff"
    using w unfolding concat_results_words by blast+
  have "w = concat (map (be_bytes 4) (limit_words d))" "\<forall>n\<in>set (limit_words d). n \<le> 0xffffffff"
    using W by (auto simp: limit_words_def Let_def)
  moreover have "t = int (open_track_mask d)" "1 \<le> open_track_mask d" "open_track_mask d \<le> 15"
    using t by (auto simp: uint_field_Inr)
  ultimately show ?thesis using h by (auto simp: bs rest)
qed

lemma slice_Cons: "0 < i \<Longrightarrow> slice i n (x # xs) = slice (i - 1) n xs"
  by (cases i) (simp_all add: slice_def)

definition open_meaning :: "open_descriptor \<Rightarrow> open_message" where
  "open_meaning d = (let r = open_request d; s = open_scope d in
     \<lparr>msg_replay = (if req_replay r = None then 0 else 1), msg_transport = transport_number (req_transport r),
      msg_tracks = open_track_mask d,
      msg_flags = (if req_packet_output r then 1 else 0) + (if is_digest (scope_authentication s) then 0 else 2),
      msg_handles = [nat (credential_handle d), nat (trust_handle d)],
      msg_range = [nat (case req_replay r of None \<Rightarrow> 0 | Some x \<Rightarrow> start_ntp_ns x),
        nat (case req_replay r of None \<Rightarrow> 0 | Some x \<Rightarrow> end_ntp_ns x)],
      msg_limits = limit_words d,
      msg_texts = map text_bytes [scope_uri s, scope_target s, scope_principal s, req_local_address r],
      msg_origins = map text_bytes (allowed_origins (open_trust d)),
      msg_redirects = map text_bytes (allowed_redirect_origins (open_trust d))\<rparr>)"

lemma limit_words_9: "length (limit_words d) = 9"
  by (simp add: limit_words_def Let_def)

lemma read_words:
  "\<forall>n\<in>set ns. n \<le> 0xffffffff \<Longrightarrow>
   map (\<lambda>i. read32 (concat (map (be_bytes 4) ns) @ rest) (4 * i)) [0..<length ns] = ns"
proof (induction ns)
  case Nil
  then show ?case by simp
next
  case (Cons n ns)
  have u: "[0..<length (n # ns)] = 0 # map Suc [0..<length ns]" by (simp add: upt_conv_Cons map_Suc_upt del: upt_Suc)
  define b where "b = concat (map (be_bytes 4) (n # ns)) @ rest"
  have h: "read32 b (4 * 0) = n"
    using Cons.prems by (simp add: b_def read32_def slice_simps be_value_be_bytes)
  have t: "read32 b (4 * Suc i) = read32 (concat (map (be_bytes 4) ns) @ rest) (4 * i)" for i
    by (simp add: b_def read32_def slice_append_right)
  have "map (\<lambda>i. read32 b (4 * i)) [0..<length (n # ns)] = n # map (\<lambda>i. read32 b (4 * Suc i)) [0..<length ns]"
    unfolding u by (simp add: h[simplified])
  also have "\<dots> = n # ns" unfolding t using Cons by simp
  finally show ?case by (simp only: b_def)
qed

lemma read_fixed:
  assumes bs: "bs = [a, b, c, e] @ be_bytes 4 h @ be_bytes 4 t @ be_bytes 8 x @ be_bytes 8 y
      @ concat (map (be_bytes 4) ns) @ rest"
    and h: "h \<le> 0xffffffff" "t \<le> 0xffffffff" "x < 2 ^ 64" "y < 2 ^ 64" "\<forall>n\<in>set ns. n \<le> 0xffffffff" "length ns = 9"
  shows "read8 bs 0 = unat a" "read8 bs 1 = unat b" "read8 bs 2 = unat c" "read8 bs 3 = unat e"
    "read32 bs 4 = h" "read32 bs 8 = t" "read64 bs 12 = x" "read64 bs 20 = y"
    "map (\<lambda>i. read32 bs (28 + 4 * i)) [0..<9] = ns" "drop 64 bs = rest"
proof -
  let ?w = "concat (map (be_bytes 4) ns)"
  have l: "length ?w = 36" using h(6) by (simp add: length_concat comp_def sum_list_triv)
  show "read8 bs 0 = unat a" "read8 bs 1 = unat b" "read8 bs 2 = unat c" "read8 bs 3 = unat e"
    by (simp_all add: bs read8_def)
  show "read32 bs 4 = h" "read32 bs 8 = t" "read64 bs 12 = x" "read64 bs 20 = y"
    using h(1-4) by (simp_all add: bs read32_def read64_def slice_Cons slice_simps be_value_be_bytes)
  have "read32 bs (28 + 4 * i) = read32 (?w @ rest) (4 * i)" for i
    by (simp add: bs read32_def slice_Cons slice_append_right)
  then show "map (\<lambda>i. read32 bs (28 + 4 * i)) [0..<9] = ns" using read_words[OF h(5), of rest] h(6) by simp
  show "drop 64 bs = rest" using l by (simp add: bs)
qed

text \<open>
  The worker reads from an OPEN payload exactly the session's selection: transport, tracks,
  flags, handles, replay range, limits, URI, target, principal, interface and both origin lists;
  nothing wraps, and the payload fits a control envelope.
\<close>

theorem open_message_faithful:
  assumes e: "encode_open d = Inr bs" and r: "range_ok (open_request d)"
  shows "read_open bs = open_meaning d \<and> length bs \<le> 65536"
proof -
  let ?r = "open_request d" and ?s = "open_scope d"
  obtain f s1 s2 s3 s4 o1 o2 where f: "open_fixed d = Inr f"
    and s: "ipc_string (scope_uri ?s) 2048 = Inr s1" "ipc_string (scope_target ?s) 256 = Inr s2"
      "ipc_string (scope_principal ?s) 256 = Inr s3" "ipc_string (req_local_address ?r) 64 = Inr s4"
    and o: "ipc_strings (allowed_origins (open_trust d)) = Inr o1" "ipc_strings (allowed_redirect_origins (open_trust d)) = Inr o2"
    and bs: "bs = f @ s1 @ s2 @ s3 @ s4 @ o1 @ o2" "length bs \<le> control_max"
    using e by (auto simp: encode_open_def bind_result_Inr_iff concat_results_Cons concat_results_Nil split: if_splits)
  note F = open_fixed_Inr[OF f]
  let ?x = "nat (case req_replay ?r of None \<Rightarrow> 0 | Some x \<Rightarrow> start_ntp_ns x)"
    and ?y = "nat (case req_replay ?r of None \<Rightarrow> 0 | Some x \<Rightarrow> end_ntp_ns x)"
  have xy: "?x < 2 ^ 64" "?y < 2 ^ 64" using r by (auto simp: range_ok_def split: option.split)
  have T: "read_texts 4 (s1 @ s2 @ s3 @ s4 @ o1 @ o2) = (map text_bytes [scope_uri ?s, scope_target ?s, scope_principal ?s, req_local_address ?r], o1 @ o2)"
    by (simp add: eval_nat_numeral Let_def read_text_ipc[OF s(1)] read_text_ipc[OF s(2)] read_text_ipc[OF s(3)] read_text_ipc[OF s(4)])
  have L: "read_list (o1 @ o2) = (map text_bytes (allowed_origins (open_trust d)), o2)"
    "read_list o2 = (map text_bytes (allowed_redirect_origins (open_trust d)), [])"
    using read_list_ipc[OF o(1), of o2] read_list_ipc[OF o(2), of "[]"] by simp_all
  have tr: "unat (word_of_nat (transport_number (req_transport ?r)) :: byte) = transport_number (req_transport ?r)"
    by (cases "req_transport ?r") (simp_all add: transport_number_def)
  have mk: "unat (word_of_int (int (open_track_mask d)) :: byte) = open_track_mask d"
    using F by (simp add: unat_of_nat)
  let ?a = "if req_replay ?r = None then 0 else (1::byte)"
    and ?e = "(if req_packet_output ?r then 1 else 0) + (if is_digest (scope_authentication ?s) then 0 else (2::byte))"
  have B: "bs = [?a, word_of_nat (transport_number (req_transport ?r)), word_of_int (int (open_track_mask d)), ?e]
      @ be_bytes 4 (nat (credential_handle d)) @ be_bytes 4 (nat (trust_handle d)) @ be_bytes 8 ?x @ be_bytes 8 ?y
      @ concat (map (be_bytes 4) (limit_words d)) @ (s1 @ s2 @ s3 @ s4 @ o1 @ o2)"
    using F bs(1) by simp
  have h: "nat (credential_handle d) \<le> 0xffffffff" "nat (trust_handle d) \<le> 0xffffffff" "\<forall>n\<in>set (limit_words d). n \<le> 0xffffffff"
    using F by blast+
  note R = read_fixed[OF B h(1,2) xy h(3) limit_words_9]
  have fl: "unat ?a = (if req_replay ?r = None then 0 else 1)"
    "unat ?e = (if req_packet_output ?r then 1 else 0) + (if is_digest (scope_authentication ?s) then 0 else 2)" by simp_all
  show ?thesis using bs(2)
    by (simp only: read_open_def open_meaning_def R T L tr mk fl Let_def case_prod_conv control_max_def simp_thms)
qed
definition sample_open :: open_descriptor where
  "sample_open =
    \<lparr>open_request = \<lparr>req_transport = TcpInterleaved, req_video = Some [H264], req_audio = None, req_metadata = False,
       req_backchannel = False, req_packet_output = True, req_local_address = ''10.0.0.1'',
       req_replay = Some \<lparr>start_ntp_ns = 2208988800000000000, end_ntp_ns = 2208988800000000009\<rparr>, req_timeout = 12000\<rparr>,
     open_scope = sample_scope,
     open_trust = \<lparr>service_targets = [''http://cam/media''], allowed_origins = [''rtsp://cam:554''],
       allowed_redirect_origins = [], allowed_targets = None, trust_transports = [TcpInterleaved],
       trust_authentication = Digest ''realm'' None, tunnel_authentication = None\<rparr>,
     open_limits = limits_of (map (fst \<circ> snd) limit_table), open_track_mask = 1, open_codec_mask = 2,
     credential_handle = 7, trust_handle = 9\<rparr>"

lemma sample_open_encodes: "\<exists>bs. encode_open sample_open = Inr bs"
  by (simp add: encode_open_def open_fixed_def concat_results_def uint32_def uint_field_def ipc_string_def ipc_strings_def
      sample_open_def sample_scope_def limits_of_def limit_table_def Let_def max_safe_integer_def control_max_def)

theorem open_message_faithful_witness:
  "\<exists>bs. encode_open sample_open = Inr bs \<and> msg_range (read_open bs) = [2208988800000000000, 2208988800000000009]
     \<and> msg_handles (read_open bs) = [7, 9]"
proof -
  obtain bs where bs: "encode_open sample_open = Inr bs" using sample_open_encodes by blast
  have "range_ok (open_request sample_open)" by (simp add: sample_open_def range_ok_def)
  from open_message_faithful[OF bs this] bs show ?thesis by (auto simp: open_meaning_def sample_open_def)
qed

subsection \<open>SECURITY\<close>

text \<open>What the worker reads from a SECURITY payload.\<close>

definition read_security :: "byte list \<Rightarrow> nat list \<times> nat \<times> byte list list" where
  "read_security bs = ([read32 bs 0, read32 bs 4], read8 bs 8, fst (read_texts 11 (drop 12 bs)))"

definition security_texts :: "open_descriptor \<Rightarrow> media_security_material \<Rightarrow> string list" where
  "security_texts d m = (let s = open_scope d; n = material_native m; t = material_tunnel m in
     [scope_target s, scope_principal s, scope_origin s, from_credential cred_realm n, from_credential cred_username n,
      from_credential cred_password n, from_credential cred_origin t, from_credential cred_realm t,
      from_credential cred_username t, from_credential cred_password t,
      case material_ca m of None \<Rightarrow> [] | Some c \<Rightarrow> c])"

text \<open>
  The worker reads from a SECURITY payload exactly the handles, the legacy-MD5 flag and the
  eleven texts of the session's scope and its validated material, each in its place.
\<close>

theorem security_message_faithful:
  assumes e: "encode_security d m = Inr bs"
  shows "read_security bs = ([nat (credential_handle d), nat (trust_handle d)], unat (legacy_flag (open_scope d)),
     map text_bytes (security_texts d m)) \<and> length bs \<le> 65536"
proof -
  define ss where "ss = security_texts d m"
  obtain b1 b2 b3 b4 b5 b6 b7 b8 b9 b10 b11 where
    s: "ipc_string (ss ! 0) 256 = Inr b1" "ipc_string (ss ! 1) 256 = Inr b2" "ipc_string (ss ! 2) 2048 = Inr b3"
      "ipc_string (ss ! 3) 1024 = Inr b4" "ipc_string (ss ! 4) 1024 = Inr b5" "ipc_string (ss ! 5) 1024 = Inr b6"
      "ipc_string (ss ! 6) 2048 = Inr b7" "ipc_string (ss ! 7) 1024 = Inr b8" "ipc_string (ss ! 8) 1024 = Inr b9"
      "ipc_string (ss ! 9) 1024 = Inr b10" "ipc_string (ss ! 10) 32768 = Inr b11"
    and h: "0 \<le> credential_handle d" "credential_handle d \<le> 0xffffffff" "1 \<le> trust_handle d" "trust_handle d \<le> 0xffffffff"
    and bs: "bs = be_bytes 4 (nat (credential_handle d)) @ be_bytes 4 (nat (trust_handle d))
        @ [legacy_flag (open_scope d), 0, 0, 0] @ b1 @ b2 @ b3 @ b4 @ b5 @ b6 @ b7 @ b8 @ b9 @ b10 @ b11"
      "length bs \<le> control_max"
    using e by (auto simp: encode_security_def Let_def bind_result_Inr_iff concat_results_Cons concat_results_Nil uint32_Inr
        ss_def security_texts_def split: if_splits)
  have l: "ss = [ss ! 0, ss ! 1, ss ! 2, ss ! 3, ss ! 4, ss ! 5, ss ! 6, ss ! 7, ss ! 8, ss ! 9, ss ! 10]"
    by (simp add: ss_def security_texts_def Let_def)
  have T: "read_texts 11 (b1 @ b2 @ b3 @ b4 @ b5 @ b6 @ b7 @ b8 @ b9 @ b10 @ b11) = (map text_bytes ss, [])"
    by (subst l) (simp add: eval_nat_numeral Let_def read_text_ipc[OF s(1)] read_text_ipc[OF s(2)] read_text_ipc[OF s(3)]
      read_text_ipc[OF s(4)] read_text_ipc[OF s(5)] read_text_ipc[OF s(6)] read_text_ipc[OF s(7)] read_text_ipc[OF s(8)]
      read_text_ipc[OF s(9)] read_text_ipc[OF s(10)] read_text_ipc[OF s(11), of "[]", simplified])
  have "drop 12 bs = b1 @ b2 @ b3 @ b4 @ b5 @ b6 @ b7 @ b8 @ b9 @ b10 @ b11" by (simp add: bs(1))
  moreover have "read32 bs 0 = nat (credential_handle d)" "read32 bs 4 = nat (trust_handle d)"
    using h by (simp_all add: bs(1) read32_def slice_simps be_value_be_bytes)
  moreover have "read8 bs 8 = unat (legacy_flag (open_scope d))" by (simp add: bs(1) read8_def nth_append)
  ultimately show ?thesis using bs(2) T by (simp add: read_security_def ss_def control_max_def)
qed

definition sample_credentials :: media_security_material where
  "sample_credentials = \<lparr>material_thing = ''t'', material_target = ''r'', material_principal = ''p'',
     material_origin = ''rtsp://cam:554'',
     material_native = Some \<lparr>cred_origin = ''rtsp://cam:554'', cred_principal = ''p'', cred_realm = ''realm'',
       cred_username = ''u'', cred_password = ''x''\<rparr>, material_tunnel = None, material_ca = None\<rparr>"

theorem security_message_faithful_witness:
  "\<exists>bs. encode_security sample_open sample_credentials = Inr bs
     \<and> snd (snd (read_security bs)) ! 4 = [0x75] \<and> snd (snd (read_security bs)) ! 6 = []"
proof -
  have "\<exists>bs. encode_security sample_open sample_credentials = Inr bs"
    by (simp add: encode_security_def concat_results_def uint32_def uint_field_def ipc_string_def from_credential_def
      sample_open_def sample_scope_def sample_credentials_def Let_def max_safe_integer_def control_max_def)
  then obtain bs where bs: "encode_security sample_open sample_credentials = Inr bs" by blast
  from security_message_faithful[OF this] bs show ?thesis
    by (auto simp: security_texts_def sample_credentials_def from_credential_def text_bytes_def Let_def)
qed

subsection \<open>Data frames\<close>





















subsection \<open>READY\<close>

definition requested_tracks :: "media_request \<Rightarrow> int set" where
  "requested_tracks r = {n. n = 1 \<and> req_video r \<noteq> None \<or> n = 2 \<and> req_audio r \<noteq> None \<or> n = 3 \<and> req_metadata r
     \<or> n = 4 \<and> req_backchannel r}"

definition track_ok :: "media_request \<Rightarrow> media_support \<Rightarrow> media_track \<Rightarrow> bool" where
  "track_ok r s t \<longleftrightarrow> (track_receives t \<longleftrightarrow> track_id t \<noteq> 4) \<and> 0 < track_clock_rate t \<and> track_payload_type t \<in> {0..127}
     \<and> (track_id t \<noteq> 3 \<longrightarrow> (\<exists>c cs. map_of media_codecs (track_encoding t) = Some c
          \<and> selected_codecs_for r (track_id t) = Some cs \<and> c \<in> set cs \<and> c \<in> set (decoders s)))"

lemma parse_track_Inr:
  assumes "parse_track r s e = Inr t" shows "track_ok r s t \<and> track_id t \<in> {1..4}"
proof -
  have t: "1 \<le> track_id t \<and> track_id t \<le> 4 \<and> track_receives t = (track_id t \<noteq> 4)
    \<and> (track_id t \<noteq> 3 \<longrightarrow> codec_negotiable r s (get e ''clockRate'') (track_id t) (track_encoding t))
    \<and> 0 \<le> track_payload_type t \<and> track_payload_type t \<le> 127 \<and> 0 < track_clock_rate t"
    using assms by (auto simp: parse_track_def bind_result_Inr_iff uint_field_Inr split: if_split_asm)
  moreover have "codec_negotiable r s w n enc \<Longrightarrow> \<exists>c cs. map_of media_codecs enc = Some c \<and> selected_codecs_for r n = Some cs
      \<and> c \<in> set cs \<and> c \<in> set (decoders s)" for w n enc by (auto simp: codec_negotiable_def split: option.splits)
  ultimately show ?thesis by (auto simp: track_ok_def)
qed

text \<open>
  An accepted READY negotiated exactly the requested tracks, each once, each media track
  with a codec that was requested and that the worker can decode, and only the backchannel sends.
\<close>

theorem ready_negotiates_request:
  assumes "parse_ready v r s = Inr ts"
  shows "distinct (map track_id ts) \<and> set (map track_id ts) = requested_tracks r \<and> (\<forall>t\<in>set ts. track_ok r s t)"
proof -
  have a: "object_array (get v ''tracks'') 4 (parse_track r s) = Inr ts"
    and d: "distinct (map track_id ts)"
    and i: "(req_video r \<noteq> None) = (1 \<in> set (map track_id ts))" "(req_audio r \<noteq> None) = (2 \<in> set (map track_id ts))"
      "req_metadata r = (3 \<in> set (map track_id ts))" "req_backchannel r = (4 \<in> set (map track_id ts))"
    using assms by (auto simp: parse_ready_def Let_def bind_result_Inr_iff split: if_splits)
  have t: "\<forall>t\<in>set ts. track_ok r s t \<and> track_id t \<in> {1..4}"
    using object_array_all[OF a] parse_track_Inr by blast
  have "set (map track_id ts) = requested_tracks r"
  proof (intro equalityI subsetI)
    fix n assume n: "n \<in> set (map track_id ts)"
    then have "n \<in> {1..4}" using t by auto
    then have "n = 1 \<or> n = 2 \<or> n = 3 \<or> n = 4" by auto
    with n i show "n \<in> requested_tracks r" by (auto simp: requested_tracks_def)
  next
    fix n assume "n \<in> requested_tracks r"
    with i show "n \<in> set (map track_id ts)" by (auto simp: requested_tracks_def)
  qed
  with d t show ?thesis by blast
qed

definition sample_support :: media_support where
  "sample_support = \<lparr>support_worker = ''onvif-media-reference'', gstreamer = ''1'', native_revision = ''r'', decoders = [H264],
     support_transports = [TcpInterleaved], controls = [OpenControl, CloseControl, CreditControl, PauseControl, PlayControl],
     tls = False, plugins = [], support_backchannel = False\<rparr>"

definition sample_ready :: js where
  "sample_ready = JObj [(''nativeSessionId'', JStr ''n''), (''state'', JStr ''playing''), (''protocolReady'', JBool True),
     (''receivingIsSeparate'', JBool True),
     (''tracks'', JArr [JObj [(''id'', JNum (Whole 1)), (''encoding'', JStr ''H264''), (''kind'', JStr ''video''),
        (''direction'', JStr ''receive''), (''payloadType'', JNum (Whole 96)), (''clockRate'', JNum (Whole 90000))]])]"

definition sample_track :: media_track where
  "sample_track = \<lparr>track_id = 1, track_kind = VideoTrack, track_receives = True, track_encoding = ''H264'',
     track_payload_type = 96, track_clock_rate = 90000\<rparr>"

lemma sample_ready_parses: "parse_ready sample_ready (open_request sample_open) sample_support = Inr [sample_track]"
  by (simp add: parse_ready_def native_session_id_def text_field_def has_control_char_def sample_ready_def object_array_def
      parse_track_def uint_field_def max_safe_integer_def track_kind_name_def codec_negotiable_def selected_codecs_for_def
      media_codecs_def sample_open_def sample_support_def sample_track_def)

theorem ready_negotiates_request_witness:
  "\<exists>ts. parse_ready sample_ready (open_request sample_open) sample_support = Inr ts \<and> set (map track_id ts) = {1}"
proof -
  have "requested_tracks (open_request sample_open) = {1}" by (auto simp: requested_tracks_def sample_open_def)
  with ready_negotiates_request[OF sample_ready_parses] sample_ready_parses show ?thesis by auto
qed

subsection \<open>CLOSED\<close>

text \<open>
  An accepted CLOSED receipt never claims more than its RTSP status: the remote end is
  acknowledged exactly on a 2xx status, already ended exactly on 454, never created only without
  a status, and every backchannel packet carried between 1 and 160 samples.
\<close>

theorem close_receipt_honest:
  assumes "parse_close v = Inr r"
  shows "(receipt_remote r = Acknowledged \<longleftrightarrow> 200 \<le> receipt_status r \<and> receipt_status r < 300)
     \<and> (receipt_remote r = AlreadyEnded \<longleftrightarrow> receipt_status r = 454)
     \<and> (receipt_remote r = NotCreated \<longrightarrow> receipt_status r = 0)
     \<and> receipt_packets r \<le> receipt_samples r \<and> receipt_samples r \<le> 160 * receipt_packets r
     \<and> 0 \<le> receipt_packets r \<and> 0 \<le> receipt_discarded r \<and> receipt_peak r \<le> 134217728"
proof -
  have "status_agrees (receipt_remote r) (receipt_status r)" "receipt_packets r \<le> receipt_samples r"
    "receipt_samples r \<le> receipt_packets r * 160" "0 \<le> receipt_packets r" "0 \<le> receipt_discarded r" "receipt_peak r \<le> 134217728"
    using assms by (auto simp: parse_close_def bind_result_Inr_iff uint_field_Inr split: js.splits option.splits if_splits)
  then show ?thesis by (cases "receipt_remote r") (auto simp: status_agrees_def)
qed

definition sample_close :: js where
  "sample_close = JObj [(''localCleanup'', JBool True), (''remote'', JStr ''acknowledged''), (''awaitWorkerExit'', JBool True),
     (''teardownStatus'', JNum (Whole 200)), (''backchannelPackets'', JNum (Whole 2)), (''backchannelSamples'', JNum (Whole 320)),
     (''dataDiscardedFrames'', JNum (Whole 0)), (''dataQueuePeakBytes'', JNum (Whole 10))]"

theorem close_receipt_honest_witness:
  "\<exists>r. parse_close sample_close = Inr r \<and> receipt_remote r = Acknowledged"
proof -
  have "\<exists>r. parse_close sample_close = Inr r \<and> receipt_status r = 200"
    by (simp add: parse_close_def sample_close_def remote_outcomes_def uint_field_def max_safe_integer_def status_agrees_def)
  then obtain r where r: "parse_close sample_close = Inr r" "receipt_status r = 200" by blast
  from close_receipt_honest[OF r(1)] r show ?thesis by auto
qed

subsection \<open>Backchannel\<close>

text \<open>
  A backchannel chunk that is accepted and encoded on the sample clock is whole 20 ms blocks
  of 8 kHz PCM, and the worker reads from it the format, the number of samples and the samples.
\<close>

theorem backchannel_message_faithful:
  assumes c: "backchannel_chunk_of v = Inr c" and e: "encode_backchannel c samples = Inr bs"
  shows "get v ''bytes'' = JBytes (drop 16 bs) \<and> get v ''ptsNs'' = JBig (samples * 125000)
     \<and> read16 bs 0 = 4 \<and> read16 bs 2 = 2 \<and> read32 bs 4 = 8000 \<and> read16 bs 8 = 1
     \<and> 2 * read32 bs 12 = length (drop 16 bs) \<and> read32 bs 12 \<in> {160, 320, 480, 640, 800}"
proof -
  obtain pts pcm where pb: "get v ''ptsNs'' = JBig pts" "get v ''bytes'' = JBytes pcm"
    using c by (cases "get v ''ptsNs''"; cases "get v ''bytes''") (simp_all add: backchannel_chunk_of_def split: if_split_asm)
  have c': "c = \<lparr>chunk_pts_ns = pts, chunk_bytes = pcm\<rparr>" and pcm: "pcm \<noteq> []" "length pcm \<le> 1600" "length pcm mod 320 = 0"
    using c by (simp_all add: backchannel_chunk_of_def pb split: if_split_asm)
  have v: "get v ''bytes'' = JBytes (chunk_bytes c)" "get v ''ptsNs'' = JBig (chunk_pts_ns c)"
    and l: "chunk_bytes c \<noteq> []" "length (chunk_bytes c) \<le> 1600" "length (chunk_bytes c) mod 320 = 0"
    using pcm by (simp_all add: c' pb)
  define n where "n = length (chunk_bytes c) div 320"
  have n: "length (chunk_bytes c) = 320 * n" using l(3) by (auto simp: n_def)
  with l have "n = 1 \<or> n = 2 \<or> n = 3 \<or> n = 4 \<or> n = 5" by (cases "chunk_bytes c") auto
  moreover have bs: "bs = be_bytes 2 4 @ be_bytes 2 2 @ be_bytes 4 8000 @ be_bytes 2 1 @ be_bytes 2 0
             @ be_bytes 4 (160 * n) @ chunk_bytes c" "chunk_pts_ns c = samples * 125000"
    using e n by (auto simp: encode_backchannel_def split: if_splits)
  moreover have r: "read16 bs 0 = 4" "read16 bs 2 = 2" "read32 bs 4 = 8000" "read16 bs 8 = 1" "drop 16 bs = chunk_bytes c"
    by (simp_all add: bs(1) read16_def read32_def slice_simps be_value_be_bytes)
  moreover have "read32 bs 12 = 160 * n mod 256 ^ 4"
    by (simp add: bs(1) read32_def slice_simps be_value_be_bytes)
  ultimately show ?thesis using v n by (elim disjE) simp_all
qed

definition sample_chunk :: js where
  "sample_chunk = JObj [(''format'', JStr ''S16LE''), (''sampleRate'', JNum (Whole 8000)), (''channels'', JNum (Whole 1)),
     (''ptsNs'', JBig 20000000), (''bytes'', JBytes (replicate 320 0))]"

theorem backchannel_message_faithful_witness:
  "\<exists>c bs. backchannel_chunk_of sample_chunk = Inr c \<and> encode_backchannel c 160 = Inr bs \<and> 2 * read32 bs 12 = 320"
proof -
  have c: "backchannel_chunk_of sample_chunk = Inr \<lparr>chunk_pts_ns = 20000000, chunk_bytes = replicate 320 0\<rparr>"
    by (simp add: backchannel_chunk_of_def sample_chunk_def)
  obtain bs where e: "encode_backchannel \<lparr>chunk_pts_ns = 20000000, chunk_bytes = replicate 320 0\<rparr> 160 = Inr bs"
    by (simp add: encode_backchannel_def)
  have "get sample_chunk ''bytes'' = JBytes (replicate 320 0)" by (simp add: sample_chunk_def)
  with backchannel_message_faithful[OF c e] have b: "replicate 320 0 = drop 16 bs" "2 * read32 bs 12 = length (drop 16 bs)" by auto
  have "length (replicate 320 (0::byte)) = length (drop 16 bs)" by (simp only: b(1))
  then have "2 * read32 bs 12 = 320" using b(2) by simp
  with c e show ?thesis by blast
qed

end
