(* ===== verification/Media_Session_Lifecycle.thy ===== *)
theory Media_Session_Lifecycle
  imports Media_Session_Laws Media_Protocol_Laws
begin

section \<open>The life cycle of a session\<close>

text \<open>
  The invariant of a session (its phase, the frames it has put on the command pipe, its media
  controls, the honesty of what it reports at the end), the progress every event makes, and the
  interpretation of \<open>session_law\<close> on them. The properties are about every state a session can
  reach from its constructor by any sequence of events.
\<close>

subsection \<open>The invariant\<close>

definition live :: "native_session \<Rightarrow> bool" where
  "live s = (current_state s = Playing \<or> current_state s = Paused)"

definition command_frames :: "session_output list \<Rightarrow> ipc_frame list" where
  "command_frames outs = concat (map (\<lambda>out. case out of CommandFrame f bs \<Rightarrow> [f] | _ \<Rightarrow> []) outs)"

definition is_control :: "nat \<Rightarrow> bool" where
  "is_control k = (k = kind_play \<or> k = kind_pause \<or> k = kind_seek)"

definition control_frames :: "session_output list \<Rightarrow> ipc_frame list" where
  "control_frames outs = filter (\<lambda>f. is_control (kind f)) (command_frames outs)"

definition pending_list :: "native_session \<Rightarrow> nat list" where
  "pending_list s = (case pending_command s of Some p \<Rightarrow> [pending_sequence p] | None \<Rightarrow> [])"

fun phase_rank :: "session_state \<Rightarrow> nat" where
  "phase_rank Opening = 0"
| "phase_rank Playing = 1"
| "phase_rank Paused = 1"
| "phase_rank Closing = 2"
| "phase_rank Closed = 3"

definition silenced :: "native_session \<Rightarrow> bool" where
  "silenced s \<longleftrightarrow> (\<forall>x. queue_ended (streams s x)) \<and> credit_bytes s = 0 \<and> credit_units s = 0
     \<and> readers s = [] \<and> staged s = [] \<and> ending s = None \<and> material s = None \<and> \<not> open_timer s
     \<and> (case sending s of Some b \<Rightarrow> bc_destroyed b | None \<Rightarrow> True)"

definition phase_ok :: "native_session \<Rightarrow> bool" where
  "phase_ok s \<longleftrightarrow>
     (current_state s = Opening \<longrightarrow> current_generation s = 0 \<and> expected_generation s = 1
        \<and> pending_command s = None \<and> ready s = None \<and> sending s = None)
     \<and> (live s \<longrightarrow> open_sent s \<and> 1 \<le> current_generation s \<and> (ready s = None \<or> ready s = Some (Inr ())))
     \<and> (is_closing s \<longrightarrow> silenced s \<and> ready s \<noteq> None \<and> pending_command s = None)
     \<and> (\<not> is_closing s \<longrightarrow> (\<forall>x. \<not> queue_ended (streams s x)) \<and> \<not> close_timer s \<and> \<not> kill_timer s
          \<and> receipt s = None \<and> (\<forall>x. 0 < max_subscribers (streams s x)))
     \<and> (completion s \<noteq> None \<longleftrightarrow> current_state s = Closed)
     \<and> (current_state s = Closing \<longrightarrow> close_timer s \<or> kill_timer s)
     \<and> (current_state s = Closed \<longrightarrow> \<not> close_timer s \<and> \<not> kill_timer s \<and> \<not> watchdog s \<and> queue_ended (diagnostics s))"

definition wire_ok :: "native_session \<Rightarrow> bool" where
  "wire_ok s \<longleftrightarrow>
     session_id s \<le> 0xffffffff \<and> command_sequence s \<le> 0xffffffff
     \<and> map sequence (command_frames (outputs s)) = [1..<Suc (command_sequence s)]
     \<and> sorted (map generation (command_frames (outputs s)))
     \<and> (\<forall>f\<in>set (command_frames (outputs s)). session f = session_id s \<and> generation f \<le> current_generation s)
     \<and> (\<forall>f bs. CommandFrame f bs \<in> set (outputs s) \<longrightarrow>
          envelope (kind f) (session f) (generation f) (sequence f) (payload f) = Inr bs)
     \<and> (open_sent s \<longleftrightarrow> 0 < command_sequence s) \<and> (awaiting_secrets s \<longrightarrow> command_sequence s = 0)
     \<and> (case command_frames (outputs s) of [] \<Rightarrow> True
        | f # fs \<Rightarrow> kind f = kind_open \<and> (\<forall>g\<in>set fs. kind g \<noteq> kind_open))
     \<and> (\<not> is_closing s \<longrightarrow> (\<forall>f\<in>set (command_frames (outputs s)). kind f \<noteq> kind_close))
     \<and> (\<forall>f\<in>set (butlast (command_frames (outputs s))). kind f \<noteq> kind_close)"

text \<open>
  Every control frame has its answer in \<open>control_results\<close>, in order, but for the \<open>lost\<close> ones and the
  pending one.
\<close>

definition answered :: "native_session \<Rightarrow> nat list \<Rightarrow> bool" where
  "answered s lost \<longleftrightarrow>
     map sequence (control_frames (outputs s)) = map fst (control_results s) @ lost @ pending_list s"

definition control_ok :: "native_session \<Rightarrow> bool" where
  "control_ok s \<longleftrightarrow>
     (\<exists>lost. length lost \<le> 1 \<and> answered s lost \<and> (pending_command s \<noteq> None \<longrightarrow> lost = []))
     \<and> (\<forall>p. pending_command s = Some p \<longrightarrow> live s \<and> pending_generation p = expected_generation s)
     \<and> current_generation s \<le> expected_generation s \<and> expected_generation s \<le> 0xffffffff
     \<and> (live s \<and> pending_command s = None \<longrightarrow> expected_generation s = current_generation s)"

text \<open>What the result of a closed session may claim, from a receipt \<open>r\<close> or from none.\<close>

definition honest :: "close_receipt option \<Rightarrow> bool \<Rightarrow> close_result \<Rightarrow> bool" where
  "honest known opened c \<longleftrightarrow>
     (close_failure c = None \<longrightarrow> clean_exit (close_exit c) \<and> close_remote c \<noteq> Uncertain \<and> \<not> close_terminated c)
     \<and> (\<exists>r. (r = None \<or> r = known)
          \<and> close_remote c = (case r of Some x \<Rightarrow> receipt_remote x | None \<Rightarrow> if opened then Uncertain else NotCreated)
          \<and> teardown_status c = (case r of Some x \<Rightarrow> receipt_status x | None \<Rightarrow> 0)
          \<and> close_backchannel c = map_option (\<lambda>x. (receipt_packets x, receipt_samples x)) r
          \<and> (local_cleanup c \<longleftrightarrow> (case r of Some x \<Rightarrow> receipt_cleanup x | None \<Rightarrow> False) \<and> exit_observed (close_exit c)
                \<and> exit_code (close_exit c) = Some 0 \<and> exit_signal (close_exit c) = None \<and> \<not> close_terminated c))"

definition report_ok :: "native_session \<Rightarrow> bool" where
  "report_ok s \<longleftrightarrow> (\<forall>c. completion s = Some c \<longrightarrow> honest (receipt s) (open_sent s) c) \<and> (terminated s \<longrightarrow> session_failure s \<noteq> None)"

definition window_ok :: "native_session \<Rightarrow> bool" where
  "window_ok s \<longleftrightarrow> 0 \<le> credit_units s \<and> (\<not> open_sent s \<longrightarrow> outstanding_units s = 0)"

definition core :: "native_session \<Rightarrow> bool" where
  "core s \<longleftrightarrow> phase_ok s \<and> wire_ok s \<and> control_ok s \<and> report_ok s \<and> window_ok s"

definition settled :: "native_session \<Rightarrow> bool" where
  "settled s \<longleftrightarrow> (live s \<longrightarrow> ready s = Some (Inr ())) \<and> (\<not> is_closing s \<longrightarrow> answered s [])"

definition progress :: "native_session \<Rightarrow> native_session \<Rightarrow> bool" where
  "progress s t \<longleftrightarrow>
     phase_rank (current_state s) \<le> phase_rank (current_state t)
     \<and> current_generation s \<le> current_generation t \<and> data_sequence s \<le> data_sequence t
     \<and> (open_sent s \<longrightarrow> open_sent t) \<and> (session_failure s \<noteq> None \<longrightarrow> session_failure t \<noteq> None)
     \<and> (receipt s \<noteq> None \<longrightarrow> receipt t = receipt s) \<and> (ready s \<noteq> None \<longrightarrow> ready t = ready s)
     \<and> (completion s \<noteq> None \<longrightarrow> completion t = completion s)
     \<and> prefix (control_results s) (control_results t) \<and> prefix (outputs s) (outputs t)
     \<and> session_id t = session_id s \<and> descriptor t = descriptor s \<and> session_mode t = session_mode s"

definition advance :: "native_session \<Rightarrow> native_session \<Rightarrow> bool" where
  "advance s t \<longleftrightarrow> (core s \<longrightarrow> core t \<and> progress s t)"

definition lifecycle :: "native_session \<Rightarrow> native_session \<Rightarrow> bool" where
  "lifecycle s t \<longleftrightarrow> advance s t \<and> (core s \<longrightarrow> settled s \<longrightarrow> settled t)"

lemma settled_cong:
  assumes "current_state t = current_state s" "ready t = ready s" "control_frames (outputs t) = control_frames (outputs s)"
    "control_results t = control_results s" "pending_command t = pending_command s"
  shows "settled t = settled s"
  using assms by (simp add: settled_def answered_def live_def is_closing_def pending_list_def)

lemma settled_closing: "is_closing t \<Longrightarrow> settled t"
  by (auto simp: settled_def live_def is_closing_def)

lemma lifecycle_intro: "(core s \<Longrightarrow> core t \<and> progress s t) \<Longrightarrow> (core s \<Longrightarrow> settled s \<Longrightarrow> settled t) \<Longrightarrow> lifecycle s t"
  by (simp add: lifecycle_def advance_def)

subsection \<open>Quiet and minor steps\<close>

lemma progress_refl [simp]: "progress s s" by (simp add: progress_def)

lemma progress_trans: "progress s t \<Longrightarrow> progress t u \<Longrightarrow> progress s u"
  unfolding progress_def by (elim conjE, intro conjI) (auto intro: prefix_order.trans)

lemma advance_refl [simp]: "advance s s" by (simp add: advance_def)

lemma advance_trans: "advance s t \<Longrightarrow> advance t u \<Longrightarrow> advance s u"
  by (auto simp: advance_def intro: progress_trans)

lemma lifecycle_trans: "lifecycle s t \<Longrightarrow> lifecycle t u \<Longrightarrow> lifecycle s u"
  by (auto simp: lifecycle_def advance_def intro: progress_trans)

lemma lifecycle_advance: "lifecycle s t \<Longrightarrow> advance s t" by (simp add: lifecycle_def)

lemma core_framed:
  assumes "framed s t" "core s"
    "\<And>x. queue_ended (streams t x) = queue_ended (streams s x)" "\<And>x. max_subscribers (streams t x) = max_subscribers (streams s x)"
    "queue_ended (diagnostics t) = queue_ended (diagnostics s)"
    "is_closing s \<Longrightarrow> credit_bytes t = credit_bytes s \<and> credit_units t = credit_units s" "credit_units s \<le> credit_units t"
  shows "core t"
proof -
  note f = framed_fields[OF assms(1)]
  have l: "live t = live s" "is_closing t = is_closing s" "pending_list t = pending_list s"
    by (simp_all add: live_def is_closing_def pending_list_def f)
  have "is_closing s \<Longrightarrow> silenced s \<Longrightarrow> silenced t" using assms(3,6) by (simp add: silenced_def f)
  then have "phase_ok t" using assms(2) unfolding core_def phase_ok_def l f assms(3,4,5) by simp
  moreover have "wire_ok t" using assms(2) by (simp add: core_def wire_ok_def l f)
  moreover have "control_ok t" using assms(2) by (simp add: core_def control_ok_def answered_def l f)
  moreover have "report_ok t" using assms(2) by (simp add: core_def report_ok_def f)
  moreover have "window_ok t" using assms(2,7) by (simp add: core_def window_ok_def f)
  ultimately show ?thesis by (simp add: core_def)
qed

lemma progress_framed: "framed s t \<Longrightarrow> progress s t" by (simp add: progress_def framed_fields)

lemma lifecycle_quiet: "quiet s t \<Longrightarrow> lifecycle s t"
proof (rule lifecycle_intro)
  assume q: "quiet s t"
  show "core s \<Longrightarrow> core t \<and> progress s t"
    using core_framed[of s t] progress_framed[of s t] q by (simp add: quiet_def same_shape_def)
  show "core s \<Longrightarrow> settled s \<Longrightarrow> settled t" using settled_cong[of t s] by (simp add: quiet_fields[OF q])
qed

lemma advance_quiet: "quiet s t \<Longrightarrow> advance s t" by (rule lifecycle_advance[OF lifecycle_quiet])

lemma minor_fields:
  assumes "minor s t"
  shows "t = s\<lparr>control_decoder := control_decoder t, data_decoder := data_decoder t, deferred := deferred t,
           uncaught := uncaught t, stderr_count := stderr_count t, credit_writing := credit_writing t,
           awaiting_secrets := awaiting_secrets t, signal_aborted := signal_aborted t, open_timer := open_timer t\<rparr>"
    "open_timer t \<Longrightarrow> open_timer s" "awaiting_secrets t \<Longrightarrow> awaiting_secrets s"
  using assms by (auto simp: minor_def)

lemma core_minor_update:
  assumes "core s" "ot \<Longrightarrow> open_timer s" "aw \<Longrightarrow> awaiting_secrets s"
    "t = s\<lparr>control_decoder := cd, data_decoder := dd, deferred := df, uncaught := uc, stderr_count := sc,
           credit_writing := cw, awaiting_secrets := aw, signal_aborted := sa, open_timer := ot\<rparr>"
  shows "core t" "progress s t" "settled t = settled s"
proof -
  have l: "live t = live s" "is_closing t = is_closing s" "pending_list t = pending_list s"
    by (simp_all add: live_def is_closing_def pending_list_def assms(4))
  have "silenced s \<Longrightarrow> silenced t" using assms(2) unfolding assms(4) silenced_def by auto
  then have "phase_ok t" using assms(1) unfolding core_def phase_ok_def l unfolding assms(4) by simp
  moreover have "wire_ok t" using assms(1,3) unfolding core_def wire_ok_def l unfolding assms(4) by simp
  moreover have "control_ok t" "report_ok t"
    using assms(1) unfolding core_def control_ok_def answered_def report_ok_def l unfolding assms(4) by simp_all
  moreover have "window_ok t" using assms(1) unfolding core_def window_ok_def unfolding assms(4) by simp
  ultimately show "core t" by (simp add: core_def)
  show "progress s t" by (simp add: assms(4) progress_def)
  show "settled t = settled s" by (rule settled_cong) (simp_all add: assms(4))
qed

lemma lifecycle_minor: "minor s t \<Longrightarrow> lifecycle s t"
  using core_minor_update[OF _ minor_fields(2,3,1)] by (auto simp: lifecycle_def advance_def)

subsection \<open>Frames on the command pipe\<close>

lemma envelope_total:
  assumes "k \<le> 0xffff" "owner \<le> 0xffffffff" "gen \<le> 0xffffffff" "seq \<le> 0xffffffff" "length body \<le> 65536"
  shows "\<exists>bs. envelope k owner gen seq body = Inr bs"
  using assms by (simp add: envelope_def encode_envelope_def data_max_def max_safe_integer_def bind_result_def)

lemma command_frames_simps [simp]:
  "command_frames [] = []" "command_frames (outs @ outs') = command_frames outs @ command_frames outs'"
  "command_frames (CommandFrame f bs # outs) = f # command_frames outs"
  "command_frames (SecretsFrame bs # outs) = command_frames outs" "command_frames (AudioFrame f bs # outs) = command_frames outs"
  "command_frames (EndSecrets # outs) = command_frames outs" "command_frames (EndAudio # outs) = command_frames outs"
  "command_frames (DestroyCommands # outs) = command_frames outs" "command_frames (DestroySecrets # outs) = command_frames outs"
  "command_frames (DestroyAudio # outs) = command_frames outs" "command_frames (TerminateWorker # outs) = command_frames outs"
  by (simp_all add: command_frames_def)

lemma control_frames_simps [simp]:
  "control_frames [] = []" "control_frames (outs @ outs') = control_frames outs @ control_frames outs'"
  "control_frames (CommandFrame f bs # outs) = (if is_control (kind f) then [f] else []) @ control_frames outs"
  "control_frames (SecretsFrame bs # outs) = control_frames outs" "control_frames (AudioFrame f bs # outs) = control_frames outs"
  "control_frames (EndSecrets # outs) = control_frames outs" "control_frames (EndAudio # outs) = control_frames outs"
  "control_frames (DestroyCommands # outs) = control_frames outs" "control_frames (DestroySecrets # outs) = control_frames outs"
  "control_frames (DestroyAudio # outs) = control_frames outs" "control_frames (TerminateWorker # outs) = control_frames outs"
  by (simp_all add: control_frames_def)

lemma audio_ends_frames [simp]:
  "command_frames (audio_ends s) = []" "control_frames (audio_ends s) = []" "CommandFrame f bs \<notin> set (audio_ends s)"
  by (auto simp: audio_ends_def split: option.split)

lemma destroyed_sending_destroyed: "case destroyed_sending s of Some b \<Rightarrow> bc_destroyed b | None \<Rightarrow> True"
  by (auto simp: destroyed_sending_def destroy_backchannel_def split: option.split)

text \<open>One more frame: the sequence number that \<open>allocate_sequence\<close> has just given out.\<close>

lemma wire_frame:
  assumes w: "wire_ok s" and t: "outputs t = outputs s @ xs @ [CommandFrame f bs]" "command_frames xs = []"
    "\<And>g b. CommandFrame g b \<notin> set xs"
    and f: "sequence f = Suc (command_sequence s)" "session f = session_id s" "generation f = current_generation s"
      "envelope (kind f) (session f) (generation f) (sequence f) (payload f) = Inr bs"
    and c: "command_sequence t = Suc (command_sequence s)" "Suc (command_sequence s) \<le> 0xffffffff"
      "session_id t = session_id s" "current_generation t = current_generation s"
      "open_sent t" "\<not> awaiting_secrets t"
    and k: "kind f = kind_open \<longleftrightarrow> command_sequence s = 0" "kind f = kind_close \<Longrightarrow> is_closing t"
      "\<not> is_closing s"
  shows "wire_ok t"
proof -
  let ?F = "command_frames (outputs s)"
  have F: "command_frames (outputs t) = ?F @ [f]" by (simp add: t)
  have len: "length ?F = command_sequence s"
  proof -
    have "map sequence ?F = [1..<Suc (command_sequence s)]" using w by (simp add: wire_ok_def)
    then have "length (map sequence ?F) = length [1..<Suc (command_sequence s)]" by (rule arg_cong)
    then show ?thesis by simp
  qed
  have no_close: "\<forall>g\<in>set ?F. kind g \<noteq> kind_close" using w k(3) by (simp add: wire_ok_def)
  have first: "case ?F @ [f] of [] \<Rightarrow> True | g # gs \<Rightarrow> kind g = kind_open \<and> (\<forall>h\<in>set gs. kind h \<noteq> kind_open)"
    using w k(1) len by (cases ?F) (auto simp: wire_ok_def)
  have seqs: "map sequence (?F @ [f]) = [1..<Suc (Suc (command_sequence s))]" using w f(1) by (simp add: wire_ok_def)
  have gens: "sorted (map generation (?F @ [f]))" using w f(3) by (auto simp: wire_ok_def sorted_append)
  have mem: "\<forall>g\<in>set (?F @ [f]). session g = session_id s \<and> generation g \<le> current_generation s"
    using w f(2,3) by (auto simp: wire_ok_def)
  have enc: "envelope (kind g) (session g) (generation g) (sequence g) (payload g) = Inr b"
    if "CommandFrame g b \<in> set (outputs t)" for g b
    using that w f(4) t(3) by (auto simp: t(1) wire_ok_def)
  have close: "\<not> is_closing t \<longrightarrow> (\<forall>g\<in>set (?F @ [f]). kind g \<noteq> kind_close)" using no_close k(2) by auto
  show ?thesis using w unfolding wire_ok_def F c(1,3,4)
    using seqs gens mem enc first close no_close c(2,5,6) by simp
qed

subsection \<open>Closing\<close>

definition close_reason :: "native_session \<Rightarrow> onvif_error" where
  "close_reason s = or_else (session_failure s) (OnvifError RuntimeClosed NotSent)"

text \<open>The state \<open>begin_close\<close> has prepared when it comes to the CLOSE frame.\<close>

definition closing_state :: "native_session \<Rightarrow> native_session" where
  "closing_state s =
     (put_output DestroyAudio (put_output DestroySecrets (finish_readers (abandon_pending
       (settle_ready (Inl (close_reason s)) (s\<lparr>current_state := Closing, ending := None, open_timer := False\<rparr>))))))
     \<lparr>close_timer := True\<rparr>"

lemma closing_state_fields:
  fixes s defines "t \<equiv> closing_state s"
  shows "session_id t = session_id s" "descriptor t = descriptor s" "session_mode t = session_mode s"
    "current_state t = Closing" "current_generation t = current_generation s" "expected_generation t = expected_generation s"
    "command_sequence t = command_sequence s" "data_sequence t = data_sequence s" "open_sent t = open_sent s"
    "session_failure t = session_failure s" "receipt t = receipt s" "pending_command t = None"
    "completion t = completion s" "close_timer t" "kill_timer t = kill_timer s" "watchdog t = watchdog s"
    "awaiting_secrets t = awaiting_secrets s" "terminated t = terminated s"
    "ready t = (case ready s of None \<Rightarrow> Some (Inl (close_reason s)) | Some r \<Rightarrow> Some r)"
    "control_results t = control_results s @ (case pending_command s of None \<Rightarrow> [] | Some p \<Rightarrow>
       [(pending_sequence p, Inl (or_else (session_failure s) (OnvifError OutcomeUnknown Unknown)))])"
    "outputs t = outputs s @ audio_ends s @ [DestroySecrets, DestroyAudio]"
    "silenced t" "queue_ended (streams t x)" "outstanding_units t = outstanding_units s"
proof -
  define s1 where "s1 = settle_ready (Inl (close_reason s)) (s\<lparr>current_state := Closing, ending := None, open_timer := False\<rparr>)"
  define a where "a = abandon_pending s1"
  define fr where "fr = finish_readers a"
  have t: "t = (put_output DestroyAudio (put_output DestroySecrets fr))\<lparr>close_timer := True\<rparr>"
    by (simp add: t_def closing_state_def s1_def a_def fr_def)
  note F = finished_fields[OF finish_readers_finished[of a], folded fr_def]
  have "sending a = sending s" by (simp add: a_def s1_def abandon_pending_def settle_ready_def split: option.split)
  then have ends: "audio_ends a = audio_ends s" by (simp add: audio_ends_def)
  note defs = a_def s1_def abandon_pending_def settle_ready_def
  show "session_id t = session_id s" "descriptor t = descriptor s" "session_mode t = session_mode s"
    "current_state t = Closing" "current_generation t = current_generation s" "expected_generation t = expected_generation s"
    "command_sequence t = command_sequence s" "data_sequence t = data_sequence s" "open_sent t = open_sent s"
    "session_failure t = session_failure s" "receipt t = receipt s" "pending_command t = None"
    "completion t = completion s" "close_timer t" "kill_timer t = kill_timer s" "watchdog t = watchdog s"
    "awaiting_secrets t = awaiting_secrets s" "terminated t = terminated s"
    "ready t = (case ready s of None \<Rightarrow> Some (Inl (close_reason s)) | Some r \<Rightarrow> Some r)"
    "control_results t = control_results s @ (case pending_command s of None \<Rightarrow> [] | Some p \<Rightarrow>
       [(pending_sequence p, Inl (or_else (session_failure s) (OnvifError OutcomeUnknown Unknown)))])"
    "outputs t = outputs s @ audio_ends s @ [DestroySecrets, DestroyAudio]" "queue_ended (streams t x)"
    "outstanding_units t = outstanding_units s"
    by (simp_all add: t put_output_def F ends, simp_all add: defs split: option.split)
  show "silenced t" using destroyed_sending_destroyed[of a]
    by (simp add: silenced_def t put_output_def F, simp add: defs split: option.split)
qed

lemma begin_close_idle: "is_closing s \<Longrightarrow> begin_close s = (Inr (), s)"
  by (simp add: begin_close_def)

lemma begin_close_eq:
  assumes "\<not> is_closing s"
  shows "begin_close s =
    (if open_sent s \<and> receipt s = None then
       (case allocate_sequence (closing_state s) of
          (Inl e, t) \<Rightarrow> (Inl e, t)
        | (Inr n, t) \<Rightarrow> send kind_close n [] (current_generation t) (t\<lparr>close_sequence := n\<rparr>))
     else (Inr (), put_output DestroyCommands (closing_state s)))"
  using assms by (simp add: begin_close_def closing_state_def close_reason_def Let_def)

text \<open>Outputs other than command frames.\<close>

lemma command_frames_other: "(\<And>f bs. out \<noteq> CommandFrame f bs) \<Longrightarrow> command_frames [out] = []"
  by (cases out) auto

lemma core_outputs:
  assumes "core s" "command_frames xs = []" "\<And>f bs. CommandFrame f bs \<notin> set xs"
  shows "core (s\<lparr>outputs := outputs s @ xs\<rparr>)"
proof -
  let ?t = "s\<lparr>outputs := outputs s @ xs\<rparr>"
  have l: "live ?t = live s" "is_closing ?t = is_closing s" "pending_list ?t = pending_list s" "silenced ?t = silenced s"
    by (simp_all add: live_def is_closing_def pending_list_def silenced_def)
  have "phase_ok ?t" using assms(1) unfolding core_def phase_ok_def l by simp
  moreover have "wire_ok ?t" using assms unfolding core_def wire_ok_def l by simp
  moreover have "control_ok ?t" "report_ok ?t"
    using assms unfolding core_def control_ok_def answered_def report_ok_def control_frames_def l by simp_all
  moreover have "window_ok ?t" using assms(1) unfolding core_def window_ok_def by simp
  ultimately show ?thesis by (simp add: core_def)
qed

lemma lifecycle_outputs:
  "command_frames xs = [] \<Longrightarrow> (\<And>f bs. CommandFrame f bs \<notin> set xs) \<Longrightarrow> lifecycle s (s\<lparr>outputs := outputs s @ xs\<rparr>)"
proof (rule lifecycle_intro)
  assume x: "command_frames xs = []" "\<And>f bs. CommandFrame f bs \<notin> set xs"
  show "core s \<Longrightarrow> core (s\<lparr>outputs := outputs s @ xs\<rparr>) \<and> progress s (s\<lparr>outputs := outputs s @ xs\<rparr>)"
    using core_outputs x by (simp add: progress_def)
  show "settled s \<Longrightarrow> settled (s\<lparr>outputs := outputs s @ xs\<rparr>)"
    using settled_cong[of "s\<lparr>outputs := outputs s @ xs\<rparr>" s] x(1) by (simp add: control_frames_def)
qed

lemma lifecycle_put: "(\<And>f bs. out \<noteq> CommandFrame f bs) \<Longrightarrow> lifecycle s (put_output out s)"
  unfolding put_output_def by (rule lifecycle_outputs) (auto simp: command_frames_other)

text \<open>A CLOSED receipt may have come just before.\<close>

lemma core_closing_receipt:
  assumes "core s0" "\<not> is_closing s0" and s: "s = s0\<lparr>receipt := rc\<rparr>"
  shows "core (closing_state s)" "progress s0 (closing_state s)"
  unfolding s
proof -
  let ?t = "closing_state (s0\<lparr>receipt := rc\<rparr>)"
  note F = closing_state_fields[of s, unfolded s]
  have l: "\<not> live ?t" "is_closing ?t" "pending_list ?t = []" by (simp_all add: live_def is_closing_def pending_list_def F)
  have frames: "command_frames (outputs ?t) = command_frames (outputs s0)" "control_frames (outputs ?t) = control_frames (outputs s0)"
    by (simp_all add: F)
  have state: "current_state s0 \<noteq> Closed" "completion s0 = None" "receipt s0 = None"
    using assms(1,2) by (auto simp: is_closing_def core_def phase_ok_def)
  then have "phase_ok ?t" using assms(1) l unfolding core_def phase_ok_def
    by (simp add: F is_closing_def split: option.split)
  moreover have "wire_ok ?t" using assms(1,2) l unfolding core_def wire_ok_def frames by (auto simp: F)
  moreover have "control_ok ?t" using assms(1) l unfolding core_def control_ok_def answered_def frames
    by (auto simp: F pending_list_def split: option.splits)
  moreover have "report_ok ?t" using assms(1) state unfolding core_def report_ok_def by (simp add: F)
  moreover have "window_ok ?t" using assms(1) unfolding core_def window_ok_def using F(22) by (simp add: F silenced_def)
  ultimately show "core ?t" by (simp add: core_def)
  show "progress s0 ?t" using assms(2) state by (cases "current_state s0") (auto simp: progress_def F is_closing_def)
qed

lemma core_closing_state:
  assumes "core s" "\<not> is_closing s"
  shows "core (closing_state s)" "progress s (closing_state s)"
  using core_closing_receipt[OF assms, of s "receipt s"] by simp_all

lemma begin_close_core:
  assumes c: "core s"
  shows "core (snd (begin_close s)) \<and> progress s (snd (begin_close s))"
proof (cases "is_closing s")
  case True
  then show ?thesis using c by (simp add: begin_close_def)
next
  case opened: False
  let ?c = "closing_state s"
  note F = closing_state_fields[of s]
  note C = core_closing_state[OF c opened]
  consider (plain) "\<not> (open_sent s \<and> receipt s = None)" | (full) "command_sequence s = 0xffffffff" "open_sent s \<and> receipt s = None"
    | (sent) "open_sent s" "receipt s = None" "command_sequence s < 0xffffffff"
    using c by (cases "command_sequence s = 0xffffffff") (auto simp: core_def wire_ok_def)
  then show ?thesis
  proof cases
    case plain
    then show ?thesis using C lifecycle_put[of DestroyCommands ?c] progress_trans
      by (auto simp: begin_close_eq[OF opened] lifecycle_def advance_def)
  next
    case full
    then show ?thesis using C by (simp add: begin_close_eq[OF opened] allocate_sequence_def F)
  next
    case sent
    let ?n = "Suc (command_sequence s)"
    have w: "wire_ok s" using c by (simp add: core_def)
    obtain bs where bs: "envelope kind_close (session_id s) (current_generation s) ?n [] = Inr bs"
      using envelope_total[of kind_close "session_id s" "current_generation s" ?n "[]"] c sent
      by (auto simp: core_def wire_ok_def control_ok_def kind_defs)
    let ?f = "\<lparr>kind = kind_close, session = session_id s, generation = current_generation s, sequence = ?n, payload = []\<rparr>"
    let ?t = "?c\<lparr>command_sequence := ?n, close_sequence := ?n, outputs := outputs ?c @ [CommandFrame ?f bs]\<rparr>"
    have t: "snd (begin_close s) = ?t"
      using sent bs by (simp add: begin_close_eq[OF opened] allocate_sequence_def F send_def put_output_def)
    have l: "live ?t = live ?c" "is_closing ?t = is_closing ?c" "pending_list ?t = pending_list ?c" "silenced ?t = silenced ?c"
      by (simp_all add: live_def is_closing_def pending_list_def silenced_def)
    have "phase_ok ?t" using C(1) unfolding core_def phase_ok_def l by simp
    moreover have "control_ok ?t" "report_ok ?t"
      using C(1) unfolding core_def control_ok_def answered_def report_ok_def l by (simp_all add: is_control_def kind_defs)
    moreover have "window_ok ?t" using C(1) unfolding core_def window_ok_def by simp
    moreover have "wire_ok ?t"
      by (rule wire_frame[OF w, of _ "audio_ends s @ [DestroySecrets, DestroyAudio]" ?f bs])
        (use sent w bs opened in \<open>auto simp: F is_closing_def kind_defs wire_ok_def\<close>)
    ultimately have "core ?t" by (simp add: core_def)
    moreover have "progress ?c ?t" by (simp add: progress_def)
    ultimately show ?thesis using C(2) progress_trans unfolding t by blast
  qed
qed

lemma begin_close_keeps:
  "receipt (snd (begin_close s)) = receipt s" "open_sent (snd (begin_close s)) = open_sent s"
  "session_failure (snd (begin_close s)) = session_failure s"
  "current_state (snd (begin_close s)) = (if current_state s = Closed then Closed else Closing)"
proof -
  let ?t = "snd (begin_close s)"
  have "receipt ?t = receipt s \<and> open_sent ?t = open_sent s \<and> session_failure ?t = session_failure s
    \<and> current_state ?t = (if current_state s = Closed then Closed else Closing)"
  proof (cases "is_closing s")
    case True
    then show ?thesis by (auto simp: begin_close_idle is_closing_def)
  next
    case False
    then show ?thesis
      by (auto simp: begin_close_eq[OF False] allocate_sequence_def send_def put_output_def closing_state_fields is_closing_def
          split: sum.split)
  qed
  then show "receipt ?t = receipt s" "open_sent ?t = open_sent s" "session_failure ?t = session_failure s"
    "current_state ?t = (if current_state s = Closed then Closed else Closing)" by auto
qed

lemma begin_close_closing: "is_closing (snd (begin_close s))"
  by (simp add: is_closing_def begin_close_keeps)

lemma begin_close_lifecycle: "lifecycle s (snd (begin_close s))"
  by (rule lifecycle_intro) (simp_all add: begin_close_core settled_closing begin_close_closing)

subsection \<open>Failing\<close>

lemma set_failure_lifecycle: "lifecycle s (s\<lparr>session_failure := Some e\<rparr>)"
proof -
  let ?t = "s\<lparr>session_failure := Some e\<rparr>"
  have l: "live ?t = live s" "is_closing ?t = is_closing s" "pending_list ?t = pending_list s" "silenced ?t = silenced s"
    by (simp_all add: live_def is_closing_def pending_list_def silenced_def)
  have "core ?t" if "core s"
  proof -
    have "phase_ok ?t" using that unfolding core_def phase_ok_def l by simp
    moreover have "wire_ok ?t" using that unfolding core_def wire_ok_def l by simp
    moreover have "control_ok ?t" using that unfolding core_def control_ok_def answered_def l by simp
    moreover have "report_ok ?t" using that unfolding core_def report_ok_def by simp
    moreover have "window_ok ?t" using that unfolding core_def window_ok_def by simp
    ultimately show ?thesis by (simp add: core_def)
  qed
  moreover have "progress s ?t" by (simp add: progress_def)
  moreover have "settled ?t = settled s" by (rule settled_cong) simp_all
  ultimately show ?thesis by (simp add: lifecycle_def advance_def)
qed

lemma note_failure_lifecycle: "lifecycle s (note_failure e s)"
  unfolding note_failure_def by (rule set_failure_lifecycle)

lemma settle_ready_open [simp]:
  "open_sent (settle_ready r s) = open_sent s" "receipt (settle_ready r s) = receipt s"
  by (simp_all add: settle_ready_def)

text \<open>An error settles \<open>ready\<close> with the very reason \<open>begin_close\<close> would give it.\<close>

lemma fail_eq:
  assumes "\<not> is_closing s"
  shows "fail e s = begin_close (note_failure e s)"
proof -
  let ?f = "or_else (session_failure s) e"
  let ?n = "note_failure e s"
  have n: "\<not> is_closing ?n" "\<not> is_closing (settle_ready (Inl ?f) ?n)"
    using assms by (simp_all add: is_closing_def note_failure_def settle_ready_def)
  have r: "settle_ready (Inl ?f) ((settle_ready (Inl ?f) ?n)\<lparr>current_state := Closing, ending := None, open_timer := False\<rparr>)
      = settle_ready (Inl ?f) (?n\<lparr>current_state := Closing, ending := None, open_timer := False\<rparr>)"
    by (rule native_session.equality) (simp_all add: settle_ready_def)
  have "close_reason ?n = ?f" "close_reason (settle_ready (Inl ?f) ?n) = ?f"
    by (simp_all add: close_reason_def settle_ready_def note_failure_def or_else_def)
  then have c: "closing_state (settle_ready (Inl ?f) ?n) = closing_state ?n" by (simp add: closing_state_def r)
  have "fail e s = begin_close (settle_ready (Inl ?f) ?n)"
    using assms by (simp add: fail_def note_failure_def is_closing_def Let_def)
  also have "\<dots> = begin_close ?n"
    unfolding begin_close_eq[OF n(1)] begin_close_eq[OF n(2)] c settle_ready_open ..
  finally show ?thesis .
qed

lemma fail_closing:
  assumes "core s" "is_closing s"
  shows "fail e s = (Inr (), if current_state s = Closed then s else note_failure e s)"
proof -
  have "ready s \<noteq> None" using assms by (simp add: core_def phase_ok_def)
  moreover have "settle_ready r (note_failure e s) = note_failure e s" if "ready s \<noteq> None" for r
    using that by (simp add: settle_ready_def note_failure_def)
  moreover have "begin_close (note_failure e s) = (Inr (), note_failure e s)"
    by (rule begin_close_idle) (use assms(2) in \<open>simp add: is_closing_def note_failure_def\<close>)
  ultimately show ?thesis by (simp add: fail_def Let_def flip: note_failure_def)
qed

lemma fail_lifecycle: "lifecycle s (snd (fail e s))"
proof (cases "core s \<and> is_closing s")
  case True
  then show ?thesis using note_failure_lifecycle lifecycle_minor[of s s]
    by (simp add: fail_closing minor_def)
next
  case False
  then show ?thesis
    using fail_eq[of s e] lifecycle_trans[OF note_failure_lifecycle begin_close_lifecycle, of s e]
    by (cases "core s") (simp_all add: lifecycle_def advance_def)
qed

lemma fail_settled: "core s \<Longrightarrow> settled (snd (fail e s))"
  by (rule settled_closing, cases "is_closing s")
    (auto simp: fail_closing fail_eq is_closing_def note_failure_def begin_close_closing[unfolded is_closing_def])

lemma fail_repairs: "advance s t \<Longrightarrow> lifecycle s (snd (fail e t))"
  using fail_lifecycle[of t e] fail_settled[of t e] by (auto simp: lifecycle_def advance_def intro: progress_trans)

subsection \<open>The end of the worker\<close>

lemma exit_noted_fields [simp]:
  "receipt (exit_noted x s) = receipt s" "open_sent (exit_noted x s) = open_sent s"
  "current_state (exit_noted x s) = current_state s" "completion (exit_noted x s) = completion s"
  "exit_remote (exit_noted x s) = exit_remote s"
  by (simp_all add: exit_noted_def Let_def note_failure_def exit_remote_def)

lemma exit_noted_lifecycle: "lifecycle s (exit_noted x s)"
proof -
  have n: "lifecycle s (if b then t else s)" if "lifecycle s t" for b s t
    using that lifecycle_minor[of s s] by (simp add: minor_def)
  have m: "lifecycle s (if b then s else t)" if "lifecycle s t" for b s t
    using that lifecycle_minor[of s s] by (simp add: minor_def)
  show ?thesis unfolding exit_noted_def Let_def
    by (rule lifecycle_trans[OF m n]) (rule note_failure_lifecycle)+
qed

lemma exit_noted_failure:
  "session_failure (exit_noted x s) = None \<Longrightarrow> clean_exit x \<and> exit_remote s \<noteq> Uncertain"
  by (auto simp: exit_noted_def Let_def note_failure_def exit_remote_def split: if_splits)

lemma closed_state_fields:
  fixes x s defines "t \<equiv> closed_state x s"
  shows "session_id t = session_id s" "descriptor t = descriptor s" "session_mode t = session_mode s"
    "current_state t = Closed" "current_generation t = current_generation s" "expected_generation t = expected_generation s"
    "command_sequence t = command_sequence s" "data_sequence t = data_sequence s" "open_sent t = open_sent s"
    "session_failure t = session_failure s" "receipt t = receipt s" "pending_command t = pending_command s"
    "completion t = completion s" "\<not> close_timer t" "\<not> kill_timer t" "\<not> watchdog t"
    "awaiting_secrets t = awaiting_secrets s" "terminated t = terminated s"
    "ready t = ready s" "control_results t = control_results s"
    "outputs t = outputs s @ audio_ends s @ [DestroyCommands, DestroySecrets, DestroyAudio]"
    "ending s = None \<Longrightarrow> silenced t" "queue_ended (diagnostics t)" "outstanding_units t = outstanding_units s"
proof -
  define a where "a = s\<lparr>current_state := Closed, watchdog := False, open_timer := False, close_timer := False, kill_timer := False\<rparr>"
  define b where "b = put_output DestroyAudio (put_output DestroySecrets (put_output DestroyCommands (finish_readers a)))"
  define c where "c = diagnostic (diagnose LifecycleDiagnostic
                 (if exit_observed x then ''WorkerExited'' else ''WorkerExitUnconfirmed'') None None) b"
  have t: "t = c\<lparr>diagnostics := finish None (diagnostics c)\<rparr>"
    by (simp add: t_def closed_state_def Let_def a_def b_def c_def)
  have q: "quiet b c" by (simp add: c_def)
  note C = quiet_fields[OF q]
  note F = finished_fields[OF finish_readers_finished[of a]]
  have ends: "audio_ends a = audio_ends s" by (simp add: audio_ends_def a_def)
  show "session_id t = session_id s" "descriptor t = descriptor s" "session_mode t = session_mode s"
    "current_state t = Closed" "current_generation t = current_generation s" "expected_generation t = expected_generation s"
    "command_sequence t = command_sequence s" "data_sequence t = data_sequence s" "open_sent t = open_sent s"
    "session_failure t = session_failure s" "receipt t = receipt s" "pending_command t = pending_command s"
    "completion t = completion s" "\<not> close_timer t" "\<not> kill_timer t" "\<not> watchdog t"
    "awaiting_secrets t = awaiting_secrets s" "terminated t = terminated s"
    "ready t = ready s" "control_results t = control_results s"
    "outputs t = outputs s @ audio_ends s @ [DestroyCommands, DestroySecrets, DestroyAudio]"
    "queue_ended (diagnostics t)" "outstanding_units t = outstanding_units s"
    by (simp_all add: t C b_def put_output_def F ends) (simp_all add: a_def)
  have "current_state b = Closed" by (simp add: b_def put_output_def F) (simp add: a_def)
  then have "is_closing b" by (simp add: is_closing_def)
  then have k: "credit_bytes c = credit_bytes b" "credit_units c = credit_units b"
    and e: "queue_ended (streams c y) = queue_ended (streams b y)" for y
    using q by (simp_all add: quiet_def same_shape_def)
  show "ending s = None \<Longrightarrow> silenced t" using destroyed_sending_destroyed[of a]
    by (simp add: silenced_def t k e C, simp add: b_def put_output_def F, simp add: a_def)
qed

lemma closed_core:
  assumes c: "core s" and k: "current_state s = Closing"
    and f: "session_failure s = None \<Longrightarrow> clean_exit x \<and> remote \<noteq> Uncertain" and r: "remote = exit_remote s"
  defines "t \<equiv> (closed_state x s)\<lparr>completion := Some (close_report x remote (closed_state x s))\<rparr>"
  shows "core t" "progress s t"
proof -
  note F = closed_state_fields[where x = x and s = s]
  have l: "\<not> live s" "is_closing s" "\<not> live t" "is_closing t" "pending_list t = pending_list s"
    by (simp_all add: live_def is_closing_def t_def F k pending_list_def)
  have frames: "command_frames (outputs t) = command_frames (outputs s)" "control_frames (outputs t) = control_frames (outputs s)"
    by (simp_all add: t_def F)
  have s: "silenced s" "ready s \<noteq> None" "pending_command s = None" using c l by (auto simp: core_def phase_ok_def)
  have "silenced t = silenced (closed_state x s)" by (simp add: silenced_def t_def)
  then have st: "silenced t" using F(22) s(1) by (simp add: silenced_def)
  have "phase_ok t" using s l st unfolding phase_ok_def by (simp add: t_def F)
  moreover have "wire_ok t" using c l unfolding core_def wire_ok_def frames by (auto simp: t_def F)
  moreover have "control_ok t" using c l unfolding core_def control_ok_def answered_def frames by (auto simp: t_def F)
  moreover have "report_ok t"
  proof -
    have "terminated s \<Longrightarrow> session_failure s \<noteq> None" using c by (simp add: core_def report_ok_def)
    then have "honest (receipt s) (open_sent s) (close_report x remote (closed_state x s))"
      unfolding honest_def using f by (auto simp: close_report_def F r exit_remote_def intro!: exI[of _ "receipt s"])
    then show ?thesis using c by (simp add: core_def report_ok_def t_def F)
  qed
  moreover have "window_ok t" using c st unfolding core_def window_ok_def by (simp add: t_def F silenced_def)
  ultimately show "core t" by (simp add: core_def)
  have "completion s = None" using c k by (auto simp: core_def phase_ok_def)
  then show "progress s t" by (simp add: progress_def t_def F k)
qed

lemma exited_lifecycle: "lifecycle s (snd (exited x s))"
proof (cases "core s")
  case False
  then show ?thesis by (simp add: lifecycle_def advance_def)
next
  case c: True
  let ?n = "exit_noted x s"
  let ?p = "if current_state s = Closing then (Inr (), ?n) else begin_close ?n"
  consider (closed) "current_state s = Closed"
    | (stuck) e t where "current_state s \<noteq> Closed" "?p = (Inl e, t)"
    | (ends) t where "current_state s \<noteq> Closed" "?p = (Inr (), t)"
    by (cases ?p, cases "fst ?p") auto
  then show ?thesis
  proof cases
    case closed
    then show ?thesis using lifecycle_minor[of s s] by (simp add: exited_def minor_def)
  next
    case stuck
    then have "t = snd (begin_close ?n)" by (cases "current_state s = Closing") auto
    then have "lifecycle s t" using lifecycle_trans[OF exit_noted_lifecycle begin_close_lifecycle] by simp
    then show ?thesis unfolding exited_def using stuck by simp
  next
    case ends
    have t: "t = (if current_state s = Closing then ?n else snd (begin_close ?n))"
      using ends(2) by (cases "current_state s = Closing") auto
    have "lifecycle s t" using exit_noted_lifecycle lifecycle_trans[OF exit_noted_lifecycle begin_close_lifecycle] t by simp
    then have ct: "core t" "progress s t" using c by (simp_all add: lifecycle_def advance_def)
    have state: "current_state t = Closing" using ends(1) by (simp add: t begin_close_keeps)
    have fields: "receipt t = receipt s" "open_sent t = open_sent s" "session_failure t = session_failure ?n"
      by (simp_all add: t begin_close_keeps)
    have f: "session_failure t = None \<Longrightarrow> clean_exit x \<and> exit_remote s \<noteq> Uncertain"
      using exit_noted_failure fields by simp
    have r: "exit_remote s = exit_remote t" by (simp add: exit_remote_def fields)
    note E = closed_core[OF ct(1) state f r]
    have "completion (closed_state x t) = None"
      using ct(1) state by (auto simp: closed_state_fields core_def phase_ok_def)
    then have "snd (exited x s) = (closed_state x t)\<lparr>completion := Some (close_report x (exit_remote s) (closed_state x t))\<rparr>"
      unfolding exited_def Let_def using ends by simp
    then show ?thesis using E progress_trans[OF ct(2)]
      by (simp add: lifecycle_def advance_def settled_closing is_closing_def closed_state_fields)
  qed
qed

subsection \<open>Loose fields\<close>

text \<open>
  The fields the invariant does not mention, and those it only fixes once the session closes.
\<close>

definition sending_closed :: "native_session \<Rightarrow> bool" where
  "sending_closed s = (case sending s of Some b \<Rightarrow> bc_destroyed b | None \<Rightarrow> True)"

definition loose :: "native_session \<Rightarrow> native_session \<Rightarrow> bool" where
  "loose s t \<longleftrightarrow>
     t = s\<lparr>data_sequence := data_sequence t, outstanding_bytes := outstanding_bytes t, outstanding_units := outstanding_units t,
           staged := staged t, staged_bytes := staged_bytes t, negotiated := negotiated t, native_identity := native_identity t,
           inventory := inventory t, abandoned := abandoned t, ending := ending t, readers := readers t,
           sending := sending t, material := material t, unit_sizes := unit_sizes t\<rparr>
     \<and> data_sequence s \<le> data_sequence t \<and> (open_sent s \<or> outstanding_units t = outstanding_units s)
     \<and> (is_closing s \<longrightarrow> staged t = staged s \<and> ending t = ending s \<and> (readers s = [] \<longrightarrow> readers t = [])
          \<and> (sending_closed s \<longrightarrow> sending_closed t) \<and> (material t = material s \<or> material t = None))
     \<and> (current_state s = Opening \<longrightarrow> sending s = None \<longrightarrow> sending t = None)"

lemma loose_lifecycle:
  assumes "loose s t" shows "lifecycle s t"
proof -
  define u where "u = s\<lparr>data_sequence := data_sequence t, outstanding_bytes := outstanding_bytes t, outstanding_units := outstanding_units t,
           staged := staged t, staged_bytes := staged_bytes t, negotiated := negotiated t, native_identity := native_identity t,
           inventory := inventory t, abandoned := abandoned t, ending := ending t, readers := readers t,
           sending := sending t, material := material t, unit_sizes := unit_sizes t\<rparr>"
  have t: "t = u" using assms unfolding loose_def u_def by blast
  have l: "live t = live s" "is_closing t = is_closing s" "pending_list t = pending_list s"
    unfolding t by (simp_all add: live_def is_closing_def pending_list_def u_def)
  have si: "silenced t" if "silenced s" "is_closing s"
  proof -
    have k: "staged t = []" "ending t = None" "readers t = []" "sending_closed t" "material t = None"
      using assms that unfolding loose_def silenced_def sending_closed_def by auto
    have o: "streams t = streams s" "credit_bytes t = credit_bytes s" "credit_units t = credit_units s" "open_timer t = open_timer s"
      unfolding t by (simp_all add: u_def)
    show ?thesis using that(1) k unfolding silenced_def o sending_closed_def by auto
  qed
  have so: "current_state s = Opening \<Longrightarrow> sending s = None \<Longrightarrow> sending t = None" using assms by (simp add: loose_def)
  have f: "current_state t = current_state s" "current_generation t = current_generation s"
    "expected_generation t = expected_generation s" "pending_command t = pending_command s" "ready t = ready s"
    "open_sent t = open_sent s" "streams t = streams s" "close_timer t = close_timer s" "kill_timer t = kill_timer s"
    "receipt t = receipt s" "completion t = completion s" "watchdog t = watchdog s" "diagnostics t = diagnostics s"
    unfolding t by (simp_all add: u_def)
  have "phase_ok t" if "core s"
  proof -
    have p: "phase_ok s" using that by (simp add: core_def)
    then have "is_closing s \<Longrightarrow> silenced t" using si by (simp add: phase_ok_def)
    with p so show ?thesis unfolding phase_ok_def l f by auto
  qed
  moreover have "wire_ok t" if "core s" using that unfolding core_def wire_ok_def l unfolding t by (simp add: u_def)
  moreover have "control_ok t" if "core s" using that unfolding core_def control_ok_def answered_def l unfolding t by (simp add: u_def)
  moreover have "report_ok t" if "core s" using that unfolding core_def report_ok_def unfolding t by (simp add: u_def)
  moreover have "window_ok t" if "core s" using that assms unfolding core_def window_ok_def loose_def unfolding t by (auto simp: u_def)
  moreover have "progress s t" using assms unfolding progress_def f loose_def unfolding t by (simp add: u_def)
  moreover have "settled t = settled s" unfolding t by (rule settled_cong) (simp_all add: u_def)
  ultimately show ?thesis by (simp add: lifecycle_def advance_def core_def)
qed

lemma lifecycle_refl [simp, intro]: "lifecycle s s" by (rule lifecycle_minor) (simp add: minor_def)

subsection \<open>Timers\<close>

lemma timers_core:
  assumes "core s" "current_state s = Closing"
    "close_timer t \<or> kill_timer t" "t = s\<lparr>close_timer := ct, kill_timer := kt, terminated := tm\<rparr>" "tm \<Longrightarrow> session_failure s \<noteq> None"
  shows "core t" "progress s t"
proof -
  have l: "live t = live s" "is_closing t = is_closing s" "pending_list t = pending_list s" "silenced t = silenced s"
    by (simp_all add: live_def is_closing_def pending_list_def silenced_def assms(4))
  have "is_closing s" using assms(2) by (simp add: is_closing_def)
  then have "phase_ok t" using assms(1-3) unfolding core_def phase_ok_def l unfolding assms(4) by simp
  moreover have "wire_ok t" using assms(1) unfolding core_def wire_ok_def l unfolding assms(4) by simp
  moreover have "control_ok t" using assms(1) unfolding core_def control_ok_def answered_def l unfolding assms(4) by simp
  moreover have "report_ok t" using assms(1,5) unfolding core_def report_ok_def unfolding assms(4) by auto
  moreover have "window_ok t" using assms(1) unfolding core_def window_ok_def unfolding assms(4) by simp
  ultimately show "core t" by (simp add: core_def)
  show "progress s t" by (simp add: progress_def assms(4))
qed

lemma close_timer_state: "core s \<Longrightarrow> close_timer s \<or> kill_timer s \<Longrightarrow> current_state s = Closing"
  by (cases "current_state s") (auto simp: core_def phase_ok_def is_closing_def)

lemma close_deadline_lifecycle: "lifecycle s (close_deadline b s)"
proof (cases "core s \<and> close_timer s")
  case True
  define e where "e = OnvifError OutcomeUnknown Unknown"
  define u where "u = diagnostic (diagnose LifecycleDiagnostic ''OwnedWorkerTermination'' None None) (note_failure e s)"
  define tm where "tm = (case b of Inr t \<Rightarrow> t | Inl _ \<Rightarrow> terminated s)"
  define v where "v = u\<lparr>close_timer := False, kill_timer := True, terminated := tm\<rparr>"
  define w where "w = (case b of Inr _ \<Rightarrow> v | Inl e \<Rightarrow> v\<lparr>session_failure := Some (media_error e Unknown)\<rparr>)"
  have q: "quiet (note_failure e s) u" by (simp add: u_def)
  have su: "lifecycle s u" by (rule lifecycle_trans[OF note_failure_lifecycle lifecycle_quiet[OF q]])
  have u: "core u" "progress s u" using su True by (simp_all add: lifecycle_def advance_def)
  have uf: "current_state u = Closing" "session_failure u \<noteq> None"
    using close_timer_state[of s] True by (simp_all add: quiet_fields[OF q] note_failure_def)
  have v: "core v" "progress u v"
    by (rule timers_core[OF u(1) uf(1)]; simp add: v_def uf(2))+
  have "lifecycle v w" using set_failure_lifecycle by (simp add: w_def split: sum.split)
  then have w: "core w" "progress v w" using v by (simp_all add: lifecycle_def advance_def)
  have eq: "close_deadline b s = w\<lparr>outputs := outputs w @ [TerminateWorker, DestroyCommands]\<rparr>"
    using True unfolding close_deadline_def Let_def w_def v_def u_def e_def tm_def
    by (cases b; intro native_session.equality)
      (simp_all add: put_output_def note_failure_def diagnostic_def Let_def)
  have o: "lifecycle w (close_deadline b s)" unfolding eq by (rule lifecycle_outputs) auto
  have "settled (close_deadline b s)"
    unfolding eq by (rule settled_closing) (simp add: is_closing_def w_def v_def uf split: sum.split)
  then show ?thesis using o w v(2) u(2) unfolding lifecycle_def advance_def by (metis progress_trans)
qed (auto simp: close_deadline_def lifecycle_def advance_def)

lemma exited_timer:
  assumes "current_state s = Closing"
  shows "exited x (s\<lparr>kill_timer := b\<rparr>) = exited x s"
proof -
  have n: "exit_noted x (s\<lparr>kill_timer := b\<rparr>) = (exit_noted x s)\<lparr>kill_timer := b\<rparr>"
    by (rule native_session.equality) (simp_all add: exit_noted_def Let_def note_failure_def exit_remote_def sent_execution_def)
  have c: "closed_state x (t\<lparr>kill_timer := b\<rparr>) = closed_state x t" for t
    by (simp add: closed_state_def)
  show ?thesis using assms by (simp add: exited_def n c exit_remote_def Let_def)
qed

lemma kill_deadline_lifecycle: "lifecycle s (kill_deadline s)"
proof (cases "core s \<and> kill_timer s")
  case True
  let ?x = "\<lparr>exit_observed = False, exit_code = None, exit_signal = None, spawn_failed = False\<rparr>"
  have "current_state s = Closing" using True close_timer_state by blast
  then have "kill_deadline s = escape (exited ?x s)" using True by (simp add: kill_deadline_def exited_timer)
  moreover have "lifecycle s (escape (exited ?x s))"
    using exited_lifecycle[of s ?x] lifecycle_trans[OF _ lifecycle_minor]
    by (cases "exited ?x s") (auto simp: escape_def split: sum.split)
  ultimately show ?thesis by simp
qed (auto simp: kill_deadline_def lifecycle_def advance_def)

subsection \<open>Data\<close>

lemma loose_updates:
  "data_sequence s \<le> n \<Longrightarrow> loose s (s\<lparr>data_sequence := n\<rparr>)"
  "open_sent s \<Longrightarrow> loose s (s\<lparr>outstanding_bytes := i, outstanding_units := j\<rparr>)"
  "\<not> is_closing s \<Longrightarrow> loose s (s\<lparr>staged := xs, staged_bytes := j\<rparr>)"
  "loose s (s\<lparr>staged := [], staged_bytes := j\<rparr>) \<or> is_closing s"
  "\<not> is_closing s \<Longrightarrow> loose s (s\<lparr>ending := e\<rparr>)" "loose s (s\<lparr>negotiated := ts\<rparr>)"
  "loose s (s\<lparr>inventory := iv\<rparr>)" "loose s (s\<lparr>abandoned := ab\<rparr>)" "loose s (s\<lparr>material := None\<rparr>)"
  "\<not> is_closing s \<Longrightarrow> loose s (s\<lparr>readers := rs\<rparr>)" "readers s = [] \<longrightarrow> rs = [] \<Longrightarrow> loose s (s\<lparr>readers := rs\<rparr>)"
  "\<not> is_closing s \<Longrightarrow> current_state s \<noteq> Opening \<Longrightarrow> loose s (s\<lparr>sending := b\<rparr>)"
  by (auto simp: loose_def sending_closed_def)

lemma ending_open: "core s \<Longrightarrow> ending s \<noteq> None \<Longrightarrow> \<not> is_closing s"
  by (auto simp: core_def phase_ok_def silenced_def)

lemma lifecycleI: "(core s \<Longrightarrow> lifecycle s t) \<Longrightarrow> lifecycle s t"
  by (auto simp: lifecycle_def advance_def)

lemma quiet_end_streams: "quiet s (update_stream Frames end_queue (update_stream Metadata end_queue (update_stream Packets end_queue s)))"
proof -
  have "quiet s (update_stream x end_queue s)" for x s by (rule quiet_update_stream) simp
  then show ?thesis by (blast intro: quiet_trans)
qed

lemma finish_generation_lifecycle: "lifecycle s (snd (finish_generation s))"
proof (rule lifecycleI)
  assume c: "core s"
  show ?thesis
  proof (cases "ending s")
    case None
    then show ?thesis by (simp add: finish_generation_def)
  next
    case (Some e)
    have "\<not> is_closing s" using ending_open[OF c] Some by simp
    then have "lifecycle s (s\<lparr>ending := Some (e\<lparr>end_complete := True\<rparr>)\<rparr>)"
      by (rule loose_lifecycle[OF loose_updates(5)])
    then have "lifecycle s (diagnostic d (update_stream Frames end_queue (update_stream Metadata end_queue
        (update_stream Packets end_queue (s\<lparr>ending := Some (e\<lparr>end_complete := True\<rparr>)\<rparr>)))))" for d
      by (rule lifecycle_trans) (rule lifecycle_quiet[OF quiet_trans[OF quiet_end_streams quiet_diagnostic]])
    then show ?thesis using Some by (simp add: finish_generation_def Let_def)
  qed
qed

lemma flush_staged_lifecycle: "\<not> is_closing s \<Longrightarrow> lifecycle s (snd (flush_staged decode s))"
proof -
  assume "\<not> is_closing s"
  then have l: "lifecycle s (s\<lparr>staged := [], staged_bytes := 0\<rparr>)" by (rule loose_lifecycle[OF loose_updates(3)])
  obtain r t where d: "deliver_all decode (staged s) (s\<lparr>staged := [], staged_bytes := 0\<rparr>) = (r, t)" by (metis prod.exhaust)
  have "lifecycle s t"
    using lifecycle_trans[OF l lifecycle_quiet] quiet_deliver_all[of "s\<lparr>staged := [], staged_bytes := 0\<rparr>" decode "staged s"] d by simp
  then show ?thesis using lifecycle_trans[OF _ finish_generation_lifecycle, of s t]
    by (simp add: flush_staged_def d split: sum.split)
qed

definition stage_full :: "nat \<Rightarrow> native_session \<Rightarrow> bool" where
  "stage_full n s \<longleftrightarrow> int (length (staged s)) \<ge> queue_units (session_limits s)
        \<or> staged_bytes s + int n > queue_bytes (session_limits s)"

definition unstage :: "staged_unit \<Rightarrow> staged_unit list \<Rightarrow> native_session \<Rightarrow> native_session" where
  "unstage x xs s = drop_unit ''GenerationQueueOverflow'' None
     (release x (s\<lparr>staged := xs, staged_bytes := staged_bytes s - int (staged_size x)\<rparr>))"

lemma stage_room_idle: "\<not> stage_full n s \<Longrightarrow> stage_room n s = (Inr True, s)"
  by (subst stage_room.simps) (simp add: stage_full_def)

lemma stage_room_recorded: "stage_full n s \<Longrightarrow> session_mode s = Recorded \<Longrightarrow> stage_room n s = (raise InvalidValue, s)"
  by (subst stage_room.simps) (simp add: stage_full_def)

lemma stage_room_Nil: "stage_full n s \<Longrightarrow> session_mode s \<noteq> Recorded \<Longrightarrow> staged s = [] \<Longrightarrow>
    stage_room n s = (Inr False, credit (int n) (drop_unit ''GenerationQueueOverflow'' None s))"
  by (subst stage_room.simps) (simp add: stage_full_def)

lemma stage_room_Cons: "stage_full n s \<Longrightarrow> session_mode s \<noteq> Recorded \<Longrightarrow> staged s = x # xs \<Longrightarrow>
    stage_room n s = stage_room n (unstage x xs s)"
  by (subst stage_room.simps) (simp add: stage_full_def unstage_def)

lemma staged_unstage [simp]: "staged (unstage x xs s) = xs"
proof -
  have "quiet (s\<lparr>staged := xs, staged_bytes := b\<rparr>) (drop_unit c t (release x (s\<lparr>staged := xs, staged_bytes := b\<rparr>)))" for c t b
    by (rule quiet_trans[OF quiet_release quiet_drop])
  from quiet_fields(25)[OF this] show ?thesis by (simp add: unstage_def)
qed

text \<open>The loop, as a case distinction to recurse on.\<close>

lemma stage_room_rule:
  assumes "\<And>s. \<not> stage_full n s \<Longrightarrow> P s (Inr True, s)"
    and "\<And>s. stage_full n s \<Longrightarrow> session_mode s = Recorded \<Longrightarrow> P s (raise InvalidValue, s)"
    and "\<And>s. stage_full n s \<Longrightarrow> session_mode s \<noteq> Recorded \<Longrightarrow> staged s = [] \<Longrightarrow>
      P s (Inr False, credit (int n) (drop_unit ''GenerationQueueOverflow'' None s))"
    and "\<And>s x xs p. stage_full n s \<Longrightarrow> session_mode s \<noteq> Recorded \<Longrightarrow> staged s = x # xs \<Longrightarrow>
      P (unstage x xs s) p \<Longrightarrow> P s p"
  shows "P s (stage_room n s)"
proof (induction "length (staged s)" arbitrary: s)
  case 0
  then show ?case using assms(1-3)[of s] stage_room_idle stage_room_recorded stage_room_Nil
    by (cases "stage_full n s"; cases "session_mode s = Recorded") auto
next
  case (Suc k)
  then obtain x xs where st: "staged s = x # xs" by (cases "staged s") auto
  then have "P (unstage x xs s) (stage_room n (unstage x xs s))" using Suc by simp
  then show ?case using assms(1,2)[of s] assms(4)[of s x xs] st stage_room_idle stage_room_recorded stage_room_Cons
    by (cases "stage_full n s"; cases "session_mode s = Recorded") auto
qed

lemma stage_room_lifecycle: "\<not> is_closing s \<longrightarrow> lifecycle s (snd (stage_room n s)) \<and> \<not> is_closing (snd (stage_room n s))"
proof (rule stage_room_rule[of n "\<lambda>s p. \<not> is_closing s \<longrightarrow> lifecycle s (snd p) \<and> \<not> is_closing (snd p)"],
    goal_cases room recorded empty shift)
  case (empty s)
  have q: "quiet s (credit (int n) (drop_unit c t s))" for c t by (rule quiet_trans[OF quiet_drop quiet_credit])
  show ?case using q quiet_closing[OF q] by (simp add: lifecycle_quiet)
next
  case (shift s x xs p)
  let ?a = "s\<lparr>staged := xs, staged_bytes := staged_bytes s - int (staged_size x)\<rparr>"
  have q: "quiet ?a (unstage x xs s)" unfolding unstage_def by (rule quiet_trans[OF quiet_release quiet_drop])
  have "is_closing (unstage x xs s) = is_closing s" using quiet_closing[OF q] by (simp add: is_closing_def)
  moreover have "\<not> is_closing s \<longrightarrow> lifecycle s (unstage x xs s)"
    using lifecycle_trans[OF loose_lifecycle[OF loose_updates(3)] lifecycle_quiet[OF q]] by blast
  ultimately show ?case using shift(4) lifecycle_trans by blast
qed simp_all

lemma place_unit_lifecycle: "\<not> is_closing s \<Longrightarrow> lifecycle s (snd (place_unit decode gen item s))"
proof -
  assume op: "\<not> is_closing s"
  note fin = lifecycle_trans[OF _ finish_generation_lifecycle]
  have drop: "lifecycle s (release item (drop_unit c t s))" for c t
    by (rule lifecycle_quiet[OF quiet_trans[OF quiet_drop quiet_release]])
  obtain r t where st: "stage_room (staged_size item) s = (r, t)" by (cases "stage_room (staged_size item) s")
  have t: "lifecycle s t" "\<not> is_closing t" using stage_room_lifecycle[of s "staged_size item"] op st by auto
  have u: "lifecycle s (t\<lparr>staged := xs, staged_bytes := b\<rparr>)" for xs b
    by (rule lifecycle_trans[OF t(1) loose_lifecycle[OF loose_updates(3)[OF t(2)]]])
  obtain q v where de: "deliver decode item s = (q, v)" by (cases "deliver decode item s")
  have v: "lifecycle s v" using quiet_deliver[of s decode item] lifecycle_quiet de by simp
  show ?thesis unfolding place_unit_def st de using t(1) v fin[OF drop] fin[OF u] fin[OF v]
    by (simp split: sum.split bool.split)
qed

lemma data_frame_lifecycle: "lifecycle s (snd (data_frame decode f s))"
proof (cases "is_closing s \<or> data_unexpected f s")
  case True
  then show ?thesis by (auto simp: data_frame_def lifecycle_quiet)
next
  case ok: False
  define g where "g = sequence_gap (sequence f) s"
  define s1 where "s1 = g\<lparr>data_sequence := sequence f\<rparr>"
  have qg: "quiet s g" by (simp add: g_def)
  have "data_sequence g \<le> sequence f" using ok by (simp add: quiet_fields[OF qg] data_unexpected_def)
  then have l1: "lifecycle s s1" unfolding s1_def
    by (rule lifecycle_trans[OF lifecycle_quiet[OF qg] loose_lifecycle[OF loose_updates(1)]])
  have l2: "lifecycle s (s1\<lparr>outstanding_bytes := i, outstanding_units := j\<rparr>)" for i j
    by (rule lifecycle_trans[OF l1 loose_lifecycle[OF loose_updates(2)]])
      (use ok in \<open>simp add: s1_def quiet_fields[OF qg] data_unexpected_def\<close>)
  have "\<not> is_closing (s1\<lparr>outstanding_bytes := i, outstanding_units := j\<rparr>)" for i j
    using ok by (simp add: is_closing_def s1_def quiet_fields[OF qg])
  then have "lifecycle s (snd (place_unit decode gen item (s1\<lparr>outstanding_bytes := i, outstanding_units := j\<rparr>)))" for gen item i j
    by (rule lifecycle_trans[OF l2 place_unit_lifecycle])
  then show ?thesis using ok l1 unfolding data_frame_def Let_def g_def[symmetric] s1_def[symmetric]
    by (simp split: sum.split)
qed

subsection \<open>Commands of a live session\<close>

text \<open>
  One frame goes out with the next sequence number; a media control also becomes the pending one.
\<close>

lemma frame_core:
  assumes c: "core s" and op: "\<not> is_closing s" "open_sent s" "command_sequence s < 0xffffffff"
    and k: "k \<le> 0xffff" "k \<noteq> kind_open" "k \<noteq> kind_close" "length body \<le> 65536"
    and p: "if is_control k then pending_command s = None \<and> live s \<and> answered s [] \<and> p = Some \<lparr>pending_kind = k, pending_sequence = Suc (command_sequence s),
        pending_generation = g\<rparr> \<and> current_generation s \<le> g \<and> g \<le> 0xffffffff else p = pending_command s \<and> g = expected_generation s"
    and t: "t = (s\<lparr>pending_command := p, expected_generation := g, command_sequence := Suc (command_sequence s)\<rparr>)"
  shows "\<exists>bs. send k (Suc (command_sequence s)) body (current_generation t) t
      = (Inr (), t\<lparr>outputs := outputs t @ [CommandFrame \<lparr>kind = k, session = session_id s, generation = current_generation s,
           sequence = Suc (command_sequence s), payload = body\<rparr> bs]\<rparr>)"
    "core (snd (send k (Suc (command_sequence s)) body (current_generation t) t))"
    "progress s (snd (send k (Suc (command_sequence s)) body (current_generation t) t))"
proof -
  let ?n = "Suc (command_sequence s)"
  let ?f = "\<lparr>kind = k, session = session_id s, generation = current_generation s, sequence = ?n, payload = body\<rparr>"
  have w: "wire_ok s" using c by (simp add: core_def)
  have b: "session_id s \<le> 0xffffffff" "current_generation s \<le> 0xffffffff" "?n \<le> 0xffffffff"
    using c op(3) by (auto simp: core_def wire_ok_def control_ok_def)
  obtain bs where bs: "envelope k (session_id s) (current_generation s) ?n body = Inr bs"
    using envelope_total[OF k(1) b k(4)] by blast
  let ?u = "t\<lparr>outputs := outputs t @ [CommandFrame ?f bs]\<rparr>"
  have u: "send k ?n body (current_generation t) t = (Inr (), ?u)" using bs by (simp add: send_def t put_output_def)
  then show "\<exists>bs. send k ?n body (current_generation t) t = (Inr (), t\<lparr>outputs := outputs t @ [CommandFrame ?f bs]\<rparr>)" by blast
  have l: "live ?u = live s" "is_closing ?u = is_closing s" "silenced ?u = silenced s"
    by (simp_all add: live_def is_closing_def silenced_def t)
  have np: "current_state s = Opening \<Longrightarrow> p = pending_command s \<and> g = expected_generation s"
    using p by (auto simp: live_def split: if_splits)
  have "phase_ok ?u"
  proof -
    have ph: "phase_ok s" using c by (simp add: core_def)
    show ?thesis using ph np op(1) unfolding phase_ok_def l unfolding t by auto
  qed
  moreover have "wire_ok ?u"
    by (rule wire_frame[OF w, of _ "[]" ?f bs]) (use op k b bs w in \<open>auto simp: t wire_ok_def\<close>)
  moreover have "control_ok ?u"
    using c p unfolding core_def control_ok_def answered_def l
    by (cases "is_control k") (auto simp: t pending_list_def)
  moreover have "report_ok ?u" using c unfolding core_def report_ok_def unfolding t by simp
  moreover have "window_ok ?u" using c unfolding core_def window_ok_def unfolding t by simp
  ultimately show "core (snd (send k ?n body (current_generation t) t))" by (simp add: u core_def)
  show "progress s (snd (send k ?n body (current_generation t) t))" unfolding u progress_def unfolding t by simp
qed

lemma credits_update:
  assumes "\<not> is_closing s" "open_sent s"
  shows "lifecycle s (s\<lparr>outstanding_bytes := i, outstanding_units := j, credit_bytes := 0, credit_units := 0, credit_writing := b\<rparr>)"
proof -
  have q: "framed (s\<lparr>credit_writing := b\<rparr>) (s\<lparr>credit_writing := b, credit_bytes := 0, credit_units := 0\<rparr>)"
    by (simp add: framed_def)
  let ?a = "s\<lparr>outstanding_bytes := i, outstanding_units := j\<rparr>"
  let ?b = "?a\<lparr>credit_writing := b\<rparr>"
  let ?c = "?b\<lparr>credit_bytes := 0, credit_units := 0\<rparr>"
  have a: "lifecycle s ?b"
    by (rule lifecycle_trans[OF loose_lifecycle[OF loose_updates(2)[OF assms(2)]] lifecycle_minor[OF minor_updates(6)]])
  have l: "live ?c = live ?b" "is_closing ?c = is_closing ?b" "pending_list ?c = pending_list ?b"
    by (simp_all add: live_def is_closing_def pending_list_def)
  have o: "\<not> is_closing ?b" using assms(1) by (simp add: is_closing_def)
  have "lifecycle ?b ?c"
  proof (rule lifecycle_intro)
    assume c: "core ?b"
    have "phase_ok ?c" using c o unfolding core_def phase_ok_def l by auto
    moreover have "wire_ok ?c" using c unfolding core_def wire_ok_def l by simp
    moreover have "control_ok ?c" using c unfolding core_def control_ok_def answered_def l by simp
    moreover have "report_ok ?c" using c unfolding core_def report_ok_def by simp
    moreover have "window_ok ?c" using c unfolding core_def window_ok_def by simp
    ultimately show "core ?c \<and> progress ?b ?c" by (simp add: core_def progress_def)
  next
    show "settled ?b \<Longrightarrow> settled ?c" using settled_cong[of ?c ?b] by simp
  qed
  moreover have "?c = s\<lparr>outstanding_bytes := i, outstanding_units := j, credit_bytes := 0, credit_units := 0, credit_writing := b\<rparr>"
    by (rule native_session.equality) simp_all
  ultimately show ?thesis using lifecycle_trans[OF a] by simp
qed

lemma flush_credits_lifecycle: "lifecycle s (snd (flush_credits s))"
proof (rule lifecycleI)
  assume c: "core s"
  let ?idle = "credit_units s = 0 \<or> credit_writing s \<or> is_closing s
    \<or> credit_bytes s > outstanding_bytes s \<or> credit_units s > outstanding_units s"
  show ?thesis
  proof (cases ?idle)
    case True
    then show ?thesis by (auto simp: flush_credits_def)
  next
    case False
    define body where "body = be_bytes 4 (nat (credit_bytes s)) @ be_bytes 4 (nat (credit_units s))"
    define t where "t = s\<lparr>outstanding_bytes := outstanding_bytes s - credit_bytes s,
                   outstanding_units := outstanding_units s - credit_units s,
                   credit_bytes := 0, credit_units := 0, credit_writing := True\<rparr>"
    have op: "open_sent s" using c False by (auto simp: core_def window_ok_def)
    have st: "lifecycle s t" unfolding t_def by (rule credits_update) (use False op in auto)
    then have t: "core t" "progress s t" using c by (simp_all add: lifecycle_def advance_def)
    have eq: "flush_credits s = (case allocate_sequence t of (Inl e, u) \<Rightarrow> (Inl e, u)
        | (Inr n, u) \<Rightarrow> send kind_credit n body (current_generation u) u)"
      using False unfolding flush_credits_def Let_def t_def body_def by simp
    show ?thesis
    proof (cases "command_sequence s = 0xffffffff")
      case True
      then show ?thesis using st by (simp add: eq allocate_sequence_def t_def)
    next
      case more: False
      have lt: "command_sequence t < 0xffffffff" using more c by (auto simp: t_def core_def wire_ok_def)
      let ?u = "t\<lparr>command_sequence := Suc (command_sequence t)\<rparr>"
      have eq2: "flush_credits s = send kind_credit (Suc (command_sequence t)) body (current_generation ?u) ?u"
        using lt by (simp add: eq allocate_sequence_def)
      have "core (snd (flush_credits s)) \<and> progress t (snd (flush_credits s))"
        using frame_core(2,3)[where k = kind_credit and body = body and s = t and t = ?u
            and p = "pending_command t" and g = "expected_generation t"] t(1) False op lt
        by (simp add: eq2 is_control_def kind_defs is_closing_def) (simp add: t_def body_def)
      moreover have "settled (snd (flush_credits s)) = settled t"
        by (rule settled_cong) (auto simp: eq2 send_def put_output_def is_control_def kind_defs split: sum.split)
      ultimately show ?thesis using st t by (auto simp: lifecycle_def advance_def intro: progress_trans)
    qed
  qed
qed

subsection \<open>Opening\<close>

lemma encode_open_length: "encode_open d = Inr bs \<Longrightarrow> length bs \<le> 65536"
  by (auto simp: encode_open_def bind_result_Inr_iff control_max_def split: if_splits)

lemma open_core:
  assumes c: "core s" and st: "current_state s = Opening" "command_sequence s = 0" "\<not> awaiting_secrets s"
    and len: "length body \<le> 65536"
    and t: "t = s\<lparr>command_sequence := 1, open_sequence := 1, open_sent := True\<rparr>"
  shows "core (snd (send kind_open 1 body 0 t))" "progress s (snd (send kind_open 1 body 0 t))"
proof -
  let ?f = "\<lparr>kind = kind_open, session = session_id s, generation = 0, sequence = 1, payload = body\<rparr>"
  have w: "wire_ok s" and cg: "current_generation s = 0" using c st by (auto simp: core_def phase_ok_def)
  have op: "\<not> is_closing s" using st by (simp add: is_closing_def)
  obtain bs where bs: "envelope kind_open (session_id s) 0 1 body = Inr bs"
    using envelope_total[of kind_open "session_id s" 0 1 body] w len by (auto simp: wire_ok_def kind_defs)
  let ?u = "t\<lparr>outputs := outputs t @ [CommandFrame ?f bs]\<rparr>"
  have u: "send kind_open 1 body 0 t = (Inr (), ?u)" using bs by (simp add: send_def t put_output_def)
  have l: "live ?u = live s" "is_closing ?u = is_closing s" "silenced ?u = silenced s" "pending_list ?u = pending_list s"
    by (simp_all add: live_def is_closing_def silenced_def t pending_list_def)
  have "phase_ok ?u" using c unfolding core_def phase_ok_def l unfolding t by simp
  moreover have "wire_ok ?u"
    by (rule wire_frame[OF w, of _ "[]" ?f bs]) (use op st cg bs in \<open>auto simp: t kind_defs\<close>)
  moreover have "control_ok ?u" using c unfolding core_def control_ok_def answered_def l unfolding t by (simp add: is_control_def kind_defs)
  moreover have "report_ok ?u"
  proof -
    have "completion s = None" using c st by (auto simp: core_def phase_ok_def)
    then show ?thesis using c unfolding core_def report_ok_def unfolding t by simp
  qed
  moreover have "window_ok ?u" using c unfolding core_def window_ok_def unfolding t by simp
  ultimately show "core (snd (send kind_open 1 body 0 t))" unfolding u snd_conv core_def by blast
  show "progress s (snd (send kind_open 1 body 0 t))" unfolding u progress_def unfolding t by simp
qed

lemma continue_open_lifecycle:
  assumes "awaiting_secrets s" shows "lifecycle s (snd (continue_open (s\<lparr>awaiting_secrets := False\<rparr>)))"
proof (rule lifecycleI)
  assume c: "core s"
  let ?a = "put_output EndSecrets (s\<lparr>awaiting_secrets := False\<rparr>)"
  have a: "lifecycle s ?a" by (rule lifecycle_trans[OF lifecycle_minor[OF minor_updates(7)] lifecycle_put]) simp
  then have ca: "core ?a" "progress s ?a" using c by (simp_all add: lifecycle_def advance_def)
  have seq: "command_sequence ?a = 0" "\<not> awaiting_secrets ?a"
    using c assms by (simp_all add: core_def wire_ok_def put_output_def)
  let ?stop = "current_state ?a \<noteq> Opening \<or> signal_aborted ?a"
  show "lifecycle s (snd (continue_open (s\<lparr>awaiting_secrets := False\<rparr>)))"
  proof (cases ?stop)
    case True
    then show ?thesis using a by (simp add: continue_open_def Let_def)
  next
    case go: False
    show ?thesis
    proof (cases "encode_open (descriptor ?a)")
      case (Inl e)
      then show ?thesis using a go by (simp add: continue_open_def Let_def)
    next
      case (Inr body)
      let ?t = "?a\<lparr>command_sequence := 1, open_sequence := 1, open_sent := True\<rparr>"
      have eq: "continue_open (s\<lparr>awaiting_secrets := False\<rparr>) = send kind_open 1 body 0 ?t"
        using go Inr seq unfolding continue_open_def Let_def by (simp add: allocate_sequence_def)
      have st: "current_state ?a = Opening" using go by simp
      note o = open_core[OF ca(1) st seq encode_open_length[OF Inr] HOL.refl]
      have "settled (snd (send kind_open 1 body 0 ?t)) = settled ?a"
        by (rule settled_cong) (auto simp: send_def put_output_def is_control_def kind_defs split: sum.split)
      then show ?thesis using a c o unfolding eq lifecycle_def advance_def by (auto intro: progress_trans)
    qed
  qed
qed

lemma begin_open_lifecycle:
  assumes "command_sequence s = 0" shows "lifecycle s (snd (begin_open s))"
proof -
  have m: "lifecycle s (s\<lparr>material := None\<rparr>)" by (rule loose_lifecycle[OF loose_updates(9)])
  have "lifecycle s (put_output (SecretsFrame bs) (s\<lparr>material := None, awaiting_secrets := True\<rparr>))" for bs
  proof (rule lifecycle_trans[OF _ lifecycle_put])
    let ?a = "s\<lparr>material := None\<rparr>"
    let ?t = "s\<lparr>material := None, awaiting_secrets := True\<rparr>"
    have l: "live ?t = live ?a" "is_closing ?t = is_closing ?a" "silenced ?t = silenced ?a" "pending_list ?t = pending_list ?a"
      by (simp_all add: live_def is_closing_def silenced_def pending_list_def)
    have "core ?a \<longrightarrow> core ?t"
    proof
      assume c: "core ?a"
      have "phase_ok ?t" using c unfolding core_def phase_ok_def l by simp
      moreover have "wire_ok ?t" using c assms unfolding core_def wire_ok_def l by simp
      moreover have "control_ok ?t" using c unfolding core_def control_ok_def answered_def l by simp
      moreover have "report_ok ?t" using c unfolding core_def report_ok_def by simp
      moreover have "window_ok ?t" using c unfolding core_def window_ok_def by simp
      ultimately show "core ?t" by (simp add: core_def)
    qed
    moreover have "progress ?a ?t" by (simp add: progress_def)
    moreover have "settled ?t = settled ?a" by (rule settled_cong) simp_all
    ultimately have "lifecycle ?a ?t" by (auto simp: lifecycle_def advance_def)
    with m show "lifecycle s ?t" by (rule lifecycle_trans)
  qed simp
  then show ?thesis using m by (auto simp: begin_open_def Let_def split: option.split sum.split)
qed

subsection \<open>Control messages\<close>

lemma on_hello_lifecycle: "lifecycle s (snd (on_hello f v s))"
proof (rule lifecycleI)
  assume c: "core s"
  show ?thesis
  proof (cases "inventory s \<noteq> None \<or> session f \<noteq> 0 \<or> generation f \<noteq> 0 \<or> sequence f \<noteq> 0 \<or> open_sent s")
    case True
    then show ?thesis by (auto simp: on_hello_def)
  next
    case False
    show ?thesis
    proof (cases "parse_support v")
      case (Inl e)
      then show ?thesis using False by (simp add: on_hello_def)
    next
      case (Inr support)
      let ?a = "s\<lparr>inventory := Some support\<rparr>"
      have a: "lifecycle s ?a" by (rule loose_lifecycle[OF loose_updates(7)])
      have "command_sequence s = 0" using c False by (simp add: core_def wire_ok_def)
      then have "lifecycle ?a (snd (begin_open ?a))" by (intro begin_open_lifecycle) simp
      then have b: "lifecycle s (snd (begin_open ?a))" by (rule lifecycle_trans[OF a])
      obtain r t where o: "begin_open ?a = (r, t)" by (cases "begin_open ?a")
      have "lifecycle s (t\<lparr>deferred := es\<rparr>)" for es
        using lifecycle_trans[OF b lifecycle_minor[OF minor_updates(3)]] o by simp
      then show ?thesis using a b False Inr o by (auto simp: on_hello_def Let_def split: sum.split)
    qed
  qed
qed

lemma receipt_lifecycle:
  assumes "is_closing s" "receipt s = None" shows "lifecycle s (s\<lparr>receipt := Some r\<rparr>)"
proof (rule lifecycle_intro)
  let ?t = "s\<lparr>receipt := Some r\<rparr>"
  have l: "live ?t = live s" "is_closing ?t = is_closing s" "pending_list ?t = pending_list s" "silenced ?t = silenced s"
    by (simp_all add: live_def is_closing_def pending_list_def silenced_def)
  assume c: "core s"
  have "phase_ok ?t" using c assms(1) unfolding core_def phase_ok_def l by simp
  moreover have "wire_ok ?t" using c unfolding core_def wire_ok_def l by simp
  moreover have "control_ok ?t" using c unfolding core_def control_ok_def answered_def l by simp
  moreover have "report_ok ?t" using c assms(2) unfolding core_def report_ok_def honest_def by fastforce
  moreover have "window_ok ?t" using c unfolding core_def window_ok_def by simp
  ultimately show "core ?t \<and> progress s ?t" using assms(2) by (simp add: core_def progress_def)
  show "settled s \<Longrightarrow> settled ?t" using settled_cong[of ?t s] by simp
qed

lemma on_closed_lifecycle: "lifecycle s (snd (on_closed f v s))"
proof (rule lifecycleI)
  assume c: "core s"
  show ?thesis
  proof (cases "receipt s \<noteq> None \<or> generation f < current_generation s \<or> sequence f \<noteq> 0 \<and> sequence f \<noteq> close_sequence s")
    case True
    then show ?thesis by (auto simp: on_closed_def)
  next
    case False
    then have n: "receipt s = None" by simp
    show ?thesis
    proof (cases "parse_close v")
      case (Inl e)
      then show ?thesis using False by (simp add: on_closed_def)
    next
      case (Inr r)
      let ?a = "s\<lparr>receipt := Some r\<rparr>"
      show ?thesis
      proof (cases "is_closing s")
        case True
        then show ?thesis using receipt_lifecycle[OF True n, of r] False Inr by (simp add: on_closed_def is_closing_def)
      next
        case op: False
        let ?e = "OnvifError TransportError Unknown"
        let ?b = "(note_failure ?e s)\<lparr>receipt := Some r\<rparr>"
        have nb: "note_failure ?e ?a = ?b" by (rule native_session.equality) (simp_all add: note_failure_def)
        have ob: "\<not> is_closing ?b" "\<not> is_closing (note_failure ?e s)" "\<not> is_closing ?a"
          using op by (simp_all add: is_closing_def note_failure_def)
        have ns: "core (note_failure ?e s)" "progress s (note_failure ?e s)"
          using note_failure_lifecycle[of s ?e] c by (simp_all add: lifecycle_def advance_def)
        note C = core_closing_receipt[OF ns(1) ob(2) HOL.refl, of "Some r"]
        have eq: "snd (on_closed f v s) = put_output DestroyCommands (closing_state ?b)"
          using False Inr ob begin_close_eq[OF ob(1)] by (auto simp: on_closed_def Let_def nb)
        have p: "lifecycle (closing_state ?b) (snd (on_closed f v s))" unfolding eq by (rule lifecycle_put) simp
        have "is_closing (snd (on_closed f v s))" by (simp add: eq put_output_def is_closing_def closing_state_fields)
        then show ?thesis using p C ns(2) settled_closing
          by (auto simp: lifecycle_def advance_def intro: progress_trans)
      qed
    qed
  qed
qed

lemma observation_lifecycle:
  "lifecycle s (snd (on_response v s))" "lifecycle s (snd (on_gap v s))" "lifecycle s (snd (on_diagnostic v s))"
  by (auto simp: on_response_def on_gap_def on_diagnostic_def lifecycle_quiet split: js.split)

lemma on_end_lifecycle: "lifecycle s (snd (on_end now f v s))"
proof -
  have "lifecycle s (snd (finish_generation (s\<lparr>ending := Some e\<rparr>)))" if "\<not> is_closing s" for e
    by (rule lifecycle_trans[OF loose_lifecycle[OF loose_updates(5)[OF that]] finish_generation_lifecycle])
  then show ?thesis by (simp add: on_end_def)
qed

subsection \<open>READY and CONTROL\<close>

text \<open>A session in a sound state, and the law of its events; a handler that raises keeps \<open>core\<close>.\<close>

definition sound :: "native_session \<Rightarrow> bool" where
  "sound s \<longleftrightarrow> core s \<and> settled s"

definition sound_step :: "native_session \<Rightarrow> native_session \<Rightarrow> bool" where
  "sound_step s t \<longleftrightarrow> (sound s \<longrightarrow> sound t \<and> progress s t)"

definition raised_step :: "native_session \<Rightarrow> native_session \<Rightarrow> bool" where
  "raised_step s t \<longleftrightarrow> (sound s \<longrightarrow> core t \<and> progress s t)"

lemma lifecycle_sound: "lifecycle s t \<Longrightarrow> sound_step s t"
  by (simp add: lifecycle_def advance_def sound_step_def sound_def)

lemma sound_raised: "sound_step s t \<Longrightarrow> raised_step s t"
  by (simp add: sound_step_def raised_step_def sound_def)

lemma lawful_lifecycle: "lifecycle s (snd p) \<Longrightarrow> lawful sound_step raised_step s p"
  using lifecycle_sound sound_raised by (auto simp: lawful_def split: sum.split)

lemma lawfulI:
  assumes "sound s \<Longrightarrow> core (snd p) \<and> progress s (snd p)" "\<And>x. sound s \<Longrightarrow> fst p = Inr x \<Longrightarrow> settled (snd p)"
  shows "lawful sound_step raised_step s p"
  using assms by (auto simp: lawful_def sound_step_def raised_step_def sound_def split: sum.split)

lemma settle_core:
  assumes "core s" "live s" shows "core (settle_ready (Inr ()) s)" "progress s (settle_ready (Inr ()) s)"
    "ready (settle_ready (Inr ()) s) = Some (Inr ())"
proof -
  let ?t = "s\<lparr>ready := Some (Inr ())\<rparr>"
  have l: "live ?t = live s" "is_closing ?t = is_closing s" "pending_list ?t = pending_list s" "silenced ?t = silenced s"
    by (simp_all add: live_def is_closing_def pending_list_def silenced_def)
  have r: "ready s = None \<or> ready s = Some (Inr ())" using assms by (simp add: core_def phase_ok_def)
  have o: "current_state s \<noteq> Opening" using assms by (auto simp: live_def)
  have "phase_ok ?t" using assms o unfolding core_def phase_ok_def l by simp
  moreover have "wire_ok ?t" using assms(1) unfolding core_def wire_ok_def l by simp
  moreover have "control_ok ?t" using assms(1) unfolding core_def control_ok_def answered_def l by simp
  moreover have "report_ok ?t" using assms(1) unfolding core_def report_ok_def by simp
  moreover have "window_ok ?t" using assms(1) unfolding core_def window_ok_def by simp
  ultimately have "core ?t" by (simp add: core_def)
  then show "core (settle_ready (Inr ()) s)" "progress s (settle_ready (Inr ()) s)"
    "ready (settle_ready (Inr ()) s) = Some (Inr ())"
    using assms(1) r by (auto simp: settle_ready_def progress_def)
qed

lemma started_core:
  assumes c: "core s" and st: "current_state s = Opening" "open_sent s"
    and t: "t = s\<lparr>negotiated := ts, native_identity := ni, open_timer := False, current_generation := 1,
      current_state := Playing, sending := b\<rparr>"
  shows "core t" "progress s t" "live t" "\<not> is_closing t"
proof -
  have l: "live t" "\<not> is_closing t" "pending_list t = pending_list s" "\<not> is_closing s"
    using st by (simp_all add: live_def is_closing_def pending_list_def t)
  have g: "current_generation s = 0" "expected_generation s = 1" "pending_command s = None" using c st by (auto simp: core_def phase_ok_def)
  have "phase_ok t" using c st l unfolding core_def phase_ok_def t by (auto simp: live_def is_closing_def)
  moreover have "wire_ok t" using c l g unfolding core_def wire_ok_def by (auto simp: t)
  moreover have "control_ok t" using c g unfolding core_def control_ok_def answered_def l by (simp add: t)
  moreover have "report_ok t" using c unfolding core_def report_ok_def unfolding t by simp
  moreover have "window_ok t" using c unfolding core_def window_ok_def unfolding t by simp
  ultimately show "core t" by (simp add: core_def)
  show "progress s t" using st g by (simp add: progress_def t)
  show "live t" "\<not> is_closing t" by fact+
qed

lemma flush_keeps:
  assumes "lifecycle s t" "core s" shows "core t" "progress s t"
  using assms by (simp_all add: lifecycle_def advance_def)

lemma finish_generation_keeps:
  "current_state (snd (finish_generation s)) = current_state s"
  "current_generation (snd (finish_generation s)) = current_generation s"
  "expected_generation (snd (finish_generation s)) = expected_generation s"
  "pending_command (snd (finish_generation s)) = pending_command s"
  "control_results (snd (finish_generation s)) = control_results s"
  "outputs (snd (finish_generation s)) = outputs s" "ready (snd (finish_generation s)) = ready s"
proof -
  have "quiet u (diagnostic d (update_stream Frames end_queue (update_stream Metadata end_queue (update_stream Packets end_queue u))))" for d u
    by (rule quiet_trans[OF quiet_end_streams quiet_diagnostic])
  note F = quiet_fields[OF this]
  show "current_state (snd (finish_generation s)) = current_state s"
    "current_generation (snd (finish_generation s)) = current_generation s"
    "expected_generation (snd (finish_generation s)) = expected_generation s"
    "pending_command (snd (finish_generation s)) = pending_command s"
    "control_results (snd (finish_generation s)) = control_results s"
    "outputs (snd (finish_generation s)) = outputs s" "ready (snd (finish_generation s)) = ready s"
    by (auto simp: finish_generation_def Let_def F split: option.split)
qed

lemma flush_staged_keeps:
  "current_state (snd (flush_staged decode s)) = current_state s"
  "current_generation (snd (flush_staged decode s)) = current_generation s"
  "expected_generation (snd (flush_staged decode s)) = expected_generation s"
  "pending_command (snd (flush_staged decode s)) = pending_command s"
  "control_results (snd (flush_staged decode s)) = control_results s"
  "outputs (snd (flush_staged decode s)) = outputs s" "ready (snd (flush_staged decode s)) = ready s"
proof -
  obtain r t where d: "deliver_all decode (staged s) (s\<lparr>staged := [], staged_bytes := 0\<rparr>) = (r, t)" by (metis prod.exhaust)
  have "quiet (s\<lparr>staged := [], staged_bytes := 0\<rparr>) t"
    using quiet_deliver_all[of "s\<lparr>staged := [], staged_bytes := 0\<rparr>" decode "staged s"] d by simp
  note F = quiet_fields[OF this]
  show "current_state (snd (flush_staged decode s)) = current_state s"
    "current_generation (snd (flush_staged decode s)) = current_generation s"
    "expected_generation (snd (flush_staged decode s)) = expected_generation s"
    "pending_command (snd (flush_staged decode s)) = pending_command s"
    "control_results (snd (flush_staged decode s)) = control_results s"
    "outputs (snd (flush_staged decode s)) = outputs s" "ready (snd (flush_staged decode s)) = ready s"
    by (simp_all add: flush_staged_def d F finish_generation_keeps split: sum.split)
qed

lemma on_ready_lawful: "lawful sound_step raised_step s (on_ready decode f v s)"
proof -
  let ?idle = "current_state s \<noteq> Opening \<or> \<not> open_sent s \<or> generation f \<noteq> 1 \<or> sequence f \<noteq> open_sequence s"
  consider (early) "?idle" | (start) "\<not> ?idle" by blast
  then show ?thesis
  proof cases
    case early
    have "lifecycle s (snd (on_ready decode f v s))"
      using early by (auto simp: on_ready_def lifecycle_quiet split: sum.split)
    then show ?thesis by (rule lawful_lifecycle)
  next
    case start
    have st: "current_state s = Opening" "open_sent s" using start by auto
    consider (tracks) e where "ready_tracks v s = Inl e" | (identity) ts e where "ready_tracks v s = Inr ts" "native_session_id v = Inl e"
      | (ok) ts ni where "ready_tracks v s = Inr ts" "native_session_id v = Inr ni"
      by (cases "ready_tracks v s"; cases "native_session_id v") auto
    then show ?thesis
    proof cases
      case tracks
      then have "on_ready decode f v s = (Inl e, s)" using start by (simp add: on_ready_def)
      then show ?thesis using lawful_lifecycle[of s "(Inl e, s)"] by simp
    next
      case identity
      then have "on_ready decode f v s = (Inl e, s\<lparr>negotiated := ts\<rparr>)" using start by (simp add: on_ready_def)
      then show ?thesis using lawful_lifecycle[of s "(Inl e, s\<lparr>negotiated := ts\<rparr>)"] loose_lifecycle[OF loose_updates(6)] by simp
    next
      case ok
      let ?s1 = "s\<lparr>negotiated := ts, native_identity := ni, open_timer := False, current_generation := 1, current_state := Playing\<rparr>"
      define s2 where "s2 = (if \<exists>t\<in>set ts. track_id t = 4 then ?s1\<lparr>sending := Some new_backchannel\<rparr> else put_output EndAudio ?s1)"
      define p where "p = flush_staged decode s2"
      have eq: "on_ready decode f v s = (case p of (Inl e, t) \<Rightarrow> (Inl e, t) | (Inr _, t) \<Rightarrow> (Inr (), settle_ready (Inr ()) t))"
        using start ok by (simp add: on_ready_def Let_def s2_def p_def)
      have s2: "core s2" "progress s s2" "live s2" "\<not> is_closing s2" if c: "core s"
      proof -
        let ?t = "\<lambda>b. s\<lparr>negotiated := ts, native_identity := ni, open_timer := False, current_generation := 1,
          current_state := Playing, sending := b\<rparr>"
        have plain: "s2 = (if \<exists>t\<in>set ts. track_id t = 4 then ?t (Some new_backchannel) else put_output EndAudio (?t (sending s)))"
          by (simp add: s2_def)
        note T = started_core[OF c st HOL.refl]
        have "core (put_output EndAudio (?t (sending s)))" "progress s (put_output EndAudio (?t (sending s)))"
          using lifecycle_put[of EndAudio "?t (sending s)"] T[where ts = ts and ni = ni and b = "sending s"] progress_trans
          unfolding lifecycle_def advance_def by blast+
        then show "core s2" "progress s s2" "live s2" "\<not> is_closing s2"
          using T[where ts = ts and ni = ni and b = "Some new_backchannel"] unfolding s2_def plain
          by (simp_all add: put_output_def live_def is_closing_def)
      qed
      have t: "core (snd p)" "progress s (snd p)" "live (snd p)" if c: "core s"
      proof -
        have l: "lifecycle s2 (snd p)" unfolding p_def by (rule flush_staged_lifecycle[OF s2(4)[OF c]])
        show "core (snd p)" "progress s (snd p)" using flush_keeps[OF l s2(1)[OF c]] s2(2)[OF c] progress_trans by auto
        show "live (snd p)" using s2(3)[OF c] by (simp add: live_def p_def flush_staged_keeps)
      qed
      have ans: "answered (snd p) []" if "sound s"
      proof -
        have c: "core s" using that by (simp add: sound_def)
        have n: "pending_command s = None" "\<not> live s" using c st by (auto simp: core_def phase_ok_def live_def)
        have e: "control_frames (outputs (snd p)) = control_frames (outputs s)" "control_results (snd p) = control_results s"
          "pending_list (snd p) = pending_list s"
          by (simp_all add: p_def flush_staged_keeps s2_def put_output_def pending_list_def)
        show ?thesis using that st by (simp add: sound_def settled_def answered_def e is_closing_def)
      qed
      show ?thesis
      proof (rule lawfulI)
        assume "sound s"
        then have c: "core s" by (simp add: sound_def)
        show "core (snd (on_ready decode f v s)) \<and> progress s (snd (on_ready decode f v s))"
          unfolding eq using t[OF c] settle_core progress_trans by (cases p) (auto split: sum.split)
      next
        fix x assume so: "sound s" and r: "fst (on_ready decode f v s) = Inr x"
        then have c: "core s" by (simp add: sound_def)
        then obtain u where p: "p = (Inr u, snd p)" using r unfolding eq by (cases p) (auto split: sum.splits)
        have e: "snd (on_ready decode f v s) = settle_ready (Inr ()) (snd p)" unfolding eq by (subst p) simp
        show "settled (snd (on_ready decode f v s))" unfolding e
          using settle_core(3)[OF t(1,3)[OF c]] ans[OF so] by (simp add: settled_def answered_def settle_ready_def pending_list_def)
      qed
    qed
  qed
qed

text \<open>The acknowledged control: its generation starts, then it stops pending, then it is answered.\<close>

lemma acknowledged_core:
  assumes c: "core s" and p: "pending_command s = Some p" and t: "t = s\<lparr>current_generation := pending_generation p, current_state := st\<rparr>"
    and st: "st = Playing \<or> st = Paused"
  shows "core t" "progress s t" "live t" "\<not> is_closing t"
proof -
  have k: "live s" "pending_generation p = expected_generation s" "current_generation s \<le> expected_generation s"
    using c p by (auto simp: core_def control_ok_def)
  have l: "live t" "\<not> is_closing t" "pending_list t = pending_list s" "\<not> is_closing s"
    using k(1) st by (auto simp: live_def is_closing_def pending_list_def t)
  have cs: "current_state s \<noteq> Closed" using l(4) by (simp add: is_closing_def)
  have "phase_ok t" using c k l(1,2,4) st cs unfolding core_def phase_ok_def by (auto simp: t)
  moreover have "wire_ok t" using c k l(2,4) unfolding core_def wire_ok_def by (auto simp: t intro: order_trans)
  moreover have "control_ok t"
  proof -
    have e: "outputs t = outputs s" "control_results t = control_results s" "pending_command t = pending_command s"
      "expected_generation t = expected_generation s" "current_generation t = pending_generation p"
      by (simp_all add: t)
    show ?thesis using c k p l unfolding core_def control_ok_def answered_def e by auto
  qed
  moreover have "report_ok t" using c unfolding core_def report_ok_def unfolding t by simp
  moreover have "window_ok t" using c unfolding core_def window_ok_def unfolding t by simp
  ultimately show "core t" by (simp add: core_def)
  show "progress s t" using k st by (auto simp: progress_def t live_def)
  show "live t" "\<not> is_closing t" by fact+
qed

lemma unpend_core:
  assumes c: "core s" and p: "pending_command s = Some p" "current_generation s = expected_generation s"
    and t: "t = s\<lparr>pending_command := None\<rparr>"
  shows "core t" "progress s t" "answered t [pending_sequence p]"
proof -
  have l: "live t = live s" "is_closing t = is_closing s" "silenced t = silenced s" by (simp_all add: live_def is_closing_def silenced_def t)
  have a: "answered s []" using c p(1) by (auto simp: core_def control_ok_def)
  then show an: "answered t [pending_sequence p]" using p(1) by (simp add: answered_def t pending_list_def)
  have "phase_ok t" using c unfolding core_def phase_ok_def l unfolding t by simp
  moreover have "wire_ok t" using c unfolding core_def wire_ok_def l unfolding t by simp
  moreover have "control_ok t" using c p an unfolding core_def control_ok_def l
    by (auto simp: t intro!: exI[of _ "[pending_sequence p]"])
  moreover have "report_ok t" using c unfolding core_def report_ok_def unfolding t by simp
  moreover have "window_ok t" using c unfolding core_def window_ok_def unfolding t by simp
  ultimately show "core t" by (simp add: core_def)
  show "progress s t" by (simp add: progress_def t)
qed

lemma answer_core:
  assumes c: "core s" and a: "answered s [n]" "pending_command s = None" and t: "t = s\<lparr>control_results := control_results s @ [(n, r)]\<rparr>"
  shows "core t" "progress s t" "answered t []"
proof -
  have l: "live t = live s" "is_closing t = is_closing s" "silenced t = silenced s" by (simp_all add: live_def is_closing_def silenced_def t)
  show an: "answered t []" using a by (simp add: answered_def t pending_list_def)
  have "phase_ok t" using c unfolding core_def phase_ok_def l unfolding t by simp
  moreover have "wire_ok t" using c unfolding core_def wire_ok_def l unfolding t by simp
  moreover have "control_ok t" using c a(2) an unfolding core_def control_ok_def l by (auto simp: t intro!: exI[of _ "[]"])
  moreover have "report_ok t" using c unfolding core_def report_ok_def unfolding t by simp
  moreover have "window_ok t" using c unfolding core_def window_ok_def unfolding t by simp
  ultimately show "core t" by (simp add: core_def)
  show "progress s t" by (simp add: progress_def t)
qed

lemma on_control_lawful: "lawful sound_step raised_step s (on_control decode f v s)"
proof (cases "core s")
  case False
  then show ?thesis by (intro lawfulI) (simp_all add: sound_def)
next
  case c: True
  let ?pend = "case pending_command s of Some p \<Rightarrow> Some p | None \<Rightarrow> if current_state s = Closing then abandoned s else None"
  let ?bad = "\<lambda>p. sequence f \<noteq> pending_sequence p \<or> generation f \<noteq> pending_generation p
            \<or> get v ''acknowledged'' \<noteq> JBool True \<or> get v ''command'' \<noteq> JNum (Whole (int (pending_kind p)))
            \<or> get v ''state'' \<noteq> JStr (if acknowledged_state p = Paused then ''paused'' else ''playing'')"
  consider (bad) "?pend = None \<or> (\<exists>p. ?pend = Some p \<and> ?bad p)"
    | (late) p where "?pend = Some p" "\<not> ?bad p" "current_state s = Closing"
    | (live) p where "pending_command s = Some p" "\<not> ?bad p" "current_state s \<noteq> Closing"
    by (cases "pending_command s"; cases "current_state s = Closing"; cases ?pend) (auto split: option.splits)
  then show ?thesis
  proof cases
    case bad
    then have "on_control decode f v s = (raise InvalidValue, s)" by (auto simp: on_control_def split: option.splits)
    then show ?thesis using lawful_lifecycle[of s "(raise InvalidValue, s)"] by simp
  next
    case late
    then have "on_control decode f v s = (Inr (), diagnostic (diagnose LifecycleDiagnostic ''ControlAcknowledgedDuringClose'' None None)
               (s\<lparr>abandoned := None\<rparr>))" by (simp add: on_control_def)
    then show ?thesis using lawful_lifecycle[of s "on_control decode f v s"]
        lifecycle_trans[OF loose_lifecycle[OF loose_updates(8)] lifecycle_quiet[OF quiet_diagnostic]] by simp
  next
    case live
    define a where "a = s\<lparr>current_generation := pending_generation p, current_state := acknowledged_state p\<rparr>"
    have A: "core a" "progress s a" "live a" "\<not> is_closing a"
      by (rule acknowledged_core[OF c live(1) a_def]; simp add: acknowledged_state_def)+
    obtain r b where fl: "flush_staged decode a = (r, b)" by (cases "flush_staged decode a")
    have lb: "lifecycle a b" using flush_staged_lifecycle[OF A(4), of decode] fl by simp
    have B: "core b" "progress s b" using flush_keeps[OF lb A(1)] A(2) progress_trans by auto
    have "pending_generation p = expected_generation s" using c live(1) by (simp add: core_def control_ok_def)
    then have ka: "pending_command a = Some p" "current_generation a = expected_generation a" using live(1) by (simp_all add: a_def)
    have keep: "pending_command b = Some p" "current_generation b = expected_generation b"
      using flush_staged_keeps[of decode a] ka unfolding fl by simp_all
    define d where "d = b\<lparr>pending_command := None\<rparr>"
    note D = unpend_core[OF B(1) keep d_def]
    obtain q e where fi: "finish_generation d = (q, e)" by (cases "finish_generation d")
    have le: "lifecycle d e" using finish_generation_lifecycle[of d] fi by simp
    have E: "core e" "progress s e" using flush_keeps[OF le D(1)] D(2) B(2) progress_trans by blast+
    have ke: "answered e [pending_sequence p]" "pending_command e = None" "current_state e = acknowledged_state p" "ready e = ready s"
    proof -
      have b: "current_state b = acknowledged_state p" "ready b = ready s"
        using flush_staged_keeps(1,7)[of decode a] unfolding fl by (simp_all add: a_def)
      have d: "current_state d = current_state b" "ready d = ready b" "pending_command d = None" by (simp_all add: d_def)
      show "answered e [pending_sequence p]" "pending_command e = None" "current_state e = acknowledged_state p" "ready e = ready s"
        using finish_generation_keeps[of d] D(3) unfolding fi by (simp_all add: b d answered_def pending_list_def)
    qed
    define g where "g = e\<lparr>control_results := control_results e @ [(pending_sequence p,
        Inr \<lparr>receipt_state = acknowledged_state p, receipt_generation = pending_generation p\<rparr>)]\<rparr>"
    note G = answer_core[OF E(1) ke(1,2) g_def]
    have eq: "on_control decode f v s = (case r of Inl x \<Rightarrow> (Inl x, b) | Inr _ \<Rightarrow> (case q of Inl x \<Rightarrow> (Inl x, e) | Inr _ \<Rightarrow> (Inr (), g)))"
      using live fl fi by (auto simp: on_control_def a_def d_def g_def split: sum.split)
    have sg: "settled g" if "sound s"
    proof -
      have "live s" using c live(1) by (auto simp: core_def control_ok_def)
      then have "ready s = Some (Inr ())" using that by (simp add: sound_def settled_def)
      then show ?thesis using G(3) ke by (simp add: settled_def g_def)
    qed
    show ?thesis
    proof (rule lawfulI)
      show "core (snd (on_control decode f v s)) \<and> progress s (snd (on_control decode f v s))"
        unfolding eq using B E G progress_trans[OF E(2) G(2)] by (simp split: sum.split)
      show "settled (snd (on_control decode f v s))" if "sound s" "fst (on_control decode f v s) = Inr x" for x
        using that sg unfolding eq by (simp split: sum.splits)
    qed
  qed
qed

lemma control_frame_lawful: "lawful sound_step raised_step s (control_frame parse decode now f s)"
proof -
  note L = lawful_lifecycle[OF on_hello_lifecycle] lawful_lifecycle[OF fail_lifecycle] lawful_lifecycle[OF on_closed_lifecycle]
    observation_lifecycle[THEN lawful_lifecycle] lawful_lifecycle[OF on_end_lifecycle] on_ready_lawful on_control_lawful
  have raise: "lawful sound_step raised_step s (Inl e, s)" for e by (rule lawful_lifecycle) simp
  have "lawful sound_step raised_step s (on_error v s)" for v
    using raise L(2) by (auto simp: on_error_def split: js.split)
  then show ?thesis using raise L by (simp add: control_frame_def Let_def split: sum.split)
qed

subsection \<open>Media controls\<close>

lemma subs_detach_all: "subs (detach_all is q) = filter (\<lambda>i. i \<notin> set is) (subs q)"
  by (induction "is" arbitrary: q) (auto simp: detach_simps removeAll_filter_not_eq intro: filter_cong)

lemma resume_succeeds:
  assumes "\<not> queue_ended q" "0 < max_subscribers q"
  shows "fst (resume q) = Inr ()"
proof (cases "draining q")
  case True
  let ?d = "(detach_all (subs q) q)\<lparr>draining := False\<rparr>"
  have "subs ?d = []" by (simp add: subs_detach_all)
  moreover have "max_subscribers ?d = max_subscribers q" using shape_detach_all[of q "subs q"] by (simp add: same_shape_def)
  ultimately show ?thesis using assms True by (simp add: resume_def add_def Let_def)
qed (use assms in \<open>simp add: resume_def\<close>)

lemma resume_streams_succeeds:
  assumes "\<And>x. \<not> queue_ended (streams s x) \<and> 0 < max_subscribers (streams s x)"
  shows "fst (resume_streams s) = Inr ()"
proof -
  have step: "fst (on_stream x resume t) = Inr ()" "quiet s (snd (on_stream x resume t))" if "quiet s t" for x t
  proof -
    have "\<not> queue_ended (streams t x)" "0 < max_subscribers (streams t x)"
      using assms[of x] that by (simp_all add: quiet_def same_shape_def)
    then show "fst (on_stream x resume t) = Inr ()" using resume_succeeds[of "streams t x"] by (simp add: on_stream_def Let_def split_beta)
    show "quiet s (snd (on_stream x resume t))" by (rule quiet_trans[OF that quiet_on_stream]) simp
  qed
  obtain r1 s1 where a: "on_stream Packets resume s = (r1, s1)" by (metis prod.exhaust)
  have 1: "r1 = Inr ()" "quiet s s1" using step[of s Packets] a by auto
  obtain r2 s2 where b: "on_stream Metadata resume s1 = (r2, s2)" by (metis prod.exhaust)
  have 2: "r2 = Inr ()" "quiet s s2" using step[OF 1(2), of Metadata] b by auto
  show ?thesis using step(1)[OF 2(2), of Frames] by (simp add: resume_streams_def a b 1(1) 2(1))
qed

lemma quiet_outputs: "quiet s t \<Longrightarrow> quiet (s\<lparr>outputs := outputs s @ xs\<rparr>) (t\<lparr>outputs := outputs t @ xs\<rparr>)"
proof -
  assume q: "quiet s t"
  have "framed (s\<lparr>outputs := outputs s @ xs\<rparr>) (t\<lparr>outputs := outputs t @ xs\<rparr>)"
    unfolding framed_def by (rule native_session.equality) (simp_all add: quiet_fields[OF q])
  with q show ?thesis by (simp add: quiet_def is_closing_def)
qed

lemma range_bytes_length: "range_bytes v = Inr body \<Longrightarrow> length body \<le> 16"
  by (auto simp: range_bytes_def bind_result_Inr_iff split: option.splits)

lemma control_check_Inr:
  assumes "control_check k range_arg s = Inr body"
  shows "live s" "pending_command s = None" "length body \<le> 16" "k = kind_pause \<or> current_generation s \<noteq> 0xffffffff"
  using assms by (auto simp: control_check_def live_def bind_result_Inr_iff dest: range_bytes_length split: if_splits)

text \<open>
  The new control: its pending entry is there before its frame, and between the two only the queues
  are discarded and opened again, which cannot fail on a live session.
\<close>

lemma issue_control_shape:
  assumes c: "core s" and lv: "live s" and more: "command_sequence s \<noteq> 0xffffffff" and len: "length body \<le> 65536"
    and k: "k = kind_play \<or> k = kind_pause \<or> k = kind_seek"
  defines "n \<equiv> Suc (command_sequence s)"
    and "gen \<equiv> current_generation s + (if k = kind_pause then 0 else 1)"
  defines "i \<equiv> s\<lparr>sender_reports := (\<lambda>_. None), command_sequence := n, expected_generation := gen,
      pending_command := Some \<lparr>pending_kind = k, pending_sequence = n, pending_generation = gen\<rparr>\<rparr>"
  obtains j bs where "quiet i j \<or> quiet (i\<lparr>ending := None\<rparr>) j"
    "issue_control k body s = (Inr n, j\<lparr>outputs := outputs j @ [CommandFrame \<lparr>kind = k, session = session_id s,
        generation = current_generation s, sequence = n, payload = body\<rparr> bs]\<rparr>)"
    "envelope k (session_id s) (current_generation s) n body = Inr bs"
proof -
  let ?f = "\<lparr>kind = k, session = session_id s, generation = current_generation s, sequence = n, payload = body\<rparr>"
  have al: "allocate_sequence (s\<lparr>sender_reports := (\<lambda>_. None)\<rparr>) = (Inr n, s\<lparr>sender_reports := (\<lambda>_. None), command_sequence := n\<rparr>)"
    using more by (simp add: allocate_sequence_def n_def)
  have op: "\<not> is_closing s" using lv by (auto simp: is_closing_def live_def)
  obtain bs where bs: "envelope k (session_id s) (current_generation s) n body = Inr bs"
    using envelope_total[of k "session_id s" "current_generation s" n body] c more k len
    by (auto simp: core_def wire_ok_def control_ok_def kind_defs n_def)
  define j0 where "j0 = discard_streams i"
  have q0: "quiet i j0" by (simp add: j0_def)
  have q1: "quiet (i\<lparr>ending := None\<rparr>) (j0\<lparr>ending := None\<rparr>)"
  proof -
    have "framed (i\<lparr>ending := None\<rparr>) (j0\<lparr>ending := None\<rparr>)"
      unfolding framed_def by (rule native_session.equality) (simp_all add: quiet_fields[OF q0])
    with q0 show ?thesis by (simp add: quiet_def is_closing_def)
  qed
  obtain r j1 where res: "resume_streams (j0\<lparr>ending := None\<rparr>) = (r, j1)" by (metis prod.exhaust)
  have "\<not> queue_ended (streams i x) \<and> 0 < max_subscribers (streams i x)" for x
    using c op by (simp add: core_def phase_ok_def i_def)
  then have "\<not> queue_ended (streams (j0\<lparr>ending := None\<rparr>) x) \<and> 0 < max_subscribers (streams (j0\<lparr>ending := None\<rparr>) x)" for x
    using q0 by (simp add: quiet_def same_shape_def)
  then have r: "r = Inr ()" using resume_streams_succeeds[of "j0\<lparr>ending := None\<rparr>"] res by simp
  have q2: "quiet (i\<lparr>ending := None\<rparr>) j1" using quiet_trans[OF q1 quiet_resume_streams] res by simp
  define j where "j = (if k = kind_pause then j0 else j1)"
  have jf: "session_id j = session_id s" "current_generation j = current_generation s"
    using quiet_fields(1,14)[OF q0] quiet_fields(1,14)[OF q2] by (simp_all add: j_def i_def)
  have st: "discard_streams (s\<lparr>sender_reports := (\<lambda>_. None), command_sequence := n, expected_generation := gen,
      pending_command := Some \<lparr>pending_kind = k, pending_sequence = n, pending_generation = gen\<rparr>\<rparr>) = j0"
    by (simp add: j0_def i_def)
  have "issue_control k body s = (case send k n body (current_generation j) j of (Inl e, t) \<Rightarrow> (Inl e, t) | (Inr _, t) \<Rightarrow> (Inr n, t))"
    unfolding issue_control_def Let_def gen_def[symmetric] al sum.case prod.case st
    by (simp add: res r j_def)
  then have eq: "issue_control k body s = (Inr n, j\<lparr>outputs := outputs j @ [CommandFrame ?f bs]\<rparr>)"
    by (simp add: send_def jf bs put_output_def)
  show ?thesis
    by (rule that[OF _ eq bs]) (use q0 q2 in \<open>simp add: j_def\<close>)
qed

lemma issue_control_sound:
  assumes so: "sound s" and lv: "live s" "pending_command s = None" and len: "length body \<le> 16"
    and g: "k = kind_pause \<or> current_generation s \<noteq> 0xffffffff"
    and k: "k = kind_play \<or> k = kind_pause \<or> k = kind_seek"
  shows "sound_step s (snd (issue_control k body s))"
proof (cases "command_sequence s = 0xffffffff")
  case True
  have "sound_step s (s\<lparr>sender_reports := \<lambda>_. None\<rparr>)" by (rule lifecycle_sound[OF lifecycle_quiet]) simp
  then show ?thesis using True by (simp add: issue_control_def allocate_sequence_def)
next
  case more: False
  have c: "core s" and op: "\<not> is_closing s" and ans: "answered s []"
    using so lv(1) by (auto simp: sound_def settled_def live_def is_closing_def)
  define n where "n = Suc (command_sequence s)"
  define gen where "gen = current_generation s + (if k = kind_pause then 0 else 1)"
  define i where "i = s\<lparr>sender_reports := (\<lambda>_. None), command_sequence := n, expected_generation := gen,
      pending_command := Some \<lparr>pending_kind = k, pending_sequence = n, pending_generation = gen\<rparr>\<rparr>"
  have l16: "length body \<le> 65536" using len by simp
  obtain j bs where j: "quiet i j \<or> quiet (i\<lparr>ending := None\<rparr>) j"
    and eq: "issue_control k body s = (Inr n, j\<lparr>outputs := outputs j @ [CommandFrame \<lparr>kind = k, session = session_id s,
        generation = current_generation s, sequence = n, payload = body\<rparr> bs]\<rparr>)"
    and bs: "envelope k (session_id s) (current_generation s) n body = Inr bs"
    by (rule issue_control_shape[OF c lv(1) more l16 k, folded n_def gen_def, folded i_def])
  let ?out = "[CommandFrame \<lparr>kind = k, session = session_id s, generation = current_generation s, sequence = n, payload = body\<rparr> bs]"
  let ?a = "s\<lparr>sender_reports := \<lambda>_. None\<rparr>"
  have qa: "quiet s ?a" by simp
  have ca: "core ?a" "progress s ?a" using lifecycle_quiet[OF qa] c by (simp_all add: lifecycle_def advance_def)
  have bounds: "current_generation s \<le> 0xffffffff" "command_sequence s < 0xffffffff" "open_sent s" "gen \<le> 0xffffffff"
  proof -
    have e: "current_generation s \<le> expected_generation s" "expected_generation s \<le> 0xffffffff"
      "command_sequence s \<le> 0xffffffff" "open_sent s"
      using c lv(1) unfolding core_def control_ok_def wire_ok_def phase_ok_def by simp_all
    then have b: "current_generation s \<le> 0xffffffff" "command_sequence s \<le> 0xffffffff" "open_sent s" by simp_all
    then show "current_generation s \<le> 0xffffffff" "command_sequence s < 0xffffffff" "open_sent s" using more by simp_all
    show "gen \<le> 0xffffffff" using b(1) g by (auto simp: gen_def)
  qed
  have ct: "is_control k" "k \<le> 0xffff" "k \<noteq> kind_open" "k \<noteq> kind_close"
    using k by (auto simp: is_control_def kind_defs)
  have la: "live ?a" "answered ?a []" "\<not> is_closing ?a"
    using lv(1) ans op by (simp_all add: live_def answered_def is_closing_def pending_list_def)
  have ia: "?a\<lparr>pending_command := Some \<lparr>pending_kind = k, pending_sequence = n, pending_generation = gen\<rparr>,
      expected_generation := gen, command_sequence := n\<rparr> = i"
    unfolding i_def by (rule native_session.equality) simp_all
  have base: "core (i\<lparr>outputs := outputs i @ ?out\<rparr>)" "progress ?a (i\<lparr>outputs := outputs i @ ?out\<rparr>)"
  proof -
    have sent: "send k (Suc (command_sequence ?a)) body (current_generation i) i = (Inr (), i\<lparr>outputs := outputs i @ ?out\<rparr>)"
      using bs by (simp add: send_def i_def put_output_def n_def)
    have pre: "if is_control k then pending_command ?a = None \<and> live ?a \<and> answered ?a []
        \<and> Some \<lparr>pending_kind = k, pending_sequence = n, pending_generation = gen\<rparr>
          = Some \<lparr>pending_kind = k, pending_sequence = Suc (command_sequence ?a), pending_generation = gen\<rparr>
        \<and> current_generation ?a \<le> gen \<and> gen \<le> 0xffffffff
      else Some \<lparr>pending_kind = k, pending_sequence = n, pending_generation = gen\<rparr> = pending_command ?a \<and> gen = expected_generation ?a"
      using ct la lv(2) bounds by (simp add: n_def gen_def)
    have o: "open_sent ?a" "command_sequence ?a < 0xffffffff" using bounds by simp_all
    have it: "i = ?a\<lparr>pending_command := Some \<lparr>pending_kind = k, pending_sequence = n, pending_generation = gen\<rparr>,
      expected_generation := gen, command_sequence := Suc (command_sequence ?a)\<rparr>" using ia by (simp add: n_def)
    from frame_core(2,3)[OF ca(1) la(3) o ct(2-4) l16 pre it]
    show "core (i\<lparr>outputs := outputs i @ ?out\<rparr>)" "progress ?a (i\<lparr>outputs := outputs i @ ?out\<rparr>)"
      unfolding sent snd_conv .
  qed
  have final: "lifecycle (i\<lparr>outputs := outputs i @ ?out\<rparr>) (j\<lparr>outputs := outputs j @ ?out\<rparr>)"
  proof (cases "quiet i j")
    case True
    then show ?thesis by (rule lifecycle_quiet[OF quiet_outputs])
  next
    case False
    then have "quiet (i\<lparr>ending := None\<rparr>) j" using j by simp
    from quiet_outputs[OF this, of ?out]
    have q: "quiet (i\<lparr>ending := None, outputs := outputs i @ ?out\<rparr>) (j\<lparr>outputs := outputs j @ ?out\<rparr>)" by simp
    have "lifecycle (i\<lparr>outputs := outputs i @ ?out\<rparr>) ((i\<lparr>outputs := outputs i @ ?out\<rparr>)\<lparr>ending := None\<rparr>)"
      by (rule loose_lifecycle[OF loose_updates(5)]) (use op in \<open>simp add: is_closing_def i_def\<close>)
    moreover have "(i\<lparr>outputs := outputs i @ ?out\<rparr>)\<lparr>ending := None\<rparr> = i\<lparr>ending := None, outputs := outputs i @ ?out\<rparr>"
      by (rule native_session.equality) simp_all
    ultimately show ?thesis using lifecycle_trans[OF _ lifecycle_quiet[OF q]] by simp
  qed
  have "settled (i\<lparr>outputs := outputs i @ ?out\<rparr>)"
    using so ct(1) lv ans by (auto simp: settled_def sound_def answered_def live_def is_closing_def i_def pending_list_def)
  then show ?thesis using final base ca(2) progress_trans
    unfolding eq snd_conv sound_step_def sound_def lifecycle_def advance_def by blast
qed

lemma command_sound:
  assumes "k \<in> {kind_play, kind_pause, kind_seek}" shows "sound_step s (snd (command k range_arg s))"
proof (cases "control_check k range_arg s")
  case (Inl e)
  then show ?thesis using lifecycle_sound[OF lifecycle_refl] by (simp add: command_def)
next
  case (Inr body)
  note chk = control_check_Inr[OF Inr]
  have k: "k = kind_play \<or> k = kind_pause \<or> k = kind_seek" using assms by auto
  show ?thesis
  proof (cases "sound s")
    case True
    then show ?thesis using issue_control_sound[OF _ chk(1-4) k] Inr by (simp add: command_def)
  qed (simp add: sound_step_def)
qed

subsection \<open>Readers and the backchannel\<close>

lemma frames_lifecycle: "lifecycle s (snd (frames s))"
proof -
  obtain r t where o: "on_stream Frames iterator s = (r, t)" by (metis prod.exhaust)
  have q: "quiet s t" using quiet_on_stream[of s Frames iterator] o by simp
  have "lifecycle s (t\<lparr>readers := rs\<rparr>)" if "current_state s = Playing \<or> current_state s = Paused" for rs
  proof -
    have "\<not> is_closing t" using that quiet_closing[OF q] by (auto simp: is_closing_def)
    then show ?thesis by (rule lifecycle_trans[OF lifecycle_quiet[OF q] loose_lifecycle[OF loose_updates(10)]])
  qed
  then show ?thesis using lifecycle_quiet[OF q] by (auto simp: frames_def o split: sum.split)
qed

lemma consume_lifecycle: "lifecycle s (consume stream op s)"
proof -
  have q: "quiet s (snd (on_stream x iterator s))" "quiet s (snd (on_stream x (next_item i) s))"
    "quiet s (snd (on_stream x (return_item i) s))" "quiet s (snd (on_stream x (throw_item i e) s))" for x i e
    by (rule quiet_on_stream; simp)+
  have r: "lifecycle t (t\<lparr>readers := removeAll i (readers t)\<rparr>)" for t i
    by (rule loose_lifecycle[OF loose_updates(11)]) simp
  show ?thesis using lifecycle_trans[OF lifecycle_quiet[OF q(3)] r]
    by (cases op) (auto simp: consume_def Let_def lifecycle_quiet q)
qed

text \<open>A backchannel that is not destroyed belongs to a live session.\<close>

lemma backchannel_open:
  assumes "core s" "sending s = Some b" "\<not> bc_destroyed b"
  shows "\<not> is_closing s" "current_state s \<noteq> Opening"
  using assms by (auto simp: core_def phase_ok_def silenced_def)

lemma sending_update: "core s \<Longrightarrow> sending s = Some b \<Longrightarrow> \<not> bc_destroyed b \<Longrightarrow> lifecycle s (s\<lparr>sending := b'\<rparr>)"
  by (rule loose_lifecycle[OF loose_updates(12)]) (auto dest: backchannel_open)

lemma sending_update_frame:
  "core s \<Longrightarrow> sending s = Some b \<Longrightarrow> \<not> bc_destroyed b \<Longrightarrow> (\<And>f bs. out \<noteq> CommandFrame f bs)
    \<Longrightarrow> lifecycle s (put_output out (s\<lparr>sending := b'\<rparr>))"
  by (rule lifecycle_trans[OF sending_update lifecycle_put])

lemma destroy_sending_lifecycle: "lifecycle s (destroy_sending s)"
proof (rule lifecycleI)
  assume c: "core s"
  have "lifecycle (put_output EndAudio s) ((put_output EndAudio s)\<lparr>sending := b'\<rparr>)"
    if "sending s = Some b" "\<not> bc_destroyed b" for b b'
    using sending_update[of "put_output EndAudio s" b b'] that lifecycle_put[of EndAudio s] c
    by (simp add: put_output_def lifecycle_def advance_def)
  then have "lifecycle s ((put_output EndAudio s)\<lparr>sending := b'\<rparr>)" if "sending s = Some b" "\<not> bc_destroyed b" for b b'
    using that lifecycle_trans[OF lifecycle_put[of EndAudio s]] by blast
  then show ?thesis using c by (auto simp: destroy_sending_def intro: sending_update split: option.split)
qed

lemma broken_lifecycle: "lifecycle s (backchannel_broken s)"
  using lifecycle_trans[OF destroy_sending_lifecycle lifecycle_quiet[OF quiet_diagnostic]]
  by (auto simp: backchannel_broken_def split: option.split)

lemma start_lifecycle: "lifecycle s (backchannel_start s)"
  by (rule lifecycleI)
    (auto simp: backchannel_start_def Let_def broken_lifecycle intro!: sending_update_frame split: option.split list.split sum.split)

lemma final_lifecycle: "lifecycle s (backchannel_final s)"
  by (rule lifecycleI) (auto simp: backchannel_final_def intro!: sending_update_frame split: option.split)

lemma write_lifecycle: "lifecycle s (backchannel_write v s)"
proof (rule lifecycleI)
  assume c: "core s"
  show ?thesis using c lifecycle_trans[OF sending_update[OF c] start_lifecycle]
    by (auto simp: backchannel_write_def broken_lifecycle split: option.split sum.split)
qed

lemma transmitted_lifecycle: "lifecycle s (backchannel_transmitted r s)"
  by (rule lifecycleI)
    (auto simp: backchannel_transmitted_def broken_lifecycle sending_update split: option.split sum.split list.split)

lemma paced_lifecycle: "lifecycle s (backchannel_paced s)"
proof (rule lifecycleI)
  assume c: "core s"
  show ?thesis using lifecycle_trans[OF sending_update[OF c] lifecycle_trans[OF start_lifecycle final_lifecycle]]
    by (auto simp: backchannel_paced_def split: option.split)
qed

lemma end_lifecycle: "lifecycle s (backchannel_end s)"
proof -
  have "loose s (s\<lparr>sending := map_option (\<lambda>b. b\<lparr>bc_ended := True\<rparr>) (sending s)\<rparr>)"
    by (auto simp: loose_def sending_closed_def split: option.split)
  then show ?thesis unfolding backchannel_end_def by (rule lifecycle_trans[OF loose_lifecycle final_lifecycle])
qed

subsection \<open>The law of the life cycle\<close>

interpretation life: session_law sound_step raised_step parse decode
proof unfold_locales
  show "sound_step s t \<Longrightarrow> sound_step t u \<Longrightarrow> sound_step s u" for s t u
    by (auto simp: sound_step_def intro: progress_trans)
  show "sound_step s t \<Longrightarrow> raised_step t u \<Longrightarrow> raised_step s u" for s t u
    by (auto simp: sound_step_def raised_step_def intro: progress_trans)
  show "raised_step s t \<Longrightarrow> minor t u \<Longrightarrow> raised_step s u" for s t u
    using lifecycle_minor[of t u] by (auto simp: raised_step_def lifecycle_def advance_def intro: progress_trans)
  show "raised_step s t \<Longrightarrow> sound_step s (snd (fail e t))" for s t e
    using fail_lifecycle[of t e] fail_settled[of t e]
    by (auto simp: raised_step_def sound_step_def sound_def lifecycle_def advance_def intro: progress_trans)
  show "awaiting_secrets s \<Longrightarrow> lawful sound_step raised_step s (continue_open (s\<lparr>awaiting_secrets := False\<rparr>))" for s
    by (rule lawful_lifecycle[OF continue_open_lifecycle])
qed (auto intro: sound_raised lifecycle_sound lifecycle_minor lifecycle_quiet lawful_lifecycle data_frame_lifecycle
      control_frame_lawful flush_credits_lifecycle begin_close_lifecycle exited_lifecycle close_deadline_lifecycle
      kill_deadline_lifecycle command_sound frames_lifecycle consume_lifecycle write_lifecycle transmitted_lifecycle
      paced_lifecycle end_lifecycle)

end
