(* ===== verification/Media_Session_Properties.thy ===== *)
theory Media_Session_Properties
  imports Media_Session_Lifecycle Media_Policy_Laws
begin

text \<open>
  What a session promises in every state its events can bring it to. A state is reachable when the
  constructor built it and any number of events, in any order and with any payload, happened to it
  since; the theorems below read off the law of the life cycle what holds there.
\<close>

subsection \<open>Reachable sessions\<close>

inductive session_reachable ::
    "(byte list \<Rightarrow> js option) \<Rightarrow> (byte list \<Rightarrow> js result) \<Rightarrow> native_session \<Rightarrow> bool" for parse decode where
  session_new: "session_reachable parse decode s"
    if "new_session n d m secret aborted = Inr s" "n \<le> 0xffffffff"
| session_next: "session_reachable parse decode (session_step parse decode ev s)"
    if "session_reachable parse decode s"

lemma new_queue_room: "new_queue opts = Inr q \<Longrightarrow> 0 < max_subscribers q \<and> \<not> queue_ended q"
  by (auto simp: new_queue_def bind_result_Inr_iff add_def Let_def positive_integer_Inr
      split: sum.splits if_splits)

lemma command_frames_Nil [simp]: "command_frames [] = []" "control_frames [] = []"
  by (simp_all add: command_frames_def control_frames_def)

lemma fresh_sound:
  assumes "current_state s = Opening" "current_generation s = 0" "expected_generation s = 1" "pending_command s = None"
    "ready s = None" "sending s = None" "\<And>x. \<not> queue_ended (streams s x) \<and> 0 < max_subscribers (streams s x)"
    "\<not> close_timer s" "\<not> kill_timer s" "receipt s = None" "completion s = None" "session_id s \<le> 0xffffffff"
    "command_sequence s = 0" "outputs s = []" "\<not> open_sent s" "control_results s = []" "\<not> terminated s"
    "credit_units s = 0" "outstanding_units s = 0"
  shows "sound s"
proof -
  have l: "\<not> live s" "\<not> is_closing s" using assms(1) by (simp_all add: live_def is_closing_def)
  have "phase_ok s" using assms l unfolding phase_ok_def by simp
  moreover have "wire_ok s" using assms l unfolding wire_ok_def by simp
  moreover have a: "answered s []" using assms by (simp add: answered_def pending_list_def)
  moreover have "control_ok s"
    unfolding control_ok_def using assms l a by (auto intro!: exI[of _ "[]"])
  moreover have "report_ok s" using assms by (simp add: report_ok_def)
  moreover have "window_ok s" using assms by (simp add: window_ok_def)
  ultimately show ?thesis using l by (simp add: sound_def core_def settled_def)
qed

lemma sound_progress: "sound s \<Longrightarrow> sound (session_step parse decode ev s) \<and> progress s (session_step parse decode ev s)"
  using life.step[of s parse decode ev] by (simp add: sound_step_def)

lemma sound_run: "sound s \<Longrightarrow> sound (fold (session_step parse decode) evs s) \<and> progress s (fold (session_step parse decode) evs s)"
  using life.run[of s parse decode evs] by (simp add: sound_step_def)

lemma new_session_sound:
  assumes "new_session n d m secret aborted = Inr s" "n \<le> 0xffffffff"
  shows "sound s"
proof -
  from assms(1) obtain dq q t where q: "new_queue (stream_options (open_limits d) m) = Inr q"
    and s: "s = (if aborted then abort t else t)" and t: "current_state t = Opening" "current_generation t = 0"
      "expected_generation t = 1" "pending_command t = None"
    "ready t = None" "sending t = None" "streams t = (\<lambda>_. q)" "\<not> close_timer t" "\<not> kill_timer t" "receipt t = None" "completion t = None" "session_id t = n"
    "command_sequence t = 0" "outputs t = []" "\<not> open_sent t" "control_results t = []" "\<not> terminated t"
    "credit_units t = 0" "outstanding_units t = 0"
    by (auto simp: new_session_def bind_result_def Let_def split: sum.splits)
  have "sound t" by (rule fresh_sound) (use t new_queue_room[OF q] assms(2) in simp_all)
  then show ?thesis using sound_progress[of t "\<lambda>_. None" "\<lambda>_. raise InvalidValue" Abort] by (simp add: s)
qed

lemma reachable_sound: "session_reachable parse decode s \<Longrightarrow> sound s"
  by (induction rule: session_reachable.induct) (auto simp: new_session_sound sound_progress)

lemma reachable_core: "session_reachable parse decode s \<Longrightarrow> core s"
  using reachable_sound by (simp add: sound_def)

subsection \<open>A concrete session\<close>

definition sample_session :: native_session where
  "sample_session = (case new_session 7 sample_open Live sample_credentials False of Inr s \<Rightarrow> s)"

lemma sample_session_new: "new_session 7 sample_open Live sample_credentials False = Inr sample_session"
  by (simp add: sample_session_def new_session_def bind_result_def new_decoder_def new_queue_def add_def Let_def
      diagnostic_options_def stream_options_def data_maximum_def sample_open_def limits_of_def limit_table_def
      max_safe_integer_def data_max_def control_max_def)

lemma new_session_fields:
  assumes "new_session n d m secret False = Inr s"
  shows "current_state s = Opening" "\<not> open_sent s" "session_failure s = None" "receipt s = None"
  using assms by (auto simp: new_session_def bind_result_def Let_def split: sum.splits)

lemmas sample_session_fields = new_session_fields[OF sample_session_new]

lemma sample_session_reachable: "session_reachable parse decode (fold (session_step parse decode) evs sample_session)"
proof -
  have "session_reachable parse decode s \<Longrightarrow> session_reachable parse decode (fold (session_step parse decode) evs s)" for s
    by (induction evs arbitrary: s) (auto intro: session_next)
  then show ?thesis using session_new[OF sample_session_new] by simp
qed

lemma sample_start: "session_reachable parse decode sample_session"
  using sample_session_reachable[of parse decode "[]"] by simp

abbreviation quiet_exit :: worker_exit where
  "quiet_exit \<equiv> \<lparr>exit_observed = True, exit_code = Some 0, exit_signal = None, spawn_failed = False\<rparr>"

definition sample_exited :: native_session where
  "sample_exited = session_step (\<lambda>_. None) (\<lambda>_. raise InvalidValue) (Exited quiet_exit) sample_session"

lemma sample_exited_reachable: "session_reachable (\<lambda>_. None) (\<lambda>_. raise InvalidValue) sample_exited"
  unfolding sample_exited_def by (rule session_next[OF sample_start])


subsection \<open>Construction\<close>

lemma new_queue_built:
  assumes "opt_max_bytes opts = Whole b" "1 \<le> b" "b \<le> 128 * 1024 * 1024" "opt_max_units opts = Whole u" "1 \<le> u" "u \<le> 256"
    "opt_max_subscribers opts = Whole n" "1 \<le> n" "n \<le> 16" "opt_mode opts = ''live'' \<or> opt_mode opts = ''recorded''"
    "opt_on_gap_callable opts"
  shows "\<exists>q. new_queue opts = Inr q"
  using assms by (auto simp: new_queue_def bind_result_def add_def Let_def max_safe_integer_def)

lemma abort_opening:
  assumes "current_state s = Opening" "ready s = None" "session_failure s = None" "\<not> signal_aborted s" "\<not> open_sent s"
  shows "current_state (abort s) = Closing" "ready (abort s) = Some (Inl (OnvifError TransportError NotSent))"
    "session_id (abort s) = session_id s" "descriptor (abort s) = descriptor s" "session_mode (abort s) = session_mode s"
proof -
  let ?s = "s\<lparr>signal_aborted := True\<rparr>"
  let ?e = "OnvifError TransportError NotSent"
  have "\<not> is_closing ?s" using assms by (simp add: is_closing_def)
  then have f: "fail ?e ?s = begin_close (note_failure ?e ?s)" by (rule fail_eq)
  have "\<not> is_closing (note_failure ?e ?s)" using assms by (simp add: is_closing_def note_failure_def)
  then have "begin_close (note_failure ?e ?s) = (Inr (), put_output DestroyCommands (closing_state (note_failure ?e ?s)))"
    using assms by (simp add: begin_close_eq) (simp add: note_failure_def)
  then have "abort s = put_output DestroyCommands (closing_state (note_failure ?e ?s))"
    using assms f by (simp add: abort_def escape_def media_aborted_def sent_execution_def)
  then show "current_state (abort s) = Closing" "ready (abort s) = Some (Inl ?e)" "session_id (abort s) = session_id s"
    "descriptor (abort s) = descriptor s" "session_mode (abort s) = session_mode s"
    using assms by (simp_all add: put_output_def closing_state_fields) (simp_all add: note_failure_def close_reason_def or_else_def)
qed

text \<open>
  Limits that the media policy accepted are enough for the constructor: all four queues and both
  decoders are built, whatever the descriptor, the mode and the secrets are, and the session starts in
  \<open>opening\<close> with its two timers running, or closed down at once by a signal that was already aborted.
\<close>

theorem validated_limits_construct:
  assumes "media_limits_of v = Inr l" "open_limits d = l"
  shows "\<exists>s. new_session n d m secret aborted = Inr s \<and> session_id s = n \<and> descriptor s = d \<and> session_mode s = m
     \<and> (if aborted then is_closing s \<and> ready s = Some (Inl (OnvifError TransportError NotSent))
        else current_state s = Opening \<and> open_timer s \<and> watchdog s \<and> material s = Some secret \<and> ready s = None)"
proof -
  note b = media_limits_bounds[OF assms(1)]
  have "\<exists>q. new_queue (stream_options l m) = Inr (q :: media_item queue)"
    "\<exists>q. new_queue (diagnostic_options l) = Inr (q :: diagnostic queue)"
    using b by (auto intro!: new_queue_built simp: stream_options_def diagnostic_options_def in_range_def)
  moreover have "0 < data_maximum l" "data_maximum l \<le> int data_max"
    using b by (auto simp: data_maximum_def in_range_def data_max_def)
  then have "\<exists>c. new_decoder Data (Some (Whole (data_maximum l))) = Inr c" "\<exists>c. new_decoder Control None = Inr c"
    by (auto simp: new_decoder_def control_max_def data_max_def bind_result_def max_safe_integer_def)
  ultimately obtain s where s: "new_session n d m secret False = Inr s" "session_id s = n" "descriptor s = d"
      "session_mode s = m" "current_state s = Opening" "open_timer s" "watchdog s" "material s = Some secret" "ready s = None"
      "\<not> signal_aborted s" "\<not> open_sent s" "session_failure s = None"
    and t: "new_session n d m secret True = Inr (abort s)"
    using assms(2) by (auto simp: new_session_def bind_result_def Let_def)
  show ?thesis using s t abort_opening[of s] by (cases aborted) (auto simp: sent_execution_def is_closing_def)
qed

theorem validated_limits_construct_witness:
  "\<exists>l d s. media_limits_of (JObj []) = Inr l \<and> new_session 7 d Live sample_credentials True = Inr s \<and> is_closing s"
proof -
  obtain l where l: "media_limits_of (JObj []) = Inr l"
    by (simp add: media_limits_of_def limit_table_def limit_value_def limits_of_def max_safe_integer_def keys_def Let_def)
  let ?d = "sample_open\<lparr>open_limits := l\<rparr>"
  have "open_limits ?d = l" by simp
  from validated_limits_construct[OF l this, of 7 Live sample_credentials True] l show ?thesis by auto
qed

subsection \<open>Every run\<close>

text \<open>
  Whatever happens to a reachable session, it only moves forward: from opening over playing and
  paused to closing and closed, with generations and data sequences that do not decrease, commands and
  control answers that are appended and never rewritten, and an open result, a close result, a failure
  and a close receipt that are settled at most once.
\<close>

theorem session_moves_forward:
  fixes evs
  assumes "session_reachable parse decode s"
  defines "t \<equiv> fold (session_step parse decode) evs s"
  shows "phase_rank (current_state s) \<le> phase_rank (current_state t)
     \<and> current_generation s \<le> current_generation t \<and> data_sequence s \<le> data_sequence t
     \<and> prefix (outputs s) (outputs t) \<and> prefix (control_results s) (control_results t)
     \<and> (open_sent s \<longrightarrow> open_sent t) \<and> (session_failure s \<noteq> None \<longrightarrow> session_failure t \<noteq> None)
     \<and> (receipt s \<noteq> None \<longrightarrow> receipt t = receipt s) \<and> (ready s \<noteq> None \<longrightarrow> ready t = ready s)
     \<and> (completion s \<noteq> None \<longrightarrow> completion t = completion s)
     \<and> session_id t = session_id s \<and> descriptor t = descriptor s"
  using sound_run[OF reachable_sound[OF assms(1)], of parse decode evs] by (simp add: progress_def t_def)

theorem session_moves_forward_witness:
  "session_id sample_exited = session_id sample_session \<and> outputs sample_exited \<noteq> []"
proof -
  note p = session_moves_forward[OF sample_start, where evs = "[Exited quiet_exit]" and parse = "\<lambda>_. None"
    and decode = "\<lambda>_. raise InvalidValue"]
  have "outputs sample_exited = outputs (closed_state quiet_exit (put_output DestroyCommands (closing_state sample_session)))"
    using sample_session_fields
    by (simp add: sample_exited_def exited_def escape_def Let_def exit_noted_def clean_exit_def exit_remote_def
        begin_close_eq is_closing_def)
  then show ?thesis using p by (simp add: sample_exited_def closed_state_fields)
qed



text \<open>
  C6. The commands on the pipe are well formed in every reachable state: they are numbered from 1 without
  a gap and carry the session's own id, generations never decrease, the bytes written are the envelope
  of the frame, OPEN comes first and once, and CLOSE comes last and only from a closing session.
\<close>

theorem command_stream_well_formed:
  assumes "session_reachable parse decode s"
  defines "fs \<equiv> command_frames (outputs s)"
  shows "map sequence fs = [1..<Suc (command_sequence s)] \<and> command_sequence s \<le> 0xffffffff
     \<and> sorted (map generation fs) \<and> (\<forall>f\<in>set fs. session f = session_id s \<and> generation f \<le> current_generation s)
     \<and> (\<forall>f bs. CommandFrame f bs \<in> set (outputs s) \<longrightarrow>
          envelope (kind f) (session f) (generation f) (sequence f) (payload f) = Inr bs)
     \<and> (fs \<noteq> [] \<longrightarrow> kind (hd fs) = kind_open) \<and> (\<forall>f\<in>set (tl fs). kind f \<noteq> kind_open)
     \<and> (\<forall>f\<in>set (butlast fs). kind f \<noteq> kind_close) \<and> ((\<exists>f\<in>set fs. kind f = kind_close) \<longrightarrow> is_closing s)"
proof -
  have w: "wire_ok s" using reachable_core[OF assms(1)] by (simp add: core_def)
  then have "case fs of [] \<Rightarrow> True | f # gs \<Rightarrow> kind f = kind_open \<and> (\<forall>g\<in>set gs. kind g \<noteq> kind_open)"
    unfolding wire_ok_def fs_def by simp
  then have "(fs \<noteq> [] \<longrightarrow> kind (hd fs) = kind_open) \<and> (\<forall>f\<in>set (tl fs). kind f \<noteq> kind_open)" by (cases fs) auto
  then show ?thesis using w unfolding wire_ok_def fs_def by auto
qed

theorem command_stream_well_formed_witness:
  "map sequence (command_frames (outputs sample_exited)) = [1..<Suc (command_sequence sample_exited)]"
  using command_stream_well_formed[OF sample_exited_reachable] by blast

text \<open>
  C7. Every play, pause and seek that was sent is answered in the order sent: the answers, then at most
  one lost command, then the pending one are exactly the controls on the pipe, and nothing is lost while
  the session is not closing.
\<close>

theorem controls_answered_in_order:
  assumes "session_reachable parse decode s"
  shows "\<exists>lost. map sequence (control_frames (outputs s)) = map fst (control_results s) @ lost @ pending_list s
     \<and> length lost \<le> 1 \<and> (lost \<noteq> [] \<longrightarrow> is_closing s \<and> pending_command s = None)"
proof (cases "is_closing s")
  case True
  then show ?thesis using reachable_core[OF assms] by (auto simp: core_def control_ok_def answered_def)
next
  case False
  then have "answered s []" using reachable_sound[OF assms] by (simp add: sound_def settled_def)
  then show ?thesis by (auto simp: answered_def intro!: exI[of _ "[]"])
qed

theorem controls_answered_in_order_witness:
  "\<exists>lost. length lost \<le> 1 \<and> map sequence (control_frames (outputs sample_exited))
     = map fst (control_results sample_exited) @ lost @ pending_list sample_exited"
  using controls_answered_in_order[OF sample_exited_reachable] by blast



subsection \<open>Closing ends\<close>

lemma step_closes: "sound s \<Longrightarrow> is_closing (session_step parse decode Close s)"
  using begin_close_closing[of s] by (auto simp: escape_def is_closing_def split: prod.splits sum.splits)

lemma deadline_arms:
  assumes "core s" "is_closing s"
  shows "current_state (close_deadline b s) = Closed \<or> current_state (close_deadline b s) = Closing \<and> kill_timer (close_deadline b s)"
proof (cases "current_state s = Closed \<or> \<not> close_timer s")
  case True
  then show ?thesis using assms by (auto simp: close_deadline_def core_def phase_ok_def is_closing_def)
next
  case False
  then have "current_state s = Closing" using assms(2) by (simp add: is_closing_def)
  moreover have "current_state (diagnostic d u) = current_state u" for d u
    by (simp add: diagnostic_def Let_def)
  ultimately show ?thesis using False
    by (auto simp: close_deadline_def Let_def put_output_def note_failure_def split: sum.split)
qed

lemma kill_closes:
  assumes "core s" "current_state s = Closed \<or> current_state s = Closing \<and> kill_timer s"
  shows "current_state (kill_deadline s) = Closed"
  using assms by (auto simp: kill_deadline_def core_def phase_ok_def exited_def closed_state_fields escape_def Let_def)

text \<open>
  C4. Closing always ends: in any reachable state, asking for the close and letting the two deadlines
  expire, with whatever outcome of the termination, yields a close result, settles the open promise and
  leaves no control pending and no timer running, whether or not the worker ever answered or exited.
\<close>

theorem close_always_completes:
  fixes outcome
  assumes "session_reachable parse decode s"
  defines "t \<equiv> fold (session_step parse decode) [Close, CloseDeadline outcome, KillDeadline] s"
  shows "current_state t = Closed \<and> completion t \<noteq> None \<and> start_outcome t \<noteq> None \<and> pending_command t = None
     \<and> \<not> open_timer t \<and> \<not> close_timer t \<and> \<not> kill_timer t \<and> \<not> watchdog t"
proof -
  define a where "a = session_step parse decode Close s"
  define b where "b = session_step parse decode (CloseDeadline outcome) a"
  have t: "t = session_step parse decode KillDeadline b" by (simp add: t_def a_def b_def)
  have s: "sound s" by (rule reachable_sound[OF assms(1)])
  have a: "sound a" "is_closing a" using sound_progress[OF s, of parse decode Close] step_closes[OF s, of parse decode] by (simp_all only: a_def)
  have b: "sound b" unfolding b_def using sound_progress[OF a(1)] by blast
  have c: "sound t" unfolding t using sound_progress[OF b] by blast
  have "current_state t = Closed"
    using kill_closes[of b] deadline_arms[of a outcome] a b by (simp add: t sound_def b_def)
  then show ?thesis using c unfolding sound_def core_def phase_ok_def silenced_def is_closing_def start_outcome_def
    by (auto split: option.splits sum.splits)
qed

theorem close_always_completes_witness:
  "current_state (fold (session_step (\<lambda>_. None) (\<lambda>_. raise InvalidValue)) [Close, CloseDeadline (Inr True), KillDeadline]
     sample_session) = Closed"
  using close_always_completes[OF sample_start] by (rule conjunct1)

subsection \<open>A control that is lost\<close>

text \<open>
  C40. An acknowledgement of the pending control that arrives after the worker announced, for the
  generation it acknowledges, an END mark the data stream has already passed: the handler gives up the
  pending entry before it checks the mark, so that the session closes with an invalid value while the
  promise of the acknowledged control is neither resolved nor rejected.
\<close>

theorem acknowledged_control_lost:
  assumes "\<not> is_closing s" "pending_command s = Some p" "staged s = []" "ending s = Some e"
    and mark: "end_generation e = pending_generation p" "watermark e < data_sequence s"
    and frame: "sequence f = pending_sequence p" "generation f = pending_generation p"
    and said: "get v ''acknowledged'' = JBool True" "get v ''command'' = JNum (Whole (int (pending_kind p)))"
      "get v ''state'' = JStr (if acknowledged_state p = Paused then ''paused'' else ''playing'')"
  shows "is_closing (guarded Unknown (on_control decode f v s))
     \<and> pending_command (guarded Unknown (on_control decode f v s)) = None
     \<and> control_results (guarded Unknown (on_control decode f v s)) = control_results s"
proof -
  define a where "a = s\<lparr>current_generation := pending_generation p, current_state := acknowledged_state p,
    staged := [], staged_bytes := 0\<rparr>"
  define b where "b = a\<lparr>pending_command := None\<rparr>"
  have st: "acknowledged_state p \<noteq> Opening" "acknowledged_state p \<noteq> Closing" "acknowledged_state p \<noteq> Closed"
    by (simp_all add: acknowledged_state_def)
  have "flush_staged decode (s\<lparr>current_generation := pending_generation p, current_state := acknowledged_state p\<rparr>) = (Inr (), a)"
    using assms(2-4) by (simp add: flush_staged_def finish_generation_def a_def)
  moreover have "finish_generation b = (raise InvalidValue, b)"
    using assms(4) mark st by (simp add: finish_generation_def b_def a_def)
  moreover have "current_state s \<noteq> Closing" using assms(1) by (simp add: is_closing_def)
  ultimately have h: "on_control decode f v s = (raise InvalidValue, b)"
    using assms(2) frame said by (simp add: on_control_def b_def)
  let ?n = "note_failure (OnvifError InvalidValue NotSent) b"
  have nc: "\<not> is_closing b" "\<not> is_closing ?n" using st by (simp_all add: is_closing_def b_def a_def note_failure_def)
  have "guarded Unknown (on_control decode f v s) = escape (begin_close ?n)"
    by (simp add: h guarded_def media_error_def fail_eq[OF nc(1)])
  moreover have "is_closing (escape (begin_close ?n)) \<and> pending_command (escape (begin_close ?n)) = None
      \<and> control_results (escape (begin_close ?n)) = control_results s"
    using nc(2) by (auto simp: begin_close_eq closing_state_fields allocate_sequence_def send_def escape_def put_output_def
        is_closing_def note_failure_def b_def a_def split: sum.split)
  ultimately show ?thesis by simp
qed

theorem acknowledged_control_lost_witness:
  "\<exists>s. pending_command s = Some \<lparr>pending_kind = kind_play, pending_sequence = 2, pending_generation = 2\<rparr>
     \<and> control_results (guarded Unknown (on_control (\<lambda>_. raise InvalidValue)
          \<lparr>kind = kind_control, session = 7, generation = 2, sequence = 2, payload = []\<rparr>
          (JObj [(''acknowledged'', JBool True), (''command'', JNum (Whole (int kind_play))), (''state'', JStr ''playing'')]) s)) = []"
proof -
  let ?p = "\<lparr>pending_kind = kind_play, pending_sequence = 2, pending_generation = 2\<rparr>"
  let ?s = "sample_session\<lparr>current_state := Playing, current_generation := 1, expected_generation := 2, open_sent := True,
    command_sequence := 2, data_sequence := 5, pending_command := Some ?p, staged := [], control_results := [],
    ending := Some \<lparr>end_generation = 2, watermark = 4, observed_at = 0, end_complete = False\<rparr>\<rparr>"
  have "\<not> is_closing ?s" by (simp add: is_closing_def)
  from acknowledged_control_lost[OF this, of ?p "\<lparr>end_generation = 2, watermark = 4, observed_at = 0, end_complete = False\<rparr>"
      "\<lparr>kind = kind_control, session = 7, generation = 2, sequence = 2, payload = []\<rparr>"
      "JObj [(''acknowledged'', JBool True), (''command'', JNum (Whole (int kind_play))), (''state'', JStr ''playing'')]"
      "\<lambda>_. raise InvalidValue"]
  show ?thesis
    by (intro exI[of _ ?s]) (simp add: acknowledged_state_def kind_play_def kind_pause_def kind_control_def)
qed

end
