(* ===== verification/Xml_Types.thy ===== *)
theory Xml_Types
  imports Prelude
begin

section \<open>XML values\<close>

text \<open>
  The element tree of \<open>xml/types.ts\<close> and the helpers on it. An \<open>XmlElement\<close> is the constructor
  \<open>Xml_Element\<close> of the nodes; its namespace bindings and its attributes are lists in document order.
  Patterns with the \<open>u\<close> flag look at code points, so a text is cut into the UTF-8 sequences of its code
  points first.
\<close>

subsection \<open>Code points\<close>

definition byte_of :: "char \<Rightarrow> nat" where
  "byte_of c = of_char c"

fun trailing_bytes :: "char \<Rightarrow> nat" where
  "trailing_bytes c = (if byte_of c < 0xC0 then 0 else if byte_of c < 0xE0 then 1 else if byte_of c < 0xF0 then 2 else 3)"

declare trailing_bytes.simps [simp del]

function code_points :: "string \<Rightarrow> string list" where
  "code_points [] = []"
| "code_points (c # cs) = (c # take (trailing_bytes c) cs) # code_points (drop (trailing_bytes c) cs)"
  by pat_completeness auto
termination by (relation "measure length") (auto simp: less_Suc_eq_le)

lemma concat_code_points [simp]: "concat (code_points s) = s"
  by (induction s rule: code_points.induct) auto

lemma code_points_nonempty: "p \<in> set (code_points s) \<Longrightarrow> p \<noteq> []"
  by (induction s rule: code_points.induct) auto

lemma code_points_Nil_iff [simp]: "code_points s = [] \<longleftrightarrow> s = []"
  by (cases s) auto

text \<open>The number of a code point, from its lead byte and its continuation bytes.\<close>

definition point :: "string \<Rightarrow> nat" where
  "point p = (case p of [] \<Rightarrow> 0
     | c # cs \<Rightarrow> foldl (\<lambda>n d. 64 * n + byte_of d mod 64)
         (if cs = [] then byte_of c else byte_of c mod 2 ^ (6 - length cs)) cs)"

text \<open>The UTF-16 code units of a text, which \<open>s.length\<close> counts and \<open>s < t\<close> compares.\<close>

definition utf16_units :: "string \<Rightarrow> nat list" where
  "utf16_units s = concat (map (\<lambda>p. let n = point p in
     if n < 0x10000 then [n] else [0xD800 + (n - 0x10000) div 0x400, 0xDC00 + (n - 0x10000) mod 0x400]) (code_points s))"

definition js_space :: "nat \<Rightarrow> bool" where
  "js_space n = (9 \<le> n \<and> n \<le> 13 \<or> n = 0x20 \<or> n = 0xA0 \<or> n = 0x1680 \<or> 0x2000 \<le> n \<and> n \<le> 0x200A
     \<or> n = 0x2028 \<or> n = 0x2029 \<or> n = 0x202F \<or> n = 0x205F \<or> n = 0x3000 \<or> n = 0xFEFF)"

text \<open>\<open>s.trim()\<close>, \<open>s.split(c)\<close> for one character and \<open>s.trim().split(/\s+/u).filter(Boolean)\<close>.\<close>

definition trim :: "string \<Rightarrow> string" where
  "trim s = (let sp = (\<lambda>p. js_space (point p)) in concat (rev (dropWhile sp (rev (dropWhile sp (code_points s))))))"

fun split_at :: "char \<Rightarrow> string \<Rightarrow> string list" where
  "split_at x [] = [[]]"
| "split_at x (c # cs) =
     (if c = x then [] # split_at x cs
      else case split_at x cs of [] \<Rightarrow> [[c]] | w # ws \<Rightarrow> (c # w) # ws)"

fun split_spaces :: "string list \<Rightarrow> string list" where
  "split_spaces [] = [[]]"
| "split_spaces (p # ps) =
     (if js_space (point p) then [] # split_spaces ps
      else case split_spaces ps of [] \<Rightarrow> [p] | w # ws \<Rightarrow> (p @ w) # ws)"

definition space_separated :: "string \<Rightarrow> string list" where
  "space_separated s = filter (\<lambda>w. w \<noteq> []) (split_spaces (code_points s))"

lemma split_at_nonempty [simp]: "split_at x s \<noteq> []"
  by (cases s) (auto split: list.split)

lemma split_at_absent: "w \<in> set (split_at x s) \<Longrightarrow> x \<notin> set w"
proof (induction s arbitrary: w)
  case Nil
  then show ?case by simp
next
  case (Cons c s)
  show ?case using Cons.prems Cons.IH split_at_nonempty[of x s]
    by (cases "split_at x s") (auto split: if_splits)
qed

lemma space_separated_nonempty: "w \<in> set (space_separated s) \<Longrightarrow> w \<noteq> []"
  by (simp add: space_separated_def)

subsection \<open>Names\<close>

record qname =
  namespace :: string
  local_name :: string

definition equal_qname :: "qname \<Rightarrow> qname \<Rightarrow> bool" where
  "equal_qname a b = (namespace a = namespace b \<and> local_name a = local_name b)"

lemma equal_qname_iff [simp]: "equal_qname a b \<longleftrightarrow> a = b"
  by (auto simp: equal_qname_def)

definition in_ranges :: "(nat \<times> nat) list \<Rightarrow> nat \<Rightarrow> bool" where
  "in_ranges rs n = list_ex (\<lambda>(a, b). a \<le> n \<and> n \<le> b) rs"

definition xml_name_start :: "(nat \<times> nat) list" where
  "xml_name_start = [(65, 90), (95, 95), (97, 122), (0xC0, 0xD6), (0xD8, 0xF6), (0xF8, 0x2FF), (0x370, 0x37D),
     (0x37F, 0x1FFF), (0x200C, 0x200D), (0x2070, 0x218F), (0x2C00, 0x2FEF), (0x3001, 0xD7FF), (0xF900, 0xFDCF),
     (0xFDF0, 0xFFFD), (0x10000, 0xEFFFF)]"

definition xml_name_char :: "(nat \<times> nat) list" where
  "xml_name_char = xml_name_start @ [(45, 45), (46, 46), (48, 57), (0xB7, 0xB7), (0x300, 0x36F), (0x203F, 0x2040)]"

definition is_ncname :: "string \<Rightarrow> bool" where
  "is_ncname s = (case code_points s of
       [] \<Rightarrow> False
     | p # ps \<Rightarrow> in_ranges xml_name_start (point p) \<and> list_all (\<lambda>q. in_ranges xml_name_char (point q)) ps)"

subsection \<open>Elements\<close>

record xml_attribute =
  attr_name :: qname
  attr_value :: string
  attr_prefix :: "string option"

datatype xml_node =
    Xml_Element (el_name: qname) (el_prefix: "string option") (el_namespaces: "(string \<times> string) list")
      (el_attributes: "xml_attribute list") (el_children: "xml_node list")
  | Xml_Text (node_text: string)
  | Xml_Comment string
  | Xml_Instruction string string

fun is_element :: "xml_node \<Rightarrow> bool" where
  "is_element (Xml_Element _ _ _ _ _) = True"
| "is_element _ = False"

fun is_text :: "xml_node \<Rightarrow> bool" where
  "is_text (Xml_Text _) = True"
| "is_text _ = False"

fun children_of :: "xml_node \<Rightarrow> xml_node list" where
  "children_of (Xml_Element _ _ _ _ cs) = cs"
| "children_of _ = []"

definition child_elements :: "xml_node \<Rightarrow> xml_node list" where
  "child_elements n = filter is_element (children_of n)"

definition text_content :: "xml_node \<Rightarrow> string result" where
  "text_content n =
     (if list_ex is_element (children_of n) then raise InvalidValue
      else Inr (concat (map node_text (filter is_text (children_of n)))))"

text \<open>
  The bindings of an element are a plain object in the source, so that a prefix no one bound but that
  \<open>Object.prototype\<close> has as a property (\<open>constructor\<close>, \<open>toString\<close>, ...) finds a function where the
  code expects a text or nothing. The model has no such value: it treats the prefix as unbound, which is
  what the check means to do.
\<close>

definition resolve_qname :: "string \<Rightarrow> (string \<times> string) list \<Rightarrow> qname result" where
  "resolve_qname s bindings =
     (let parts = split_at (CHR '':'') (trim s); name = last parts in
      if length parts > 2 \<or> \<not> is_ncname name \<or> length parts = 2 \<and> \<not> is_ncname (hd parts) then raise InvalidValue
      else
        let bound = map_of bindings (if length parts = 2 then hd parts else []) in
        if length parts = 2 \<and> bound = None then raise InvalidValue
        else Inr \<lparr>namespace = (case bound of Some ns \<Rightarrow> ns | None \<Rightarrow> []), local_name = name\<rparr>)"

lemma resolve_qname_Inr:
  assumes "resolve_qname s bindings = Inr q"
  shows "is_ncname (local_name q)" "namespace q = [] \<or> (\<exists>p. map_of bindings p = Some (namespace q))"
  using assms by (auto simp: resolve_qname_def Let_def split: if_splits option.splits)

lemma child_elements_subset: "c \<in> set (child_elements n) \<Longrightarrow> is_element c \<and> c \<in> set (children_of n)"
  by (simp add: child_elements_def)

end
