(* ===== verification/Discovery_Types.thy ===== *)
theory Discovery_Types
  imports Js_Values Xml_Types "HOL-Library.AList"
begin

section \<open>The data of discovery\<close>

text \<open>
  The interfaces of \<open>discovery/types.ts\<close> that carry data, with their fields in the order of the source.
  An optional field is an \<open>option\<close>, a nullable one too; numbers are whole (counters, ports, versions and
  times in milliseconds). The interfaces of the ports (sockets, clocks, adapters) are not data. A
  \<open>JsonValue\<close> is a canonical JSON value: it has no \<open>undefined\<close>, no big integer and no infinite number.
\<close>

datatype json =
    Json_Null | Json_Bool bool | Json_Int int | Json_Fraction rat | Json_Str string
  | Json_Arr "json list" | Json_Obj "(string \<times> json) list"

record operation_reference =
  binding_qname :: qname
  port_type_qname :: qname
  operation_name :: string

datatype outcome_status = Status_Unsupported | Status_Denied | Status_Fault | Status_Timeout | Status_Truncated | Status_Unknown

text \<open>
  \<open>ReadResult\<close>: a known value, or a status with a code, a message and perhaps a partial value.
\<close>

datatype 'a read_result =
    Known 'a
  | Missed (missed_status: outcome_status) (missed_code: string) (missed_message: string) (missed_partial: "'a option")

record observation_source =
  source_operation :: operation_reference
  source_xaddr :: string

record 'a last_known =
  last_value :: 'a
  last_observed_at :: int
  last_source :: "observation_source option"

record 'a observation =
  observed :: "'a read_result"
  observed_time :: int
  observed_source :: "observation_source option"
  last_known :: "'a last_known option"

datatype device_state = Candidate | Verified | Suspect | Stale | Conflict | Departed

record finding =
  finding_code :: string
  finding_message :: string
  finding_at :: int
  finding_device :: "string option"

record endpoint_reference =
  epr_address :: string
  reference_properties :: "xml_node list"
  reference_parameters :: "xml_node list"

record app_sequence =
  instance_id :: string
  sequence_id :: "string option"
  message_number :: string

datatype announcement_kind = Hello | Bye | ProbeMatches | ResolveMatches

record discovery_match =
  match_epr :: endpoint_reference
  match_types :: "qname list"
  match_scopes :: "string list"
  scope_match_by :: "string option"
  match_xaddrs :: "string list"
  match_metadata_version :: "string option"

record discovery_message =
  msg_kind :: announcement_kind
  msg_id :: string
  msg_relates_to :: "string option"
  msg_to :: string
  msg_sequence :: "app_sequence option"
  msg_matches :: "discovery_match list"
  msg_proxy :: bool

datatype ip_family = IPv4 | IPv6

record provenance =
  prov_interface :: string
  prov_segment :: string
  prov_address :: string
  prov_family :: ip_family
  prov_port :: int
  prov_received :: int
  prov_message :: string

record endpoint_observation =
  ep_xaddr :: string
  ep_approved :: bool
  ep_provenance :: "provenance list"

record sequence_watermark =
  mark_sequence :: "string option"
  mark_number :: string
  mark_kind :: announcement_kind

datatype claim_source = Discovery_Scope | Get_Scopes

record profile_claim =
  claim_scope :: string
  claim_label :: string
  claim_source :: claim_source
  claim_at :: int

record device_information =
  manufacturer :: string
  device_model :: string
  firmware_version :: string
  serial_number :: string
  hardware_id :: string

record service_snapshot =
  service_namespace :: string
  service_xaddr :: string
  service_version :: "(int \<times> int) option"
  capabilities :: "json observation"

datatype resource_kind =
    Media_Profile | Video_Source_Configuration | Video_Encoder_Configuration | Metadata_Configuration | Recording
  | Recording_Job | Resource_Track | Access_Point | Door | Access_Profile | Schedule | Receiver
  | Analytics_Configuration | Analytics_Module | Analytics_Rule

record native_resource =
  resource_token :: string
  parent_tokens :: "string list"
  resource_fixed :: "bool option"
  resource_data :: "(string \<times> json) list"

record resource_inventory =
  inventory_namespace :: string
  inventory_xaddr :: string
  inventory_kind :: resource_kind
  inventory_outcome :: "native_resource list observation"

record read_observation =
  read_operation :: operation_reference
  read_xaddr :: string
  read_args :: "(string \<times> json) list"
  read_outcome :: "json observation"
  read_responded :: "bool option"

record feature_observation =
  feature_namespace :: string
  feature_name :: string
  feature_operation :: operation_reference
  feature_outcome :: "json observation"

datatype evidence_kind = Authenticated | Provisioned

record identity_evidence =
  evidence_kind :: evidence_kind
  authority :: string
  subject :: string
  evidence_xaddr :: string
  evidence_at :: int

datatype profile_letter = Profile_A | Profile_C | Profile_D | Profile_G | Profile_M | Profile_S | Profile_T

datatype registry_status = Unverified | Matched | Firmware_Mismatch

record registry_evidence =
  registry_endpoint :: string
  registry_profile :: profile_letter
  registry_edition :: string
  registry_product :: string
  registry_firmware :: string
  registry_authority :: string
  registry_reference :: string
  registry_status :: registry_status

record device_snapshot =
  device_id :: string
  device_epr :: endpoint_reference
  device_state :: device_state
  identity_conflict :: bool
  epoch :: nat
  inspection_generation :: nat
  ordering_instance :: "string option"
  ordering_sequences :: "sequence_watermark list"
  metadata_version :: "string option"
  types :: "qname list"
  scopes :: "string list"
  claims :: "profile_claim list"
  endpoints :: "endpoint_observation list"
  device_provenance :: "provenance list"
  seen_at :: int
  verified_at :: "int option"
  updated_at :: int
  suspect_since :: "int option"
  failed_liveness :: nat
  last_liveness :: "int option"
  information :: "device_information observation"
  services :: "service_snapshot list observation"
  device_reads :: "read_observation list"
  device_resources :: "resource_inventory list"
  observed_features :: "feature_observation list"
  identity_evidence :: "identity_evidence list"
  registry_evidence :: "registry_evidence list"
  device_findings :: "finding list"

record seed_snapshot =
  seed_id :: string
  seed_xaddr :: string
  seed_interface :: string
  seed_segment :: string
  expected_address :: "string option"
  resolved_device :: "string option"
  seed_outcome :: "string observation"

record inventory_snapshot =
  snap_revision :: nat
  captured_at :: int
  snap_devices :: "device_snapshot list"
  snap_seeds :: "seed_snapshot list"
  snap_findings :: "finding list"
  snap_truncated :: bool

record inspection_token =
  token_device :: string
  token_epoch :: nat
  token_generation :: nat

record inspection_report =
  report_information :: "device_information observation"
  report_services :: "service_snapshot list observation"
  report_scopes :: "string list observation"
  report_epr :: "endpoint_reference observation"
  report_reads :: "read_observation list"
  report_resources :: "resource_inventory list"
  report_features :: "feature_observation list"
  report_evidence :: "identity_evidence list"
  completed_at :: int
  responsive :: bool
  report_truncated :: bool

record interface_ref =
  interface_id :: string
  interface_address :: string
  interface_family :: "ip_family option"
  interface_zone :: "string option"

record segment =
  segment_id :: string
  segment_interface :: string
  cidr :: string
  destination_address :: string
  destination_port :: jsnum
  listen_port :: jsnum
  multicast :: "bool option"

record bounds =
  max_devices :: int
  max_datagram_bytes :: int
  max_datagrams_per_round :: int
  max_pending_requests :: int
  max_message_ids :: int
  max_sequence_ids :: int
  max_xaddrs :: int
  max_provenance :: int
  max_diagnostics :: int
  max_scopes :: int
  max_types :: int
  max_matches :: int
  max_concurrent_inspections :: int
  max_queued_inspections :: int
  max_services :: int
  max_requests_per_inspection :: int
  max_pages :: int
  max_resources :: int
  max_read_bytes :: int
  max_inspection_bytes :: int
  max_store_bytes :: int

record timers =
  probe_window_ms :: int
  probe_interval_ms :: int
  retransmit_min_ms :: int
  retransmit_max_ms :: int
  inspection_timeout_ms :: int
  read_timeout_ms :: int
  refresh_ms :: int
  stale_ms :: int
  departure_grace_ms :: int

record seed_option =
  option_seed :: string
  option_xaddr :: string
  option_interface :: string
  option_segment :: string
  option_expected :: "string option"

text \<open>
  The options as a caller may pass them: \<open>other_keys\<close> are the keys the interface does not know, a family
  or a flag that is none of the interface's is \<open>None\<close>.
\<close>

record discovery_options =
  opt_interfaces :: "interface_ref list"
  opt_segments :: "segment list"
  opt_allowed :: "string list"
  opt_scopes :: "string list option"
  opt_seeds :: "seed_option list option"
  opt_ipv6 :: "string option"
  opt_untyped :: "(bool option \<times> jsnum) option"
  opt_missing_sequence :: "string option"
  opt_retransmissions :: "jsnum option"
  opt_bounds :: js
  opt_timers :: js
  other_keys :: "string list"

end
