(* ===== verification/Discovery_Policy.thy ===== *)
theory Discovery_Policy
  imports Discovery_Types Media_Policy Media_Ipc
begin

section \<open>The policy of discovery\<close>

text \<open>
  \<open>discovery/policy.ts\<close>: the bound on canonical JSON, the resource bounds and timers, the check of
  native addresses, and the confinement of interfaces and segments to explicit networks. What the
  sources take from the platform is one record of functions: the text of a number that is not a small
  integer, the SHA-256 digest of the JSON text of a value, the WHATWG URL parser, \<open>isIP\<close> and
  \<open>toLowerCase\<close> beyond ASCII.
\<close>

record discovery_host =
  host_number :: "jsnum \<Rightarrow> nat"
  host_digest :: "js \<Rightarrow> string"
  host_url :: "string \<Rightarrow> url_parts option"
  host_ip :: "string \<Rightarrow> nat"
  host_lower :: "string \<Rightarrow> string"

subsection \<open>Canonical JSON\<close>

text \<open>\<open>for (const x of xs) ...\<close> over a state, with a body that may throw.\<close>

fun fold_result :: "('a \<Rightarrow> 's \<Rightarrow> 's result) \<Rightarrow> 'a list \<Rightarrow> 's \<Rightarrow> 's result" where
  "fold_result f [] s = Inr s"
| "fold_result f (x # xs) s = bind_result (f x s) (fold_result f xs)"

lemma fold_result_cong [fundef_cong]:
  "xs = ys \<Longrightarrow> s = t \<Longrightarrow> (\<And>x u. x \<in> set ys \<Longrightarrow> f x u = g x u) \<Longrightarrow> fold_result f xs s = fold_result g ys t"
proof -
  have "(\<And>x u. x \<in> set ys \<Longrightarrow> f x u = g x u) \<Longrightarrow> fold_result f ys t = fold_result g ys t"
    by (induction ys arbitrary: t) (auto intro!: arg_cong2[where f = bind_result])
  then show "xs = ys \<Longrightarrow> s = t \<Longrightarrow> (\<And>x u. x \<in> set ys \<Longrightarrow> f x u = g x u) \<Longrightarrow> fold_result f xs s = fold_result g ys t"
    by simp
qed

record json_limits =
  json_nodes :: int
  json_depth :: nat
  json_bytes :: int

definition json_grow :: "json_limits \<Rightarrow> int \<Rightarrow> int \<times> int \<Rightarrow> (int \<times> int) result" where
  "json_grow l n st = (case st of (nodes, used) \<Rightarrow>
     if used + n > json_bytes l then raise XmlLimit else Inr (nodes, used + n))"

definition hex_digit :: "nat \<Rightarrow> char" where
  "hex_digit n = (if n < 10 then char_of (48 + n) else char_of (87 + n))"

text \<open>\<open>JSON.stringify(text)\<close>, code point by code point.\<close>

definition quoted_code_point :: "string \<Rightarrow> string" where
  "quoted_code_point p = (let n = point p in
     if n = 34 then [CHR 0x5C, CHR 0x22] else if n = 92 then [CHR 0x5C, CHR 0x5C]
     else if n = 8 then [CHR 0x5C, CHR ''b''] else if n = 9 then [CHR 0x5C, CHR ''t'']
     else if n = 10 then [CHR 0x5C, CHR ''n''] else if n = 12 then [CHR 0x5C, CHR ''f'']
     else if n = 13 then [CHR 0x5C, CHR ''r'']
     else if n < 32 \<or> 0xD800 \<le> n \<and> n \<le> 0xDFFF
     then [CHR 0x5C, CHR ''u'', hex_digit (n div 4096), hex_digit (n div 256 mod 16), hex_digit (n div 16 mod 16), hex_digit (n mod 16)]
     else p)"

definition quoted :: "string \<Rightarrow> string" where
  "quoted s = [CHR 0x22] @ concat (map quoted_code_point (code_points s)) @ [CHR 0x22]"

definition quoted_length :: "string \<Rightarrow> int" where
  "quoted_length s = int (length (quoted s))"

definition json_text :: "json_limits \<Rightarrow> string \<Rightarrow> int \<times> int \<Rightarrow> (int \<times> int) result" where
  "json_text l s st =
     (if int (length (utf16_units s)) > json_bytes l - snd st then raise XmlLimit else json_grow l (quoted_length s) st)"

definition number_length :: "discovery_host \<Rightarrow> jsnum \<Rightarrow> int" where
  "number_length h n =
     (case n of
        Whole i \<Rightarrow> if \<bar>i\<bar> < 10 ^ 21 then int (length (decimal (nat \<bar>i\<bar>))) + (if i < 0 then 1 else 0) else int (host_number h n)
      | _ \<Rightarrow> int (host_number h n))"

lemma json_child_weight: "c \<in> set (json_children v) \<Longrightarrow> json_weight c < json_weight v"
  unfolding json_weight_children[of v] less_Suc_eq_le by (rule member_le_sum_list) (auto intro: imageI)

function json_visit :: "discovery_host \<Rightarrow> json_limits \<Rightarrow> js \<Rightarrow> nat \<Rightarrow> int \<times> int \<Rightarrow> (int \<times> int) result" where
  "json_visit h l v depth st =
     (if fst st + 1 > json_nodes l \<or> depth > json_depth l then raise XmlLimit
      else
        let counted = (fst st + 1, snd st) in
        case v of
          JNull \<Rightarrow> json_grow l 4 counted
        | JStr s \<Rightarrow> json_text l s counted
        | JBool b \<Rightarrow> json_grow l (if b then 4 else 5) counted
        | JNum n \<Rightarrow> if is_finite_number n then json_grow l (number_length h n) counted else raise InvalidValue
        | JArr xs \<Rightarrow>
            bind_result (json_grow l (2 + max 0 (int (length xs) - 1)) counted)
              (fold_result (\<lambda>x. json_visit h l x (Suc depth)) xs)
        | JObj kvs \<Rightarrow>
            bind_result (json_grow l (2 + max 0 (int (length kvs) - 1)) counted)
              (fold_result (\<lambda>kv t. bind_result (json_text l (fst kv) t) (\<lambda>t1. bind_result (json_grow l 1 t1)
                 (json_visit h l (snd kv) (Suc depth)))) kvs)
        | _ \<Rightarrow> raise InvalidValue)"
  by pat_completeness auto
termination
proof (relation "measure (\<lambda>(h, l, v, d, st). json_weight v)", goal_cases)
  case 1
  show ?case by simp
next
  case (2 h l v depth st counted xs x u)
  then show ?case using json_child_weight[of _ v] by simp
next
  case (3 h l v depth st counted kvs kv u)
  then show ?case using json_child_weight[of _ v] by auto
qed

declare json_visit.simps [simp del]

definition assert_json :: "discovery_host \<Rightarrow> js \<Rightarrow> json_limits \<Rightarrow> unit result" where
  "assert_json h v l = bind_result (json_visit h l v 0 (0, 0)) (\<lambda>_. Inr ())"

subsection \<open>Bounds and timers\<close>

text \<open>\<open>Object.keys\<close> of a value of unknown type: the indices of a text or an array are keys too.\<close>

fun object_keys :: "js \<Rightarrow> string list result" where
  "object_keys JUndefined = Inl HostError"
| "object_keys JNull = Inl HostError"
| "object_keys (JStr s) = Inr (map decimal [0..<length (utf16_units s)])"
| "object_keys (JArr xs) = Inr (map decimal [0..<length xs])"
| "object_keys v = Inr (own_keys v)"

definition default_bounds :: "(string \<times> int) list" where
  "default_bounds =
     [(''maxDevices'', 128), (''maxDatagramBytes'', 32768), (''maxDatagramsPerRound'', 1024),
      (''maxPendingRequests'', 64), (''maxMessageIds'', 1024), (''maxSequenceIds'', 16), (''maxXAddrs'', 16),
      (''maxProvenance'', 32), (''maxDiagnostics'', 128), (''maxScopes'', 64), (''maxTypes'', 16), (''maxMatches'', 32),
      (''maxConcurrentInspections'', 4), (''maxQueuedInspections'', 128), (''maxServices'', 32),
      (''maxRequestsPerInspection'', 48), (''maxPages'', 4), (''maxResources'', 256), (''maxReadBytes'', 1024 * 1024),
      (''maxInspectionBytes'', 4 * 1024 * 1024), (''maxStoreBytes'', 8 * 1024 * 1024)]"

definition default_timers :: "(string \<times> int) list" where
  "default_timers =
     [(''probeWindowMs'', 3000), (''probeIntervalMs'', 30000), (''retransmitMinMs'', 50), (''retransmitMaxMs'', 250),
      (''inspectionTimeoutMs'', 15000), (''readTimeoutMs'', 3000), (''refreshMs'', 60000), (''staleMs'', 180000),
      (''departureGraceMs'', 60000)]"

text \<open>A value of \<open>{ ...DEFAULTS, ...options }\<close>: an own key wins, even with an undefined value.\<close>

definition option_value :: "js \<Rightarrow> (int \<Rightarrow> int) \<Rightarrow> string \<times> int \<Rightarrow> int result" where
  "option_value options limit entry =
     (case entry of (key, default_value) \<Rightarrow>
        positive_integer_js (if key \<in> set (own_keys options) then get options key else JNum (Whole default_value))
          (limit default_value))"

fun bounds_of :: "int list \<Rightarrow> bounds" where
  "bounds_of ns = \<lparr>max_devices = ns ! 0, max_datagram_bytes = ns ! 1, max_datagrams_per_round = ns ! 2,
     max_pending_requests = ns ! 3, max_message_ids = ns ! 4, max_sequence_ids = ns ! 5, max_xaddrs = ns ! 6,
     max_provenance = ns ! 7, max_diagnostics = ns ! 8, max_scopes = ns ! 9, max_types = ns ! 10, max_matches = ns ! 11,
     max_concurrent_inspections = ns ! 12, max_queued_inspections = ns ! 13, max_services = ns ! 14,
     max_requests_per_inspection = ns ! 15, max_pages = ns ! 16, max_resources = ns ! 17, max_read_bytes = ns ! 18,
     max_inspection_bytes = ns ! 19, max_store_bytes = ns ! 20\<rparr>"

fun timers_of :: "int list \<Rightarrow> timers" where
  "timers_of ns = \<lparr>probe_window_ms = ns ! 0, probe_interval_ms = ns ! 1, retransmit_min_ms = ns ! 2,
     retransmit_max_ms = ns ! 3, inspection_timeout_ms = ns ! 4, read_timeout_ms = ns ! 5, refresh_ms = ns ! 6,
     stale_ms = ns ! 7, departure_grace_ms = ns ! 8\<rparr>"

definition bounded_options :: "js \<Rightarrow> bounds result" where
  "bounded_options given =
     (let options = (if given = JUndefined then JObj [] else given) in
      bind_result (object_keys options) (\<lambda>ks.
      if \<exists>k\<in>set ks. k \<notin> set (map fst default_bounds) then raise InvalidConfiguration
      else
        bind_result (map_result (option_value options (\<lambda>d. max (d * 16) 64)) default_bounds) (\<lambda>ns.
          let b = bounds_of ns in
          if max_datagram_bytes b > 65507 \<or> max_read_bytes b > 16 * 1024 * 1024
            \<or> max_concurrent_inspections b > 32 \<or> max_store_bytes b > 64 * 1024 * 1024
          then raise InvalidConfiguration else Inr b)))"

definition timer_options :: "js \<Rightarrow> timers result" where
  "timer_options given =
     (let options = (if given = JUndefined then JObj [] else given) in
      bind_result (object_keys options) (\<lambda>ks.
      if \<exists>k\<in>set ks. k \<notin> set (map fst default_timers) then raise InvalidConfiguration
      else
        bind_result (map_result (option_value options (\<lambda>d. 2147483647)) default_timers) (\<lambda>ns.
          let t = timers_of ns in
          if retransmit_min_ms t > retransmit_max_ms t \<or> probe_window_ms t > probe_interval_ms t
            \<or> read_timeout_ms t > inspection_timeout_ms t \<or> refresh_ms t > stale_ms t
          then raise InvalidConfiguration else Inr t)))"

subsection \<open>URIs and native addresses\<close>

definition is_hex_char :: "char \<Rightarrow> bool" where
  "is_hex_char c = (is_lower_hex_char c \<or> 65 \<le> byte_of c \<and> byte_of c \<le> 70)"

fun escapes_complete :: "string \<Rightarrow> bool" where
  "escapes_complete [] = True"
| "escapes_complete (c # cs) =
     ((c = CHR ''%'' \<longrightarrow> (case cs of a # b # _ \<Rightarrow> is_hex_char a \<and> is_hex_char b | _ \<Rightarrow> False)) \<and> escapes_complete cs)"

definition uri_reference :: "string \<Rightarrow> bool" where
  "uri_reference s =
     (length (utf16_units s) \<le> 4096 \<and> \<not> list_ex (\<lambda>c. byte_of c \<le> 0x20 \<or> c = CHR 0x5C \<or> c = CHR 0x22 \<or> c \<in> set ''<>^`{|}'') s
      \<and> escapes_complete s)"

text \<open>
  \<open>/^[a-z][a-z0-9+.-]*:/iu\<close>: without case and with Unicode case folding, so that the long s and the
  Kelvin sign count as letters of a scheme.
\<close>

definition folded_letter :: "string \<Rightarrow> bool" where
  "folded_letter p = ((case p of [c] \<Rightarrow> is_alpha_char c | _ \<Rightarrow> False) \<or> point p = 0x17F \<or> point p = 0x212A)"

definition folded_class :: "string \<Rightarrow> string \<Rightarrow> bool" where
  "folded_class extra p = (folded_letter p \<or> (case p of [c] \<Rightarrow> is_digit_char c \<or> c \<in> set extra | _ \<Rightarrow> False))"

definition absolute_uri :: "string \<Rightarrow> bool" where
  "absolute_uri s =
     ((case code_points s of
         [] \<Rightarrow> False
       | p # ps \<Rightarrow> folded_letter p \<and> (case dropWhile (folded_class ''+.-'') ps of q # _ \<Rightarrow> q = '':'' | [] \<Rightarrow> False))
      \<and> uri_reference s)"

fun has_line_escape :: "string \<Rightarrow> bool" where
  "has_line_escape (a # b # c # s) = (a = CHR ''%'' \<and> b = CHR ''0'' \<and> c \<in> set ''aAdD'' \<or> has_line_escape (b # c # s))"
| "has_line_escape _ = False"

definition validate_xaddr :: "discovery_host \<Rightarrow> string \<Rightarrow> string result" where
  "validate_xaddr h s =
     (if \<not> absolute_uri s then raise InvalidValue
      else case host_url h s of
          None \<Rightarrow> raise InvalidValue
        | Some u \<Rightarrow>
            if url_protocol u \<notin> {''http:'', ''https:''} \<or> url_username u \<noteq> [] \<or> url_password u \<noteq> [] \<or> url_hash u \<noteq> []
              \<or> url_hostname u = [] \<or> has_line_escape s
            then raise PolicyDenied else Inr s)"

definition approve_xaddr :: "discovery_host \<Rightarrow> string list \<Rightarrow> string \<Rightarrow> bool result" where
  "approve_xaddr h allowed s = bind_result (validate_xaddr h s) (\<lambda>_. Inr (s \<in> set allowed))"

subsection \<open>Networks\<close>

text \<open>
  \<open>ipNumber\<close>: the width of an address and its number. \<open>isIP\<close> answers 6 only for texts with a colon, so
  that the recursive call on the part after the last colon sees an IPv4 address or nothing it accepts.
\<close>

definition octets_value :: "string \<Rightarrow> nat" where
  "octets_value s = foldl (\<lambda>v o'. v * 2 ^ 8 + nat (digits_value o')) 0 (split_at (CHR ''.'') s)"

definition hex_digit_value :: "char \<Rightarrow> nat" where
  "hex_digit_value c = (if is_digit_char c then byte_of c - 48 else if is_lower_hex_char c then byte_of c - 87 else byte_of c - 55)"

definition hex_value :: "string \<Rightarrow> nat" where
  "hex_value s = foldl (\<lambda>n c. 16 * n + hex_digit_value c) 0 s"

fun hex_text :: "nat \<Rightarrow> string" where
  "hex_text n = (if n < 16 then [hex_digit n] else hex_text (n div 16) @ [hex_digit (n mod 16)])"

declare hex_text.simps [simp del]

definition before_last_colon :: "string \<Rightarrow> string" where
  "before_last_colon s = (if CHR '':'' \<in> set s then rev (tl (dropWhile (\<lambda>c. c \<noteq> CHR '':'') (rev s))) else butlast s)"

definition after_last_colon :: "string \<Rightarrow> string" where
  "after_last_colon s = rev (takeWhile (\<lambda>c. c \<noteq> CHR '':'') (rev s))"

fun split_double_colon :: "string \<Rightarrow> string list" where
  "split_double_colon [] = [[]]"
| "split_double_colon [c] = [[c]]"
| "split_double_colon (c # d # cs) =
     (if c = CHR '':'' \<and> d = CHR '':'' then [] # split_double_colon cs
      else case split_double_colon (d # cs) of [] \<Rightarrow> [[c]] | w # ws \<Rightarrow> (c # w) # ws)"

definition ipv6_expanded :: "string \<Rightarrow> string" where
  "ipv6_expanded address =
     (let v4 = octets_value (after_last_colon address)
      in before_last_colon address @ '':'' @ hex_text (v4 div 2 ^ 16) @ '':'' @ hex_text (v4 mod 2 ^ 16))"

definition ipv6_value :: "string \<Rightarrow> nat result" where
  "ipv6_value expanded =
     (let halves = split_double_colon expanded;
          words_of = (\<lambda>t. filter (\<lambda>w. w \<noteq> []) (split_at (CHR '':'') t));
          left = words_of (hd halves);
          right = (if length halves > 1 then words_of (halves ! 1) else [])
      in if length halves \<noteq> 1 \<and> length left + length right > 8 then Inl HostError
         else
           let ws = (if length halves = 1 then left
             else left @ replicate (8 - length left - length right) ''0'' @ right)
           in Inr (foldl (\<lambda>v w. v * 2 ^ 16 + hex_value w) 0 ws))"

definition ip_number :: "discovery_host \<Rightarrow> string \<Rightarrow> (nat \<times> nat) result" where
  "ip_number h input =
     (let address = takeWhile (\<lambda>c. c \<noteq> CHR ''%'') input in
      if host_ip h address = 4 then Inr (32, octets_value address)
      else if host_ip h address \<noteq> 6 then raise InvalidConfiguration
      else if CHR ''.'' \<in> set address then
        if host_ip h (after_last_colon address) \<noteq> 4 then raise InvalidConfiguration
        else bind_result (ipv6_value (ipv6_expanded address)) (\<lambda>n. Inr (128, n))
      else bind_result (ipv6_value address) (\<lambda>n. Inr (128, n)))"

definition in_cidr :: "discovery_host \<Rightarrow> string \<Rightarrow> string \<Rightarrow> bool result" where
  "in_cidr h address network_text =
     (let parts = split_at (CHR ''/'') network_text in
      if length parts \<noteq> 2 \<or> parts ! 1 = [] \<or> \<not> list_all is_digit_char (parts ! 1) then raise InvalidConfiguration
      else
        bind_result (ip_number h (parts ! 0)) (\<lambda>(width, network).
          let confined = digits_value (parts ! 1) in
          if confined \<le> 0 \<or> confined > int width then raise InvalidConfiguration
          else
            bind_result (ip_number h address) (\<lambda>(bits, n).
              let shift = width - nat confined in
              if bits \<noteq> width then Inr False
              else if network div 2 ^ shift * 2 ^ shift \<noteq> network then raise InvalidConfiguration
              else Inr (n div 2 ^ shift = network div 2 ^ shift))))"

definition same_ip :: "discovery_host \<Rightarrow> string \<Rightarrow> string \<Rightarrow> bool result" where
  "same_ip h a b =
     bind_result (ip_number h a) (\<lambda>(bits_a, n). bind_result (ip_number h b) (\<lambda>(bits_b, m). Inr (bits_a = bits_b \<and> n = m)))"

subsection \<open>Interfaces, segments and options\<close>

definition require :: "bool \<Rightarrow> unit result" where
  "require b = (if b then Inr () else raise InvalidConfiguration)"

lemma require_Inr [simp]: "require b = Inr u \<longleftrightarrow> b"
  by (simp add: require_def)

definition multicast_group :: "ip_family option \<Rightarrow> string" where
  "multicast_group f = (if f = Some IPv4 then ''239.255.255.250'' else ''ff02::c'')"

definition check_destination :: "discovery_host \<Rightarrow> interface_ref \<Rightarrow> segment \<Rightarrow> unit result" where
  "check_destination h here s =
     (if multicast s = Some True then
        bind_result (same_ip h (destination_address s) (multicast_group (interface_family here))) (\<lambda>same.
          require (same \<and> destination_port s = Whole 3702 \<and> listen_port s = Whole 3702))
      else bind_result (in_cidr h (destination_address s) (cidr s)) require)"

definition validate_segment :: "discovery_host \<Rightarrow> interface_ref \<Rightarrow> segment \<Rightarrow> unit result" where
  "validate_segment h here s =
     bind_result (in_cidr h (interface_address here) (cidr s)) (\<lambda>inside.
     bind_result (require inside) (\<lambda>_.
     bind_result (require (case listen_port s of Whole n \<Rightarrow> 0 \<le> n \<and> n \<le> 65535 | _ \<Rightarrow> False)) (\<lambda>_.
     bind_result (positive_integer (destination_port s) 65535) (\<lambda>_.
     bind_result (check_destination h here s) (\<lambda>_.
       require (CHR ''%'' \<notin> set (destination_address s)))))))"

definition zone_ok :: "string \<Rightarrow> bool" where
  "zone_ok z = (z \<noteq> [] \<and> list_all (folded_class ''_.-'') (code_points z))"

definition interface_ok :: "discovery_host \<Rightarrow> string list \<Rightarrow> interface_ref \<Rightarrow> bool" where
  "interface_ok h ids i =
     (interface_id i \<noteq> [] \<and> interface_id i \<notin> set ids \<and> CHR ''%'' \<notin> set (interface_address i)
      \<and> host_ip h (interface_address i) = (case interface_family i of Some IPv4 \<Rightarrow> 4 | Some IPv6 \<Rightarrow> 6 | None \<Rightarrow> 0)
      \<and> interface_address i \<notin> {''0.0.0.0'', ''::''} \<and> (\<forall>z\<in>set_option (interface_zone i). zone_ok z))"

definition check_interface :: "discovery_host \<Rightarrow> interface_ref \<Rightarrow> string list \<Rightarrow> string list result" where
  "check_interface h i ids = bind_result (require (interface_ok h ids i)) (\<lambda>_. Inr (interface_id i # ids))"

definition check_segment :: "discovery_host \<Rightarrow> interface_ref list \<Rightarrow> segment \<Rightarrow> string list \<Rightarrow> string list result" where
  "check_segment h interfaces s ids =
     (case find (\<lambda>i. interface_id i = segment_interface s) interfaces of
        None \<Rightarrow> raise InvalidConfiguration
      | Some here \<Rightarrow>
          bind_result (require (segment_id s \<noteq> [] \<and> segment_id s \<notin> set ids \<and> multicast s \<noteq> None)) (\<lambda>_.
          bind_result (validate_segment h here s) (\<lambda>_. Inr (segment_id s # ids))))"

definition check_seed :: "discovery_host \<Rightarrow> segment list \<Rightarrow> string list \<Rightarrow> seed_option \<Rightarrow> string list \<Rightarrow> string list result" where
  "check_seed h segments allowed x ids =
     (case find (\<lambda>s. segment_id s = option_segment x) segments of
        None \<Rightarrow> raise InvalidConfiguration
      | Some s \<Rightarrow>
          bind_result (require (option_seed x \<noteq> [] \<and> option_seed x \<notin> set ids
            \<and> segment_interface s = option_interface x)) (\<lambda>_.
          bind_result (approve_xaddr h allowed (option_xaddr x)) (\<lambda>approved.
          bind_result (require (approved \<and> (\<forall>e\<in>set_option (option_expected x). absolute_uri e))) (\<lambda>_.
            Inr (option_seed x # ids)))))"

text \<open>The policies that are single values: IPv6, missing sequences, retransmissions and untyped probes.\<close>

definition check_policies :: "discovery_options \<Rightarrow> unit result" where
  "check_policies o' =
     bind_result (require (\<forall>v\<in>set_option (opt_ipv6 o'). v \<in> {''disabled'', ''bestEffort'', ''required''})) (\<lambda>_.
     bind_result (require (\<forall>v\<in>set_option (opt_missing_sequence o'). v \<in> {''reject'', ''candidate''})) (\<lambda>_.
     bind_result (require (opt_ipv6 o' = Some ''required'' \<longrightarrow> list_ex (\<lambda>i. interface_family i = Some IPv6) (opt_interfaces o'))) (\<lambda>_.
     bind_result (case opt_retransmissions o' of None \<Rightarrow> Inr 0 | Some n \<Rightarrow> positive_integer n 4) (\<lambda>_.
       case opt_untyped o' of
         None \<Rightarrow> Inr ()
       | Some (enabled, n) \<Rightarrow>
           bind_result (require (enabled \<noteq> None)) (\<lambda>_.
           bind_result (positive_integer n 64) (\<lambda>_. Inr ()))))))"

record validated_options =
  valid_options :: discovery_options
  valid_bounds :: bounds
  valid_timers :: timers
  valid_allowed :: "string list"

definition validate_options :: "discovery_host \<Rightarrow> discovery_options \<Rightarrow> validated_options result" where
  "validate_options h o' =
     bind_result (require (opt_interfaces o' \<noteq> [] \<and> length (opt_interfaces o') \<le> 32 \<and> opt_segments o' \<noteq> []
       \<and> length (opt_segments o') \<le> 64 \<and> length (opt_allowed o') \<le> 4096)) (\<lambda>_.
     bind_result (require (other_keys o' = [])) (\<lambda>_.
     bind_result (bounded_options (opt_bounds o')) (\<lambda>b.
     bind_result (timer_options (opt_timers o')) (\<lambda>t.
     bind_result (fold_result (check_interface h) (opt_interfaces o') []) (\<lambda>_.
     bind_result (fold_result (check_segment h (opt_interfaces o')) (opt_segments o') []) (\<lambda>_.
     bind_result (check_policies o') (\<lambda>_.
     bind_result (case opt_scopes o' of None \<Rightarrow> Inr ()
       | Some xs \<Rightarrow> require (int (length xs) \<le> max_scopes b \<and> list_all absolute_uri xs)) (\<lambda>_.
     bind_result (map_result (validate_xaddr h) (opt_allowed o')) (\<lambda>allowed.
     let seeds = (case opt_seeds o' of None \<Rightarrow> [] | Some xs \<Rightarrow> xs) in
     bind_result (require (int (length seeds) \<le> max_devices b)) (\<lambda>_.
     bind_result (fold_result (check_seed h (opt_segments o') allowed) seeds []) (\<lambda>_.
       Inr \<lparr>valid_options = o', valid_bounds = b, valid_timers = t, valid_allowed = allowed\<rparr>)))))))))))"

end
