(* ===== verification/Discovery_Json.thy ===== *)
theory Discovery_Json
  imports Discovery_Types
begin

section \<open>The JSON of discovery\<close>

text \<open>
  Every value of \<open>discovery/types.ts\<close> as the JavaScript object that \<open>assertJson\<close> walks and
  \<open>JSON.stringify\<close> writes: the property names of the interfaces, an absent optional property is no key.
\<close>

definition js_nat :: "nat \<Rightarrow> js" where "js_nat n = JNum (Whole (int n))"

definition js_int :: "int \<Rightarrow> js" where "js_int n = JNum (Whole n)"

definition js_strings :: "string list \<Rightarrow> js" where "js_strings xs = JArr (map JStr xs)"

text \<open>A nullable value, and a property that may be absent.\<close>

definition js_nullable :: "('a \<Rightarrow> js) \<Rightarrow> 'a option \<Rightarrow> js" where
  "js_nullable f x = (case x of None \<Rightarrow> JNull | Some y \<Rightarrow> f y)"

definition js_field :: "string \<Rightarrow> ('a \<Rightarrow> js) \<Rightarrow> 'a option \<Rightarrow> (string \<times> js) list" where
  "js_field k f x = (case x of None \<Rightarrow> [] | Some y \<Rightarrow> [(k, f y)])"

fun js_of_json :: "json \<Rightarrow> js" where
  "js_of_json Json_Null = JNull"
| "js_of_json (Json_Bool b) = JBool b"
| "js_of_json (Json_Int n) = JNum (Whole n)"
| "js_of_json (Json_Fraction q) = JNum (Fraction q)"
| "js_of_json (Json_Str s) = JStr s"
| "js_of_json (Json_Arr xs) = JArr (map js_of_json xs)"
| "js_of_json (Json_Obj kvs) = JObj (map (\<lambda>kv. (fst kv, js_of_json (snd kv))) kvs)"

definition js_object :: "(string \<times> json) list \<Rightarrow> js" where
  "js_object kvs = js_of_json (Json_Obj kvs)"

subsection \<open>XML and endpoint references\<close>

definition js_of_qname :: "qname \<Rightarrow> js" where
  "js_of_qname q = JObj [(''namespace'', JStr (namespace q)), (''localName'', JStr (local_name q))]"

definition js_of_attribute :: "xml_attribute \<Rightarrow> js" where
  "js_of_attribute a = JObj ([(''name'', js_of_qname (attr_name a))] @ js_field ''prefix'' JStr (attr_prefix a)
     @ [(''value'', JStr (attr_value a))])"

fun js_of_node :: "xml_node \<Rightarrow> js" where
  "js_of_node (Xml_Element n p ns as cs) =
     JObj ([(''kind'', JStr ''element''), (''name'', js_of_qname n)] @ js_field ''prefix'' JStr p
       @ [(''namespaces'', JObj (map (\<lambda>b. (fst b, JStr (snd b))) ns)), (''attributes'', JArr (map js_of_attribute as)),
          (''children'', JArr (map js_of_node cs))])"
| "js_of_node (Xml_Text s) = JObj [(''kind'', JStr ''text''), (''value'', JStr s)]"
| "js_of_node (Xml_Comment s) = JObj [(''kind'', JStr ''comment''), (''value'', JStr s)]"
| "js_of_node (Xml_Instruction t s) =
     JObj [(''kind'', JStr ''processing-instruction''), (''target'', JStr t), (''value'', JStr s)]"

definition js_of_epr :: "endpoint_reference \<Rightarrow> js" where
  "js_of_epr e = JObj [(''address'', JStr (epr_address e)),
     (''referenceProperties'', JArr (map js_of_node (reference_properties e))),
     (''referenceParameters'', JArr (map js_of_node (reference_parameters e)))]"

subsection \<open>Messages\<close>

fun kind_text :: "announcement_kind \<Rightarrow> string" where
  "kind_text Hello = ''Hello''"
| "kind_text Bye = ''Bye''"
| "kind_text ProbeMatches = ''ProbeMatches''"
| "kind_text ResolveMatches = ''ResolveMatches''"

definition js_of_match :: "discovery_match \<Rightarrow> js" where
  "js_of_match m = JObj [(''endpointReference'', js_of_epr (match_epr m)), (''types'', JArr (map js_of_qname (match_types m))),
     (''scopes'', js_strings (match_scopes m)), (''scopeMatchBy'', js_nullable JStr (scope_match_by m)),
     (''xaddrs'', js_strings (match_xaddrs m)), (''metadataVersion'', js_nullable JStr (match_metadata_version m))]"

definition js_of_sequence :: "app_sequence \<Rightarrow> js" where
  "js_of_sequence s = JObj [(''instanceId'', JStr (instance_id s)), (''messageNumber'', JStr (message_number s)),
     (''sequenceId'', js_nullable JStr (sequence_id s))]"

definition js_of_message :: "discovery_message \<Rightarrow> js" where
  "js_of_message m = JObj [(''kind'', JStr (kind_text (msg_kind m))), (''messageId'', JStr (msg_id m)),
     (''relatesTo'', js_nullable JStr (msg_relates_to m)), (''to'', JStr (msg_to m)),
     (''sequence'', js_nullable js_of_sequence (msg_sequence m)), (''matches'', JArr (map js_of_match (msg_matches m))),
     (''discoveryProxy'', JBool (msg_proxy m))]"

subsection \<open>Observations\<close>

definition js_of_operation :: "operation_reference \<Rightarrow> js" where
  "js_of_operation r = JObj [(''bindingQName'', js_of_qname (binding_qname r)),
     (''portTypeQName'', js_of_qname (port_type_qname r)), (''operation'', JStr (operation_name r))]"

definition js_of_source :: "observation_source \<Rightarrow> js" where
  "js_of_source s = JObj [(''operation'', js_of_operation (source_operation s)), (''xaddr'', JStr (source_xaddr s))]"

fun status_text :: "outcome_status \<Rightarrow> string" where
  "status_text Status_Unsupported = ''unsupported''"
| "status_text Status_Denied = ''denied''"
| "status_text Status_Fault = ''fault''"
| "status_text Status_Timeout = ''timeout''"
| "status_text Status_Truncated = ''truncated''"
| "status_text Status_Unknown = ''unknown''"

fun result_fields :: "('a \<Rightarrow> js) \<Rightarrow> 'a read_result \<Rightarrow> (string \<times> js) list" where
  "result_fields f (Known v) = [(''status'', JStr ''known''), (''value'', f v)]"
| "result_fields f (Missed st code text part) =
     [(''status'', JStr (status_text st)), (''code'', JStr code), (''message'', JStr text)] @ js_field ''partial'' f part"

definition js_of_last :: "('a \<Rightarrow> js) \<Rightarrow> 'a last_known \<Rightarrow> js" where
  "js_of_last f k = JObj ([(''value'', f (last_value k)), (''observedAt'', js_int (last_observed_at k))]
     @ js_field ''source'' js_of_source (last_source k))"

definition js_of_observation :: "('a \<Rightarrow> js) \<Rightarrow> 'a observation \<Rightarrow> js" where
  "js_of_observation f x = JObj (result_fields f (observed x) @ [(''observedAt'', js_int (observed_time x))]
     @ js_field ''source'' js_of_source (observed_source x) @ js_field ''lastKnown'' (js_of_last f) (last_known x))"

subsection \<open>Devices\<close>

definition js_of_finding :: "finding \<Rightarrow> js" where
  "js_of_finding d = JObj ([(''code'', JStr (finding_code d)), (''message'', JStr (finding_message d)),
     (''at'', js_int (finding_at d))] @ js_field ''deviceId'' JStr (finding_device d))"

definition family_text :: "ip_family \<Rightarrow> string" where
  "family_text f = (case f of IPv4 \<Rightarrow> ''IPv4'' | IPv6 \<Rightarrow> ''IPv6'')"

definition js_of_provenance :: "provenance \<Rightarrow> js" where
  "js_of_provenance p = JObj [(''interfaceId'', JStr (prov_interface p)), (''segmentId'', JStr (prov_segment p)),
     (''address'', JStr (prov_address p)), (''family'', JStr (family_text (prov_family p))), (''port'', js_int (prov_port p)),
     (''receivedAt'', js_int (prov_received p)), (''messageId'', JStr (prov_message p))]"

definition js_of_endpoint :: "endpoint_observation \<Rightarrow> js" where
  "js_of_endpoint e = JObj [(''xaddr'', JStr (ep_xaddr e)),
     (''approval'', JStr (if ep_approved e then ''approved'' else ''unapproved'')),
     (''provenance'', JArr (map js_of_provenance (ep_provenance e)))]"

definition js_of_watermark :: "sequence_watermark \<Rightarrow> js" where
  "js_of_watermark w = JObj [(''sequenceId'', js_nullable JStr (mark_sequence w)), (''messageNumber'', JStr (mark_number w)),
     (''kind'', JStr (kind_text (mark_kind w)))]"

definition js_of_claim :: "profile_claim \<Rightarrow> js" where
  "js_of_claim c = JObj [(''scope'', JStr (claim_scope c)), (''label'', JStr (claim_label c)),
     (''source'', JStr (case claim_source c of Discovery_Scope \<Rightarrow> ''discovery-scope'' | Get_Scopes \<Rightarrow> ''GetScopes'')),
     (''observedAt'', js_int (claim_at c))]"

definition js_of_information :: "device_information \<Rightarrow> js" where
  "js_of_information i = JObj [(''manufacturer'', JStr (manufacturer i)), (''model'', JStr (device_model i)),
     (''firmwareVersion'', JStr (firmware_version i)), (''serialNumber'', JStr (serial_number i)),
     (''hardwareId'', JStr (hardware_id i))]"

definition js_of_service :: "service_snapshot \<Rightarrow> js" where
  "js_of_service s = JObj [(''namespace'', JStr (service_namespace s)), (''xaddr'', JStr (service_xaddr s)),
     (''version'', js_nullable (\<lambda>v. JObj [(''major'', js_int (fst v)), (''minor'', js_int (snd v))]) (service_version s)),
     (''capabilities'', js_of_observation js_of_json (capabilities s))]"

fun resource_kind_text :: "resource_kind \<Rightarrow> string" where
  "resource_kind_text Media_Profile = ''media-profile''"
| "resource_kind_text Video_Source_Configuration = ''video-source-configuration''"
| "resource_kind_text Video_Encoder_Configuration = ''video-encoder-configuration''"
| "resource_kind_text Metadata_Configuration = ''metadata-configuration''"
| "resource_kind_text Recording = ''recording''"
| "resource_kind_text Recording_Job = ''recording-job''"
| "resource_kind_text Resource_Track = ''track''"
| "resource_kind_text Access_Point = ''access-point''"
| "resource_kind_text Door = ''door''"
| "resource_kind_text Access_Profile = ''access-profile''"
| "resource_kind_text Schedule = ''schedule''"
| "resource_kind_text Receiver = ''receiver''"
| "resource_kind_text Analytics_Configuration = ''analytics-configuration''"
| "resource_kind_text Analytics_Module = ''analytics-module''"
| "resource_kind_text Analytics_Rule = ''analytics-rule''"

definition js_of_native :: "native_resource \<Rightarrow> js" where
  "js_of_native r = JObj [(''token'', JStr (resource_token r)), (''parentTokens'', js_strings (parent_tokens r)),
     (''fixed'', js_nullable JBool (resource_fixed r)), (''data'', js_object (resource_data r))]"

definition js_of_resources :: "resource_inventory \<Rightarrow> js" where
  "js_of_resources r = JObj [(''namespace'', JStr (inventory_namespace r)), (''xaddr'', JStr (inventory_xaddr r)),
     (''kind'', JStr (resource_kind_text (inventory_kind r))),
     (''outcome'', js_of_observation (\<lambda>xs. JArr (map js_of_native xs)) (inventory_outcome r))]"

definition js_of_read :: "read_observation \<Rightarrow> js" where
  "js_of_read r = JObj ([(''operation'', js_of_operation (read_operation r)), (''xaddr'', JStr (read_xaddr r)),
     (''args'', js_object (read_args r)), (''outcome'', js_of_observation js_of_json (read_outcome r))]
     @ js_field ''responded'' JBool (read_responded r))"

definition js_of_feature :: "feature_observation \<Rightarrow> js" where
  "js_of_feature f = JObj [(''namespace'', JStr (feature_namespace f)), (''feature'', JStr (feature_name f)),
     (''operation'', js_of_operation (feature_operation f)), (''outcome'', js_of_observation js_of_json (feature_outcome f))]"

definition js_of_evidence :: "identity_evidence \<Rightarrow> js" where
  "js_of_evidence e = JObj [(''kind'', JStr (case evidence_kind e of Authenticated \<Rightarrow> ''authenticated'' | Provisioned \<Rightarrow> ''provisioned'')),
     (''authority'', JStr (authority e)), (''subject'', JStr (subject e)), (''xaddr'', JStr (evidence_xaddr e)),
     (''observedAt'', js_int (evidence_at e))]"

fun profile_text :: "profile_letter \<Rightarrow> string" where
  "profile_text Profile_A = ''A''"
| "profile_text Profile_C = ''C''"
| "profile_text Profile_D = ''D''"
| "profile_text Profile_G = ''G''"
| "profile_text Profile_M = ''M''"
| "profile_text Profile_S = ''S''"
| "profile_text Profile_T = ''T''"

fun registry_status_text :: "registry_status \<Rightarrow> string" where
  "registry_status_text Unverified = ''unverified''"
| "registry_status_text Matched = ''matched''"
| "registry_status_text Firmware_Mismatch = ''firmware-mismatch''"

definition js_of_registry :: "registry_evidence \<Rightarrow> js" where
  "js_of_registry r = JObj [(''endpointAddress'', JStr (registry_endpoint r)), (''profile'', JStr (profile_text (registry_profile r))),
     (''edition'', JStr (registry_edition r)), (''product'', JStr (registry_product r)),
     (''firmwareVersion'', JStr (registry_firmware r)), (''authority'', JStr (registry_authority r)),
     (''reference'', JStr (registry_reference r)), (''status'', JStr (registry_status_text (registry_status r)))]"

fun state_text :: "device_state \<Rightarrow> string" where
  "state_text Candidate = ''candidate''"
| "state_text Verified = ''verified''"
| "state_text Suspect = ''suspect''"
| "state_text Stale = ''stale''"
| "state_text Conflict = ''conflict''"
| "state_text Departed = ''departed''"

definition js_of_device :: "device_snapshot \<Rightarrow> js" where
  "js_of_device d = JObj [(''id'', JStr (device_id d)), (''endpointReference'', js_of_epr (device_epr d)),
     (''state'', JStr (state_text (device_state d))), (''identityConflict'', JBool (identity_conflict d)),
     (''epoch'', js_nat (epoch d)), (''inspectionGeneration'', js_nat (inspection_generation d)),
     (''ordering'', JObj [(''instanceId'', js_nullable JStr (ordering_instance d)),
        (''sequences'', JArr (map js_of_watermark (ordering_sequences d)))]),
     (''metadataVersion'', js_nullable JStr (metadata_version d)), (''types'', JArr (map js_of_qname (types d))),
     (''scopes'', js_strings (scopes d)), (''claims'', JArr (map js_of_claim (claims d))),
     (''endpoints'', JArr (map js_of_endpoint (endpoints d))), (''provenance'', JArr (map js_of_provenance (device_provenance d))),
     (''seenAt'', js_int (seen_at d)), (''verifiedAt'', js_nullable js_int (verified_at d)), (''updatedAt'', js_int (updated_at d)),
     (''suspectSince'', js_nullable js_int (suspect_since d)), (''failedLivenessRounds'', js_nat (failed_liveness d)),
     (''lastLivenessRound'', js_nullable js_int (last_liveness d)),
     (''information'', js_of_observation js_of_information (information d)),
     (''services'', js_of_observation (\<lambda>xs. JArr (map js_of_service xs)) (services d)),
     (''reads'', JArr (map js_of_read (device_reads d))), (''resources'', JArr (map js_of_resources (device_resources d))),
     (''observedFeatures'', JArr (map js_of_feature (observed_features d))),
     (''identityEvidence'', JArr (map js_of_evidence (identity_evidence d))),
     (''registryEvidence'', JArr (map js_of_registry (registry_evidence d))),
     (''diagnostics'', JArr (map js_of_finding (device_findings d)))]"

definition js_of_seed :: "seed_snapshot \<Rightarrow> js" where
  "js_of_seed s = JObj [(''seedId'', JStr (seed_id s)), (''xaddr'', JStr (seed_xaddr s)),
     (''interfaceId'', JStr (seed_interface s)), (''segmentId'', JStr (seed_segment s)),
     (''expectedEndpointAddress'', js_nullable JStr (expected_address s)),
     (''resolvedDeviceId'', js_nullable JStr (resolved_device s)), (''outcome'', js_of_observation JStr (seed_outcome s))]"

definition js_of_snapshot :: "inventory_snapshot \<Rightarrow> js" where
  "js_of_snapshot v = JObj [(''schemaVersion'', JNum (Whole 1)), (''revision'', js_nat (snap_revision v)),
     (''capturedAt'', js_int (captured_at v)), (''devices'', JArr (map js_of_device (snap_devices v))),
     (''seeds'', JArr (map js_of_seed (snap_seeds v))), (''diagnostics'', JArr (map js_of_finding (snap_findings v))),
     (''truncated'', JBool (snap_truncated v))]"

end
