(* ===== verification/Discovery_Protocol.thy ===== *)
theory Discovery_Protocol
  imports Discovery_Policy Discovery_Json "HOL-Library.List_Lexorder"
begin

section \<open>The WS-Discovery protocol\<close>

text \<open>
  \<open>discovery/protocol.ts\<close>: the April 2005 announcements and responses as they are accepted, the identity
  of an endpoint reference, the matching of scopes, and the probes and resolves that are sent. The text of
  a datagram is parsed by \<open>xml/parser.ts\<close> on a SAX library: \<open>parse_discovery\<close> starts from its root element.
\<close>

abbreviation soap_ns :: string where "soap_ns \<equiv> ''http://www.w3.org/2003/05/soap-envelope''"
abbreviation addressing_ns :: string where "addressing_ns \<equiv> ''http://schemas.xmlsoap.org/ws/2004/08/addressing''"
abbreviation discovery_ns :: string where "discovery_ns \<equiv> ''http://schemas.xmlsoap.org/ws/2005/04/discovery''"
abbreviation discovery_to :: string where "discovery_to \<equiv> ''urn:schemas-xmlsoap-org:ws:2005:04:discovery''"
abbreviation anonymous_role :: string where
  "anonymous_role \<equiv> ''http://schemas.xmlsoap.org/ws/2004/08/addressing/role/anonymous''"
abbreviation device_ns :: string where "device_ns \<equiv> ''http://www.onvif.org/ver10/device/wsdl''"
abbreviation legacy_device_ns :: string where "legacy_device_ns \<equiv> ''http://www.onvif.org/ver10/network/wsdl''"

subsection \<open>Reading elements\<close>

definition named :: "string \<Rightarrow> string \<Rightarrow> xml_node \<Rightarrow> bool" where
  "named ns name n = (is_element n \<and> namespace (el_name n) = ns \<and> local_name (el_name n) = name)"

definition one :: "xml_node \<Rightarrow> string \<Rightarrow> string \<Rightarrow> bool \<Rightarrow> xml_node option result" where
  "one parent ns name needed =
     (case filter (named ns name) (child_elements parent) of
        [] \<Rightarrow> if needed then raise InvalidXml else Inr None
      | [n] \<Rightarrow> Inr (Some n)
      | _ \<Rightarrow> raise InvalidXml)"

definition required :: "xml_node \<Rightarrow> string \<Rightarrow> string \<Rightarrow> xml_node result" where
  "required parent ns name =
     bind_result (one parent ns name True) (\<lambda>n. case n of None \<Rightarrow> raise InvalidXml | Some x \<Rightarrow> Inr x)"

definition value_of :: "xml_node \<Rightarrow> string \<Rightarrow> string \<Rightarrow> string result" where
  "value_of parent ns name =
     bind_result (required parent ns name) (\<lambda>n. bind_result (text_content n) (\<lambda>s. Inr (trim s)))"

definition uri :: "string \<Rightarrow> string result" where
  "uri s = (if absolute_uri s then Inr s else raise InvalidXml)"

definition text_list :: "xml_node option \<Rightarrow> int \<Rightarrow> string list result" where
  "text_list n limit =
     bind_result (case n of None \<Rightarrow> Inr [] | Some x \<Rightarrow> bind_result (text_content x) (\<lambda>s. Inr (space_separated s)))
       (\<lambda>items. if int (length items) > limit then raise XmlLimit else Inr items)"

definition attribute :: "xml_node \<Rightarrow> string \<Rightarrow> string option" where
  "attribute n name =
     map_option attr_value (find (\<lambda>a. namespace (attr_name a) = [] \<and> local_name (attr_name a) = name) (el_attributes n))"

definition counter_digits :: "string \<Rightarrow> string" where
  "counter_digits s = (case s of c # cs \<Rightarrow> if c = CHR ''+'' then cs else s | [] \<Rightarrow> [])"

definition protocol_counter :: "string \<Rightarrow> string result" where
  "protocol_counter s =
     (let ds = counter_digits s in
      if ds = [] \<or> length ds > 64 \<or> \<not> list_all is_digit_char ds \<or> digits_value ds > 4294967295 then raise InvalidXml
      else Inr (decimal (nat (digits_value ds))))"

definition parse_sequence :: "xml_node \<Rightarrow> bool \<Rightarrow> app_sequence option result" where
  "parse_sequence hd_node allow_missing =
     bind_result (one hd_node discovery_ns ''AppSequence'' False) (\<lambda>found.
       case found of
         None \<Rightarrow> if allow_missing then Inr None else raise InvalidXml
       | Some n \<Rightarrow>
           (case (attribute n ''InstanceId'', attribute n ''MessageNumber'') of
              (Some inst, Some num) \<Rightarrow>
                if \<exists>s\<in>set_option (attribute n ''SequenceId''). \<not> uri_reference s then raise InvalidXml
                else
                  bind_result (protocol_counter inst) (\<lambda>i.
                  bind_result (protocol_counter num) (\<lambda>m.
                    Inr (Some \<lparr>instance_id = i, sequence_id = attribute n ''SequenceId'', message_number = m\<rparr>)))
            | _ \<Rightarrow> raise InvalidXml))"

definition elements_under :: "xml_node option \<Rightarrow> xml_node list" where
  "elements_under n = (case n of None \<Rightarrow> [] | Some x \<Rightarrow> child_elements x)"

definition parse_endpoint_reference :: "xml_node \<Rightarrow> endpoint_reference result" where
  "parse_endpoint_reference n =
     (if \<not> named addressing_ns ''EndpointReference'' n then raise InvalidXml
      else
        bind_result (bind_result (value_of n addressing_ns ''Address'') uri) (\<lambda>address.
        bind_result (one n addressing_ns ''ReferenceProperties'' False) (\<lambda>properties.
        bind_result (one n addressing_ns ''ReferenceParameters'' False) (\<lambda>parameters.
          Inr \<lparr>epr_address = address, reference_properties = elements_under properties,
               reference_parameters = elements_under parameters\<rparr>))))"

definition bindings_of :: "xml_node option \<Rightarrow> (string \<times> string) list" where
  "bindings_of n = (case n of None \<Rightarrow> [] | Some x \<Rightarrow> el_namespaces x)"

definition parse_version :: "xml_node option \<Rightarrow> string option result" where
  "parse_version n =
     (case n of
        None \<Rightarrow> Inr None
      | Some x \<Rightarrow> bind_result (text_content x) (\<lambda>s. bind_result (protocol_counter (trim s)) (\<lambda>v. Inr (Some v))))"

definition parse_match :: "announcement_kind \<Rightarrow> bounds \<Rightarrow> xml_node \<Rightarrow> discovery_match result" where
  "parse_match k b n =
     bind_result (bind_result (required n addressing_ns ''EndpointReference'') parse_endpoint_reference) (\<lambda>epr.
     bind_result (one n discovery_ns ''Types'' False) (\<lambda>type_node.
     bind_result (text_list type_node (max_types b)) (\<lambda>type_names.
     bind_result (map_result (\<lambda>t. resolve_qname t (bindings_of type_node)) type_names) (\<lambda>ts.
     bind_result (one n discovery_ns ''Scopes'' False) (\<lambda>scope_node.
     bind_result (text_list scope_node (max_scopes b)) (\<lambda>scope_texts.
     bind_result (map_result uri scope_texts) (\<lambda>ss.
     bind_result (one n discovery_ns ''MetadataVersion'' (k \<noteq> Bye)) (\<lambda>meta.
     bind_result (one n discovery_ns ''XAddrs'' False) (\<lambda>addr_node.
     bind_result (text_list addr_node (max_xaddrs b)) (\<lambda>addrs.
     bind_result (map_result uri addrs) (\<lambda>xs.
     bind_result (parse_version meta) (\<lambda>version.
       Inr \<lparr>match_epr = epr, match_types = ts, match_scopes = ss,
            scope_match_by = (case scope_node of None \<Rightarrow> None | Some x \<Rightarrow> attribute x ''MatchBy''),
            match_xaddrs = xs, match_metadata_version = version\<rparr>))))))))))))"

subsection \<open>Messages\<close>

definition action_kind :: "string \<Rightarrow> announcement_kind option" where
  "action_kind action = find (\<lambda>k. action = discovery_ns @ ''/'' @ kind_text k) [Hello, Bye, ProbeMatches, ResolveMatches]"

text \<open>Whether a response relation suppresses probes; without an attribute it is a plain reply.\<close>

definition suppresses :: "xml_node option \<Rightarrow> bool result" where
  "suppresses reply =
     (case reply of
        None \<Rightarrow> Inr False
      | Some r \<Rightarrow>
          let reply_name = \<lparr>namespace = addressing_ns, local_name = ''Reply''\<rparr> in
          bind_result (case attribute r ''RelationshipType'' of
              None \<Rightarrow> Inr reply_name | Some s \<Rightarrow> resolve_qname s (el_namespaces r)) (\<lambda>q.
            if equal_qname q \<lparr>namespace = discovery_ns, local_name = ''Suppression''\<rparr> then Inr True
            else if equal_qname q reply_name then Inr False
            else raise InvalidXml))"

definition match_entries :: "announcement_kind \<Rightarrow> xml_node \<Rightarrow> xml_node list result" where
  "match_entries k content =
     (case k of
        ProbeMatches \<Rightarrow>
          let entries = filter (named discovery_ns ''ProbeMatch'') (child_elements content) in
          if length entries \<noteq> length (child_elements content) then raise InvalidXml else Inr entries
      | ResolveMatches \<Rightarrow>
          bind_result (required content discovery_ns ''ResolveMatch'') (\<lambda>n.
            if length (child_elements content) \<noteq> 1 then raise InvalidXml else Inr [n])
      | _ \<Rightarrow> Inr [content])"

definition declares :: "string \<Rightarrow> discovery_match \<Rightarrow> bool" where
  "declares name m = list_ex (\<lambda>t. namespace t = discovery_ns \<and> local_name t = name) (match_types m)"

definition is_response :: "announcement_kind \<Rightarrow> bool" where
  "is_response k = (k = ProbeMatches \<or> k = ResolveMatches)"

text \<open>The addressing rule that ties relation, destination and kind together.\<close>

definition addressing_ok :: "announcement_kind \<Rightarrow> string option \<Rightarrow> string \<Rightarrow> bool \<Rightarrow> bool \<Rightarrow> bool" where
  "addressing_ok k relates_to dest suppression proxy =
     (\<not> ((is_response k \<and> (relates_to = None \<or> relates_to = Some [] \<or> suppression \<or> dest \<noteq> anonymous_role))
       \<or> (\<not> is_response k \<and> dest \<noteq> discovery_to)
       \<or> (\<not> is_response k \<and> relates_to \<noteq> None \<and> \<not> (k = Hello \<and> proxy \<and> suppression))
       \<or> (suppression \<and> \<not> (k = Hello \<and> proxy))))"

definition message_limits :: "bounds \<Rightarrow> json_limits" where
  "message_limits b = \<lparr>json_nodes = 20000, json_depth = 64, json_bytes = min (max_store_bytes b) (max_datagram_bytes b * 16)\<rparr>"

definition parse_content ::
    "discovery_host \<Rightarrow> bounds \<Rightarrow> bool \<Rightarrow> xml_node \<Rightarrow> announcement_kind \<Rightarrow> xml_node \<Rightarrow> discovery_message result" where
  "parse_content h b allow_missing head k content =
     bind_result (bind_result (value_of head addressing_ns ''MessageID'') uri) (\<lambda>mid.
     bind_result (bind_result (value_of head addressing_ns ''To'') uri) (\<lambda>dest.
     bind_result (one head addressing_ns ''RelatesTo'' False) (\<lambda>reply.
     bind_result (case reply of None \<Rightarrow> Inr None
       | Some r \<Rightarrow> bind_result (text_content r) (\<lambda>s. bind_result (uri (trim s)) (\<lambda>u. Inr (Some u)))) (\<lambda>relates_to.
     bind_result (suppresses reply) (\<lambda>suppression.
     bind_result (match_entries k content) (\<lambda>entries.
     if int (length entries) > max_matches b then raise XmlLimit
     else
       bind_result (map_result (parse_match k b) entries) (\<lambda>ms.
       let proxy = list_ex (declares ''DiscoveryProxy'') ms in
       if \<not> addressing_ok k relates_to dest suppression proxy then raise InvalidXml
       else if proxy \<and> list_ex (\<lambda>m. \<not> declares ''TargetService'' m) ms then raise InvalidXml
       else
         bind_result (parse_sequence head allow_missing) (\<lambda>seq.
         let message = \<lparr>msg_kind = k, msg_id = mid, msg_relates_to = relates_to, msg_to = dest,
               msg_sequence = seq, msg_matches = ms, msg_proxy = proxy\<rparr> in
         bind_result (assert_json h (js_of_message message) (message_limits b)) (\<lambda>_. Inr message)))))))))"

definition parse_discovery :: "discovery_host \<Rightarrow> bounds \<Rightarrow> bool \<Rightarrow> xml_node \<Rightarrow> discovery_message result" where
  "parse_discovery h b allow_missing doc =
     (if \<not> named soap_ns ''Envelope'' doc then raise InvalidXml
      else
        bind_result (required doc soap_ns ''Header'') (\<lambda>head.
        bind_result (required doc soap_ns ''Body'') (\<lambda>body.
        if length (child_elements doc) \<noteq> 2 \<or> length (child_elements body) \<noteq> 1 then raise InvalidXml
        else
          bind_result (value_of head addressing_ns ''Action'') (\<lambda>action.
            case action_kind action of
              None \<Rightarrow> raise InvalidXml
            | Some k \<Rightarrow> bind_result (required body discovery_ns (kind_text k)) (parse_content h b allow_missing head k)))))"

subsection \<open>Scopes\<close>

definition upper_hex :: "char \<Rightarrow> char" where
  "upper_hex c = (if is_lower_char c then char_of (byte_of c - 32) else c)"

fun normalized_escapes :: "string \<Rightarrow> string" where
  "normalized_escapes (a # b # c # s) =
     (if a = CHR ''%'' \<and> is_hex_char b \<and> is_hex_char c then
        let n = hex_value [b, c]; x = char_of n in
        (if n < 128 \<and> (is_alpha_char x \<or> is_digit_char x \<or> x \<in> set ''._~-'') then [x]
         else [CHR ''%'', upper_hex b, upper_hex c]) @ normalized_escapes s
      else a # normalized_escapes (b # c # s))"
| "normalized_escapes s = s"

record scope_parts =
  scope_scheme :: string
  scope_authority :: string
  scope_path :: "string list"
  valid_segments :: bool

text \<open>The authority after \<open>//\<close>, if there is one, and what follows it up to the query or the fragment.\<close>

definition split_authority :: "string \<Rightarrow> string \<times> string" where
  "split_authority s =
     (case s of
        a # b # rest \<Rightarrow>
          if a = CHR ''/'' \<and> b = CHR ''/'' then
            (takeWhile (\<lambda>c. c \<notin> set ''/?#'') rest, takeWhile (\<lambda>c. c \<notin> set ''?#'') (dropWhile (\<lambda>c. c \<notin> set ''/?#'') rest))
          else ([], takeWhile (\<lambda>c. c \<notin> set ''?#'') s)
      | _ \<Rightarrow> ([], takeWhile (\<lambda>c. c \<notin> set ''?#'') s))"

text \<open>\<open>.\<close> does not match a line terminator: a fragment with one has no parts.\<close>

definition fragment_ok :: "string \<Rightarrow> bool" where
  "fragment_ok s =
     list_all (\<lambda>p. point p \<notin> {10, 13, 0x2028, 0x2029}) (code_points (dropWhile (\<lambda>c. c \<noteq> CHR ''#'') s))"

definition scope_parts_of :: "discovery_host \<Rightarrow> string \<Rightarrow> scope_parts result" where
  "scope_parts_of h s =
     bind_result (uri s) (\<lambda>_.
       let rest = tl (dropWhile (\<lambda>c. c \<noteq> CHR '':'') s);
           (auth, path_text) = split_authority rest;
           normal = normalized_escapes path_text;
           stripped = (case normal of c # cs \<Rightarrow> if c = CHR ''/'' then cs else normal | [] \<Rightarrow> []);
           path = (if stripped = [] then [] else split_at (CHR ''/'') stripped)
       in if \<not> fragment_ok rest then raise InvalidXml
          else Inr \<lparr>scope_scheme = host_lower h (takeWhile (\<lambda>c. c \<noteq> CHR '':'') s),
                 scope_authority = host_lower h (normalized_escapes auth), scope_path = path,
                 valid_segments = (''.'' \<notin> set path \<and> ''..'' \<notin> set path)\<rparr>)"

definition scope_matches :: "discovery_host \<Rightarrow> string \<Rightarrow> string \<Rightarrow> bool result" where
  "scope_matches h requested advertised =
     bind_result (scope_parts_of h requested) (\<lambda>a.
     bind_result (scope_parts_of h advertised) (\<lambda>b.
       Inr (valid_segments a \<and> valid_segments b \<and> scope_scheme a = scope_scheme b
         \<and> scope_authority a = scope_authority b \<and> length (scope_path a) \<le> length (scope_path b)
         \<and> take (length (scope_path a)) (scope_path b) = scope_path a)))"

text \<open>\<open>some\<close> and \<open>every\<close> with a callback that may throw: they stop at the first answer.\<close>

fun some_result :: "('a \<Rightarrow> bool result) \<Rightarrow> 'a list \<Rightarrow> bool result" where
  "some_result f [] = Inr False"
| "some_result f (x # xs) = bind_result (f x) (\<lambda>b. if b then Inr True else some_result f xs)"

fun every_result :: "('a \<Rightarrow> bool result) \<Rightarrow> 'a list \<Rightarrow> bool result" where
  "every_result f [] = Inr True"
| "every_result f (x # xs) = bind_result (f x) (\<lambda>b. if b then every_result f xs else Inr False)"

definition matches_probe :: "discovery_host \<Rightarrow> discovery_match \<Rightarrow> qname list \<Rightarrow> string list \<Rightarrow> bool result" where
  "matches_probe h m ts ss =
     (if \<not> list_all (\<lambda>t. list_ex (equal_qname t) (match_types m)) ts then Inr False
      else every_result (\<lambda>s. some_result (scope_matches h s) (match_scopes m)) ss)"

subsection \<open>Identity\<close>

definition qname_text :: "qname \<Rightarrow> string" where
  "qname_text q = ''{'' @ quoted ''namespace'' @ '':'' @ quoted (namespace q) @ '','' @ quoted ''localName'' @ '':''
     @ quoted (local_name q) @ ''}''"

fun contains_text :: "string \<Rightarrow> string \<Rightarrow> bool" where
  "contains_text w [] = (w = [])"
| "contains_text w (c # cs) = (starts_with w (c # cs) \<or> contains_text w cs)"

fun joined :: "string \<Rightarrow> string list \<Rightarrow> string" where
  "joined x [] = []"
| "joined x [w] = w"
| "joined x (w # ws) = w @ x @ joined x ws"

definition direct_text :: "xml_node list \<Rightarrow> string" where
  "direct_text cs = concat (map node_text (filter is_text cs))"

definition canonical_attribute :: "xml_attribute \<Rightarrow> js" where
  "canonical_attribute a = JArr [JStr (namespace (attr_name a)), JStr (local_name (attr_name a)), JStr (attr_value a)]"

definition canonical_bindings :: "(string \<times> string) list \<Rightarrow> string \<Rightarrow> (string \<times> string) list" where
  "canonical_bindings ns values =
     sort_key (\<lambda>b. utf16_units (fst b @ '','' @ snd b)) (filter (\<lambda>b. fst b \<noteq> [] \<and> contains_text (fst b @ '':'') values) ns)"

fun canonical_property :: "xml_node \<Rightarrow> js list" where
  "canonical_property (Xml_Element n p ns as cs) =
     [JArr [JStr (namespace n), JStr (local_name n),
        JArr (map canonical_attribute (sort_key (\<lambda>a. utf16_units (qname_text (attr_name a))) as)),
        JArr (map (\<lambda>b. JArr [JStr (fst b), JStr (snd b)])
          (canonical_bindings ns (joined '' '' (direct_text cs # map attr_value as)))),
        JArr (concat (map canonical_property cs))]]"
| "canonical_property (Xml_Text s) = [JStr s]"
| "canonical_property _ = []"

definition identity_key :: "endpoint_reference \<Rightarrow> js" where
  "identity_key e = JArr [JStr (epr_address e), JArr (concat (map canonical_property (reference_properties e)))]"

definition endpoint_identity :: "discovery_host \<Rightarrow> endpoint_reference \<Rightarrow> string result" where
  "endpoint_identity h e =
     bind_result (uri (epr_address e)) (\<lambda>_. Inr (''urn:wot-av:onvif:epr:'' @ host_digest h (identity_key e)))"

subsection \<open>Requests\<close>

fun escaped :: "string \<Rightarrow> string" where
  "escaped [] = []"
| "escaped (c # cs) =
     (if c = CHR ''&'' then ''&amp;'' else if c = CHR ''<'' then ''&lt;'' else if c = CHR ''>'' then ''&gt;''
      else if c = CHR 0x22 then ''&quot;'' else if c = CHR 0x27 then ''&apos;'' else [c]) @ escaped cs"

definition quote :: "string \<Rightarrow> string" where
  "quote s = [CHR 0x22] @ s @ [CHR 0x22]"

definition envelope_text :: "string \<Rightarrow> string \<Rightarrow> string \<Rightarrow> string result" where
  "envelope_text k mid content =
     bind_result (uri mid) (\<lambda>u. Inr (''<s:Envelope xmlns:s='' @ quote soap_ns @ '' xmlns:a='' @ quote addressing_ns
       @ '' xmlns:d='' @ quote discovery_ns @ '' xmlns:tds='' @ quote device_ns @ '' xmlns:dn='' @ quote legacy_device_ns
       @ ''><s:Header><a:Action>'' @ discovery_ns @ ''/'' @ k @ ''</a:Action><a:MessageID>'' @ escaped u
       @ ''</a:MessageID><a:ReplyTo><a:Address>'' @ anonymous_role @ ''</a:Address></a:ReplyTo><a:To>'' @ discovery_to
       @ ''</a:To></s:Header><s:Body><d:'' @ k @ ''>'' @ content @ ''</d:'' @ k @ ''></s:Body></s:Envelope>''))"

datatype probe_type = Device_Probe | Legacy_Probe | Untyped_Probe

definition encode_probe :: "string \<Rightarrow> probe_type \<Rightarrow> string list \<Rightarrow> string result" where
  "encode_probe mid t ss =
     (let types_text = (case t of Untyped_Probe \<Rightarrow> []
            | Device_Probe \<Rightarrow> ''<d:Types>tds:Device</d:Types>''
            | Legacy_Probe \<Rightarrow> ''<d:Types>dn:NetworkVideoTransmitter</d:Types>'') in
      bind_result (map_result uri ss) (\<lambda>us.
        let scope_text = (if us = [] then []
          else ''<d:Scopes MatchBy='' @ quote (discovery_ns @ ''/rfc3986'') @ ''>'' @ joined '' '' (map escaped us) @ ''</d:Scopes>'')
        in envelope_text ''Probe'' mid (types_text @ scope_text)))"

text \<open>The reference properties are written by \<open>serializeXml\<close> of \<open>xml/parser.ts\<close>.\<close>

definition wrapped :: "(xml_node \<Rightarrow> string result) \<Rightarrow> string \<Rightarrow> xml_node list \<Rightarrow> string result" where
  "wrapped serialize name ns =
     (if ns = [] then Inr []
      else bind_result (map_result serialize ns) (\<lambda>ts. Inr (''<a:'' @ name @ ''>'' @ concat ts @ ''</a:'' @ name @ ''>'')))"

definition encode_resolve :: "(xml_node \<Rightarrow> string result) \<Rightarrow> string \<Rightarrow> endpoint_reference \<Rightarrow> string result" where
  "encode_resolve serialize mid e =
     bind_result (wrapped serialize ''ReferenceProperties'' (reference_properties e)) (\<lambda>properties.
     bind_result (wrapped serialize ''ReferenceParameters'' (reference_parameters e)) (\<lambda>parameters.
     bind_result (uri (epr_address e)) (\<lambda>address.
       envelope_text ''Resolve'' mid (''<a:EndpointReference><a:Address>'' @ escaped address @ ''</a:Address>'' @ properties
         @ parameters @ ''</a:EndpointReference>''))))"

end
