(* ===== verification/Discovery_Inventory.thy ===== *)
theory Discovery_Inventory
  imports Discovery_Protocol
begin

section \<open>The inventory\<close>

text \<open>
  The class \<open>Inventory\<close> of \<open>discovery/inventory.ts\<close> with all its operations. A \<open>Map\<close> is an association list
  in insertion order; a method that works on a device it holds a reference to works here on the device of
  that id, which stays in the map meanwhile, and \<open>structuredClone\<close> is the value itself. The operations are
  synchronous: \<open>clock_now\<close> is what the clock reads during one of them. \<open>fits\<close> answers from the bytes of the
  snapshot's canonical JSON; its values are canonical by their types, so that \<open>assertJson\<close> can only exceed
  a bound.
\<close>

record inventory =
  inv_bounds :: bounds
  inv_timers :: timers
  inv_allowed :: "string list"
  clock_now :: int
  inv_devices :: "(string \<times> device_snapshot) list"
  inv_seeds :: "(string \<times> seed_snapshot) list"
  inv_messages :: "(string \<times> (string \<times> string list)) list"
  inv_findings :: "finding list"
  revision :: nat
  inv_truncated :: bool

definition new_inventory :: "bounds \<Rightarrow> timers \<Rightarrow> string list \<Rightarrow> int \<Rightarrow> inventory" where
  "new_inventory b t allowed now = \<lparr>inv_bounds = b, inv_timers = t, inv_allowed = allowed, clock_now = now,
     inv_devices = [], inv_seeds = [], inv_messages = [], inv_findings = [], revision = 0, inv_truncated = False\<rparr>"

text \<open>A method that may throw, after it changed the state.\<close>

definition and_then :: "'a result \<times> 's \<Rightarrow> ('a \<Rightarrow> 's \<Rightarrow> 'b result \<times> 's) \<Rightarrow> 'b result \<times> 's" where
  "and_then p f = (case p of (Inl e, s) \<Rightarrow> (Inl e, s) | (Inr x, s) \<Rightarrow> f x s)"

lemma and_then_simps [simp]: "and_then (Inl e, s) f = (Inl e, s)" "and_then (Inr x, s) f = f x s"
  by (simp_all add: and_then_def)

fun fold_state :: "('a \<Rightarrow> 'b \<Rightarrow> 's \<Rightarrow> 'b result \<times> 's) \<Rightarrow> 'a list \<Rightarrow> 'b \<Rightarrow> 's \<Rightarrow> 'b result \<times> 's" where
  "fold_state f [] acc s = (Inr acc, s)"
| "fold_state f (x # xs) acc s = and_then (f x acc s) (fold_state f xs)"

subsection \<open>Observations\<close>

definition unknown_observation :: "int \<Rightarrow> 'a observation" where
  "unknown_observation t = \<lparr>observed = Missed Status_Unknown ''NotInspected'' ''No confirmed native observation'' None,
     observed_time = t, observed_source = None, last_known = None\<rparr>"

fun known_value :: "'a read_result \<Rightarrow> 'a option" where
  "known_value (Known v) = Some v"
| "known_value _ = None"

definition retained :: "'a observation \<Rightarrow> 'a observation \<Rightarrow> 'a observation" where
  "retained previous new =
     (if known_value (observed new) \<noteq> None then new
      else
        case (case known_value (observed previous) of
                Some v \<Rightarrow> Some \<lparr>last_value = v, last_observed_at = observed_time previous, last_source = observed_source previous\<rparr>
              | None \<Rightarrow> last_known previous) of
          None \<Rightarrow> new
        | Some k \<Rightarrow> new\<lparr>last_known := Some k\<rparr>)"

definition claim_label_of :: "string \<Rightarrow> string option" where
  "claim_label_of scope =
     (let upper = ''onvif://www.onvif.org/Profile/''; lower = ''onvif://www.onvif.org/profile/'';
          label = drop (length upper) scope in
      if (starts_with upper scope \<or> starts_with lower scope) \<and> label \<noteq> [] \<and> list_all (\<lambda>c. c \<notin> set ''/?#'') label
      then Some label else None)"

definition profile_claims :: "string list \<Rightarrow> claim_source \<Rightarrow> int \<Rightarrow> profile_claim list" where
  "profile_claims ss source t =
     concat (map (\<lambda>scope. case claim_label_of scope of
         None \<Rightarrow> []
       | Some label \<Rightarrow> [\<lparr>claim_scope = scope, claim_label = label, claim_source = source, claim_at = t\<rparr>]) ss)"

definition same_provenance :: "provenance \<Rightarrow> provenance \<Rightarrow> bool" where
  "same_provenance p q = (prov_interface p = prov_interface q \<and> prov_segment p = prov_segment q \<and> prov_family p = prov_family q
     \<and> prov_address p = prov_address q \<and> prov_port p = prov_port q)"

definition same_inventory :: "resource_inventory \<Rightarrow> resource_inventory \<Rightarrow> bool" where
  "same_inventory p q = (inventory_namespace p = inventory_namespace q \<and> inventory_xaddr p = inventory_xaddr q
     \<and> inventory_kind p = inventory_kind q)"

subsection \<open>The snapshot and its bound\<close>

definition device_of :: "string \<Rightarrow> inventory \<Rightarrow> device_snapshot option" where
  "device_of i s = map_of (inv_devices s) i"

definition the_device :: "string \<Rightarrow> inventory \<Rightarrow> device_snapshot" where
  "the_device i s = the (device_of i s)"

definition on_device :: "string \<Rightarrow> (device_snapshot \<Rightarrow> device_snapshot) \<Rightarrow> inventory \<Rightarrow> inventory" where
  "on_device i f s = s\<lparr>inv_devices := AList.map_entry i f (inv_devices s)\<rparr>"

definition view :: "inventory \<Rightarrow> inventory_snapshot" where
  "view s = \<lparr>snap_revision = revision s, captured_at = clock_now s,
     snap_devices = sort_key (\<lambda>d. utf16_units (device_id d)) (map snd (inv_devices s)),
     snap_seeds = sort_key (\<lambda>d. utf16_units (seed_id d)) (map snd (inv_seeds s)),
     snap_findings = inv_findings s, snap_truncated = inv_truncated s\<rparr>"

definition fits :: "discovery_host \<Rightarrow> int \<Rightarrow> inventory \<Rightarrow> bool" where
  "fits h reserved s =
     (let store = max_store_bytes (inv_bounds s) in
      assert_json h (js_of_snapshot (view s))
        \<lparr>json_nodes = max 20000 store, json_depth = 64, json_bytes = store - reserved\<rparr> = Inr ())"

definition fits_data :: "discovery_host \<Rightarrow> inventory \<Rightarrow> bool" where
  "fits_data h s = fits h (min 1024 (max_store_bytes (inv_bounds s) div 4)) s"

definition bump :: "inventory \<Rightarrow> inventory" where
  "bump s = s\<lparr>revision := Suc (revision s)\<rparr>"

subsection \<open>Diagnostics\<close>

definition push_bounded :: "int \<Rightarrow> 'a \<Rightarrow> 'a list \<Rightarrow> 'a list" where
  "push_bounded limit x xs = (if int (Suc (length xs)) > limit then tl (xs @ [x]) else xs @ [x])"

definition own_findings :: "string option \<Rightarrow> inventory \<Rightarrow> finding list" where
  "own_findings i s = (case Option.bind i (\<lambda>x. device_of x s) of None \<Rightarrow> [] | Some d \<Rightarrow> device_findings d)"

definition on_findings :: "string option \<Rightarrow> (finding list \<Rightarrow> finding list) \<Rightarrow> inventory \<Rightarrow> inventory" where
  "on_findings i f s =
     (case i of None \<Rightarrow> s | Some x \<Rightarrow> on_device x (\<lambda>d. d\<lparr>device_findings := f (device_findings d)\<rparr>) s)
       \<lparr>inv_findings := f (inv_findings s)\<rparr>"

definition findings_left :: "string option \<Rightarrow> inventory \<Rightarrow> nat" where
  "findings_left i s = length (inv_findings s) + length (own_findings i s)"

lemma own_findings_shifted: "own_findings i (on_findings i f s\<lparr>inv_truncated := b\<rparr>)
    = (if Option.bind i (\<lambda>x. device_of x s) = None then [] else f (own_findings i s))"
  by (auto simp: own_findings_def on_findings_def on_device_def device_of_def map_of_map_entry split: option.splits)

function shed_findings :: "discovery_host \<Rightarrow> string option \<Rightarrow> inventory \<Rightarrow> inventory" where
  "shed_findings h i s =
     (if \<not> fits h 0 s \<and> (inv_findings s \<noteq> [] \<or> own_findings i s \<noteq> [])
      then shed_findings h i (on_findings i tl s\<lparr>inv_truncated := True\<rparr>)
      else s)"
  by pat_completeness auto
termination
proof (relation "measure (\<lambda>(h, i, s). findings_left i s)", goal_cases)
  case 1
  show ?case by simp
next
  case (2 h i s)
  have "inv_findings (on_findings i tl s\<lparr>inv_truncated := True\<rparr>) = tl (inv_findings s)"
    by (simp add: on_findings_def split: option.split)
  moreover have "own_findings i (on_findings i tl s\<lparr>inv_truncated := True\<rparr>) = tl (own_findings i s)"
    by (auto simp: own_findings_shifted) (simp add: own_findings_def)
  ultimately show ?case using 2 by (cases "inv_findings s"; cases "own_findings i s") (auto simp: findings_left_def)
qed

declare shed_findings.simps [simp del]

definition inventory_diagnostic :: "discovery_host \<Rightarrow> string \<Rightarrow> string \<Rightarrow> string option \<Rightarrow> bool \<Rightarrow> inventory \<Rightarrow> inventory" where
  "inventory_diagnostic h code text device partial s =
     (let i = (if device = Some [] then None else device);
          noted = \<lparr>finding_code = code, finding_message = text, finding_at = clock_now s, finding_device = i\<rparr>;
          s1 = on_findings i (push_bounded (max_diagnostics (inv_bounds s)) noted) s
      in shed_findings h i (bump (s1\<lparr>inv_truncated := inv_truncated s1 \<or> partial\<rparr>)))"

subsection \<open>Restoring\<close>

definition restore_endpoint :: "discovery_host \<Rightarrow> string list \<Rightarrow> endpoint_observation \<Rightarrow> endpoint_observation result" where
  "restore_endpoint h allowed e = bind_result (approve_xaddr h allowed (ep_xaddr e)) (\<lambda>b. Inr (e\<lparr>ep_approved := b\<rparr>))"

definition restore_device :: "discovery_host \<Rightarrow> device_snapshot \<Rightarrow> unit \<Rightarrow> inventory \<Rightarrow> unit result \<times> inventory" where
  "restore_device h d u s =
     (case map_result (restore_endpoint h (inv_allowed s)) (endpoints d) of
        Inl e \<Rightarrow> (Inl e, s)
      | Inr es \<Rightarrow> (Inr (), s\<lparr>inv_devices := AList.update (device_id d)
          (d\<lparr>inspection_generation := Suc (inspection_generation d), endpoints := es\<rparr>) (inv_devices s)\<rparr>))"

definition restore :: "discovery_host \<Rightarrow> inventory_snapshot \<Rightarrow> inventory \<Rightarrow> unit result \<times> inventory" where
  "restore h snap s =
     (if inv_devices s \<noteq> [] \<or> inv_seeds s \<noteq> [] \<or> revision s \<noteq> 0 then (raise InvalidValue, s)
      else if int (length (snap_devices snap)) > max_devices (inv_bounds s)
        \<or> int (length (snap_seeds snap)) > max_devices (inv_bounds s) then (raise InvalidValue, s)
      else
        let keep = nat (max_diagnostics (inv_bounds s));
            s1 = s\<lparr>revision := snap_revision snap, inv_truncated := snap_truncated snap,
                   inv_findings := drop (length (snap_findings snap) - keep) (snap_findings snap)\<rparr>
        in and_then (fold_state (restore_device h) (snap_devices snap) () s1) (\<lambda>_ s2.
             (Inr (), bump (s2\<lparr>inv_seeds := fold (\<lambda>x. AList.update (seed_id x) x) (snap_seeds snap) (inv_seeds s2)\<rparr>))))"

subsection \<open>Admission\<close>

definition fresh_device :: "string \<Rightarrow> endpoint_reference \<Rightarrow> int \<Rightarrow> device_snapshot" where
  "fresh_device i e now =
     \<lparr>device_id = i, device_epr = e, device_state = Candidate, identity_conflict = False, epoch = 0,
      inspection_generation = 0, ordering_instance = None, ordering_sequences = [], metadata_version = None, types = [],
      scopes = [], claims = [], endpoints = [], device_provenance = [], seen_at = now, verified_at = None,
      updated_at = now, suspect_since = None, failed_liveness = 0, last_liveness = None,
      information = unknown_observation now, services = unknown_observation now, device_reads = [], device_resources = [],
      observed_features = [], identity_evidence = [], registry_evidence = [], device_findings = []\<rparr>"

definition create_device :: "discovery_host \<Rightarrow> endpoint_reference \<Rightarrow> inventory \<Rightarrow> string option result \<times> inventory" where
  "create_device h e s =
     (case endpoint_identity h e of
        Inl x \<Rightarrow> (Inl x, s)
      | Inr i \<Rightarrow>
          if device_of i s \<noteq> None then (Inr (Some i), s)
          else if int (length (inv_devices s)) \<ge> max_devices (inv_bounds s)
          then (Inr None, inventory_diagnostic h ''CandidateLimit''
            ''Additional identities were not admitted; inventory is incomplete'' None True s)
          else (Inr (Some i), bump (s\<lparr>inv_devices := inv_devices s @ [(i, fresh_device i e (clock_now s))]\<rparr>)))"

text \<open>A list of provenances inside the state: how to read it and how to write it back.\<close>

definition merge_provenance ::
    "discovery_host \<Rightarrow> (inventory \<Rightarrow> provenance list) \<Rightarrow> (provenance list \<Rightarrow> inventory \<Rightarrow> inventory) \<Rightarrow> provenance \<Rightarrow>
     inventory \<Rightarrow> bool \<times> inventory" where
  "merge_provenance h read_list write_list incoming s =
     (if list_ex (\<lambda>p. same_provenance p incoming) (read_list s) then (False, s)
      else if int (length (read_list s)) \<ge> max_provenance (inv_bounds s)
      then (False, inventory_diagnostic h ''ProvenanceLimit'' ''Additional interface provenance was not retained'' None True s)
      else (True, write_list (read_list s @ [incoming]) s))"

definition merge_device_provenance :: "discovery_host \<Rightarrow> string \<Rightarrow> provenance \<Rightarrow> inventory \<Rightarrow> bool \<times> inventory" where
  "merge_device_provenance h i =
     merge_provenance h (\<lambda>s. device_provenance (the_device i s)) (\<lambda>ps. on_device i (\<lambda>d. d\<lparr>device_provenance := ps\<rparr>))"

definition merge_endpoint_provenance :: "discovery_host \<Rightarrow> string \<Rightarrow> nat \<Rightarrow> provenance \<Rightarrow> inventory \<Rightarrow> bool \<times> inventory" where
  "merge_endpoint_provenance h i n =
     merge_provenance h (\<lambda>s. ep_provenance (endpoints (the_device i s) ! n))
       (\<lambda>ps. on_device i (\<lambda>d. d\<lparr>endpoints := (endpoints d)[n := (endpoints d ! n)\<lparr>ep_provenance := ps\<rparr>]\<rparr>))"

fun index_where :: "('a \<Rightarrow> bool) \<Rightarrow> 'a list \<Rightarrow> nat option" where
  "index_where f [] = None"
| "index_where f (x # xs) = (if f x then Some 0 else map_option Suc (index_where f xs))"

definition merge_xaddr :: "discovery_host \<Rightarrow> string \<Rightarrow> provenance \<Rightarrow> string \<Rightarrow> bool \<times> inventory \<Rightarrow> bool \<times> inventory" where
  "merge_xaddr h i incoming xaddr cs =
     (case cs of (changed, s) \<Rightarrow>
        case index_where (\<lambda>e. ep_xaddr e = xaddr) (endpoints (the_device i s)) of
          Some n \<Rightarrow> (changed, snd (merge_endpoint_provenance h i n incoming s))
        | None \<Rightarrow>
            let n = length (endpoints (the_device i s)) in
            if int n \<ge> max_xaddrs (inv_bounds s)
            then (changed, inventory_diagnostic h ''EndpointLimit'' ''Additional native endpoints were not admitted'' (Some i) True s)
            else case approve_xaddr h (inv_allowed s) xaddr of
                Inl e \<Rightarrow> (changed, inventory_diagnostic h ''RejectedXAddr''
                  ''A discovery XAddr failed the native target policy'' (Some i) False s)
              | Inr approved \<Rightarrow>
                  let new = \<lparr>ep_xaddr = xaddr, ep_approved = approved, ep_provenance = []\<rparr>;
                      s1 = on_device i (\<lambda>d. d\<lparr>endpoints := endpoints d @ [new]\<rparr>) s
                  in (True, snd (merge_endpoint_provenance h i n incoming s1)))"

definition merge_endpoints :: "discovery_host \<Rightarrow> string \<Rightarrow> string list \<Rightarrow> provenance \<Rightarrow> inventory \<Rightarrow> bool \<times> inventory" where
  "merge_endpoints h i xaddrs incoming s =
     (case fold (merge_xaddr h i incoming) xaddrs (False, s) of
        (changed, s1) \<Rightarrow> (changed, snd (merge_device_provenance h i incoming s1)))"

subsection \<open>Announcements\<close>

definition fingerprint :: "discovery_host \<Rightarrow> discovery_message \<Rightarrow> string" where
  "fingerprint h m = host_digest h (js_of_message m)"

fun find_match :: "discovery_host \<Rightarrow> string \<Rightarrow> discovery_match list \<Rightarrow> discovery_match option result" where
  "find_match h i [] = Inr None"
| "find_match h i (m # ms) =
     bind_result (endpoint_identity h (match_epr m)) (\<lambda>j. if j = i then Inr (Some m) else find_match h i ms)"

definition repeat_endpoint ::
    "discovery_host \<Rightarrow> string \<Rightarrow> discovery_match \<Rightarrow> provenance \<Rightarrow> nat \<Rightarrow> bool \<times> inventory \<Rightarrow> bool \<times> inventory" where
  "repeat_endpoint h i m incoming n cs =
     (case cs of (changed, s) \<Rightarrow>
        if ep_xaddr (endpoints (the_device i s) ! n) \<in> set (match_xaddrs m)
        then (case merge_endpoint_provenance h i n incoming s of (c, s1) \<Rightarrow> (c \<or> changed, s1))
        else (changed, s))"

definition repeat_device ::
    "discovery_host \<Rightarrow> discovery_message \<Rightarrow> provenance \<Rightarrow> string \<Rightarrow> unit \<Rightarrow> inventory \<Rightarrow> unit result \<times> inventory" where
  "repeat_device h message incoming i u s =
     (case find_match h i (msg_matches message) of
        Inl e \<Rightarrow> (Inl e, s)
      | Inr found \<Rightarrow>
          (case (device_of i s, found) of
             (Some d, Some m) \<Rightarrow>
               let (changed, s2) = fold (repeat_endpoint h i m incoming) [0..<length (endpoints d)]
                     (merge_device_provenance h i incoming s)
               in (Inr (), if changed then bump s2 else s2)
           | _ \<Rightarrow> (Inr (), s)))"

definition observe_duplicate :: "discovery_host \<Rightarrow> discovery_message \<Rightarrow> provenance \<Rightarrow> inventory \<Rightarrow> bool result \<times> inventory" where
  "observe_duplicate h message incoming s =
     (case map_of (inv_messages s) (msg_id message) of
        None \<Rightarrow> (Inr False, s)
      | Some (print, ids) \<Rightarrow>
          if print \<noteq> fingerprint h message
          then (Inr True, inventory_diagnostic h ''MessageIdCollision'' ''Repeated MessageID has contradictory content'' None False s)
          else and_then (fold_state (repeat_device h message incoming) ids () s) (\<lambda>_ s1. (Inr True, s1)))"

text \<open>
  \<open>order\<close>: the instance of the announcement against the device's, then its number against the watermark of
  its sequence.
\<close>

definition enter_epoch :: "string \<Rightarrow> app_sequence \<Rightarrow> inventory \<Rightarrow> inventory" where
  "enter_epoch i sq s = on_device i (\<lambda>d. d\<lparr>ordering_instance := Some (instance_id sq), ordering_sequences := [],
     epoch := Suc (epoch d), inspection_generation := Suc (inspection_generation d),
     device_state := (if device_state d = Conflict then Conflict else Candidate)\<rparr>) s"

definition set_watermark :: "app_sequence \<Rightarrow> announcement_kind \<Rightarrow> sequence_watermark list \<Rightarrow> sequence_watermark list" where
  "set_watermark sq k ws =
     (let new = \<lparr>mark_sequence = sequence_id sq, mark_number = message_number sq, mark_kind = k\<rparr> in
      case index_where (\<lambda>w. mark_sequence w = sequence_id sq) ws of
        Some n \<Rightarrow> ws[n := new]
      | None \<Rightarrow> ws @ [new])"

definition order_message :: "discovery_host \<Rightarrow> string \<Rightarrow> discovery_message \<Rightarrow> app_sequence \<Rightarrow> inventory \<Rightarrow> bool \<times> inventory" where
  "order_message h i message sq s =
     (let ws = ordering_sequences (the_device i s);
          watermark = find (\<lambda>w. mark_sequence w = sequence_id sq) ws in
      if (case watermark of Some w \<Rightarrow> digits_value (message_number sq) \<le> digits_value (mark_number w) | None \<Rightarrow> False)
      then (False, inventory_diagnostic h ''OldMessageNumber''
        ''Duplicate or older message in the same sequence was ignored'' (Some i) False s)
      else if watermark = None \<and> int (length ws) \<ge> max_sequence_ids (inv_bounds s)
      then (False, inventory_diagnostic h ''SequenceLimit''
        ''New incomparable sequence was not admitted; existing watermarks retained'' (Some i) True s)
      else
        let k = msg_kind message;
            s1 = (if list_ex (\<lambda>w. mark_sequence w \<noteq> sequence_id sq \<and> (mark_kind w = Bye) \<noteq> (k = Bye)) ws
              then inventory_diagnostic h ''IncomparablePresence''
                ''Different SequenceIds contradict presence; arrival time cannot resolve them'' (Some i) False
                (on_device i (\<lambda>d. d\<lparr>device_state := Conflict\<rparr>) s)
              else s)
        in (True, on_device i (\<lambda>d. d\<lparr>ordering_sequences := set_watermark sq k (ordering_sequences d)\<rparr>) s1))"

definition order :: "discovery_host \<Rightarrow> string \<Rightarrow> discovery_message \<Rightarrow> inventory \<Rightarrow> bool \<times> inventory" where
  "order h i message s =
     (case msg_sequence message of
        None \<Rightarrow>
          let s1 = inventory_diagnostic h ''UnsequencedCandidate''
                ''Unsequenced compatibility traffic cannot replace ordered state'' (Some i) False s;
              d = the_device i s1
          in (ordering_instance d = None \<and> verified_at d = None \<and> msg_kind message \<noteq> Bye, s1)
      | Some sq \<Rightarrow>
          let prior = map_option digits_value (ordering_instance (the_device i s));
              given = digits_value (instance_id sq) in
          if (case prior of Some p \<Rightarrow> given < p | None \<Rightarrow> False)
          then (False, inventory_diagnostic h ''OldInstance''
            ''Delayed message from an older device epoch was ignored'' (Some i) False s)
          else order_message h i message sq
            (if (case prior of Some p \<Rightarrow> p < given | None \<Rightarrow> True) then enter_epoch i sq s else s))"

subsection \<open>Metadata\<close>

definition merge_version :: "discovery_host \<Rightarrow> string \<Rightarrow> discovery_match \<Rightarrow> bool \<times> inventory \<Rightarrow> bool \<times> inventory" where
  "merge_version h i m cs =
     (case cs of (changed, s) \<Rightarrow>
        case match_metadata_version m of
          None \<Rightarrow> (changed, s)
        | Some v \<Rightarrow>
            let held = metadata_version (the_device i s) in
            if (case held of Some w \<Rightarrow> digits_value v < digits_value w | None \<Rightarrow> False)
            then (changed, inventory_diagnostic h ''MetadataRegression''
              ''MetadataVersion decreased, including across restart; prior watermark retained'' (Some i) False s)
            else if held \<noteq> Some v then (True, on_device i (\<lambda>d. d\<lparr>metadata_version := Some v\<rparr>) s)
            else (changed, s))"

text \<open>The loops over types and scopes: what is known is skipped, the first that finds no room ends the loop.\<close>

fun merge_types :: "discovery_host \<Rightarrow> string \<Rightarrow> qname list \<Rightarrow> inventory \<Rightarrow> inventory" where
  "merge_types h i [] s = s"
| "merge_types h i (t # ts) s =
     (if list_ex (equal_qname t) (types (the_device i s)) then merge_types h i ts s
      else if int (length (types (the_device i s))) \<ge> max_types (inv_bounds s)
      then inventory_diagnostic h ''TypeLimit'' ''Additional type claims were not retained'' (Some i) True s
      else merge_types h i ts (on_device i (\<lambda>d. d\<lparr>types := types d @ [t]\<rparr>) s))"

fun merge_scopes :: "discovery_host \<Rightarrow> string \<Rightarrow> string list \<Rightarrow> inventory \<Rightarrow> inventory" where
  "merge_scopes h i [] s = s"
| "merge_scopes h i (x # xs) s =
     (if x \<in> set (scopes (the_device i s)) then merge_scopes h i xs s
      else if int (length (scopes (the_device i s))) \<ge> max_scopes (inv_bounds s)
      then inventory_diagnostic h ''ScopeLimit'' ''Additional scope claims were not retained'' (Some i) True s
      else merge_scopes h i xs (on_device i (\<lambda>d. d\<lparr>scopes := scopes d @ [x]\<rparr>) s))"

definition merge_claim :: "int \<Rightarrow> profile_claim \<Rightarrow> profile_claim list \<Rightarrow> profile_claim list" where
  "merge_claim room c cs =
     (case index_where (\<lambda>x. claim_scope x = claim_scope c) cs of
        Some n \<Rightarrow> cs[n := c]
      | None \<Rightarrow> if int (length cs) < room then cs @ [c] else cs)"

definition merge_presence :: "string \<Rightarrow> discovery_message \<Rightarrow> bool \<times> inventory \<Rightarrow> bool \<times> inventory" where
  "merge_presence i message cs =
     (case cs of (changed, s) \<Rightarrow>
        if msg_kind message = Bye then
          (True, on_device i (\<lambda>d. d\<lparr>device_state := (if device_state d = Conflict then Conflict else Suspect),
             suspect_since := Some (case suspect_since d of Some t \<Rightarrow> t | None \<Rightarrow> clock_now s)\<rparr>) s)
        else
          (changed \<or> device_state (the_device i s) = Departed,
           on_device i (\<lambda>d. d\<lparr>seen_at := (if msg_sequence message \<noteq> None then clock_now s else seen_at d),
             device_state := (if device_state d = Departed then Candidate else device_state d)\<rparr>) s))"

definition merge_metadata ::
    "discovery_host \<Rightarrow> string \<Rightarrow> discovery_match \<Rightarrow> discovery_message \<Rightarrow> provenance \<Rightarrow> inventory \<Rightarrow> bool \<times> inventory" where
  "merge_metadata h i m message incoming s =
     (case merge_version h i m (merge_endpoints h i (match_xaddrs m) incoming s) of
        (changed, s1) \<Rightarrow>
          let s2 = merge_scopes h i (match_scopes m) (merge_types h i (match_types m) s1);
              s3 = on_device i (\<lambda>d. d\<lparr>claims := fold (merge_claim (max_scopes (inv_bounds s2)))
                     (profile_claims (match_scopes m) Discovery_Scope (clock_now s2)) (claims d)\<rparr>) s2
          in merge_presence i message (changed, s3))"

text \<open>
  \<open>observe\<close>: what a match does once its device is there, including the way back when the snapshot no
  longer fits.
\<close>

definition metadata_changed :: "string \<Rightarrow> inventory \<Rightarrow> inventory" where
  "metadata_changed i s = on_device i (\<lambda>d. d\<lparr>inspection_generation := Suc (inspection_generation d),
     device_state := (if device_state d = Verified then Candidate else device_state d)\<rparr>) s"

definition put_back :: "string \<Rightarrow> device_snapshot option \<Rightarrow> inventory \<Rightarrow> inventory" where
  "put_back i prior s = s\<lparr>inv_devices := (case prior of
     Some d \<Rightarrow> AList.update i d (inv_devices s) | None \<Rightarrow> AList.delete i (inv_devices s))\<rparr>"

definition absorb_match ::
    "discovery_host \<Rightarrow> discovery_message \<Rightarrow> provenance \<Rightarrow> string \<Rightarrow> device_snapshot option \<Rightarrow> discovery_match \<Rightarrow>
     string list \<Rightarrow> inventory \<Rightarrow> string list \<times> inventory" where
  "absorb_match h message incoming i prior m admitted s =
     (case order h i message s of
        (False, s1) \<Rightarrow> (admitted, s1)
      | (True, s1) \<Rightarrow>
          (case merge_metadata h i m message incoming s1 of
             (changed, s2) \<Rightarrow>
               let s3 = (if changed then metadata_changed i s2 else s2);
                   s4 = on_device i (\<lambda>d. d\<lparr>updated_at := clock_now s3\<rparr>) s3
               in if \<not> fits_data h s4
                  then (admitted, inventory_diagnostic h ''InventoryByteLimit''
                    ''Additional discovery metadata was not admitted to the bounded inventory'' None True (put_back i prior s4))
                  else (admitted @ [i], bump s4)))"

definition observe_match ::
    "discovery_host \<Rightarrow> discovery_message \<Rightarrow> provenance \<Rightarrow> discovery_match \<Rightarrow> string list \<Rightarrow> inventory \<Rightarrow>
     string list result \<times> inventory" where
  "observe_match h message incoming m admitted s =
     (case endpoint_identity h (match_epr m) of
        Inl e \<Rightarrow> (Inl e, s)
      | Inr i \<Rightarrow>
          let prior = device_of i s in
          if prior = None \<and> msg_kind message = Bye then (Inr admitted, s)
          else and_then (create_device h (match_epr m) s) (\<lambda>found s1.
            case found of
              None \<Rightarrow> (Inr admitted, s1)
            | Some _ \<Rightarrow> (case absorb_match h message incoming i prior m admitted s1 of (ids, s2) \<Rightarrow> (Inr ids, s2))))"

definition remember :: "discovery_host \<Rightarrow> discovery_message \<Rightarrow> discovery_message \<Rightarrow> string list \<Rightarrow> inventory \<Rightarrow> inventory" where
  "remember h message source ids s =
     (let ms = AList.update (msg_id message) (fingerprint h source, ids) (inv_messages s)
      in s\<lparr>inv_messages := (if int (length ms) > max_message_ids (inv_bounds s) then tl ms else ms)\<rparr>)"

definition observe ::
    "discovery_host \<Rightarrow> discovery_message \<Rightarrow> provenance \<Rightarrow> discovery_message \<Rightarrow> inventory \<Rightarrow> string list result \<times> inventory" where
  "observe h message incoming source s =
     (if msg_proxy message
      then (Inr [], inventory_diagnostic h ''DiscoveryProxyUnapproved''
        ''Proxy announcement is separate from device discovery and does not suppress probes'' None False s)
      else and_then (observe_duplicate h message incoming s) (\<lambda>repeated s1.
        if repeated then (Inr [], s1)
        else and_then (fold_state (observe_match h message incoming) (msg_matches message) [] s1) (\<lambda>ids s2.
          (Inr ids, remember h message source ids s2))))"

subsection \<open>Inspections\<close>

definition begin_inspection :: "string \<Rightarrow> inventory \<Rightarrow> inspection_token result \<times> inventory" where
  "begin_inspection i s =
     (case device_of i s of
        None \<Rightarrow> (raise InvalidValue, s)
      | Some d \<Rightarrow>
          (Inr \<lparr>token_device = i, token_epoch = epoch d, token_generation = Suc (inspection_generation d)\<rparr>,
           bump (on_device i (\<lambda>d. d\<lparr>inspection_generation := Suc (inspection_generation d)\<rparr>) s)))"

text \<open>\<open>addIdentityEvidence\<close>: one evidence, then the verdict over all of them.\<close>

definition contradicts :: "identity_evidence \<Rightarrow> identity_evidence \<Rightarrow> bool" where
  "contradicts p q = (authority p = authority q \<and> subject p \<noteq> subject q)"

definition same_evidence :: "identity_evidence \<Rightarrow> identity_evidence \<Rightarrow> bool" where
  "same_evidence p q = (authority p = authority q \<and> subject p = subject q \<and> evidence_xaddr p = evidence_xaddr q)"

definition add_evidence :: "discovery_host \<Rightarrow> string \<Rightarrow> identity_evidence \<Rightarrow> bool \<times> inventory \<Rightarrow> bool \<times> inventory" where
  "add_evidence h i e cs =
     (case cs of (conflict0, s) \<Rightarrow>
        let held = identity_evidence (the_device i s);
            conflict = (conflict0 \<or> list_ex (\<lambda>p. contradicts p e) held) in
        if list_ex (\<lambda>p. same_evidence p e) held then (conflict, s)
        else if int (length held) \<ge> max_provenance (inv_bounds s)
        then (True, inventory_diagnostic h ''IdentityEvidenceLimit''
          ''Additional identity evidence requires operator reconciliation'' (Some i) True s)
        else
          let s1 = on_device i (\<lambda>d. d\<lparr>identity_evidence := identity_evidence d @ [e]\<rparr>) s in
          if fits_data h s1 then (conflict, s1)
          else (True, inventory_diagnostic h ''IdentityEvidenceLimit''
            ''Identity evidence exceeded the total inventory byte bound'' (Some i) True
            (on_device i (\<lambda>d. d\<lparr>identity_evidence := butlast (identity_evidence d)\<rparr>) s1)))"

definition add_identity_evidence :: "discovery_host \<Rightarrow> string \<Rightarrow> identity_evidence list \<Rightarrow> inventory \<Rightarrow> bool \<times> inventory" where
  "add_identity_evidence h i es s =
     (case fold (add_evidence h i) es (False, s) of
        (conflict, s1) \<Rightarrow>
          let held = identity_evidence (the_device i s1) in
          if conflict \<or> list_ex (\<lambda>e. list_ex (\<lambda>p. contradicts p e) held) held
          then (False, inventory_diagnostic h ''CloneIdentityConflict''
            ''Contradictory authenticated or provisioned identities share this EPR'' (Some i) False
            (on_device i (\<lambda>d. d\<lparr>device_state := Conflict, identity_conflict := True\<rparr>) s1))
          else (True, s1))"

definition retain_capabilities :: "service_snapshot list option \<Rightarrow> service_snapshot \<Rightarrow> service_snapshot" where
  "retain_capabilities prior x =
     (case Option.bind prior (find (\<lambda>p. service_namespace p = service_namespace x \<and> service_xaddr p = service_xaddr x)) of
        None \<Rightarrow> x
      | Some p \<Rightarrow> x\<lparr>capabilities := retained (capabilities p) (capabilities x)\<rparr>)"

definition merge_services :: "service_snapshot list observation \<Rightarrow> service_snapshot list observation \<Rightarrow> service_snapshot list observation" where
  "merge_services held new =
     (let prior = (case known_value (observed held) of Some xs \<Rightarrow> Some xs | None \<Rightarrow> map_option last_value (last_known held));
          merged = retained held new
      in case observed merged of
           Known xs \<Rightarrow> merged\<lparr>observed := Known (map (retain_capabilities prior) xs)\<rparr>
         | _ \<Rightarrow> merged)"

definition merge_resource :: "discovery_host \<Rightarrow> string \<Rightarrow> resource_inventory \<Rightarrow> inventory \<Rightarrow> inventory" where
  "merge_resource h i r s =
     (let held = device_resources (the_device i s) in
      case index_where (\<lambda>x. same_inventory x r) held of
        Some n \<Rightarrow> on_device i (\<lambda>d. d\<lparr>device_resources := held[n := (held ! n)\<lparr>inventory_outcome :=
            retained (inventory_outcome (held ! n)) (inventory_outcome r)\<rparr>]\<rparr>) s
      | None \<Rightarrow>
          if int (length held) < max_services (inv_bounds s) * 16
          then on_device i (\<lambda>d. d\<lparr>device_resources := held @ [r]\<rparr>) s
          else inventory_diagnostic h ''ResourceInventoryLimit'' ''Additional resource inventories were not retained'' (Some i) True s)"

definition registry_verdict :: "device_information observation \<Rightarrow> registry_evidence \<Rightarrow> registry_evidence" where
  "registry_verdict info e = e\<lparr>registry_status := (case known_value (observed info) of
     None \<Rightarrow> Unverified
   | Some v \<Rightarrow> if firmware_version v = registry_firmware e then Matched else Firmware_Mismatch)\<rparr>"

definition update_registry_evidence :: "string \<Rightarrow> inventory \<Rightarrow> inventory" where
  "update_registry_evidence i s =
     on_device i (\<lambda>d. d\<lparr>registry_evidence := map (registry_verdict (information d)) (registry_evidence d)\<rparr>) s"

text \<open>What a report confirms of a device: its reads, features, scopes and claims, and its verification.\<close>

definition confirm_device :: "bounds \<Rightarrow> inspection_report \<Rightarrow> device_snapshot \<Rightarrow> device_snapshot" where
  "confirm_device b r d =
     (let d1 = d\<lparr>observed_features := report_features r\<rparr>;
          d2 = (case observed (report_scopes r) of
                  Known xs \<Rightarrow>
                    let kept = take (nat (max_scopes b)) xs
                    in d1\<lparr>scopes := kept, claims := profile_claims kept Get_Scopes (observed_time (report_scopes r))\<rparr>
                | _ \<Rightarrow> d1);
          d3 = (if known_value (observed (report_epr r)) \<noteq> None \<and> known_value (observed (report_information r)) \<noteq> None
                then d2\<lparr>verified_at := Some (completed_at r), device_state := Verified, suspect_since := None\<rparr> else d2)
      in d3\<lparr>failed_liveness := (if responsive r then 0 else failed_liveness d3), updated_at := completed_at r\<rparr>)"

definition take_report :: "discovery_host \<Rightarrow> string \<Rightarrow> inspection_report \<Rightarrow> inventory \<Rightarrow> inventory" where
  "take_report h i r s =
     (let b = inv_bounds s;
          s1 = on_device i (\<lambda>d. d\<lparr>information := retained (information d) (report_information r),
                 services := merge_services (services d) (report_services r),
                 device_reads := take (nat (max_requests_per_inspection b)) (report_reads r)\<rparr>) s;
          s2 = fold (merge_resource h i) (report_resources r) s1;
          s3 = on_device i (confirm_device b r) s2
      in update_registry_evidence i (s3\<lparr>inv_truncated := inv_truncated s3 \<or> report_truncated r\<rparr>))"

definition accept_report :: "discovery_host \<Rightarrow> string \<Rightarrow> inspection_report \<Rightarrow> inventory \<Rightarrow> bool \<times> inventory" where
  "accept_report h i r s =
     (let previous = the_device i s in
      case add_identity_evidence h i (report_evidence r) s of
        (False, s1) \<Rightarrow> (False, s1)
      | (True, s1) \<Rightarrow>
          let s2 = take_report h i r s1 in
          if \<not> fits_data h s2
          then (False, inventory_diagnostic h ''InventoryByteLimit''
            ''Inspection did not replace confirmed data because the total inventory byte bound was reached'' (Some i) True
            (s2\<lparr>inv_devices := AList.update i previous (inv_devices s2)\<rparr>))
          else (True, bump s2))"

definition commit_inspection ::
    "discovery_host \<Rightarrow> inspection_token \<Rightarrow> inspection_report \<Rightarrow> inventory \<Rightarrow> bool result \<times> inventory" where
  "commit_inspection h token r s =
     (let i = token_device token in
      case device_of i s of
        None \<Rightarrow> (Inr False, inventory_diagnostic h ''SupersededInspection''
          ''Inspection belongs to a superseded device epoch or generation'' (Some i) False s)
      | Some d \<Rightarrow>
          if token_epoch token \<noteq> epoch d \<or> token_generation token \<noteq> inspection_generation d
          then (Inr False, inventory_diagnostic h ''SupersededInspection''
            ''Inspection belongs to a superseded device epoch or generation'' (Some i) False s)
          else if identity_conflict d
          then (Inr False, inventory_diagnostic h ''IdentityQuarantined''
            ''Identity conflict requires out-of-band reconciliation; a new arrival cannot auto-approve it'' (Some i) False s)
          else
            case known_value (observed (report_epr r)) of
              None \<Rightarrow> (case accept_report h i r s of (b, s1) \<Rightarrow> (Inr b, s1))
            | Some e \<Rightarrow>
                case endpoint_identity h e of
                  Inl x \<Rightarrow> (Inl x, s)
                | Inr j \<Rightarrow>
                    if j \<noteq> i
                    then (Inr False, inventory_diagnostic h ''EndpointIdentityConflict''
                      ''Native inspection disagrees with the discovered endpoint identity'' (Some i) False
                      (on_device i (\<lambda>d. d\<lparr>device_state := Conflict, identity_conflict := True\<rparr>) s))
                    else (case accept_report h i r s of (b, s1) \<Rightarrow> (Inr b, s1)))"

definition add_registry_evidence :: "discovery_host \<Rightarrow> string \<Rightarrow> registry_evidence \<Rightarrow> inventory \<Rightarrow> unit result \<times> inventory" where
  "add_registry_evidence h i e s =
     (case device_of i s of
        None \<Rightarrow> (raise InvalidValue, s)
      | Some d \<Rightarrow>
          if registry_endpoint e \<noteq> epr_address (device_epr d) \<or> length (registry_evidence d) \<ge> 32 then (raise InvalidValue, s)
          else
            let s1 = update_registry_evidence i
                  (on_device i (\<lambda>d. d\<lparr>registry_evidence := registry_evidence d @ [e\<lparr>registry_status := Unverified\<rparr>]\<rparr>) s)
            in if \<not> fits_data h s1
               then (raise XmlLimit, on_device i (\<lambda>d. d\<lparr>registry_evidence := butlast (registry_evidence d)\<rparr>) s1)
               else (Inr (), bump s1))"

subsection \<open>Liveness and reconciliation\<close>

definition liveness :: "string \<Rightarrow> int \<Rightarrow> bool \<Rightarrow> bool \<Rightarrow> inventory \<Rightarrow> inventory" where
  "liveness i at_round answered timed_out s =
     (case device_of i s of
        None \<Rightarrow> s
      | Some d \<Rightarrow>
          if (case last_liveness d of Some n \<Rightarrow> at_round \<le> n | None \<Rightarrow> False) then s
          else bump (on_device i (\<lambda>d. d\<lparr>last_liveness := Some at_round, failed_liveness :=
            (if answered then 0 else if timed_out then Suc (failed_liveness d) else failed_liveness d)\<rparr>) s))"

text \<open>One device of \<open>reconcile\<close>, with the number of revisions it makes.\<close>

definition stale_time :: "timers \<Rightarrow> device_snapshot \<Rightarrow> int" where
  "stale_time t d = (case verified_at d of Some v \<Rightarrow> v | None \<Rightarrow> seen_at d) + stale_ms t"

definition turns_stale :: "timers \<Rightarrow> int \<Rightarrow> device_snapshot \<Rightarrow> bool" where
  "turns_stale t now d = (now \<ge> stale_time t d \<and> device_state d \<noteq> Suspect)"

definition mark_stale :: "timers \<Rightarrow> int \<Rightarrow> device_snapshot \<Rightarrow> device_snapshot" where
  "mark_stale t now d =
     (if turns_stale t now d
      then d\<lparr>device_state := Stale, suspect_since := Some (case suspect_since d of Some x \<Rightarrow> x | None \<Rightarrow> stale_time t d)\<rparr>
      else d)"

definition leaves :: "timers \<Rightarrow> int \<Rightarrow> device_snapshot \<Rightarrow> bool" where
  "leaves t now d =
     ((case suspect_since d of Some x \<Rightarrow> now - x \<ge> departure_grace_ms t | None \<Rightarrow> False) \<and> failed_liveness d \<ge> 2)"

definition reconcile_device :: "timers \<Rightarrow> int \<Rightarrow> device_snapshot \<Rightarrow> device_snapshot" where
  "reconcile_device t now d =
     (if device_state d = Conflict \<or> device_state d = Departed then d
      else
        let d1 = mark_stale t now d in
        if leaves t now d1
        then d1\<lparr>device_state := Departed, inspection_generation := Suc (inspection_generation d1), updated_at := now\<rparr>
        else d1)"

definition reconcile_steps :: "timers \<Rightarrow> int \<Rightarrow> device_snapshot \<Rightarrow> nat" where
  "reconcile_steps t now d =
     (if device_state d = Conflict \<or> device_state d = Departed then 0
      else (if turns_stale t now d then 1 else 0) + (if leaves t now (mark_stale t now d) then 1 else 0))"

definition reconcile :: "inventory \<Rightarrow> inventory" where
  "reconcile s =
     s\<lparr>inv_devices := map (\<lambda>kd. (fst kd, reconcile_device (inv_timers s) (clock_now s) (snd kd))) (inv_devices s),
       revision := revision s + sum_list (map (\<lambda>kd. reconcile_steps (inv_timers s) (clock_now s) (snd kd)) (inv_devices s))\<rparr>"

subsection \<open>Seeds\<close>

definition add_seed :: "discovery_host \<Rightarrow> seed_snapshot \<Rightarrow> inventory \<Rightarrow> unit result \<times> inventory" where
  "add_seed h x s =
     (if map_of (inv_seeds s) (seed_id x) \<noteq> None then (Inr (), s)
      else if int (length (inv_seeds s)) \<ge> max_devices (inv_bounds s) then (raise InvalidConfiguration, s)
      else
        let s1 = s\<lparr>inv_seeds := inv_seeds s @ [(seed_id x, x\<lparr>resolved_device := None,
              seed_outcome := unknown_observation (clock_now s)\<rparr>)]\<rparr>
        in if \<not> fits_data h s1 then (raise XmlLimit, s1\<lparr>inv_seeds := AList.delete (seed_id x) (inv_seeds s1)\<rparr>)
           else (Inr (), bump s1))"

definition on_seed :: "string \<Rightarrow> (seed_snapshot \<Rightarrow> seed_snapshot) \<Rightarrow> inventory \<Rightarrow> inventory" where
  "on_seed i f s = s\<lparr>inv_seeds := AList.map_entry i f (inv_seeds s)\<rparr>"

definition seed_missed :: "outcome_status \<Rightarrow> string \<Rightarrow> string \<Rightarrow> int \<Rightarrow> string observation" where
  "seed_missed st code text t = \<lparr>observed = Missed st code text None, observed_time = t, observed_source = None, last_known = None\<rparr>"

definition inspect_seed ::
    "discovery_host \<Rightarrow> string \<Rightarrow> inspection_report \<Rightarrow> provenance \<Rightarrow> inventory \<Rightarrow> string option result \<times> inventory" where
  "inspect_seed h i r incoming s =
     (case map_of (inv_seeds s) i of
        None \<Rightarrow> (raise InvalidValue, s)
      | Some seed \<Rightarrow>
          case observed (report_epr r) of
            Missed st code text part \<Rightarrow>
              (Inr None, bump (on_seed i (\<lambda>x. x\<lparr>seed_outcome := seed_missed st code text (observed_time (report_epr r))\<rparr>) s))
          | Known e \<Rightarrow>
              if (case expected_address seed of Some a \<Rightarrow> epr_address e \<noteq> a | None \<Rightarrow> False)
              then (Inr None, bump (on_seed i (\<lambda>x. x\<lparr>seed_outcome := seed_missed Status_Fault ''SeedIdentityMismatch''
                ''Seed identity disagrees with explicit provisioning'' (clock_now s)\<rparr>) s))
              else and_then (create_device h e s) (\<lambda>found s1.
                case found of
                  None \<Rightarrow> (Inr None, s1)
                | Some j \<Rightarrow>
                    and_then (begin_inspection j (snd (merge_endpoints h j [seed_xaddr seed] incoming s1))) (\<lambda>token s2.
                    and_then (commit_inspection h token r s2) (\<lambda>committed s3.
                      if \<not> committed then (Inr None, s3)
                      else (Inr (Some j), bump (on_seed i (\<lambda>x. x\<lparr>resolved_device := Some j,
                        seed_outcome := \<lparr>observed = Known j, observed_time = clock_now s3, observed_source = None, last_known = None\<rparr>\<rparr>) s3))))))"

end
