(* ===== verification/Discovery_Frame.thy ===== *)
theory Discovery_Frame
  imports Discovery_Inventory
begin

section \<open>What every operation of the inventory does to its devices\<close>

text \<open>
  The operations change a device only by a handful of updates. A law of devices is a predicate \<open>ok\<close> on one
  device and a preorder \<open>evolves\<close> between its states that these updates respect; the locales below carry
  such a law from the updates to the operations, through diagnostics that shed findings, loops that stop
  early, and the ways back to an earlier state of a device.
\<close>

definition inv_ok :: "(bounds \<Rightarrow> device_snapshot \<Rightarrow> bool) \<Rightarrow> inventory \<Rightarrow> bool" where
  "inv_ok ok s \<longleftrightarrow>
     distinct (map fst (inv_devices s)) \<and> int (length (inv_devices s)) \<le> max_devices (inv_bounds s)
     \<and> (\<forall>(i, d)\<in>set (inv_devices s). device_id d = i \<and> ok (inv_bounds s) d)
     \<and> int (length (inv_messages s)) \<le> max_message_ids (inv_bounds s)
     \<and> int (length (inv_findings s)) \<le> max_diagnostics (inv_bounds s)
     \<and> distinct (map fst (inv_seeds s)) \<and> int (length (inv_seeds s)) \<le> max_devices (inv_bounds s)
     \<and> 0 \<le> max_scopes (inv_bounds s) \<and> 0 \<le> max_requests_per_inspection (inv_bounds s)"

definition same_config :: "inventory \<Rightarrow> inventory \<Rightarrow> bool" where
  "same_config s t \<longleftrightarrow> inv_bounds t = inv_bounds s \<and> inv_timers t = inv_timers s \<and> inv_allowed t = inv_allowed s"

definition carries :: "(bounds \<Rightarrow> device_snapshot \<Rightarrow> bool) \<Rightarrow> (device_snapshot \<Rightarrow> device_snapshot \<Rightarrow> bool) \<Rightarrow>
    inventory \<Rightarrow> inventory \<Rightarrow> bool" where
  "carries ok evolves s t \<longleftrightarrow>
     (inv_ok ok s \<longrightarrow> inv_ok ok t \<and> same_config s t
        \<and> (\<forall>i d. device_of i s = Some d \<longrightarrow> (\<exists>e. device_of i t = Some e \<and> evolves d e)))"

text \<open>One update of a device under a law.\<close>

definition obeys :: "(bounds \<Rightarrow> device_snapshot \<Rightarrow> bool) \<Rightarrow> (device_snapshot \<Rightarrow> device_snapshot \<Rightarrow> bool) \<Rightarrow>
    bounds \<Rightarrow> device_snapshot \<Rightarrow> device_snapshot \<Rightarrow> bool" where
  "obeys ok evolves b d e \<longleftrightarrow> (ok b d \<longrightarrow> ok b e \<and> evolves d e)"

definition present :: "string \<Rightarrow> inventory \<Rightarrow> bool" where
  "present i s \<longleftrightarrow> device_of i s \<noteq> None"

lemma device_of_on_device: "device_of j (on_device i f s) = (if j = i then map_option f (device_of i s) else device_of j s)"
  by (simp add: device_of_def on_device_def map_of_map_entry split: option.split)

lemma present_on_device [simp]: "present j (on_device i f s) = present j s"
  by (simp add: present_def device_of_on_device)

lemma on_device_fields [simp]:
  "inv_bounds (on_device i f s) = inv_bounds s" "inv_timers (on_device i f s) = inv_timers s"
  "inv_allowed (on_device i f s) = inv_allowed s" "clock_now (on_device i f s) = clock_now s"
  "inv_messages (on_device i f s) = inv_messages s" "inv_findings (on_device i f s) = inv_findings s"
  "inv_seeds (on_device i f s) = inv_seeds s" "revision (on_device i f s) = revision s"
  by (simp_all add: on_device_def)

lemma the_device_eq: "device_of i s = Some d \<Longrightarrow> the_device i s = d"
  by (simp add: the_device_def)

lemma present_device: "present i s \<Longrightarrow> device_of i s = Some (the_device i s)"
  by (auto simp: present_def the_device_def)

lemma map_entry_keys: "map fst (AList.map_entry k f xs) = map fst xs"
  by (induction xs) auto

lemma map_entry_length: "length (AList.map_entry k f xs) = length xs"
  by (induction xs) auto

lemma set_map_entry: "p \<in> set (AList.map_entry k f xs) \<Longrightarrow> p \<in> set xs \<or> (\<exists>x. (k, x) \<in> set xs \<and> p = (k, f x))"
  by (induction xs) (auto split: if_splits)

lemma device_of_member: "device_of i s = Some d \<Longrightarrow> (i, d) \<in> set (inv_devices s)"
  by (simp add: device_of_def map_of_SomeD)

lemma member_device_of: "distinct (map fst (inv_devices s)) \<Longrightarrow> (i, d) \<in> set (inv_devices s) \<Longrightarrow> device_of i s = Some d"
  by (simp add: device_of_def)

lemma index_where_Some: "index_where f xs = Some n \<Longrightarrow> n < length xs \<and> f (xs ! n)"
  by (induction xs arbitrary: n) (auto split: if_splits)

lemma index_where_None: "index_where f xs = None \<longleftrightarrow> find f xs = None"
  by (induction xs) auto

subsection \<open>The updates a law must respect\<close>

locale findings_law =
  fixes ok :: "bounds \<Rightarrow> device_snapshot \<Rightarrow> bool" and evolves :: "device_snapshot \<Rightarrow> device_snapshot \<Rightarrow> bool"
  assumes refl: "evolves d d"
    and trans: "evolves c d \<Longrightarrow> evolves d d2 \<Longrightarrow> evolves c d2"
    and same_id: "evolves c d \<Longrightarrow> device_id d = device_id c"
    and noted: "int (length fs) \<le> max_diagnostics b \<or> length fs \<le> length (device_findings d) \<Longrightarrow>
      obeys ok evolves b d (d\<lparr>device_findings := fs\<rparr>)"
begin

abbreviation steps :: "inventory \<Rightarrow> inventory \<Rightarrow> bool" where
  "steps \<equiv> carries ok evolves"

lemma steps_refl [simp]: "steps s s"
  using refl by (auto simp: carries_def same_config_def)

lemma steps_trans: "steps s t \<Longrightarrow> steps t u \<Longrightarrow> steps s u"
  unfolding carries_def same_config_def by (metis trans)

lemma steps_present: "steps s t \<Longrightarrow> inv_ok ok s \<Longrightarrow> present i s \<Longrightarrow> present i t"
  unfolding carries_def present_def by fastforce

lemma snd_steps: "p = (a, t) \<Longrightarrow> steps s (snd p) \<Longrightarrow> steps s t"
  by simp

lemma stepsI: "(inv_ok ok s \<Longrightarrow> steps s t) \<Longrightarrow> steps s t"
  by (simp add: carries_def)

lemma steps_on_device:
  assumes "\<And>d. inv_ok ok s \<Longrightarrow> device_of i s = Some d \<Longrightarrow> obeys ok evolves (inv_bounds s) d (f d)"
  shows "steps s (on_device i f s)"
proof (rule stepsI)
  assume v: "inv_ok ok s"
  have d: "distinct (map fst (inv_devices s))" using v by (simp add: inv_ok_def)
  have f: "ok (inv_bounds s) (f x) \<and> evolves x (f x) \<and> device_id (f x) = device_id x" if "(i, x) \<in> set (inv_devices s)" for x
    using assms[OF v member_device_of[OF d that]] v that same_id by (fastforce simp: inv_ok_def obeys_def)
  have "inv_ok ok (on_device i f s)"
    using v f unfolding inv_ok_def
    by (auto simp: on_device_def map_entry_keys map_entry_length dest!: set_map_entry)
  moreover have "\<exists>e. device_of j (on_device i f s) = Some e \<and> evolves x e" if "device_of j s = Some x" for j x
    using that f device_of_member refl by (auto simp: device_of_on_device)
  ultimately show "steps s (on_device i f s)" by (auto simp: carries_def same_config_def)
qed

lemma steps_bump [simp]: "steps s (bump s)"
  using refl by (auto simp: carries_def same_config_def bump_def inv_ok_def device_of_def)

lemma steps_flags: "inv_devices t = inv_devices s \<Longrightarrow> inv_bounds t = inv_bounds s \<Longrightarrow> inv_timers t = inv_timers s \<Longrightarrow>
    inv_allowed t = inv_allowed s \<Longrightarrow>
    int (length (inv_messages t)) \<le> max_message_ids (inv_bounds s) \<or> length (inv_messages t) \<le> length (inv_messages s) \<Longrightarrow>
    int (length (inv_findings t)) \<le> max_diagnostics (inv_bounds s) \<or> length (inv_findings t) \<le> length (inv_findings s) \<Longrightarrow>
    distinct (map fst (inv_seeds s)) \<longrightarrow> distinct (map fst (inv_seeds t)) \<Longrightarrow>
    int (length (inv_seeds t)) \<le> max_devices (inv_bounds s) \<or> length (inv_seeds t) \<le> length (inv_seeds s) \<Longrightarrow> steps s t"
  using refl by (auto simp: carries_def same_config_def inv_ok_def device_of_def)

subsection \<open>Diagnostics\<close>

lemma steps_findings:
  assumes "\<And>fs. int (length (f fs)) \<le> max_diagnostics (inv_bounds s) \<or> length (f fs) \<le> length fs"
  shows "steps s (on_findings i f s)"
proof -
  define t where "t = (case i of None \<Rightarrow> s | Some x \<Rightarrow> on_device x (\<lambda>d. d\<lparr>device_findings := f (device_findings d)\<rparr>) s)"
  have "steps s t" unfolding t_def using assms by (auto intro!: steps_on_device noted split: option.split)
  moreover have "inv_bounds t = inv_bounds s" by (simp add: t_def split: option.split)
  then have "steps t (t\<lparr>inv_findings := f (inv_findings t)\<rparr>)" using assms by (intro steps_flags) simp_all
  moreover have "inv_findings t = inv_findings s" by (simp add: t_def split: option.split)
  ultimately show ?thesis unfolding on_findings_def t_def[symmetric] using steps_trans by simp
qed

lemma steps_truncated [simp]: "steps s (s\<lparr>inv_truncated := b\<rparr>)"
  by (rule steps_flags) simp_all

lemma steps_shed: "steps s (shed_findings h i s)"
proof (induction h i s rule: shed_findings.induct)
  case (1 h i s)
  have "steps s (on_findings i tl s)" by (rule steps_findings) simp
  then have "steps s (on_findings i tl s\<lparr>inv_truncated := True\<rparr>)" by (rule steps_trans) simp
  then show ?case using 1 steps_trans by (subst shed_findings.simps) auto
qed

lemma steps_diagnostic [simp]: "steps s (inventory_diagnostic h code text i b s)"
proof -
  define j where "j = (if i = Some [] then None else i)"
  define x where "x = \<lparr>finding_code = code, finding_message = text, finding_at = clock_now s, finding_device = j\<rparr>"
  have "steps s (on_findings j (push_bounded (max_diagnostics (inv_bounds s)) x) s)"
    by (rule steps_findings) (auto simp: push_bounded_def)
  then show ?thesis unfolding inventory_diagnostic_def Let_def j_def[symmetric] x_def[symmetric]
    by (intro steps_trans[OF _ steps_shed] steps_trans[OF _ steps_bump] steps_trans[OF _ steps_truncated])
qed

end

text \<open>A diagnostic changes nothing of a device but its findings.\<close>

definition only_noted :: "device_snapshot \<Rightarrow> device_snapshot \<Rightarrow> bool" where
  "only_noted d e \<longleftrightarrow> d\<lparr>device_findings := []\<rparr> = e\<lparr>device_findings := []\<rparr>"

lemma only_noted_fields:
  assumes "only_noted d e"
  shows "ordering_sequences e = ordering_sequences d" "device_id e = device_id d" "identity_conflict e = identity_conflict d"
    "device_state e = device_state d" "ordering_instance e = ordering_instance d" "device_resources e = device_resources d"
    "identity_evidence e = identity_evidence d" "epoch e = epoch d" "inspection_generation e = inspection_generation d"
    "verified_at e = verified_at d" "endpoints e = endpoints d" "metadata_version e = metadata_version d"
  using assms by (cases d; cases e; simp add: only_noted_def)+

interpretation noise: findings_law "\<lambda>_ _. True" only_noted
  by unfold_locales (auto simp: only_noted_def obeys_def intro: only_noted_fields)

lemma inv_ok_weaken: "inv_ok ok s \<Longrightarrow> (\<And>b d. ok b d \<Longrightarrow> ok2 b d) \<Longrightarrow> inv_ok ok2 s"
  unfolding inv_ok_def by auto

lemma diagnostic_only_notes:
  assumes "inv_ok ok s" "device_of i s = Some d"
  shows "\<exists>e. device_of i (inventory_diagnostic h code text j b s) = Some e \<and> only_noted d e"
  using noise.steps_diagnostic[of s h code "text" j b] inv_ok_weaken[OF assms(1), of "\<lambda>_ _. True"] assms(2)
  by (auto simp: carries_def)

subsection \<open>The updates of announcements\<close>

locale device_law = findings_law +
  assumes fresh: "ok b (fresh_device i r now)"
    and seen_from: "int (length ps) \<le> max_provenance b \<Longrightarrow> obeys ok evolves b d (d\<lparr>device_provenance := ps\<rparr>)"
    and endpoint_added: "int (length (endpoints d)) < max_xaddrs b \<Longrightarrow> obeys ok evolves b d
      (d\<lparr>endpoints := endpoints d @ [\<lparr>ep_xaddr = xa, ep_approved = a, ep_provenance = []\<rparr>]\<rparr>)"
    and endpoint_seen: "n < length (endpoints d) \<Longrightarrow> int (length ps) \<le> max_provenance b \<Longrightarrow> obeys ok evolves b d
      (d\<lparr>endpoints := (endpoints d)[n := (endpoints d ! n)\<lparr>ep_provenance := ps\<rparr>]\<rparr>)"
    and entered: "obeys ok evolves b d (d\<lparr>ordering_instance := Some xa, ordering_sequences := [], epoch := Suc (epoch d),
        inspection_generation := Suc (inspection_generation d),
        device_state := (if device_state d = Conflict then Conflict else Candidate)\<rparr>)"
    and torn: "obeys ok evolves b d (d\<lparr>device_state := Conflict\<rparr>)"
    and marked: "ws = set_watermark sq k (ordering_sequences d) \<Longrightarrow>
      length ws = length (ordering_sequences d) \<or> int (length ws) \<le> max_sequence_ids b \<Longrightarrow>
      obeys ok evolves b d (d\<lparr>ordering_sequences := ws\<rparr>)"
    and versioned: "obeys ok evolves b d (d\<lparr>metadata_version := mv\<rparr>)"
    and typed: "int (length (types d)) < max_types b \<Longrightarrow> obeys ok evolves b d (d\<lparr>types := types d @ [q]\<rparr>)"
    and scoped: "int (length (scopes d)) < max_scopes b \<Longrightarrow> obeys ok evolves b d (d\<lparr>scopes := scopes d @ [xa]\<rparr>)"
    and claimed: "obeys ok evolves b d (d\<lparr>claims := fold (merge_claim (max_scopes b)) new (claims d)\<rparr>)"
    and said_bye: "obeys ok evolves b d
      (d\<lparr>device_state := (if device_state d = Conflict then Conflict else Suspect), suspect_since := Some tm\<rparr>)"
    and seen: "obeys ok evolves b d
      (d\<lparr>seen_at := tm, device_state := (if device_state d = Departed then Candidate else device_state d)\<rparr>)"
    and changed: "obeys ok evolves b d (d\<lparr>inspection_generation := Suc (inspection_generation d),
        device_state := (if device_state d = Verified then Candidate else device_state d)\<rparr>)"
    and updated: "obeys ok evolves b d (d\<lparr>updated_at := tm\<rparr>)"
    and begun: "obeys ok evolves b d (d\<lparr>inspection_generation := Suc (inspection_generation d)\<rparr>)"
    and evidenced: "int (length es) \<le> max_provenance b \<or> length es \<le> length (identity_evidence d) \<Longrightarrow>
      obeys ok evolves b d (d\<lparr>identity_evidence := es\<rparr>)"
    and reported: "int (length rds) \<le> max_requests_per_inspection b \<Longrightarrow>
      obeys ok evolves b d (d\<lparr>information := info, services := srv, device_reads := rds\<rparr>)"
    and resourced: "length rs = length (device_resources d) \<or> int (length rs) \<le> max_services b * 16 \<Longrightarrow>
      obeys ok evolves b d (d\<lparr>device_resources := rs\<rparr>)"
    and lived: "obeys ok evolves b d (d\<lparr>last_liveness := lr, failed_liveness := n\<rparr>)"
    and registered: "length reg \<le> 32 \<or> length reg \<le> length (registry_evidence d) \<Longrightarrow>
      obeys ok evolves b d (d\<lparr>registry_evidence := reg\<rparr>)"
    and reconciled: "obeys ok evolves b d (reconcile_device tms now d)"
begin

subsection \<open>Provenance and endpoints\<close>

lemma steps_device_provenance [simp]: "steps s (snd (merge_device_provenance h i p s))"
  by (auto simp: merge_device_provenance_def merge_provenance_def the_device_def intro!: steps_on_device seen_from)

lemma steps_endpoint_provenance [simp]: "steps s (snd (merge_endpoint_provenance h i n p s))"
proof -
  have "obeys ok evolves b d (d\<lparr>endpoints := (endpoints d)[n := (endpoints d ! n)\<lparr>ep_provenance := ps\<rparr>]\<rparr>)"
    if "int (length ps) \<le> max_provenance b" for b d ps
  proof (cases "n < length (endpoints d)")
    case True
    then show ?thesis by (rule endpoint_seen) (rule that)
  next
    case False
    then have "d\<lparr>endpoints := (endpoints d)[n := (endpoints d ! n)\<lparr>ep_provenance := ps\<rparr>]\<rparr> = d"
      by (simp add: list_update_beyond)
    then show ?thesis by (simp only: obeys_def refl simp_thms)
  qed
  then show ?thesis
    by (auto simp: merge_endpoint_provenance_def merge_provenance_def the_device_def intro!: steps_on_device)
qed

lemma steps_fold: "(\<And>x c t. x \<in> set xs \<Longrightarrow> steps s t \<Longrightarrow> steps t (snd (f x (c, t)))) \<Longrightarrow> steps s (snd (fold f xs (c, s)))"
proof -
  have "(\<And>x c t. x \<in> set xs \<Longrightarrow> steps s t \<Longrightarrow> steps t (snd (f x (c, t)))) \<Longrightarrow> steps s t \<Longrightarrow> steps s (snd (fold f xs (c, t)))" for c t
  proof (induction xs arbitrary: c t)
    case (Cons x xs)
    show ?case using Cons.IH[of "snd (f x (c, t))" "fst (f x (c, t))"] Cons.prems steps_trans by simp
  qed simp
  then show "(\<And>x c t. x \<in> set xs \<Longrightarrow> steps s t \<Longrightarrow> steps t (snd (f x (c, t)))) \<Longrightarrow> steps s (snd (fold f xs (c, s)))" by simp
qed

lemma steps_xaddr: "steps s (snd (merge_xaddr h i p x (c, s)))"
proof -
  have new: "steps s (snd (merge_endpoint_provenance h i n p
      (on_device i (\<lambda>d. d\<lparr>endpoints := endpoints d @ [\<lparr>ep_xaddr = x, ep_approved = a, ep_provenance = []\<rparr>]\<rparr>) s)))"
    if "int (length (endpoints (the_device i s))) < max_xaddrs (inv_bounds s)" for a n
    by (rule steps_trans[OF steps_on_device steps_endpoint_provenance], rule endpoint_added)
      (use that in \<open>auto simp: the_device_def\<close>)
  show ?thesis using new by (auto simp: merge_xaddr_def Let_def split: option.split sum.split)
qed

lemma steps_endpoints [simp]: "steps s (snd (merge_endpoints h i xs p s))"
  using steps_fold[of xs s "merge_xaddr h i p" False, OF steps_xaddr] steps_trans
  by (auto simp: merge_endpoints_def split: prod.split)

subsection \<open>Ordering and metadata\<close>

lemma set_watermark_length:
  "length (set_watermark sq k ws) = (if find (\<lambda>w. mark_sequence w = sequence_id sq) ws = None then Suc (length ws) else length ws)"
  by (auto simp: set_watermark_def Let_def index_where_None[symmetric] split: option.split)

lemma own_device: "steps s t \<Longrightarrow> inv_ok ok s \<Longrightarrow> device_of i s = Some d \<Longrightarrow> \<exists>e. device_of i t = Some e \<and> evolves d e"
  by (auto simp: carries_def)

lemma steps_order_message:
  assumes "present i s"
  shows "steps s (snd (order_message h i m sq s))"
proof -
  let ?ws = "ordering_sequences (the_device i s)"
  let ?t = "on_device i (\<lambda>d. d\<lparr>device_state := Conflict\<rparr>) s"
  let ?mark = "\<lambda>d. d\<lparr>ordering_sequences := set_watermark sq (msg_kind m) (ordering_sequences d)\<rparr>"
  define s1 where "s1 = (if list_ex (\<lambda>w. mark_sequence w \<noteq> sequence_id sq \<and> (mark_kind w = Bye) \<noteq> (msg_kind m = Bye)) ?ws
      then inventory_diagnostic h ''IncomparablePresence'' ''Different SequenceIds contradict presence; arrival time cannot resolve them''
        (Some i) False ?t else s)"
  have u: "steps s ?t" by (rule steps_on_device) (rule torn)
  have a: "steps s s1" unfolding s1_def using steps_trans[OF u steps_diagnostic] by simp
  have b: "steps s1 (on_device i ?mark s1)"
    if v: "inv_ok ok s" and room: "find (\<lambda>w. mark_sequence w = sequence_id sq) ?ws = None \<longrightarrow> int (length ?ws) < max_sequence_ids (inv_bounds s)"
      and p: "device_of i s = Some x" for x
  proof (rule steps_on_device)
    fix d assume d: "device_of i s1 = Some d"
    have "inv_ok ok ?t" using u v by (simp add: carries_def)
    from diagnostic_only_notes[OF this, of i] obtain e where e: "device_of i s1 = Some e" "ordering_sequences e = ordering_sequences x"
      using p by (cases "s1 = s") (fastforce simp: s1_def device_of_on_device dest: only_noted_fields(1) split: if_splits)+
    then have q: "ordering_sequences d = ?ws" using d(1) p by (simp add: the_device_def)
    have c: "inv_bounds s1 = inv_bounds s" using a v by (auto simp: carries_def same_config_def)
    show "obeys ok evolves (inv_bounds s1) d (?mark d)"
      by (rule marked[OF HOL.refl]) (use room in \<open>auto simp: q c set_watermark_length\<close>)
  qed
  from assms obtain x where p: "device_of i s = Some x" by (auto simp: present_def)
  define w where "w = find (\<lambda>w. mark_sequence w = sequence_id sq) ?ws"
  have eq: "order_message h i m sq s =
      (if (case w of Some w \<Rightarrow> digits_value (message_number sq) \<le> digits_value (mark_number w) | None \<Rightarrow> False)
       then (False, inventory_diagnostic h ''OldMessageNumber''
        ''Duplicate or older message in the same sequence was ignored'' (Some i) False s)
       else if w = None \<and> int (length ?ws) \<ge> max_sequence_ids (inv_bounds s)
       then (False, inventory_diagnostic h ''SequenceLimit''
        ''New incomparable sequence was not admitted; existing watermarks retained'' (Some i) True s)
       else (True, on_device i ?mark s1))"
    by (simp add: order_message_def Let_def w_def s1_def)
  show ?thesis
    unfolding eq by (rule stepsI) (use a b[OF _ _ p, folded w_def] steps_trans in \<open>auto split: option.split\<close>)
qed

lemma steps_order:
  assumes "present i s"
  shows "steps s (snd (order h i m s))"
proof -
  have e: "steps s (enter_epoch i sq s)" "present i (enter_epoch i sq s)" for sq
    using assms unfolding enter_epoch_def by (auto intro!: steps_on_device entered)
  have "steps s (snd (order_message h i m sq (if b then enter_epoch i sq s else s)))" for sq b
    using steps_order_message[OF assms] steps_trans[OF e(1) steps_order_message[OF e(2)]] by simp
  then show ?thesis by (auto simp: order_def Let_def split: option.split)
qed

lemma steps_version: "steps s (snd (merge_version h i m (c, s)))"
  by (auto simp: merge_version_def Let_def intro!: steps_on_device versioned split: option.split)

lemma steps_types: "steps s (merge_types h i ts s)"
proof (induction ts arbitrary: s)
  case (Cons t ts)
  have "steps s (on_device i (\<lambda>d. d\<lparr>types := types d @ [t]\<rparr>) s)" if "int (length (types (the_device i s))) < max_types (inv_bounds s)"
    using that by (auto intro!: steps_on_device typed simp: the_device_def)
  then show ?case using Cons.IH steps_trans by (auto simp: not_le)
qed simp

lemma steps_scopes: "steps s (merge_scopes h i xs s)"
proof (induction xs arbitrary: s)
  case (Cons x xs)
  have "steps s (on_device i (\<lambda>d. d\<lparr>scopes := scopes d @ [x]\<rparr>) s)" if "int (length (scopes (the_device i s))) < max_scopes (inv_bounds s)"
    using that by (auto intro!: steps_on_device scoped simp: the_device_def)
  then show ?case using Cons.IH steps_trans by (auto simp: not_le)
qed simp

lemma steps_presence: "steps s (snd (merge_presence i m (c, s)))"
  by (auto simp: merge_presence_def intro!: steps_on_device said_bye seen)

lemma steps_metadata: "steps s (snd (merge_metadata h i m message p s))"
proof -
  obtain c s1 where v: "merge_version h i m (merge_endpoints h i (match_xaddrs m) p s) = (c, s1)" by fastforce
  define s2 where "s2 = merge_scopes h i (match_scopes m) (merge_types h i (match_types m) s1)"
  define s3 where "s3 = on_device i (\<lambda>d. d\<lparr>claims := fold (merge_claim (max_scopes (inv_bounds s2)))
      (profile_claims (match_scopes m) Discovery_Scope (clock_now s2)) (claims d)\<rparr>) s2"
  obtain c0 s0 where e: "merge_endpoints h i (match_xaddrs m) p s = (c0, s0)" by fastforce
  have "steps s s0" using steps_endpoints[of s h i "match_xaddrs m" p] by (simp only: e snd_conv)
  moreover have "steps s0 s1" using steps_version[of s0 h i m c0] v by (simp only: e snd_conv)
  ultimately have a: "steps s s1" by (rule steps_trans)
  have b: "steps s1 s2" unfolding s2_def by (rule steps_trans[OF steps_types steps_scopes])
  have c: "steps s2 s3" unfolding s3_def by (rule steps_on_device) (rule claimed)
  have d: "steps s3 (snd (merge_presence i message (c, s3)))" by (rule steps_presence)
  have "merge_metadata h i m message p s = merge_presence i message (c, s3)"
    by (simp add: merge_metadata_def v Let_def s3_def s2_def)
  then show ?thesis using steps_trans[OF steps_trans[OF steps_trans[OF a b] c] d] by simp
qed

subsection \<open>Admission of a match\<close>

lemma steps_put_back:
  assumes "steps s t"
  shows "steps s (put_back i (device_of i s) t)"
proof (rule stepsI)
  assume v: "inv_ok ok s"
  then have t: "inv_ok ok t" "same_config s t" using assms by (auto simp: carries_def)
  show "steps s (put_back i (device_of i s) t)"
  proof (cases "device_of i s")
    case None
    have "length (AList.delete i (inv_devices t)) \<le> length (inv_devices t)" by (simp add: AList.delete_eq)
    moreover have "set (AList.delete i (inv_devices t)) \<subseteq> set (inv_devices t)" by (auto simp: AList.delete_eq)
    ultimately have "inv_ok ok (put_back i None t)" using t(1) unfolding inv_ok_def put_back_def
      by (auto simp: AList.distinct_delete)
    moreover have "device_of j (put_back i None t) = device_of j t" if "j \<noteq> i" for j
      using that by (simp add: put_back_def device_of_def AList.delete_conv')
    moreover have "j \<noteq> i" if "device_of j s = Some d" for j d using that None by auto
    moreover have "same_config s (put_back i None t)" using t(2) by (simp add: same_config_def put_back_def)
    ultimately show ?thesis using assms v unfolding carries_def None by metis
  next
    case (Some d)
    then obtain e where e: "device_of i t = Some e" using assms v by (auto simp: carries_def)
    have k: "map fst (AList.update i d xs) = map fst xs" if "map_of xs i = Some e" for xs
      using that by (induction xs) (auto split: if_splits)
    have m: "p \<in> set (AList.update i d xs) \<Longrightarrow> p = (i, d) \<or> p \<in> set xs" for p xs by (induction xs) (auto split: if_splits)
    have d: "device_id d = i" "ok (inv_bounds t) d"
      using v device_of_member[OF Some] t(2) by (auto simp: inv_ok_def same_config_def)
    have keys: "map fst (AList.update i d (inv_devices t)) = map fst (inv_devices t)" using e k by (simp add: device_of_def)
    then have len: "length (AList.update i d (inv_devices t)) = length (inv_devices t)" by (metis length_map)
    have "device_id (snd p) = fst p \<and> ok (inv_bounds t) (snd p)" if "p \<in> set (AList.update i d (inv_devices t))" for p
      using m[OF that] t(1) d by (auto simp: inv_ok_def)
    then have "\<forall>(j, x)\<in>set (AList.update i d (inv_devices t)). device_id x = j \<and> ok (inv_bounds t) x" by fastforce
    then have "inv_ok ok (put_back i (Some d) t)"
      using t(1) unfolding inv_ok_def put_back_def by (simp add: keys len)
    moreover have "device_of j (put_back i (Some d) t) = (if j = i then Some d else device_of j t)" for j
      by (simp add: put_back_def device_of_def AList.update_conv')
    ultimately show ?thesis using assms v t Some refl by (auto simp: carries_def same_config_def put_back_def)
  qed
qed

lemma steps_create:
  "steps s (snd (create_device h e s))"
  "create_device h e s = (Inr (Some i), t) \<Longrightarrow> endpoint_identity h e = Inr i \<and> present i t"
proof -
  have "steps s (bump (s\<lparr>inv_devices := inv_devices s @ [(i, fresh_device i e (clock_now s))]\<rparr>))"
    if n: "device_of i s = None" "\<not> max_devices (inv_bounds s) \<le> int (length (inv_devices s))" for i
  proof -
    have k: "i \<notin> fst ` set (inv_devices s)" using n(1) by (simp add: device_of_def map_of_eq_None_iff)
    have "device_of j (s\<lparr>inv_devices := inv_devices s @ [(i, fresh_device i e (clock_now s))]\<rparr>) = Some d"
      if "device_of j s = Some d" for j d using that by (simp add: device_of_def map_add_def)
    then have "steps s (s\<lparr>inv_devices := inv_devices s @ [(i, fresh_device i e (clock_now s))]\<rparr>)"
      using n(2) k fresh refl by (auto simp: carries_def same_config_def inv_ok_def fresh_device_def)
    then show ?thesis by (rule steps_trans) simp
  qed
  then show "steps s (snd (create_device h e s))" by (auto simp: create_device_def split: sum.split)
  show "create_device h e s = (Inr (Some i), t) \<Longrightarrow> endpoint_identity h e = Inr i \<and> present i t"
    by (auto simp: create_device_def present_def device_of_def bump_def map_add_def split: sum.splits if_splits)
qed

lemma steps_absorb:
  assumes "steps s t" "present i t" "prior = device_of i s"
  shows "steps s (snd (absorb_match h message p i prior m admitted t))"
proof -
  obtain b s1 where o: "order h i message t = (b, s1)" by fastforce
  have s1: "steps s s1" using steps_order[OF assms(2), of h message] o assms(1) steps_trans by auto
  obtain c s2 where md: "merge_metadata h i m message p s1 = (c, s2)" by fastforce
  have s2: "steps s s2" using steps_metadata[of s1 h i m message p] md s1 steps_trans by auto
  define s3 where "s3 = (if c then metadata_changed i s2 else s2)"
  have s3: "steps s s3" unfolding s3_def metadata_changed_def
    using s2 steps_trans[OF s2 steps_on_device] changed by (auto simp: if_split)
  define s4 where "s4 = on_device i (\<lambda>d. d\<lparr>updated_at := clock_now s3\<rparr>) s3"
  have s4: "steps s s4" unfolding s4_def by (rule steps_trans[OF s3 steps_on_device]) (rule updated)
  have "steps s (inventory_diagnostic h code text' k x (put_back i prior s4))" for code text' k x
    unfolding assms(3) by (rule steps_trans[OF steps_put_back[OF s4] steps_diagnostic])
  moreover have "steps s (bump s4)" by (rule steps_trans[OF s4]) simp
  ultimately show ?thesis using s1
    by (auto simp: absorb_match_def o md Let_def s3_def[symmetric] s4_def[symmetric] split: bool.split)
qed

subsection \<open>Announcements\<close>

lemma steps_and_then:
  assumes "steps s (snd p)" "\<And>x t. p = (Inr x, t) \<Longrightarrow> steps s (snd (f x t))"
  shows "steps s (snd (and_then p f))"
  using assms by (cases p) (auto simp: and_then_def split: sum.split)

lemma steps_fold_state:
  assumes "\<And>x c t. steps t (snd (f x c t))"
  shows "steps s (snd (fold_state f xs c s))"
proof (induction xs arbitrary: c s)
  case (Cons x xs)
  have "steps s (snd (fold_state f xs c2 t))" if "f x c s = (Inr c2, t)" for c2 t
  proof -
    have "steps s t" using assms[of s x c] by (simp only: that snd_conv)
    then show ?thesis using Cons.IH by (rule steps_trans)
  qed
  then show ?case using assms by (auto intro!: steps_and_then)
qed simp

lemma steps_repeat_device: "steps s (snd (repeat_device h message p i u s))"
proof -
  have "steps t (snd (repeat_endpoint h i m p n (c, t)))" for m n c t
    by (auto simp: repeat_endpoint_def intro: snd_steps[OF _ steps_endpoint_provenance] split: prod.splits)
  then have "steps t (snd (fold (repeat_endpoint h i m p) ns (c, t)))" for m ns c t by (intro steps_fold)
  then have f: "steps s (snd (fold (repeat_endpoint h i m p) ns (merge_device_provenance h i p s)))" for m ns
    using steps_trans[OF steps_device_provenance] by (metis prod.collapse)
  have "steps s c2" if "fold (repeat_endpoint h i m p) ns (merge_device_provenance h i p s) = (c1, c2)" for m ns c1 c2
    using f[where ns = ns and m = m] by (simp only: that snd_conv)
  then have "steps s (if b then bump c2 else c2)"
    if "fold (repeat_endpoint h i m p) ns (merge_device_provenance h i p s) = (c1, c2)" for m ns c1 c2 b
    using that steps_trans[OF _ steps_bump] by (cases b) auto
  then show ?thesis by (auto simp: repeat_device_def Let_def split: sum.split option.split prod.split)
qed

lemma steps_duplicate: "steps s (snd (observe_duplicate h message p s))"
proof -
  have f: "steps s (snd (fold_state (repeat_device h message p) ids () s))" for ids
    by (rule steps_fold_state) (rule steps_repeat_device)
  have "steps s (snd (and_then (fold_state (repeat_device h message p) ids () s) (\<lambda>_ s1. (Inr True, s1))))" for ids
    using f[of ids] by (auto intro!: steps_and_then)
  then show ?thesis by (auto simp: observe_duplicate_def split: option.split)
qed

lemma steps_match: "steps s (snd (observe_match h message p m admitted s))"
proof -
  have c: "steps s (snd (case absorb_match h message p i (device_of i s) m admitted t of (ids, s2) \<Rightarrow> (Inr ids, s2)))"
    if "endpoint_identity h (match_epr m) = Inr i" "create_device h (match_epr m) s = (Inr (Some j), t)" for i j t
  proof -
    have "present i t" using steps_create(2)[OF that(2)] that(1) by auto
    moreover have "steps s t" by (rule snd_steps[OF that(2) steps_create(1)])
    ultimately show ?thesis using steps_absorb[of s t i] by (simp add: split_beta)
  qed
  have "steps s (snd (and_then (create_device h (match_epr m) s) (\<lambda>found s1. case found of None \<Rightarrow> (Inr admitted, s1)
      | Some _ \<Rightarrow> (case absorb_match h message p i (device_of i s) m admitted s1 of (ids, s2) \<Rightarrow> (Inr ids, s2)))))"
    if "endpoint_identity h (match_epr m) = Inr i" for i
  proof (rule steps_and_then[OF steps_create(1)])
    fix x t assume e: "create_device h (match_epr m) s = (Inr x, t)"
    then show "steps s (snd (case x of None \<Rightarrow> (Inr admitted, t)
      | Some _ \<Rightarrow> (case absorb_match h message p i (device_of i s) m admitted t of (ids, s2) \<Rightarrow> (Inr ids, s2))))"
      using c[OF that] snd_steps[OF e steps_create(1)] by (auto split: option.split)
  qed
  then show ?thesis by (auto simp: observe_match_def Let_def split: sum.split)
qed

lemma steps_remember: "steps s (remember h message source ids s)"
proof -
  have "length (AList.update k v xs) \<le> Suc (length xs)" for k v and xs :: "(string \<times> string \<times> string list) list"
    by (induction xs) auto
  from this[of "msg_id message" "(fingerprint h source, ids)" "inv_messages s"]
  show ?thesis by (intro steps_flags) (auto simp: remember_def Let_def)
qed

theorem steps_observe: "steps s (snd (observe h message p source s))"
proof -
  have b: "steps s (snd (and_then (fold_state (observe_match h message p) ms [] s) (\<lambda>ids s2. (Inr ids, remember h message source ids s2))))" for s ms
  proof (rule steps_and_then)
    show f: "steps s (snd (fold_state (observe_match h message p) ms [] s))" by (rule steps_fold_state) (rule steps_match)
    show "steps s (snd (Inr ids, remember h message source ids t))"
      if "fold_state (observe_match h message p) ms [] s = (Inr ids, t)" for ids t
      using f steps_trans[OF _ steps_remember] by (simp add: that)
  qed
  have "steps s (snd (and_then (observe_duplicate h message p s) (\<lambda>repeated s1.
        if repeated then (Inr [], s1)
        else and_then (fold_state (observe_match h message p) (msg_matches message) [] s1) (\<lambda>ids s2.
          (Inr ids, remember h message source ids s2)))))"
  proof (rule steps_and_then)
    show d: "steps s (snd (observe_duplicate h message p s))" by (rule steps_duplicate)
    show "steps s (snd (if r then (Inr [], t) else and_then (fold_state (observe_match h message p) (msg_matches message) [] t) (\<lambda>ids s2.
          (Inr ids, remember h message source ids s2))))" if "observe_duplicate h message p s = (Inr r, t)" for r t
      using d steps_trans[OF _ b] by (simp add: that)
  qed
  then show ?thesis by (simp add: observe_def)
qed

subsection \<open>The other operations\<close>

lemma steps_begin: "steps s (snd (begin_inspection i s))"
  by (auto simp: begin_inspection_def intro!: steps_trans[OF steps_on_device steps_bump] begun split: option.split)

lemma steps_evidence: "steps s (snd (add_evidence h i e (c, s)))"
proof -
  define s1 where "s1 = on_device i (\<lambda>d. d\<lparr>identity_evidence := identity_evidence d @ [e]\<rparr>) s"
  have "steps s s1" if "int (length (identity_evidence (the_device i s))) < max_provenance (inv_bounds s)"
    unfolding s1_def using that by (auto intro!: steps_on_device evidenced simp: the_device_def)
  moreover have "steps s1 (on_device i (\<lambda>d. d\<lparr>identity_evidence := butlast (identity_evidence d)\<rparr>) s1)"
    by (auto intro!: steps_on_device evidenced)
  ultimately show ?thesis using steps_trans steps_trans[OF _ steps_diagnostic]
    by (auto simp: add_evidence_def Let_def s1_def[symmetric] not_le)
qed

lemma steps_evidences: "steps s (snd (fold (add_evidence h i) es (c, s)))"
  by (rule steps_fold) (rule steps_evidence)

lemma steps_resource: "steps s (merge_resource h i r s)"
  by (auto simp: merge_resource_def Let_def the_device_def dest: index_where_Some split: option.split
      intro!: steps_on_device resourced)

lemma steps_resources: "steps s (fold (merge_resource h i) rs s)"
  by (induction rs arbitrary: s) (auto intro: steps_trans steps_resource)

lemma steps_registry: "steps s (update_registry_evidence i s)"
  by (auto simp: update_registry_evidence_def intro!: steps_on_device registered)

lemma steps_information:
  "steps s (on_device i (\<lambda>d. d\<lparr>information := f d, services := g d,
     device_reads := take (nat (max_requests_per_inspection (inv_bounds s))) rds\<rparr>) s)"
  by (rule steps_on_device, rule reported) (auto simp: inv_ok_def)

theorem steps_add_registry: "steps s (snd (add_registry_evidence h i e s))"
proof -
  define s1 where "s1 = update_registry_evidence i
    (on_device i (\<lambda>d. d\<lparr>registry_evidence := registry_evidence d @ [e\<lparr>registry_status := Unverified\<rparr>]\<rparr>) s)"
  have "steps s s1" if "device_of i s = Some d" "length (registry_evidence d) < 32" for d
    unfolding s1_def using that by (auto intro!: steps_trans[OF steps_on_device steps_registry] registered)
  moreover have "steps s1 (on_device i (\<lambda>d. d\<lparr>registry_evidence := butlast (registry_evidence d)\<rparr>) s1)"
    by (auto intro!: steps_on_device registered)
  ultimately show ?thesis using steps_trans steps_trans[OF _ steps_bump]
    by (auto simp: add_registry_evidence_def Let_def s1_def[symmetric] split: option.split)
qed

theorem steps_liveness: "steps s (liveness i n a b s)"
  by (auto simp: liveness_def intro!: steps_trans[OF steps_on_device steps_bump] lived split: option.split)

theorem steps_reconcile: "steps s (reconcile s)"
proof (rule stepsI)
  assume v: "inv_ok ok s"
  let ?r = "reconcile_device (inv_timers s) (clock_now s)"
  have k: "map fst (map (\<lambda>kd. (fst kd, ?r (snd kd))) xs) = map fst xs" for xs :: "(string \<times> device_snapshot) list"
    by (induction xs) auto
  have m: "map_of (map (\<lambda>kd. (fst kd, ?r (snd kd))) xs) i = map_option ?r (map_of xs i)" for xs i by (induction xs) auto
  have o: "device_id (?r d) = device_id d \<and> ok (inv_bounds s) (?r d) \<and> evolves d (?r d)" if "(i, d) \<in> set (inv_devices s)" for i d
    using reconciled[of "inv_bounds s" d "inv_timers s" "clock_now s"] that v same_id by (auto simp: obeys_def inv_ok_def)
  have "inv_ok ok (reconcile s)" using v o unfolding inv_ok_def reconcile_def by (auto simp: k simp del: map_map)
  moreover have "\<exists>e. device_of i (reconcile s) = Some e \<and> evolves d e" if "device_of i s = Some d" for i d
    using that o[OF device_of_member[OF that]] by (simp add: device_of_def reconcile_def m)
  ultimately show "steps s (reconcile s)" by (auto simp: carries_def same_config_def reconcile_def)
qed

theorem steps_add_seed: "steps s (snd (add_seed h x s))"
proof -
  have "steps s (s\<lparr>inv_seeds := AList.delete (seed_id x) (inv_seeds s @ [(seed_id x, y)])\<rparr>)" for y
  proof (intro steps_flags)
    have "AList.delete (seed_id x) (inv_seeds s @ [(seed_id x, y)]) = AList.delete (seed_id x) (inv_seeds s)"
      by (simp add: AList.delete_eq)
    then show "distinct (map fst (inv_seeds s)) \<longrightarrow>
        distinct (map fst (inv_seeds (s\<lparr>inv_seeds := AList.delete (seed_id x) (inv_seeds s @ [(seed_id x, y)])\<rparr>)))"
      by (simp add: AList.distinct_delete)
  qed (auto simp: AList.delete_eq)
  moreover have "steps s (s\<lparr>inv_seeds := inv_seeds s @ [(seed_id x, y)]\<rparr>)"
    if "map_of (inv_seeds s) (seed_id x) = None" "int (length (inv_seeds s)) < max_devices (inv_bounds s)" for y
    using that by (intro steps_flags) (auto simp: map_of_eq_None_iff)
  ultimately show ?thesis using steps_trans[OF _ steps_bump] by (auto simp: add_seed_def Let_def not_le)
qed

lemma steps_on_seed: "steps s (on_seed i f s)"
  by (intro steps_flags) (auto simp: on_seed_def map_entry_keys map_entry_length)

end

subsection \<open>Inspections\<close>

text \<open>Nothing but a contradiction changes whether the identity of a device is in conflict.\<close>

definition same_conflict :: "device_snapshot \<Rightarrow> device_snapshot \<Rightarrow> bool" where
  "same_conflict d e \<longleftrightarrow> device_id e = device_id d \<and> identity_conflict e = identity_conflict d"

interpretation calm: device_law "\<lambda>_ _. True" same_conflict
  by unfold_locales (auto simp: obeys_def same_conflict_def reconcile_device_def mark_stale_def Let_def)

definition calmly :: "(bounds \<Rightarrow> device_snapshot \<Rightarrow> bool) \<Rightarrow> (device_snapshot \<Rightarrow> device_snapshot \<Rightarrow> bool) \<Rightarrow>
    inventory \<Rightarrow> inventory \<Rightarrow> bool" where
  "calmly ok evolves s t \<longleftrightarrow> carries ok evolves s t \<and> carries (\<lambda>_ _. True) same_conflict s t"

locale inspection_law = device_law +
  assumes contradicted: "obeys ok evolves b d (d\<lparr>device_state := Conflict, identity_conflict := True\<rparr>)"
    and confirmed: "0 \<le> max_scopes b \<Longrightarrow> \<not> identity_conflict d \<Longrightarrow> obeys ok evolves b d (confirm_device b r d)"
begin

lemma steps_contradicted:
  "steps s (on_device i (\<lambda>d. d\<lparr>device_state := Conflict, identity_conflict := True\<rparr>) s)"
  by (rule steps_on_device) (rule contradicted)

abbreviation calm_steps :: "inventory \<Rightarrow> inventory \<Rightarrow> bool" where
  "calm_steps \<equiv> calmly ok evolves"

lemma calm_steps_trans: "calm_steps s t \<Longrightarrow> calm_steps t u \<Longrightarrow> calm_steps s u"
  unfolding calmly_def using steps_trans calm.steps_trans by blast

lemma calm_device:
  assumes "calm_steps s t" "inv_ok ok s" "device_of i s = Some d"
  shows "\<exists>e. device_of i t = Some e \<and> identity_conflict e = identity_conflict d"
  using assms inv_ok_weaken[OF assms(2), of "\<lambda>_ _. True"] unfolding calmly_def carries_def same_conflict_def by blast

lemma calm_evidences: "calm_steps s (snd (fold (add_evidence h i) es (c, s)))"
  by (simp only: calmly_def steps_evidences calm.steps_evidences simp_thms)

lemma calm_report: "calm_steps s (fold (merge_resource h i) rs (on_device i (\<lambda>d. d\<lparr>information := f d, services := g d,
    device_reads := take (nat (max_requests_per_inspection (inv_bounds s))) rds\<rparr>) s))"
  unfolding calmly_def by (intro conjI steps_trans[OF steps_information steps_resources]
    calm.steps_trans[OF calm.steps_information calm.steps_resources])

lemma steps_add_identity:
  assumes "add_identity_evidence h i es s = (b, t)"
  shows "steps s t" "b \<Longrightarrow> calm_steps s t"
proof -
  obtain c s1 where f: "fold (add_evidence h i) es (False, s) = (c, s1)" by fastforce
  have c: "calm_steps s s1" using calm_evidences[of s h i es False] by (simp add: f)
  have "steps s (inventory_diagnostic h code text' j x (on_device i (\<lambda>d. d\<lparr>device_state := Conflict, identity_conflict := True\<rparr>) s1))"
    for code text' j x
    using c steps_trans[OF steps_trans[OF _ steps_contradicted] steps_diagnostic] by (simp add: calmly_def)
  then show "steps s t" "b \<Longrightarrow> calm_steps s t"
    using assms c by (auto simp: add_identity_evidence_def f Let_def calmly_def split: if_splits)
qed

lemma steps_take_report:
  assumes "device_of i s = Some d" "\<not> identity_conflict d"
  shows "steps s (take_report h i r s)"
proof (rule stepsI)
  assume v: "inv_ok ok s"
  define s1 where "s1 = on_device i (\<lambda>d. d\<lparr>information := retained (information d) (report_information r),
     services := merge_services (services d) (report_services r),
     device_reads := take (nat (max_requests_per_inspection (inv_bounds s))) (report_reads r)\<rparr>) s"
  define s2 where "s2 = fold (merge_resource h i) (report_resources r) s1"
  have c: "calm_steps s s2" unfolding s2_def s1_def by (rule calm_report)
  then have b: "inv_bounds s2 = inv_bounds s" "inv_ok ok s2" using v by (auto simp: calmly_def carries_def same_config_def)
  have n: "\<not> identity_conflict e" if "device_of i s2 = Some e" for e
    using calm_device[OF c v assms(1)] assms(2) that by auto
  define s3 where "s3 = on_device i (confirm_device (inv_bounds s) r) s2"
  have "steps s2 s3" unfolding s3_def
    by (rule steps_on_device) (use n b in \<open>auto intro!: confirmed simp: inv_ok_def\<close>)
  moreover have "take_report h i r s = update_registry_evidence i (s3\<lparr>inv_truncated := inv_truncated s3 \<or> report_truncated r\<rparr>)"
    by (simp add: take_report_def Let_def s1_def s2_def s3_def)
  ultimately show "steps s (take_report h i r s)"
    using steps_trans[OF _ steps_trans[OF _ steps_trans[OF steps_truncated steps_registry]], of s s2 s3] c
    by (simp add: calmly_def)
qed

lemma steps_accept:
  assumes "device_of i s = Some d" "\<not> identity_conflict d"
  shows "steps s (snd (accept_report h i r s))"
proof (rule stepsI)
  assume v: "inv_ok ok s"
  obtain b s1 where a: "add_identity_evidence h i (report_evidence r) s = (b, s1)" by fastforce
  note A = steps_add_identity[OF a]
  have "steps s (take_report h i r s1)" if w: b
  proof -
    obtain e where "device_of i s1 = Some e" "\<not> identity_conflict e"
      using calm_device[OF A(2)[OF w] v assms(1)] assms(2) by auto
    then show ?thesis by (rule steps_trans[OF A(1) steps_take_report])
  qed
  note T = this
  have undo: "(take_report h i r s1)\<lparr>inv_devices := AList.update i (the_device i s) (inv_devices (take_report h i r s1))\<rparr>
      = put_back i (device_of i s) (take_report h i r s1)" by (simp add: put_back_def assms(1) the_device_def)
  show "steps s (snd (accept_report h i r s))"
    using A(1) T steps_trans[OF _ steps_bump] steps_trans[OF steps_put_back steps_diagnostic]
    by (auto simp: accept_report_def Let_def a undo split: bool.split)
qed

theorem steps_commit: "steps s (snd (commit_inspection h token r s))"
proof -
  have "steps s (inventory_diagnostic h code text' j x
      (on_device i (\<lambda>d. d\<lparr>device_state := Conflict, identity_conflict := True\<rparr>) s))" for code text' j x i
    by (rule steps_trans[OF steps_contradicted steps_diagnostic])
  then show ?thesis using steps_accept
    by (auto simp: commit_inspection_def Let_def split: option.split sum.split prod.split) (metis snd_conv)+
qed

theorem steps_inspect_seed: "steps s (snd (inspect_seed h i r p s))"
proof -
  have m: "steps s (bump (on_seed i f s))" for f s by (rule steps_trans[OF steps_on_seed steps_bump])
  have c: "steps s (snd (and_then (commit_inspection h token r s) (\<lambda>committed s3. if \<not> committed then (Inr None, s3)
      else (Inr (Some j), bump (on_seed i (f s3) s3)))))" for token s j f
  proof (rule steps_and_then[OF steps_commit])
    show "steps s (snd (if \<not> x then (Inr None, t) else (Inr (Some j), bump (on_seed i (f t) t))))"
      if "commit_inspection h token r s = (Inr x, t)" for x t
      using snd_steps[OF that steps_commit] steps_trans[OF _ m] by auto
  qed
  have b: "steps s (snd (and_then (begin_inspection j (snd (merge_endpoints h j xs p s))) (\<lambda>token s2.
      and_then (commit_inspection h token r s2) (\<lambda>committed s3. if \<not> committed then (Inr None, s3)
      else (Inr (Some j), bump (on_seed i (f s3) s3))))))" for s j xs f
  proof (rule steps_and_then)
    show a: "steps s (snd (begin_inspection j (snd (merge_endpoints h j xs p s))))"
      by (rule steps_trans[OF steps_endpoints steps_begin])
    show "steps s (snd (and_then (commit_inspection h x r t) (\<lambda>committed s3. if \<not> committed then (Inr None, s3)
      else (Inr (Some j), bump (on_seed i (f s3) s3)))))" if "begin_inspection j (snd (merge_endpoints h j xs p s)) = (Inr x, t)" for x t
      by (rule steps_trans[OF snd_steps[OF that a] c])
  qed
  have e: "steps s (snd (and_then (create_device h e s) (\<lambda>found s1. case found of None \<Rightarrow> (Inr None, s1) | Some j \<Rightarrow>
      and_then (begin_inspection j (snd (merge_endpoints h j xs p s1))) (\<lambda>token s2.
      and_then (commit_inspection h token r s2) (\<lambda>committed s3. if \<not> committed then (Inr None, s3)
      else (Inr (Some j), bump (on_seed i (f j s3) s3)))))))" for e xs f
  proof (rule steps_and_then[OF steps_create(1)])
    show "steps s (snd (case x of None \<Rightarrow> (Inr None, t) | Some j \<Rightarrow>
      and_then (begin_inspection j (snd (merge_endpoints h j xs p t))) (\<lambda>token s2.
      and_then (commit_inspection h token r s2) (\<lambda>committed s3. if \<not> committed then (Inr None, s3)
      else (Inr (Some j), bump (on_seed i (f j s3) s3))))))" if "create_device h e s = (Inr x, t)" for x t
      using steps_trans[OF snd_steps[OF that steps_create(1)] b] snd_steps[OF that steps_create(1)] by (auto split: option.split)
  qed
  show ?thesis using m e by (auto simp: inspect_seed_def split: option.split read_result.split)
qed

end

end
