(* ===== verification/Discovery_Inventory_Laws.thy ===== *)
theory Discovery_Inventory_Laws
  imports Discovery_Frame
begin

section \<open>What the inventory guarantees\<close>

text \<open>
  The laws of devices on the model's own operations: every list of a device keeps to its bound and its
  epochs only grow; a device whose identity is in conflict stays quarantined; nothing but an inspection
  verifies a device. The properties below hold in every state the operations can reach.
\<close>

subsection \<open>Events and reachable states\<close>

datatype inventory_event =
    Observed discovery_message provenance discovery_message | Began string | Committed inspection_token inspection_report
  | Registered string registry_evidence | Alive string int bool bool | Reconciled | Seeded seed_snapshot
  | Seed_Inspected string inspection_report provenance | Noted string string "string option" bool | Ticked int

fun inventory_step :: "discovery_host \<Rightarrow> inventory_event \<Rightarrow> inventory \<Rightarrow> inventory" where
  "inventory_step h (Observed m p source) s = snd (observe h m p source s)"
| "inventory_step h (Began i) s = snd (begin_inspection i s)"
| "inventory_step h (Committed token r) s = snd (commit_inspection h token r s)"
| "inventory_step h (Registered i e) s = snd (add_registry_evidence h i e s)"
| "inventory_step h (Alive i n a b) s = liveness i n a b s"
| "inventory_step h Reconciled s = reconcile s"
| "inventory_step h (Seeded x) s = snd (add_seed h x s)"
| "inventory_step h (Seed_Inspected i r p) s = snd (inspect_seed h i r p s)"
| "inventory_step h (Noted code msg i b) s = inventory_diagnostic h code msg i b s"
| "inventory_step h (Ticked now) s = s\<lparr>clock_now := now\<rparr>"

fun inspects :: "inventory_event \<Rightarrow> bool" where
  "inspects (Committed _ _) = True"
| "inspects (Seed_Inspected _ _ _) = True"
| "inspects _ = False"

context device_law
begin

lemma steps_tick: "steps s (s\<lparr>clock_now := now\<rparr>)"
  by (intro steps_flags) simp_all

theorem steps_announced: "\<not> inspects ev \<Longrightarrow> steps s (inventory_step h ev s)"
  by (cases ev) (auto intro: steps_observe steps_begin steps_add_registry steps_liveness steps_reconcile steps_add_seed steps_tick)

end

context inspection_law
begin

theorem steps_event: "steps s (inventory_step h ev s)"
  by (cases ev) (auto intro: steps_announced steps_commit steps_inspect_seed simp del: inventory_step.simps
    simp: inventory_step.simps(3,8) steps_announced)

theorem steps_events: "steps s (fold (inventory_step h) evs s)"
  by (induction evs arbitrary: s) (auto intro: steps_trans steps_event)

end

subsection \<open>Bounds and epochs\<close>

definition room :: "'a list \<Rightarrow> int \<Rightarrow> bool" where
  "room xs n \<longleftrightarrow> int (length xs) \<le> max 0 n"

definition device_bounded :: "bounds \<Rightarrow> device_snapshot \<Rightarrow> bool" where
  "device_bounded b d \<longleftrightarrow>
     room (endpoints d) (max_xaddrs b) \<and> (\<forall>e\<in>set (endpoints d). room (ep_provenance e) (max_provenance b))
     \<and> room (device_provenance d) (max_provenance b) \<and> room (types d) (max_types b) \<and> room (scopes d) (max_scopes b)
     \<and> room (claims d) (max_scopes b) \<and> room (ordering_sequences d) (max_sequence_ids b)
     \<and> distinct (map mark_sequence (ordering_sequences d)) \<and> room (device_findings d) (max_diagnostics b)
     \<and> room (identity_evidence d) (max_provenance b) \<and> room (device_reads d) (max_requests_per_inspection b)
     \<and> room (device_resources d) (max_services b * 16) \<and> length (registry_evidence d) \<le> 32"

definition advances :: "device_snapshot \<Rightarrow> device_snapshot \<Rightarrow> bool" where
  "advances d e \<longleftrightarrow> device_id e = device_id d \<and> epoch d \<le> epoch e \<and> inspection_generation d \<le> inspection_generation e"

lemma room_Nil [simp]: "room [] n" by (simp add: room_def)

lemma room_le: "room xs n \<Longrightarrow> length ys \<le> length xs \<Longrightarrow> room ys n" by (simp add: room_def)

lemma room_snoc: "int (length xs) < n \<Longrightarrow> room (xs @ [x]) n" by (simp add: room_def)

lemma room_int: "int (length xs) \<le> n \<Longrightarrow> room xs n" by (simp add: room_def)

lemma merge_claims_room: "room cs n \<Longrightarrow> room (fold (merge_claim n) new cs) n"
proof (induction new arbitrary: cs)
  case (Cons c new)
  have "room (merge_claim n c cs) n" using Cons.prems by (auto simp: merge_claim_def room_def split: option.split)
  then show ?case using Cons.IH by simp
qed simp

lemma profile_claims_length: "length (profile_claims ss src t) \<le> length ss"
  by (induction ss) (auto simp: profile_claims_def split: option.split)

lemma set_watermark_distinct:
  "distinct (map mark_sequence ws) \<Longrightarrow> distinct (map mark_sequence (set_watermark sq k ws))"
proof -
  assume d: "distinct (map mark_sequence ws)"
  show ?thesis
  proof (cases "index_where (\<lambda>w. mark_sequence w = sequence_id sq) ws")
    case None
    then have "sequence_id sq \<notin> mark_sequence ` set ws" by (auto simp: index_where_None find_None_iff)
    then show ?thesis using d None by (simp add: set_watermark_def Let_def)
  next
    case (Some n)
    have "map mark_sequence (ws[n := \<lparr>mark_sequence = sequence_id sq, mark_number = message_number sq, mark_kind = k\<rparr>]) = map mark_sequence ws"
      using index_where_Some[OF Some] by (simp add: map_update) (metis list_update_id map_update nth_map)
    then show ?thesis using d Some by (simp add: set_watermark_def Let_def)
  qed
qed

interpretation bounded: inspection_law device_bounded advances
proof unfold_locales
  show "obeys device_bounded advances b d (d\<lparr>claims := fold (merge_claim (max_scopes b)) new (claims d)\<rparr>)" for b d new
    by (simp add: obeys_def device_bounded_def advances_def merge_claims_room)
  show "obeys device_bounded advances b d (confirm_device b r d)" if "0 \<le> max_scopes b" for b d r
  proof -
    have "room (take (nat (max_scopes b)) xs) (max_scopes b)" "room (profile_claims (take (nat (max_scopes b)) xs) src t) (max_scopes b)"
      for xs src t using that profile_claims_length[of "take (nat (max_scopes b)) xs" src t] by (auto simp: room_def)
    then show ?thesis
      by (auto simp: obeys_def device_bounded_def advances_def confirm_device_def Let_def split: read_result.split)
  qed
qed (auto simp: obeys_def advances_def device_bounded_def fresh_device_def reconcile_device_def mark_stale_def Let_def
    set_watermark_distinct intro: room_le room_snoc room_int room_le[where xs = "ordering_sequences _"]
    dest!: set_update_subset_insert[THEN subsetD] set_mp[OF set_update_subset_insert])

subsection \<open>Quarantine and verification\<close>

definition quarantined :: "bounds \<Rightarrow> device_snapshot \<Rightarrow> bool" where
  "quarantined b d \<longleftrightarrow> (identity_conflict d \<longrightarrow> device_state d = Conflict)"

definition stays_quarantined :: "device_snapshot \<Rightarrow> device_snapshot \<Rightarrow> bool" where
  "stays_quarantined d e \<longleftrightarrow> device_id e = device_id d
     \<and> (identity_conflict d \<and> device_state d = Conflict \<longrightarrow>
          identity_conflict e \<and> device_state e = Conflict \<and> verified_at e = verified_at d)"

lemma confirm_device_fields:
  "device_id (confirm_device b r d) = device_id d" "identity_conflict (confirm_device b r d) = identity_conflict d"
  by (auto simp: confirm_device_def Let_def split: read_result.split)

lemma reconcile_device_fields:
  "device_id (reconcile_device t now d) = device_id d" "identity_conflict (reconcile_device t now d) = identity_conflict d"
  "verified_at (reconcile_device t now d) = verified_at d"
  "device_state d = Conflict \<Longrightarrow> reconcile_device t now d = d"
  by (auto simp: reconcile_device_def mark_stale_def Let_def split: if_splits)

lemma reconcile_device_verified: "device_state (reconcile_device t now d) = Verified \<Longrightarrow> device_state d = Verified"
  by (auto simp: reconcile_device_def mark_stale_def Let_def split: if_splits)

interpretation quarantine: inspection_law quarantined stays_quarantined
  by unfold_locales (auto simp: obeys_def quarantined_def stays_quarantined_def fresh_device_def confirm_device_fields
      reconcile_device_fields)

definition verified_within :: "string set \<Rightarrow> bounds \<Rightarrow> device_snapshot \<Rightarrow> bool" where
  "verified_within v b d \<longleftrightarrow> (device_state d = Verified \<longrightarrow> device_id d \<in> v)"

definition same_device :: "device_snapshot \<Rightarrow> device_snapshot \<Rightarrow> bool" where
  "same_device d e \<longleftrightarrow> device_id e = device_id d \<and> verified_at e = verified_at d"

interpretation announced: device_law "verified_within v" same_device for v
  by unfold_locales (auto simp: obeys_def verified_within_def same_device_def fresh_device_def reconcile_device_fields
      dest: reconcile_device_verified)

subsection \<open>Reachable inventories\<close>

text \<open>
  An inventory starts empty, or restored from a snapshot that its persistence has checked: every device
  within the bounds and quarantined where its identity is in conflict.
\<close>

definition snapshot_checked :: "bounds \<Rightarrow> inventory_snapshot \<Rightarrow> bool" where
  "snapshot_checked b snap \<longleftrightarrow> (\<forall>d\<in>set (snap_devices snap). device_bounded b d \<and> quarantined b d)"

inductive inventory_reachable :: "discovery_host \<Rightarrow> inventory \<Rightarrow> bool" for h where
  inventory_started: "inventory_reachable h (new_inventory b tm allowed now)"
    if "bounded_options v = Inr b" "timer_options w = Inr tm"
| inventory_restored: "inventory_reachable h s"
    if "bounded_options v = Inr b" "timer_options w = Inr tm" "snapshot_checked b snap"
      "restore h snap (new_inventory b tm allowed now) = (Inr (), s)"
| inventory_next: "inventory_reachable h (inventory_step h ev s)" if "inventory_reachable h s"

lemma bounded_options_values:
  assumes "bounded_options v = Inr b"
  shows "\<exists>ns. b = bounds_of ns \<and> length ns = 21 \<and> (\<forall>i<21. 0 < ns ! i)"
proof -
  let ?o = "if v = JUndefined then JObj [] else v"
  obtain ns where ns: "map_result (option_value ?o (\<lambda>d. max (d * 16) 64)) default_bounds = Inr ns" "b = bounds_of ns"
    using assms by (auto simp: bounded_options_def Let_def bind_result_Inr_iff split: if_splits)
  have l: "length ns = 21" using map_result_length[OF ns(1)] by (simp add: default_bounds_def)
  have "0 < ns ! i" if "i < 21" for i
    using list_all2_nthD2[OF map_result_Inr[OF ns(1)], of i] that l
    by (auto simp: option_value_def positive_integer_js_Inr split: prod.splits)
  with ns(2) l show ?thesis by blast
qed

lemma bounded_options_positive:
  assumes "bounded_options v = Inr b"
  shows "0 < max_devices b" "0 < max_message_ids b" "0 < max_diagnostics b" "0 < max_scopes b" "0 < max_requests_per_inspection b"
    "0 < max_xaddrs b" "0 < max_provenance b" "0 < max_types b" "0 < max_sequence_ids b" "0 < max_services b"
  using bounded_options_values[OF assms] by auto

definition inventory_sound :: "inventory \<Rightarrow> bool" where
  "inventory_sound s \<longleftrightarrow> inv_ok device_bounded s \<and> inv_ok quarantined s \<and> (\<exists>v. bounded_options v = Inr (inv_bounds s))"

lemma started_sound: "bounded_options v = Inr b \<Longrightarrow> inventory_sound (new_inventory b tm allowed now)"
  using bounded_options_positive[of v b] by (auto simp: inventory_sound_def inv_ok_def new_inventory_def)

lemma update_length: "length (AList.update k v xs) \<le> Suc (length xs)"
  by (induction xs) auto

lemma set_update: "p \<in> set (AList.update k v xs) \<Longrightarrow> p = (k, v) \<or> p \<in> set xs"
  by (induction xs) (auto split: if_splits)

lemma fold_update:
  "distinct (map fst ys) \<Longrightarrow> distinct (map fst (fold (\<lambda>x. AList.update (f x) x) xs ys))"
  "length (fold (\<lambda>x. AList.update (f x) x) xs ys) \<le> length xs + length ys"
proof (induction xs arbitrary: ys)
  case (Cons x xs)
  {
    case 1
    then show ?case using Cons.IH(1)[OF AList.distinct_update] by simp
  next
    case 2
    show ?case using Cons.IH(2)[of "AList.update (f x) x ys"] update_length[of "f x" x ys] by simp
  }
qed simp_all

lemma restored_device:
  assumes "map_result (restore_endpoint h allowed) (endpoints d) = Inr es" "device_bounded b d"
  shows "device_bounded b (d\<lparr>inspection_generation := n, endpoints := es\<rparr>)"
proof -
  have l: "length es = length (endpoints d)" by (rule map_result_length[OF assms(1)])
  have "\<exists>x\<in>set (endpoints d). ep_provenance e = ep_provenance x" if "e \<in> set es" for e
    using map_result_Inr[OF assms(1)] that
    by (auto simp: list_all2_conv_all_nth in_set_conv_nth restore_endpoint_def bind_result_Inr_iff) (metis endpoint_observation.select_convs(3)
        endpoint_observation.surjective endpoint_observation.update_convs(2) nth_mem)
  then show ?thesis using assms(2) l unfolding device_bounded_def room_def by (auto; metis)
qed

lemma restore_devices:
  assumes "fold_state (restore_device h) ds u s = (Inr w, t)" "\<forall>d\<in>set ds. device_bounded b d \<and> quarantined b d"
    "distinct (map fst (inv_devices s))" "\<forall>(i, d)\<in>set (inv_devices s). device_id d = i \<and> device_bounded b d \<and> quarantined b d"
  shows "distinct (map fst (inv_devices t)) \<and> (\<forall>(i, d)\<in>set (inv_devices t). device_id d = i \<and> device_bounded b d \<and> quarantined b d)
    \<and> length (inv_devices t) \<le> length ds + length (inv_devices s)
    \<and> t = s\<lparr>inv_devices := inv_devices t\<rparr>"
  using assms
proof (induction ds arbitrary: s u)
  case (Cons d ds)
  obtain es where es: "map_result (restore_endpoint h (inv_allowed s)) (endpoints d) = Inr es"
    using Cons.prems(1) by (cases "map_result (restore_endpoint h (inv_allowed s)) (endpoints d)") (auto simp: restore_device_def)
  let ?d = "d\<lparr>inspection_generation := Suc (inspection_generation d), endpoints := es\<rparr>"
  let ?s = "s\<lparr>inv_devices := AList.update (device_id d) ?d (inv_devices s)\<rparr>"
  have "restore_device h d u s = (Inr (), ?s)" by (simp add: restore_device_def es)
  then have r: "fold_state (restore_device h) ds () ?s = (Inr w, t)" using Cons.prems(1) by simp
  have "device_bounded b ?d" using restored_device[OF es] Cons.prems(2) by simp
  moreover have "quarantined b ?d" using Cons.prems(2) by (simp add: quarantined_def)
  ultimately have "\<forall>(i, x)\<in>set (inv_devices ?s). device_id x = i \<and> device_bounded b x \<and> quarantined b x"
    using Cons.prems(4) by (auto dest!: set_update)
  from Cons.IH[OF r _ _ this] Cons.prems(2,3) show ?case
    using update_length[of "device_id d" ?d "inv_devices s"] by (auto simp: AList.distinct_update)
qed simp

lemma restored_sound:
  assumes b: "bounded_options v = Inr b" and c: "snapshot_checked b snap"
    and r: "restore h snap (new_inventory b tm allowed now) = (Inr (), s)"
  shows "inventory_sound s"
proof -
  note P = bounded_options_positive[OF b]
  define s1 where "s1 = (new_inventory b tm allowed now)\<lparr>revision := snap_revision snap, inv_truncated := snap_truncated snap,
      inv_findings := drop (length (snap_findings snap) - nat (max_diagnostics b)) (snap_findings snap)\<rparr>"
  have l: "int (length (snap_devices snap)) \<le> max_devices b" "int (length (snap_seeds snap)) \<le> max_devices b"
    using r by (auto simp: restore_def new_inventory_def split: if_splits)
  obtain t where t: "fold_state (restore_device h) (snap_devices snap) () s1 = (Inr (), t)"
    and s: "s = bump (t\<lparr>inv_seeds := fold (\<lambda>x. AList.update (seed_id x) x) (snap_seeds snap) (inv_seeds t)\<rparr>)"
    using r l unfolding restore_def s1_def
    by (auto simp: new_inventory_def Let_def and_then_def split: prod.splits sum.splits)
  have d: "inv_devices s1 = []" "inv_seeds s1 = []" "inv_messages s1 = []" "inv_bounds s1 = b"
    "int (length (inv_findings s1)) \<le> max_diagnostics b" using P(3) by (auto simp: s1_def new_inventory_def)
  have c2: "\<forall>d\<in>set (snap_devices snap). device_bounded b d \<and> quarantined b d" using c by (simp add: snapshot_checked_def)
  have T: "distinct (map fst (inv_devices t))" "\<forall>(i, d)\<in>set (inv_devices t). device_id d = i \<and> device_bounded b d \<and> quarantined b d"
    "length (inv_devices t) \<le> length (snap_devices snap)" "t = s1\<lparr>inv_devices := inv_devices t\<rparr>"
    using restore_devices[OF t c2] d(1) by simp_all
  have e: "inv_seeds t = []" "inv_messages t = []" "inv_bounds t = b" "inv_findings t = inv_findings s1"
    using arg_cong[OF T(4), of inv_seeds] arg_cong[OF T(4), of inv_messages] arg_cong[OF T(4), of inv_bounds]
      arg_cong[OF T(4), of inv_findings] d by simp_all
  have "inv_ok (\<lambda>b d. device_bounded b d \<and> quarantined b d) s"
    using T(1-3) e d(5) l P fold_update[where ys = "[]" and f = seed_id and xs = "snap_seeds snap"]
    by (simp add: s bump_def inv_ok_def)
  then show ?thesis using b e unfolding inventory_sound_def by (auto intro: inv_ok_weaken simp: s bump_def)
qed

lemma step_sound: "inventory_sound s \<Longrightarrow> inventory_sound (inventory_step h ev s)"
  using bounded.steps_event[of s h ev] quarantine.steps_event[of s h ev]
  unfolding inventory_sound_def carries_def same_config_def by auto

lemma reachable_inventory: "inventory_reachable h s \<Longrightarrow> inventory_sound s"
  by (induction rule: inventory_reachable.induct) (auto intro: started_sound restored_sound step_sound)

subsection \<open>A concrete inventory\<close>

definition sample_host :: discovery_host where
  "sample_host = \<lparr>host_number = (\<lambda>_. 1), host_digest = (\<lambda>_. ''00''), host_url = (\<lambda>_. None), host_ip = (\<lambda>_. 0), host_lower = id\<rparr>"

definition sample_epr :: endpoint_reference where
  "sample_epr = \<lparr>epr_address = ''urn:uuid:1'', reference_properties = [], reference_parameters = []\<rparr>"

definition sample_device :: device_snapshot where
  "sample_device = (fresh_device ''b'' sample_epr 0)\<lparr>device_state := Verified, verified_at := Some 3, ordering_instance := Some ''5'',
     ordering_sequences := [\<lparr>mark_sequence = None, mark_number = ''7'', mark_kind = Hello\<rparr>]\<rparr>"

definition sample_snapshot :: inventory_snapshot where
  "sample_snapshot = \<lparr>snap_revision = 1, captured_at = 0,
     snap_devices = [(fresh_device ''a'' sample_epr 0)\<lparr>device_state := Conflict, identity_conflict := True\<rparr>, sample_device],
     snap_seeds = [], snap_findings = [], snap_truncated = False\<rparr>"

definition sample_bounds :: bounds where "sample_bounds = bounds_of (map snd default_bounds)"

definition sample_timers :: timers where "sample_timers = timers_of (map snd default_timers)"

lemma sample_options: "bounded_options JUndefined = Inr sample_bounds" "timer_options JUndefined = Inr sample_timers"
  by (simp_all add: bounded_options_def timer_options_def default_bounds_def default_timers_def option_value_def
      max_safe_integer_def sample_bounds_def sample_timers_def Let_def)

definition sample_inventory :: inventory where
  "sample_inventory = (new_inventory sample_bounds sample_timers [] 10)\<lparr>revision := 2, inv_devices :=
     [(''a'', (fresh_device ''a'' sample_epr 0)\<lparr>device_state := Conflict, identity_conflict := True, inspection_generation := 1\<rparr>),
      (''b'', sample_device\<lparr>inspection_generation := 1\<rparr>)]\<rparr>"

lemma sample_reachable_inventory: "inventory_reachable sample_host sample_inventory"
proof (rule inventory_restored[OF sample_options])
  show "snapshot_checked sample_bounds sample_snapshot"
    by (simp add: snapshot_checked_def sample_snapshot_def sample_device_def device_bounded_def quarantined_def
        fresh_device_def room_def sample_bounds_def default_bounds_def)
  show "restore sample_host sample_snapshot (new_inventory sample_bounds sample_timers [] 10) = (Inr (), sample_inventory)"
    by (simp add: restore_def sample_snapshot_def new_inventory_def sample_bounds_def default_bounds_def restore_device_def
        sample_device_def fresh_device_def sample_inventory_def bump_def Let_def)
qed

lemma sample_device_of: "device_of ''b'' sample_inventory = Some (sample_device\<lparr>inspection_generation := 1\<rparr>)"
  "\<exists>d. device_of ''a'' sample_inventory = Some d \<and> identity_conflict d"
  by (simp_all add: device_of_def sample_inventory_def)

text \<open>
  C11. In every reachable state the inventory is bounded by its validated options: devices, seeds,
  remembered messages and diagnostics, and for every device its endpoints, provenances, types, scopes,
  claims, sequences, findings, evidence, reads and resources; identities and sequences do not repeat.
\<close>

theorem inventory_bounded:
  assumes "inventory_reachable h s" "device_of i s = Some d"
  shows "int (length (inv_devices s)) \<le> max_devices (inv_bounds s) \<and> distinct (map fst (inv_devices s))
     \<and> int (length (inv_seeds s)) \<le> max_devices (inv_bounds s)
     \<and> int (length (inv_messages s)) \<le> max_message_ids (inv_bounds s)
     \<and> int (length (inv_findings s)) \<le> max_diagnostics (inv_bounds s)
     \<and> device_id d = i \<and> int (length (endpoints d)) \<le> max_xaddrs (inv_bounds s)
     \<and> int (length (device_provenance d)) \<le> max_provenance (inv_bounds s)
     \<and> (\<forall>e\<in>set (endpoints d). int (length (ep_provenance e)) \<le> max_provenance (inv_bounds s))
     \<and> int (length (types d)) \<le> max_types (inv_bounds s) \<and> int (length (scopes d)) \<le> max_scopes (inv_bounds s)
     \<and> int (length (claims d)) \<le> max_scopes (inv_bounds s)
     \<and> int (length (ordering_sequences d)) \<le> max_sequence_ids (inv_bounds s)
     \<and> distinct (map mark_sequence (ordering_sequences d))
     \<and> int (length (device_findings d)) \<le> max_diagnostics (inv_bounds s)
     \<and> int (length (identity_evidence d)) \<le> max_provenance (inv_bounds s)
     \<and> int (length (device_reads d)) \<le> max_requests_per_inspection (inv_bounds s)
     \<and> int (length (device_resources d)) \<le> max_services (inv_bounds s) * 16"
proof -
  have s: "inventory_sound s" by (rule reachable_inventory[OF assms(1)])
  then obtain v where v: "bounded_options v = Inr (inv_bounds s)" by (auto simp: inventory_sound_def)
  have "device_id d = i" "device_bounded (inv_bounds s) d"
    using s device_of_member[OF assms(2)] by (auto simp: inventory_sound_def inv_ok_def)
  then show ?thesis using s bounded_options_positive[OF v]
    by (auto simp: inventory_sound_def inv_ok_def device_bounded_def room_def)
qed

theorem inventory_bounded_witness:
  "int (length (inv_devices sample_inventory)) \<le> max_devices (inv_bounds sample_inventory)"
  using inventory_bounded[OF sample_reachable_inventory sample_device_of(1)] by (rule conjunct1)

text \<open>
  C9. A quarantine is for good: once the identity of a device is in conflict, no sequence of
  announcements, inspections, seeds or liveness rounds removes the device, clears the conflict, leaves
  the conflict state or verifies it anew.
\<close>

theorem quarantine_permanent:
  assumes "inventory_reachable h s" "device_of i s = Some d" "identity_conflict d"
  shows "\<exists>e. device_of i (fold (inventory_step h) evs s) = Some e \<and> identity_conflict e \<and> device_state e = Conflict
     \<and> verified_at e = verified_at d"
proof -
  have "inv_ok quarantined s" using reachable_inventory[OF assms(1)] by (simp add: inventory_sound_def)
  moreover from this have "device_state d = Conflict"
    using device_of_member[OF assms(2)] assms(3) by (auto simp: inv_ok_def quarantined_def)
  ultimately show ?thesis using quarantine.steps_events[of s h evs] assms(2,3)
    unfolding carries_def stays_quarantined_def by blast
qed

theorem quarantine_permanent_witness:
  "\<exists>e. device_of ''a'' (fold (inventory_step sample_host) [Ticked 500000, Reconciled] sample_inventory) = Some e \<and> device_state e = Conflict"
proof -
  obtain d where d: "device_of ''a'' sample_inventory = Some d" "identity_conflict d" using sample_device_of(2) by blast
  from quarantine_permanent[OF sample_reachable_inventory d, of "[Ticked 500000, Reconciled]"] show ?thesis by blast
qed

text \<open>
  C12. Only an inspection verifies: after an announcement, a liveness round, a reconciliation, a seed or
  registry evidence, a verified device is one that was verified before, with the verification it had.
\<close>

theorem verified_only_by_inspection:
  assumes "inventory_reachable h s" "\<not> inspects ev" "device_of i (inventory_step h ev s) = Some e" "device_state e = Verified"
  shows "\<exists>d. device_of i s = Some d \<and> device_state d = Verified \<and> verified_at e = verified_at d"
proof -
  define v where "v = {j. \<exists>d. device_of j s = Some d \<and> device_state d = Verified}"
  have b: "inv_ok device_bounded s" using reachable_inventory[OF assms(1)] by (simp add: inventory_sound_def)
  then have d: "distinct (map fst (inv_devices s))" "\<And>j x. (j, x) \<in> set (inv_devices s) \<Longrightarrow> device_id x = j"
    by (auto simp: inv_ok_def)
  have w: "verified_within v c x" if "(j, x) \<in> set (inv_devices s)" for c j x
    using member_device_of[OF d(1) that] d(2)[OF that] by (auto simp: verified_within_def v_def)
  have "inv_ok (verified_within v) s" using b w unfolding inv_ok_def by auto
  then have t: "inv_ok (verified_within v) (inventory_step h ev s)"
    "\<And>j x. device_of j s = Some x \<Longrightarrow> \<exists>y. device_of j (inventory_step h ev s) = Some y \<and> same_device x y"
    using announced.steps_announced[OF assms(2), where v = v and s = s and h = h] by (auto simp: carries_def)
  have "i \<in> v" using t(1) device_of_member[OF assms(3)] assms(4) by (auto simp: inv_ok_def verified_within_def)
  then obtain x where "device_of i s = Some x" "device_state x = Verified" by (auto simp: v_def)
  then show ?thesis using t(2)[of i x] assms(3) by (auto simp: same_device_def)
qed

theorem verified_only_by_inspection_witness:
  "\<exists>d. device_of ''b'' sample_inventory = Some d \<and> device_state d = Verified"
proof -
  have "device_of ''b'' (inventory_step sample_host (Began ''b'') sample_inventory)
      = Some (sample_device\<lparr>inspection_generation := 2\<rparr>)" "device_state (sample_device\<lparr>inspection_generation := 2\<rparr>) = Verified"
    using sample_device_of(1) by (simp_all add: begin_inspection_def bump_def device_of_def on_device_def map_of_map_entry sample_device_def)
  from verified_only_by_inspection[OF sample_reachable_inventory _ this] show ?thesis by auto
qed

text \<open>
  Two inventories that differ in diagnostics only: in the findings of device \<open>i\<close> and of the inventory, and in the
  revision and the truncation mark that go with them.
\<close>

definition undiagnosed :: "inventory \<Rightarrow> inventory" where
  "undiagnosed s = s\<lparr>inv_devices := [], inv_findings := [], revision := 0, inv_truncated := False\<rparr>"

definition only_reported :: "string \<Rightarrow> inventory \<Rightarrow> inventory \<Rightarrow> bool" where
  "only_reported i s t \<longleftrightarrow>
     undiagnosed t = undiagnosed s \<and> map fst (inv_devices t) = map fst (inv_devices s)
     \<and> (\<forall>j. j \<noteq> i \<longrightarrow> device_of j t = device_of j s)
     \<and> map_option (\<lambda>d. d\<lparr>device_findings := []\<rparr>) (device_of i t) = map_option (\<lambda>d. d\<lparr>device_findings := []\<rparr>) (device_of i s)"

lemma only_reported_refl: "only_reported i s s" by (simp add: only_reported_def)

lemma only_reported_trans: "only_reported i s t \<Longrightarrow> only_reported i t u \<Longrightarrow> only_reported i s u"
  by (simp add: only_reported_def)

lemma keys_map_entry: "map fst (AList.map_entry i f ps) = map fst ps"
  by (induction ps) auto

lemma only_reported_updates:
  assumes "g \<in> {None, Some i}"
  shows "only_reported i s (bump t) \<longleftrightarrow> only_reported i s t"
    "only_reported i s (t\<lparr>inv_truncated := b\<rparr>) \<longleftrightarrow> only_reported i s t"
    "only_reported i s t \<Longrightarrow> only_reported i s (on_findings g f t)"
proof -
  show "only_reported i s (bump t) \<longleftrightarrow> only_reported i s t" "only_reported i s (t\<lparr>inv_truncated := b\<rparr>) \<longleftrightarrow> only_reported i s t"
    by (simp_all add: only_reported_def bump_def undiagnosed_def device_of_def)
  have "only_reported i t (on_findings g f t)"
    using assms by (auto simp: only_reported_def undiagnosed_def on_findings_def on_device_def device_of_def map_of_map_entry
        keys_map_entry split: option.split)
  then show "only_reported i s t \<Longrightarrow> only_reported i s (on_findings g f t)" using only_reported_trans by blast
qed

lemma only_reported_shed: "g \<in> {None, Some i} \<Longrightarrow> only_reported i s t \<Longrightarrow> only_reported i s (shed_findings h g t)"
proof (induction h g t rule: shed_findings.induct)
  case (1 h g t)
  have "only_reported i s (on_findings g tl t\<lparr>inv_truncated := True\<rparr>)"
    using only_reported_updates(2,3)[OF 1(2)] 1(3) by blast
  then show ?case using 1 by (subst shed_findings.simps) auto
qed

lemma diagnostic_only_reports: "only_reported i s (inventory_diagnostic h code text' (Some i) partial s)"
proof -
  define g where "g = (if Some i = Some [] then None else Some i)"
  have g: "g \<in> {None, Some i}" by (simp add: g_def)
  show ?thesis unfolding inventory_diagnostic_def Let_def g_def[symmetric]
    by (rule only_reported_shed[OF g], unfold only_reported_updates(1,2)[OF g])
      (rule only_reported_updates(3)[OF g only_reported_refl])
qed

text \<open>
  C10. An inspection that another one overtook is void: when a second inspection of the same device has
  begun after a token was issued, whatever happened in between and since, committing a report under the first
  token is refused and changes nothing but diagnostics: no other device, no seed, no remembered message and of the
  device itself only its findings.
\<close>

theorem superseded_inspection_refused:
  assumes "inventory_reachable h s" "begin_inspection i s = (Inr first, s1)"
    and "t = fold (inventory_step h) evs s1" "begin_inspection i t = (Inr second, u)"
    and "w = fold (inventory_step h) later u"
  shows "fst (commit_inspection h first r w) = Inr False \<and> only_reported i w (snd (commit_inspection h first r w))"
proof -
  have s: "inventory_sound s" by (rule reachable_inventory[OF assms(1)])
  obtain d where d: "device_of i s = Some d" "token_device first = i" "token_generation first = Suc (inspection_generation d)"
    and s1: "s1 = bump (on_device i (\<lambda>d. d\<lparr>inspection_generation := Suc (inspection_generation d)\<rparr>) s)"
    using assms(2) by (auto simp: begin_inspection_def split: option.splits)
  let ?d1 = "d\<lparr>inspection_generation := Suc (inspection_generation d)\<rparr>"
  have d1: "device_of i s1 = Some ?d1" using d by (simp add: s1 bump_def device_of_def on_device_def map_of_map_entry)
  have k: "inv_ok device_bounded s1"
    using bounded.steps_begin[of s i] s assms(2) by (simp add: inventory_sound_def carries_def)
  then have tk: "inv_ok device_bounded t" and "\<exists>x. device_of i t = Some x \<and> advances ?d1 x"
    using bounded.steps_events[of s1 h evs] d1 assms(3) by (auto simp: carries_def)
  then obtain x where x: "device_of i t = Some x" "Suc (inspection_generation d) \<le> inspection_generation x"
    by (auto simp: advances_def)
  let ?x1 = "x\<lparr>inspection_generation := Suc (inspection_generation x)\<rparr>"
  have u: "device_of i u = Some ?x1"
    using assms(4) x(1) by (auto simp: begin_inspection_def bump_def device_of_def on_device_def map_of_map_entry)
  have "inv_ok device_bounded u" using bounded.steps_begin[of t i] tk assms(4) by (simp add: carries_def)
  then have "\<exists>y. device_of i w = Some y \<and> advances ?x1 y"
    using bounded.steps_events[of u h later] u assms(5) by (auto simp: carries_def)
  then obtain y where "device_of i w = Some y" "Suc (inspection_generation x) \<le> inspection_generation y"
    by (auto simp: advances_def)
  then have "commit_inspection h first r w = (Inr False, inventory_diagnostic h ''SupersededInspection''
            ''Inspection belongs to a superseded device epoch or generation'' (Some i) False w)"
    using d x(2) by (simp add: commit_inspection_def Let_def)
  then show ?thesis using diagnostic_only_reports by simp
qed

theorem superseded_inspection_refused_witness:
  "\<exists>first w. fst (begin_inspection ''b'' sample_inventory) = Inr first
     \<and> (\<forall>r. fst (commit_inspection sample_host first r w) = Inr False \<and> only_reported ''b'' w (snd (commit_inspection sample_host first r w)))"
proof -
  obtain first s1 where f: "begin_inspection ''b'' sample_inventory = (Inr first, s1)"
    by (simp add: begin_inspection_def sample_device_of)
  then have "device_of ''b'' s1 \<noteq> None"
    using sample_device_of(1) by (auto simp: begin_inspection_def bump_def device_of_def on_device_def map_of_map_entry)
  then obtain second u where u: "begin_inspection ''b'' s1 = (Inr second, u)" by (auto simp: begin_inspection_def)
  have t: "s1 = fold (inventory_step sample_host) [] s1" by simp
  have "fst (commit_inspection sample_host first r w) = Inr False \<and> only_reported ''b'' w (snd (commit_inspection sample_host first r w))"
    if "w = fold (inventory_step sample_host) [Ticked 20] u" for r w
    by (rule superseded_inspection_refused[OF sample_reachable_inventory f t u that])
  then show ?thesis using f by auto
qed

subsection \<open>The order of announcements\<close>

text \<open>
  The abstract order of a device: the instance it is in and the highest number seen in each of its
  sequences. An announcement counts when its instance is not older and its number is new.
\<close>

definition marks :: "sequence_watermark list \<Rightarrow> string option \<Rightarrow> int option" where
  "marks ws sid = map_option (\<lambda>w. digits_value (mark_number w)) (find (\<lambda>w. mark_sequence w = sid) ws)"

definition order_view :: "device_snapshot \<Rightarrow> int option \<times> (string option \<Rightarrow> int option)" where
  "order_view d = (map_option digits_value (ordering_instance d), marks (ordering_sequences d))"

definition spec_order :: "int \<Rightarrow> string option \<Rightarrow> int \<Rightarrow> int option \<times> (string option \<Rightarrow> int option) \<Rightarrow>
    bool \<times> (int option \<times> (string option \<Rightarrow> int option))" where
  "spec_order inst sid num st =
     (case st of (cur, seen) \<Rightarrow>
        if (case cur of Some p \<Rightarrow> inst < p | None \<Rightarrow> False) then (False, st)
        else
          let now_seen = (if cur = Some inst then seen else (\<lambda>_. None)) in
          if (case now_seen sid of Some n \<Rightarrow> num \<le> n | None \<Rightarrow> False) then (False, st)
          else (True, (Some inst, now_seen(sid := Some num))))"

lemma set_watermark_simps [simp]:
  "set_watermark sq k [] = [\<lparr>mark_sequence = sequence_id sq, mark_number = message_number sq, mark_kind = k\<rparr>]"
  "set_watermark sq k (w # ws) = (if mark_sequence w = sequence_id sq
     then \<lparr>mark_sequence = sequence_id sq, mark_number = message_number sq, mark_kind = k\<rparr> # ws else w # set_watermark sq k ws)"
  by (simp_all add: set_watermark_def Let_def split: option.split)

lemma marks_set: "marks (set_watermark sq k ws) = (marks ws)(sequence_id sq := Some (digits_value (message_number sq)))"
proof
  show "marks (set_watermark sq k ws) x = ((marks ws)(sequence_id sq := Some (digits_value (message_number sq)))) x" for x
    by (induction ws) (auto simp: marks_def)
qed

lemma noted_device:
  assumes "inv_ok ok s" "device_of i s = Some d"
  shows "\<exists>e. device_of i (inventory_diagnostic h code text' j b s) = Some e
    \<and> ordering_instance e = ordering_instance d \<and> ordering_sequences e = ordering_sequences d"
  using diagnostic_only_notes[OF assms] only_noted_fields(1,5) by metis

lemma order_message_view:
  assumes v: "inv_ok device_bounded s" and d: "device_of i s = Some d" and o: "order_message h i m sq s = (b, t)"
  defines "old \<equiv> (case marks (ordering_sequences d) (sequence_id sq) of Some n \<Rightarrow> digits_value (message_number sq) \<le> n | None \<Rightarrow> False)"
  shows "\<exists>e. device_of i t = Some e \<and> ordering_instance e = ordering_instance d
    \<and> (b \<longrightarrow> \<not> old \<and> ordering_sequences e = set_watermark sq (msg_kind m) (ordering_sequences d))
    \<and> (\<not> b \<longrightarrow> ordering_sequences e = ordering_sequences d
        \<and> (old \<or> max_sequence_ids (inv_bounds s) \<le> int (length (ordering_sequences d))))"
proof -
  let ?ws = "ordering_sequences d"
  let ?torn = "on_device i (\<lambda>d. d\<lparr>device_state := Conflict\<rparr>) s"
  define s1 where "s1 = (if list_ex (\<lambda>w. mark_sequence w \<noteq> sequence_id sq \<and> (mark_kind w = Bye) \<noteq> (msg_kind m = Bye)) ?ws
      then inventory_diagnostic h ''IncomparablePresence'' ''Different SequenceIds contradict presence; arrival time cannot resolve them''
        (Some i) False ?torn else s)"
  have n: "inv_ok device_bounded ?torn"
    using bounded.steps_on_device[of s i "\<lambda>d. d\<lparr>device_state := Conflict\<rparr>"] bounded.torn v by (simp add: carries_def)
  obtain e where e: "device_of i s1 = Some e" "ordering_instance e = ordering_instance d" "ordering_sequences e = ?ws"
    using noted_device[OF n, of i] d by (cases "s1 = s") (fastforce simp: s1_def device_of_on_device split: if_splits)+
  have a: "the_device i s = d" using d by (simp add: the_device_def)
  have eq: "order_message h i m sq s =
      (if old then (False, inventory_diagnostic h ''OldMessageNumber''
        ''Duplicate or older message in the same sequence was ignored'' (Some i) False s)
       else if find (\<lambda>w. mark_sequence w = sequence_id sq) ?ws = None \<and> int (length ?ws) \<ge> max_sequence_ids (inv_bounds s)
       then (False, inventory_diagnostic h ''SequenceLimit''
        ''New incomparable sequence was not admitted; existing watermarks retained'' (Some i) True s)
       else (True, on_device i (\<lambda>d. d\<lparr>ordering_sequences := set_watermark sq (msg_kind m) (ordering_sequences d)\<rparr>) s1))"
    by (cases "find (\<lambda>w. mark_sequence w = sequence_id sq) ?ws") (simp_all add: order_message_def Let_def a s1_def old_def marks_def)
  show ?thesis
    using o noted_device[OF v d] e unfolding eq by (auto simp: device_of_on_device split: if_splits)
qed

text \<open>
  C8. The order of announcements refines its specification. In every reachable state, an announcement
  with a sequence is admitted only when the specification admits it, and then the device's order is the
  specification's next state; a rejected one leaves the order as it was, and beyond the specification
  only a sequence that finds no room is rejected.
\<close>

theorem order_refines:
  assumes "inventory_reachable h s" "device_of i s = Some d" "msg_sequence m = Some sq" "order h i m s = (b, t)"
  defines "spec \<equiv> spec_order (digits_value (instance_id sq)) (sequence_id sq) (digits_value (message_number sq)) (order_view d)"
  shows "\<exists>e. device_of i t = Some e
     \<and> (b \<longrightarrow> fst spec \<and> order_view e = snd spec)
     \<and> (\<not> b \<longrightarrow> order_view e = order_view d
          \<and> (\<not> fst spec \<or> max_sequence_ids (inv_bounds s) \<le> int (length (ordering_sequences d))))"
proof -
  have i: "inventory_sound s" by (rule reachable_inventory[OF assms(1)])
  then obtain v where v: "bounded_options v = Inr (inv_bounds s)" and k: "inv_ok device_bounded s"
    by (auto simp: inventory_sound_def)
  define prior where "prior = map_option digits_value (ordering_instance d)"
  define given where "given = digits_value (instance_id sq)"
  have a: "the_device i s = d" using assms(2) by (simp add: the_device_def)
  consider (older) p where "prior = Some p" "given < p" | (same) "prior = Some given"
    | (newer) "prior = None \<or> (\<exists>p. prior = Some p \<and> p < given)" by (cases prior) force+
  then show ?thesis
  proof cases
    case older
    then have "order h i m s = (False, inventory_diagnostic h ''OldInstance''
            ''Delayed message from an older device epoch was ignored'' (Some i) False s)"
      using assms(3) by (cases "ordering_instance d") (simp_all add: order_def a prior_def given_def Let_def)
    with assms(4) have b: "\<not> b" and t: "t = inventory_diagnostic h ''OldInstance''
            ''Delayed message from an older device epoch was ignored'' (Some i) False s" by auto
    obtain e where "device_of i t = Some e" "order_view e = order_view d"
      using noted_device[OF k assms(2)] unfolding t order_view_def by metis
    moreover have "\<not> fst spec" using older by (auto simp: order_view_def spec_def spec_order_def prior_def given_def)
    ultimately show ?thesis using b by blast
  next
    case same
    then have "order_message h i m sq s = (b, t)" using assms(3,4)
      by (cases "ordering_instance d") (simp_all add: order_def a prior_def given_def Let_def)
    from order_message_view[OF k assms(2) this] obtain e where e: "device_of i t = Some e" "ordering_instance e = ordering_instance d"
      and T: "b \<Longrightarrow> \<not> (case marks (ordering_sequences d) (sequence_id sq) of Some n \<Rightarrow> digits_value (message_number sq) \<le> n | None \<Rightarrow> False)
          \<and> ordering_sequences e = set_watermark sq (msg_kind m) (ordering_sequences d)"
      and F: "\<not> b \<Longrightarrow> ordering_sequences e = ordering_sequences d
        \<and> ((case marks (ordering_sequences d) (sequence_id sq) of Some n \<Rightarrow> digits_value (message_number sq) \<le> n | None \<Rightarrow> False)
            \<or> max_sequence_ids (inv_bounds s) \<le> int (length (ordering_sequences d)))" by blast
    have s: "spec = (if (case marks (ordering_sequences d) (sequence_id sq) of Some n \<Rightarrow> digits_value (message_number sq) \<le> n | None \<Rightarrow> False)
        then (False, order_view d) else (True, (Some given, (marks (ordering_sequences d))(sequence_id sq := Some (digits_value (message_number sq))))))"
      using same by (cases "ordering_instance d") (simp_all add: spec_def spec_order_def order_view_def prior_def given_def Let_def)
    have "b \<Longrightarrow> marks (ordering_sequences e) = (marks (ordering_sequences d))(sequence_id sq := Some (digits_value (message_number sq)))"
      using T by (simp add: marks_set)
    moreover have "order_view e = (Some given, marks (ordering_sequences e))" using same e(2) by (simp add: order_view_def prior_def)
    moreover have "order_view e = order_view d" if "\<not> b" using F[OF that] e(2) by (simp add: order_view_def)
    ultimately show ?thesis using e(1) T F unfolding s by (cases b) (simp_all split: if_split, blast)
  next
    case newer
    let ?s = "enter_epoch i sq s"
    have "order_message h i m sq ?s = (b, t)"
      using newer assms(3,4) by (cases "ordering_instance d") (simp_all add: order_def a prior_def given_def Let_def)
    moreover have "inv_ok device_bounded ?s" "inv_bounds ?s = inv_bounds s"
      using bounded.steps_on_device[of s i, OF bounded.entered] k unfolding enter_epoch_def by (simp_all add: carries_def)
    moreover obtain e0 where "device_of i ?s = Some e0" "ordering_instance e0 = Some (instance_id sq)" "ordering_sequences e0 = []"
      using assms(2) by (simp add: enter_epoch_def device_of_on_device)
    ultimately obtain e where "device_of i t = Some e" "ordering_instance e = Some (instance_id sq)"
        "b \<longrightarrow> ordering_sequences e = set_watermark sq (msg_kind m) []" "b"
      using order_message_view[of ?s i e0 h m sq b t] bounded_options_positive(9)[OF v] by (auto simp: marks_def)
    then show ?thesis using newer
      by (auto simp: order_view_def spec_def spec_order_def prior_def given_def marks_set Let_def marks_def fun_eq_iff)
  qed
qed

theorem order_refines_witness:
  "\<exists>e b t. order sample_host ''b'' \<lparr>msg_kind = Bye, msg_id = ''m'', msg_relates_to = None, msg_to = ''t'',
       msg_sequence = Some \<lparr>instance_id = ''5'', sequence_id = None, message_number = ''6''\<rparr>, msg_matches = [], msg_proxy = False\<rparr>
       sample_inventory = (b, t) \<and> device_of ''b'' t = Some e \<and> \<not> b \<and> order_view e = order_view sample_device"
proof -
  let ?sq = "\<lparr>instance_id = ''5'', sequence_id = None, message_number = ''6''\<rparr>"
  let ?m = "\<lparr>msg_kind = Bye, msg_id = ''m'', msg_relates_to = None, msg_to = ''t'', msg_sequence = Some ?sq, msg_matches = [], msg_proxy = False\<rparr>"
  obtain b t where o: "order sample_host ''b'' ?m sample_inventory = (b, t)" by fastforce
  have m: "msg_sequence ?m = Some ?sq" by simp
  have "order_view (sample_device\<lparr>inspection_generation := 1\<rparr>) = order_view sample_device" by (simp add: order_view_def)
  moreover have "order_view sample_device = (Some 5, marks (ordering_sequences sample_device))" "marks (ordering_sequences sample_device) None = Some 7"
    by (simp_all add: order_view_def marks_def sample_device_def digits_value_def digit_value_def)
  ultimately show ?thesis using order_refines[OF sample_reachable_inventory sample_device_of(1) m o] o
    by (auto simp: spec_order_def digits_value_def digit_value_def)
qed

end
