(* ===== verification/Discovery_Policy_Laws.thy ===== *)
theory Discovery_Policy_Laws
  imports Discovery_Protocol
begin

section \<open>The laws of the discovery policy\<close>

subsection \<open>The bound on canonical JSON\<close>

text \<open>
  The reference: the values with a canonical JSON text, the text \<open>JSON.stringify\<close> gives them, and the
  number and the nesting of the values in one. The texts of numbers are the platform's.
\<close>

fun canonical :: "js \<Rightarrow> bool" where
  "canonical JNull = True"
| "canonical (JBool b) = True"
| "canonical (JStr s) = True"
| "canonical (JNum n) = is_finite_number n"
| "canonical (JArr xs) = (\<forall>x\<in>set xs. canonical x)"
| "canonical (JObj kvs) = (\<forall>kv\<in>set kvs. canonical (snd kv))"
| "canonical _ = False"

fun value_count :: "js \<Rightarrow> nat" where
  "value_count (JArr xs) = Suc (sum_list (map value_count xs))"
| "value_count (JObj kvs) = Suc (sum_list (map (\<lambda>kv. value_count (snd kv)) kvs))"
| "value_count _ = 1"

fun nests_within :: "nat \<Rightarrow> nat \<Rightarrow> js \<Rightarrow> bool" where
  "nests_within limit depth (JArr xs) = (depth \<le> limit \<and> (\<forall>x\<in>set xs. nests_within limit (Suc depth) x))"
| "nests_within limit depth (JObj kvs) = (depth \<le> limit \<and> (\<forall>kv\<in>set kvs. nests_within limit (Suc depth) (snd kv)))"
| "nests_within limit depth _ = (depth \<le> limit)"

fun json_stringify :: "(jsnum \<Rightarrow> string) \<Rightarrow> js \<Rightarrow> string" where
  "json_stringify nt JNull = ''null''"
| "json_stringify nt (JBool b) = (if b then ''true'' else ''false'')"
| "json_stringify nt (JStr s) = quoted s"
| "json_stringify nt (JNum n) = nt n"
| "json_stringify nt (JArr xs) = ''['' @ joined '','' (map (json_stringify nt) xs) @ '']''"
| "json_stringify nt (JObj kvs) =
     ''{'' @ joined '','' (map (\<lambda>kv. quoted (fst kv) @ '':'' @ json_stringify nt (snd kv)) kvs) @ ''}''"
| "json_stringify nt _ = []"

lemma joined_length: "length (joined [c] ws) = sum_list (map length ws) + (length ws - 1)"
  by (induction "[c]" ws rule: joined.induct) auto

text \<open>The bytes the walk counts.\<close>

fun value_bytes :: "discovery_host \<Rightarrow> js \<Rightarrow> int" where
  "value_bytes h JNull = 4"
| "value_bytes h (JBool b) = (if b then 4 else 5)"
| "value_bytes h (JStr s) = quoted_length s"
| "value_bytes h (JNum n) = number_length h n"
| "value_bytes h (JArr xs) = 2 + max 0 (int (length xs) - 1) + sum_list (map (value_bytes h) xs)"
| "value_bytes h (JObj kvs) = 2 + max 0 (int (length kvs) - 1)
     + sum_list (map (\<lambda>kv. quoted_length (fst kv) + 1 + value_bytes h (snd kv)) kvs)"
| "value_bytes h _ = 0"

lemma value_bytes_nonneg: "0 \<le> value_bytes h v"
proof (induction h v rule: value_bytes.induct)
  case (5 h xs)
  then show ?case by (auto intro!: sum_list_nonneg add_nonneg_nonneg)
next
  case (6 h kvs)
  then show ?case by (auto intro!: sum_list_nonneg add_nonneg_nonneg simp: quoted_length_def)
qed (auto simp: number_length_def quoted_length_def split: jsnum.split)

lemma point_units: "p \<noteq> [] \<Longrightarrow> length (if point p < 0x10000 then [point p] else [a, b]) \<le> length (quoted_code_point p)"
proof -
  assume "p \<noteq> []"
  moreover have "4 \<le> length p" if "0x10000 \<le> point p"
  proof (rule ccontr)
    assume l: "\<not> 4 \<le> length p"
    have "point p < 0x10000"
    proof (cases p)
      case Nil
      then show ?thesis by (simp add: point_def)
    next
      case (Cons c cs)
      have b: "byte_of d < 256" for d by (simp add: byte_of_def)
      show ?thesis
      proof (cases cs)
        case Nil
        then show ?thesis using b[of c] by (simp add: Cons point_def)
      next
        case (Cons d ds)
        have m: "byte_of c mod 32 < 32" "byte_of c mod 16 < 16" "byte_of d mod 64 < 64" by simp_all
        show ?thesis
        proof (cases ds)
          case Nil
          then show ?thesis using m Cons \<open>p = c # cs\<close> by (simp add: point_def)
        next
          case (Cons e es)
          then have "es = []" using l \<open>p = c # cs\<close> \<open>cs = d # ds\<close> by (cases es) simp_all
          moreover have "byte_of e mod 64 < 64" by simp
          ultimately show ?thesis using m Cons \<open>p = c # cs\<close> \<open>cs = d # ds\<close> by (simp add: point_def)
        qed
      qed
    qed
    with that show False by simp
  qed
  ultimately show ?thesis by (cases p) (auto simp: quoted_code_point_def Let_def)
qed

lemma units_quoted: "int (length (utf16_units s)) \<le> quoted_length s"
proof -
  have "length (concat (map (\<lambda>p. if point p < 0x10000 then [point p] else [a p, b p]) ps)) \<le> length (concat (map quoted_code_point ps))"
    if "\<forall>p\<in>set ps. p \<noteq> []" for ps a b
    using that by (induction ps) (auto intro: add_mono point_units simp del: if_split simp: point_units add_mono)
  from this[of "code_points s" "\<lambda>p. 0xD800 + (point p - 0x10000) div 0x400" "\<lambda>p. 0xDC00 + (point p - 0x10000) mod 0x400"]
  have "length (utf16_units s) \<le> length (concat (map quoted_code_point (code_points s)))"
    by (simp add: utf16_units_def Let_def code_points_nonempty)
  then show ?thesis
    by (simp add: quoted_length_def quoted_def)
qed

lemma json_text_exact: "json_text l s (n, u) = (if u + quoted_length s \<le> json_bytes l then Inr (n, u + quoted_length s) else raise XmlLimit)"
  using units_quoted[of s] by (auto simp: json_text_def json_grow_def)

lemma fold_additive:
  assumes "\<And>x. x \<in> set xs \<Longrightarrow> 0 \<le> c x \<and> 0 \<le> b x"
    and "\<And>x n u st. x \<in> set xs \<Longrightarrow> n \<le> most \<Longrightarrow> u \<le> room \<Longrightarrow>
      f x (n, u) = Inr st \<longleftrightarrow> good x \<and> n + c x \<le> most \<and> u + b x \<le> room \<and> st = (n + c x, u + b x)"
    and "n \<le> most" "u \<le> room"
  shows "fold_result f xs (n, u) = (Inr st :: (int \<times> int) result) \<longleftrightarrow>
    (\<forall>x\<in>set xs. good x) \<and> n + sum_list (map c xs) \<le> most \<and> u + sum_list (map b xs) \<le> room
    \<and> st = (n + sum_list (map c xs), u + sum_list (map b xs))"
  using assms
proof (induction xs arbitrary: n u)
  case Nil
  then show ?case by auto
next
  case (Cons x xs)
  have nonneg: "0 \<le> sum_list (map c xs)" "0 \<le> sum_list (map b xs)"
    using Cons.prems(1) by (auto intro!: sum_list_nonneg)
  have step: "f x (n, u) = Inr st \<longleftrightarrow> good x \<and> n + c x \<le> most \<and> u + b x \<le> room \<and> st = (n + c x, u + b x)" for st
    by (rule Cons.prems(2)) (use Cons.prems(3,4) in auto)
  show ?case
  proof (cases "good x \<and> n + c x \<le> most \<and> u + b x \<le> room")
    case True
    then have "f x (n, u) = Inr (n + c x, u + b x)" by (simp add: step)
    moreover have "fold_result f xs (n + c x, u + b x) = Inr st \<longleftrightarrow>
        (\<forall>x\<in>set xs. good x) \<and> (n + c x) + sum_list (map c xs) \<le> most \<and> (u + b x) + sum_list (map b xs) \<le> room
        \<and> st = ((n + c x) + sum_list (map c xs), (u + b x) + sum_list (map b xs))"
      by (rule Cons.IH) (use Cons.prems True in auto)
    ultimately show ?thesis using True by (simp add: add.assoc)
  next
    case False
    then have "bind_result (f x (n, u)) (fold_result f xs) \<noteq> Inr st" by (auto simp: bind_result_Inr_iff step)
    then show ?thesis using False nonneg by auto
  qed
qed

definition visits :: "discovery_host \<Rightarrow> json_limits \<Rightarrow> js \<Rightarrow> nat \<Rightarrow> bool" where
  "visits h l v d = (\<forall>n u st. n \<le> json_nodes l \<longrightarrow> u \<le> json_bytes l \<longrightarrow>
     (json_visit h l v d (n, u) = Inr st \<longleftrightarrow>
        (canonical v \<and> nests_within (json_depth l) d v) \<and> n + int (value_count v) \<le> json_nodes l
        \<and> u + value_bytes h v \<le> json_bytes l \<and> st = (n + int (value_count v), u + value_bytes h v)))"

lemma json_grow_Inr: "json_grow l k (n, u) = Inr st \<longleftrightarrow> u + k \<le> json_bytes l \<and> st = (n, u + k)"
  by (auto simp: json_grow_def)

lemma json_text_Inr: "json_text l s (n, u) = Inr st \<longleftrightarrow> u + quoted_length s \<le> json_bytes l \<and> st = (n, u + quoted_length s)"
  by (auto simp: json_text_exact)

lemma value_count_positive: "0 < value_count v"
  by (cases v) auto

lemma int_sum_list: "int (sum_list (map f xs)) = sum_list (map (\<lambda>x. int (f x)) xs)"
  by (induction xs) auto

lemma visits_array:
  assumes "\<And>x. x \<in> set xs \<Longrightarrow> visits h l x (Suc d)"
  shows "visits h l (JArr xs) d"
proof -
  have fold: "fold_result (\<lambda>x. json_visit h l x (Suc d)) xs (n, u) = Inr st \<longleftrightarrow>
      (\<forall>x\<in>set xs. canonical x \<and> nests_within (json_depth l) (Suc d) x)
      \<and> n + sum_list (map (\<lambda>x. int (value_count x)) xs) \<le> json_nodes l \<and> u + sum_list (map (value_bytes h) xs) \<le> json_bytes l
      \<and> st = (n + sum_list (map (\<lambda>x. int (value_count x)) xs), u + sum_list (map (value_bytes h) xs))"
    if "n \<le> json_nodes l" "u \<le> json_bytes l" for n u st
    by (rule fold_additive) (use assms that value_bytes_nonneg in \<open>auto simp: visits_def\<close>)
  have s: "0 \<le> sum_list (map (\<lambda>x. int (value_count x)) xs)" "0 \<le> sum_list (map (value_bytes h) xs)"
    by (auto intro!: sum_list_nonneg value_bytes_nonneg)
  show ?thesis
    unfolding visits_def
    by (subst json_visit.simps) (use s in \<open>auto simp: Let_def bind_result_Inr_iff json_grow_Inr fold int_sum_list add_ac\<close>)
qed

lemma visits_object:
  assumes "\<And>kv. kv \<in> set kvs \<Longrightarrow> visits h l (snd kv) (Suc d)"
  shows "visits h l (JObj kvs) d"
proof -
  let ?member = "\<lambda>kv t. bind_result (json_text l (fst kv) t) (\<lambda>t1. bind_result (json_grow l 1 t1) (json_visit h l (snd kv) (Suc d)))"
  let ?bytes = "\<lambda>kv. quoted_length (fst kv) + 1 + value_bytes h (snd kv)"
  have q: "0 \<le> quoted_length s" for s by (simp add: quoted_length_def)
  have member: "?member kv (n, u) = Inr st \<longleftrightarrow> (canonical (snd kv) \<and> nests_within (json_depth l) (Suc d) (snd kv))
      \<and> n + int (value_count (snd kv)) \<le> json_nodes l \<and> u + ?bytes kv \<le> json_bytes l
      \<and> st = (n + int (value_count (snd kv)), u + ?bytes kv)"
    if "kv \<in> set kvs" "n \<le> json_nodes l" for kv n u st
  proof -
    let ?u = "u + (quoted_length (fst kv) + 1)"
    have "?member kv (n, u) = Inr st \<longleftrightarrow> ?u \<le> json_bytes l \<and> json_visit h l (snd kv) (Suc d) (n, ?u) = Inr st"
      by (auto simp: bind_result_Inr_iff json_text_Inr json_grow_Inr add_ac)
    moreover have "json_visit h l (snd kv) (Suc d) (n, ?u) = Inr st \<longleftrightarrow>
        (canonical (snd kv) \<and> nests_within (json_depth l) (Suc d) (snd kv)) \<and> n + int (value_count (snd kv)) \<le> json_nodes l
        \<and> ?u + value_bytes h (snd kv) \<le> json_bytes l
        \<and> st = (n + int (value_count (snd kv)), ?u + value_bytes h (snd kv))" if "?u \<le> json_bytes l"
      using assms[OF \<open>kv \<in> set kvs\<close>] \<open>n \<le> json_nodes l\<close> that unfolding visits_def by blast
    ultimately show ?thesis using value_bytes_nonneg[of h "snd kv"] by (cases "?u \<le> json_bytes l") auto
  qed
  have fold: "fold_result ?member kvs (n, u) = Inr st \<longleftrightarrow>
      (\<forall>kv\<in>set kvs. canonical (snd kv) \<and> nests_within (json_depth l) (Suc d) (snd kv))
      \<and> n + sum_list (map (\<lambda>kv. int (value_count (snd kv))) kvs) \<le> json_nodes l \<and> u + sum_list (map ?bytes kvs) \<le> json_bytes l
      \<and> st = (n + sum_list (map (\<lambda>kv. int (value_count (snd kv))) kvs), u + sum_list (map ?bytes kvs))"
    if "n \<le> json_nodes l" "u \<le> json_bytes l" for n u st
    by (rule fold_additive) (use member that q value_bytes_nonneg in auto)
  have s: "0 \<le> sum_list (map (\<lambda>kv. int (value_count (snd kv))) kvs)" "0 \<le> sum_list (map ?bytes kvs)"
    using q by (auto intro!: sum_list_nonneg value_bytes_nonneg add_nonneg_nonneg)
  show ?thesis
    unfolding visits_def
    by (subst json_visit.simps) (use s in \<open>(auto simp: Let_def bind_result_Inr_iff json_grow_Inr fold int_sum_list add_ac; force)\<close>)
qed

lemma visits_all: "visits h l v d"
proof (induction v arbitrary: d)
  case (JArr xs)
  then show ?case by (blast intro: visits_array)
next
  case (JObj kvs)
  then show ?case by (intro visits_object) (meson prod_set_simps snds.intros)
qed (auto simp: visits_def json_visit.simps json_grow_Inr json_text_Inr value_count_positive)

lemma assert_json_walk:
  "0 \<le> json_nodes l \<Longrightarrow> 0 \<le> json_bytes l \<Longrightarrow>
   assert_json h v l = Inr () \<longleftrightarrow>
     canonical v \<and> int (value_count v) \<le> json_nodes l \<and> nests_within (json_depth l) 0 v \<and> value_bytes h v \<le> json_bytes l"
  using visits_all[of h l v 0, unfolded visits_def, rule_format, of 0 0] by (auto simp: assert_json_def bind_result_Inr_iff)

lemma stringify_length:
  assumes "\<And>n. is_finite_number n \<Longrightarrow> int (length (nt n)) = number_length h n"
  shows "canonical v \<Longrightarrow> int (length (json_stringify nt v)) = value_bytes h v"
proof (induction v)
  case (JArr xs)
  have "int (sum_list (map (length \<circ> json_stringify nt) xs)) = sum_list (map (value_bytes h) xs)"
    unfolding int_sum_list by (rule arg_cong[where f = sum_list]) (use JArr in auto)
  then show ?case by (simp add: joined_length int_ops max_def)
next
  case (JObj kvs)
  have "int (sum_list (map (length \<circ> (\<lambda>kv. quoted (fst kv) @ '':'' @ json_stringify nt (snd kv))) kvs))
      = sum_list (map (\<lambda>kv. quoted_length (fst kv) + 1 + value_bytes h (snd kv)) kvs)"
    unfolding int_sum_list
    by (rule arg_cong[where f = sum_list]) (use JObj in \<open>auto simp: quoted_length_def snds.simps\<close>)
  then show ?case by (simp add: joined_length int_ops max_def)
qed (auto simp: assms quoted_length_def)

text \<open>
  C14. The walk of \<open>assertJson\<close>, which never builds the text, accepts a value exactly when the value is
  canonical JSON of at most the given number of values, nested at most as deep as allowed, whose
  \<open>JSON.stringify\<close> text has at most the given number of UTF-8 bytes.
\<close>

theorem assert_json_exact:
  assumes "\<And>n. is_finite_number n \<Longrightarrow> int (length (number_text n)) = number_length h n"
    and "0 \<le> json_nodes l" "0 \<le> json_bytes l"
  shows "assert_json h v l = Inr () \<longleftrightarrow>
    canonical v \<and> int (value_count v) \<le> json_nodes l \<and> nests_within (json_depth l) 0 v
    \<and> int (length (json_stringify number_text v)) \<le> json_bytes l"
  using assert_json_walk[OF assms(2,3)] stringify_length[OF assms(1), of v] by auto

definition plain_number :: "jsnum \<Rightarrow> string" where
  "plain_number n = (case n of Whole i \<Rightarrow> (if i < 0 then ''-'' else []) @ decimal (nat \<bar>i\<bar>) | _ \<Rightarrow> ''0.5'')"

definition plain_host :: discovery_host where
  "plain_host = \<lparr>host_number = (\<lambda>n. length (plain_number n)), host_digest = (\<lambda>v. []), host_url = (\<lambda>s. None),
     host_ip = (\<lambda>s. 0), host_lower = (\<lambda>s. s)\<rparr>"

lemma plain_number_length: "int (length (plain_number n)) = number_length plain_host n"
  by (cases n) (auto simp: plain_number_def plain_host_def number_length_def)

theorem assert_json_exact_witness:
  "(assert_json plain_host (JObj [(''a'', JArr [JNull, JNum (Whole 1)])]) \<lparr>json_nodes = 4, json_depth = 2, json_bytes = 14\<rparr> = Inr ())
   \<and> assert_json plain_host (JObj [(''a'', JArr [JNull, JNum (Whole 1)])]) \<lparr>json_nodes = 4, json_depth = 2, json_bytes = 13\<rparr> \<noteq> Inr ()"
  by (simp add: assert_json_exact[of plain_number plain_host, OF plain_number_length] plain_number_def quoted_def
      trailing_bytes.simps byte_of_def quoted_code_point_def point_def Let_def decimal.simps)

subsection \<open>Snapshots are canonical\<close>

lemma canonical_json [simp]: "canonical (js_of_json v)"
  by (induction v) (auto simp: snds.simps)

lemma canonical_object [simp]: "canonical (js_object kvs)"
  by (simp add: js_object_def)

lemma canonical_int [simp]: "canonical (js_int n)" "canonical (js_nat k)" "canonical (js_strings xs)"
  by (simp_all add: js_int_def js_nat_def js_strings_def)

lemma canonical_nullable [simp]: "canonical (js_nullable f x) \<longleftrightarrow> (\<forall>y\<in>set_option x. canonical (f y))"
  by (cases x) (simp_all add: js_nullable_def)

lemma canonical_field [simp]: "(\<forall>kv\<in>set (js_field k f x). canonical (snd kv)) \<longleftrightarrow> (\<forall>y\<in>set_option x. canonical (f y))"
  by (cases x) (auto simp: js_field_def)

lemma canonical_qname [simp]: "canonical (js_of_qname q)"
  by (simp add: js_of_qname_def)

lemma canonical_attribute [simp]: "canonical (js_of_attribute a)"
  by (simp add: js_of_attribute_def ball_Un)

lemma canonical_node [simp]: "canonical (js_of_node n)"
  by (induction n) (auto simp: ball_Un)

lemma canonical_epr [simp]: "canonical (js_of_epr e)"
  by (simp add: js_of_epr_def)

lemma canonical_operation [simp]: "canonical (js_of_operation r)" "canonical (js_of_source s)"
  by (simp_all add: js_of_operation_def js_of_source_def)

lemma canonical_last [simp]: "(\<And>y. canonical (f y)) \<Longrightarrow> canonical (js_of_last f k)"
  by (simp add: js_of_last_def ball_Un)

lemma canonical_observation [simp]:
  assumes "\<And>y. canonical (f y)"
  shows "canonical (js_of_observation f x)"
  using assms by (cases "observed x") (simp_all add: js_of_observation_def ball_Un)

lemma canonical_message [simp]: "canonical (js_of_match m)" "canonical (js_of_sequence q)" "canonical (js_of_message x)"
  by (simp_all add: js_of_match_def js_of_sequence_def js_of_message_def)

lemma canonical_provenance [simp]: "canonical (js_of_provenance p)" "canonical (js_of_endpoint e)"
  by (simp_all add: js_of_provenance_def js_of_endpoint_def)

lemma canonical_evidence [simp]:
  "canonical (js_of_finding d)" "canonical (js_of_watermark w)" "canonical (js_of_claim c)" "canonical (js_of_information i)"
  "canonical (js_of_evidence e)" "canonical (js_of_registry r)"
  by (simp_all add: js_of_finding_def js_of_watermark_def js_of_claim_def js_of_information_def js_of_evidence_def
      js_of_registry_def ball_Un)

lemma canonical_reads [simp]:
  "canonical (js_of_service s)" "canonical (js_of_native n)" "canonical (js_of_resources r)" "canonical (js_of_read q)"
  "canonical (js_of_feature f)"
  by (simp_all add: js_of_service_def js_of_native_def js_of_resources_def js_of_read_def js_of_feature_def ball_Un)

lemma canonical_device [simp]: "canonical (js_of_device d)"
  by (simp add: js_of_device_def)

lemma canonical_snapshot [simp]: "canonical (js_of_seed s)" "canonical (js_of_snapshot v)"
  by (simp_all add: js_of_seed_def js_of_snapshot_def)

text \<open>A canonical value only ever fails for its size.\<close>

lemma fold_result_Inl:
  "fold_result f xs t = Inl e \<Longrightarrow> (\<And>x u e. x \<in> set xs \<Longrightarrow> f x u = Inl e \<Longrightarrow> good e) \<Longrightarrow> good e"
proof (induction xs arbitrary: t)
  case Nil
  then show ?case by simp
next
  case (Cons x xs)
  then show ?case by (cases "f x t") auto
qed

definition only_limits :: "discovery_host \<Rightarrow> json_limits \<Rightarrow> js \<Rightarrow> bool" where
  "only_limits h l v = (\<forall>d st e. json_visit h l v d st = Inl e \<longrightarrow> e = OnvifError XmlLimit NotSent)"

lemma json_grow_Inl: "json_grow l k st = Inl e \<Longrightarrow> e = OnvifError XmlLimit NotSent"
  by (auto simp: json_grow_def split: prod.splits if_splits)

lemma json_text_Inl: "json_text l s st = Inl e \<Longrightarrow> e = OnvifError XmlLimit NotSent"
  by (auto simp: json_text_def dest: json_grow_Inl split: if_splits)

lemma bind_result_Inl: "bind_result m f = Inl e \<longleftrightarrow> m = Inl e \<or> (\<exists>x. m = Inr x \<and> f x = Inl e)"
  by (cases m) auto

lemma only_limits_canonical: "canonical v \<Longrightarrow> only_limits h l v"
proof (induction v)
  case (JArr xs)
  have "e = OnvifError XmlLimit NotSent" if "fold_result (\<lambda>x. json_visit h l x (Suc d)) xs st = Inl e" for d st e
    by (rule fold_result_Inl[OF that]) (use JArr in \<open>auto simp: only_limits_def\<close>)
  then show ?case
    by (auto simp: only_limits_def json_visit.simps Let_def bind_result_Inl dest: json_grow_Inl split: if_splits)
next
  case (JObj kvs)
  have member: "only_limits h l (snd kv)" if "kv \<in> set kvs" for kv
    using JObj that by (auto simp: snds.simps)
  have "e = OnvifError XmlLimit NotSent"
    if "fold_result (\<lambda>kv t. bind_result (json_text l (fst kv) t) (\<lambda>t1. bind_result (json_grow l 1 t1)
      (json_visit h l (snd kv) (Suc d)))) kvs st = Inl e" for d st e
    by (rule fold_result_Inl[OF that])
      (use member in \<open>auto simp: only_limits_def bind_result_Inl dest: json_text_Inl json_grow_Inl\<close>)
  then show ?case
    by (auto simp: only_limits_def json_visit.simps Let_def bind_result_Inl dest: json_grow_Inl split: if_splits)
qed (auto simp: only_limits_def json_visit.simps Let_def dest: json_grow_Inl json_text_Inl split: if_splits)

text \<open>
  The JSON image of every inventory snapshot, whatever devices, seeds and findings it holds, is
  canonical: the size check an inventory makes before it publishes one either accepts it or reports
  \<open>XmlLimit\<close>, never an invalid value.
\<close>

theorem snapshot_only_exceeds_limits:
  "assert_json h (js_of_snapshot s) l = Inr () \<or> assert_json h (js_of_snapshot s) l = raise XmlLimit"
  using only_limits_canonical[of "js_of_snapshot s" h l]
  by (cases "json_visit h l (js_of_snapshot s) 0 (0, 0)") (auto simp: assert_json_def only_limits_def)

end
