(* ===== verification/Discovery_Protocol_Laws.thy ===== *)
theory Discovery_Protocol_Laws
  imports Discovery_Policy_Laws
begin

section \<open>The laws of the discovery protocol\<close>

text \<open>
  What an accepted announcement or response guarantees to the inventory, that the counters of the protocol
  are normalised to one text per number, and that scope matching orders the scopes.
\<close>

subsection \<open>Counters\<close>

lemma digit_value_digit:
  assumes "d < 10"
  shows "digit_value (char_of (48 + d)) = int d \<and> is_digit_char (char_of (48 + d))"
proof -
  have n: "of_char (char_of (48 + d)) = 48 + d" using assms by simp
  then have "(of_char (char_of (48 + d)) :: int) = 48 + int d" by (metis of_nat_of_char of_nat_add of_nat_numeral)
  with n assms show ?thesis by (simp add: digit_value_def is_digit_char_def)
qed

lemma digits_value_append: "digits_value (s @ [c]) = 10 * digits_value s + digit_value c"
  by (simp add: digits_value_def)

lemma digits_value_decimal: "digits_value (decimal n) = int n \<and> list_all is_digit_char (decimal n) \<and> decimal n \<noteq> []"
proof (induction n rule: decimal.induct)
  case (1 n)
  show ?case
  proof (cases "n < 10")
    case True
    then show ?thesis
      using digit_value_digit[of n] digits_value_append[of "[]"] by (simp add: decimal.simps[of n] digits_value_def)
  next
    case False
    moreover have "10 * int (n div 10) + int (n mod 10) = int n" by presburger
    ultimately show ?thesis
      using 1 digit_value_digit[of "n mod 10"] by (simp add: decimal.simps[of n] digits_value_append)
  qed
qed

lemma decimal_length: "n < 10 ^ k \<Longrightarrow> 0 < k \<Longrightarrow> length (decimal n) \<le> k"
proof (induction k arbitrary: n)
  case 0
  then show ?case by simp
next
  case (Suc k)
  show ?case
  proof (cases "n < 10")
    case True
    then show ?thesis by (simp add: decimal.simps[of n])
  next
    case False
    then have "0 < k" using Suc.prems by (cases k) auto
    moreover have "n div 10 < 10 ^ k" using Suc.prems by (simp add: less_mult_imp_div_less mult.commute)
    ultimately show ?thesis using Suc.IH[of "n div 10"] False by (simp add: decimal.simps[of n])
  qed
qed

lemma not_digit_plus: "\<not> is_digit_char (CHR ''+'')"
  by (simp add: is_digit_char_def)

lemma decimal_head: "counter_digits (decimal n) = decimal n"
proof (cases "decimal n")
  case (Cons c cs)
  then have "c \<noteq> CHR ''+''" using digits_value_decimal[of n] not_digit_plus by auto
  then show ?thesis by (simp add: Cons counter_digits_def)
qed (simp add: counter_digits_def)

lemma digits_value_nonneg: "list_all is_digit_char s \<Longrightarrow> 0 \<le> digits_value s"
proof (induction s rule: rev_induct)
  case Nil
  then show ?case by (simp add: digits_value_def)
next
  case (snoc c s)
  then have "48 \<le> (of_char c :: nat)" by (simp add: is_digit_char_def)
  moreover have "(of_char c :: int) = int (of_char c :: nat)" by (rule of_nat_of_char[symmetric])
  ultimately have "0 \<le> digit_value c" by (simp only: digit_value_def)
  then show ?case using snoc by (simp add: digits_value_append)
qed

definition counter_text :: "string \<Rightarrow> bool" where
  "counter_text s = (\<exists>n \<le> 4294967295. s = decimal n)"

lemma protocol_counter_Inr:
  "protocol_counter s = Inr c \<longleftrightarrow>
     counter_digits s \<noteq> [] \<and> length (counter_digits s) \<le> 64 \<and> list_all is_digit_char (counter_digits s)
     \<and> digits_value (counter_digits s) \<le> 4294967295 \<and> c = decimal (nat (digits_value (counter_digits s)))"
  by (auto simp: protocol_counter_def Let_def)

lemma protocol_counter_text: "protocol_counter s = Inr c \<Longrightarrow> counter_text c"
  unfolding protocol_counter_Inr counter_text_def by (intro exI[of _ "nat (digits_value (counter_digits s))"]) (auto simp: nat_le_iff)

lemma protocol_counter_decimal: "n \<le> 4294967295 \<Longrightarrow> protocol_counter (decimal n) = Inr (decimal n)"
  using digits_value_decimal[of n] decimal_length[of n 10]
  by (simp add: protocol_counter_Inr decimal_head)

lemma counter_value: "protocol_counter s = Inr c \<Longrightarrow> digits_value c = digits_value (counter_digits s)"
  using digits_value_nonneg[of "counter_digits s"] digits_value_decimal[of "nat (digits_value (counter_digits s))"]
  by (simp add: protocol_counter_Inr)

text \<open>
  The counters of the protocol (instance identifiers, message numbers, metadata versions) are
  normalised: every accepted text gives the decimal text of its number, at most 4294967295 and without a
  sign or leading zeros; that text is accepted again and unchanged, and two texts give the same counter
  exactly when they are the same number.
\<close>

theorem protocol_counter_normal:
  assumes "protocol_counter s = Inr c" "protocol_counter t = Inr d"
  shows "protocol_counter c = Inr c \<and> digits_value c = digits_value (counter_digits s)
    \<and> (c = d \<longleftrightarrow> digits_value (counter_digits s) = digits_value (counter_digits t))"
proof -
  have "protocol_counter c = Inr c"
    using protocol_counter_text[OF assms(1)] protocol_counter_decimal by (auto simp: counter_text_def)
  moreover have "c = d \<longleftrightarrow> digits_value (counter_digits s) = digits_value (counter_digits t)"
    using assms(1,2)[unfolded protocol_counter_Inr] counter_value[OF assms(1)] counter_value[OF assms(2)] by metis
  ultimately show ?thesis using counter_value[OF assms(1)] by blast
qed

theorem protocol_counter_normal_witness:
  "protocol_counter ''7'' = Inr ''7'' \<and> digits_value ''7'' = digits_value (counter_digits ''+007'')"
  using protocol_counter_normal[of "''+007''" "''7''" "''7''" "''7''"]
  by (simp add: protocol_counter_def counter_digits_def digits_value_def digit_value_def is_digit_char_def decimal.simps char_of_eq_iff take_bit_eq_mod)

subsection \<open>Accepted messages\<close>

definition match_well_formed :: "announcement_kind \<Rightarrow> bounds \<Rightarrow> discovery_match \<Rightarrow> bool" where
  "match_well_formed k b m =
     (absolute_uri (epr_address (match_epr m))
      \<and> int (length (match_types m)) \<le> max_types b \<and> (\<forall>t\<in>set (match_types m). is_ncname (local_name t))
      \<and> int (length (match_scopes m)) \<le> max_scopes b \<and> (\<forall>x\<in>set (match_scopes m). absolute_uri x)
      \<and> int (length (match_xaddrs m)) \<le> max_xaddrs b \<and> (\<forall>x\<in>set (match_xaddrs m). absolute_uri x)
      \<and> (k \<noteq> Bye \<longrightarrow> match_metadata_version m \<noteq> None) \<and> (\<forall>v\<in>set_option (match_metadata_version m). counter_text v))"

definition sequence_well_formed :: "app_sequence \<Rightarrow> bool" where
  "sequence_well_formed s =
     (counter_text (instance_id s) \<and> counter_text (message_number s) \<and> (\<forall>i\<in>set_option (sequence_id s). uri_reference i))"

text \<open>What ties the kind of a message to its addressing: only responses are replies to the anonymous role.\<close>

definition addressing_well_formed :: "discovery_message \<Rightarrow> bool" where
  "addressing_well_formed m =
     ((\<forall>r\<in>set_option (msg_relates_to m). absolute_uri r)
      \<and> (if is_response (msg_kind m) then msg_relates_to m \<noteq> None \<and> msg_to m = anonymous_role
         else msg_to m = discovery_to \<and> (msg_relates_to m \<noteq> None \<longrightarrow> msg_kind m = Hello \<and> msg_proxy m)))"

definition message_well_formed :: "bounds \<Rightarrow> bool \<Rightarrow> discovery_message \<Rightarrow> bool" where
  "message_well_formed b allow_missing m =
     (absolute_uri (msg_id m) \<and> addressing_well_formed m
      \<and> int (length (msg_matches m)) \<le> max_matches b \<and> (\<forall>x\<in>set (msg_matches m). match_well_formed (msg_kind m) b x)
      \<and> (msg_kind m \<noteq> ProbeMatches \<longrightarrow> length (msg_matches m) = 1)
      \<and> (msg_proxy m \<longrightarrow> (\<forall>x\<in>set (msg_matches m). declares ''TargetService'' x))
      \<and> (allow_missing \<or> msg_sequence m \<noteq> None) \<and> (\<forall>s\<in>set_option (msg_sequence m). sequence_well_formed s))"

lemma uri_Inr [simp]: "uri s = Inr u \<longleftrightarrow> absolute_uri s \<and> u = s"
  by (auto simp: uri_def)

lemma text_list_Inr: "text_list n limit = Inr ws \<Longrightarrow> int (length ws) \<le> limit"
  by (auto simp: text_list_def bind_result_Inr_iff split: if_splits)

lemma map_uri_Inr: "map_result uri ws = Inr us \<Longrightarrow> us = ws \<and> (\<forall>u\<in>set us. absolute_uri u)"
  by (induction ws arbitrary: us) (auto simp: bind_result_Inr_iff)

lemma map_result_each: "map_result f xs = Inr ys \<Longrightarrow> (\<And>x y. f x = Inr y \<Longrightarrow> good y) \<Longrightarrow> y \<in> set ys \<Longrightarrow> good y"
  by (induction xs arbitrary: ys) (auto simp: bind_result_Inr_iff)

lemma parse_version_Inr: "parse_version n = Inr v \<Longrightarrow> (n \<noteq> None \<longrightarrow> v \<noteq> None) \<and> (\<forall>c\<in>set_option v. counter_text c)"
  by (auto simp: parse_version_def bind_result_Inr_iff dest: protocol_counter_text split: option.splits)

lemma one_needed: "one n ns name True = Inr r \<Longrightarrow> r \<noteq> None"
  by (auto simp: one_def split: list.splits if_splits)

lemma parse_endpoint_reference_Inr: "parse_endpoint_reference n = Inr e \<Longrightarrow> absolute_uri (epr_address e)"
  by (auto simp: parse_endpoint_reference_def bind_result_Inr_iff split: if_splits)

lemma parse_match_Inr:
  assumes "parse_match k b n = Inr m"
  shows "match_well_formed k b m"
proof -
  from assms obtain epr tn names ts sn texts ss meta xn addrs xs version where
    p: "bind_result (required n addressing_ns ''EndpointReference'') parse_endpoint_reference = Inr epr"
      "text_list tn (max_types b) = Inr names" "map_result (\<lambda>t. resolve_qname t (bindings_of tn)) names = Inr ts"
      "text_list sn (max_scopes b) = Inr texts" "map_result uri texts = Inr ss"
      "one n discovery_ns ''MetadataVersion'' (k \<noteq> Bye) = Inr meta"
      "text_list xn (max_xaddrs b) = Inr addrs" "map_result uri addrs = Inr xs" "parse_version meta = Inr version"
    and m: "match_epr m = epr" "match_types m = ts" "match_scopes m = ss" "match_xaddrs m = xs" "match_metadata_version m = version"
    by (auto simp: parse_match_def bind_result_Inr_iff)
  have "is_ncname (local_name t)" if "t \<in> set ts" for t
    by (rule map_result_each[OF p(3) _ that]) (rule resolve_qname_Inr(1))
  moreover have "absolute_uri (epr_address epr)"
    using p(1) by (auto simp: bind_result_Inr_iff dest: parse_endpoint_reference_Inr)
  moreover have "k \<noteq> Bye \<longrightarrow> version \<noteq> None" "\<forall>v\<in>set_option version. counter_text v"
    using parse_version_Inr[OF p(9)] p(6) one_needed[of n discovery_ns "''MetadataVersion''" meta] by auto
  ultimately show ?thesis
    using text_list_Inr[OF p(2)] map_result_length[OF p(3)] text_list_Inr[OF p(4)] map_uri_Inr[OF p(5)]
      text_list_Inr[OF p(7)] map_uri_Inr[OF p(8)]
    by (simp add: match_well_formed_def m)
qed

lemma parse_sequence_Inr:
  assumes "parse_sequence n allow = Inr s"
  shows "(allow \<or> s \<noteq> None) \<and> (\<forall>x\<in>set_option s. sequence_well_formed x)"
proof -
  obtain found where f: "one n discovery_ns ''AppSequence'' False = Inr found"
    using assms by (auto simp: parse_sequence_def bind_result_Inr_iff)
  show ?thesis
  proof (cases found)
    case None
    then show ?thesis using assms f by (auto simp: parse_sequence_def split: if_splits)
  next
    case (Some x)
    then obtain i m where a: "attribute x ''InstanceId'' = Some i" "attribute x ''MessageNumber'' = Some m"
      using assms f by (cases "attribute x ''InstanceId''"; cases "attribute x ''MessageNumber''") (auto simp: parse_sequence_def)
    then have ids: "\<forall>q\<in>set_option (attribute x ''SequenceId''). uri_reference q"
      using assms f Some by (auto simp: parse_sequence_def split: if_splits)
    then obtain c d where "protocol_counter i = Inr c" "protocol_counter m = Inr d"
        "s = Some \<lparr>instance_id = c, sequence_id = attribute x ''SequenceId'', message_number = d\<rparr>"
      using assms f Some a by (auto simp: parse_sequence_def bind_result_Inr_iff split: if_splits)
    then show ?thesis using ids by (simp add: sequence_well_formed_def protocol_counter_text)
  qed
qed

lemma match_entries_Inr: "match_entries k n = Inr ns \<Longrightarrow> k \<noteq> ProbeMatches \<longrightarrow> length ns = 1"
  by (cases k) (auto simp: match_entries_def bind_result_Inr_iff split: if_splits)

lemma addressing_ok_well_formed:
  assumes "addressing_ok (msg_kind m) (msg_relates_to m) (msg_to m) suppression (msg_proxy m)"
    "\<forall>r\<in>set_option (msg_relates_to m). absolute_uri r"
  shows "addressing_well_formed m"
  using assms by (auto simp: addressing_ok_def addressing_well_formed_def)

lemma parse_content_Inr:
  assumes "parse_content h b allow head k content = Inr m"
  shows "msg_kind m = k" "message_well_formed b allow m" "assert_json h (js_of_message m) (message_limits b) = Inr ()"
proof -
  from assms obtain mid dest reply relates suppression entries ms seq where
    p: "bind_result (value_of head addressing_ns ''MessageID'') uri = Inr mid"
      "(case reply of None \<Rightarrow> Inr None
        | Some r \<Rightarrow> bind_result (text_content r) (\<lambda>s. bind_result (uri (trim s)) (\<lambda>u. Inr (Some u)))) = Inr relates"
      "match_entries k content = Inr entries" "int (length entries) \<le> max_matches b"
      "map_result (parse_match k b) entries = Inr ms"
      "addressing_ok k relates dest suppression (list_ex (declares ''DiscoveryProxy'') ms)"
      "list_ex (declares ''DiscoveryProxy'') ms \<longrightarrow> \<not> list_ex (\<lambda>m. \<not> declares ''TargetService'' m) ms"
      "parse_sequence head allow = Inr seq" "assert_json h (js_of_message m) (message_limits b) = Inr ()"
    and m: "m = \<lparr>msg_kind = k, msg_id = mid, msg_relates_to = relates, msg_to = dest, msg_sequence = seq, msg_matches = ms,
        msg_proxy = list_ex (declares ''DiscoveryProxy'') ms\<rparr>"
    by (auto simp: parse_content_def bind_result_Inr_iff Let_def split: if_splits)
  show "msg_kind m = k" by (simp add: m)
  show "assert_json h (js_of_message m) (message_limits b) = Inr ()" by (rule p(9))
  have "match_well_formed k b x" if "x \<in> set ms" for x
    by (rule map_result_each[OF p(5) _ that]) (rule parse_match_Inr)
  moreover have "\<forall>r\<in>set_option relates. absolute_uri r"
    using p(2) by (auto simp: bind_result_Inr_iff split: option.splits)
  then have "addressing_well_formed m"
    using p(6) by (intro addressing_ok_well_formed[of m suppression]) (simp_all add: m)
  ultimately show "message_well_formed b allow m"
    using p(1,4,7) parse_sequence_Inr[OF p(8)] match_entries_Inr[OF p(3)] map_result_length[OF p(5)]
    by (auto simp: message_well_formed_def m bind_result_Inr_iff list_ex_iff)
qed

text \<open>
  C15. Whatever element tree a datagram holds, a message that is accepted from it is well formed: its
  identifiers and addresses are absolute URIs, no list exceeds its bound, type names are NCNames, the
  counters are normalised numbers, only responses are replies to the anonymous role, only the Hello of a
  discovery proxy relates to a request, a missing sequence is accepted only under the policy that allows
  it, and the message fits the canonical JSON bound of its configuration.
\<close>

theorem accepted_message_well_formed:
  assumes "parse_discovery h b allow_missing doc = Inr m"
  shows "message_well_formed b allow_missing m \<and> assert_json h (js_of_message m) (message_limits b) = Inr ()"
  using assms parse_content_Inr[of h b allow_missing _ _ _ m]
  by (auto simp: parse_discovery_def bind_result_Inr_iff split: if_splits option.splits)

definition plain_element :: "string \<Rightarrow> string \<Rightarrow> xml_node list \<Rightarrow> xml_node" where
  "plain_element ns name cs = Xml_Element \<lparr>namespace = ns, local_name = name\<rparr> None [] [] cs"

lemma plain_element_simps [simp]:
  "is_element (plain_element ns name cs)" "children_of (plain_element ns name cs) = cs"
  "el_attributes (plain_element ns name cs) = []" "el_namespaces (plain_element ns name cs) = []"
  "named ns' name' (plain_element ns name cs) \<longleftrightarrow> ns' = ns \<and> name' = name"
  by (auto simp: plain_element_def named_def)

abbreviation bye_action :: string where "bye_action \<equiv> ''http://schemas.xmlsoap.org/ws/2005/04/discovery/Bye''"

definition bye_document :: xml_node where
  "bye_document = plain_element soap_ns ''Envelope''
     [plain_element soap_ns ''Header''
        [plain_element addressing_ns ''Action'' [Xml_Text bye_action],
         plain_element addressing_ns ''MessageID'' [Xml_Text ''urn:m''],
         plain_element addressing_ns ''To'' [Xml_Text discovery_to]],
      plain_element soap_ns ''Body''
        [plain_element discovery_ns ''Bye''
           [plain_element addressing_ns ''EndpointReference'' [plain_element addressing_ns ''Address'' [Xml_Text ''urn:e'']]]]]"

definition small_bounds :: bounds where
  "small_bounds = \<lparr>max_devices = 64, max_datagram_bytes = 4096, max_datagrams_per_round = 64, max_pending_requests = 64,
     max_message_ids = 64, max_sequence_ids = 16, max_xaddrs = 16, max_provenance = 32, max_diagnostics = 64, max_scopes = 64,
     max_types = 16, max_matches = 32, max_concurrent_inspections = 4, max_queued_inspections = 64, max_services = 32,
     max_requests_per_inspection = 48, max_pages = 4, max_resources = 64, max_read_bytes = 65536, max_inspection_bytes = 65536,
     max_store_bytes = 65536\<rparr>"

lemmas text_eval = trailing_bytes.simps byte_of_def point_def folded_class_def folded_letter_def is_alpha_char_def
  is_upper_char_def is_lower_char_def is_digit_char_def Let_def

lemmas document_eval = one_def required_def value_of_def child_elements_def text_content_def uri_def

lemma bye_texts:
  "absolute_uri ''urn:m''" "absolute_uri ''urn:e''" "absolute_uri discovery_to"
  by (simp_all add: absolute_uri_def uri_reference_def utf16_units_def text_eval)

lemma bye_trimmed:
  "trim ''urn:m'' = ''urn:m''" "trim ''urn:e'' = ''urn:e''" "trim discovery_to = discovery_to"
  "trim bye_action = bye_action"
  by (simp_all add: trim_def js_space_def text_eval)

lemma bye_kind: "action_kind bye_action = Some Bye"
  by (simp add: action_kind_def)

definition bye_match :: discovery_match where
  "bye_match = \<lparr>match_epr = \<lparr>epr_address = ''urn:e'', reference_properties = [], reference_parameters = []\<rparr>, match_types = [],
     match_scopes = [], scope_match_by = None, match_xaddrs = [], match_metadata_version = None\<rparr>"

definition bye_message :: discovery_message where
  "bye_message = \<lparr>msg_kind = Bye, msg_id = ''urn:m'', msg_relates_to = None, msg_to = discovery_to, msg_sequence = None,
     msg_matches = [bye_match], msg_proxy = False\<rparr>"

lemma bye_match_parsed:
  "parse_match Bye small_bounds (plain_element discovery_ns ''Bye''
     [plain_element addressing_ns ''EndpointReference'' [plain_element addressing_ns ''Address'' [Xml_Text ''urn:e'']]])
   = Inr bye_match"
  by (simp add: parse_match_def document_eval parse_endpoint_reference_def bye_texts bye_trimmed text_list_def small_bounds_def
      elements_under_def parse_version_def bye_match_def)

lemma bye_fits: "assert_json plain_host (js_of_message bye_message) (message_limits small_bounds) = Inr ()"
  by (simp add: assert_json_walk quoted_length_def bye_message_def bye_match_def
      js_of_message_def js_of_match_def js_of_epr_def js_nullable_def js_strings_def message_limits_def small_bounds_def
      quoted_def quoted_code_point_def text_eval)

lemma bye_content:
  "parse_content plain_host small_bounds True
     (plain_element soap_ns ''Header''
        [plain_element addressing_ns ''Action'' [Xml_Text bye_action],
         plain_element addressing_ns ''MessageID'' [Xml_Text ''urn:m''],
         plain_element addressing_ns ''To'' [Xml_Text discovery_to]]) Bye
     (plain_element discovery_ns ''Bye''
        [plain_element addressing_ns ''EndpointReference'' [plain_element addressing_ns ''Address'' [Xml_Text ''urn:e'']]])
   = Inr bye_message"
proof -
  have parts: "match_types bye_match = []" "max_matches small_bounds = 32"
    by (simp_all add: bye_match_def small_bounds_def)
  show ?thesis
    by (simp add: parse_content_def document_eval bye_texts bye_trimmed suppresses_def match_entries_def bye_match_parsed
        addressing_ok_def is_response_def declares_def parse_sequence_def parts Let_def bye_fits[unfolded bye_message_def]
        bye_message_def)
qed

lemma bye_accepted: "parse_discovery plain_host small_bounds True bye_document = Inr bye_message"
  using bye_content
  by (simp add: parse_discovery_def bye_document_def document_eval bye_trimmed bye_kind)

theorem accepted_message_well_formed_witness:
  "message_well_formed small_bounds True bye_message"
  using accepted_message_well_formed[OF bye_accepted] by simp

end
