(* ===== verification/Security_Policy.thy ===== *)
theory Security_Policy
  imports Js_Values Media_Policy Discovery_Policy
begin

section \<open>The security policy of native requests\<close>

text \<open>
  \<open>security/policy.ts\<close>: the selection of the security schemes of a form, the validation of the trust
  policy, the authorisation of targets, and the scope of credentials. The WHATWG URL parser and the
  provider of credentials are parameters. A function among the values of unknown type is
  \<open>JHost ''Function''\<close>, a \<open>Buffer\<close> is \<open>JBytes\<close>.
\<close>

subsection \<open>Values\<close>

definition is_function :: "js \<Rightarrow> bool" where
  "is_function v = (v = JHost ''Function'')"

definition is_object :: "js \<Rightarrow> bool" where
  "is_object v = (is_record v \<and> \<not> is_function v)"

definition truthy :: "js \<Rightarrow> bool" where
  "truthy v = (v \<notin> {JUndefined, JNull, JBool False, JNum (Whole 0), JNum NaN, JBig 0, JStr []})"

text \<open>\<open>Object.entries\<close>.\<close>

fun entries_of :: "js \<Rightarrow> (string \<times> js) list" where
  "entries_of (JObj kvs) = kvs"
| "entries_of (JBytes bs) = map (\<lambda>i. (decimal i, JNum (Whole (uint (bs ! i))))) [0..<length bs]"
| "entries_of _ = []"

text \<open>
  Indexing a plain object by a name: its own property, or what it inherits from \<open>Object.prototype\<close>,
  whose members are functions and, under \<open>__proto__\<close>, the prototype itself, an object without
  enumerable properties.
\<close>

definition prototype_functions :: "string list" where
  "prototype_functions =
     [''constructor'', ''__defineGetter__'', ''__defineSetter__'', ''hasOwnProperty'', ''__lookupGetter__'',
      ''__lookupSetter__'', ''isPrototypeOf'', ''propertyIsEnumerable'', ''toString'', ''valueOf'', ''toLocaleString'']"

definition member_of :: "(string \<times> js) list \<Rightarrow> string \<Rightarrow> js" where
  "member_of kvs k =
     (case map_of kvs k of
        Some v \<Rightarrow> v
      | None \<Rightarrow> if k = ''__proto__'' then JObj [] else if k \<in> set prototype_functions then JHost ''Function'' else JUndefined)"

subsection \<open>Security schemes\<close>

record security_context =
  thing_id :: string
  principal :: string
  definitions :: "(string \<times> js) list"
  default_security :: "string list"

abbreviation username_token_scheme :: string where "username_token_scheme \<equiv> ''onvif:UsernameTokenSecurityScheme''"
abbreviation mutual_tls_scheme :: string where "mutual_tls_scheme \<equiv> ''onvif:MutualTlsSecurityScheme''"

fun scheme_name :: "js \<Rightarrow> string result" where
  "scheme_name (JStr s) = (if s = [] then raise InvalidSecurity else Inr s)"
| "scheme_name _ = raise InvalidSecurity"

definition security_names :: "js \<Rightarrow> string list result" where
  "security_names v =
     (let names = (case v of JStr s \<Rightarrow> [v] | JArr xs \<Rightarrow> xs | _ \<Rightarrow> []) in
      if names = [] then raise InvalidSecurity else map_result scheme_name names)"

type_synonym selection = "(string \<times> js) list"

text \<open>
  \<open>visit\<close>: a combination is replaced by its parts, any other scheme is selected. \<open>structuredClone\<close>
  refuses a function, which only an inherited name can give.
\<close>

function visit_scheme :: "(string \<times> js) list \<Rightarrow> string list \<Rightarrow> string \<Rightarrow> selection \<Rightarrow> selection result" where
  "visit_scheme defs ancestors name selected =
     (if name \<in> set ancestors then raise InvalidSecurity
      else
        let d = member_of defs name in
        if \<not> truthy d then raise InvalidSecurity
        else if get d ''scheme'' = JStr ''combo'' then
          if get d ''oneOf'' \<noteq> JUndefined then raise UnsupportedCapability
          else bind_result (security_names (get d ''allOf'')) (\<lambda>parts.
            fold_result (visit_scheme defs (name # ancestors)) parts selected)
        else if is_function d then Inl HostError
        else Inr (selected @ [(name, d)]))"
  by pat_completeness auto
termination
proof (relation "measure (\<lambda>(defs, ancestors, name, selected). card (set (map fst defs) - set ancestors))", goal_cases)
  case 1
  show ?case by simp
next
  case (2 defs ancestors name selected d parts part sel)
  have "name \<in> set (map fst defs)"
  proof (rule ccontr)
    assume "name \<notin> set (map fst defs)"
    then have "map_of defs name = None" by (simp add: map_of_eq_None_iff)
    then show False using 2 by (auto simp: member_of_def split: if_splits)
  qed
  then have "set (map fst defs) - set (name # ancestors) \<subset> set (map fst defs) - set ancestors" using 2 by auto
  then show ?case using psubset_card_mono[of "set (map fst defs) - set ancestors"] by simp
qed

declare visit_scheme.simps [simp del]

definition scheme_of :: "string \<times> js \<Rightarrow> js" where
  "scheme_of entry = get (snd entry) ''scheme''"

definition native_schemes :: "js list" where
  "native_schemes = map JStr [''nosec'', ''digest'', ''cert'', mutual_tls_scheme, username_token_scheme]"

definition identity_schemes :: "js list" where
  "identity_schemes = map JStr [''cert'', mutual_tls_scheme]"

definition check_selection :: "bool \<Rightarrow> selection \<Rightarrow> selection result" where
  "check_selection native selected =
     (let schemes = map scheme_of selected in
      if \<not> distinct schemes \<or> JStr ''nosec'' \<in> set schemes \<and> length schemes > 1 then raise InvalidSecurity
      else if native \<and> list_ex (\<lambda>s. s \<notin> set native_schemes) schemes then raise UnsupportedCapability
      else if \<not> native \<and> length selected \<noteq> 1 then raise UnsupportedCapability
      else if length (filter (\<lambda>s. s \<in> set identity_schemes) schemes) > 1 then raise InvalidSecurity
      else if native \<and> list_ex (\<lambda>e. get (snd e) ''proxy'' \<noteq> JUndefined) selected then raise UnsupportedCapability
      else Inr selected)"

definition select_security :: "security_context \<Rightarrow> js \<Rightarrow> bool \<Rightarrow> selection result" where
  "select_security context form_security native =
     bind_result (if form_security = JUndefined then Inr (default_security context) else security_names form_security) (\<lambda>names.
     bind_result (fold_result (visit_scheme (definitions context) []) names []) (check_selection native))"

subsection \<open>The trust policy\<close>

record web_url = url_parts +
  web_origin :: string
  web_pathname :: string
  web_search :: string

type_synonym url_parser = "string \<Rightarrow> web_url option"

record trust_policy =
  policy_origins :: "string list"
  policy_targets :: "string list option"
  policy_principals :: "(string \<times> string list) list option"
  policy_authorizer :: bool
  policy_tls :: "js option"

fun target_url :: "url_parser \<Rightarrow> js \<Rightarrow> web_url result" where
  "target_url parse (JStr href) =
     (if list_ex (\<lambda>c. byte_of c \<le> 0x20 \<or> c = CHR 0x5C) href then raise PolicyDenied
      else case parse href of
          None \<Rightarrow> raise PolicyDenied
        | Some u \<Rightarrow>
            if url_protocol u \<notin> {''http:'', ''https:''} \<or> url_username u \<noteq> [] \<or> url_password u \<noteq> []
              \<or> url_hash u \<noteq> [] \<or> url_hostname u = []
            then raise PolicyDenied else Inr u)"
| "target_url parse _ = raise PolicyDenied"

definition policy_origin :: "url_parser \<Rightarrow> js \<Rightarrow> string result" where
  "policy_origin parse v =
     bind_result (target_url parse v) (\<lambda>u.
       if web_pathname u \<noteq> ''/'' \<or> web_search u \<noteq> [] then raise InvalidConfiguration else Inr (web_origin u))"

definition policy_target :: "url_parser \<Rightarrow> string list \<Rightarrow> js \<Rightarrow> string result" where
  "policy_target parse origins v =
     bind_result (target_url parse v) (\<lambda>u.
       if web_origin u \<notin> set origins then raise InvalidConfiguration else Inr (url_href u))"

definition target_list :: "url_parser \<Rightarrow> string list \<Rightarrow> js \<Rightarrow> string list result" where
  "target_list parse origins v =
     (case v of
        JArr xs \<Rightarrow> if xs = [] \<or> length xs > 4096 then raise InvalidConfiguration else map_result (policy_target parse origins) xs
      | _ \<Rightarrow> raise InvalidConfiguration)"

definition principal_entry :: "url_parser \<Rightarrow> string list \<Rightarrow> string \<times> js \<Rightarrow> (string \<times> string list) result" where
  "principal_entry parse origins entry =
     (if fst entry = [] then raise InvalidConfiguration
      else bind_result (target_list parse origins (snd entry)) (\<lambda>ts. Inr (fst entry, ts)))"

definition check_tls :: "js \<Rightarrow> js option result" where
  "check_tls tls =
     (if tls = JUndefined then Inr None
      else if \<not> is_object tls \<or> \<not> set (own_keys tls) \<subseteq> {''ca'', ''cert'', ''key'', ''passphrase'', ''minVersion''}
        \<or> get tls ''minVersion'' \<notin> {JUndefined, JStr ''TLSv1.2'', JStr ''TLSv1.3''}
      then raise InvalidConfiguration
      else if (get tls ''cert'' = JUndefined) \<noteq> (get tls ''key'' = JUndefined) then raise InvalidConfiguration
      else Inr (Some (JObj (entries_of tls))))"

definition principal_policy :: "url_parser \<Rightarrow> string list \<Rightarrow> js \<Rightarrow> (string \<times> string list) list option result" where
  "principal_policy parse origins v =
     (if v = JUndefined then Inr None
      else if \<not> is_object v \<or> length (own_keys v) > 256 then raise InvalidConfiguration
      else bind_result (map_result (principal_entry parse origins) (entries_of v)) (\<lambda>ps. Inr (Some ps)))"

definition validate_trust :: "url_parser \<Rightarrow> js \<Rightarrow> trust_policy result" where
  "validate_trust parse trust =
     (case get trust ''allowedOrigins'' of
        JArr xs \<Rightarrow>
          if \<not> is_object trust \<or> xs = [] then raise InvalidConfiguration
          else if \<not> set (own_keys trust)
              \<subseteq> {''allowedOrigins'', ''allowedTargets'', ''principalTargets'', ''authorizeLogicalEndpoint'', ''tls''}
          then raise InvalidConfiguration
          else if get trust ''authorizeLogicalEndpoint'' \<noteq> JUndefined \<and> \<not> is_function (get trust ''authorizeLogicalEndpoint'')
          then raise InvalidConfiguration
          else
            bind_result (map_result (policy_origin parse) xs) (\<lambda>origins.
            bind_result (check_tls (get trust ''tls'')) (\<lambda>tls.
            bind_result (principal_policy parse origins (get trust ''principalTargets'')) (\<lambda>principals.
            bind_result (if get trust ''allowedTargets'' = JUndefined then Inr None
              else bind_result (target_list parse origins (get trust ''allowedTargets'')) (\<lambda>ts. Inr (Some ts))) (\<lambda>targets.
              Inr \<lparr>policy_origins = origins, policy_targets = targets, policy_principals = principals,
                   policy_authorizer = (get trust ''authorizeLogicalEndpoint'' \<noteq> JUndefined), policy_tls = tls\<rparr>))))
      | _ \<Rightarrow> raise InvalidConfiguration)"

definition authorize_target :: "url_parser \<Rightarrow> js \<Rightarrow> trust_policy \<Rightarrow> string option \<Rightarrow> web_url result" where
  "authorize_target parse href trust who =
     bind_result (target_url parse href) (\<lambda>u.
       if web_origin u \<notin> set (policy_origins trust) then raise PolicyDenied
       else if (case policy_targets trust of None \<Rightarrow> False | Some ts \<Rightarrow> url_href u \<notin> set ts) then raise PolicyDenied
       else if (case policy_principals trust of
           None \<Rightarrow> False
         | Some ps \<Rightarrow> \<not> (\<exists>p\<in>set_option who. \<exists>ts\<in>set_option (map_of ps p). url_href u \<in> set ts))
       then raise PolicyDenied
       else Inr u)"

subsection \<open>Credentials\<close>

record credential_scope =
  cred_thing :: string
  cred_principal :: string
  cred_href :: string
  cred_origin :: string
  cred_security :: string
  cred_scheme :: js
  cred_realm :: "string option"

definition key_material :: "js \<Rightarrow> bool" where
  "key_material v = (case v of JStr s \<Rightarrow> s \<noteq> [] | JBytes bs \<Rightarrow> bs \<noteq> [] | _ \<Rightarrow> False)"

definition material_ok :: "js \<Rightarrow> bool" where
  "material_ok m =
     (is_object m \<and> get m ''kind'' \<in> {JStr ''password'', JStr ''http'', JStr ''tls''}
      \<and> (get m ''kind'' = JStr ''password'' \<longrightarrow> is_string (get m ''username'') \<and> is_string (get m ''password''))
      \<and> (get m ''kind'' = JStr ''tls'' \<longrightarrow> key_material (get m ''cert'') \<and> key_material (get m ''key'')
           \<and> (get m ''passphrase'' = JUndefined \<or> is_string (get m ''passphrase''))))"

definition credential_for ::
    "(credential_scope \<Rightarrow> js result) option \<Rightarrow> security_context \<Rightarrow> web_url \<Rightarrow> string \<times> js \<Rightarrow> string option \<Rightarrow> js result" where
  "credential_for provider context target selection realm =
     (case provider of
        None \<Rightarrow> Inl (OnvifError AuthenticationFailed Rejected)
      | Some provide \<Rightarrow>
          bind_result (provide \<lparr>cred_thing = thing_id context, cred_principal = principal context, cred_href = url_href target,
              cred_origin = web_origin target, cred_security = fst selection, cred_scheme = scheme_of selection,
              cred_realm = realm\<rparr>) (\<lambda>credential.
            if credential = JUndefined then Inl (OnvifError AuthenticationFailed Rejected)
            else if credential = JNull then Inl HostError
            else if get credential ''origin'' \<noteq> JStr (web_origin target) \<or> get credential ''principal'' \<noteq> JStr (principal context)
              \<or> (\<exists>r\<in>set_option realm. get credential ''realm'' \<noteq> JStr r)
            then Inl (OnvifError PolicyDenied Rejected)
            else if \<not> material_ok (get credential ''material'') then raise InvalidSecurity
            else Inr (get credential ''material'')))"

end
