(* ===== verification/Xml_Serializer.thy ===== *)
theory Xml_Serializer
  imports Discovery_Json Security_Policy "HOL-Library.AList"
begin

section \<open>The XML serialiser\<close>

text \<open>
  \<open>xml/parser.ts\<close> without the parser itself (a third-party one): the limits, the check of an element of
  unknown type, and \<open>serializeXml\<close>, with the check of \<open>xml:id\<close> attributes of \<open>xml/identity.ts\<close>.
\<close>

abbreviation XML_NS :: string where "XML_NS \<equiv> ''http://www.w3.org/XML/1998/namespace''"
abbreviation XMLNS_NS :: string where "XMLNS_NS \<equiv> ''http://www.w3.org/2000/xmlns/''"

abbreviation qn :: "string \<Rightarrow> string \<Rightarrow> qname" where
  "qn ns l \<equiv> \<lparr>namespace = ns, local_name = l\<rparr>"

subsection \<open>Limits\<close>

record xml_limits =
  xml_bytes :: int
  xml_depth :: int
  xml_nodes :: int
  xml_attributes :: int

definition default_xml_limits :: "(string \<times> int) list" where
  "default_xml_limits = [(''maxBytes'', 1024 * 1024), (''maxDepth'', 64), (''maxNodes'', 20000), (''maxAttributes'', 128)]"

text \<open>\<open>{ ...DEFAULT_XML_LIMITS, ...options }\<close>: an own option wins, also when it is undefined.\<close>

definition limit_option :: "js \<Rightarrow> string \<Rightarrow> js" where
  "limit_option options k =
     (if k \<in> set (own_keys options) then get options k
      else case map_of default_xml_limits k of Some n \<Rightarrow> JNum (Whole n) | None \<Rightarrow> JUndefined)"

definition xml_limits_of :: "js \<Rightarrow> xml_limits result" where
  "xml_limits_of options =
     (if \<not> is_object options \<or> \<not> set (own_keys options) \<subseteq> set (map fst default_xml_limits) then raise InvalidConfiguration
      else
        bind_result (positive_integer_js (limit_option options ''maxBytes'') (16 * 1024 * 1024)) (\<lambda>bytes.
        bind_result (positive_integer_js (limit_option options ''maxDepth'') 64) (\<lambda>depth.
        bind_result (positive_integer_js (limit_option options ''maxNodes'') 20000) (\<lambda>nodes.
        bind_result (positive_integer_js (limit_option options ''maxAttributes'') 128) (\<lambda>attributes.
          Inr \<lparr>xml_bytes = bytes, xml_depth = depth, xml_nodes = nodes, xml_attributes = attributes\<rparr>)))))"

subsection \<open>Elements of unknown type\<close>

definition is_ncname_js :: "js \<Rightarrow> bool" where
  "is_ncname_js v = (case v of JStr s \<Rightarrow> is_ncname s | _ \<Rightarrow> False)"

definition is_qname_js :: "js \<Rightarrow> bool" where
  "is_qname_js v = (is_record v \<and> is_string (get v ''namespace'') \<and> is_ncname_js (get v ''localName'')
     \<and> set (own_keys v) \<subseteq> {''namespace'', ''localName''})"

definition prefix_ok :: "js \<Rightarrow> bool" where
  "prefix_ok v = (v = JUndefined \<or> v = JStr [] \<or> is_ncname_js v)"

definition attribute_ok :: "js \<Rightarrow> bool" where
  "attribute_ok a = (is_record a \<and> is_qname_js (get a ''name'') \<and> is_string (get a ''value'') \<and> prefix_ok (get a ''prefix''))"

text \<open>\<open>String(value) === s\<close> for a name \<open>s\<close>: the text itself, or a list of nothing else.\<close>

fun string_equals :: "js \<Rightarrow> string \<Rightarrow> bool" where
  "string_equals (JStr t) s = (t = s)"
| "string_equals (JArr [x]) s = string_equals x s"
| "string_equals _ s = False"

definition content_ok :: "js \<Rightarrow> bool" where
  "content_ok c = (list_ex (string_equals (get c ''kind'')) [''text'', ''comment'', ''processing-instruction'']
     \<and> is_string (get c ''value'')
     \<and> (get c ''kind'' = JStr ''processing-instruction'' \<longrightarrow> is_ncname_js (get c ''target'')))"

fun elements_of :: "js \<Rightarrow> js list" where
  "elements_of (JArr xs) = xs"
| "elements_of _ = []"

fun is_array :: "js \<Rightarrow> bool" where
  "is_array (JArr xs) = True"
| "is_array _ = False"

lemma elements_of_get_weight: "c \<in> set (elements_of (get v k)) \<Longrightarrow> json_weight c < json_weight v"
proof -
  assume c: "c \<in> set (elements_of (get v k))"
  then obtain kvs where kvs: "v = JObj kvs" "map_of kvs k = Some (get v k)" by (cases v) (auto split: option.splits)
  then have "get v k \<in> set (json_children v)" by (auto dest!: map_of_SomeD intro: rev_image_eqI)
  then have "json_weight (get v k) < json_weight v" by (rule json_child_weight)
  moreover have "c \<in> set (json_children (get v k))" using c by (cases "get v k") auto
  ultimately show ?thesis using json_child_weight[of c "get v k"] by simp
qed

function assert_xml_element :: "nat \<Rightarrow> js \<Rightarrow> unit result" where
  "assert_xml_element depth v =
     (if depth \<ge> 64 then raise XmlLimit
      else if \<not> is_record v \<or> get v ''kind'' \<noteq> JStr ''element'' \<or> \<not> is_qname_js (get v ''name'')
        \<or> \<not> is_record (get v ''namespaces'') \<or> \<not> is_array (get v ''attributes'') \<or> \<not> is_array (get v ''children'')
        \<or> \<not> prefix_ok (get v ''prefix'')
      then raise InvalidValue
      else if list_ex (\<lambda>b. \<not> is_string (snd b)) (entries_of (get v ''namespaces'')) then raise InvalidValue
      else if list_ex (\<lambda>a. \<not> attribute_ok a) (elements_of (get v ''attributes'')) then raise InvalidValue
      else bind_result (map_result (\<lambda>c.
          if \<not> is_record c then raise InvalidValue
          else if get c ''kind'' = JStr ''element'' then assert_xml_element (Suc depth) c
          else if content_ok c then Inr () else raise InvalidValue) (elements_of (get v ''children''))) (\<lambda>_. Inr ()))"
  by pat_completeness auto
termination by (relation "measure (json_weight \<circ> snd)") (auto dest: elements_of_get_weight)

declare assert_xml_element.simps [simp del]

subsection \<open>Identifiers\<close>

text \<open>The value of an \<open>xml:id\<close>: white space becomes single spaces, none at the ends.\<close>

fun single_spaces :: "string \<Rightarrow> string" where
  "single_spaces (a # b # s) = (if a = CHR '' '' \<and> b = CHR '' '' then single_spaces (b # s) else a # single_spaces (b # s))"
| "single_spaces s = s"

definition id_text :: "string \<Rightarrow> string" where
  "id_text s = single_spaces (trim (map (\<lambda>c. if c \<in> {CHR 0x09, CHR 0x0A, CHR 0x0D} then CHR '' '' else c) s))"

text \<open>
  \<open>addId\<close>: the same name on another attribute is a duplicate, and every attribute is visited once.
\<close>

definition add_id :: "xml_attribute \<Rightarrow> string list \<Rightarrow> string list result" where
  "add_id a ids =
     (if \<not> equal_qname (attr_name a) (qn XML_NS ''id'') then Inr ids
      else let i = id_text (attr_value a) in
        if \<not> is_ncname i \<or> i \<in> set ids then raise InvalidValue else Inr (ids @ [i]))"

fun visit_ids :: "xml_node \<Rightarrow> int \<times> string list \<Rightarrow> (int \<times> string list) result" where
  "visit_ids (Xml_Element q p ns attrs nodes) st =
     (if fst st + 1 > 2000000 then raise XmlLimit
      else bind_result (fold_result add_id attrs (snd st)) (\<lambda>ids. fold_result visit_ids nodes (fst st + 1, ids)))"
| "visit_ids _ st = Inr st"

definition validate_xml_ids :: "xml_node \<Rightarrow> unit result" where
  "validate_xml_ids n = bind_result (visit_ids n (0, [])) (\<lambda>_. Inr ())"

subsection \<open>Texts\<close>

definition xml_char :: "nat \<Rightarrow> bool" where
  "xml_char n = in_ranges [(9, 10), (13, 13), (0x20, 0xD7FF), (0xE000, 0xFFFD), (0x10000, 0x10FFFF)] n"

definition escape_char :: "bool \<Rightarrow> char \<Rightarrow> string" where
  "escape_char attribute c =
     (if c = CHR ''&'' then ''&amp;'' else if c = CHR ''<'' then ''&lt;'' else if c = CHR ''>'' then ''&gt;''
      else if c = CHR 0x0D then ''&#13;''
      else if attribute \<and> c = CHR 0x22 then ''&quot;''
      else if attribute \<and> c = CHR 0x0A then ''&#10;''
      else if attribute \<and> c = CHR 0x09 then ''&#9;''
      else [c])"

definition xml_escaped :: "bool \<Rightarrow> string \<Rightarrow> string result" where
  "xml_escaped attribute s =
     (if list_ex (\<lambda>p. \<not> xml_char (point p)) (code_points s) then raise InvalidXml
      else Inr (concat (map (escape_char attribute) s)))"

subsection \<open>Namespaces\<close>

text \<open>
  The namespaces in scope are a plain object, indexed by the prefix: a name of \<open>Object.prototype\<close> is found
  although it is not bound, and assigning \<open>__proto__\<close> has no effect unless it is an own property.
\<close>

datatype binding = Bound string | Inherited | Unbound

definition lookup_prefix :: "(string \<times> string) list \<Rightarrow> string \<Rightarrow> binding" where
  "lookup_prefix ns p =
     (case map_of ns p of
        Some v \<Rightarrow> Bound v
      | None \<Rightarrow> if p = ''__proto__'' \<or> p \<in> set prototype_functions then Inherited else Unbound)"

definition assign_prefix :: "string \<Rightarrow> string \<Rightarrow> (string \<times> string) list \<Rightarrow> (string \<times> string) list" where
  "assign_prefix p v ns = (if p = ''__proto__'' \<and> map_of ns p = None then ns else AList.update p v ns)"

text \<open>The namespaces and the declarations of the element at hand.\<close>

type_synonym bindings = "(string \<times> string) list \<times> (string \<times> string) list"

definition bind_prefix :: "(string \<times> string) list \<Rightarrow> string \<Rightarrow> string \<Rightarrow> bindings \<Rightarrow> bindings result" where
  "bind_prefix outer p v st =
     (if p \<noteq> [] \<and> \<not> is_ncname p \<or> p = ''xmlns'' \<or> v = XMLNS_NS \<or> (p = ''xml'') \<noteq> (v = XML_NS) \<or> p \<noteq> [] \<and> v = []
      then raise InvalidXml
      else Inr (assign_prefix p v (fst st),
        if (case lookup_prefix outer p of Bound w \<Rightarrow> v = w | Inherited \<Rightarrow> False | Unbound \<Rightarrow> p = [] \<and> v = [])
        then snd st else AList.update p v (snd st)))"

definition generated_prefix :: "nat \<Rightarrow> string" where
  "generated_prefix i = CHR ''n'' # decimal i"

text \<open>\<open>while (namespaces[`n${index}`] !== undefined) index++\<close>\<close>

fun free_index :: "nat \<Rightarrow> (string \<times> string) list \<Rightarrow> nat \<Rightarrow> nat" where
  "free_index 0 ns i = i"
| "free_index (Suc fuel) ns i = (if map_of ns (generated_prefix i) \<noteq> None then free_index fuel ns (Suc i) else i)"

definition known_prefix :: "(string \<times> string) list \<Rightarrow> (string \<times> string) list \<Rightarrow> string \<Rightarrow> bool \<Rightarrow> bindings
    \<Rightarrow> (string \<times> bindings) result" where
  "known_prefix outer own v attribute st =
     (if \<not> attribute \<and> lookup_prefix own [] = Unbound then bind_result (bind_prefix outer [] v st) (\<lambda>s. Inr ([], s))
      else case find (\<lambda>(p, w). (\<not> attribute \<or> p \<noteq> []) \<and> w = v) (fst st) of
          Some (p, _) \<Rightarrow> Inr (p, st)
        | None \<Rightarrow>
            let p = generated_prefix (free_index (Suc (length (fst st))) (fst st) 0)
            in bind_result (bind_prefix outer p v st) (\<lambda>s. Inr (p, s)))"

definition prefix_for :: "(string \<times> string) list \<Rightarrow> (string \<times> string) list \<Rightarrow> string \<Rightarrow> string option \<Rightarrow> bool \<Rightarrow> bindings
    \<Rightarrow> (string \<times> bindings) result" where
  "prefix_for outer own v preferred attribute st =
     (if v = [] then
        (if attribute then Inr ([], st) else bind_result (bind_prefix outer [] [] st) (\<lambda>s. Inr ([], s)))
      else if v = XML_NS then Inr (''xml'', st)
      else case preferred of
          Some p \<Rightarrow>
            if \<not> attribute \<or> p \<noteq> [] then
              (if lookup_prefix own p \<notin> {Unbound, Bound v} then raise InvalidXml
               else bind_result (bind_prefix outer p v st) (\<lambda>s. Inr (p, s)))
            else known_prefix outer own v attribute st
        | None \<Rightarrow> known_prefix outer own v attribute st)"

subsection \<open>Nodes\<close>

definition qualified_name :: "string \<Rightarrow> string \<Rightarrow> string" where
  "qualified_name p l = (if p \<noteq> [] then p @ '':'' @ l else l)"

definition xml_contains :: "string \<Rightarrow> string \<Rightarrow> bool" where
  "xml_contains p s = list_ex (\<lambda>i. starts_with p (drop i s)) [0..<Suc (length s)]"

text \<open>The number of nodes and the text so far.\<close>

type_synonym emission = "int \<times> string"

definition count_node :: "xml_limits \<Rightarrow> emission \<Rightarrow> emission result" where
  "count_node l st = (if fst st + 1 > xml_nodes l then raise XmlLimit else Inr (fst st + 1, snd st))"

definition emit_text :: "xml_limits \<Rightarrow> string \<Rightarrow> emission \<Rightarrow> emission result" where
  "emit_text l s st = (if int (length (snd st @ s)) > xml_bytes l then raise XmlLimit else Inr (fst st, snd st @ s))"

definition emit_declaration :: "xml_limits \<Rightarrow> string \<times> string \<Rightarrow> emission \<Rightarrow> emission result" where
  "emit_declaration l d st =
     bind_result (xml_escaped True (snd d)) (\<lambda>e.
       emit_text l ('' xmlns'' @ (if fst d \<noteq> [] then '':'' @ fst d else []) @ [CHR ''='', CHR 0x22] @ e @ [CHR 0x22]) st)"

text \<open>
  One attribute. The code compares expanded names by their JSON text, in which the fields stand in the order the
  object has them; a name here has its two fields in one order, the one the parser gives them (\<open>namespace\<close>, then
  \<open>localName\<close>), and for such names equal texts are equal names. Objects with another order of fields are no values
  of the model.
\<close>

definition attribute_text :: "(string \<times> string) list \<Rightarrow> (string \<times> string) list \<Rightarrow> xml_attribute
    \<Rightarrow> bindings \<times> qname list \<times> string list \<Rightarrow> (bindings \<times> qname list \<times> string list) result" where
  "attribute_text outer own a st =
     (case st of (b, seen, texts) \<Rightarrow>
        if \<not> is_ncname (local_name (attr_name a)) \<or> attr_name a \<in> set seen then raise InvalidXml
        else
          bind_result (prefix_for outer own (namespace (attr_name a)) (attr_prefix a) True b) (\<lambda>(p, b').
          bind_result (xml_escaped True (attr_value a)) (\<lambda>e.
            Inr (b', seen @ [attr_name a],
              texts @ ['' '' @ qualified_name p (local_name (attr_name a)) @ [CHR ''='', CHR 0x22] @ e @ [CHR 0x22]]))))"

definition own_bindings :: "(string \<times> string) list \<Rightarrow> (string \<times> string) list \<Rightarrow> bindings result" where
  "own_bindings outer own =
     fold_result (\<lambda>b. bind_prefix outer (fst b) (snd b)) own (fold (\<lambda>b. AList.update (fst b) (snd b)) own outer, [])"

fun serialize_node :: "xml_limits \<Rightarrow> (string \<times> string) list \<Rightarrow> int \<Rightarrow> xml_node \<Rightarrow> emission \<Rightarrow> emission result" where
  "serialize_node l outer depth (Xml_Element q p own attrs nodes) st0 =
     bind_result (count_node l st0) (\<lambda>st.
       if depth > xml_depth l then raise XmlLimit
       else if \<not> is_ncname (local_name q) then raise InvalidXml
       else
         bind_result (own_bindings outer own) (\<lambda>b0.
         bind_result (prefix_for outer own (namespace q) p False b0) (\<lambda>(pre, b1).
         bind_result (fold_result (attribute_text outer own) attrs (b1, [], [])) (\<lambda>(b, _, texts).
         let tag = qualified_name pre (local_name q) in
         if int (length texts + length (snd b)) > xml_attributes l then raise XmlLimit
         else
           bind_result (emit_text l (''<'' @ tag) st) (\<lambda>st1.
           bind_result (fold_result (emit_declaration l) (snd b) st1) (\<lambda>st2.
           bind_result (fold_result (emit_text l) texts st2) (\<lambda>st3.
             if nodes = [] then emit_text l ''/>'' st3
             else
               bind_result (emit_text l ''>'' st3) (\<lambda>st4.
               bind_result (fold_result (serialize_node l (fst b) (depth + 1)) nodes st4) (\<lambda>st5.
                 emit_text l (''</'' @ tag @ ''>'') st5)))))))))"
| "serialize_node l outer depth (Xml_Text s) st0 =
     bind_result (count_node l st0) (\<lambda>st. bind_result (xml_escaped False s) (\<lambda>e. emit_text l e st))"
| "serialize_node l outer depth (Xml_Comment s) st0 =
     bind_result (count_node l st0) (\<lambda>st.
       if xml_contains ''--'' s \<or> s \<noteq> [] \<and> last s = CHR ''-'' then raise InvalidXml
       else bind_result (xml_escaped False s) (\<lambda>_. emit_text l (''<!--'' @ s @ ''-->'') st))"
| "serialize_node l outer depth (Xml_Instruction t s) st0 =
     bind_result (count_node l st0) (\<lambda>st.
       if \<not> is_ncname t \<or> list_all2 (\<lambda>c cs. c \<in> set cs) t [''xX'', ''mM'', ''lL''] \<or> xml_contains ''?>'' s then raise InvalidXml
       else bind_result (xml_escaped False s) (\<lambda>_. emit_text l (''<?'' @ t @ (if s \<noteq> [] then '' '' @ s else []) @ ''?>'') st))"

definition serialize_xml :: "js \<Rightarrow> xml_node \<Rightarrow> string result" where
  "serialize_xml options n =
     bind_result (xml_limits_of options) (\<lambda>l.
     bind_result (assert_xml_element 0 (js_of_node n)) (\<lambda>_.
     bind_result (validate_xml_ids n) (\<lambda>_.
     bind_result (serialize_node l [(''xml'', XML_NS)] 1 n (0, [])) (\<lambda>st. Inr (snd st)))))"

end
