(* ===== verification/Binding_Soap.thy ===== *)
theory Binding_Soap
  imports Xml_Serializer
begin

section \<open>SOAP envelopes\<close>

text \<open>
  \<open>binding/soap.ts\<close> with the operation descriptors of \<open>binding/registry.ts\<close> it reads: endpoint references,
  the envelope of a request, and the payload or the fault of a response, as element trees. The XML parser
  is a parameter; so is \<open>decodeElement\<close>, which reads a value of a descriptor's type (the type
  parameter \<open>'t\<close>) off an element.
\<close>

subsection \<open>Operation descriptors\<close>

record 't element_descriptor =
  element_name :: qname
  element_type :: 't

record 't fault_descriptor =
  fault_name :: string
  fault_message :: qname
  fault_element :: "'t element_descriptor"
  fault_action :: "string option"
  fault_source :: string

datatype operation_access = Preauth | Read | Write | Actuate | Stateful | Unclassified

record execution_policy =
  one_way :: bool
  safe_operation :: bool
  idempotent_operation :: bool

record 't operation_descriptor = operation_reference +
  execution_of :: "execution_policy option"
  soap_action :: string
  addressing_action :: string
  response_action :: "string option"
  request_element :: "'t element_descriptor"
  response_element :: "'t element_descriptor option"
  operation_faults :: "'t fault_descriptor list"
  operation_access :: operation_access

subsection \<open>Elements\<close>

abbreviation SOAP_NS :: string where "SOAP_NS \<equiv> ''http://www.w3.org/2003/05/soap-envelope''"
abbreviation WSA_NS :: string where "WSA_NS \<equiv> ''http://www.w3.org/2005/08/addressing''"
abbreviation WSA_2004_NS :: string where "WSA_2004_NS \<equiv> ''http://schemas.xmlsoap.org/ws/2004/08/addressing''"
abbreviation WSSE_NS :: string where
  "WSSE_NS \<equiv> ''http://docs.oasis-open.org/wss/2004/01/oasis-200401-wss-wssecurity-secext-1.0.xsd''"
abbreviation raise_unknown :: "error_code \<Rightarrow> 'a result" where
  "raise_unknown c \<equiv> Inl (OnvifError c Unknown)"

definition has_qname :: "qname \<Rightarrow> xml_node \<Rightarrow> bool" where
  "has_qname q n = equal_qname (el_name n) q"

text \<open>\<open>one\<close>: the child of a name, which must not be there twice.\<close>

definition one_child :: "bool \<Rightarrow> xml_node \<Rightarrow> qname \<Rightarrow> xml_node option result" where
  "one_child needed parent q =
     (case filter (has_qname q) (child_elements parent) of
        [] \<Rightarrow> if needed then raise_unknown InvalidXml else Inr None
      | [n] \<Rightarrow> Inr (Some n)
      | _ \<Rightarrow> raise_unknown InvalidXml)"

definition required_child :: "xml_node \<Rightarrow> qname \<Rightarrow> xml_node result" where
  "required_child parent q =
     bind_result (one_child True parent q) (\<lambda>n. case n of None \<Rightarrow> raise_unknown InvalidXml | Some x \<Rightarrow> Inr x)"

lemma one_child_Some: "one_child needed parent q = Inr (Some n) \<longleftrightarrow> filter (has_qname q) (child_elements parent) = [n]"
  by (auto simp: one_child_def split: list.splits)

lemma one_child_None: "one_child needed parent q = Inr None \<longleftrightarrow> \<not> needed \<and> filter (has_qname q) (child_elements parent) = []"
  by (auto simp: one_child_def split: list.splits)

lemma required_child_Inr: "required_child parent q = Inr n \<longleftrightarrow> filter (has_qname q) (child_elements parent) = [n]"
  by (auto simp: required_child_def one_child_Some bind_result_Inr_iff split: option.splits)

lemma one_child_size: "one_child needed parent q = Inr (Some n) \<Longrightarrow> size n < size parent"
proof -
  assume "one_child needed parent q = Inr (Some n)"
  then have "n \<in> set (filter (has_qname q) (child_elements parent))" by (simp add: one_child_Some)
  then have "n \<in> set (children_of parent)" by (simp add: child_elements_def)
  then show "size n < size parent" by (cases parent) (auto dest: size_list_estimation'[where f = size, OF _ order_refl])
qed

subsection \<open>Endpoint references\<close>

record service_endpoint =
  service_address :: string
  service_parameters :: "xml_node list"
  service_properties :: "xml_node list"
  service_namespace :: string
  service_xml :: xml_node

definition stray_text :: "xml_node option \<Rightarrow> bool" where
  "stray_text container =
     (case container of None \<Rightarrow> False | Some n \<Rightarrow> list_ex (\<lambda>c. is_text c \<and> trim (node_text c) \<noteq> []) (children_of n))"

definition reference_headers_of :: "xml_node option \<Rightarrow> xml_node list" where
  "reference_headers_of container = (case container of None \<Rightarrow> [] | Some n \<Rightarrow> child_elements n)"

definition address_node :: "xml_node \<Rightarrow> bool" where
  "address_node n = (local_name (el_name n) = ''Address'' \<and> namespace (el_name n) \<in> {WSA_NS, WSA_2004_NS})"

definition read_endpoint_reference :: "xml_node \<Rightarrow> service_endpoint result" where
  "read_endpoint_reference v =
     bind_result (assert_xml_element 0 (js_of_node v)) (\<lambda>_.
       case filter address_node (child_elements v) of
         [a] \<Rightarrow>
           let ns = (if namespace (el_name a) = WSA_NS then WSA_NS else WSA_2004_NS) in
           bind_result (text_content a) (\<lambda>t.
           if trim t = [] then raise InvalidValue
           else
             bind_result (one_child False v (qn ns ''ReferenceParameters'')) (\<lambda>parameters.
             bind_result (one_child False v (qn ns ''ReferenceProperties'')) (\<lambda>properties.
             if ns = WSA_NS \<and> properties \<noteq> None then raise InvalidValue
             else if stray_text parameters \<or> stray_text properties then raise InvalidValue
             else if list_ex (\<lambda>c. local_name (el_name c) \<in> {''ReferenceParameters'', ''ReferenceProperties'', ''Address''}
                 \<and> namespace (el_name c) \<in> {WSA_NS, WSA_2004_NS} \<and> namespace (el_name c) \<noteq> ns) (child_elements v)
             then raise InvalidValue
             else Inr \<lparr>service_address = trim t, service_parameters = reference_headers_of parameters,
               service_properties = reference_headers_of properties, service_namespace = ns, service_xml = v\<rparr>)))
       | _ \<Rightarrow> raise InvalidValue)"

subsection \<open>The envelope of a request\<close>

record request_addressing =
  addr_namespace :: "string option"
  addr_to :: "string option"
  addr_parameters :: "xml_node list option"
  addr_properties :: "xml_node list option"

definition assert_header :: "xml_node \<Rightarrow> unit result" where
  "assert_header n =
     bind_result (assert_xml_element 0 (js_of_node n)) (\<lambda>_.
       if namespace (el_name n) \<in> {SOAP_NS, WSA_NS, WSA_2004_NS, WSSE_NS} then raise InvalidSecurity else Inr ())"

text \<open>\<open>while (namespaces[prefix] is another namespace) prefix += "Ref"\<close>\<close>

function free_prefix :: "(string \<times> string) list \<Rightarrow> string \<Rightarrow> string" where
  "free_prefix ns p =
     (if map_of ns p \<noteq> None \<and> map_of ns p \<noteq> Some WSA_NS then free_prefix ns (p @ ''Ref'') else p)"
  by pat_completeness auto
termination
proof (relation "measure (\<lambda>(ns, p). card {k \<in> fst ` set ns. length p \<le> length k})", goal_cases)
  case 1
  show ?case by simp
next
  case (2 ns p)
  then have p: "p \<in> fst ` set ns" by (auto simp: map_of_eq_None_iff)
  have "{k \<in> fst ` set ns. length (p @ ''Ref'') \<le> length k} \<subset> {k \<in> fst ` set ns. length p \<le> length k}"
    (is "?A \<subset> ?B")
  proof (rule psubsetI)
    show "?A \<subseteq> ?B" by auto
    have "p \<in> ?B" "p \<notin> ?A" using p by auto
    then show "?A \<noteq> ?B" by blast
  qed
  then show ?case by (simp add: psubset_card_mono)
qed

declare free_prefix.simps [simp del]

abbreviation reference_marker :: qname where
  "reference_marker \<equiv> qn WSA_NS ''IsReferenceParameter''"

fun mark_reference :: "xml_node \<Rightarrow> xml_node" where
  "mark_reference (Xml_Element q p ns attrs nodes) =
     (let existing = find (\<lambda>(k, v). k \<noteq> [] \<and> v = WSA_NS) ns;
          pre = free_prefix ns (case existing of None \<Rightarrow> ''wsa'' | Some (k, _) \<Rightarrow> k)
      in Xml_Element q p (AList.update pre WSA_NS ns)
           (filter (\<lambda>a. \<not> equal_qname (attr_name a) reference_marker) attrs
            @ [\<lparr>attr_name = reference_marker, attr_value = ''true'', attr_prefix = Some pre\<rparr>]) nodes)"
| "mark_reference n = n"

definition reference_header :: "string \<Rightarrow> xml_node \<Rightarrow> xml_node result" where
  "reference_header ns n = bind_result (assert_header n) (\<lambda>_. Inr (if ns = WSA_2004_NS then n else mark_reference n))"

definition new_node :: "string \<Rightarrow> string \<Rightarrow> string \<Rightarrow> xml_node list \<Rightarrow> xml_node" where
  "new_node ns pre l nodes = Xml_Element (qn ns l) (Some pre) [] [] nodes"

fun with_must_understand :: "xml_node \<Rightarrow> xml_node" where
  "with_must_understand (Xml_Element q p ns attrs nodes) =
     Xml_Element q p ns (attrs @ [\<lparr>attr_name = qn SOAP_NS ''mustUnderstand'', attr_value = ''true'', attr_prefix = Some ''s''\<rparr>]) nodes"
| "with_must_understand n = n"

record envelope_options =
  env_username_token :: "string option"
  env_parameters :: "xml_node list option"
  env_addressing :: "request_addressing option"
  env_headers :: "(string \<times> xml_node) list"

definition addressing_field :: "(request_addressing \<Rightarrow> 'a option) \<Rightarrow> request_addressing option \<Rightarrow> 'a option" where
  "addressing_field f a = (case a of None \<Rightarrow> None | Some x \<Rightarrow> f x)"

text \<open>\<open>`{${namespace}}${localName}`\<close>\<close>

definition expanded_name :: "qname \<Rightarrow> string" where
  "expanded_name q = ''{'' @ namespace q @ ''}'' @ local_name q"

definition custom_header :: "string \<times> xml_node \<Rightarrow> xml_node list \<Rightarrow> xml_node list result" where
  "custom_header entry hs =
     bind_result (assert_header (snd entry)) (\<lambda>_.
       if fst entry \<noteq> expanded_name (el_name (snd entry)) then raise InvalidValue
       else if list_ex (\<lambda>h. equal_qname (el_name h) (el_name (snd entry))) hs then raise InvalidValue
       else Inr (hs @ [snd entry]))"

fun add_headers :: "(string \<times> xml_node) list \<Rightarrow> xml_node list \<Rightarrow> xml_node list result" where
  "add_headers [] hs = Inr hs"
| "add_headers (e # es) hs = bind_result (custom_header e hs) (add_headers es)"

text \<open>The headers of WS-Addressing itself; \<open>uuid\<close> is what \<open>randomUUID()\<close> gives.\<close>

definition addressing_headers :: "'t operation_descriptor \<Rightarrow> string \<Rightarrow> string \<Rightarrow> envelope_options \<Rightarrow> string \<Rightarrow> xml_node list" where
  "addressing_headers operation ns href opts uuid =
     [with_must_understand (new_node ns ''wsa'' ''Action'' [Xml_Text (addressing_action operation)]),
      new_node ns ''wsa'' ''To''
        [Xml_Text (case addressing_field addr_to (env_addressing opts) of None \<Rightarrow> href | Some t \<Rightarrow> t)],
      new_node ns ''wsa'' ''MessageID'' [Xml_Text (''urn:uuid:'' @ uuid)],
      new_node ns ''wsa'' ''ReplyTo'' [new_node ns ''wsa'' ''Address'' [Xml_Text
        (if ns = WSA_2004_NS then ns @ ''/role/anonymous''
         else ns @ ''/'' @ (if response_element operation = None then ''none'' else ''anonymous''))]]]"

definition soap_envelope :: "(string \<Rightarrow> xml_node result) \<Rightarrow> 't operation_descriptor \<Rightarrow> string \<Rightarrow> string \<Rightarrow> xml_node
    \<Rightarrow> envelope_options \<Rightarrow> xml_node result" where
  "soap_envelope parse operation href uuid content opts =
     (let addressing = env_addressing opts;
          ns = (case addressing_field addr_namespace addressing of None \<Rightarrow> WSA_NS | Some s \<Rightarrow> s);
          properties = (case addressing_field addr_properties addressing of None \<Rightarrow> [] | Some ps \<Rightarrow> ps);
          parameters = (case addressing_field addr_parameters addressing of
              Some ps \<Rightarrow> ps
            | None \<Rightarrow> (case env_parameters opts of Some ps \<Rightarrow> ps | None \<Rightarrow> []))
      in if ns \<notin> {WSA_NS, WSA_2004_NS} then raise UnsupportedCapability
         else if ns = WSA_NS \<and> properties \<noteq> [] then raise InvalidValue
         else
           bind_result (map_result (reference_header WSA_2004_NS) properties) (\<lambda>props.
           bind_result (map_result (reference_header ns) parameters) (\<lambda>params.
           bind_result (add_headers (env_headers opts) (addressing_headers operation ns href opts uuid @ props @ params)) (\<lambda>hs.
           bind_result (case env_username_token opts of
               None \<Rightarrow> Inr []
             | Some t \<Rightarrow> bind_result (parse t) (\<lambda>n. Inr [with_must_understand n])) (\<lambda>token.
             Inr (Xml_Element (qn SOAP_NS ''Envelope'') (Some ''s'') [(''s'', SOAP_NS), (''wsa'', ns)] []
               [new_node SOAP_NS ''s'' ''Header'' (hs @ token), new_node SOAP_NS ''s'' ''Body'' [content]]))))))"

subsection \<open>The payload or the fault of a response\<close>

record 'v fault_detail =
  detail_name :: qname
  detail_fault :: "string option"
  detail_value :: 'v

record 'v native_fault =
  fault_code :: qname
  fault_subcodes :: "qname list"
  fault_reasons :: "(string \<times> string) list"
  fault_detail_node :: "xml_node option"
  fault_node :: "string option"
  fault_role :: "string option"
  fault_typed :: "'v fault_detail list"

text \<open>\<open>SoapFaultError\<close>: only a fault of the sender says that the request was not executed.\<close>

definition soap_fault_error :: "'v native_fault \<Rightarrow> onvif_error" where
  "soap_fault_error f = OnvifError SoapFault (if equal_qname (fault_code f) (qn SOAP_NS ''Sender'') then Rejected else Unknown)"

definition qname_value :: "xml_node \<Rightarrow> qname result" where
  "qname_value n = bind_result (text_content n) (\<lambda>t. resolve_qname t (el_namespaces n))"

function subcodes_of :: "xml_node \<Rightarrow> qname list result" where
  "subcodes_of n =
     bind_result (one_child False n (qn SOAP_NS ''Subcode'')) (\<lambda>sub.
       case sub of
         None \<Rightarrow> Inr []
       | Some s \<Rightarrow>
           bind_result (required_child s (qn SOAP_NS ''Value'')) (\<lambda>v.
           bind_result (qname_value v) (\<lambda>q.
           bind_result (subcodes_of s) (\<lambda>qs. Inr (q # qs)))))"
  by pat_completeness auto
termination by (relation "measure size") (auto dest: one_child_size)

declare subcodes_of.simps [simp del]

definition attribute_value :: "qname \<Rightarrow> xml_node \<Rightarrow> string option" where
  "attribute_value q n = map_option attr_value (find (\<lambda>a. equal_qname (attr_name a) q) (el_attributes n))"

definition fault_reason :: "xml_node \<Rightarrow> (string \<times> string) result" where
  "fault_reason n =
     (if \<not> has_qname (qn SOAP_NS ''Text'') n then raise_unknown InvalidXml
      else case attribute_value (qn XML_NS ''lang'') n of
          None \<Rightarrow> raise_unknown InvalidXml
        | Some l \<Rightarrow> if l = [] then raise_unknown InvalidXml else bind_result (text_content n) (\<lambda>t. Inr (l, t)))"

definition optional_text :: "xml_node option \<Rightarrow> string option result" where
  "optional_text n = (case n of None \<Rightarrow> Inr None | Some x \<Rightarrow> bind_result (text_content x) (\<lambda>t. Inr (Some t)))"

definition parse_fault :: "xml_node \<Rightarrow> 'v native_fault result" where
  "parse_fault doc =
     bind_result (required_child doc (qn SOAP_NS ''Code'')) (\<lambda>code_node.
     bind_result (required_child code_node (qn SOAP_NS ''Value'')) (\<lambda>value_node.
     bind_result (qname_value value_node) (\<lambda>code.
     bind_result (subcodes_of code_node) (\<lambda>subcodes.
     bind_result (required_child doc (qn SOAP_NS ''Reason'')) (\<lambda>reason.
     bind_result (map_result fault_reason (child_elements reason)) (\<lambda>reasons.
     if reasons = [] then raise_unknown InvalidXml
     else
       bind_result (one_child False doc (qn SOAP_NS ''Detail'')) (\<lambda>detail.
       bind_result (one_child False doc (qn SOAP_NS ''Node'')) (\<lambda>node.
       bind_result (one_child False doc (qn SOAP_NS ''Role'')) (\<lambda>role.
       bind_result (optional_text node) (\<lambda>node_value.
       bind_result (optional_text role) (\<lambda>role_value.
         Inr \<lparr>fault_code = code, fault_subcodes = subcodes, fault_reasons = reasons, fault_detail_node = detail,
              fault_node = node_value, fault_role = role_value, fault_typed = []\<rparr>)))))))))))"

text \<open>One child of the fault's detail: a value for it when a descriptor is known, and the declared action.\<close>

definition typed_detail :: "('t element_descriptor \<Rightarrow> xml_node \<Rightarrow> 'v result) \<Rightarrow> (string \<times> 't element_descriptor) list
    \<Rightarrow> 't operation_descriptor \<Rightarrow> string \<Rightarrow> xml_node option \<Rightarrow> xml_node \<Rightarrow> 'v fault_detail list result" where
  "typed_detail decode elements operation ns head detail =
     (let declared = find (\<lambda>f. equal_qname (element_name (fault_element f)) (el_name detail)) (operation_faults operation);
          element = (case declared of Some f \<Rightarrow> Some (fault_element f) | None \<Rightarrow> map_of elements (expanded_name (el_name detail)))
      in case element of
           None \<Rightarrow> Inr []
         | Some d \<Rightarrow>
             bind_result (decode d detail) (\<lambda>v.
             bind_result (case head of None \<Rightarrow> Inr None | Some h \<Rightarrow> one_child False h (qn ns ''Action'')) (\<lambda>action.
             bind_result (case (Option.bind declared fault_action, action) of
                 (Some wanted, Some a) \<Rightarrow>
                   bind_result (text_content a) (\<lambda>t. if t \<noteq> wanted then raise_unknown InvalidXml else Inr ())
               | _ \<Rightarrow> Inr ()) (\<lambda>_.
               Inr [\<lparr>detail_name = el_name detail, detail_fault = map_option fault_name declared, detail_value = v\<rparr>]))))"

definition not_understood :: "string \<Rightarrow> xml_node \<Rightarrow> bool" where
  "not_understood ns entry =
     (attribute_value (qn SOAP_NS ''mustUnderstand'') entry \<in> {Some ''true'', Some ''1''}
      \<and> (namespace (el_name entry) \<noteq> ns \<or> local_name (el_name entry) \<notin> {''Action'', ''To'', ''RelatesTo'', ''MessageID''}))"

definition response_action_ok :: "'t operation_descriptor \<Rightarrow> string \<Rightarrow> xml_node option \<Rightarrow> unit result" where
  "response_action_ok operation ns head =
     (case response_action operation of
        None \<Rightarrow> Inr ()
      | Some wanted \<Rightarrow> (case head of
          None \<Rightarrow> raise_unknown InvalidXml
        | Some h \<Rightarrow>
            bind_result (required_child h (qn ns ''Action'')) (\<lambda>a.
            bind_result (text_content a) (\<lambda>t. if t \<noteq> wanted then raise_unknown InvalidXml else Inr ()))))"

datatype 'v soap_answer = Soap_Payload xml_node | Soap_Fault "'v native_fault"

text \<open>\<open>soapResponse\<close> after \<open>parseXml\<close>.\<close>

definition soap_response :: "('t element_descriptor \<Rightarrow> xml_node \<Rightarrow> 'v result) \<Rightarrow> (string \<times> 't element_descriptor) list
    \<Rightarrow> 't operation_descriptor \<Rightarrow> int \<Rightarrow> string \<Rightarrow> xml_node \<Rightarrow> 'v soap_answer result" where
  "soap_response decode elements operation status ns doc =
     (if \<not> has_qname (qn SOAP_NS ''Envelope'') doc then raise_unknown InvalidXml
      else
        bind_result (one_child False doc (qn SOAP_NS ''Header'')) (\<lambda>head.
        bind_result (required_child doc (qn SOAP_NS ''Body'')) (\<lambda>body.
        if list_ex (\<lambda>c. \<not> has_qname (qn SOAP_NS ''Header'') c \<and> \<not> has_qname (qn SOAP_NS ''Body'') c) (child_elements doc)
        then raise_unknown InvalidXml
        else if (case head of None \<Rightarrow> False | Some h \<Rightarrow> list_ex (not_understood ns) (child_elements h))
        then raise_unknown UnsupportedCapability
        else case child_elements body of
            [content] \<Rightarrow>
              if has_qname (qn SOAP_NS ''Fault'') content then
                bind_result (parse_fault content) (\<lambda>fault.
                bind_result (map_result (typed_detail decode elements operation ns head)
                    (case fault_detail_node fault of None \<Rightarrow> [] | Some d \<Rightarrow> child_elements d)) (\<lambda>details.
                  Inr (Soap_Fault (fault\<lparr>fault_typed := concat details\<rparr>))))
              else if status < 200 \<or> status \<ge> 300 then raise_unknown TransportError
              else bind_result (response_action_ok operation ns head) (\<lambda>_. Inr (Soap_Payload content))
          | _ \<Rightarrow> raise_unknown InvalidXml)))"

end
