(* ===== verification/Security_Digest.thy ===== *)
theory Security_Digest
  imports Security_Policy
begin

section \<open>HTTP Digest authentication\<close>

text \<open>
  \<open>security/digest.ts\<close>: the challenges of \<open>WWW-Authenticate\<close> fields, the selection of the strongest one the
  policy permits, and the \<open>Authorization\<close> field that answers it. The hash functions are a parameter.
\<close>

definition auth_failed :: "'a result" where
  "auth_failed = Inl (OnvifError AuthenticationFailed Rejected)"

lemma auth_failed_not_Inr [simp]: "auth_failed \<noteq> Inr x" "Inr x \<noteq> auth_failed"
  by (simp_all add: auth_failed_def)

subsection \<open>Fields and parameters\<close>

definition ascii_lower :: "string \<Rightarrow> string" where
  "ascii_lower s = map (\<lambda>c. if is_upper_char c then char_of (byte_of c + 32) else c) s"

text \<open>The comma separated fields; a comma in a quoted string does not separate.\<close>

fun scan_fields :: "bool \<Rightarrow> bool \<Rightarrow> string \<Rightarrow> string \<Rightarrow> string list result" where
  "scan_fields in_quotes escaping current [] = (if in_quotes \<or> escaping then auth_failed else Inr [trim (rev current)])"
| "scan_fields in_quotes escaping current (c # cs) =
     (if escaping then scan_fields in_quotes False (c # current) cs
      else if in_quotes \<and> c = CHR 0x5C then scan_fields in_quotes True (c # current) cs
      else
        let inside = (if c = CHR 0x22 then \<not> in_quotes else in_quotes) in
        if \<not> inside \<and> c = CHR '','' then
          bind_result (scan_fields inside False [] cs) (\<lambda>fs. Inr (trim (rev current) # fs))
        else scan_fields inside False (c # current) cs)"

definition split_fields :: "string \<Rightarrow> string list result" where
  "split_fields line =
     (if length (utf16_units line) > 16384 \<or> has_control_char line then auth_failed
      else scan_fields False False [] line)"

definition token_char :: "char \<Rightarrow> bool" where
  "token_char c = (is_alpha_char c \<or> is_digit_char c \<or> c \<in> set ''!#$%&*+.^_`|~-'' \<or> c = CHR 0x27)"

fun skip_space :: "string list \<Rightarrow> string list" where
  "skip_space [] = []"
| "skip_space (p # ps) = (if js_space (point p) then skip_space ps else p # ps)"

definition after_space :: "string \<Rightarrow> string" where
  "after_space s = concat (skip_space (code_points s))"

definition begins_parameter :: "string \<Rightarrow> bool" where
  "begins_parameter part =
     (takeWhile token_char part \<noteq> [] \<and>
      (case after_space (dropWhile token_char part) of c # _ \<Rightarrow> c = CHR ''='' | [] \<Rightarrow> False))"

definition line_terminator :: "string \<Rightarrow> bool" where
  "line_terminator s = (case code_points s of p # _ \<Rightarrow> point p \<in> {10, 13, 0x2028, 0x2029} | [] \<Rightarrow> False)"

definition no_line_terminator :: "string \<Rightarrow> bool" where
  "no_line_terminator s = list_all (\<lambda>p. point p \<notin> {10, 13, 0x2028, 0x2029}) (code_points s)"

text \<open>A scheme and what follows it.\<close>

definition scheme_field :: "string \<Rightarrow> (string \<times> string) option" where
  "scheme_field part =
     (let name = takeWhile token_char part; rest = dropWhile token_char part; after = after_space rest in
      if name = [] \<or> rest \<noteq> [] \<and> (after = rest \<or> \<not> no_line_terminator after) then None else Some (name, after))"

text \<open>The rest of a quoted string after its opening quote, without its escapes.\<close>

fun unquoted :: "string \<Rightarrow> string option" where
  "unquoted [] = None"
| "unquoted (c # cs) =
     (if c = CHR 0x22 then (if cs = [] then Some [] else None)
      else if c = CHR 0x5C then
        (case cs of
           [] \<Rightarrow> None
         | d # ds \<Rightarrow> if line_terminator cs then None else map_option ((#) d) (unquoted ds))
      else map_option ((#) c) (unquoted cs))"

definition digest_parameter :: "string \<Rightarrow> (string \<times> string) option" where
  "digest_parameter part =
     (let name = takeWhile token_char part in
      case after_space (dropWhile token_char part) of
        c # rest \<Rightarrow>
          if name = [] \<or> c \<noteq> CHR ''='' then None
          else (case after_space rest of
              d # body \<Rightarrow>
                if d = CHR 0x22 then map_option (\<lambda>v. (ascii_lower name, v)) (unquoted body)
                else if list_all token_char (d # body) then Some (ascii_lower name, d # body) else None
            | [] \<Rightarrow> None)
      | [] \<Rightarrow> None)"

type_synonym parameters = "(string \<times> string) list"

text \<open>
  The state of the loop: the challenges so far and whether the last one is still open, that is, whether
  \<open>current\<close> is a map and not undefined.
\<close>

definition add_parameter :: "string \<Rightarrow> parameters list \<Rightarrow> parameters list result" where
  "add_parameter part found =
     (case digest_parameter part of
        None \<Rightarrow> auth_failed
      | Some (k, v) \<Rightarrow>
          if map_of (last found) k \<noteq> None then auth_failed else Inr (butlast found @ [last found @ [(k, v)]]))"

definition field_step :: "string \<Rightarrow> bool \<times> parameters list \<Rightarrow> (bool \<times> parameters list) result" where
  "field_step part st =
     (case st of (active, found) \<Rightarrow>
        bind_result (if begins_parameter part then Inr (part, active, found)
          else case scheme_field part of
              None \<Rightarrow> auth_failed
            | Some (name, rest) \<Rightarrow>
                if ascii_lower name = ''digest'' then Inr (rest, True, found @ [[]]) else Inr (rest, False, found))
          (\<lambda>(p, now_active, now_found).
            if \<not> now_active \<or> p = [] then Inr (now_active, now_found)
            else bind_result (add_parameter p now_found) (\<lambda>new. Inr (True, new))))"

definition header_step :: "string \<Rightarrow> parameters list \<Rightarrow> parameters list result" where
  "header_step line found =
     bind_result (split_fields line) (\<lambda>parts.
     bind_result (fold_result field_step parts (False, found)) (\<lambda>st. Inr (snd st)))"

definition challenges :: "string list \<Rightarrow> parameters list result" where
  "challenges lines = (if length lines > 32 then auth_failed else fold_result header_step lines [])"

subsection \<open>The policy and the selection\<close>

datatype digest_algorithm = MD5 | MD5_Sess | SHA256 | SHA256_Sess

datatype digest_qop = Auth | Auth_Int

definition algorithms :: "digest_algorithm list" where
  "algorithms = [MD5, MD5_Sess, SHA256, SHA256_Sess]"

fun algorithm_text :: "digest_algorithm \<Rightarrow> string" where
  "algorithm_text MD5 = ''MD5''"
| "algorithm_text MD5_Sess = ''MD5-sess''"
| "algorithm_text SHA256 = ''SHA-256''"
| "algorithm_text SHA256_Sess = ''SHA-256-sess''"

fun strength :: "digest_algorithm \<Rightarrow> nat" where
  "strength MD5 = 1"
| "strength MD5_Sess = 2"
| "strength SHA256 = 3"
| "strength SHA256_Sess = 4"

fun qop_text :: "digest_qop \<Rightarrow> string" where
  "qop_text Auth = ''auth''"
| "qop_text Auth_Int = ''auth-int''"

record digest_policy =
  policy_algorithms :: "digest_algorithm list"
  policy_qops :: "digest_qop list"

definition named_in :: "('a \<Rightarrow> string) \<Rightarrow> 'a list \<Rightarrow> js \<Rightarrow> 'a result" where
  "named_in name xs v = (case find (\<lambda>x. v = JStr (name x)) xs of None \<Rightarrow> raise InvalidConfiguration | Some x \<Rightarrow> Inr x)"

text \<open>\<open>{ ...defaults, ...options }\<close>: a property that is there replaces the default, whatever its value.\<close>

definition option_names :: "js \<Rightarrow> string \<Rightarrow> ('a \<Rightarrow> string) \<Rightarrow> 'a list \<Rightarrow> 'a list \<Rightarrow> 'a list result" where
  "option_names options k name defaults xs =
     (if k \<notin> set (own_keys options) then Inr defaults
      else case get options k of
          JArr vs \<Rightarrow> if vs = [] then raise InvalidConfiguration else map_result (named_in name xs) vs
        | _ \<Rightarrow> raise InvalidConfiguration)"

definition digest_policy_of :: "js \<Rightarrow> digest_policy result" where
  "digest_policy_of options =
     (if options \<noteq> JUndefined \<and> (\<not> is_object options \<or> \<not> set (own_keys options) \<subseteq> {''algorithms'', ''qops''})
      then raise InvalidConfiguration
      else
        bind_result (option_names options ''algorithms'' algorithm_text [SHA256] algorithms) (\<lambda>as.
        bind_result (option_names options ''qops'' qop_text [Auth_Int, Auth] [Auth, Auth_Int]) (\<lambda>qs.
          Inr \<lparr>policy_algorithms = as, policy_qops = qs\<rparr>)))"

record digest_challenge =
  chal_realm :: string
  chal_nonce :: string
  chal_algorithm :: digest_algorithm
  chal_qop :: "digest_qop option"
  chal_opaque :: "string option"
  chal_stale :: bool
  chal_utf8 :: bool
  chal_userhash :: bool

text \<open>The algorithm, the quality of protection and the character set of a challenge, when the policy permits them.\<close>

definition offered_algorithm :: "parameters \<Rightarrow> digest_algorithm option" where
  "offered_algorithm ps =
     (let t = (case map_of ps ''algorithm'' of None \<Rightarrow> ''MD5'' | Some x \<Rightarrow> x)
      in find (\<lambda>a. ascii_lower (algorithm_text a) = ascii_lower t) algorithms)"

definition offered_qops :: "parameters \<Rightarrow> string list option" where
  "offered_qops ps = map_option (\<lambda>t. map trim (split_at (CHR '','') t)) (map_of ps ''qop'')"

definition chosen_qop :: "digest_policy \<Rightarrow> parameters \<Rightarrow> digest_qop option" where
  "chosen_qop policy ps =
     (case offered_qops ps of None \<Rightarrow> None | Some ts \<Rightarrow> find (\<lambda>q. qop_text q \<in> set ts) (policy_qops policy))"

definition boolean_ok :: "string option \<Rightarrow> bool" where
  "boolean_ok v = (v \<in> {None, Some ''true'', Some ''false''})"

definition consider_offer :: "digest_policy \<Rightarrow> parameters \<Rightarrow> digest_challenge list \<Rightarrow> digest_challenge list result" where
  "consider_offer policy ps supported =
     (case offered_algorithm ps of
        None \<Rightarrow> Inr supported
      | Some a \<Rightarrow>
          if a \<notin> set (policy_algorithms policy) then Inr supported
          else case (map_of ps ''realm'', map_of ps ''nonce'') of
              (Some r, Some n) \<Rightarrow>
                if n = [] then auth_failed
                else if offered_qops ps \<noteq> None \<and> chosen_qop policy ps = None then Inr supported
                else if (case map_of ps ''charset'' of None \<Rightarrow> False | Some c \<Rightarrow> ascii_lower c \<noteq> ''utf-8'') then Inr supported
                else if \<not> boolean_ok (map_of ps ''stale'') \<or> \<not> boolean_ok (map_of ps ''userhash'') then auth_failed
                else Inr (supported @ [\<lparr>chal_realm = r, chal_nonce = n, chal_algorithm = a, chal_qop = chosen_qop policy ps,
                  chal_opaque = map_of ps ''opaque'', chal_stale = (map_of ps ''stale'' = Some ''true''),
                  chal_utf8 = (map_of ps ''charset'' \<noteq> None), chal_userhash = (map_of ps ''userhash'' = Some ''true'')\<rparr>])
            | _ \<Rightarrow> auth_failed)"

text \<open>The first element of the stable sort by falling strength.\<close>

fun strongest :: "digest_challenge list \<Rightarrow> digest_challenge option" where
  "strongest [] = None"
| "strongest (c # cs) =
     (case strongest cs of
        None \<Rightarrow> Some c
      | Some d \<Rightarrow> if strength (chal_algorithm d) > strength (chal_algorithm c) then Some d else Some c)"

definition select_digest_challenge :: "string list \<Rightarrow> js \<Rightarrow> digest_challenge result" where
  "select_digest_challenge lines options =
     bind_result (digest_policy_of options) (\<lambda>policy.
     bind_result (challenges lines) (\<lambda>offers.
     bind_result (fold_result (consider_offer policy) offers []) (\<lambda>supported.
       case strongest supported of None \<Rightarrow> auth_failed | Some c \<Rightarrow> Inr c)))"

subsection \<open>The answer\<close>

record digest_input =
  in_challenge :: digest_challenge
  in_username :: string
  in_password :: string
  in_method :: string
  in_uri :: string
  in_body :: "byte list"
  in_cnonce :: string
  in_count :: jsnum

text \<open>\<open>createHash(name).update(bytes).digest("hex")\<close>.\<close>

type_synonym hasher = "string \<Rightarrow> nat list \<Rightarrow> string"

definition hash_name :: "digest_algorithm \<Rightarrow> string" where
  "hash_name a = (if a \<in> {MD5, MD5_Sess} then ''md5'' else ''sha256'')"

definition session_variant :: "digest_algorithm \<Rightarrow> bool" where
  "session_variant a = (a \<in> {MD5_Sess, SHA256_Sess})"

text \<open>The bytes of a text in UTF-8, with the replacement character for a lone surrogate, or in Latin-1.\<close>

definition encoded_bytes :: "bool \<Rightarrow> string \<Rightarrow> nat list" where
  "encoded_bytes utf8 s =
     (if utf8 then concat (map (\<lambda>p. if 0xD800 \<le> point p \<and> point p \<le> 0xDFFF then [0xEF, 0xBF, 0xBD] else map byte_of p) (code_points s))
      else map (\<lambda>n. n mod 256) (utf16_units s))"

definition padded_hex :: "nat \<Rightarrow> string" where
  "padded_hex n = replicate (8 - length (hex_text n)) (CHR ''0'') @ hex_text n"

definition field_escape :: "char \<Rightarrow> string" where
  "field_escape c = (if c = CHR 0x5C \<or> c = CHR 0x22 then [CHR 0x5C, c] else [c])"

definition quoted_field :: "string \<Rightarrow> string result" where
  "quoted_field s =
     (if has_control_char s then auth_failed else Inr (CHR 0x22 # concat (map field_escape s) @ [CHR 0x22]))"

definition percent_byte :: "char \<Rightarrow> string" where
  "percent_byte c =
     (if is_alpha_char c \<or> is_digit_char c \<or> c \<in> set ''-_.~'' then [c]
      else CHR ''%'' # map (\<lambda>d. if is_lower_char d then char_of (byte_of d - 32) else d)
        [hex_digit (byte_of c div 16), hex_digit (byte_of c mod 16)])"

definition digest_response :: "hasher \<Rightarrow> digest_input \<Rightarrow> string" where
  "digest_response hash i =
     (let c = in_challenge i; name = hash_name (chal_algorithm c);
          h = (\<lambda>s. hash name (encoded_bytes (chal_utf8 c) s));
          nc = (case in_count i of Whole n \<Rightarrow> padded_hex (nat n) | _ \<Rightarrow> []);
          plain = h (in_username i @ '':'' @ chal_realm c @ '':'' @ in_password i);
          ha1 = (if session_variant (chal_algorithm c) then h (plain @ '':'' @ chal_nonce c @ '':'' @ in_cnonce i) else plain);
          ha2 = h (in_method i @ '':'' @ in_uri i
            @ (if chal_qop c = Some Auth_Int then '':'' @ hash name (map unat (in_body i)) else []))
      in h (ha1 @ '':'' @ chal_nonce c @ '':''
           @ (case chal_qop c of None \<Rightarrow> [] | Some q \<Rightarrow> nc @ '':'' @ in_cnonce i @ '':'' @ qop_text q @ '':'') @ ha2))"

definition user_field :: "hasher \<Rightarrow> digest_input \<Rightarrow> string result" where
  "user_field hash i =
     (let c = in_challenge i; name = in_username i in
      if chal_userhash c then
        bind_result (quoted_field (hash (hash_name (chal_algorithm c)) (encoded_bytes (chal_utf8 c) (name @ '':'' @ chal_realm c))))
          (\<lambda>q. Inr (''username='' @ q @ '', userhash=true''))
      else if chal_utf8 c \<and> list_ex (\<lambda>d. byte_of d < 0x20 \<or> byte_of d > 0x7E) name then
        if has_lone_surrogate name then Inl HostError
        else Inr (''username*=UTF-8'' @ [CHR 0x27, CHR 0x27] @ concat (map percent_byte name))
      else bind_result (quoted_field name) (\<lambda>q. Inr (''username='' @ q)))"

definition labelled :: "string \<Rightarrow> string \<Rightarrow> string result" where
  "labelled name s = bind_result (quoted_field s) (\<lambda>q. Inr (name @ ''='' @ q))"

text \<open>The fields after the first six.\<close>

definition closing_fields :: "digest_input \<Rightarrow> string list result" where
  "closing_fields i =
     (let c = in_challenge i in
      bind_result (case chal_opaque c of None \<Rightarrow> Inr []
        | Some x \<Rightarrow> bind_result (labelled ''opaque'' x) (\<lambda>f. Inr [f])) (\<lambda>opaque.
      bind_result (case chal_qop c of
          Some q \<Rightarrow> bind_result (labelled ''cnonce'' (in_cnonce i)) (\<lambda>f.
            Inr [''qop='' @ qop_text q, ''nc='' @ (case in_count i of Whole n \<Rightarrow> padded_hex (nat n) | _ \<Rightarrow> []), f])
        | None \<Rightarrow> if session_variant (chal_algorithm c) then bind_result (labelled ''cnonce'' (in_cnonce i)) (\<lambda>f. Inr [f])
            else Inr []) (\<lambda>rest.
        Inr (opaque @ rest))))"

fun separated :: "string \<Rightarrow> string list \<Rightarrow> string" where
  "separated x [] = []"
| "separated x [w] = w"
| "separated x (w # v # ws) = w @ x @ separated x (v # ws)"

definition count_ok :: "jsnum \<Rightarrow> bool" where
  "count_ok n = (case n of Whole i \<Rightarrow> 1 \<le> i \<and> i \<le> 0xffffffff | _ \<Rightarrow> False)"

definition create_digest_authorization :: "hasher \<Rightarrow> digest_input \<Rightarrow> string result" where
  "create_digest_authorization hash i =
     (let c = in_challenge i in
      if \<not> count_ok (in_count i) \<or> in_cnonce i = [] then auth_failed
      else if \<not> chal_utf8 c \<and> list_ex (\<lambda>n. n > 0xFF) (utf16_units (in_username i @ in_password i @ chal_realm c)) then auth_failed
      else
        bind_result (user_field hash i) (\<lambda>user.
        bind_result (labelled ''realm'' (chal_realm c)) (\<lambda>realm.
        bind_result (labelled ''nonce'' (chal_nonce c)) (\<lambda>nonce.
        bind_result (labelled ''uri'' (in_uri i)) (\<lambda>target.
        bind_result (labelled ''response'' (digest_response hash i)) (\<lambda>response.
        bind_result (closing_fields i) (\<lambda>rest.
          Inr (''Digest '' @ separated '', ''
            ([user, realm, nonce, target, ''algorithm='' @ algorithm_text (chal_algorithm c), response] @ rest)))))))))"

end
