(* ===== verification/Security_Endpoint.thy ===== *)
theory Security_Endpoint
  imports Binding_Soap Security_Digest "HOL-Library.List_Lexorder"
begin

section \<open>Logical endpoints\<close>

text \<open>
  \<open>security/logical-endpoint.ts\<close>, with \<open>canonicalJson\<close> of \<open>catalog/sources.ts\<close>: the identity a projected
  description claims for its device or resource, and when a message may be addressed to a name other than
  the Thing and the target. The URL parser, \<open>SHA-256\<close>, the text of a number and the policy function of the
  trust policy are parameters.
\<close>

subsection \<open>Canonical JSON\<close>

definition sorted_entries :: "(string \<times> js) list \<Rightarrow> (string \<times> js) list" where
  "sorted_entries kvs = sort_key (utf16_units \<circ> fst) kvs"

lemma set_sorted_entries [simp]: "set (sorted_entries kvs) = set kvs"
  by (simp add: sorted_entries_def)

function canonical_json :: "(jsnum \<Rightarrow> string) \<Rightarrow> js \<Rightarrow> string result" where
  "canonical_json num JNull = Inr ''null''"
| "canonical_json num (JBool b) = Inr (if b then ''true'' else ''false'')"
| "canonical_json num (JNum n) = (if is_finite_number n then Inr (num n) else raise InvalidRegistry)"
| "canonical_json num (JStr s) = Inr (quoted s)"
| "canonical_json num (JArr xs) =
     bind_result (map_result (canonical_json num) xs) (\<lambda>ts. Inr (''['' @ separated '','' ts @ '']''))"
| "canonical_json num (JObj kvs) =
     bind_result (map_result (\<lambda>kv. bind_result (canonical_json num (snd kv)) (\<lambda>t. Inr (quoted (fst kv) @ '':'' @ t)))
       (sorted_entries kvs)) (\<lambda>ts. Inr (CHR 0x7B # separated '','' ts @ [CHR 0x7D]))"
| "canonical_json num (JBytes bs) =
     Inr (CHR 0x7B # separated '','' (map (\<lambda>kv. quoted (fst kv) @ '':'' @ (case snd kv of JNum n \<Rightarrow> num n | _ \<Rightarrow> []))
       (sorted_entries (entries_of (JBytes bs)))) @ [CHR 0x7D])"
| "canonical_json num (JHost c) = (if is_object (JHost c) then Inr [CHR 0x7B, CHR 0x7D] else raise InvalidRegistry)"
| "canonical_json num JUndefined = raise InvalidRegistry"
| "canonical_json num (JBig n) = raise InvalidRegistry"
  by pat_completeness auto
termination
proof (relation "measure (json_weight \<circ> snd)", goal_cases)
  case 1
  show ?case by simp
next
  case (2 num xs x)
  then show ?case using json_child_weight[of x "JArr xs"] by simp
next
  case (3 num kvs kv)
  then show ?case using json_child_weight[of "snd kv" "JObj kvs"] by auto
qed

subsection \<open>The identity of a projected description\<close>

record logical_reference =
  logical_address :: string
  logical_namespace :: string
  logical_properties :: "js list"
  logical_parameters :: "js list"

definition denied :: "'a result" where
  "denied = raise PolicyDenied"

text \<open>\<open>/^[a-z][a-z0-9+.-]*:\/\/[^/?#]*@/iu\<close>\<close>

definition names_user :: "string \<Rightarrow> bool" where
  "names_user s =
     (case code_points s of
        [] \<Rightarrow> False
      | p # ps \<Rightarrow> folded_letter p \<and> (case dropWhile (folded_class ''+.-'') ps of
            a # b # c # rest \<Rightarrow> [a, b, c] = ['':'', ''/'', ''/''] \<and> ''@'' \<in> set (takeWhile (\<lambda>q. q \<notin> {''/'', ''?'', ''#''}) rest)
          | _ \<Rightarrow> False))"

definition logical_url :: "url_parser \<Rightarrow> string \<Rightarrow> web_url result" where
  "logical_url parse address =
     (if address = [] \<or> length (utf16_units address) > 16384 \<or> list_ex (\<lambda>c. byte_of c \<le> 0x20 \<or> c = CHR 0x5C) address
        \<or> CHR ''#'' \<in> set address \<or> names_user address
      then denied
      else case parse address of
          None \<Rightarrow> denied
        | Some u \<Rightarrow>
            if url_protocol u \<notin> {''urn:'', ''http:'', ''https:''} \<or> url_username u \<noteq> [] \<or> url_password u \<noteq> [] then denied else Inr u)"

definition reference_headers :: "js \<Rightarrow> js list result" where
  "reference_headers v =
     (case v of
        JArr xs \<Rightarrow> if length xs > 64 then denied
          else map_result (\<lambda>x. bind_result (assert_xml_element 0 x) (\<lambda>_. Inr x)) xs
      | _ \<Rightarrow> denied)"

definition identity_text :: "js \<Rightarrow> bool" where
  "identity_text v = (case v of JStr s \<Rightarrow> s \<noteq> [] \<and> length (utf16_units s) \<le> 4096 | _ \<Rightarrow> False)"

definition parent_ok :: "js \<Rightarrow> bool" where
  "parent_ok p = (is_object p \<and> set (own_keys p) \<subseteq> {''kind'', ''token''} \<and> identity_text (get p ''kind'') \<and> identity_text (get p ''token''))"

definition resource_ok :: "js \<Rightarrow> js \<Rightarrow> bool" where
  "resource_ok resource address =
     (is_object resource \<and> get resource ''epr'' = address
      \<and> list_all (\<lambda>k. identity_text (get resource k)) [''serviceNamespace'', ''kind'', ''token'']
      \<and> (case get resource ''parentTokens'' of JArr ps \<Rightarrow> length ps \<le> 64 \<and> list_all parent_ok ps | _ \<Rightarrow> False))"

definition projected_endpoint_reference :: "url_parser \<Rightarrow> (jsnum \<Rightarrow> string) \<Rightarrow> (string \<Rightarrow> string) \<Rightarrow> js \<Rightarrow> logical_reference option result" where
  "projected_endpoint_reference parse num sha256 description =
     (let discovery = get description ''onvif:discovery''; epr = get discovery ''endpointReference'';
          ns = get discovery ''addressingNamespace''; resource = get description ''onvif:resourceIdentity'' in
      if discovery = JUndefined then Inr None
      else if \<not> is_object discovery \<or> \<not> is_object epr then denied
      else if \<not> set (own_keys epr) \<subseteq> {''address'', ''referenceProperties'', ''referenceParameters''} then denied
      else case get epr ''address'' of
          JStr address \<Rightarrow>
            bind_result (logical_url parse address) (\<lambda>_.
            if ns \<notin> {JStr WSA_NS, JStr WSA_2004_NS} then denied
            else
              bind_result (reference_headers (get epr ''referenceProperties'')) (\<lambda>properties.
              bind_result (reference_headers (get epr ''referenceParameters'')) (\<lambda>parameters.
              if ns = JStr WSA_NS \<and> properties \<noteq> [] then denied
              else if resource \<noteq> JUndefined \<and> \<not> resource_ok resource (JStr address) then denied
              else
                let key = [JStr address, JArr properties]
                      @ (if resource = JUndefined then []
                         else map (get resource) [''serviceNamespace'', ''kind'', ''parentTokens'', ''token'']) in
                bind_result (canonical_json num (JArr key)) (\<lambda>t.
                  if get description ''id''
                    \<noteq> JStr (''urn:onvif:'' @ (if resource = JUndefined then ''device'' else ''resource'') @ '':'' @ sha256 t)
                  then denied
                  else Inr (Some \<lparr>logical_address = address, logical_namespace = (if ns = JStr WSA_NS then WSA_NS else WSA_2004_NS),
                    logical_properties = properties, logical_parameters = parameters\<rparr>)))))
        | _ \<Rightarrow> denied)"

subsection \<open>Messages addressed to another name\<close>

record logical_scope =
  scope_thing :: string
  scope_principal :: string
  scope_origin :: string
  scope_href :: string
  scope_operation :: operation_reference
  scope_endpoint :: logical_reference

type_synonym logical_authorizer = "logical_scope \<Rightarrow> js result"

text \<open>Both sides as canonical texts; the first one that cannot be written fails the comparison.\<close>

definition same_headers :: "(jsnum \<Rightarrow> string) \<Rightarrow> xml_node list option \<Rightarrow> js list \<Rightarrow> bool result" where
  "same_headers num supplied known =
     bind_result (canonical_json num (JArr (case supplied of None \<Rightarrow> [] | Some ns \<Rightarrow> map js_of_node ns))) (\<lambda>a.
     bind_result (canonical_json num (JArr known)) (\<lambda>b. Inr (a = b)))"

definition matches_reference :: "url_parser \<Rightarrow> (jsnum \<Rightarrow> string) \<Rightarrow> trust_policy \<Rightarrow> security_context \<Rightarrow> string \<Rightarrow> web_url
    \<Rightarrow> string \<Rightarrow> request_addressing \<Rightarrow> logical_reference \<Rightarrow> bool result" where
  "matches_reference parse num trust context form_href target to addressing known =
     bind_result (authorize_target parse (JStr form_href) trust (Some (principal context))) (\<lambda>u.
       if url_href u \<noteq> url_href target \<or> to \<noteq> logical_address known
         \<or> (case addr_namespace addressing of None \<Rightarrow> WSA_NS | Some s \<Rightarrow> s) \<noteq> logical_namespace known
       then Inr False
       else bind_result (same_headers num (addr_properties addressing) (logical_properties known)) (\<lambda>p.
         if \<not> p then Inr False else same_headers num (addr_parameters addressing) (logical_parameters known)))"

definition scope_of_endpoint :: "security_context \<Rightarrow> web_url \<Rightarrow> 't operation_descriptor \<Rightarrow> logical_reference \<Rightarrow> logical_scope" where
  "scope_of_endpoint context target operation known =
     \<lparr>scope_thing = thing_id context, scope_principal = principal context, scope_origin = web_origin target, scope_href = url_href target,
      scope_operation = operation_reference.truncate operation, scope_endpoint = known\<rparr>"

definition authorize_logical_endpoint :: "url_parser \<Rightarrow> (jsnum \<Rightarrow> string) \<Rightarrow> logical_authorizer option \<Rightarrow> security_context
    \<Rightarrow> logical_reference option \<Rightarrow> string \<Rightarrow> web_url \<Rightarrow> 't operation_descriptor \<Rightarrow> request_addressing option \<Rightarrow> trust_policy \<Rightarrow> unit result" where
  "authorize_logical_endpoint parse num authorizer context known form_href target operation addressing trust =
     (case addressing of
        None \<Rightarrow> Inr ()
      | Some a \<Rightarrow> (case addr_to a of
          None \<Rightarrow> Inr ()
        | Some to \<Rightarrow>
            if to = thing_id context then Inr ()
            else
              bind_result (logical_url parse to) (\<lambda>logical.
              bind_result (if url_protocol logical \<noteq> ''urn:''
                then bind_result (authorize_target parse (JStr to) trust (Some (principal context))) (\<lambda>u. Inr (url_href u = url_href target))
                else Inr False) (\<lambda>direct.
                if direct then Inr ()
                else case (known, authorizer) of
                    (Some reference, Some approve) \<Rightarrow>
                      bind_result (matches_reference parse num trust context form_href target to a reference) (\<lambda>m.
                        if \<not> m then denied
                        else bind_result (approve (scope_of_endpoint context target operation reference)) (\<lambda>v.
                          if v = JBool True then Inr () else denied))
                  | _ \<Rightarrow> denied))))"

text \<open>
  A message goes to another name than that of the Thing only when the name is the address of the very
  target, or the name the consumed description proves for it and the policy approves.
\<close>

lemma logical_alias_bound:
  assumes "authorize_logical_endpoint parse num authorizer context known form_href target operation (Some a) trust = Inr ()"
    "addr_to a = Some to" "to \<noteq> thing_id context"
  shows "(\<exists>u. authorize_target parse (JStr to) trust (Some (principal context)) = Inr u \<and> url_href u = url_href target)
    \<or> (\<exists>ref approve u. known = Some ref \<and> authorizer = Some approve \<and> to = logical_address ref
        \<and> (case addr_namespace a of None \<Rightarrow> WSA_NS | Some s \<Rightarrow> s) = logical_namespace ref
        \<and> same_headers num (addr_properties a) (logical_properties ref) = Inr True
        \<and> same_headers num (addr_parameters a) (logical_parameters ref) = Inr True
        \<and> authorize_target parse (JStr form_href) trust (Some (principal context)) = Inr u \<and> url_href u = url_href target
        \<and> approve (scope_of_endpoint context target operation ref) = Inr (JBool True))"
  using assms
  by (auto simp: authorize_logical_endpoint_def matches_reference_def denied_def bind_result_Inr_iff split: if_splits option.splits)

end
