(* ===== verification/Security_Token.thy ===== *)
theory Security_Token
  imports Binding_Soap Security_Digest
begin

section \<open>UsernameToken\<close>

text \<open>
  \<open>security/username-token.ts\<close>: the bound on the offset of a device's clock, nonces, and the security header
  with the password digest. SHA-1, Base64 and \<open>toISOString\<close> are parameters; an instant is the value of
  \<open>getTime()\<close>.
\<close>

abbreviation WSU_NS :: string where
  "WSU_NS \<equiv> ''http://docs.oasis-open.org/wss/2004/01/oasis-200401-wss-wssecurity-utility-1.0.xsd''"
abbreviation TOKEN_PROFILE :: string where
  "TOKEN_PROFILE \<equiv> ''http://docs.oasis-open.org/wss/2004/01/oasis-200401-wss-username-token-profile-1.0''"
abbreviation MESSAGE_PROFILE :: string where
  "MESSAGE_PROFILE \<equiv> ''http://docs.oasis-open.org/wss/2004/01/oasis-200401-wss-soap-message-security-1.0''"

record token_host =
  sha1_base64 :: "nat list \<Rightarrow> string"
  base64 :: "nat list \<Rightarrow> string"
  iso_text :: "int \<Rightarrow> string"

definition or_default :: "js \<Rightarrow> js \<Rightarrow> js" where
  "or_default v d = (if v = JUndefined \<or> v = JNull then d else v)"

definition validate_username_policy :: "js \<Rightarrow> (int \<times> int) result" where
  "validate_username_policy policy =
     (if \<not> is_object policy \<or> \<not> set (own_keys policy) \<subseteq> {''offsetMs'', ''maxOffsetMs''} then raise InvalidConfiguration
      else case (or_default (get policy ''offsetMs'') (JNum (Whole 0)), or_default (get policy ''maxOffsetMs'') (JNum (Whole 300000))) of
          (JNum offset, JNum most) \<Rightarrow>
            bind_result (positive_integer most max_safe_integer) (\<lambda>bound. case offset of
                Whole n \<Rightarrow> if \<not> is_safe_integer (Whole n) \<or> \<bar>n\<bar> > bound then raise InvalidConfiguration else Inr (n, bound)
              | _ \<Rightarrow> raise InvalidConfiguration)
        | _ \<Rightarrow> raise InvalidConfiguration)"

definition validated_nonce :: "js \<Rightarrow> byte list result" where
  "validated_nonce v =
     (case v of JBytes bs \<Rightarrow> if length bs < 16 \<or> length bs > 64 then raise InvalidConfiguration else Inr bs
      | _ \<Rightarrow> raise InvalidConfiguration)"

text \<open>The policy of a token and the instant it states; no instant stands for a value that is no date.\<close>

definition token_options :: "js \<Rightarrow> js" where
  "token_options policy =
     JObj (filter (\<lambda>kv. snd kv \<noteq> JUndefined) (map (\<lambda>k. (k, get policy k)) [''offsetMs'', ''maxOffsetMs'']))"

definition max_instant :: int where
  "max_instant = 8640000000000000"

definition token_instant :: "js \<Rightarrow> jsnum option \<Rightarrow> int result" where
  "token_instant policy now =
     bind_result (validate_username_policy (token_options policy)) (\<lambda>(offset, _). case now of
         Some (Whole t) \<Rightarrow> if \<bar>t + offset\<bar> > max_instant then raise InvalidConfiguration else Inr (t + offset)
       | _ \<Rightarrow> raise InvalidConfiguration)"

definition token_text :: "string \<Rightarrow> string \<Rightarrow> string \<Rightarrow> xml_attribute list \<Rightarrow> string \<Rightarrow> xml_node" where
  "token_text ns pre l attrs s = Xml_Element (qn ns l) (Some pre) [] attrs [Xml_Text s]"

definition unqualified :: "string \<Rightarrow> string \<Rightarrow> xml_attribute" where
  "unqualified l s = \<lparr>attr_name = qn [] l, attr_value = s, attr_prefix = None\<rparr>"

definition octets :: "byte list \<Rightarrow> nat list" where
  "octets bs = map unat bs"

definition password_digest :: "token_host \<Rightarrow> byte list \<Rightarrow> string \<Rightarrow> string \<Rightarrow> string" where
  "password_digest h nonce created password =
     sha1_base64 h (octets nonce @ encoded_bytes True created @ encoded_bytes True password)"

definition security_header :: "token_host \<Rightarrow> string \<Rightarrow> string \<Rightarrow> int \<Rightarrow> byte list \<Rightarrow> xml_node" where
  "security_header h username password instant nonce =
     (let created = iso_text h instant in
      Xml_Element (qn WSSE_NS ''Security'') (Some ''wsse'') [(''wsse'', WSSE_NS), (''wsu'', WSU_NS)] []
        [Xml_Element (qn WSSE_NS ''UsernameToken'') (Some ''wsse'') [] []
          [token_text WSSE_NS ''wsse'' ''Username'' [] username,
           token_text WSSE_NS ''wsse'' ''Password'' [unqualified ''Type'' (TOKEN_PROFILE @ ''#PasswordDigest'')]
             (password_digest h nonce created password),
           token_text WSSE_NS ''wsse'' ''Nonce'' [unqualified ''EncodingType'' (MESSAGE_PROFILE @ ''#Base64Binary'')] (base64 h (octets nonce)),
           token_text WSU_NS ''wsu'' ''Created'' [] created]])"

text \<open>\<open>createUsernameToken\<close> after the clock and the source of nonces have been asked.\<close>

definition create_username_token :: "token_host \<Rightarrow> string \<Rightarrow> string \<Rightarrow> int \<Rightarrow> byte list \<Rightarrow> string result" where
  "create_username_token h username password instant nonce = serialize_xml (JObj []) (security_header h username password instant nonce)"

end
