(* ===== verification/Binding_Executor.thy ===== *)
theory Binding_Executor
  imports Security_Endpoint Security_Token
begin

section \<open>The native executor\<close>

text \<open>
  \<open>binding/executor.ts\<close>: one operation on one target, from the checks before anything is sent through at
  most three requests to its answer, with \<open>validateNativeForm\<close> of \<open>binding/forms.ts\<close>. The world outside
  (the clock and the abort signal, the provider of credentials, the sources of nonces and identifiers, the
  transport) is a state of its own that every use hands on; the interpreter of XML Schema descriptors, the
  XML parser and the media type functions of node-wot are parameters. Options have their declared types.
\<close>

subsection \<open>Steps that may fail\<close>

record soap_request =
  req_url :: web_url
  req_headers :: "(string \<times> string) list"
  req_body :: "byte list"
  req_timeout :: int
  req_max_bytes :: int
  req_tls :: "js option"

record soap_reply =
  resp_status :: int
  resp_headers :: "(string \<times> string list) list"
  resp_body :: "byte list"

text \<open>What a request comes to: a response, a \<open>TransportFailure\<close> with its certainty, or another error.\<close>

datatype transport_reply = Replied soap_reply | Transport_Failed execution | Transport_Refused onvif_error

text \<open>What \<open>wait\<close> comes to: the provider answers, or the signal or the timer is first.\<close>

datatype lookup = Lookup_Settled "js result" | Lookup_Aborted | Lookup_Expired

record 'w exec_state =
  exec_world :: 'w
  recent_nonces :: "string list"
  sent_requests :: "(soap_request \<times> transport_reply) list"

type_synonym ('w, 'a) exec = "'w exec_state \<Rightarrow> 'a result \<times> 'w exec_state"

definition exec_lift :: "'a result \<Rightarrow> ('w, 'a) exec" where
  "exec_lift r s = (r, s)"

definition exec_bind :: "('w, 'a) exec \<Rightarrow> ('a \<Rightarrow> ('w, 'b) exec) \<Rightarrow> ('w, 'b) exec" where
  "exec_bind m f s = (case m s of (Inl e, t) \<Rightarrow> (Inl e, t) | (Inr x, t) \<Rightarrow> f x t)"

definition exec_ask :: "('w \<Rightarrow> 'a \<times> 'w) \<Rightarrow> ('w, 'a) exec" where
  "exec_ask g s = (case g (exec_world s) of (x, w) \<Rightarrow> (Inr x, s\<lparr>exec_world := w\<rparr>))"

record ('t, 'v, 'w) executor =
  run_operations :: "'t operation_descriptor list"
  run_elements :: "(string \<times> 't element_descriptor) list"
  run_implemented :: "'t element_descriptor \<Rightarrow> unit result"
  run_decode :: "'t element_descriptor \<Rightarrow> xml_node \<Rightarrow> 'v result"
  run_encode :: "'t element_descriptor \<Rightarrow> js \<Rightarrow> xml_node result"
  run_parse :: "xml_limits \<Rightarrow> byte list \<Rightarrow> xml_node result"
  run_media_type :: "js \<Rightarrow> string"
  run_media_parameters :: "js \<Rightarrow> (string \<times> string) list"
  run_url :: url_parser
  run_number :: "jsnum \<Rightarrow> string"
  run_hash :: hasher
  run_token :: token_host
  run_trust :: trust_policy
  run_authorizer :: "logical_authorizer option"
  run_limits :: xml_limits
  run_digest :: digest_policy
  run_username_policy :: js
  run_timeout :: jsnum
  run_observe :: "'w \<Rightarrow> (rat \<times> bool) \<times> 'w"
  run_provide :: "(credential_scope \<Rightarrow> 'w \<Rightarrow> lookup \<times> 'w) option"
  run_clock :: "'w \<Rightarrow> jsnum option \<times> 'w"
  run_nonce :: "'w \<Rightarrow> js \<times> 'w"
  run_uuid :: "'w \<Rightarrow> string \<times> 'w"
  run_send :: "soap_request \<Rightarrow> 'w \<Rightarrow> transport_reply \<times> 'w"

subsection \<open>The budget of an invocation\<close>

record invoke_options =
  opt_target :: "string option"
  opt_addressing :: "request_addressing option"
  opt_headers :: "(string \<times> xml_node) list"
  opt_timeout :: "jsnum option"
  opt_max_bytes :: "jsnum option"

definition new_budget :: "('t, 'v, 'w) executor \<Rightarrow> invoke_options \<Rightarrow> ('w, rat) exec" where
  "new_budget x opts =
     exec_bind (exec_ask (run_observe x)) (\<lambda>(now, _).
       exec_lift (bind_result (positive_integer (case opt_timeout opts of None \<Rightarrow> run_timeout x | Some n \<Rightarrow> n) 2147483647)
         (\<lambda>n. Inr (now + of_int n))))"

definition remaining :: "('t, 'v, 'w) executor \<Rightarrow> rat \<Rightarrow> ('w, int) exec" where
  "remaining x deadline =
     exec_bind (exec_ask (run_observe x)) (\<lambda>(now, aborted).
       exec_lift (if aborted \<or> \<lceil>deadline - now\<rceil> \<le> 0 then raise TransportError else Inr \<lceil>deadline - now\<rceil>))"

text \<open>\<open>budget.wait(() => credentialFor(...))\<close>: the budget is checked before and when the work starts.\<close>

definition credential_query :: "security_context \<Rightarrow> web_url \<Rightarrow> string \<times> js \<Rightarrow> string option \<Rightarrow> credential_scope" where
  "credential_query context target selected realm_text =
     \<lparr>cred_thing = thing_id context, cred_principal = principal context, cred_href = url_href target, cred_origin = web_origin target,
      cred_security = fst selected, cred_scheme = scheme_of selected, cred_realm = realm_text\<rparr>"

definition ask_provider :: "('t, 'v, 'w) executor \<Rightarrow> security_context \<Rightarrow> web_url \<Rightarrow> string \<times> js \<Rightarrow> string option \<Rightarrow> ('w, js) exec" where
  "ask_provider x context target selected realm_text =
     (case run_provide x of
        None \<Rightarrow> exec_lift (credential_for None context target selected realm_text)
      | Some provide \<Rightarrow>
          exec_bind (exec_ask (provide (credential_query context target selected realm_text))) (\<lambda>found. case found of
              Lookup_Settled r \<Rightarrow> exec_lift (credential_for (Some (\<lambda>_. r)) context target selected realm_text)
            | _ \<Rightarrow> exec_lift (raise TransportError)))"

definition wait_credential :: "('t, 'v, 'w) executor \<Rightarrow> rat \<Rightarrow> security_context \<Rightarrow> web_url \<Rightarrow> string \<times> js \<Rightarrow> string option
    \<Rightarrow> ('w, js) exec" where
  "wait_credential x deadline context target selected realm_text =
     exec_bind (remaining x deadline) (\<lambda>_. exec_bind (remaining x deadline) (\<lambda>_.
       ask_provider x context target selected realm_text))"

definition password_material :: "js \<Rightarrow> (string \<times> string) result" where
  "password_material m =
     (case (get m ''username'', get m ''password'') of
        (JStr u, JStr p) \<Rightarrow> if get m ''kind'' = JStr ''password'' then Inr (u, p) else raise InvalidSecurity
      | _ \<Rightarrow> raise InvalidSecurity)"

subsection \<open>Nonces\<close>

definition bytes_hex :: "byte list \<Rightarrow> string" where
  "bytes_hex bs = concat (map (\<lambda>b. [hex_digit (unat b div 16), hex_digit (unat b mod 16)]) bs)"

definition remember_nonce :: "byte list \<Rightarrow> ('w, byte list) exec" where
  "remember_nonce bs s =
     (if bytes_hex bs \<in> set (recent_nonces s) then (raise InvalidConfiguration, s)
      else
        let keys = recent_nonces s @ [bytes_hex bs]
        in (Inr bs, s\<lparr>recent_nonces := (if length keys > 1024 then tl keys else keys)\<rparr>))"

definition fresh_nonce :: "('t, 'v, 'w) executor \<Rightarrow> ('w, byte list) exec" where
  "fresh_nonce x =
     exec_bind (exec_ask (run_nonce x)) (\<lambda>v. exec_bind (exec_lift (validated_nonce v)) remember_nonce)"

subsection \<open>Forms\<close>

definition read_qname :: "js \<Rightarrow> qname result" where
  "read_qname v =
     (case (get v ''namespace'', get v ''localName'') of
        (JStr ns, JStr l) \<Rightarrow> if is_qname_js v then Inr (qn ns l) else raise InvalidRegistry
      | _ \<Rightarrow> raise InvalidRegistry)"

definition read_operation :: "js \<Rightarrow> operation_reference result" where
  "read_operation v =
     bind_result (read_qname (get v ''bindingQName'')) (\<lambda>b.
     bind_result (read_qname (get v ''portTypeQName'')) (\<lambda>p. case get v ''operation'' of
         JStr s \<Rightarrow> if s = [] then raise InvalidRegistry
           else Inr \<lparr>binding_qname = b, port_type_qname = p, operation_name = s\<rparr>
       | _ \<Rightarrow> raise InvalidRegistry))"

definition resolve_operation :: "'t operation_descriptor list \<Rightarrow> operation_reference \<Rightarrow> 't operation_descriptor result" where
  "resolve_operation operations r =
     (case find (\<lambda>d. operation_reference.truncate d = r) operations of None \<Rightarrow> raise UnsupportedCapability | Some d \<Rightarrow> Inr d)"

definition check_implemented :: "('t element_descriptor \<Rightarrow> unit result) \<Rightarrow> 't operation_descriptor \<Rightarrow> unit result" where
  "check_implemented implemented operation =
     bind_result (implemented (request_element operation)) (\<lambda>_.
     bind_result (case response_element operation of None \<Rightarrow> Inr () | Some d \<Rightarrow> implemented d) (\<lambda>_.
     bind_result (map_result (\<lambda>f. implemented (fault_element f)) (operation_faults operation)) (\<lambda>_. Inr ())))"

text \<open>\<open>charset.toLowerCase().replace("-", "") === "utf8"\<close>\<close>

definition utf8_charset :: "string \<Rightarrow> bool" where
  "utf8_charset s =
     (let low = ascii_lower s in takeWhile (\<lambda>c. c \<noteq> CHR ''-'') low @ tl (dropWhile (\<lambda>c. c \<noteq> CHR ''-'') low) = ''utf8'')"

definition soap_media_type :: string where
  "soap_media_type = ''application/soap+xml''"

definition form_media_ok :: "('t, 'v, 'w) executor \<Rightarrow> js \<Rightarrow> 't operation_descriptor \<Rightarrow> bool" where
  "form_media_ok x form operation =
     (let content_type = or_default (get form ''contentType'') (JStr soap_media_type);
          parameters = run_media_parameters x content_type in
      run_media_type x content_type = soap_media_type
      \<and> (\<forall>c\<in>set_option (map_of parameters ''charset''). utf8_charset c)
      \<and> (\<forall>a\<in>set_option (map_of parameters ''action''). a = soap_action operation)
      \<and> fst ` set parameters \<subseteq> {''charset'', ''action''}
      \<and> (get form ''response'' = JUndefined \<or> run_media_type x (get (get form ''response'') ''contentType'') = soap_media_type))"

definition validate_native_form :: "('t, 'v, 'w) executor \<Rightarrow> js \<Rightarrow> 't operation_descriptor result" where
  "validate_native_form x form =
     (if get form ''onvif:binding'' \<noteq> JStr ''soap12-http-v1''
        \<or> list_ex (\<lambda>k. starts_with ''onvif:'' k
            \<and> k \<notin> {''onvif:binding'', ''onvif:operation'', ''onvif:soapAction'', ''onvif:input''}) (own_keys form)
      then raise UnsupportedCapability
      else
        bind_result (read_operation (get form ''onvif:operation'')) (\<lambda>r.
        bind_result (resolve_operation (run_operations x) r) (\<lambda>operation.
        if response_element operation = None \<and> map_option one_way (execution_of operation) \<noteq> Some True
        then raise UnsupportedCapability
        else
          bind_result (check_implemented (run_implemented x) operation) (\<lambda>_.
          if get form ''onvif:soapAction'' \<notin> {JUndefined, JStr (soap_action operation)}
            \<or> get form ''htv:methodName'' \<notin> {JUndefined, JStr ''POST''}
          then raise InvalidRegistry
          else if get form ''contentCoding'' \<notin> {JUndefined, JStr ''identity''} then raise UnsupportedCapability
          else if list_ex (\<lambda>k. get form k \<noteq> JUndefined) [''subprotocol'', ''htv:headers'', ''scopes'', ''additionalResponses'']
          then raise UnsupportedCapability
          else if \<not> form_media_ok x form operation then raise UnsupportedCapability
          else Inr operation))))"

subsection \<open>Responses\<close>

text \<open>
  \<open>/(?:^|;)\s*charset\s*=\s*"?([^;"\s]+)/iu\<close> at the start and after each semicolon, with case folded as the
  flags do it: the long s is an s.
\<close>

definition folded_point :: "string \<Rightarrow> string" where
  "folded_point p = (if point p = 0x17F then ''s'' else if point p = 0x212A then ''k'' else ascii_lower p)"

definition skip_word :: "string \<Rightarrow> string list \<Rightarrow> string list option" where
  "skip_word w ps = (if map folded_point (take (length w) ps) = map (\<lambda>c. [c]) w then Some (drop (length w) ps) else None)"

definition charset_here :: "string list \<Rightarrow> string option" where
  "charset_here ps =
     (case skip_word ''charset'' (skip_space ps) of
        None \<Rightarrow> None
      | Some rest \<Rightarrow> (case skip_space rest of
          [] \<Rightarrow> None
        | q # later \<Rightarrow>
            if q \<noteq> ''='' then None
            else
              let start = (case skip_space later of [] \<Rightarrow> [] | r # rs \<Rightarrow> if r = [CHR 0x22] then rs else r # rs);
                  found = takeWhile (\<lambda>r. r \<noteq> '';'' \<and> r \<noteq> [CHR 0x22] \<and> \<not> js_space (point r)) start
              in if found = [] then None else Some (concat found)))"

fun charset_after :: "string list \<Rightarrow> string option" where
  "charset_after [] = None"
| "charset_after (p # ps) =
     (case (if p = '';'' then charset_here ps else None) of Some c \<Rightarrow> Some c | None \<Rightarrow> charset_after ps)"

definition charset_of :: "string \<Rightarrow> string option" where
  "charset_of s = (case charset_here (code_points s) of Some c \<Rightarrow> Some c | None \<Rightarrow> charset_after (code_points s))"

text \<open>\<open>/^application\/soap\+xml(?:\s*;|$)/iu\<close>\<close>

definition soap_content_type :: "string \<Rightarrow> bool" where
  "soap_content_type s =
     (case skip_word soap_media_type (code_points s) of
        None \<Rightarrow> False
      | Some rest \<Rightarrow> rest = [] \<or> (case skip_space rest of q # _ \<Rightarrow> q = '';'' | [] \<Rightarrow> False))"

definition encoding_qualified :: "soap_reply \<Rightarrow> bool" where
  "encoding_qualified r =
     ((case map_of (resp_headers r) ''content-type'' of
         Some [t] \<Rightarrow> soap_content_type t \<and> (\<forall>c\<in>set_option (charset_of t). utf8_charset c)
       | _ \<Rightarrow> False)
      \<and> (\<forall>vs\<in>set_option (map_of (resp_headers r) ''content-encoding''). \<forall>v\<in>set vs. ascii_lower v = ''identity''))"

subsection \<open>One attempt\<close>

datatype 'v native_result =
    Native_Response (native_value: 'v) (native_xml: xml_node) (native_status: int)
  | Accepted_One_Way (native_status: int)

text \<open>What the checks before the first request settle.\<close>

record ('t) native_call =
  call_context :: security_context
  call_target :: web_url
  call_operation :: "'t operation_descriptor"
  call_payload :: xml_node
  call_options :: invoke_options
  call_limits :: xml_limits
  call_deadline :: rat
  call_digest :: "(string \<times> js) option"
  call_token :: "(string \<times> js) option"
  call_tls :: "js option"

definition limits_js :: "xml_limits \<Rightarrow> js" where
  "limits_js l = JObj [(''maxBytes'', JNum (Whole (xml_bytes l))), (''maxDepth'', JNum (Whole (xml_depth l))),
     (''maxNodes'', JNum (Whole (xml_nodes l))), (''maxAttributes'', JNum (Whole (xml_attributes l)))]"

definition policy_js :: "digest_policy \<Rightarrow> js" where
  "policy_js p = JObj [(''algorithms'', JArr (map (JStr \<circ> algorithm_text) (policy_algorithms p))),
     (''qops'', JArr (map (JStr \<circ> qop_text) (policy_qops p)))]"

definition string_bytes :: "string \<Rightarrow> byte list" where
  "string_bytes s = map (\<lambda>c. word_of_nat (byte_of c)) s"

definition username_token_for :: "('t, 'v, 'w) executor \<Rightarrow> 't native_call \<Rightarrow> ('w, string option) exec" where
  "username_token_for x c =
     (case call_token c of
        None \<Rightarrow> exec_lift (Inr None)
      | Some selected \<Rightarrow>
          exec_bind (wait_credential x (call_deadline c) (call_context c) (call_target c) selected None) (\<lambda>m.
          exec_bind (exec_lift (password_material m)) (\<lambda>(user, password).
          exec_bind (exec_ask (run_clock x)) (\<lambda>now.
          exec_bind (exec_lift (token_instant (run_username_policy x) now)) (\<lambda>instant.
          exec_bind (fresh_nonce x) (\<lambda>nonce.
          exec_lift (bind_result (create_username_token (run_token x) user password instant nonce) (\<lambda>t. Inr (Some t)))))))))"

definition request_body :: "('t, 'v, 'w) executor \<Rightarrow> 't native_call \<Rightarrow> string option \<Rightarrow> ('w, byte list) exec" where
  "request_body x c token =
     exec_bind (exec_ask (run_uuid x)) (\<lambda>uuid.
       exec_lift (bind_result (soap_envelope (\<lambda>t. run_parse x (run_limits x) (string_bytes t)) (call_operation c)
           (url_href (call_target c)) uuid (call_payload c)
           \<lparr>env_username_token = token, env_parameters = None, env_addressing = opt_addressing (call_options c),
            env_headers = opt_headers (call_options c)\<rparr>) (\<lambda>env.
         bind_result (serialize_xml (limits_js (run_limits x)) env) (\<lambda>text_form. Inr (string_bytes text_form)))))"

definition authorization_for :: "('t, 'v, 'w) executor \<Rightarrow> 't native_call \<Rightarrow> digest_challenge option \<Rightarrow> byte list
    \<Rightarrow> ('w, (string \<times> string) list) exec" where
  "authorization_for x c challenge body =
     (case (call_digest c, challenge) of
        (Some selected, Some ch) \<Rightarrow>
          exec_bind (wait_credential x (call_deadline c) (call_context c) (call_target c) selected (Some (chal_realm ch))) (\<lambda>m.
          exec_bind (exec_lift (password_material m)) (\<lambda>(user, password).
          exec_bind (fresh_nonce x) (\<lambda>nonce.
          exec_lift (bind_result (create_digest_authorization (run_hash x)
              \<lparr>in_challenge = ch, in_username = user, in_password = password, in_method = ''POST'',
               in_uri = web_pathname (call_target c) @ web_search (call_target c), in_body = body,
               in_cnonce = bytes_hex nonce, in_count = Whole 1\<rparr>) (\<lambda>a. Inr [(''Authorization'', a)])))))
      | _ \<Rightarrow> exec_lift (Inr []))"

text \<open>\<open>request\<close>: a failure after the request may have gone out is never taken for one that was not sent.\<close>

definition send_request :: "('t, 'v, 'w) executor \<Rightarrow> soap_request \<Rightarrow> ('w, soap_reply) exec" where
  "send_request x r s =
     (case run_send x r (exec_world s) of (reply, w) \<Rightarrow>
        (case reply of
           Replied a \<Rightarrow> Inr a
         | Transport_Failed e \<Rightarrow> if e = NotSent then raise TransportError else raise_unknown OutcomeUnknown
         | Transport_Refused e \<Rightarrow> Inl e,
         s\<lparr>exec_world := w, sent_requests := sent_requests s @ [(r, reply)]\<rparr>))"

definition next_challenge :: "('t, 'v, 'w) executor \<Rightarrow> 't native_call \<Rightarrow> digest_challenge option \<Rightarrow> bool \<Rightarrow> soap_reply
    \<Rightarrow> digest_challenge result" where
  "next_challenge x c challenge final r =
     (if call_digest c = None \<or> final then auth_failed
      else
        bind_result (select_digest_challenge (case map_of (resp_headers r) ''www-authenticate'' of None \<Rightarrow> [] | Some hs \<Rightarrow> hs)
          (policy_js (run_digest x))) (\<lambda>fresh.
          if (\<exists>ch\<in>set_option challenge. \<not> chal_stale fresh \<or> chal_nonce fresh = chal_nonce ch \<or> chal_realm fresh \<noteq> chal_realm ch
            \<or> chal_algorithm fresh \<noteq> chal_algorithm ch \<or> chal_qop fresh \<noteq> chal_qop ch)
          then auth_failed else Inr fresh))"

text \<open>An error while a response is read no longer says that nothing was sent.\<close>

definition after_response :: "'a result \<Rightarrow> 'a result" where
  "after_response r = (case r of Inl (OnvifError c e) \<Rightarrow> Inl (OnvifError c (if e = NotSent then Unknown else e)) | _ \<Rightarrow> r)"

definition read_answer :: "('t, 'v, 'w) executor \<Rightarrow> 't native_call \<Rightarrow> soap_reply \<Rightarrow> 'v native_result result" where
  "read_answer x c r =
     bind_result (run_parse x (call_limits c) (resp_body r)) (\<lambda>doc.
     bind_result (soap_response (run_decode x) (run_elements x) (call_operation c) (resp_status r)
         (case addressing_field addr_namespace (opt_addressing (call_options c)) of None \<Rightarrow> WSA_NS | Some ns \<Rightarrow> ns) doc) (\<lambda>answer.
       case answer of
         Soap_Fault f \<Rightarrow> Inl (soap_fault_error f)
       | Soap_Payload p \<Rightarrow> (case response_element (call_operation c) of
           None \<Rightarrow> raise_unknown InvalidXml
         | Some d \<Rightarrow> bind_result (run_decode x d p) (\<lambda>v. Inr (Native_Response v p (resp_status r))))))"

datatype 'v attempt_end = Finished "'v native_result" | Challenged digest_challenge

definition judge_response :: "('t, 'v, 'w) executor \<Rightarrow> 't native_call \<Rightarrow> digest_challenge option \<Rightarrow> bool \<Rightarrow> soap_reply
    \<Rightarrow> 'v attempt_end result" where
  "judge_response x c challenge final r =
     (if 300 \<le> resp_status r \<and> resp_status r < 400 then raise_unknown PolicyDenied
      else if resp_status r = 401 then bind_result (next_challenge x c challenge final r) (\<lambda>ch. Inr (Challenged ch))
      else if response_element (call_operation c) = None \<and> resp_status r \<in> {202, 204} \<and> resp_body r = []
      then Inr (Finished (Accepted_One_Way (resp_status r)))
      else if \<not> encoding_qualified r then raise_unknown UnsupportedCapability
      else after_response (bind_result (read_answer x c r) (\<lambda>v. Inr (Finished v))))"

definition attempt :: "('t, 'v, 'w) executor \<Rightarrow> 't native_call \<Rightarrow> digest_challenge option \<Rightarrow> bool \<Rightarrow> ('w, 'v attempt_end) exec" where
  "attempt x c challenge final =
     exec_bind (username_token_for x c) (\<lambda>token.
     exec_bind (request_body x c token) (\<lambda>body.
     exec_bind (authorization_for x c challenge body) (\<lambda>auth.
     exec_bind (remaining x (call_deadline c)) (\<lambda>ms.
     exec_bind (send_request x
         \<lparr>req_url = call_target c,
          req_headers = [(''Content-Type'', ''application/soap+xml; charset=utf-8; action='' @ [CHR 0x22]
              @ soap_action (call_operation c) @ [CHR 0x22]), (''Accept'', ''application/soap+xml'')] @ auth,
          req_body = body, req_timeout = ms, req_max_bytes = xml_bytes (call_limits c), req_tls = call_tls c\<rparr>) (\<lambda>r.
       exec_lift (judge_response x c challenge final r))))))"

fun attempts :: "('t, 'v, 'w) executor \<Rightarrow> 't native_call \<Rightarrow> nat \<Rightarrow> digest_challenge option \<Rightarrow> ('w, 'v native_result) exec" where
  "attempts x c 0 challenge = exec_lift auth_failed"
| "attempts x c (Suc n) challenge =
     exec_bind (attempt x c challenge (n = 0)) (\<lambda>e. case e of
         Finished v \<Rightarrow> exec_lift (Inr v)
       | Challenged ch \<Rightarrow> attempts x c n (Some ch))"

subsection \<open>The exchange\<close>

definition selected_scheme :: "js list \<Rightarrow> selection \<Rightarrow> (string \<times> js) option" where
  "selected_scheme schemes sel = find (\<lambda>e. scheme_of e \<in> set schemes) sel"

definition tls_fields :: "string list \<Rightarrow> js \<Rightarrow> (string \<times> js) list" where
  "tls_fields names v = filter (\<lambda>kv. snd kv \<noteq> JUndefined) (map (\<lambda>k. (k, get v k)) names)"

definition client_tls :: "('t, 'v, 'w) executor \<Rightarrow> rat \<Rightarrow> security_context \<Rightarrow> web_url \<Rightarrow> selection \<Rightarrow> ('w, js option) exec" where
  "client_tls x deadline context target sel =
     (let general = map_option (tls_fields [''ca'', ''minVersion'']) (policy_tls (run_trust x)) in
      case selected_scheme identity_schemes sel of
        Some certificate \<Rightarrow>
          if url_protocol target \<noteq> ''https:'' then exec_lift (raise PolicyDenied)
          else
            exec_bind (wait_credential x deadline context target certificate None) (\<lambda>m.
              exec_lift (if get m ''kind'' \<noteq> JStr ''tls'' then raise InvalidSecurity
                else Inr (Some (JObj ((case general of None \<Rightarrow> [] | Some kvs \<Rightarrow> kvs)
                  @ [(''cert'', get m ''cert''), (''key'', get m ''key'')] @ tls_fields [''passphrase''] m)))))
      | None \<Rightarrow>
          exec_lift (if (\<exists>t\<in>set_option (policy_tls (run_trust x)). get t ''cert'' \<noteq> JUndefined \<or> get t ''key'' \<noteq> JUndefined)
            then raise InvalidSecurity else Inr (map_option JObj general)))"

definition form_href :: "js \<Rightarrow> string" where
  "form_href form = (case get form ''href'' of JStr s \<Rightarrow> s | _ \<Rightarrow> [])"

text \<open>The checks that need nothing from the world: the response bound, the operation, the target and the schemes.\<close>

definition check_call :: "('t, 'v, 'w) executor \<Rightarrow> security_context \<Rightarrow> logical_reference option \<Rightarrow> js \<Rightarrow> xml_node \<Rightarrow> invoke_options
    \<Rightarrow> rat \<Rightarrow> ('t native_call \<times> selection) result" where
  "check_call x context known form content opts deadline =
     bind_result (positive_integer (case opt_max_bytes opts of None \<Rightarrow> Whole (xml_bytes (run_limits x)) | Some n \<Rightarrow> n) (16 * 1024 * 1024)) (\<lambda>most.
     bind_result (validate_native_form x form) (\<lambda>operation.
     bind_result (authorize_target (run_url x) (case opt_target opts of None \<Rightarrow> get form ''href'' | Some t \<Rightarrow> JStr t) (run_trust x)
         (Some (principal context))) (\<lambda>target.
     bind_result (authorize_logical_endpoint (run_url x) (run_number x) (run_authorizer x) context known (form_href form) target operation
         (opt_addressing opts) (run_trust x)) (\<lambda>_.
     bind_result (select_security context (get form ''security'') True) (\<lambda>sel.
       Inr (\<lparr>call_context = context, call_target = target, call_operation = operation, call_payload = content, call_options = opts,
             call_limits = (run_limits x)\<lparr>xml_bytes := min (xml_bytes (run_limits x)) most\<rparr>, call_deadline = deadline,
             call_digest = selected_scheme [JStr ''digest''] sel, call_token = selected_scheme [JStr username_token_scheme] sel,
             call_tls = None\<rparr>, sel))))))"

definition exchange :: "('t, 'v, 'w) executor \<Rightarrow> security_context \<Rightarrow> logical_reference option \<Rightarrow> js \<Rightarrow> xml_node \<Rightarrow> invoke_options
    \<Rightarrow> rat \<Rightarrow> ('w, 'v native_result) exec" where
  "exchange x context known form content opts deadline =
     exec_bind (remaining x deadline) (\<lambda>_.
     exec_bind (exec_lift (check_call x context known form content opts deadline)) (\<lambda>(c, sel).
     exec_bind (client_tls x deadline context (call_target c) sel) (\<lambda>tls.
     exec_bind (exec_lift (run_decode x (request_element (call_operation c)) content)) (\<lambda>_.
       attempts x (c\<lparr>call_tls := tls\<rparr>) 3 None))))"

text \<open>\<open>execute\<close>: the value is written by the descriptor of the operation.\<close>

definition execute :: "('t, 'v, 'w) executor \<Rightarrow> security_context \<Rightarrow> logical_reference option \<Rightarrow> js \<Rightarrow> js \<Rightarrow> invoke_options
    \<Rightarrow> ('w, 'v native_result) exec" where
  "execute x context known form v opts =
     exec_bind (new_budget x opts) (\<lambda>deadline.
     exec_bind (exec_lift (bind_result (validate_native_form x form) (\<lambda>operation. run_encode x (request_element operation) v))) (\<lambda>content.
       exchange x context known form content opts deadline))"

end
