(* ===== verification/Binding_Soap_Laws.thy ===== *)
theory Binding_Soap_Laws
  imports Binding_Soap
begin

section \<open>Laws of the SOAP envelopes\<close>

text \<open>
  What an envelope that is sent holds whatever headers the caller supplies, and what a response must have
  been for its payload to be accepted.
\<close>

abbreviation protected_namespaces :: "string set" where
  "protected_namespaces \<equiv> {SOAP_NS, WSA_NS, WSA_2004_NS, WSSE_NS}"

subsection \<open>Requests\<close>

lemma is_element_new_node [simp]: "is_element (new_node ns p l cs)"
  by (simp add: new_node_def)

lemma el_name_mark [simp]: "el_name (mark_reference n) = el_name n" if "is_element n"
  using that by (cases n) (simp_all add: Let_def)

lemma reference_header_Inr:
  assumes "reference_header ns n = Inr h" "is_element n"
  shows "namespace (el_name h) \<notin> protected_namespaces" "el_name h = el_name n" "children_of h = children_of n"
    "ns = WSA_2004_NS \<longrightarrow> h = n"
    "ns \<noteq> WSA_2004_NS \<longrightarrow> (\<exists>p. filter (\<lambda>a. attr_name a = reference_marker) (el_attributes h)
       = [\<lparr>attr_name = reference_marker, attr_value = ''true'', attr_prefix = Some p\<rparr>] \<and> map_of (el_namespaces h) p = Some WSA_NS)"
proof -
  have n: "namespace (el_name n) \<notin> protected_namespaces" "h = (if ns = WSA_2004_NS then n else mark_reference n)"
    using assms(1) by (auto simp: reference_header_def assert_header_def bind_result_Inr_iff split: if_splits)
  then show "namespace (el_name h) \<notin> protected_namespaces" "el_name h = el_name n" "ns = WSA_2004_NS \<longrightarrow> h = n"
    using assms(2) by auto
  show "children_of h = children_of n" using n(2) assms(2) by (cases n) (auto simp: Let_def)
  show "ns \<noteq> WSA_2004_NS \<longrightarrow> (\<exists>p. filter (\<lambda>a. attr_name a = reference_marker) (el_attributes h)
       = [\<lparr>attr_name = reference_marker, attr_value = ''true'', attr_prefix = Some p\<rparr>] \<and> map_of (el_namespaces h) p = Some WSA_NS)"
    using n(2) assms(2) by (cases n) (auto simp: Let_def filter_False update_Some_unfold)
qed

lemma add_headers_Inr:
  assumes "add_headers es hs = Inr all_headers"
  shows "all_headers = hs @ map snd es" "\<forall>(k, h)\<in>set es. namespace (el_name h) \<notin> protected_namespaces \<and> k = expanded_name (el_name h)"
    "distinct (map (el_name \<circ> snd) es)" "(el_name ` snd ` set es) \<inter> (el_name ` set hs) = {}"
  using assms
proof (induction es arbitrary: hs)
  case Nil
  { case 1 then show ?case by simp next case 2 then show ?case by simp next case 3 then show ?case by simp next case 4 then show ?case by simp }
next
  case (Cons e es)
  have c: "add_headers es (hs @ [snd e]) = Inr all_headers" "namespace (el_name (snd e)) \<notin> protected_namespaces"
      "fst e = expanded_name (el_name (snd e))" "\<forall>h\<in>set hs. el_name h \<noteq> el_name (snd e)"
    if "add_headers (e # es) hs = Inr all_headers" for hs
    using that by (auto simp: custom_header_def assert_header_def bind_result_Inr_iff list_ex_iff split: if_splits)
  { case 1 from Cons.IH(1)[OF c(1)[OF 1]] show ?case by simp
  next case 2 from Cons.IH(2)[OF c(1)[OF 2]] c(2,3)[OF 2] show ?case by (cases e) auto
  next case 3 from Cons.IH(3)[OF c(1)[OF 3]] Cons.IH(4)[OF c(1)[OF 3]] show ?case by auto
  next case 4 from Cons.IH(4)[OF c(1)[OF 4]] c(4)[OF 4] show ?case by auto }
qed

definition request_namespace :: "envelope_options \<Rightarrow> string" where
  "request_namespace opts = (case addressing_field addr_namespace (env_addressing opts) of None \<Rightarrow> WSA_NS | Some s \<Rightarrow> s)"

definition request_references :: "envelope_options \<Rightarrow> xml_node list" where
  "request_references opts =
     (case addressing_field addr_properties (env_addressing opts) of None \<Rightarrow> [] | Some ps \<Rightarrow> ps)
     @ (case addressing_field addr_parameters (env_addressing opts) of
          Some ps \<Rightarrow> ps | None \<Rightarrow> (case env_parameters opts of Some ps \<Rightarrow> ps | None \<Rightarrow> []))"

lemma references_marked:
  assumes "map_result (reference_header ns) rs = Inr hs" "\<forall>r\<in>set rs. is_element r"
  shows "map el_name hs = map el_name rs"
    "\<forall>h\<in>set hs. namespace (el_name h) \<notin> protected_namespaces
       \<and> (ns = WSA_NS \<longrightarrow> map attr_value (filter (\<lambda>a. attr_name a = reference_marker) (el_attributes h)) = [''true''])"
proof -
  have l: "list_all2 (\<lambda>r h. reference_header ns r = Inr h) rs hs" by (rule map_result_Inr[OF assms(1)])
  then have "list_all2 (\<lambda>r h. el_name r = el_name h) rs hs"
    using assms(2) by (auto intro: list_all2_mono[OF l] simp: list_all2_conv_all_nth reference_header_Inr(2))
  then show "map el_name hs = map el_name rs" by (auto simp: list_all2_conv_all_nth intro: nth_equalityI)
  show "\<forall>h\<in>set hs. namespace (el_name h) \<notin> protected_namespaces
       \<and> (ns = WSA_NS \<longrightarrow> map attr_value (filter (\<lambda>a. attr_name a = reference_marker) (el_attributes h)) = [''true''])"
  proof
    fix h assume "h \<in> set hs"
    then obtain i where "i < length hs" "h = hs ! i" by (auto simp: in_set_conv_nth)
    then have r: "rs ! i \<in> set rs" "reference_header ns (rs ! i) = Inr h" using l by (simp_all add: list_all2_conv_all_nth)
    with assms(2) have e: "is_element (rs ! i)" by blast
    show "namespace (el_name h) \<notin> protected_namespaces
       \<and> (ns = WSA_NS \<longrightarrow> map attr_value (filter (\<lambda>a. attr_name a = reference_marker) (el_attributes h)) = [''true''])"
      using reference_header_Inr(1,5)[OF r(2) e] by auto
  qed
qed

text \<open>
  C31. The caller's headers never replace those of the runtime: the header of every envelope is the four
  headers of WS-Addressing, then the reference headers, the caller's headers and the security token, in
  this order; no reference or custom header lies in a protected namespace, every custom header has the name
  it is filed under and a name that no other one has, and under WS-Addressing 2005 every reference
  parameter is marked as one exactly once. The body is the payload and nothing else.
\<close>

theorem envelope_headers_protected:
  assumes "soap_envelope parse operation href uuid content opts = Inr env" "\<forall>r\<in>set (request_references opts). is_element r"
  shows "\<exists>refs token.
     child_elements env = [new_node SOAP_NS ''s'' ''Header''
       (addressing_headers operation (request_namespace opts) href opts uuid @ refs @ map snd (env_headers opts) @ token),
       new_node SOAP_NS ''s'' ''Body'' [content]]
     \<and> map el_name refs = map el_name (request_references opts)
     \<and> (\<forall>h\<in>set refs \<union> snd ` set (env_headers opts). namespace (el_name h) \<notin> protected_namespaces)
     \<and> (request_namespace opts = WSA_NS \<longrightarrow>
          (\<forall>h\<in>set refs. map attr_value (filter (\<lambda>a. attr_name a = reference_marker) (el_attributes h)) = [''true'']))
     \<and> distinct (map (el_name \<circ> snd) (env_headers opts)) \<and> el_name ` set refs \<inter> el_name ` snd ` set (env_headers opts) = {}
     \<and> (\<forall>(k, h)\<in>set (env_headers opts). k = expanded_name (el_name h))
     \<and> (env_username_token opts = None \<longleftrightarrow> token = []) \<and> length token \<le> 1"
proof -
  let ?ns = "request_namespace opts"
  let ?ps = "case addressing_field addr_properties (env_addressing opts) of None \<Rightarrow> [] | Some ps \<Rightarrow> ps"
  let ?rs = "case addressing_field addr_parameters (env_addressing opts) of
          Some ps \<Rightarrow> ps | None \<Rightarrow> (case env_parameters opts of Some ps \<Rightarrow> ps | None \<Rightarrow> [])"
  obtain props params hs token where
    m: "map_result (reference_header WSA_2004_NS) ?ps = Inr props" "map_result (reference_header ?ns) ?rs = Inr params"
      "add_headers (env_headers opts) (addressing_headers operation ?ns href opts uuid @ props @ params) = Inr hs"
      "(case env_username_token opts of None \<Rightarrow> Inr [] | Some t \<Rightarrow> bind_result (parse t) (\<lambda>n. Inr [with_must_understand n])) = Inr token"
    and ns: "?ns \<in> {WSA_NS, WSA_2004_NS}" "?ns = WSA_NS \<longrightarrow> ?ps = []"
    and env: "env = Xml_Element (qn SOAP_NS ''Envelope'') (Some ''s'') [(''s'', SOAP_NS), (''wsa'', ?ns)] []
       [new_node SOAP_NS ''s'' ''Header'' (hs @ token), new_node SOAP_NS ''s'' ''Body'' [content]]"
    using assms(1) unfolding soap_envelope_def Let_def request_namespace_def[symmetric]
    by (auto simp only: bind_result_Inr_iff split: if_splits)
  have e: "\<forall>r\<in>set ?ps. is_element r" "\<forall>r\<in>set ?rs. is_element r" using assms(2) unfolding request_references_def by auto
  note p = references_marked[OF m(1) e(1)] references_marked[OF m(2) e(2)] and a = add_headers_Inr[OF m(3)]
  have none: "?ns = WSA_NS \<Longrightarrow> props = []" using ns(2) m(1) by auto
  have t: "(env_username_token opts = None \<longleftrightarrow> token = []) \<and> length token \<le> 1"
    using m(4) by (auto simp: bind_result_Inr_iff split: option.splits)
  have children: "child_elements env = [new_node SOAP_NS ''s'' ''Header''
       (addressing_headers operation ?ns href opts uuid @ (props @ params) @ map snd (env_headers opts) @ token),
       new_node SOAP_NS ''s'' ''Body'' [content]]"
    by (simp add: env child_elements_def a(1))
  have names: "map el_name (props @ params) = map el_name (request_references opts)"
    using p(1,3) by (simp add: request_references_def)
  have protected: "\<forall>h\<in>set (props @ params) \<union> snd ` set (env_headers opts). namespace (el_name h) \<notin> protected_namespaces"
    using p(2,4) a(2) by fastforce
  have marked: "?ns = WSA_NS \<longrightarrow>
      (\<forall>h\<in>set (props @ params). map attr_value (filter (\<lambda>a. attr_name a = reference_marker) (el_attributes h)) = [''true''])"
    using p(4) none by auto
  have apart: "el_name ` set (props @ params) \<inter> el_name ` snd ` set (env_headers opts) = {}" using a(4) by auto
  have filed: "\<forall>(k, h)\<in>set (env_headers opts). k = expanded_name (el_name h)" using a(2) by auto
  from t have "env_username_token opts = None \<longleftrightarrow> token = []" "length token \<le> 1" by blast+
  then show ?thesis
    by (intro exI[of _ "props @ params"] exI[of _ token] conjI children names protected marked a(3) apart filed)
qed

definition sample_operation :: "unit operation_descriptor" where
  "sample_operation = \<lparr>binding_qname = qn ''b'' ''B'', port_type_qname = qn ''p'' ''P'', operation_name = ''Get'',
     execution_of = None, soap_action = ''a'', addressing_action = ''a'', response_action = Some ''r'',
     request_element = \<lparr>element_name = qn ''u'' ''Get'', element_type = ()\<rparr>,
     response_element = Some \<lparr>element_name = qn ''u'' ''Got'', element_type = ()\<rparr>, operation_faults = [], operation_access = Read\<rparr>"

definition sample_reference :: xml_node where
  "sample_reference = Xml_Element (qn ''u'' ''Key'') None [(''wsa'', ''other'')] [] [Xml_Text ''7'']"

definition sample_envelope_options :: envelope_options where
  "sample_envelope_options = \<lparr>env_username_token = None, env_parameters = None,
     env_addressing = Some \<lparr>addr_namespace = None, addr_to = None, addr_parameters = Some [sample_reference], addr_properties = None\<rparr>,
     env_headers = [(''{u}Trace'', Xml_Element (qn ''u'' ''Trace'') None [] [] [])]\<rparr>"

lemma sample_envelope: "\<exists>env. soap_envelope (\<lambda>t. raise InvalidXml) sample_operation ''h'' ''i'' (Xml_Text []) sample_envelope_options = Inr env"
  by (simp add: soap_envelope_def sample_envelope_options_def addressing_field_def sample_reference_def reference_header_def assert_header_def
      assert_xml_element.simps js_of_qname_def js_field_def content_ok_def is_qname_js_def is_ncname_js_def prefix_ok_def is_ncname_def in_ranges_def xml_name_start_def xml_name_char_def point_def byte_of_def
      trailing_bytes.simps custom_header_def expanded_name_def addressing_headers_def sample_operation_def new_node_def Let_def)

theorem envelope_headers_protected_witness:
  "\<exists>env refs. soap_envelope (\<lambda>t. raise InvalidXml) sample_operation ''h'' ''i'' (Xml_Text []) sample_envelope_options = Inr env
     \<and> map el_name refs = [qn ''u'' ''Key'']
     \<and> (\<forall>h\<in>set refs. map attr_value (filter (\<lambda>a. attr_name a = reference_marker) (el_attributes h)) = [''true''])"
proof -
  obtain env where e: "soap_envelope (\<lambda>t. raise InvalidXml) sample_operation ''h'' ''i'' (Xml_Text []) sample_envelope_options = Inr env"
    using sample_envelope by blast
  have r: "request_references sample_envelope_options = [sample_reference]" "request_namespace sample_envelope_options = WSA_NS"
    by (simp_all add: request_references_def request_namespace_def sample_envelope_options_def addressing_field_def)
  have i: "\<forall>r\<in>set (request_references sample_envelope_options). is_element r" unfolding r by (simp add: sample_reference_def)
  from envelope_headers_protected[OF e i] obtain refs where f: "map el_name refs = map el_name (request_references sample_envelope_options)"
      "request_namespace sample_envelope_options = WSA_NS \<longrightarrow>
         (\<forall>h\<in>set refs. map attr_value (filter (\<lambda>a. attr_name a = reference_marker) (el_attributes h)) = [''true''])"
    by (elim exE conjE) (rule that)
  have "map el_name refs = [qn ''u'' ''Key'']" using f(1) unfolding r by (simp add: sample_reference_def)
  then show ?thesis by (intro exI conjI) (rule e, assumption, use f(2) r(2) in simp)
qed

subsection \<open>Responses\<close>

text \<open>The one element of the body of an envelope.\<close>

definition body_payload :: "xml_node \<Rightarrow> xml_node \<Rightarrow> bool" where
  "body_payload doc p \<longleftrightarrow> el_name doc = qn SOAP_NS ''Envelope''
     \<and> (\<exists>body\<in>set (child_elements doc). el_name body = qn SOAP_NS ''Body'' \<and> child_elements body = [p])"

lemma soap_payload_body:
  "soap_response decode elements operation status ns doc = Inr (Soap_Payload p)
   \<Longrightarrow> body_payload doc p \<and> 200 \<le> status \<and> status < 300"
  by (auto simp: soap_response_def body_payload_def has_qname_def bind_result_Inr_iff required_child_Inr filter_eq_Cons_iff
      split: if_splits list.splits)

text \<open>
  C32. A payload is accepted only from a response that is one: a successful status, an envelope with one
  body and no other content than that and one header, no header that must be understood and is not, and
  the action the registry declares; and it is the one element of the body, and not a fault.
\<close>

theorem response_payload_sound:
  assumes "soap_response decode elements operation status ns doc = Inr (Soap_Payload p)"
  shows "el_name doc = qn SOAP_NS ''Envelope'' \<and> 200 \<le> status \<and> status < 300
    \<and> (\<exists>head body. set (child_elements doc) = set_option head \<union> {body} \<and> el_name body = qn SOAP_NS ''Body''
       \<and> child_elements body = [p] \<and> el_name p \<noteq> qn SOAP_NS ''Fault''
       \<and> (\<forall>h\<in>set_option head. el_name h = qn SOAP_NS ''Header'' \<and> (\<forall>e\<in>set (child_elements h). \<not> not_understood ns e))
       \<and> (\<forall>a. response_action operation = Some a \<longrightarrow> (\<exists>h n. head = Some h
            \<and> filter (has_qname (qn ns ''Action'')) (child_elements h) = [n] \<and> text_content n = Inr a)))"
proof -
  obtain head body where
    c: "one_child False doc (qn SOAP_NS ''Header'') = Inr head" "required_child doc (qn SOAP_NS ''Body'') = Inr body"
    and r: "has_qname (qn SOAP_NS ''Envelope'') doc"
      "\<not> list_ex (\<lambda>c. \<not> has_qname (qn SOAP_NS ''Header'') c \<and> \<not> has_qname (qn SOAP_NS ''Body'') c) (child_elements doc)"
      "\<not> (case head of None \<Rightarrow> False | Some h \<Rightarrow> list_ex (not_understood ns) (child_elements h))"
      "child_elements body = [p]" "\<not> has_qname (qn SOAP_NS ''Fault'') p" "200 \<le> status" "status < 300"
      "response_action_ok operation ns head = Inr ()"
    using assms by (auto simp: soap_response_def bind_result_Inr_iff split: if_splits list.splits)
  have b: "filter (has_qname (qn SOAP_NS ''Body'')) (child_elements doc) = [body]" using c(2) by (simp add: required_child_Inr)
  have h: "filter (has_qname (qn SOAP_NS ''Header'')) (child_elements doc) = (case head of None \<Rightarrow> [] | Some x \<Rightarrow> [x])"
    using c(1) by (cases head) (simp_all add: one_child_Some one_child_None)
  have bs: "set (filter (has_qname (qn SOAP_NS ''Body'')) (child_elements doc)) = {body}" using b by simp
  have hs: "set (filter (has_qname (qn SOAP_NS ''Header'')) (child_elements doc)) = set_option head" using h by (cases head) simp_all
  have s: "set (child_elements doc) = set_option head \<union> {body}"
    using r(2) unfolding bs[symmetric] hs[symmetric] by (auto simp: list_ex_iff)
  have n: "el_name body = qn SOAP_NS ''Body''" "\<forall>x\<in>set_option head. el_name x = qn SOAP_NS ''Header''"
    using bs hs by (auto simp: has_qname_def set_eq_iff)
  have u: "\<forall>x\<in>set_option head. \<forall>e\<in>set (child_elements x). \<not> not_understood ns e"
    using r(3) by (auto simp: list_ex_iff split: option.splits)
  have a: "\<exists>x m. head = Some x \<and> filter (has_qname (qn ns ''Action'')) (child_elements x) = [m] \<and> text_content m = Inr e"
    if "response_action operation = Some e" for e
    using r(8) that by (auto simp: response_action_ok_def bind_result_Inr_iff required_child_Inr split: option.splits if_splits)
  have "el_name doc = qn SOAP_NS ''Envelope''" "el_name p \<noteq> qn SOAP_NS ''Fault''" using r(1,5) by (simp_all add: has_qname_def)
  then show ?thesis using s n u a r(4,6,7) by blast
qed

definition sample_response :: xml_node where
  "sample_response = new_node SOAP_NS ''s'' ''Envelope'' [
     new_node SOAP_NS ''s'' ''Header'' [with_must_understand (new_node WSA_NS ''wsa'' ''Action'' [Xml_Text ''r''])],
     new_node SOAP_NS ''s'' ''Body'' [new_node ''u'' ''u'' ''Got'' []]]"

theorem response_payload_sound_witness:
  "\<exists>h n. h \<in> set (child_elements sample_response) \<and> filter (has_qname (qn WSA_NS ''Action'')) (child_elements h) = [n]
     \<and> text_content n = Inr ''r''"
proof -
  have "soap_response (\<lambda>d n. Inr ()) [] sample_operation 200 WSA_NS sample_response = Inr (Soap_Payload (new_node ''u'' ''u'' ''Got'' []))"
    by (simp add: soap_response_def sample_response_def new_node_def has_qname_def one_child_def required_child_def child_elements_def
        not_understood_def attribute_value_def response_action_ok_def sample_operation_def text_content_def)
  from response_payload_sound[OF this] show ?thesis by (auto simp: sample_operation_def)
qed

end
