(* ===== verification/Xml_Serializer_Laws.thy ===== *)
theory Xml_Serializer_Laws
  imports Xml_Serializer
begin

section \<open>Laws of the XML serialiser\<close>

subsection \<open>Texts are read back\<close>

text \<open>
  What a parser reads in a text or in a quoted attribute value: references are expanded, in attributes
  literal white space becomes a space, elsewhere a literal carriage return becomes a line feed; a less-than
  sign, and in an attribute the quote, ends the text, so that nothing is read beyond it.
\<close>

definition reference_value :: "string \<Rightarrow> char option" where
  "reference_value r =
     (case map_of [(''amp'', CHR ''&''), (''lt'', CHR ''<''), (''gt'', CHR ''>''), (''quot'', CHR 0x22), (''apos'', CHR 0x27)] r of
        Some c \<Rightarrow> Some c
      | None \<Rightarrow> (case r of
            h # ds \<Rightarrow> if h = CHR ''#'' \<and> ds \<noteq> [] \<and> list_all is_digit_char ds \<and> digits_value ds < 128
              then Some (char_of (nat (digits_value ds))) else None
          | [] \<Rightarrow> None))"

definition literal_char :: "bool \<Rightarrow> char \<Rightarrow> char option" where
  "literal_char attribute c =
     (if c = CHR ''<'' \<or> attribute \<and> c = CHR 0x22 then None
      else if attribute \<and> c \<in> {CHR 0x09, CHR 0x0A, CHR 0x0D} then Some (CHR '' '')
      else if c = CHR 0x0D then Some (CHR 0x0A) else Some c)"

lemma dropWhile_rest: "x # r = dropWhile P cs \<Longrightarrow> length r \<le> length cs"
  using length_dropWhile_le[of P cs] by (metis Suc_leD length_Cons)

function read_xml_text :: "bool \<Rightarrow> string \<Rightarrow> string option" where
  "read_xml_text attribute [] = Some []"
| "read_xml_text attribute (c # cs) =
     (if c = CHR ''&'' then
        (case (reference_value (takeWhile (\<lambda>d. d \<noteq> CHR '';'') cs), dropWhile (\<lambda>d. d \<noteq> CHR '';'') cs) of
           (Some d, _ # rest) \<Rightarrow> map_option ((#) d) (read_xml_text attribute rest)
         | _ \<Rightarrow> None)
      else case literal_char attribute c of None \<Rightarrow> None | Some d \<Rightarrow> map_option ((#) d) (read_xml_text attribute cs))"
  by pat_completeness auto
termination by (relation "measure (length \<circ> snd)") (auto simp: less_Suc_eq_le dest: dropWhile_rest)

lemma control_chars: "char_of (9 :: nat) = CHR 0x09" "char_of (10 :: nat) = CHR 0x0A" "char_of (13 :: nat) = CHR 0x0D"
  by (simp_all add: char_of_eq_iff take_bit_eq_mod)

lemma read_escaped_char: "read_xml_text a (escape_char a c @ s) = map_option ((#) c) (read_xml_text a s)"
  by (auto simp: escape_char_def literal_char_def reference_value_def digits_value_def digit_value_def is_digit_char_def control_chars)

lemma escape_char_clean: "d \<in> set (escape_char a c) \<Longrightarrow> d \<noteq> CHR ''<'' \<and> (a \<longrightarrow> d \<noteq> CHR 0x22)"
  by (auto simp: escape_char_def split: if_splits)

text \<open>
  C33. A text is read back as it was, whatever it holds: the escaped form of a text or of an attribute value
  has no character that would end it, and a parser that expands the references and normalises line ends
  and white space reads exactly the original.
\<close>

theorem escaped_reads_back:
  assumes "xml_escaped attribute s = Inr e"
  shows "read_xml_text attribute e = Some s \<and> CHR ''<'' \<notin> set e \<and> (attribute \<longrightarrow> CHR 0x22 \<notin> set e)"
proof -
  have e: "e = concat (map (escape_char attribute) s)" using assms by (simp add: xml_escaped_def split: if_splits)
  have "read_xml_text attribute (concat (map (escape_char attribute) t)) = Some t" for t
    by (induction t) (simp_all add: read_escaped_char)
  moreover have "d \<noteq> CHR ''<'' \<and> (attribute \<longrightarrow> d \<noteq> CHR 0x22)" if "d \<in> set e" for d
    using that escape_char_clean unfolding e by fastforce
  ultimately show ?thesis unfolding e by blast
qed

theorem escaped_reads_back_witness:
  "\<exists>e. xml_escaped True [CHR ''<'', CHR 0x22, CHR 0x0A] = Inr e \<and> read_xml_text True e = Some [CHR ''<'', CHR 0x22, CHR 0x0A]"
proof -
  have "\<exists>e. xml_escaped True [CHR ''<'', CHR 0x22, CHR 0x0A] = Inr e"
    by (simp add: xml_escaped_def xml_char_def in_ranges_def point_def byte_of_def trailing_bytes.simps)
  then show ?thesis using escaped_reads_back by blast
qed

subsection \<open>Bounds\<close>

fun count_nodes :: "xml_node \<Rightarrow> nat" where
  "count_nodes (Xml_Element q p ns attrs nodes) = Suc (sum_list (map count_nodes nodes))"
| "count_nodes _ = 1"

fun node_depth :: "xml_node \<Rightarrow> nat" where
  "node_depth (Xml_Element q p ns attrs nodes) = Suc (foldr max (map node_depth nodes) 0)"
| "node_depth _ = 0"

lemma emit_text_Inr: "emit_text l s st = Inr st' \<longleftrightarrow> st' = (fst st, snd st @ s) \<and> int (length (snd st @ s)) \<le> xml_bytes l"
  by (auto simp: emit_text_def)

text \<open>What a step of the emission keeps: the count, the text it extends, and the bound on its bytes.\<close>

definition grows :: "xml_limits \<Rightarrow> int \<Rightarrow> emission \<Rightarrow> emission \<Rightarrow> bool" where
  "grows l n st st' \<longleftrightarrow> fst st' = fst st + n \<and> prefix (snd st) (snd st')
     \<and> (int (length (snd st)) \<le> xml_bytes l \<longrightarrow> int (length (snd st')) \<le> xml_bytes l)
     \<and> (fst st \<le> xml_nodes l \<longrightarrow> fst st' \<le> xml_nodes l)"

lemma grows_refl: "grows l 0 st st"
  by (simp add: grows_def)

lemma grows_trans: "grows l m a b \<Longrightarrow> grows l n b c \<Longrightarrow> grows l (m + n) a c"
  by (auto simp: grows_def intro: prefix_order.order_trans)

lemma emit_grows: "emit_text l s st = Inr st' \<Longrightarrow> grows l 0 st st'"
  by (auto simp: emit_text_Inr grows_def)

lemma fold_grows:
  assumes "fold_result f xs st = Inr st'" "\<And>x s s'. x \<in> set xs \<Longrightarrow> f x s = Inr s' \<Longrightarrow> grows l (int (w x)) s s'"
  shows "grows l (int (sum_list (map w xs))) st st'"
  using assms
proof (induction xs arbitrary: st)
  case Nil
  then show ?case by (simp add: grows_refl)
next
  case (Cons x xs)
  then obtain s where "f x st = Inr s" "fold_result f xs s = Inr st'" by (auto simp: bind_result_Inr_iff)
  with Cons.IH[of s] Cons.prems(2) show ?case using grows_trans[of l "int (w x)" st s] by simp
qed

lemma declaration_grows: "emit_declaration l d st = Inr st' \<Longrightarrow> grows l 0 st st'"
  by (auto simp: emit_declaration_def bind_result_Inr_iff emit_grows)

lemma fold_emits:
  "fold_result (emit_text l) ts st = Inr st' \<Longrightarrow> grows l 0 st st'"
  "fold_result (emit_declaration l) ds st = Inr st' \<Longrightarrow> grows l 0 st st'"
  using fold_grows[where w = "\<lambda>_. 0"] by (fastforce simp: emit_grows declaration_grows)+

text \<open>The steps of an element that is written.\<close>

lemma serialize_elementE:
  assumes "serialize_node l outer depth (Xml_Element q p own attrs nodes) st = Inr st'"
  obtains st0 b tag texts ds st1 st2 st3 where "depth \<le> xml_depth l" "count_node l st = Inr st0"
      "emit_text l (''<'' @ tag) st0 = Inr st1"
      "fold_result (emit_declaration l) ds st1 = Inr st2" "fold_result (emit_text l) texts st2 = Inr st3"
      "nodes = [] \<longrightarrow> emit_text l ''/>'' st3 = Inr st'"
      "nodes \<noteq> [] \<longrightarrow> (\<exists>st4 st5. emit_text l ''>'' st3 = Inr st4
         \<and> fold_result (serialize_node l b (depth + 1)) nodes st4 = Inr st5 \<and> emit_text l (''</'' @ tag @ ''>'') st5 = Inr st')"
  using assms by (auto simp: bind_result_Inr_iff Let_def split: if_splits prod.splits) (metis append_Cons append_Nil)+

lemma serialize_grows:
  "serialize_node l outer depth n st = Inr st' \<Longrightarrow> grows l (int (count_nodes n)) st st'"
proof (induction n arbitrary: outer depth st st')
  case (Xml_Element q p own attrs nodes)
  from serialize_elementE[OF Xml_Element.prems] obtain st0 b tag texts ds st1 st2 st3 where
    s: "count_node l st = Inr st0" "emit_text l (''<'' @ tag) st0 = Inr st1"
      "fold_result (emit_declaration l) ds st1 = Inr st2" "fold_result (emit_text l) texts st2 = Inr st3"
      "nodes = [] \<longrightarrow> emit_text l ''/>'' st3 = Inr st'"
      "nodes \<noteq> [] \<longrightarrow> (\<exists>st4 st5. emit_text l ''>'' st3 = Inr st4
         \<and> fold_result (serialize_node l b (depth + 1)) nodes st4 = Inr st5 \<and> emit_text l (''</'' @ tag @ ''>'') st5 = Inr st')"
    by metis
  have "grows l 1 st st0" using s(1) by (auto simp: count_node_def grows_def split: if_splits)
  from grows_trans[OF grows_trans[OF grows_trans[OF this emit_grows[OF s(2)]] fold_emits(2)[OF s(3)]] fold_emits(1)[OF s(4)]]
  have g: "grows l 1 st st3" by simp
  show ?case
  proof (cases "nodes = []")
    case True
    then show ?thesis using grows_trans[OF g emit_grows[of l "''/>''" st3 st']] s(5) by simp
  next
    case False
    then obtain st4 st5 where t: "emit_text l ''>'' st3 = Inr st4"
        "fold_result (serialize_node l b (depth + 1)) nodes st4 = Inr st5" "emit_text l (''</'' @ tag @ ''>'') st5 = Inr st'"
      using s(6) by blast
    have "grows l (int (sum_list (map count_nodes nodes))) st4 st5"
      by (rule fold_grows[OF t(2)]) (rule Xml_Element.IH)
    from grows_trans[OF grows_trans[OF grows_trans[OF g emit_grows[OF t(1)]] this] emit_grows[OF t(3)]]
    show ?thesis by simp
  qed
qed (auto simp: bind_result_Inr_iff count_node_def emit_text_Inr grows_def split: if_splits)

lemma fold_result_reaches:
  "fold_result f xs st = Inr st' \<Longrightarrow> x \<in> set xs \<Longrightarrow> \<exists>s s'. f x s = Inr s'"
  by (induction xs arbitrary: st) (auto simp: bind_result_Inr_iff)

lemma serialize_depth:
  "serialize_node l outer depth n st = Inr st' \<Longrightarrow> is_element n \<Longrightarrow> depth + int (node_depth n) \<le> xml_depth l + 1"
proof (induction n arbitrary: outer depth st st')
  case (Xml_Element q p own attrs nodes)
  from serialize_elementE[OF Xml_Element.prems(1)] obtain b where d: "depth \<le> xml_depth l"
      and f: "nodes \<noteq> [] \<longrightarrow> (\<exists>st4 st5. fold_result (serialize_node l b (depth + 1)) nodes st4 = Inr st5)"
    by metis
  have "depth + 1 + int (node_depth c) \<le> xml_depth l + 1" if c: "c \<in> set nodes" for c
  proof (cases "is_element c")
    case True
    from f c obtain st4 st5 where "fold_result (serialize_node l b (depth + 1)) nodes st4 = Inr st5" by fastforce
    from fold_result_reaches[OF this c] Xml_Element.IH[OF c _ True] show ?thesis by blast
  next
    case False
    then have "node_depth c = 0" by (cases c) simp_all
    then show ?thesis using d by simp
  qed
  moreover have "foldr max (map node_depth cs) 0 \<in> insert 0 (node_depth ` set cs)" for cs
    by (induction cs) (auto simp: max_def)
  ultimately show ?case using d by (fastforce simp: insert_iff image_iff dest: spec[of _ nodes])
qed simp_all

text \<open>
  A document that is written keeps the limits it was written under: bytes, nodes and depth.
\<close>

theorem serialized_within_limits:
  assumes "serialize_xml options n = Inr s" "xml_limits_of options = Inr l" "is_element n"
  shows "int (length s) \<le> xml_bytes l \<and> int (count_nodes n) \<le> xml_nodes l \<and> int (node_depth n) \<le> xml_depth l"
proof -
  obtain st where st: "serialize_node l [(''xml'', XML_NS)] 1 n (0, []) = Inr st" "s = snd st"
    using assms(1,2) by (auto simp: serialize_xml_def bind_result_Inr_iff)
  have "0 \<le> xml_bytes l" "0 \<le> xml_nodes l"
    using assms(2) by (auto simp: xml_limits_of_def bind_result_Inr_iff positive_integer_js_Inr split: if_splits)
  with serialize_grows[OF st(1)] serialize_depth[OF st(1) assms(3)] st(2) show ?thesis by (simp add: grows_def)
qed

subsection \<open>Conflicting prefixes\<close>

text \<open>
  A prefix that the element at hand prefers, and that one of its attributes prefers for another namespace,
  is bound twice when neither binding is among the element's own ones: the second binding wins, and the
  element is written in the namespace of its attribute.
\<close>

definition torn_element :: xml_node where
  "torn_element = Xml_Element (qn ''x'' ''a'') (Some ''p'') [] [\<lparr>attr_name = qn ''y'' ''b'', attr_value = [], attr_prefix = Some ''p''\<rparr>] []"

lemma ncname_letters [simp]: "is_ncname ''a''" "is_ncname ''b''" "is_ncname ''p''"
  by (simp_all add: is_ncname_def in_ranges_def xml_name_start_def point_def byte_of_def trailing_bytes.simps)

lemma torn_element_checked: "assert_xml_element 0 (js_of_node torn_element) = Inr ()" "validate_xml_ids torn_element = Inr ()"
  by (simp_all add: assert_xml_element.simps torn_element_def js_of_qname_def js_field_def js_of_attribute_def is_qname_js_def
      is_ncname_js_def prefix_ok_def attribute_ok_def validate_xml_ids_def add_id_def)

lemma default_limits: "xml_limits_of (JObj []) = Inr \<lparr>xml_bytes = 1048576, xml_depth = 64, xml_nodes = 20000, xml_attributes = 128\<rparr>"
  by (simp add: xml_limits_of_def is_object_def is_function_def limit_option_def default_xml_limits_def max_safe_integer_def)

lemma attribute_moves_element:
  "serialize_xml (JObj []) torn_element
   = Inr (''<p:a xmlns:p='' @ [CHR 0x22, CHR ''y'', CHR 0x22] @ '' p:b='' @ [CHR 0x22, CHR 0x22] @ ''/>'')"
  unfolding serialize_xml_def default_limits bind_result_simps torn_element_checked
  by (simp add: torn_element_def count_node_def own_bindings_def prefix_for_def bind_prefix_def lookup_prefix_def assign_prefix_def
      prototype_functions_def attribute_text_def xml_escaped_def escape_char_def emit_text_def emit_declaration_def qualified_name_def
      xml_char_def in_ranges_def point_def byte_of_def trailing_bytes.simps)

theorem serialized_within_limits_witness:
  "int (length (''<p:a xmlns:p='' @ [CHR 0x22, CHR ''y'', CHR 0x22] @ '' p:b='' @ [CHR 0x22, CHR 0x22] @ ''/>'')) \<le> 1048576"
  using serialized_within_limits[OF attribute_moves_element default_limits] by (simp add: torn_element_def)

end
