(* ===== verification/Security_Policy_Laws.thy ===== *)
theory Security_Policy_Laws
  imports Security_Policy
begin

section \<open>The laws of the security policy\<close>

text \<open>
  No scheme of a conjunction is dropped on the way from a form to the request, an authorised target lies
  inside the trust policy, and a credential is only used for the origin, the principal and the realm it
  was issued for.
\<close>

subsection \<open>Selection\<close>

text \<open>What a security name requires: itself, or whatever the parts of its combination require.\<close>

inductive needs :: "(string \<times> js) list \<Rightarrow> string \<Rightarrow> string \<Rightarrow> bool" for defs where
  itself: "get (member_of defs name) ''scheme'' \<noteq> JStr ''combo'' \<Longrightarrow> needs defs name name"
| part: "get (member_of defs name) ''scheme'' = JStr ''combo'' \<Longrightarrow>
    security_names (get (member_of defs name) ''allOf'') = Inr parts \<Longrightarrow> p \<in> set parts \<Longrightarrow> needs defs p leaf \<Longrightarrow> needs defs name leaf"

inductive_simps needs_iff: "needs defs name leaf"

definition faithful :: "(string \<times> js) list \<Rightarrow> string list \<Rightarrow> selection \<Rightarrow> selection \<Rightarrow> bool" where
  "faithful defs names before after =
     (\<exists>new. after = before @ new \<and> set (map fst new) = {leaf. \<exists>n\<in>set names. needs defs n leaf}
        \<and> (names \<noteq> [] \<longrightarrow> new \<noteq> []) \<and> (\<forall>(n, d)\<in>set new. d = member_of defs n \<and> get d ''scheme'' \<noteq> JStr ''combo''))"

lemma faithful_Nil: "faithful defs [] sel sel"
  by (simp add: faithful_def)

lemma faithful_Cons: "faithful defs [n] a b \<Longrightarrow> faithful defs ns b c \<Longrightarrow> faithful defs (n # ns) a c"
  unfolding faithful_def by (elim exE conjE) (rule exI[of _ "_ @ _"], auto)

lemma security_names_nonempty: "security_names v = Inr names \<Longrightarrow> names \<noteq> []"
proof -
  have "names \<noteq> []" if "map_result f xs = Inr names" "xs \<noteq> []" for f and xs :: "js list"
    using map_result_length[OF that(1)] that(2) by auto
  then show "security_names v = Inr names \<Longrightarrow> names \<noteq> []"
    by (auto simp: security_names_def Let_def split: if_splits)
qed

lemma fold_faithful:
  assumes "\<And>n a b. n \<in> set ns \<Longrightarrow> f n a = Inr b \<Longrightarrow> faithful defs [n] a b"
  shows "fold_result f ns a = Inr b \<Longrightarrow> faithful defs ns a b"
  using assms
proof (induction ns arbitrary: a)
  case Nil
  then show ?case by (simp add: faithful_Nil)
next
  case (Cons n ns)
  then obtain c where "f n a = Inr c" "fold_result f ns c = Inr b" by (auto simp: bind_result_Inr_iff)
  then have "faithful defs [n] a c" "faithful defs ns c b" using Cons.prems(2) by (auto intro: Cons.IH)
  then show ?case by (rule faithful_Cons)
qed

lemma visit_faithful: "visit_scheme defs anc name sel = Inr out \<Longrightarrow> faithful defs [name] sel out"
proof (induction defs anc name sel arbitrary: out rule: visit_scheme.induct)
  case (1 defs anc name sel)
  let ?d = "member_of defs name"
  note run = 1(2)[unfolded visit_scheme.simps[of defs anc name sel]]
  show ?case
  proof (cases "get ?d ''scheme'' = JStr ''combo''")
    case True
    with run obtain parts where n: "name \<notin> set anc" "truthy ?d" "get ?d ''oneOf'' = JUndefined"
        "security_names (get ?d ''allOf'') = Inr parts"
        "fold_result (visit_scheme defs (name # anc)) parts sel = Inr out"
      by (auto simp: Let_def bind_result_Inr_iff split: if_splits)
    have "faithful defs parts sel out"
      by (rule fold_faithful[OF _ n(5)]) (use 1(1)[OF n(1) refl _ True _ n(4)] n in auto)
    moreover have "{leaf. needs defs name leaf} = {leaf. \<exists>p\<in>set parts. needs defs p leaf}"
      by (simp add: needs_iff[of defs name] True n(4) Bex_def)
    ultimately show ?thesis using security_names_nonempty[OF n(4)] by (simp add: faithful_def)
  next
    case False
    then have "out = sel @ [(name, ?d)]" using run by (auto simp: Let_def split: if_splits)
    moreover have "{leaf. needs defs name leaf} = {name}" by (auto simp: needs_iff[of defs name] False)
    ultimately show ?thesis using False by (simp add: faithful_def)
  qed
qed

definition named_security :: "security_context \<Rightarrow> js \<Rightarrow> string list result" where
  "named_security context form_security =
     (if form_security = JUndefined then Inr (default_security context) else security_names form_security)"

lemma inherited_scheme: "map_of defs n = None \<Longrightarrow> get (member_of defs n) k = JUndefined"
  by (simp add: member_of_def)

text \<open>
  C17. The schemes selected for a native request are a conjunction that is applied as a whole: they are
  exactly the schemes the names of the form (or of the description) require through all combinations,
  none dropped and none invented, each as the description defines it; every one has a qualified
  implementation, no scheme occurs twice, \<open>nosec\<close> stands alone, and at most one is a TLS identity.
\<close>

theorem native_selection_complete:
  assumes "select_security context form_security True = Inr sel" "named_security context form_security = Inr names"
  shows "fst ` set sel = {leaf. \<exists>n\<in>set names. needs (definitions context) n leaf}
    \<and> (names \<noteq> [] \<longrightarrow> sel \<noteq> [])
    \<and> (\<forall>(n, d)\<in>set sel. map_of (definitions context) n = Some d \<and> get d ''scheme'' \<in> set native_schemes \<and> get d ''proxy'' = JUndefined)
    \<and> distinct (map scheme_of sel)
    \<and> (JStr ''nosec'' \<in> scheme_of ` set sel \<longrightarrow> length sel = 1)
    \<and> length (filter (\<lambda>e. scheme_of e \<in> set identity_schemes) sel) \<le> 1"
proof -
  have c: "fold_result (visit_scheme (definitions context) []) names [] = Inr sel" "check_selection True sel = Inr sel"
    using assms by (auto simp: select_security_def named_security_def check_selection_def bind_result_Inr_iff Let_def split: if_splits)
  have "faithful (definitions context) names [] sel" by (rule fold_faithful[OF visit_faithful c(1)])
  then have f: "fst ` set sel = {leaf. \<exists>n\<in>set names. needs (definitions context) n leaf}" "names \<noteq> [] \<longrightarrow> sel \<noteq> []"
    "\<forall>(n, d)\<in>set sel. d = member_of (definitions context) n"
    by (auto simp: faithful_def)
  have k: "distinct (map scheme_of sel)" "JStr ''nosec'' \<in> scheme_of ` set sel \<longrightarrow> length sel \<le> 1"
      "\<forall>e\<in>set sel. scheme_of e \<in> set native_schemes \<and> get (snd e) ''proxy'' = JUndefined"
      "length (filter (\<lambda>s. s \<in> set identity_schemes) (map scheme_of sel)) \<le> 1"
    using c(2) by (auto simp: check_selection_def Let_def list_ex_iff not_less split: if_splits)
  have d: "map_of (definitions context) n = Some d \<and> get d ''scheme'' \<in> set native_schemes \<and> get d ''proxy'' = JUndefined"
    if "(n, d) \<in> set sel" for n d
  proof -
    have s: "get d ''scheme'' \<in> set native_schemes" "get d ''proxy'' = JUndefined" using k(3) that by (auto simp: scheme_of_def)
    then have "get d ''scheme'' \<noteq> JUndefined" by (auto simp: native_schemes_def)
    moreover have m: "d = member_of (definitions context) n" using f(3) that by auto
    ultimately have "map_of (definitions context) n \<noteq> None" using inherited_scheme[of "definitions context" n "''scheme''"] by auto
    then show ?thesis using s by (auto simp: m member_of_def)
  qed
  have "length sel = 1" if "JStr ''nosec'' \<in> scheme_of ` set sel"
    using k(2) that by (cases sel) auto
  then show ?thesis using f(1,2) k(1,4) d by (auto simp: filter_map o_def)
qed

definition sample_context :: security_context where
  "sample_context = \<lparr>thing_id = ''t'', principal = ''p'',
     definitions = [(''both'', JObj [(''scheme'', JStr ''combo''), (''allOf'', JArr [JStr ''d'', JStr ''c''])]),
       (''d'', JObj [(''scheme'', JStr ''digest'')]), (''c'', JObj [(''scheme'', JStr ''cert'')])],
     default_security = [''both'']\<rparr>"

lemma sample_selection:
  "select_security sample_context JUndefined True
   = Inr [(''d'', JObj [(''scheme'', JStr ''digest'')]), (''c'', JObj [(''scheme'', JStr ''cert'')])]"
  by (simp add: select_security_def sample_context_def visit_scheme.simps member_of_def truthy_def security_names_def Let_def
      is_function_def check_selection_def scheme_of_def native_schemes_def identity_schemes_def)

theorem native_selection_complete_witness:
  "{leaf. \<exists>n\<in>{''both''}. needs (definitions sample_context) n leaf} = {''d'', ''c''}"
  using native_selection_complete[OF sample_selection, of "[''both'']"] by (simp add: named_security_def sample_context_def)

text \<open>
  A combination that names its part twice doubles the work: nothing bounds the depth of combinations or
  remembers the names that were visited, so that a description of \<open>n\<close> combinations makes the selection
  visit \<open>2 ^ n\<close> schemes before the repetition is refused.
\<close>

definition level :: "nat \<Rightarrow> string" where
  "level k = replicate (Suc k) (CHR ''x'')"

definition doubling :: "nat \<Rightarrow> (string \<times> js) list" where
  "doubling n = (level 0, JObj [(''scheme'', JStr ''nosec'')])
     # map (\<lambda>k. (level (Suc k), JObj [(''scheme'', JStr ''combo''),
         (''allOf'', JArr [JStr (level k), JStr (level k)])])) [0..<n]"

lemma level_inj [simp]: "level j = level k \<longleftrightarrow> j = k"
  by (auto simp: level_def dest: arg_cong[where f = length])

lemma doubling_members:
  "member_of (doubling n) (level 0) = JObj [(''scheme'', JStr ''nosec'')]"
  "k < n \<Longrightarrow> member_of (doubling n) (level (Suc k))
     = JObj [(''scheme'', JStr ''combo''), (''allOf'', JArr [JStr (level k), JStr (level k)])]"
proof -
  show "member_of (doubling n) (level 0) = JObj [(''scheme'', JStr ''nosec'')]" by (simp add: member_of_def doubling_def)
  have "map_of (map (\<lambda>k. (level (Suc k), f k)) [0..<n]) (level (Suc k)) = Some (f k)" if "k < n" for f :: "nat \<Rightarrow> js" and k
    using that by (induction n) (auto simp: map_add_Some_iff less_Suc_eq map_of_eq_None_iff)
  then show "k < n \<Longrightarrow> member_of (doubling n) (level (Suc k))
     = JObj [(''scheme'', JStr ''combo''), (''allOf'', JArr [JStr (level k), JStr (level k)])]"
    by (simp add: member_of_def doubling_def)
qed

theorem combinations_double:
  "k \<le> n \<Longrightarrow> \<forall>j\<le>k. level j \<notin> set anc \<Longrightarrow>
   visit_scheme (doubling n) anc (level k) sel = Inr (sel @ replicate (2 ^ k) (level 0, JObj [(''scheme'', JStr ''nosec'')]))"
proof (induction k arbitrary: anc sel)
  case 0
  then show ?case by (simp add: visit_scheme.simps doubling_members Let_def truthy_def is_function_def)
next
  case (Suc k)
  have "\<forall>j\<le>k. level j \<notin> set (level (Suc k) # anc)" using Suc.prems(2) by auto
  then have v: "visit_scheme (doubling n) (level (Suc k) # anc) (level k) t
      = Inr (t @ replicate (2 ^ k) (level 0, JObj [(''scheme'', JStr ''nosec'')]))" for t
    using Suc.prems(1) by (intro Suc.IH) auto
  have "level k \<noteq> []" by (simp add: level_def)
  then show ?case
    using Suc.prems by (subst visit_scheme.simps)
      (simp add: doubling_members Let_def truthy_def security_names_def v mult_2 replicate_add)
qed

subsection \<open>Targets\<close>

text \<open>An entry of a target list names a URL of one of the origins.\<close>

definition inside :: "url_parser \<Rightarrow> string list \<Rightarrow> string \<Rightarrow> bool" where
  "inside parse origins href \<longleftrightarrow> (\<exists>s u. parse s = Some u \<and> url_href u = href \<and> web_origin u \<in> set origins)"

definition trust_closed :: "url_parser \<Rightarrow> trust_policy \<Rightarrow> bool" where
  "trust_closed parse t \<longleftrightarrow>
     policy_origins t \<noteq> []
     \<and> (\<forall>ts\<in>set_option (policy_targets t). ts \<noteq> [] \<and> length ts \<le> 4096 \<and> (\<forall>href\<in>set ts. inside parse (policy_origins t) href))
     \<and> (\<forall>ps\<in>set_option (policy_principals t). \<forall>(p, ts)\<in>set ps.
          p \<noteq> [] \<and> ts \<noteq> [] \<and> length ts \<le> 4096 \<and> (\<forall>href\<in>set ts. inside parse (policy_origins t) href))"

lemma map_result_member: "map_result f xs = Inr ys \<Longrightarrow> y \<in> set ys \<Longrightarrow> \<exists>x\<in>set xs. f x = Inr y"
  by (induction xs arbitrary: ys) (auto simp: bind_result_Inr_iff)

lemma target_url_Inr:
  "target_url parse v = Inr u \<Longrightarrow> \<exists>s. v = JStr s \<and> parse s = Some u \<and> url_protocol u \<in> {''http:'', ''https:''}
     \<and> url_username u = [] \<and> url_password u = [] \<and> url_hash u = [] \<and> url_hostname u \<noteq> []"
  by (cases v) (auto split: if_splits option.splits)

lemma target_list_Inr:
  assumes "target_list parse origins v = Inr ts"
  shows "ts \<noteq> [] \<and> length ts \<le> 4096 \<and> (\<forall>href\<in>set ts. inside parse origins href)"
proof -
  obtain xs where xs: "xs \<noteq> []" "length xs \<le> 4096" "map_result (policy_target parse origins) xs = Inr ts"
    using assms by (cases v) (auto simp: target_list_def split: if_splits)
  have "inside parse origins href" if "href \<in> set ts" for href
    using map_result_member[OF xs(3) that] by (auto simp: policy_target_def bind_result_Inr_iff inside_def dest!: target_url_Inr split: if_splits)
  then show ?thesis using xs map_result_length[OF xs(3)] by auto
qed

lemma validate_trust_closed:
  assumes "validate_trust parse v = Inr t"
  shows "trust_closed parse t"
proof -
  obtain xs origins tls principals targets where
    p: "xs \<noteq> []" "map_result (policy_origin parse) xs = Inr origins"
      "principal_policy parse origins (get v ''principalTargets'') = Inr principals"
      "(if get v ''allowedTargets'' = JUndefined then Inr None
        else bind_result (target_list parse origins (get v ''allowedTargets'')) (\<lambda>ts. Inr (Some ts))) = Inr targets"
    and t: "policy_origins t = origins" "policy_targets t = targets" "policy_principals t = principals"
    using assms by (cases "get v ''allowedOrigins''") (auto simp: validate_trust_def bind_result_Inr_iff simp del: if_split split: if_splits)
  have "origins \<noteq> []" using p(1) map_result_length[OF p(2)] by auto
  moreover have "ts \<noteq> [] \<and> length ts \<le> 4096 \<and> (\<forall>href\<in>set ts. inside parse origins href)" if "targets = Some ts" for ts
    using p(4) that by (intro target_list_Inr[where v = "get v ''allowedTargets''"]) (auto simp: bind_result_Inr_iff split: if_splits)
  moreover have "q \<noteq> [] \<and> ts \<noteq> [] \<and> length ts \<le> 4096 \<and> (\<forall>href\<in>set ts. inside parse origins href)"
    if "principals = Some ps" "(q, ts) \<in> set ps" for ps q ts
  proof -
    have "map_result (principal_entry parse origins) (entries_of (get v ''principalTargets'')) = Inr ps"
      using p(3) that(1) by (auto simp: principal_policy_def bind_result_Inr_iff split: if_splits)
    from map_result_member[OF this that(2)] show ?thesis
      by (auto simp: principal_entry_def bind_result_Inr_iff dest: target_list_Inr split: if_splits)
  qed
  ultimately show ?thesis by (auto simp: trust_closed_def t)
qed

text \<open>
  C18. A native target that is authorised under a validated trust policy lies inside it: the URL is plain
  HTTP or HTTPS without user information or fragment, its origin is one of the allowed origins, its exact
  address is listed when targets are restricted, and listed for the requesting principal when principals
  are; and every listed address, of whichever list, is the address of a URL of an allowed origin.
\<close>

theorem native_target_inside_trust:
  assumes "validate_trust parse v = Inr trust" "authorize_target parse href trust who = Inr u"
  shows "(\<exists>s. href = JStr s \<and> parse s = Some u) \<and> url_protocol u \<in> {''http:'', ''https:''}
    \<and> url_username u = [] \<and> url_password u = [] \<and> url_hash u = [] \<and> url_hostname u \<noteq> []
    \<and> web_origin u \<in> set (policy_origins trust)
    \<and> (\<forall>ts. policy_targets trust = Some ts \<longrightarrow> url_href u \<in> set ts)
    \<and> (\<forall>ps. policy_principals trust = Some ps \<longrightarrow> (\<exists>p ts. who = Some p \<and> map_of ps p = Some ts \<and> url_href u \<in> set ts))
    \<and> trust_closed parse trust"
proof -
  have t: "target_url parse href = Inr u" and a: "web_origin u \<in> set (policy_origins trust)"
      "\<forall>ts. policy_targets trust = Some ts \<longrightarrow> url_href u \<in> set ts"
      "\<forall>ps. policy_principals trust = Some ps \<longrightarrow> (\<exists>p ts. who = Some p \<and> map_of ps p = Some ts \<and> url_href u \<in> set ts)"
    using assms(2) by (auto simp: authorize_target_def bind_result_Inr_iff split: if_splits option.splits)
  show ?thesis using target_url_Inr[OF t] a validate_trust_closed[OF assms(1)] by auto
qed

definition sample_web :: url_parser where
  "sample_web s = (if s = ''http://a/'' \<or> s = ''http://a'' then
     Some \<lparr>url_protocol = ''http:'', url_username = [], url_password = [], url_hostname = ''a'', url_port = [], url_hash = [],
       url_href = ''http://a/'', web_origin = ''http://a'', web_pathname = ''/'', web_search = []\<rparr> else None)"

definition sample_native_trust :: js where
  "sample_native_trust = JObj [(''allowedOrigins'', JArr [JStr ''http://a'']),
     (''principalTargets'', JObj [(''me'', JArr [JStr ''http://a/''])])]"

lemma sample_native_trust_valid:
  "validate_trust sample_web sample_native_trust = Inr \<lparr>policy_origins = [''http://a''], policy_targets = None,
     policy_principals = Some [(''me'', [''http://a/''])], policy_authorizer = False, policy_tls = None\<rparr>"
  by (simp add: validate_trust_def sample_native_trust_def is_object_def is_function_def policy_origin_def sample_web_def
      check_tls_def principal_policy_def principal_entry_def target_list_def policy_target_def byte_of_def)

theorem native_target_inside_trust_witness:
  "\<exists>trust u. authorize_target sample_web (JStr ''http://a'') trust (Some ''me'') = Inr u \<and> trust_closed sample_web trust
     \<and> web_origin u \<in> set (policy_origins trust)"
proof -
  let ?t = "\<lparr>policy_origins = [''http://a''], policy_targets = None, policy_principals = Some [(''me'', [''http://a/''])],
    policy_authorizer = False, policy_tls = None\<rparr>"
  have "\<exists>u. authorize_target sample_web (JStr ''http://a'') ?t (Some ''me'') = Inr u"
    by (simp add: authorize_target_def sample_web_def byte_of_def)
  then obtain u where a: "authorize_target sample_web (JStr ''http://a'') ?t (Some ''me'') = Inr u" by blast
  from native_target_inside_trust[OF sample_native_trust_valid a] a show ?thesis by blast
qed

subsection \<open>Credentials\<close>

text \<open>
  C19. Credential material is only used where it belongs: the provider was asked for the scope of this very
  request, what it answered names exactly the origin of the target, the principal of the consumer and,
  when the challenge has one, its realm, and the material has one of the three known forms.
\<close>

theorem native_credential_scoped:
  assumes "credential_for provider context target selection realm_text = Inr m"
  shows "\<exists>provide credential scope. provider = Some provide \<and> provide scope = Inr credential
    \<and> cred_principal scope = principal context \<and> cred_origin scope = web_origin target \<and> cred_href scope = url_href target
    \<and> cred_realm scope = realm_text
    \<and> get credential ''origin'' = JStr (web_origin target) \<and> get credential ''principal'' = JStr (principal context)
    \<and> (\<forall>r. realm_text = Some r \<longrightarrow> get credential ''realm'' = JStr r)
    \<and> m = get credential ''material'' \<and> material_ok m"
proof -
  let ?s = "\<lparr>cred_thing = thing_id context, cred_principal = principal context, cred_href = url_href target,
    cred_origin = web_origin target, cred_security = fst selection, cred_scheme = scheme_of selection, cred_realm = realm_text\<rparr>"
  obtain provide where p: "provider = Some provide" using assms by (cases provider) (simp_all add: credential_for_def)
  then obtain credential where c: "provide ?s = Inr credential"
    using assms by (auto simp: credential_for_def bind_result_Inr_iff)
  then have "get credential ''origin'' = JStr (web_origin target)" "get credential ''principal'' = JStr (principal context)"
      "\<forall>r. realm_text = Some r \<longrightarrow> get credential ''realm'' = JStr r" "m = get credential ''material''" "material_ok m"
    using assms p by (auto simp: credential_for_def split: if_splits)
  with p c show ?thesis by (intro exI[of _ provide] exI[of _ credential] exI[of _ ?s]) simp
qed

definition sample_credential :: js where
  "sample_credential = JObj [(''origin'', JStr ''http://a''), (''principal'', JStr ''p''), (''realm'', JStr ''r''),
     (''material'', JObj [(''kind'', JStr ''password''), (''username'', JStr ''u''), (''password'', JStr ''w'')])]"

theorem native_credential_scoped_witness:
  "\<exists>m. credential_for (Some (\<lambda>scope. Inr sample_credential)) sample_context (the (sample_web ''http://a/''))
     (''d'', JObj [(''scheme'', JStr ''digest'')]) (Some ''r'') = Inr m \<and> material_ok m"
proof -
  have "credential_for (Some (\<lambda>scope. Inr sample_credential)) sample_context (the (sample_web ''http://a/''))
     (''d'', JObj [(''scheme'', JStr ''digest'')]) (Some ''r'') = Inr (get sample_credential ''material'')"
    by (simp add: credential_for_def sample_credential_def sample_context_def sample_web_def material_ok_def is_object_def is_function_def)
  from native_credential_scoped[OF this] this show ?thesis by blast
qed

end
