(* ===== verification/Security_Digest_Laws.thy ===== *)
theory Security_Digest_Laws
  imports Security_Digest
begin

section \<open>The laws of Digest authentication\<close>

text \<open>
  The selected challenge is never weaker than another one the policy permits, and the field that answers
  it is one line that the same grammar reads back.
\<close>

subsection \<open>No downgrade\<close>

text \<open>The challenges the policy permits, with the algorithm each is answered with.\<close>

definition permitted :: "digest_policy \<Rightarrow> parameters \<Rightarrow> digest_algorithm \<Rightarrow> bool" where
  "permitted policy ps a \<longleftrightarrow>
     offered_algorithm ps = Some a \<and> a \<in> set (policy_algorithms policy)
     \<and> (offered_qops ps \<noteq> None \<longrightarrow> chosen_qop policy ps \<noteq> None)
     \<and> (\<forall>c. map_of ps ''charset'' = Some c \<longrightarrow> ascii_lower c = ''utf-8'')"

definition answers :: "digest_policy \<Rightarrow> parameters \<Rightarrow> digest_challenge \<Rightarrow> bool" where
  "answers policy ps c \<longleftrightarrow>
     permitted policy ps (chal_algorithm c) \<and> map_of ps ''realm'' = Some (chal_realm c) \<and> map_of ps ''nonce'' = Some (chal_nonce c)
     \<and> chal_nonce c \<noteq> [] \<and> chal_qop c = chosen_qop policy ps \<and> chal_opaque c = map_of ps ''opaque''
     \<and> (chal_stale c \<longleftrightarrow> map_of ps ''stale'' = Some ''true'')"

lemma consider_offer_Inr:
  "consider_offer policy ps cs = Inr ds \<Longrightarrow>
   (if \<exists>a. permitted policy ps a then \<exists>c. answers policy ps c \<and> ds = cs @ [c] else ds = cs)"
  by (auto simp: consider_offer_def permitted_def answers_def split: option.splits if_splits)

lemma fold_offers:
  "fold_result (consider_offer policy) offers cs = Inr ds \<Longrightarrow>
   \<exists>new. ds = cs @ new \<and> list_all2 (answers policy) (filter (\<lambda>ps. \<exists>a. permitted policy ps a) offers) new"
proof (induction offers arbitrary: cs)
  case Nil
  then show ?case by simp
next
  case (Cons ps offers)
  then obtain es where e: "consider_offer policy ps cs = Inr es" "fold_result (consider_offer policy) offers es = Inr ds"
    by (auto simp: bind_result_Inr_iff)
  from Cons.IH[OF e(2)] obtain new where "ds = es @ new"
      "list_all2 (answers policy) (filter (\<lambda>ps. \<exists>a. permitted policy ps a) offers) new" by blast
  with consider_offer_Inr[OF e(1)] show ?case by (auto split: if_splits)
qed

lemma strongest_None: "strongest cs = None \<longleftrightarrow> cs = []"
  by (cases cs) (auto split: option.splits)

lemma strongest_max:
  "strongest cs = Some c \<Longrightarrow> c \<in> set cs \<and> (\<forall>d\<in>set cs. strength (chal_algorithm d) \<le> strength (chal_algorithm c))"
proof (induction cs arbitrary: c)
  case Nil
  then show ?case by simp
next
  case (Cons x cs)
  show ?case
  proof (cases "strongest cs")
    case None
    then show ?thesis using Cons.prems by (simp add: strongest_None)
  next
    case (Some d)
    then show ?thesis using Cons.prems Cons.IH[OF Some] by (force split: if_splits)
  qed
qed

lemma list_all2_right: "list_all2 P xs ys \<Longrightarrow> y \<in> set ys \<Longrightarrow> \<exists>x\<in>set xs. P x y"
  by (induction rule: list_all2_induct) auto

lemma list_all2_left: "list_all2 P xs ys \<Longrightarrow> x \<in> set xs \<Longrightarrow> \<exists>y\<in>set ys. P x y"
  by (induction rule: list_all2_induct) auto

lemma chosen_qop_permitted: "chosen_qop policy ps = Some q \<Longrightarrow> q \<in> set (policy_qops policy)"
  by (auto simp: chosen_qop_def find_Some_iff split: option.splits)

text \<open>
  C20. Digest is never downgraded: the challenge that is answered is one the server sent and the policy
  permits, its algorithm and its quality of protection are the policy's, and no other challenge that the
  policy permits has a stronger algorithm.
\<close>

theorem digest_never_downgraded:
  assumes "select_digest_challenge lines options = Inr c"
  shows "\<exists>policy offers. digest_policy_of options = Inr policy \<and> challenges lines = Inr offers
     \<and> (\<exists>ps\<in>set offers. answers policy ps c) \<and> chal_algorithm c \<in> set (policy_algorithms policy)
     \<and> (\<forall>q. chal_qop c = Some q \<longrightarrow> q \<in> set (policy_qops policy))
     \<and> (\<forall>ps\<in>set offers. \<forall>a. permitted policy ps a \<longrightarrow> strength a \<le> strength (chal_algorithm c))"
proof -
  from assms obtain policy offers supported where p: "digest_policy_of options = Inr policy" "challenges lines = Inr offers"
      "fold_result (consider_offer policy) offers [] = Inr supported" "strongest supported = Some c"
    by (auto simp: select_digest_challenge_def bind_result_Inr_iff split: option.splits)
  have l: "list_all2 (answers policy) (filter (\<lambda>ps. \<exists>a. permitted policy ps a) offers) supported"
    using fold_offers[OF p(3)] by simp
  have m: "c \<in> set supported" "\<forall>d\<in>set supported. strength (chal_algorithm d) \<le> strength (chal_algorithm c)"
    using strongest_max[OF p(4)] by auto
  obtain ps where ps: "ps \<in> set offers" "answers policy ps c"
    using list_all2_right[OF l m(1)] by auto
  have "strength a \<le> strength (chal_algorithm c)" if "qs \<in> set offers" "permitted policy qs a" for qs a
  proof -
    have "qs \<in> set (filter (\<lambda>ps. \<exists>a. permitted policy ps a) offers)" using that by auto
    then obtain d where "d \<in> set supported" "answers policy qs d" using list_all2_left[OF l] by blast
    moreover have "chal_algorithm d = a" using calculation(2) that(2) by (simp add: answers_def permitted_def)
    ultimately show ?thesis using m(2) by auto
  qed
  moreover have "chal_algorithm c \<in> set (policy_algorithms policy)" using ps(2) by (simp add: answers_def permitted_def)
  moreover have "q \<in> set (policy_qops policy)" if "chal_qop c = Some q" for q
    using ps(2) that chosen_qop_permitted[of policy ps q] by (simp add: answers_def)
  ultimately show ?thesis using p(1,2) ps by blast
qed

definition sample_lines :: "string list" where
  "sample_lines = [''Digest realm=a, nonce=n, algorithm=MD5, Digest realm=a, nonce=m, algorithm=SHA-256, qop=auth'']"

definition sample_chosen :: digest_challenge where
  "sample_chosen = \<lparr>chal_realm = ''a'', chal_nonce = ''m'', chal_algorithm = SHA256, chal_qop = Some Auth, chal_opaque = None,
     chal_stale = False, chal_utf8 = False, chal_userhash = False\<rparr>"

definition sample_offers :: "parameters list" where
  "sample_offers = [[(''realm'', ''a''), (''nonce'', ''n''), (''algorithm'', ''MD5'')],
     [(''realm'', ''a''), (''nonce'', ''m''), (''algorithm'', ''SHA-256''), (''qop'', ''auth'')]]"

lemma sample_split: "split_fields (hd sample_lines) = Inr [''Digest realm=a'', ''nonce=n'', ''algorithm=MD5'', ''Digest realm=a'',
    ''nonce=m'', ''algorithm=SHA-256'', ''qop=auth'']"
  by (simp add: split_fields_def sample_lines_def utf16_units_def trailing_bytes.simps byte_of_def point_def has_control_char_def
      Let_def trim_def js_space_def)

lemma sample_challenges: "challenges sample_lines = Inr sample_offers"
proof -
  have one: "sample_lines = [hd sample_lines]" by (simp add: sample_lines_def)
  show ?thesis
    by (subst one) (simp add: challenges_def header_step_def sample_split field_step_def begins_parameter_def scheme_field_def
        digest_parameter_def add_parameter_def after_space_def token_char_def is_alpha_char_def is_upper_char_def is_lower_char_def
        is_digit_char_def trailing_bytes.simps byte_of_def point_def js_space_def Let_def no_line_terminator_def ascii_lower_def
        char_of_eq_iff take_bit_eq_mod sample_offers_def)
qed

lemma sample_selected: "select_digest_challenge sample_lines (JObj [(''algorithms'', JArr [JStr ''MD5'', JStr ''SHA-256''])]) = Inr sample_chosen"
  by (simp add: select_digest_challenge_def sample_challenges digest_policy_of_def is_object_def is_function_def option_names_def
      named_in_def algorithms_def sample_offers_def consider_offer_def offered_algorithm_def Let_def ascii_lower_def is_upper_char_def
      byte_of_def char_of_eq_iff take_bit_eq_mod offered_qops_def chosen_qop_def boolean_ok_def sample_chosen_def
      trim_def js_space_def trailing_bytes.simps point_def)

theorem digest_never_downgraded_witness:
  "\<exists>policy. digest_policy_of (JObj [(''algorithms'', JArr [JStr ''MD5'', JStr ''SHA-256''])]) = Inr policy
     \<and> (\<forall>ps\<in>set sample_offers. \<forall>a. permitted policy ps a \<longrightarrow> strength a \<le> 3)"
  using digest_never_downgraded[OF sample_selected] by (auto simp: sample_challenges sample_chosen_def)

subsection \<open>Texts in UTF-8\<close>

text \<open>
  Well formed UTF-8: the code points have the length their lead byte announces, continuation bytes are not
  ASCII, and every code point has its shortest form.
\<close>

definition utf8_point :: "string \<Rightarrow> bool" where
  "utf8_point p \<longleftrightarrow> (case p of [] \<Rightarrow> False
     | c # cs \<Rightarrow> length cs = trailing_bytes c \<and> (\<forall>d\<in>set cs. 0x80 \<le> byte_of d) \<and> (cs \<noteq> [] \<longrightarrow> 0x80 \<le> point p))"

definition utf8 :: "string \<Rightarrow> bool" where
  "utf8 s \<longleftrightarrow> (\<forall>p\<in>set (code_points s). utf8_point p)"

lemma code_points_append: "utf8 s \<Longrightarrow> code_points (s @ t) = code_points s @ code_points t"
proof (induction s rule: code_points.induct)
  case 1
  then show ?case by simp
next
  case (2 c cs)
  then have "length (take (trailing_bytes c) cs) = trailing_bytes c" "utf8 (drop (trailing_bytes c) cs)"
    by (auto simp: utf8_def utf8_point_def)
  then show ?case using 2(1) by simp
qed

lemma utf8_append: "utf8 s \<Longrightarrow> utf8 t \<Longrightarrow> utf8 (s @ t)"
  by (auto simp: utf8_def code_points_append[unfolded utf8_def])

lemma utf8_concat: "(\<And>s. s \<in> set ss \<Longrightarrow> utf8 s) \<Longrightarrow> utf8 (concat ss)"
  by (induction ss) (auto intro: utf8_append simp: utf8_def[of "[]"])

lemma ascii_trailing: "byte_of c < 0x80 \<Longrightarrow> trailing_bytes c = 0"
  by (simp add: trailing_bytes.simps)

lemma ascii_points: "\<forall>c\<in>set s. byte_of c < 0x80 \<Longrightarrow> code_points s = map (\<lambda>c. [c]) s"
  by (induction s) (auto simp: ascii_trailing)

lemma utf8_ascii: "\<forall>c\<in>set s. byte_of c < 0x80 \<Longrightarrow> utf8 s"
  by (auto simp: utf8_def utf8_point_def ascii_points ascii_trailing)

lemma code_points_concat: "\<forall>p\<in>set ps. utf8_point p \<Longrightarrow> code_points (concat ps) = ps"
proof (induction ps)
  case Nil
  then show ?case by simp
next
  case (Cons p ps)
  then obtain c cs where p: "p = c # cs" "length cs = trailing_bytes c" by (cases p) (auto simp: utf8_point_def)
  then show ?case using Cons by simp
qed

text \<open>Escaping keeps a text well formed, and adds no code points but the escapes.\<close>

lemma utf8_point_bytes: "utf8_point p \<Longrightarrow> length p \<noteq> 1 \<Longrightarrow> c \<in> set p \<Longrightarrow> 0x80 \<le> byte_of c"
  by (cases p) (auto simp: utf8_point_def trailing_bytes.simps split: if_splits)

definition escaped_point :: "string \<Rightarrow> string list" where
  "escaped_point p = (if p = [CHR 0x5C] \<or> p = [CHR 0x22] then [[CHR 0x5C], p] else [p])"

lemma field_escape_point: "utf8_point p \<Longrightarrow> concat (map field_escape p) = concat (escaped_point p)"
proof (cases "length p = 1")
  case True
  then obtain c where "p = [c]" by (cases p) auto
  then show ?thesis by (simp add: field_escape_def escaped_point_def)
next
  case False
  assume u: "utf8_point p"
  have "field_escape c = [c]" if "c \<in> set p" for c
    using utf8_point_bytes[OF u False that] by (auto simp: field_escape_def byte_of_def)
  then have "concat (map field_escape p) = p" by (induction p) auto
  then show ?thesis using False by (auto simp: escaped_point_def)
qed

lemma concat_concat: "concat (concat xss) = concat (map concat xss)"
  by (induction xss) auto

lemma escaped_points:
  assumes "utf8 s"
  shows "code_points (concat (map field_escape s)) = concat (map escaped_point (code_points s))"
proof -
  have "concat (map field_escape s) = concat (map (\<lambda>p. concat (map field_escape p)) (code_points s))"
    by (subst concat_code_points[of s, symmetric]) (simp only: map_concat concat_concat o_def map_map)
  also have "map (\<lambda>p. concat (map field_escape p)) (code_points s) = map (\<lambda>p. concat (escaped_point p)) (code_points s)"
    using assms by (auto simp: utf8_def field_escape_point)
  also have "concat (map (\<lambda>p. concat (escaped_point p)) (code_points s)) = concat (concat (map escaped_point (code_points s)))"
    by (simp add: concat_concat o_def)
  finally have "concat (map field_escape s) = concat (concat (map escaped_point (code_points s)))" .
  moreover have "\<forall>p\<in>set (concat (map escaped_point (code_points s))). utf8_point p"
    using assms by (auto simp: utf8_def escaped_point_def utf8_point_def trailing_bytes.simps byte_of_def split: if_splits)
  ultimately show ?thesis by (simp only: code_points_concat)
qed

subsection \<open>Cutting a header into its fields\<close>

definition scans :: "string \<Rightarrow> bool" where
  "scans f \<longleftrightarrow> (\<forall>cur rest. scan_fields False False cur (f @ rest) = scan_fields False False (rev f @ cur) rest)"

lemma scans_append: "scans f \<Longrightarrow> scans g \<Longrightarrow> scans (f @ g)"
  by (simp add: scans_def)

lemma scans_plain: "CHR 0x22 \<notin> set f \<Longrightarrow> CHR '','' \<notin> set f \<Longrightarrow> scans f"
proof (induction f)
  case Nil
  then show ?case by (simp add: scans_def)
next
  case (Cons c f)
  then have "scans [c]" "scans f" by (auto simp: scans_def)
  then show ?case using scans_append[of "[c]" f] by simp
qed

lemma scan_quoted:
  "scan_fields True False cur (concat (map field_escape v) @ rest) = scan_fields True False (rev (concat (map field_escape v)) @ cur) rest"
  by (induction v arbitrary: cur) (auto simp: field_escape_def)

lemma scans_quoted: "quoted_field v = Inr q \<Longrightarrow> scans q"
  by (auto simp: quoted_field_def scans_def scan_quoted split: if_splits)

lemma scan_separated:
  assumes "\<forall>f\<in>set (g # gs). scans f"
  shows "scan_fields False False cur (separated '', '' (g # gs)) = Inr (trim (rev cur @ g) # map (\<lambda>f. trim (CHR '' '' # f)) gs)"
  using assms
proof (induction gs arbitrary: g cur)
  case Nil
  have "scan_fields False False cur (g @ []) = scan_fields False False (rev g @ cur) []" using Nil by (simp only: scans_def list.set) blast
  then show ?case by simp
next
  case (Cons h hs)
  have "scan_fields False False [CHR '' ''] (separated '', '' (h # hs))
      = Inr (trim (CHR '' '' # h) # map (\<lambda>f. trim (CHR '' '' # f)) hs)"
    using Cons.prems Cons.IH[of h "[CHR '' '']"] by simp
  moreover have "scan_fields False False cur (g @ '', '' @ separated '', '' (h # hs))
      = scan_fields False False (rev g @ cur) ('', '' @ separated '', '' (h # hs))" using Cons.prems by (simp only: scans_def list.set) blast
  ultimately show ?case by simp
qed

lemma dropWhile_head: "ps \<noteq> [] \<Longrightarrow> \<not> P (hd ps) \<Longrightarrow> dropWhile P ps = ps"
  by (cases ps) auto

lemma trim_field:
  assumes "f \<noteq> []" "\<not> js_space (point (hd (code_points f)))" "\<not> js_space (point (last (code_points f)))"
  shows "trim f = f \<and> trim (CHR '' '' # f) = f"
proof -
  let ?sp = "\<lambda>p. js_space (point p)"
  have ne: "code_points f \<noteq> []" using assms(1) by simp
  have "dropWhile ?sp (code_points f) = code_points f" using dropWhile_head[OF ne, of ?sp] assms(2) by simp
  moreover have "dropWhile ?sp (rev (code_points f)) = rev (code_points f)"
    using dropWhile_head[of "rev (code_points f)" ?sp] ne assms(3) by (simp add: hd_rev)
  moreover have "trailing_bytes (CHR '' '') = 0" "js_space (point [CHR '' ''])"
    by (simp_all add: trailing_bytes.simps byte_of_def point_def js_space_def)
  ultimately show ?thesis by (simp add: trim_def Let_def)
qed

lemma field_ends:
  assumes "utf8 g" "byte_of e < 0x80" "\<not> js_space (byte_of e)" "byte_of c < 0x80" "\<not> js_space (byte_of c)" "g = c # g'"
  shows "trim (g @ [e]) = g @ [e] \<and> trim (CHR '' '' # (g @ [e])) = g @ [e]"
proof -
  have "code_points (g @ [e]) = code_points g @ [[e]]"
    using code_points_append[OF assms(1), of "[e]"] assms(2) by (simp add: ascii_trailing)
  moreover have "hd (code_points (g @ [e])) = [c]" using ascii_trailing[OF assms(4)] assms(6) by simp
  ultimately show ?thesis using assms(3,5) by (intro trim_field) (simp_all add: point_def)
qed

subsection \<open>Reading a parameter back\<close>

lemma unquoted_escape: "unquoted (concat (map field_escape v) @ [CHR 0x22]) = Some v"
proof (induction v)
  case Nil
  then show ?case by simp
next
  case (Cons c v)
  have "\<not> line_terminator (d # ds)" if "d = CHR 0x5C \<or> d = CHR 0x22" for d ds
    using that by (auto simp: line_terminator_def trailing_bytes.simps byte_of_def point_def)
  then show ?case using Cons by (auto simp: field_escape_def)
qed

definition lower_name :: "string \<Rightarrow> bool" where
  "lower_name name \<longleftrightarrow> name \<noteq> [] \<and> list_all (\<lambda>c. is_lower_char c \<or> c = CHR ''*'') name"

lemma lower_name_facts:
  assumes "lower_name name"
  shows "ascii_lower name = name" "takeWhile token_char (name @ ''='' @ t) = name" "dropWhile token_char (name @ ''='' @ t) = ''='' @ t"
    "\<forall>c\<in>set name. byte_of c < 0x80 \<and> \<not> js_space (byte_of c) \<and> c \<noteq> CHR 0x22 \<and> c \<noteq> CHR '','' "
proof -
  have t: "\<forall>c\<in>set name. token_char c" "\<not> token_char (CHR ''='')" 
    using assms by (auto simp: lower_name_def list_all_iff token_char_def is_alpha_char_def is_digit_char_def is_upper_char_def is_lower_char_def)
  show "ascii_lower name = name" using assms
    by (auto simp: ascii_lower_def lower_name_def list_all_iff is_upper_char_def is_lower_char_def intro!: map_idI)
  show "takeWhile token_char (name @ ''='' @ t) = name" "dropWhile token_char (name @ ''='' @ t) = ''='' @ t"
    using t by (simp_all add: takeWhile_append2 dropWhile_append2)
  show "\<forall>c\<in>set name. byte_of c < 0x80 \<and> \<not> js_space (byte_of c) \<and> c \<noteq> CHR 0x22 \<and> c \<noteq> CHR '','' "
    using assms by (auto simp: lower_name_def list_all_iff is_lower_char_def byte_of_def js_space_def)
qed

lemma after_space_ascii: "byte_of c < 0x80 \<Longrightarrow> \<not> js_space (byte_of c) \<Longrightarrow> after_space (c # t) = c # t"
  by (simp add: after_space_def ascii_trailing point_def)

lemma equals_facts: "byte_of (CHR ''='') = 61" "byte_of (CHR 0x22) = 34" "\<not> js_space 61" "\<not> js_space 34"
  by (simp_all add: byte_of_def js_space_def)

lemma read_quoted:
  assumes "lower_name name" "quoted_field v = Inr q"
  shows "begins_parameter (name @ ''='' @ q) \<and> digest_parameter (name @ ''='' @ q) = Some (name, v)"
proof -
  have q: "q = CHR 0x22 # concat (map field_escape v) @ [CHR 0x22]" using assms(2) by (auto simp: quoted_field_def split: if_splits)
  have a: "after_space (''='' @ t) = ''='' @ t" "after_space (CHR 0x22 # t) = CHR 0x22 # t" for t
    by (simp_all add: after_space_ascii equals_facts)
  show ?thesis
    using lower_name_facts(1)[OF assms(1)] lower_name_facts(2,3)[OF assms(1), of q] assms(1) a[of q] a(2) unquoted_escape[of v]
    by (auto simp: begins_parameter_def digest_parameter_def Let_def q lower_name_def)
qed

lemma read_token:
  assumes "lower_name name" "v \<noteq> []" "\<forall>c\<in>set v. token_char c"
  shows "begins_parameter (name @ ''='' @ v) \<and> digest_parameter (name @ ''='' @ v) = Some (name, v)"
proof -
  obtain c cs where v: "v = c # cs" using assms(2) by (cases v) auto
  have k: "byte_of d < 0x80 \<and> \<not> js_space (byte_of d) \<and> d \<noteq> CHR 0x22" if "token_char d" for d
    using that by (auto simp: token_char_def is_alpha_char_def is_digit_char_def is_upper_char_def is_lower_char_def byte_of_def js_space_def)
  have a: "after_space (''='' @ t) = ''='' @ t" "after_space v = v" for t
    using k[of c] assms(3) by (simp_all add: v after_space_ascii equals_facts)
  show ?thesis
    using lower_name_facts(1)[OF assms(1)] lower_name_facts(2,3)[OF assms(1), of v] assms a(1)[of v] a(2) k[of c]
    by (auto simp: begins_parameter_def digest_parameter_def Let_def v lower_name_def list_all_iff)
qed

definition reads :: "string \<Rightarrow> string \<times> string \<Rightarrow> bool" where
  "reads f kv \<longleftrightarrow> scans f \<and> begins_parameter f \<and> digest_parameter f = Some kv
     \<and> (\<exists>c cs. f = c # cs \<and> is_lower_char c) \<and> \<not> js_space (point (last (code_points f)))"

lemma lower_char_facts: "is_lower_char c \<Longrightarrow> byte_of c < 0x80 \<and> \<not> js_space (byte_of c) \<and> c \<noteq> CHR ''=''"
  by (auto simp: is_lower_char_def byte_of_def js_space_def)

lemma reads_trim:
  assumes "reads f kv"
  shows "trim (CHR '' '' # f) = f" "after_space (CHR '' '' # f) = f" "trim (''Digest '' @ f) = ''Digest '' @ f"
proof -
  obtain c cs where f: "f = c # cs" "is_lower_char c" and l: "\<not> js_space (point (last (code_points f)))" and ne: "f \<noteq> []"
    using assms by (auto simp: reads_def)
  note c = lower_char_facts[OF f(2)]
  have h: "hd (code_points f) = [c]" using c by (simp add: f(1) ascii_trailing)
  show "trim (CHR '' '' # f) = f" using trim_field[OF ne _ l] h c by (simp add: point_def)
  have sp: "trailing_bytes (CHR '' '') = 0" "js_space (byte_of (CHR '' ''))"
    by (simp_all add: trailing_bytes.simps byte_of_def point_def js_space_def)
  have "code_points f = [c] # code_points cs" using c by (simp add: f(1) ascii_trailing)
  then show "after_space (CHR '' '' # f) = f" using c concat_code_points[of f] by (simp add: after_space_def sp point_def)
  have "utf8 ''Digest ''" by (rule utf8_ascii) (simp add: byte_of_def)
  from code_points_append[OF this, of f] have "code_points (''Digest '' @ f) = code_points ''Digest '' @ code_points f" .
  moreover have "code_points ''Digest '' = map (\<lambda>c. [c]) ''Digest ''" by (rule ascii_points) (simp add: byte_of_def)
  ultimately have "hd (code_points (''Digest '' @ f)) = [CHR ''D'']" "last (code_points (''Digest '' @ f)) = last (code_points f)"
    using ne by simp_all
  then show "trim (''Digest '' @ f) = ''Digest '' @ f"
    using trim_field[of "''Digest '' @ f"] l by (simp add: point_def byte_of_def js_space_def)
qed

lemma reads_field:
  assumes "lower_name name" "hd name \<noteq> CHR ''*''" "scans g" "begins_parameter (name @ ''='' @ g)"
    "digest_parameter (name @ ''='' @ g) = Some kv" "\<not> js_space (point (last (code_points (name @ ''='' @ g))))"
  shows "reads (name @ ''='' @ g) kv"
proof -
  obtain c cs where "name = c # cs" using assms(1) by (cases name) (auto simp: lower_name_def)
  moreover from this have "is_lower_char c" using assms(1,2) by (auto simp: lower_name_def)
  moreover have "scans (name @ ''='')" by (rule scans_plain) (use lower_name_facts(4)[OF assms(1)] in auto)
  from scans_append[OF this assms(3)] have "scans (name @ ''='' @ g)" by simp
  ultimately show ?thesis using assms(4-6) by (simp add: reads_def)
qed

lemma last_ascii: "utf8 g \<Longrightarrow> byte_of e < 0x80 \<Longrightarrow> last (code_points (g @ [e])) = [e]"
  using code_points_append[of g "[e]"] by (simp add: ascii_trailing)

lemma lower_name_utf8: "lower_name name \<Longrightarrow> utf8 (name @ ''='')"
  using lower_name_facts(4)[of name] by (intro utf8_ascii) (auto simp: equals_facts)

lemma utf8_escaped: "utf8 v \<Longrightarrow> utf8 (concat (map field_escape v))"
  unfolding utf8_def[of "concat (map field_escape v)"]
  by (subst escaped_points) (auto simp: utf8_def escaped_point_def utf8_point_def trailing_bytes.simps byte_of_def split: if_splits)

lemma reads_quoted:
  assumes "lower_name name" "hd name \<noteq> CHR ''*''" "quoted_field v = Inr q" "utf8 v"
  shows "reads (name @ ''='' @ q) (name, v)"
proof (rule reads_field[OF assms(1,2) scans_quoted[OF assms(3)]])
  show "begins_parameter (name @ ''='' @ q)" "digest_parameter (name @ ''='' @ q) = Some (name, v)"
    using read_quoted[OF assms(1,3)] by auto
  have q: "q = (CHR 0x22 # concat (map field_escape v)) @ [CHR 0x22]" using assms(3) by (auto simp: quoted_field_def split: if_splits)
  have "utf8 ((name @ ''='') @ [CHR 0x22] @ concat (map field_escape v))"
    using utf8_append[OF lower_name_utf8[OF assms(1)] utf8_append[OF utf8_ascii[of "[CHR 0x22]"] utf8_escaped[OF assms(4)]]]
    by (simp add: equals_facts)
  from last_ascii[OF this, of "CHR 0x22"] show "\<not> js_space (point (last (code_points (name @ ''='' @ q))))"
    by (simp add: q equals_facts point_def)
qed

lemma reads_token:
  assumes "lower_name name" "hd name \<noteq> CHR ''*''" "v \<noteq> []" "\<forall>c\<in>set v. token_char c"
  shows "reads (name @ ''='' @ v) (name, v)"
proof (rule reads_field[OF assms(1,2)])
  have k: "byte_of d < 0x80 \<and> \<not> js_space (byte_of d) \<and> d \<noteq> CHR 0x22 \<and> d \<noteq> CHR '',''" if "token_char d" for d
    using that by (auto simp: token_char_def is_alpha_char_def is_digit_char_def is_upper_char_def is_lower_char_def byte_of_def js_space_def)
  show "scans v" using assms(4) k by (intro scans_plain) auto
  show "begins_parameter (name @ ''='' @ v)" "digest_parameter (name @ ''='' @ v) = Some (name, v)"
    using read_token[OF assms(1,3,4)] by auto
  obtain g e where v: "v = g @ [e]" using assms(3) by (cases v rule: rev_cases) auto
  have "utf8 (name @ ''='' @ g)" using lower_name_utf8[OF assms(1)] utf8_ascii[of g] assms(4) k
    using utf8_append[of "name @ ''=''" g] by (auto simp: v)
  from last_ascii[OF this, of e] show "\<not> js_space (point (last (code_points (name @ ''='' @ v))))"
    using k[of e] assms(4) by (simp add: v point_def)
qed

subsection \<open>The answer is one line that reads back\<close>

text \<open>The parameters of the answer, in the order they are written.\<close>

definition user_pairs :: "hasher \<Rightarrow> digest_input \<Rightarrow> parameters" where
  "user_pairs hash i =
     (let c = in_challenge i; name = in_username i in
      if chal_userhash c then
        [(''username'', hash (hash_name (chal_algorithm c)) (encoded_bytes (chal_utf8 c) (name @ '':'' @ chal_realm c))), (''userhash'', ''true'')]
      else if chal_utf8 c \<and> list_ex (\<lambda>d. byte_of d < 0x20 \<or> byte_of d > 0x7E) name
      then [(''username*'', ''UTF-8'' @ [CHR 0x27, CHR 0x27] @ concat (map percent_byte name))]
      else [(''username'', name)])"

definition closing_pairs :: "digest_input \<Rightarrow> parameters" where
  "closing_pairs i =
     (let c = in_challenge i in
      (case chal_opaque c of None \<Rightarrow> [] | Some x \<Rightarrow> [(''opaque'', x)])
      @ (case chal_qop c of
           Some q \<Rightarrow> [(''qop'', qop_text q), (''nc'', case in_count i of Whole n \<Rightarrow> padded_hex (nat n) | _ \<Rightarrow> []), (''cnonce'', in_cnonce i)]
         | None \<Rightarrow> if session_variant (chal_algorithm c) then [(''cnonce'', in_cnonce i)] else []))"

definition answer_pairs :: "hasher \<Rightarrow> digest_input \<Rightarrow> parameters" where
  "answer_pairs hash i =
     (let c = in_challenge i in
      user_pairs hash i @ [(''realm'', chal_realm c), (''nonce'', chal_nonce c), (''uri'', in_uri i),
        (''algorithm'', algorithm_text (chal_algorithm c)), (''response'', digest_response hash i)] @ closing_pairs i)"

definition hex_hashes :: "hasher \<Rightarrow> bool" where
  "hex_hashes hash \<longleftrightarrow> (\<forall>n bs. hash n bs \<noteq> [] \<and> (\<forall>c\<in>set (hash n bs). is_lower_hex_char c))"

definition texts_utf8 :: "digest_input \<Rightarrow> bool" where
  "texts_utf8 i \<longleftrightarrow> utf8 (in_username i) \<and> utf8 (chal_realm (in_challenge i)) \<and> utf8 (chal_nonce (in_challenge i))
     \<and> utf8 (in_uri i) \<and> utf8 (in_cnonce i) \<and> (\<forall>x. chal_opaque (in_challenge i) = Some x \<longrightarrow> utf8 x)"

lemma hex_char_facts: "is_lower_hex_char c \<Longrightarrow> token_char c \<and> byte_of c < 0x80"
  by (auto simp: is_lower_hex_char_def token_char_def is_alpha_char_def is_lower_char_def byte_of_def is_digit_char_def)

lemma byte_small: "byte_of c \<noteq> 0x2028" "byte_of c \<noteq> 0x2029"
proof -
  have "byte_of c < 256" by (simp add: byte_of_def)
  then show "byte_of c \<noteq> 0x2028" "byte_of c \<noteq> 0x2029" by linarith+
qed

lemma hex_digit_facts: "n < 16 \<Longrightarrow> is_lower_hex_char (hex_digit n)"
  by (auto simp: hex_digit_def is_lower_hex_char_def is_digit_char_def)

lemma hex_text_chars: "hex_text n \<noteq> [] \<and> (\<forall>c\<in>set (hex_text n). is_lower_hex_char c)"
proof (induction n rule: hex_text.induct)
  case (1 n)
  then show ?case by (subst (1 2) hex_text.simps) (auto simp: hex_digit_facts)
qed

lemma padded_hex_token: "padded_hex n \<noteq> [] \<and> (\<forall>c\<in>set (padded_hex n). token_char c)"
  using hex_text_chars[of n] hex_char_facts
  by (auto simp: padded_hex_def token_char_def[of "CHR ''0''"] is_digit_char_def set_replicate_conv_if split: if_splits)

lemma percent_token: "c \<in> set (percent_byte d) \<Longrightarrow> token_char c"
proof -
  have u: "token_char (if is_lower_char x then char_of (byte_of x - 32) else x)" if "is_lower_hex_char x" for x
    using that hex_char_facts[OF that]
    by (auto simp: is_lower_hex_char_def token_char_def is_alpha_char_def is_upper_char_def is_lower_char_def byte_of_def is_digit_char_def)
  have b: "byte_of d div 16 < 16" "byte_of d mod 16 < 16" by (simp_all add: byte_of_def less_mult_imp_div_less)
  have p: "token_char (CHR ''%'')" by (simp add: token_char_def)
  assume "c \<in> set (percent_byte d)"
  then show ?thesis using u[OF hex_digit_facts[OF b(1)]] u[OF hex_digit_facts[OF b(2)]] p
    by (auto simp: percent_byte_def token_char_def[of d] split: if_splits)
qed

lemma lower_names [simp]:
  "lower_name ''username''" "lower_name ''username*''" "lower_name ''userhash''" "lower_name ''realm''" "lower_name ''nonce''"
  "lower_name ''uri''" "lower_name ''algorithm''" "lower_name ''response''" "lower_name ''opaque''" "lower_name ''qop''"
  "lower_name ''nc''" "lower_name ''cnonce''"
  by (simp_all add: lower_name_def is_lower_char_def)

lemma labelled_reads:
  assumes "labelled name v = Inr f" "lower_name name" "hd name \<noteq> CHR ''*''" "utf8 v"
  shows "reads f (name, v)"
  using assms reads_quoted[of name v] by (auto simp: labelled_def bind_result_Inr_iff)

lemma utf8_hash: "hex_hashes hash \<Longrightarrow> utf8 (hash n bs)"
  by (rule utf8_ascii) (auto simp: hex_hashes_def hex_char_facts)

lemma plain_field: "\<forall>c\<in>set f. 0x20 \<le> byte_of c \<and> byte_of c < 0x80 \<Longrightarrow> no_line_terminator f"
  by (auto simp: no_line_terminator_def ascii_points list_all_iff point_def)

lemma control_points:
  assumes "utf8_point p" "\<not> has_control_char p"
  shows "point p \<notin> {10, 13}"
proof (cases "length p = 1")
  case True
  then obtain c where "p = [c]" by (cases p) auto
  then show ?thesis using assms(2) by (auto simp: has_control_char_def point_def byte_of_def)
next
  case False
  then have "0x80 \<le> point p" using assms(1) by (cases p) (auto simp: utf8_point_def)
  then show ?thesis by auto
qed

lemma quoted_no_terminator:
  assumes "lower_name name" "quoted_field v = Inr q" "utf8 v" "\<forall>p\<in>set (code_points v). point p \<notin> {0x2028, 0x2029}"
  shows "no_line_terminator (name @ ''='' @ q)"
proof -
  have q: "q = [CHR 0x22] @ concat (map field_escape v) @ [CHR 0x22]" and ctrl: "\<not> has_control_char v"
    using assms(2) by (auto simp: quoted_field_def split: if_splits)
  have u: "utf8 ((name @ ''='') @ [CHR 0x22])" using utf8_append[OF lower_name_utf8[OF assms(1)] utf8_ascii[of "[CHR 0x22]"]]
    by (simp add: equals_facts)
  have lead: "code_points ((name @ ''='') @ [CHR 0x22]) = map (\<lambda>c. [c]) ((name @ ''='') @ [CHR 0x22])"
    using lower_name_facts(4)[OF assms(1)] by (intro ascii_points) (auto simp: equals_facts)
  have "code_points (name @ ''='' @ q) = code_points (((name @ ''='') @ [CHR 0x22]) @ concat (map field_escape v) @ [CHR 0x22])" by (simp add: q)
  also have "\<dots> = map (\<lambda>c. [c]) ((name @ ''='') @ [CHR 0x22]) @ concat (map escaped_point (code_points v)) @ [[CHR 0x22]]"
    by (simp only: code_points_append[OF u] lead code_points_append[OF utf8_escaped[OF assms(3)]] escaped_points[OF assms(3)])
       (simp add: equals_facts ascii_trailing)
  finally have e: "code_points (name @ ''='' @ q) = map (\<lambda>c. [c]) ((name @ ''='') @ [CHR 0x22]) @ concat (map escaped_point (code_points v)) @ [[CHR 0x22]]" .
  have "\<not> has_control_char p" if "p \<in> set (code_points v)" for p
  proof -
    have "set p \<subseteq> set v" using that arg_cong[OF concat_code_points[of v], of set] by (auto simp del: concat_code_points)
    then show ?thesis using ctrl by (auto simp: has_control_char_def)
  qed
  then have v: "point p \<notin> {10, 13, 0x2028, 0x2029}" if "p \<in> set (code_points v)" for p
    using control_points[of p] assms(3,4) that by (auto simp: utf8_def)
  have n: "byte_of c \<notin> {10, 13, 0x2028, 0x2029}" if "c \<in> set name" for c
  proof -
    have "byte_of c < 0x80" "\<not> js_space (byte_of c)" using lower_name_facts(4)[OF assms(1)] that by auto
    moreover have "js_space 10" "js_space 13" by (simp_all add: js_space_def)
    ultimately show ?thesis by auto
  qed
  have "point q \<notin> {10, 13, 0x2028, 0x2029}" if "q \<in> set (escaped_point p)" "p \<in> set (code_points v)" for p q
  proof -
    have "q = [CHR 0x5C] \<or> q = p" using that(1) by (auto simp: escaped_point_def split: if_splits)
    moreover have "point [CHR 0x5C] = 92" by (simp add: point_def byte_of_def)
    ultimately show ?thesis using v[OF that(2)] by fastforce
  qed
  then have "list_all (\<lambda>p. point p \<notin> {10, 13, 0x2028, 0x2029}) (concat (map escaped_point (code_points v)))"
    unfolding list_all_iff set_concat set_map by blast
  moreover have "byte_of c \<notin> {10, 13, 0x2028, 0x2029}" if "c \<in> set ((name @ ''='') @ [CHR 0x22])" for c
    using n that by (auto simp: equals_facts)
  then have "list_all (\<lambda>p. point p \<notin> {10, 13, 0x2028, 0x2029}) (map (\<lambda>c. [c]) ((name @ ''='') @ [CHR 0x22]))"
    unfolding list_all_iff set_map by (simp add: point_def)
  moreover have "point [CHR 0x22] \<notin> {10, 13, 0x2028, 0x2029}" by (simp add: point_def equals_facts)
  ultimately show ?thesis unfolding no_line_terminator_def e list_all_append by simp
qed

lemma latin_points:
  assumes "\<not> list_ex (\<lambda>n. n > 0xFF) (utf16_units s)" "p \<in> set (code_points s)"
  shows "point p \<le> 0xFF"
proof (rule ccontr)
  assume a: "\<not> point p \<le> 0xFF"
  let ?u = "if point p < 0x10000 then [point p] else [0xD800 + (point p - 0x10000) div 0x400, 0xDC00 + (point p - 0x10000) mod 0x400]"
  have "hd ?u > 0xFF" "hd ?u \<in> set ?u" using a by auto
  moreover have "set ?u \<subseteq> set (utf16_units s)" using assms(2) unfolding utf16_units_def Let_def set_concat set_map by blast
  ultimately show False using assms(1) unfolding list_ex_iff by blast
qed

lemma separated_merge: "fs \<noteq> [] \<Longrightarrow> separated x (separated x fs # gs) = separated x (fs @ gs)"
proof (induction fs)
  case (Cons f fs)
  show ?case
  proof (cases fs)
    case (Cons g gs')
    then have "separated x (separated x fs # gs) = separated x (fs @ gs)" using Cons.IH by simp
    then show ?thesis using Cons by (cases gs) simp_all
  qed simp
qed simp

lemma user_field_reads:
  assumes "user_field hash i = Inr user" "hex_hashes hash" "texts_utf8 i"
    and "chal_utf8 (in_challenge i) \<or> \<not> list_ex (\<lambda>n. n > 0xFF) (utf16_units (in_username i))"
  shows "\<exists>f fs. user = separated '', '' (f # fs) \<and> list_all2 reads (f # fs) (user_pairs hash i) \<and> no_line_terminator f"
proof -
  let ?c = "in_challenge i" and ?name = "in_username i"
  let ?h = "hash (hash_name (chal_algorithm ?c)) (encoded_bytes (chal_utf8 ?c) (?name @ '':'' @ chal_realm ?c))"
  consider (hashed) "chal_userhash ?c"
    | (extended) "\<not> chal_userhash ?c" "chal_utf8 ?c \<and> list_ex (\<lambda>d. byte_of d < 0x20 \<or> byte_of d > 0x7E) ?name"
    | (plain) "\<not> chal_userhash ?c" "\<not> (chal_utf8 ?c \<and> list_ex (\<lambda>d. byte_of d < 0x20 \<or> byte_of d > 0x7E) ?name)" by blast
  then show ?thesis
  proof cases
    case hashed
    then obtain q where q: "quoted_field ?h = Inr q" "user = separated '', '' [''username='' @ q, ''userhash=true'']"
      using assms(1) by (auto simp: user_field_def bind_result_Inr_iff Let_def)
    have "reads (''username'' @ ''='' @ q) (''username'', ?h)" using q(1) utf8_hash[OF assms(2)] by (intro reads_quoted) auto
    moreover have "reads (''userhash'' @ ''='' @ ''true'') (''userhash'', ''true'')"
      by (rule reads_token) (auto simp: token_char_def is_alpha_char_def is_lower_char_def)
    moreover have "?h \<noteq> [] \<and> (\<forall>c\<in>set ?h. is_lower_hex_char c)" using assms(2) unfolding hex_hashes_def by blast
    then have "\<forall>p\<in>set (code_points ?h). point p \<notin> {0x2028, 0x2029}"
      using hex_char_facts byte_small by (subst ascii_points) (auto simp: point_def)
    then have "no_line_terminator (''username'' @ ''='' @ q)" using quoted_no_terminator[of "''username''" ?h q] q(1) utf8_hash[OF assms(2)] by simp
    ultimately show ?thesis using q(2) hashed by (intro exI[of _ "''username='' @ q"] exI[of _ "[''userhash=true'']"]) (simp add: user_pairs_def Let_def)
  next
    case extended
    let ?v = "''UTF-8'' @ [CHR 0x27, CHR 0x27] @ concat (map percent_byte ?name)"
    have user: "user = ''username*'' @ ''='' @ ?v" using assms(1) extended by (auto simp: user_field_def Let_def split: if_splits)
    have "\<forall>c\<in>set (''UTF-8'' @ [CHR 0x27, CHR 0x27]). token_char c"
      by (simp add: token_char_def is_alpha_char_def is_upper_char_def is_digit_char_def)
    moreover have "\<forall>c\<in>set (concat (map percent_byte ?name)). token_char c" using percent_token by auto
    ultimately have t: "\<forall>c\<in>set ?v. token_char c" by (simp only: set_append) blast
    then have "reads user (''username*'', ?v)" unfolding user by (intro reads_token) auto
    moreover have "no_line_terminator user"
    proof (rule plain_field)
      have "0x20 \<le> byte_of c \<and> byte_of c < 0x80" if "token_char c" for c
        using that by (auto simp: token_char_def is_alpha_char_def is_digit_char_def is_upper_char_def is_lower_char_def byte_of_def)
      then show "\<forall>c\<in>set user. 0x20 \<le> byte_of c \<and> byte_of c < 0x80"
        using t unfolding user by (auto simp: byte_of_def)
    qed
    ultimately show ?thesis using extended by (intro exI[of _ user] exI[of _ "[]"]) (simp add: user_pairs_def Let_def)
  next
    case plain
    then obtain q where q: "quoted_field ?name = Inr q" "user = ''username'' @ ''='' @ q"
      using assms(1) by (auto simp: user_field_def bind_result_Inr_iff Let_def)
    have u: "utf8 ?name" using assms(3) by (simp add: texts_utf8_def)
    have "point p \<notin> {0x2028, 0x2029}" if "p \<in> set (code_points ?name)" for p
    proof (cases "chal_utf8 ?c")
      case True
      then have "byte_of c \<le> 0x7E" if "c \<in> set ?name" for c
        using plain(2) that unfolding list_ex_iff by (meson linorder_not_less)
      then have "\<forall>c\<in>set ?name. byte_of c < 0x80" by (fastforce intro: le_less_trans)
      then show ?thesis using that by (auto simp: ascii_points point_def)
    next
      case False
      then show ?thesis using assms(4) latin_points[OF _ that] by auto
    qed
    then have "no_line_terminator user" unfolding q(2) using q(1) u by (intro quoted_no_terminator) auto
    moreover have "reads user (''username'', ?name)" unfolding q(2) using q(1) u by (intro reads_quoted) auto
    ultimately show ?thesis using plain by (intro exI[of _ user] exI[of _ "[]"]) (simp add: user_pairs_def Let_def, blast)
  qed
qed

lemma qop_reads: "reads (''qop='' @ qop_text q) (''qop'', qop_text q)"
  using reads_token[of "''qop''" "qop_text q"]
  by (cases q) (simp_all add: token_char_def is_alpha_char_def is_lower_char_def)

lemma count_reads: "reads (''nc='' @ padded_hex n) (''nc'', padded_hex n)"
  using reads_token[of "''nc''" "padded_hex n"] padded_hex_token[of n] by simp

lemma algorithm_reads: "reads (''algorithm='' @ algorithm_text a) (''algorithm'', algorithm_text a)"
  using reads_token[of "''algorithm''" "algorithm_text a"]
  by (cases a) (simp_all add: token_char_def is_alpha_char_def is_upper_char_def is_lower_char_def is_digit_char_def)

lemma closing_fields_read:
  assumes "closing_fields i = Inr fs" "texts_utf8 i" "count_ok (in_count i)"
  shows "list_all2 reads fs (closing_pairs i)"
proof -
  let ?c = "in_challenge i"
  obtain n where n: "in_count i = Whole n" using assms(3) by (cases "in_count i") (auto simp: count_ok_def)
  obtain os rs where
    o: "(case chal_opaque ?c of None \<Rightarrow> Inr [] | Some x \<Rightarrow> bind_result (labelled ''opaque'' x) (\<lambda>f. Inr [f])) = Inr os"
    and r: "(case chal_qop ?c of
          Some q \<Rightarrow> bind_result (labelled ''cnonce'' (in_cnonce i)) (\<lambda>f. Inr [''qop='' @ qop_text q, ''nc='' @ padded_hex (nat n), f])
        | None \<Rightarrow> if session_variant (chal_algorithm ?c) then bind_result (labelled ''cnonce'' (in_cnonce i)) (\<lambda>f. Inr [f]) else Inr []) = Inr rs"
    and fs: "fs = os @ rs"
    using assms(1) unfolding closing_fields_def Let_def n jsnum.case bind_result_Inr_iff[of _ "\<lambda>os. bind_result _ (_ os)"]
      bind_result_Inr_iff[of _ "\<lambda>rs. Inr (_ @ rs)"] sum.inject by blast
  have "list_all2 reads os (case chal_opaque ?c of None \<Rightarrow> [] | Some x \<Rightarrow> [(''opaque'', x)])"
    using o assms(2) by (cases "chal_opaque ?c") (auto simp: bind_result_Inr_iff texts_utf8_def intro: labelled_reads)
  moreover have "reads f (''cnonce'', in_cnonce i)" if "labelled ''cnonce'' (in_cnonce i) = Inr f" for f
    using labelled_reads[OF that] assms(2) by (simp add: texts_utf8_def)
  then have "list_all2 reads rs (case chal_qop ?c of
           Some q \<Rightarrow> [(''qop'', qop_text q), (''nc'', padded_hex (nat n)), (''cnonce'', in_cnonce i)]
         | None \<Rightarrow> if session_variant (chal_algorithm ?c) then [(''cnonce'', in_cnonce i)] else [])"
    using r by (cases "chal_qop ?c") (auto simp: bind_result_Inr_iff qop_reads[simplified] count_reads[simplified] split: if_splits)
  ultimately show ?thesis unfolding fs closing_pairs_def Let_def n jsnum.case by (rule list_all2_appendI)
qed

lemma fields_read:
  assumes "list_all2 reads fs kvs" "distinct (map fst (ps @ kvs))"
  shows "fold_result field_step (map (\<lambda>f. trim (CHR '' '' # f)) fs) (True, [ps]) = Inr (True, [ps @ kvs])"
  using assms
proof (induction arbitrary: ps rule: list_all2_induct)
  case Nil
  then show ?case by simp
next
  case (Cons f fs kv kvs)
  obtain k v where kv: "kv = (k, v)" by force
  have "map_of ps k = None" using Cons.prems by (auto simp: kv map_of_eq_None_iff)
  moreover have "f \<noteq> []" "begins_parameter f" "digest_parameter f = Some (k, v)" using Cons(1) by (auto simp: reads_def kv)
  ultimately have "field_step f (True, [ps]) = Inr (True, [ps @ [(k, v)]])" by (simp add: field_step_def add_parameter_def)
  then show ?case using Cons.IH[of "ps @ [kv]"] Cons.prems reads_trim(1)[OF Cons(1)] by (simp add: kv)
qed

lemma first_field_read:
  assumes "reads f (k, v)" "no_line_terminator f"
  shows "field_step (''Digest '' @ f) (False, []) = Inr (True, [[(k, v)]])"
proof -
  obtain c cs where c: "f = c # cs" "c \<noteq> CHR ''=''" using assms(1) lower_char_facts by (auto simp: reads_def)
  have t: "takeWhile token_char (''Digest '' @ f) = ''Digest''" "dropWhile token_char (''Digest '' @ f) = CHR '' '' # f"
    by (simp_all add: token_char_def is_alpha_char_def is_upper_char_def is_lower_char_def is_digit_char_def)
  have "\<not> begins_parameter (''Digest '' @ f)" unfolding begins_parameter_def t reads_trim(2)[OF assms(1)] using c by simp
  moreover have "scheme_field (''Digest '' @ f) = Some (''Digest'', f)"
    unfolding scheme_field_def Let_def t reads_trim(2)[OF assms(1)] using assms(2) c by simp
  moreover have "ascii_lower ''Digest'' = ''digest''"
    by (simp add: ascii_lower_def is_upper_char_def byte_of_def char_of_eq_iff take_bit_eq_mod)
  moreover have "digest_parameter f = Some (k, v)" using assms(1) by (simp add: reads_def)
  ultimately show ?thesis using c(1) by (simp add: field_step_def add_parameter_def)
qed

lemma header_read:
  assumes "list_all2 reads (f # fs) kvs" "distinct (map fst kvs)" "no_line_terminator f"
    "\<not> has_control_char (''Digest '' @ separated '', '' (f # fs))" "length (utf16_units (''Digest '' @ separated '', '' (f # fs))) \<le> 16384"
  shows "challenges [''Digest '' @ separated '', '' (f # fs)] = Inr [kvs]"
proof -
  obtain k v kvs' where kvs: "kvs = (k, v) # kvs'" and f: "reads f (k, v)" and fs: "list_all2 reads fs kvs'"
    using assms(1) by (cases kvs) auto
  have s: "\<forall>g\<in>set (f # fs). scans g" using list_all2_left[OF assms(1)] by (auto simp: reads_def)
  have "scans ''Digest ''" by (rule scans_plain) auto
  then have "scan_fields False False [] (''Digest '' @ separated '', '' (f # fs))
      = scan_fields False False (rev ''Digest '') (separated '', '' (f # fs))" by (simp only: scans_def append_Nil2)
  then have "split_fields (''Digest '' @ separated '', '' (f # fs)) = Inr ((''Digest '' @ f) # map (\<lambda>g. trim (CHR '' '' # g)) fs)"
    using scan_separated[OF s, of "rev ''Digest ''"] reads_trim(3)[OF f] assms(4,5) by (simp add: split_fields_def)
  moreover have "fold_result field_step ((''Digest '' @ f) # map (\<lambda>g. trim (CHR '' '' # g)) fs) (False, []) = Inr (True, [kvs])"
    using first_field_read[OF f assms(3)] fields_read[OF fs, of "[(k, v)]"] assms(2) by (simp add: kvs)
  ultimately show ?thesis by (simp add: challenges_def header_step_def)
qed

definition clean :: "string \<Rightarrow> bool" where
  "clean s \<longleftrightarrow> \<not> has_control_char s"

lemma clean_append [simp]: "clean (s @ t) \<longleftrightarrow> clean s \<and> clean t"
  by (auto simp: clean_def has_control_char_def)

lemma clean_Nil [simp]: "clean []"
  by (simp add: clean_def has_control_char_def)

lemma clean_Cons: "clean (c # s) \<longleftrightarrow> clean [c] \<and> clean s"
  by (auto simp: clean_def has_control_char_def)

lemma clean_concat: "(\<And>x. x \<in> set xs \<Longrightarrow> clean (f x)) \<Longrightarrow> clean (concat (map f xs))"
  by (induction xs) auto

lemma clean_char: "clean [c] \<longleftrightarrow> 0x20 \<le> byte_of c \<and> byte_of c \<noteq> 0x7F"
  by (auto simp: clean_def has_control_char_def byte_of_def)

lemma clean_token: "token_char c \<Longrightarrow> clean [c]"
  unfolding clean_char token_char_def is_alpha_char_def is_upper_char_def is_lower_char_def is_digit_char_def
  by (auto simp: byte_of_def)

lemma clean_tokens: "\<forall>c\<in>set s. token_char c \<Longrightarrow> clean s"
proof (induction s)
  case (Cons c s)
  then have "clean [c]" "clean s" using clean_token by auto
  then show ?case using clean_Cons by blast
qed simp

lemma clean_names [simp]:
  "clean ''username=''" "clean ''userhash=true''" "clean '', userhash=true''" "clean ''username*=UTF-8''" "clean [CHR 0x27, CHR 0x27]"
  "clean ''realm''" "clean ''nonce''" "clean ''uri''" "clean ''response''" "clean ''algorithm=''" "clean ''opaque''" "clean ''cnonce''"
  "clean ''qop=''" "clean ''nc=''" "clean '', ''" "clean ''Digest ''" "clean ''=''"
  by (simp_all add: clean_def has_control_char_def)

lemma clean_quoted: "quoted_field v = Inr q \<Longrightarrow> clean q"
proof -
  assume "quoted_field v = Inr q"
  then have v: "clean v" and q: "q = [CHR 0x22] @ concat (map field_escape v) @ [CHR 0x22]"
    by (auto simp: quoted_field_def clean_def split: if_splits)
  have "clean (field_escape c)" if "c \<in> set v" for c
  proof -
    have "clean [c]" using v that by (auto simp: clean_def has_control_char_def)
    moreover have "clean [CHR 0x5C]" by (simp add: clean_char byte_of_def)
    ultimately show ?thesis using clean_append[of "[CHR 0x5C]" "[c]"] by (simp add: field_escape_def)
  qed
  then have "clean (concat (map field_escape v))" by (rule clean_concat)
  moreover have "clean [CHR 0x22]" by (simp add: clean_char byte_of_def)
  ultimately show ?thesis unfolding q clean_append by blast
qed

lemma clean_labelled:
  assumes "labelled name v = Inr f" "clean name"
  shows "clean f"
proof -
  obtain q where q: "quoted_field v = Inr q" "f = name @ ''='' @ q"
    using assms(1) unfolding labelled_def bind_result_Inr_iff by auto
  show ?thesis using clean_quoted[OF q(1)] assms(2) unfolding q(2) clean_append by simp
qed

lemma clean_separated: "\<forall>f\<in>set fs. clean f \<Longrightarrow> clean x \<Longrightarrow> clean (separated x fs)"
  by (induction x fs rule: separated.induct) auto

lemma clean_texts [simp]: "clean (qop_text q)" "clean (algorithm_text a)" "clean (padded_hex n)"
proof -
  show "clean (qop_text q)" by (cases q) (simp_all add: clean_def has_control_char_def)
  show "clean (algorithm_text a)" by (cases a) (simp_all add: clean_def has_control_char_def)
  show "clean (padded_hex n)" by (rule clean_tokens) (use padded_hex_token[of n] in blast)
qed

lemma clean_user:
  assumes "user_field hash i = Inr user"
  shows "clean user"
proof -
  have "clean (concat (map percent_byte s))" for s
    by (rule clean_tokens) (auto dest: percent_token)
  then have "clean (''username*=UTF-8'' @ [CHR 0x27, CHR 0x27] @ concat (map percent_byte s))" for s
    unfolding clean_append by simp
  moreover have "clean (''username='' @ q @ '', userhash=true'')" "clean (''username='' @ q)" if "quoted_field v = Inr q" for v q
    using clean_quoted[OF that] unfolding clean_append by simp_all
  ultimately show ?thesis using assms
    unfolding user_field_def Let_def bind_result_Inr_iff by (cases "chal_userhash (in_challenge i)")
      (simp only: if_True if_False bind_result_Inr_iff sum.inject, blast, simp only: if_True if_False bind_result_Inr_iff sum.inject split: if_splits, (blast | simp)+)
qed

lemma clean_closing:
  assumes "closing_fields i = Inr fs" "count_ok (in_count i)" "f \<in> set fs"
  shows "clean f"
proof -
  obtain n where n: "in_count i = Whole n" using assms(2) by (cases "in_count i") (auto simp: count_ok_def)
  have "clean (''qop='' @ qop_text q)" "clean (''nc='' @ padded_hex (nat n))" for q unfolding clean_append by simp_all
  then show ?thesis
    using assms(1,3) clean_labelled[OF _ clean_names(11)] clean_labelled[OF _ clean_names(12)]
    unfolding closing_fields_def Let_def n jsnum.case bind_result_Inr_iff
    by (cases "chal_opaque (in_challenge i)"; cases "chal_qop (in_challenge i)"; cases "session_variant (chal_algorithm (in_challenge i))")
      (auto simp: bind_result_Inr_iff simp del: append.simps)
qed

lemma latin_prefix:
  assumes "utf8 s" "\<not> list_ex (\<lambda>n. n > 0xFF) (utf16_units (s @ t))"
  shows "\<not> list_ex (\<lambda>n. n > 0xFF) (utf16_units s)"
proof -
  have "utf16_units (s @ t) = utf16_units s @ utf16_units t" by (simp add: utf16_units_def code_points_append[OF assms(1)])
  then show ?thesis using assms(2) by simp
qed

lemma answer_names: "distinct (map fst (answer_pairs hash i))"
  by (cases "chal_opaque (in_challenge i)"; cases "chal_qop (in_challenge i)"; cases "chal_userhash (in_challenge i)")
    (simp_all add: answer_pairs_def user_pairs_def closing_pairs_def Let_def)

text \<open>
  C21. The answer to a challenge is one header line without control characters, so that no user name,
  realm, nonce or target can smuggle another header in; and within the length bound it is read back, by
  the grammar that reads challenges, as exactly the parameters it was made of, in their order, quotes,
  backslashes and commas included.
\<close>

theorem digest_answer_reads_back:
  assumes "create_digest_authorization hash i = Inr s" "hex_hashes hash" "texts_utf8 i"
  shows "\<not> has_control_char s \<and> (length (utf16_units s) \<le> 16384 \<longrightarrow> challenges [s] = Inr [answer_pairs hash i])"
proof -
  let ?c = "in_challenge i"
  obtain user realm_f nonce_f uri_f response_f rest where
    f: "user_field hash i = Inr user" "labelled ''realm'' (chal_realm ?c) = Inr realm_f" "labelled ''nonce'' (chal_nonce ?c) = Inr nonce_f"
      "labelled ''uri'' (in_uri i) = Inr uri_f" "labelled ''response'' (digest_response hash i) = Inr response_f"
      "closing_fields i = Inr rest"
    and s: "s = ''Digest '' @ separated '', '' ([user, realm_f, nonce_f, uri_f, ''algorithm='' @ algorithm_text (chal_algorithm ?c), response_f] @ rest)"
    and k: "count_ok (in_count i)" "chal_utf8 ?c \<or> \<not> list_ex (\<lambda>n. n > 0xFF) (utf16_units (in_username i @ in_password i @ chal_realm ?c))"
    using assms(1) unfolding create_digest_authorization_def Let_def bind_result_Inr_iff by (auto simp: bind_result_Inr_iff split: if_splits simp del: append.simps)
  have u: "utf8 (in_username i)" "utf8 (chal_realm ?c)" "utf8 (chal_nonce ?c)" "utf8 (in_uri i)" using assms(3) by (simp_all add: texts_utf8_def)
  let ?mid = "[realm_f, nonce_f, uri_f, ''algorithm='' @ algorithm_text (chal_algorithm ?c), response_f]"
  have "\<exists>g gs. user = separated '', '' (g # gs) \<and> list_all2 reads (g # gs) (user_pairs hash i) \<and> no_line_terminator g"
    by (rule user_field_reads[OF f(1) assms(2,3)]) (use k(2) latin_prefix[OF u(1)] in blast)
  then obtain g gs where g: "user = separated '', '' (g # gs)" "list_all2 reads (g # gs) (user_pairs hash i)" "no_line_terminator g" by blast
  have r: "utf8 (digest_response hash i)" by (simp add: digest_response_def Let_def utf8_hash[OF assms(2)])
  have mid: "list_all2 reads ?mid [(''realm'', chal_realm ?c), (''nonce'', chal_nonce ?c), (''uri'', in_uri i),
        (''algorithm'', algorithm_text (chal_algorithm ?c)), (''response'', digest_response hash i)]"
    using labelled_reads[OF f(2) _ _ u(2)] labelled_reads[OF f(3) _ _ u(3)] labelled_reads[OF f(4) _ _ u(4)] labelled_reads[OF f(5) _ _ r]
      algorithm_reads[of "chal_algorithm ?c"] by (simp del: append.simps)
  have all: "list_all2 reads (g # gs @ ?mid @ rest) (answer_pairs hash i)"
    using list_all2_appendI[OF g(2) list_all2_appendI[OF mid closing_fields_read[OF f(6) assms(3) k(1)]]]
    unfolding answer_pairs_def Let_def by simp
  have line: "s = ''Digest '' @ separated '', '' (g # gs @ ?mid @ rest)"
    unfolding s g(1) using separated_merge[of "g # gs" "'', ''" "?mid @ rest"] by simp
  have "clean s"
    unfolding s clean_append using clean_user[OF f(1)] clean_labelled[OF f(2)] clean_labelled[OF f(3)] clean_labelled[OF f(4)]
      clean_labelled[OF f(5)] clean_closing[OF f(6) k(1)] clean_append[of "''algorithm=''"]
    by (intro conjI clean_separated) (auto simp del: append.simps)
  then show ?thesis
    using header_read[OF all answer_names g(3)] unfolding clean_def line by blast
qed

definition sample_hash :: hasher where
  "sample_hash name bs = (if length bs mod 2 = 0 then ''00'' else ''ff'')"

definition sample_input :: digest_input where
  "sample_input = \<lparr>in_challenge = sample_chosen, in_username = [CHR ''u'', CHR 0x22, CHR '',''], in_password = ''p'', in_method = ''POST'',
     in_uri = ''/x'', in_body = [], in_cnonce = ''c'', in_count = Whole 1\<rparr>"

theorem digest_answer_reads_back_witness:
  "\<exists>s. create_digest_authorization sample_hash sample_input = Inr s \<and> \<not> has_control_char s"
proof -
  have h: "hex_hashes sample_hash" by (simp add: hex_hashes_def sample_hash_def is_lower_hex_char_def is_digit_char_def)
  have t: "texts_utf8 sample_input"
    by (simp add: texts_utf8_def sample_input_def sample_chosen_def utf8_def utf8_point_def trailing_bytes.simps byte_of_def)
  have "\<not> (\<exists>e. create_digest_authorization sample_hash sample_input = Inl e)"
    by (simp add: create_digest_authorization_def sample_input_def sample_chosen_def count_ok_def user_field_def labelled_def
        quoted_field_def has_control_char_def utf16_units_def trailing_bytes.simps byte_of_def point_def Let_def
        digest_response_def sample_hash_def closing_fields_def)
  then obtain s where "create_digest_authorization sample_hash sample_input = Inr s"
    by (cases "create_digest_authorization sample_hash sample_input") auto
  then show ?thesis using digest_answer_reads_back[OF _ h t] by blast
qed

end
