(* ===== verification/Binding_Executor_Laws.thy ===== *)
theory Binding_Executor_Laws
  imports Binding_Executor Binding_Soap_Laws Xml_Serializer_Laws Security_Policy_Laws Security_Digest_Laws
begin

section \<open>Laws of the native executor\<close>

text \<open>
  A relation between the states before and after holds of every operation when it holds of the single
  steps: a use of the world and the memory of a nonce (\<open>step_law\<close>), and a request (\<open>request_law\<close>). The
  interpretations are the log of the requests, which only requests extend, and the memory of nonces.
\<close>

subsection \<open>Steps\<close>

lemma exec_bind_result:
  "exec_bind m f s = (Inr y, t) \<longleftrightarrow> (\<exists>x u. m s = (Inr x, u) \<and> f x u = (Inr y, t))"
  "exec_bind m f s = (Inl e, t) \<longleftrightarrow> m s = (Inl e, t) \<or> (\<exists>x u. m s = (Inr x, u) \<and> f x u = (Inl e, t))"
  by (auto simp: exec_bind_def split: prod.splits sum.splits)

lemma exec_lift_result [simp]: "exec_lift r s = (r', t) \<longleftrightarrow> r' = r \<and> t = s"
  by (auto simp: exec_lift_def)

definition keeps :: "('w exec_state \<Rightarrow> 'w exec_state \<Rightarrow> bool) \<Rightarrow> ('w, 'a) exec \<Rightarrow> bool" where
  "keeps R m \<longleftrightarrow> (\<forall>s. R s (snd (m s)))"

locale step_law =
  fixes R :: "'w exec_state \<Rightarrow> 'w exec_state \<Rightarrow> bool"
  assumes refl: "R s s"
    and trans: "R s t \<Longrightarrow> R t u \<Longrightarrow> R s u"
    and world: "R s (s\<lparr>exec_world := w\<rparr>)"
    and nonce: "R s (snd (remember_nonce bs s))"
begin

lemma keeps_lift: "keeps R (exec_lift r)"
  by (simp add: keeps_def exec_lift_def refl)

lemma keeps_ask: "keeps R (exec_ask g)"
  by (simp add: keeps_def exec_ask_def world split: prod.splits)

lemma keeps_bind:
  assumes "keeps R m" "\<And>x. keeps R (f x)"
  shows "keeps R (exec_bind m f)"
  unfolding keeps_def
proof
  fix s
  obtain r t where m: "m s = (r, t)" by fastforce
  with assms(1) have "R s t" unfolding keeps_def by (metis snd_conv)
  moreover have "R t (snd (f x t))" for x using assms(2) by (simp add: keeps_def)
  ultimately show "R s (snd (exec_bind m f s))" using m by (auto simp: exec_bind_def split: sum.splits intro: trans)
qed

lemma keeps_remember: "keeps R (remember_nonce bs)"
  by (simp add: keeps_def nonce)

lemmas keeps_basic = keeps_lift keeps_ask keeps_remember

lemma keeps_remaining: "keeps R (remaining x d)"
  unfolding remaining_def by (intro keeps_bind keeps_basic) (simp add: keeps_basic split: prod.splits)

lemma keeps_provider: "keeps R (ask_provider x context target selected realm_text)"
  unfolding ask_provider_def
  by (cases "run_provide x") (simp_all add: keeps_basic, intro keeps_bind keeps_basic, simp add: keeps_basic split: lookup.splits)

lemma keeps_credential: "keeps R (wait_credential x d context target selected realm_text)"
  unfolding wait_credential_def by (intro keeps_bind keeps_remaining keeps_provider)

lemma keeps_fresh_nonce: "keeps R (fresh_nonce x)"
  unfolding fresh_nonce_def by (intro keeps_bind keeps_basic)

lemma keeps_token: "keeps R (username_token_for x c)"
  unfolding username_token_for_def
  by (auto split: option.splits prod.splits intro!: keeps_bind keeps_basic keeps_credential keeps_fresh_nonce)

lemma keeps_body: "keeps R (request_body x c token)"
  unfolding request_body_def by (intro keeps_bind keeps_basic)

lemma keeps_authorization: "keeps R (authorization_for x c ch body)"
  unfolding authorization_for_def
  by (auto split: option.splits prod.splits intro!: keeps_bind keeps_basic keeps_credential keeps_fresh_nonce)

lemma keeps_tls: "keeps R (client_tls x d context target sel)"
  unfolding client_tls_def Let_def
  by (auto split: option.splits intro!: keeps_bind keeps_basic keeps_credential)

end

locale request_law = step_law +
  assumes request: "R s (s\<lparr>exec_world := w, sent_requests := sent_requests s @ [entry]\<rparr>)"
begin

lemma keeps_send: "keeps R (send_request x r)"
  by (simp add: keeps_def send_request_def request split: prod.splits)

lemma keeps_attempt: "keeps R (attempt x c ch final)"
  unfolding attempt_def by (intro keeps_bind keeps_token keeps_body keeps_authorization keeps_remaining keeps_send keeps_basic)

lemma keeps_attempts: "keeps R (attempts x c n ch)"
  by (induction n arbitrary: ch)
    (auto simp: keeps_basic intro!: keeps_bind keeps_attempt split: attempt_end.splits)

lemma keeps_exchange: "keeps R (exchange x context known form content opts deadline)"
  unfolding exchange_def
  by (auto split: prod.splits intro!: keeps_bind keeps_basic keeps_remaining keeps_tls keeps_attempts)

lemma keeps_execute: "keeps R (execute x context known form v opts)"
  unfolding execute_def new_budget_def
  by (auto split: prod.splits intro!: keeps_bind keeps_basic keeps_exchange)

end

definition same_log :: "'w exec_state \<Rightarrow> 'w exec_state \<Rightarrow> bool" where
  "same_log s t \<longleftrightarrow> sent_requests t = sent_requests s"

interpretation silent: step_law same_log
  by unfold_locales (auto simp: same_log_def remember_nonce_def Let_def)

subsection \<open>Nonces\<close>

text \<open>The memory has no name twice and never more than 1024.\<close>

definition nonces_ok :: "'w exec_state \<Rightarrow> bool" where
  "nonces_ok s \<longleftrightarrow> distinct (recent_nonces s) \<and> length (recent_nonces s) \<le> 1024"

definition keeps_nonces :: "'w exec_state \<Rightarrow> 'w exec_state \<Rightarrow> bool" where
  "keeps_nonces s t \<longleftrightarrow> (nonces_ok s \<longrightarrow> nonces_ok t)"

interpretation memory: request_law keeps_nonces
proof
  fix s :: "'w exec_state" and bs
  show "keeps_nonces s (snd (remember_nonce bs s))"
    by (auto simp: keeps_nonces_def nonces_ok_def remember_nonce_def Let_def distinct_tl)
qed (auto simp: keeps_nonces_def nonces_ok_def)

subsection \<open>The log of an exchange\<close>

type_synonym request_log = "(soap_request \<times> transport_reply) list"

definition authorized :: "soap_request \<Rightarrow> bool" where
  "authorized q \<longleftrightarrow> ''Authorization'' \<in> fst ` set (req_headers q)"

text \<open>What a request of a call is, and what its reply makes of the attempt.\<close>

definition request_for :: "'t native_call \<Rightarrow> digest_challenge option \<Rightarrow> soap_request \<Rightarrow> bool" where
  "request_for c ch q \<longleftrightarrow> req_url q = call_target c \<and> (authorized q \<longleftrightarrow> call_digest c \<noteq> None \<and> ch \<noteq> None)"

definition verdict :: "('t, 'v, 'w) executor \<Rightarrow> 't native_call \<Rightarrow> digest_challenge option \<Rightarrow> bool \<Rightarrow> transport_reply \<Rightarrow> 'v attempt_end result" where
  "verdict x c ch final reply =
     (case reply of
        Replied a \<Rightarrow> judge_response x c ch final a
      | Transport_Failed e \<Rightarrow> if e = NotSent then raise TransportError else raise_unknown OutcomeUnknown
      | Transport_Refused e \<Rightarrow> Inl e)"

text \<open>A run that fails before it sends, or whose entries and result satisfy \<open>Q\<close>.\<close>

definition logs :: "(request_log \<Rightarrow> 'a result \<Rightarrow> bool) \<Rightarrow> ('w, 'a) exec \<Rightarrow> bool" where
  "logs Q m \<longleftrightarrow> (\<forall>s r t. m s = (r, t) \<longrightarrow>
     (\<exists>entries. sent_requests t = sent_requests s @ entries \<and> (entries = [] \<and> (\<exists>e. r = Inl e) \<or> Q entries r)))"

lemma logs_bind:
  assumes "keeps same_log m" "\<And>y u v. m u = (Inr y, v) \<Longrightarrow> logs Q (f y)"
  shows "logs Q (exec_bind m f)"
  unfolding logs_def
proof (intro allI impI)
  fix s r t assume b: "exec_bind m f s = (r, t)"
  obtain q u where m: "m s = (q, u)" by fastforce
  with assms(1) have u: "sent_requests u = sent_requests s" unfolding keeps_def same_log_def by (metis snd_conv)
  show "\<exists>entries. sent_requests t = sent_requests s @ entries \<and> (entries = [] \<and> (\<exists>e. r = Inl e) \<or> Q entries r)"
  proof (cases q)
    case (Inl e)
    with b m u show ?thesis by (auto simp: exec_bind_def)
  next
    case (Inr y)
    with b m have f: "f y u = (r, t)" by (simp add: exec_bind_def)
    from assms(2) m Inr have "logs Q (f y)" by blast
    from this[unfolded logs_def, rule_format, OF f] u show ?thesis by simp
  qed
qed

lemma logs_mono:
  assumes "logs P m" "\<And>entries r. P entries r \<Longrightarrow> Q entries r"
  shows "logs Q m"
  using assms unfolding logs_def by metis

lemma Inr_bind_result: "Inr y = bind_result m f \<longleftrightarrow> (\<exists>x. m = Inr x \<and> f x = Inr y)"
  using bind_result_Inr_iff[of m f y] by (auto simp: eq_commute)

lemma authorization_headers:
  assumes "authorization_for x c ch body s = (Inr hs, t)"
  shows "fst ` set hs = (if call_digest c \<noteq> None \<and> ch \<noteq> None then {''Authorization''} else {})"
  using assms by (auto simp: authorization_for_def exec_bind_result Inr_bind_result split: option.splits prod.splits)

definition one_attempt :: "('t, 'v, 'w) executor \<Rightarrow> 't native_call \<Rightarrow> digest_challenge option \<Rightarrow> bool \<Rightarrow> request_log
    \<Rightarrow> 'v attempt_end result \<Rightarrow> bool" where
  "one_attempt x c ch final entries r \<longleftrightarrow> (\<exists>q reply. entries = [(q, reply)] \<and> request_for c ch q \<and> r = verdict x c ch final reply)"

lemma send_log:
  assumes "authorized q \<longleftrightarrow> call_digest c \<noteq> None \<and> ch \<noteq> None" "req_url q = call_target c"
  shows "logs (one_attempt x c ch final) (exec_bind (send_request x q) (\<lambda>a. exec_lift (judge_response x c ch final a)))"
  using assms
  by (auto simp: logs_def one_attempt_def exec_bind_def send_request_def request_for_def verdict_def exec_lift_def
      split: prod.splits transport_reply.splits if_splits sum.splits)

lemma attempt_log: "logs (one_attempt x c ch final) (attempt x c ch final)"
  unfolding attempt_def
  by (intro logs_bind silent.keeps_token silent.keeps_body silent.keeps_authorization silent.keeps_remaining send_log)
    (drule authorization_headers, simp_all add: authorized_def)

text \<open>The entries of a run of at most \<open>n\<close> attempts that starts with a challenge, and its result.\<close>

fun chained :: "('t, 'v, 'w) executor \<Rightarrow> 't native_call \<Rightarrow> nat \<Rightarrow> digest_challenge option \<Rightarrow> request_log
    \<Rightarrow> 'v native_result result \<Rightarrow> bool" where
  "chained x c n ch [] r = (\<exists>e. r = Inl e)"
| "chained x c n ch ((q, reply) # rest) r =
     (0 < n \<and> request_for c ch q \<and>
      (case verdict x c ch (n = 1) reply of
         Inl e \<Rightarrow> rest = [] \<and> r = Inl e
       | Inr (Finished v) \<Rightarrow> rest = [] \<and> r = Inr v
       | Inr (Challenged fresh) \<Rightarrow> chained x c (n - 1) (Some fresh) rest r))"

lemma attempts_chained: "logs (chained x c n ch) (attempts x c n ch)"
proof (induction n arbitrary: ch)
  case 0
  show ?case by (simp add: logs_def auth_failed_def)
next
  case (Suc n)
  show ?case unfolding logs_def
  proof (intro allI impI)
    fix s r t assume b: "attempts x c (Suc n) ch s = (r, t)"
    obtain q u where a: "attempt x c ch (n = 0) s = (q, u)" by fastforce
    with attempt_log[of x c ch "n = 0", unfolded logs_def, rule_format, OF a] consider
        e where "q = Inl e" "sent_requests u = sent_requests s"
      | y reply where "sent_requests u = sent_requests s @ [(y, reply)]" "request_for c ch y" "q = verdict x c ch (n = 0) reply"
      by (auto simp: one_attempt_def)
    then show "\<exists>entries. sent_requests t = sent_requests s @ entries \<and> (entries = [] \<and> (\<exists>e. r = Inl e) \<or> chained x c (Suc n) ch entries r)"
    proof cases
      case 1
      with b a show ?thesis by (auto simp: exec_bind_def)
    next
      case 2
      show ?thesis
      proof (cases "\<exists>fresh. q = Inr (Challenged fresh)")
        case True
        then obtain fresh where f: "q = Inr (Challenged fresh)" by blast
        with b a have "attempts x c n (Some fresh) u = (r, t)" by (simp add: exec_bind_def)
        from Suc.IH[unfolded logs_def, rule_format, OF this] obtain rest where
          "sent_requests t = sent_requests u @ rest" "chained x c n (Some fresh) rest r" by fastforce
        with 2 f show ?thesis by (intro exI[of _ "(y, reply) # rest"]) (auto split: sum.splits attempt_end.splits)
      next
        case False
        with 2 b a show ?thesis
          by (intro exI[of _ "[(y, reply)]"]) (auto simp: exec_bind_def split: sum.splits attempt_end.splits)
      qed
    qed
  qed
qed

definition offered :: "('t, 'v, 'w) executor \<Rightarrow> transport_reply \<Rightarrow> digest_challenge result" where
  "offered x reply =
     (case reply of
        Replied a \<Rightarrow> select_digest_challenge (case map_of (resp_headers a) ''www-authenticate'' of None \<Rightarrow> [] | Some hs \<Rightarrow> hs)
          (policy_js (run_digest x))
      | _ \<Rightarrow> auth_failed)"

definition renews :: "digest_challenge \<Rightarrow> digest_challenge \<Rightarrow> bool" where
  "renews old fresh \<longleftrightarrow> chal_stale fresh \<and> chal_nonce fresh \<noteq> chal_nonce old \<and> chal_realm fresh = chal_realm old
     \<and> chal_algorithm fresh = chal_algorithm old \<and> chal_qop fresh = chal_qop old"

lemma verdict_challenged:
  assumes "verdict x c ch final reply = Inr (Challenged fresh)"
  shows "\<exists>a. reply = Replied a \<and> resp_status a = 401" "offered x reply = Inr fresh" "call_digest c \<noteq> None" "\<not> final"
    "ch = Some old \<Longrightarrow> renews old fresh"
  using assms
  by (auto simp: verdict_def judge_response_def after_response_def next_challenge_def offered_def renews_def Inr_bind_result
      bind_result_Inr_iff split: transport_reply.splits if_splits sum.splits onvif_error.splits)

lemma chained_Cons:
  assumes "chained x c n ch (entry # rest) r" "rest \<noteq> []"
  obtains fresh where "verdict x c ch (n = 1) (snd entry) = Inr (Challenged fresh)" "chained x c (n - 1) (Some fresh) rest r"
    "request_for c ch (fst entry)" "0 < n"
  using assms by (cases entry) (auto split: sum.splits attempt_end.splits)





text \<open>An exchange sends nothing before its attempts, whose call it has checked.\<close>

definition allowed_limits :: "('t, 'v, 'w) executor \<Rightarrow> invoke_options \<Rightarrow> xml_limits \<Rightarrow> bool" where
  "allowed_limits x opts l \<longleftrightarrow> (\<exists>n. l = (run_limits x)\<lparr>xml_bytes := n\<rparr> \<and> n \<le> xml_bytes (run_limits x) \<and> n \<le> 16 * 1024 * 1024
     \<and> (\<forall>m. opt_max_bytes opts = Some (Whole m) \<longrightarrow> n \<le> m))"

definition call_checked :: "('t, 'v, 'w) executor \<Rightarrow> security_context \<Rightarrow> invoke_options \<Rightarrow> 't native_call \<Rightarrow> bool" where
  "call_checked x context opts c \<longleftrightarrow> allowed_limits x opts (call_limits c) \<and>
     (\<exists>href. authorize_target (run_url x) href (run_trust x) (Some (principal context)) = Inr (call_target c))
     \<and> call_operation c \<in> set (run_operations x)"

lemma validated_operation: "validate_native_form x form = Inr operation \<Longrightarrow> operation \<in> set (run_operations x)"
  by (auto simp: validate_native_form_def bind_result_Inr_iff resolve_operation_def find_Some_iff split: if_splits option.splits)

lemma exchange_chained:
  "logs (\<lambda>entries r. \<exists>c. call_checked x context opts c \<and> chained x c 3 None entries r) (exchange x context known form content opts deadline)"
proof -
  have "logs (\<lambda>entries r. \<exists>c. call_checked x context opts c \<and> chained x c 3 None entries r) (attempts x (c\<lparr>call_tls := tls\<rparr>) 3 None)"
    if "check_call x context known form content opts deadline = Inr (c, sel)" for c sel tls
  proof -
    have "call_checked x context opts (c\<lparr>call_tls := tls\<rparr>)"
      using that by (auto simp: check_call_def call_checked_def allowed_limits_def bind_result_Inr_iff positive_integer_Inr validated_operation)
    then show ?thesis by (intro logs_mono[OF attempts_chained] exI conjI)
  qed
  note tail = this
  show ?thesis unfolding exchange_def
  proof (intro logs_bind silent.keeps_remaining silent.keeps_lift, goal_cases)
    case (1 ms u v y w z)
    then obtain c sel where y: "y = (c, sel)" "check_call x context known form content opts deadline = Inr (c, sel)"
      by (cases y) simp
    show ?case unfolding y(1) prod.case
      by (intro logs_bind silent.keeps_tls silent.keeps_lift) (rule tail[OF y(2)])
  qed
qed

lemma exchangeE:
  assumes "exchange x context known form content opts deadline s = (r, t)"
  obtains e where "sent_requests t = sent_requests s" "r = Inl e"
    | entries c where "sent_requests t = sent_requests s @ entries" "call_checked x context opts c" "chained x c 3 None entries r"
  using exchange_chained[unfolded logs_def, rule_format, OF assms] by auto

subsection \<open>Properties\<close>


text \<open>The replies after which nothing was executed.\<close>

definition not_executed :: "transport_reply \<Rightarrow> bool" where
  "not_executed reply \<longleftrightarrow> (\<exists>a. reply = Replied a \<and> resp_status a = 401) \<or> reply = Transport_Failed NotSent
     \<or> (\<exists>c. reply = Transport_Refused (OnvifError c NotSent))"

lemma after_response_certain: "after_response r \<noteq> Inl (OnvifError c NotSent)"
  by (auto simp: after_response_def split: sum.splits onvif_error.splits)

lemma verdict_not_sent: "verdict x c ch final reply = Inl (OnvifError code NotSent) \<Longrightarrow> not_executed reply"
  by (auto simp: verdict_def judge_response_def not_executed_def after_response_certain split: transport_reply.splits if_splits)

lemma chained_not_sent:
  "chained x c n ch es (Inl (OnvifError code NotSent)) \<Longrightarrow> \<forall>e\<in>set es. not_executed (snd e)"
proof (induction es arbitrary: n ch)
  case (Cons entry rest)
  show ?case
  proof (cases "rest = []")
    case True
    have "(\<exists>fresh. verdict x c ch (n = 1) (snd entry) = Inr (Challenged fresh))
        \<or> verdict x c ch (n = 1) (snd entry) = Inl (OnvifError code NotSent)"
      using Cons.prems by (cases entry) (auto split: sum.splits attempt_end.splits)
    then have "not_executed (snd entry)"
      using verdict_not_sent[of x c ch "n = 1" "snd entry" code] verdict_challenged(1)[of x c ch "n = 1" "snd entry"]
      by (auto simp: not_executed_def)
    with True show ?thesis by simp
  next
    case False
    with Cons.prems obtain fresh where f: "verdict x c ch (n = 1) (snd entry) = Inr (Challenged fresh)"
        "chained x c (n - 1) (Some fresh) rest (Inl (OnvifError code NotSent))"
      by (elim chained_Cons)
    show ?thesis using Cons.IH[OF f(2)] verdict_challenged(1)[OF f(1)] by (auto simp: not_executed_def)
  qed
qed simp

text \<open>
  C23. An exchange that fails with the certainty that nothing was sent has executed nothing: every request it
  did send was rejected with the status 401, or the transport itself says that it did not leave. Whatever
  goes wrong after another response, in its encoding, its envelope or its values, is not reported so.
\<close>

theorem not_sent_is_honest:
  assumes "exchange x context known form content opts deadline s = (Inl (OnvifError code NotSent), t)"
  shows "\<exists>entries. sent_requests t = sent_requests s @ entries \<and> (\<forall>e\<in>set entries. not_executed (snd e))"
  using assms
proof (cases rule: exchangeE)
  case (1 e)
  then show ?thesis by (intro exI[of _ "[]"]) simp
next
  case (2 entries c)
  then show ?thesis using chained_not_sent[OF 2(3)] by blast
qed

text \<open>
  What a finished attempt took from its reply. The value is the one the descriptor reads from the payload, and the
  payload is the one element of the body of the document that the octets of the reply are parsed to, within the limits.
\<close>

definition answers_call :: "('t, 'v, 'w) executor \<Rightarrow> xml_limits \<Rightarrow> 't operation_descriptor \<Rightarrow> transport_reply \<Rightarrow> 'v native_result \<Rightarrow> bool" where
  "answers_call x limits operation reply v \<longleftrightarrow>
     (\<exists>a. reply = Replied a \<and> native_status v = resp_status a \<and> 200 \<le> resp_status a \<and> resp_status a < 300
      \<and> (case v of
           Native_Response y p st \<Rightarrow> encoding_qualified a
             \<and> (\<exists>doc. run_parse x limits (resp_body a) = Inr doc \<and> body_payload doc p)
             \<and> (\<exists>d. response_element operation = Some d \<and> run_decode x d p = Inr y)
         | Accepted_One_Way st \<Rightarrow> response_element operation = None \<and> resp_body a = []))"

lemma verdict_finished:
  assumes "verdict x c ch final reply = Inr (Finished v)"
  shows "answers_call x (call_limits c) (call_operation c) reply v"
proof -
  obtain a where a: "reply = Replied a" "judge_response x c ch final a = Inr (Finished v)"
    using assms by (auto simp: verdict_def split: transport_reply.splits if_splits)
  show ?thesis
  proof (cases "response_element (call_operation c) = None \<and> resp_status a \<in> {202, 204} \<and> resp_body a = []")
    case True
    then show ?thesis using a by (auto simp: answers_call_def judge_response_def bind_result_Inr_iff split: if_splits)
  next
    case False
    then have r: "read_answer x c a = Inr v" "encoding_qualified a"
      using a(2) by (auto simp: judge_response_def bind_result_Inr_iff after_response_def split: if_splits sum.splits onvif_error.splits)
    then obtain ns doc answer where
      q: "run_parse x (call_limits c) (resp_body a) = Inr doc" "soap_response (run_decode x) (run_elements x) (call_operation c) (resp_status a) ns doc = Inr answer"
        "(case answer of
            Soap_Fault f \<Rightarrow> Inl (soap_fault_error f)
          | Soap_Payload p \<Rightarrow> (case response_element (call_operation c) of
              None \<Rightarrow> raise_unknown InvalidXml
            | Some d \<Rightarrow> bind_result (run_decode x d p) (\<lambda>y. Inr (Native_Response y p (resp_status a))))) = Inr v"
      unfolding read_answer_def bind_result_Inr_iff by blast
    then obtain p d y where p: "answer = Soap_Payload p" "response_element (call_operation c) = Some d" "run_decode x d p = Inr y"
        "v = Native_Response y p (resp_status a)"
      by (cases answer) (auto simp: bind_result_Inr_iff split: option.splits)
    show ?thesis using soap_payload_body[OF q(2)[unfolded p(1)]] q(1) p a(1) r(2) by (auto simp: answers_call_def)
  qed
qed

lemma chained_answered:
  "chained x c n ch es (Inr v) \<Longrightarrow> es \<noteq> [] \<and> answers_call x (call_limits c) (call_operation c) (snd (last es)) v"
proof (induction es arbitrary: n ch)
  case (Cons entry rest)
  show ?case
  proof (cases "rest = []")
    case True
    with Cons.prems have "verdict x c ch (n = 1) (snd entry) = Inr (Finished v)"
      by (cases entry) (auto split: sum.splits attempt_end.splits)
    from verdict_finished[OF this] True show ?thesis by simp
  next
    case False
    with Cons.prems obtain fresh where "chained x c (n - 1) (Some fresh) rest (Inr v)" by (elim chained_Cons)
    from Cons.IH[OF this] False show ?thesis by simp
  qed
qed simp

text \<open>
  C29. A result is what the device answered last: the last reply has a successful status and, for a value,
  the qualified encoding; the octets of that reply, parsed within limits that are no wider than those of the
  executor and of the invocation, are an envelope, the payload is the one element of its body, and the value is
  what the descriptor of a registered operation reads from it. An operation without a response is acknowledged
  by an empty body only.
\<close>

theorem result_is_last_answer:
  assumes "exchange x context known form content opts deadline s = (Inr v, t)"
  shows "\<exists>entries operation limits. sent_requests t = sent_requests s @ entries \<and> entries \<noteq> []
    \<and> operation \<in> set (run_operations x) \<and> allowed_limits x opts limits
    \<and> answers_call x limits operation (snd (last entries)) v"
  using assms
proof (cases rule: exchangeE)
  case (2 entries c)
  then show ?thesis using chained_answered[OF 2(3)] unfolding call_checked_def by blast
qed simp

text \<open>
  C30. No nonce is used twice among the last 1024: whatever an invocation does, the memory of nonces has no
  repetition and at most 1024 entries, and a nonce that is handed out was not in it, is now, and has 16 to
  64 octets.
\<close>

theorem nonces_fresh:
  assumes "nonces_ok s"
  shows "nonces_ok (snd (execute x context known form v opts s))
    \<and> (\<forall>bs t. fresh_nonce x s = (Inr bs, t) \<longrightarrow> bytes_hex bs \<notin> set (recent_nonces s) \<and> bytes_hex bs \<in> set (recent_nonces t)
        \<and> 16 \<le> length bs \<and> length bs \<le> 64 \<and> nonces_ok t)"
proof (intro conjI allI impI)
  show "nonces_ok (snd (execute x context known form v opts s))"
    using memory.keeps_execute assms unfolding keeps_def keeps_nonces_def by blast
  fix bs t assume f: "fresh_nonce x s = (Inr bs, t)"
  then have "bytes_hex bs \<notin> set (recent_nonces s) \<and> 16 \<le> length bs \<and> length bs \<le> 64
      \<and> (recent_nonces t = recent_nonces s @ [bytes_hex bs]
          \<or> recent_nonces s \<noteq> [] \<and> recent_nonces t = tl (recent_nonces s @ [bytes_hex bs]))"
    by (auto simp: fresh_nonce_def exec_bind_result exec_ask_def validated_nonce_def remember_nonce_def Let_def
        split: prod.splits js.splits if_splits)
  then show "bytes_hex bs \<notin> set (recent_nonces s)" "bytes_hex bs \<in> set (recent_nonces t)" "16 \<le> length bs" "length bs \<le> 64"
    by auto
  show "nonces_ok t" using memory.keeps_fresh_nonce[of x] assms f unfolding keeps_def keeps_nonces_def by (metis snd_conv)
qed

subsection \<open>A device that challenges once\<close>

definition native_context :: security_context where
  "native_context = \<lparr>thing_id = ''t'', principal = ''p'', definitions = [(''d'', JObj [(''scheme'', JStr ''digest'')])], default_security = [''d'']\<rparr>"

definition native_credential :: js where
  "native_credential = JObj [(''origin'', JStr ''http://a''), (''principal'', JStr ''p''), (''realm'', JStr ''a''),
     (''material'', JObj [(''kind'', JStr ''password''), (''username'', JStr ''u''), (''password'', JStr ''w'')])]"

definition native_form :: js where
  "native_form = JObj [(''href'', JStr ''http://a/''), (''onvif:binding'', JStr ''soap12-http-v1''),
     (''onvif:operation'', JObj [(''bindingQName'', js_of_qname (qn ''b'' ''B'')), (''portTypeQName'', js_of_qname (qn ''p'' ''P'')),
        (''operation'', JStr ''Get'')])]"

text \<open>A device that challenges the first request and answers the second; its state counts the requests.\<close>

definition native_reply :: "nat \<Rightarrow> soap_reply" where
  "native_reply n = (if n = 0 then \<lparr>resp_status = 401, resp_headers = [(''www-authenticate'', sample_lines)], resp_body = []\<rparr>
     else \<lparr>resp_status = 200, resp_headers = [(''content-type'', [''application/soap+xml''])], resp_body = []\<rparr>)"

definition native_xml_limits :: xml_limits where
  "native_xml_limits = \<lparr>xml_bytes = 1048576, xml_depth = 64, xml_nodes = 20000, xml_attributes = 128\<rparr>"

definition native_executor :: "(credential_scope \<Rightarrow> nat \<Rightarrow> lookup \<times> nat) \<Rightarrow> (unit, unit, nat) executor" where
  "native_executor provide = \<lparr>run_operations = [sample_operation], run_elements = [], run_implemented = \<lambda>d. Inr (), run_decode = \<lambda>d n. Inr (),
     run_encode = \<lambda>d v. Inr (new_node ''u'' ''u'' ''Get'' []), run_parse = \<lambda>l bs. Inr sample_response,
     run_media_type = \<lambda>v. soap_media_type, run_media_parameters = \<lambda>v. [], run_url = sample_web, run_number = \<lambda>n. [],
     run_hash = sample_hash, run_token = \<lparr>sha1_base64 = \<lambda>bs. [], base64 = \<lambda>bs. [], iso_text = \<lambda>n. []\<rparr>,
     run_trust = \<lparr>policy_origins = [''http://a''], policy_targets = None, policy_principals = None, policy_authorizer = False, policy_tls = None\<rparr>,
     run_authorizer = None, run_limits = native_xml_limits,
     run_digest = \<lparr>policy_algorithms = [MD5, SHA256], policy_qops = [Auth]\<rparr>, run_username_policy = JUndefined, run_timeout = Whole 1000,
     run_observe = \<lambda>w. ((0, False), w), run_provide = Some provide,
     run_clock = \<lambda>w. (None, w), run_nonce = \<lambda>w. (JBytes (replicate 16 (of_nat w)), w), run_uuid = \<lambda>w. (''i'', w),
     run_send = \<lambda>q w. (Replied (native_reply w), Suc w)\<rparr>"

definition no_options :: invoke_options where
  "no_options = \<lparr>opt_target = None, opt_addressing = None, opt_headers = [], opt_timeout = None, opt_max_bytes = None\<rparr>"

definition native_start :: "nat exec_state" where
  "native_start = \<lparr>exec_world = 0, recent_nonces = [], sent_requests = []\<rparr>"

definition native_call_of :: "unit native_call" where
  "native_call_of = \<lparr>call_context = native_context, call_target = the (sample_web ''http://a/''), call_operation = sample_operation,
     call_payload = new_node ''u'' ''u'' ''Get'' [], call_options = no_options, call_limits = native_xml_limits,
     call_deadline = 1000, call_digest = Some (''d'', JObj [(''scheme'', JStr ''digest'')]), call_token = None, call_tls = None\<rparr>"

lemma native_form_valid: "validate_native_form (native_executor p) native_form = Inr sample_operation"
  by (simp add: validate_native_form_def native_form_def starts_with_def read_operation_def read_qname_def is_qname_js_def is_ncname_js_def
      js_of_qname_def is_ncname_def in_ranges_def xml_name_start_def xml_name_char_def point_def byte_of_def trailing_bytes.simps
      resolve_operation_def native_executor_def sample_operation_def operation_reference.defs check_implemented_def form_media_ok_def
      soap_media_type_def Let_def)

lemma native_selected: "select_security native_context JUndefined True = Inr [(''d'', JObj [(''scheme'', JStr ''digest'')])]"
  by (simp add: select_security_def native_context_def visit_scheme.simps member_of_def truthy_def Let_def
      is_function_def check_selection_def scheme_of_def native_schemes_def identity_schemes_def)

lemma native_call_checked:
  "check_call (native_executor p) native_context None native_form (new_node ''u'' ''u'' ''Get'' []) no_options 1000
   = Inr (native_call_of, [(''d'', JObj [(''scheme'', JStr ''digest'')])])"
  unfolding check_call_def native_form_valid
  by (simp add: native_form_def native_executor_def no_options_def native_xml_limits_def max_safe_integer_def authorize_target_def sample_web_def byte_of_def
      authorize_logical_endpoint_def native_selected selected_scheme_def scheme_of_def native_call_of_def)

lemma envelope_names [simp]: "is_ncname ''Envelope''" "is_ncname ''Header''" "is_ncname ''Body''" "is_ncname ''Action''" "is_ncname ''To''"
  "is_ncname ''MessageID''" "is_ncname ''ReplyTo''" "is_ncname ''Address''" "is_ncname ''mustUnderstand''" "is_ncname ''Get''"
  "is_ncname ''s''" "is_ncname ''wsa''" "is_ncname ''u''"
  by (simp_all add: is_ncname_def in_ranges_def xml_name_start_def xml_name_char_def point_def byte_of_def trailing_bytes.simps)

definition native_envelope :: xml_node where
  "native_envelope = Xml_Element (qn SOAP_NS ''Envelope'') (Some ''s'') [(''s'', SOAP_NS), (''wsa'', WSA_NS)] []
     [new_node SOAP_NS ''s'' ''Header'' (addressing_headers sample_operation WSA_NS ''http://a/''
        \<lparr>env_username_token = None, env_parameters = None, env_addressing = None, env_headers = []\<rparr> ''i''),
      new_node SOAP_NS ''s'' ''Body'' [new_node ''u'' ''u'' ''Get'' []]]"

lemma native_enveloped:
  "soap_envelope parse sample_operation ''http://a/'' ''i'' (new_node ''u'' ''u'' ''Get'' [])
     \<lparr>env_username_token = None, env_parameters = None, env_addressing = None, env_headers = []\<rparr> = Inr native_envelope"
  by (simp add: soap_envelope_def addressing_field_def native_envelope_def Let_def)

lemma native_checked: "assert_xml_element 0 (js_of_node native_envelope) = Inr ()" "validate_xml_ids native_envelope = Inr ()"
  by (simp_all add: assert_xml_element.simps native_envelope_def new_node_def addressing_headers_def addressing_field_def
      sample_operation_def js_of_qname_def js_field_def js_of_attribute_def is_qname_js_def is_ncname_js_def prefix_ok_def attribute_ok_def validate_xml_ids_def add_id_def content_ok_def)

lemma native_limits: "xml_limits_of (limits_js (native_xml_limits)) = Inr (native_xml_limits)"
  by (simp add: xml_limits_of_def is_object_def is_function_def limit_option_def default_xml_limits_def max_safe_integer_def limits_js_def
      native_xml_limits_def)

lemma native_serialized: "\<exists>st. serialize_node (native_xml_limits) [(''xml'', XML_NS)] 1 native_envelope (0, []) = Inr st"
  by (simp add: native_xml_limits_def native_envelope_def new_node_def addressing_headers_def addressing_field_def
      sample_operation_def count_node_def own_bindings_def prefix_for_def bind_prefix_def lookup_prefix_def assign_prefix_def
      prototype_functions_def attribute_text_def xml_escaped_def escape_char_def emit_text_def emit_declaration_def qualified_name_def
      xml_char_def in_ranges_def point_def byte_of_def trailing_bytes.simps)

lemma native_body: "\<exists>b. \<forall>s. request_body (native_executor p) native_call_of None s = (Inr b, s)"
proof -
  obtain st where st: "serialize_node (native_xml_limits) [(''xml'', XML_NS)] 1 native_envelope (0, []) = Inr st"
    using native_serialized by blast
  have u: "run_uuid (native_executor p) w = (''i'', w)" "run_limits (native_executor p) = native_xml_limits" for w
    by (simp_all add: native_executor_def)
  have c: "call_operation native_call_of = sample_operation" "url_href (call_target native_call_of) = ''http://a/''"
    "call_payload native_call_of = new_node ''u'' ''u'' ''Get'' []" "opt_addressing (call_options native_call_of) = None"
    "opt_headers (call_options native_call_of) = []"
    by (simp_all add: native_call_of_def sample_web_def no_options_def)
  show ?thesis
    by (rule exI[of _ "string_bytes (snd st)"])
      (simp add: request_body_def c u exec_bind_def exec_ask_def exec_lift_def native_enveloped serialize_xml_def native_limits native_checked st)
qed

lemma native_challenged: "select_digest_challenge sample_lines (policy_js (run_digest (native_executor p))) = Inr sample_chosen"
  by (simp add: select_digest_challenge_def sample_challenges digest_policy_of_def is_object_def is_function_def option_names_def
      policy_js_def native_executor_def
      named_in_def algorithms_def sample_offers_def consider_offer_def offered_algorithm_def Let_def ascii_lower_def is_upper_char_def
      byte_of_def char_of_eq_iff take_bit_eq_mod offered_qops_def chosen_qop_def boolean_ok_def sample_chosen_def
      trim_def js_space_def trailing_bytes.simps point_def)

lemma native_remaining: "remaining (native_executor p) 1000 s = (Inr 1000, s)"
  by (simp add: remaining_def exec_bind_def exec_ask_def exec_lift_def native_executor_def)

lemma native_first:
  "\<exists>q t. attempt (native_executor p) native_call_of None False native_start = (Inr (Challenged sample_chosen), t)
     \<and> exec_world t = 1 \<and> recent_nonces t = [] \<and> sent_requests t = [(q, Replied (native_reply 0))]"
proof -
  obtain b where b: "\<And>s. request_body (native_executor p) native_call_of None s = (Inr b, s)" using native_body by blast
  have c: "call_token native_call_of = None" "call_deadline native_call_of = 1000" "call_digest native_call_of = Some (''d'', JObj [(''scheme'', JStr ''digest'')])"
    by (simp_all add: native_call_of_def)
  have d: "run_send (native_executor p) q w = (Replied (native_reply w), Suc w)" for q w by (simp add: native_executor_def)
  have j: "judge_response (native_executor p) native_call_of None False (native_reply 0) = Inr (Challenged sample_chosen)"
    by (simp add: c(3) judge_response_def native_reply_def next_challenge_def native_challenged)
  show ?thesis
    by (simp add: attempt_def username_token_for_def authorization_for_def c b d j native_remaining exec_bind_def exec_lift_def
        send_request_def native_start_def split: option.splits)
qed

lemma native_parts:
  "run_provide (native_executor p) = Some p" "run_limits (native_executor p) = native_xml_limits"
  "run_nonce (native_executor p) = (\<lambda>w. (JBytes (replicate 16 (of_nat w)), w))" "run_hash (native_executor p) = sample_hash"
  by (simp_all add: native_executor_def)

definition answering :: "credential_scope \<Rightarrow> nat \<Rightarrow> lookup \<times> nat" where
  "answering q w = (Lookup_Settled (Inr native_credential), w)"

definition aborting :: "credential_scope \<Rightarrow> nat \<Rightarrow> lookup \<times> nat" where
  "aborting q w = (Lookup_Aborted, w)"

lemma native_credential_found:
  "wait_credential (native_executor answering) 1000 native_context (the (sample_web ''http://a/'')) sel (Some ''a'') s
   = (Inr (get native_credential ''material''), s)"
  by (simp add: wait_credential_def native_remaining ask_provider_def native_parts answering_def exec_bind_def exec_ask_def exec_lift_def
      credential_for_def native_credential_def native_context_def sample_web_def material_ok_def is_object_def is_function_def)

lemma native_answer:
  "\<exists>a. create_digest_authorization sample_hash \<lparr>in_challenge = sample_chosen, in_username = ''u'', in_password = ''w'', in_method = ''POST'',
     in_uri = ''/'', in_body = b, in_cnonce = bytes_hex (replicate 16 1), in_count = Whole 1\<rparr> = Inr a"
  by (simp add: create_digest_authorization_def sample_chosen_def count_ok_def user_field_def labelled_def quoted_field_def has_control_char_def
      utf16_units_def trailing_bytes.simps byte_of_def point_def digest_response_def sample_hash_def closing_fields_def
      bytes_hex_def hex_digit_def Let_def)

lemma native_authorization:
  assumes "exec_world s = 1" "recent_nonces s = []"
  shows "\<exists>a t. authorization_for (native_executor answering) native_call_of (Some sample_chosen) b s = (Inr [(''Authorization'', a)], t)
     \<and> exec_world t = 1 \<and> sent_requests t = sent_requests s"
proof -
  obtain a where a: "create_digest_authorization sample_hash \<lparr>in_challenge = sample_chosen, in_username = ''u'', in_password = ''w'',
      in_method = ''POST'', in_uri = ''/'', in_body = b, in_cnonce = bytes_hex (replicate 16 1), in_count = Whole 1\<rparr> = Inr a"
    using native_answer by blast
  have c: "call_digest native_call_of = Some (''d'', JObj [(''scheme'', JStr ''digest'')])" "call_deadline native_call_of = 1000"
    "call_context native_call_of = native_context" "call_target native_call_of = the (sample_web ''http://a/'')"
    "web_pathname (the (sample_web ''http://a/'')) = ''/''" "web_search (the (sample_web ''http://a/'')) = []"
    "chal_realm sample_chosen = ''a''"
    by (simp_all add: native_call_of_def sample_web_def sample_chosen_def)
  have m: "password_material (get native_credential ''material'') = Inr (''u'', ''w'')"
    by (simp add: password_material_def native_credential_def)
  show ?thesis using assms
    by (simp add: authorization_for_def c native_credential_found exec_bind_def exec_lift_def m a fresh_nonce_def exec_ask_def native_parts
        validated_nonce_def remember_nonce_def Let_def)
qed

lemma sample_responds: "response_element sample_operation = Some \<lparr>element_name = qn ''u'' ''Got'', element_type = ()\<rparr>"
  by (simp add: sample_operation_def)

lemma native_second:
  assumes "exec_world s = 1" "recent_nonces s = []"
  shows "\<exists>v q t. attempt (native_executor answering) native_call_of (Some sample_chosen) False s = (Inr (Finished v), t)
     \<and> sent_requests t = sent_requests s @ [(q, Replied (native_reply 1))]"
proof -
  obtain b where b: "\<And>s. request_body (native_executor answering) native_call_of None s = (Inr b, s)" using native_body by blast
  obtain a t where a: "authorization_for (native_executor answering) native_call_of (Some sample_chosen) b s = (Inr [(''Authorization'', a)], t)"
      "exec_world t = 1" "sent_requests t = sent_requests s"
    using native_authorization[OF assms] by blast
  have c: "call_token native_call_of = None" "call_deadline native_call_of = 1000" "call_operation native_call_of = sample_operation"
    "opt_addressing (call_options native_call_of) = None"
    by (simp_all add: native_call_of_def no_options_def)
  have d: "run_send (native_executor answering) q w = (Replied (native_reply w), Suc w)" "run_parse (native_executor answering) l bs = Inr sample_response"
    "run_decode (native_executor answering) e n = Inr ()" "run_elements (native_executor answering) = []" for q w l bs e n
    by (simp_all add: native_executor_def)
  have p: "soap_response (run_decode (native_executor answering)) [] sample_operation 200 WSA_NS sample_response = Inr (Soap_Payload (new_node ''u'' ''u'' ''Got'' []))"
    by (simp add: soap_response_def sample_response_def new_node_def has_qname_def one_child_def required_child_def child_elements_def
        not_understood_def attribute_value_def response_action_ok_def sample_operation_def text_content_def)
  have e: "encoding_qualified (native_reply 1)"
    by (simp add: encoding_qualified_def native_reply_def soap_content_type_def skip_word_def soap_media_type_def folded_point_def
        trailing_bytes.simps byte_of_def point_def ascii_lower_def is_upper_char_def charset_of_def charset_here_def js_space_def)
  have j: "\<exists>v. judge_response (native_executor answering) native_call_of (Some sample_chosen) False (native_reply 1) = Inr (Finished v)"
    using e by (simp add: judge_response_def read_answer_def c d p native_reply_def addressing_field_def after_response_def
        sample_responds)
  then show ?thesis
    using a by (auto simp: attempt_def username_token_for_def c b d native_remaining exec_bind_def exec_lift_def send_request_def)
qed

lemma native_exchange:
  "\<exists>v t q q'. exchange (native_executor answering) native_context None native_form (new_node ''u'' ''u'' ''Get'' []) no_options 1000 native_start = (Inr v, t)
     \<and> sent_requests t = [(q, Replied (native_reply 0)), (q', Replied (native_reply 1))]"
proof -
  obtain q t where f: "attempt (native_executor answering) native_call_of None False native_start = (Inr (Challenged sample_chosen), t)"
      "exec_world t = 1" "recent_nonces t = []" "sent_requests t = [(q, Replied (native_reply 0))]"
    using native_first by blast
  obtain v q' u where g: "attempt (native_executor answering) native_call_of (Some sample_chosen) False t = (Inr (Finished v), u)"
      "sent_requests u = sent_requests t @ [(q', Replied (native_reply 1))]"
    using native_second[OF f(2,3)] by blast
  have a: "attempts (native_executor answering) native_call_of 3 None native_start = (Inr v, u)"
    using f(1) g(1) by (simp add: numeral_3_eq_3 exec_bind_def exec_lift_def)
  have c: "native_call_of\<lparr>call_tls := None\<rparr> = native_call_of" "run_trust (native_executor answering)\<lparr>policy_tls := None\<rparr> = run_trust (native_executor answering)"
    "policy_tls (run_trust (native_executor answering)) = None" "run_decode (native_executor answering) d n = Inr ()" for d n
    by (simp_all add: native_call_of_def native_executor_def)
  have "client_tls (native_executor answering) 1000 native_context tg [(''d'', JObj [(''scheme'', JStr ''digest'')])] native_start = (Inr None, native_start)" for tg
    by (simp add: client_tls_def selected_scheme_def scheme_of_def identity_schemes_def c exec_lift_def)
  then have "exchange (native_executor answering) native_context None native_form (new_node ''u'' ''u'' ''Get'' []) no_options 1000 native_start = (Inr v, u)"
    using a by (simp add: exchange_def exec_bind_def exec_lift_def native_remaining native_call_checked c)
  with f(4) g(2) show ?thesis by auto
qed

lemma native_aborted:
  "\<exists>t q. exchange (native_executor aborting) native_context None native_form (new_node ''u'' ''u'' ''Get'' []) no_options 1000 native_start
     = (Inl (OnvifError TransportError NotSent), t) \<and> sent_requests t = [(q, Replied (native_reply 0))]"
proof -
  obtain q t where f: "attempt (native_executor aborting) native_call_of None False native_start = (Inr (Challenged sample_chosen), t)"
      "sent_requests t = [(q, Replied (native_reply 0))]"
    using native_first by blast
  obtain b where b: "\<And>s. request_body (native_executor aborting) native_call_of None s = (Inr b, s)" using native_body by blast
  have c: "native_call_of\<lparr>call_tls := None\<rparr> = native_call_of" "call_token native_call_of = None" "call_deadline native_call_of = 1000"
    "call_digest native_call_of = Some (''d'', JObj [(''scheme'', JStr ''digest'')])"
    "policy_tls (run_trust (native_executor aborting)) = None" "run_decode (native_executor aborting) d n = Inr ()" for d n
    by (simp_all add: native_call_of_def native_executor_def)
  have w: "wait_credential (native_executor aborting) 1000 cx tg sel rt u = (Inl (OnvifError TransportError NotSent), u)" for cx tg sel rt u
    by (simp add: wait_credential_def native_remaining ask_provider_def native_parts aborting_def exec_bind_def exec_ask_def exec_lift_def)
  have "attempt (native_executor aborting) native_call_of (Some sample_chosen) False t = (Inl (OnvifError TransportError NotSent), t)"
    by (simp add: attempt_def username_token_for_def authorization_for_def c b w exec_bind_def exec_lift_def)
  then have a: "attempts (native_executor aborting) native_call_of 3 None native_start = (Inl (OnvifError TransportError NotSent), t)"
    using f(1) by (simp add: numeral_3_eq_3 exec_bind_def)
  have "client_tls (native_executor aborting) 1000 native_context tg [(''d'', JObj [(''scheme'', JStr ''digest'')])] native_start
      = (Inr None, native_start)" for tg
    by (simp add: client_tls_def selected_scheme_def scheme_of_def identity_schemes_def c exec_lift_def)
  then show ?thesis
    using a f(2) by (simp add: exchange_def exec_bind_def exec_lift_def native_remaining native_call_checked c)
qed


theorem not_sent_is_honest_witness:
  "\<exists>(t :: nat exec_state) q. sent_requests t = [(q, Replied (native_reply 0))] \<and> not_executed (Replied (native_reply 0))"
proof -
  obtain t q where e: "exchange (native_executor aborting) native_context None native_form (new_node ''u'' ''u'' ''Get'' []) no_options 1000
      native_start = (Inl (OnvifError TransportError NotSent), t)" "sent_requests t = [(q, Replied (native_reply 0))]"
    using native_aborted by blast
  from not_sent_is_honest[OF e(1)] e(2) show ?thesis by (auto simp: native_start_def)
qed

theorem result_is_last_answer_witness:
  "\<exists>v limits. allowed_limits (native_executor answering) no_options limits
     \<and> answers_call (native_executor answering) limits sample_operation (Replied (native_reply 1)) v"
proof -
  obtain v t q q' where e: "exchange (native_executor answering) native_context None native_form (new_node ''u'' ''u'' ''Get'' []) no_options 1000
      native_start = (Inr v, t)" "sent_requests t = [(q, Replied (native_reply 0)), (q', Replied (native_reply 1))]"
    using native_exchange by blast
  from result_is_last_answer[OF e(1)] obtain entries operation limits where "sent_requests t = sent_requests native_start @ entries"
      "operation \<in> set (run_operations (native_executor answering))" "allowed_limits (native_executor answering) no_options limits"
      "answers_call (native_executor answering) limits operation (snd (last entries)) v"
    by (elim exE conjE)
  with e(2) show ?thesis by (auto simp: native_start_def native_executor_def)
qed

theorem nonces_fresh_witness:
  "\<exists>t. fresh_nonce (native_executor answering) native_start = (Inr (replicate 16 0), t) \<and> nonces_ok t"
proof -
  have s: "nonces_ok native_start" by (simp add: nonces_ok_def native_start_def)
  have "\<exists>t. fresh_nonce (native_executor answering) native_start = (Inr (replicate 16 0), t)"
    by (simp add: fresh_nonce_def exec_bind_def exec_ask_def exec_lift_def native_parts native_start_def validated_nonce_def remember_nonce_def Let_def)
  with nonces_fresh[OF s, of "native_executor answering" native_context None native_form JNull no_options] show ?thesis by blast
qed

end
