(* ===== verification/Binding_Policy.thy ===== *)
theory Binding_Policy
  imports Binding_Soap
begin

section \<open>The execution policy of operations\<close>

text \<open>
  \<open>binding/operation-policy.ts\<close>: which operations may be taken for reads. Whatever is not listed is not
  safe, and one-way operations never are.
\<close>

definition read_rules :: "(string \<times> string \<times> string list) list" where
  "read_rules =
    [(''http://www.onvif.org/ver10/device/wsdl'', ''Device'',
       [''GetServices'', ''GetServiceCapabilities'', ''GetDeviceInformation'', ''GetScopes'',
        ''GetEndpointReference'', ''GetSystemDateAndTime'', ''GetCapabilities'', ''GetNetworkInterfaces'']),
     (''http://www.onvif.org/ver10/media/wsdl'', ''Media'',
       [''GetServiceCapabilities'', ''GetProfiles'', ''GetVideoSources'', ''GetAudioSources'',
        ''GetVideoSourceConfigurations'', ''GetVideoEncoderConfigurations'', ''GetMetadataConfigurations'',
        ''GetVideoAnalyticsConfigurations'', ''GetStreamUri'']),
     (''http://www.onvif.org/ver20/media/wsdl'', ''Media2'',
       [''GetServiceCapabilities'', ''GetProfiles'', ''GetVideoSourceConfigurations'',
        ''GetVideoEncoderConfigurations'', ''GetMetadataConfigurations'', ''GetAnalyticsConfigurations'',
        ''GetStreamUri'']),
     (''http://www.onvif.org/ver10/events/wsdl'', ''EventPortType'', [''GetServiceCapabilities'', ''GetEventProperties'']),
     (''http://www.onvif.org/ver10/recording/wsdl'', ''RecordingPort'',
       [''GetServiceCapabilities'', ''GetRecordings'', ''GetRecordingConfiguration'', ''GetRecordingJobs'',
        ''GetRecordingJobConfiguration'', ''GetRecordingJobState'']),
     (''http://www.onvif.org/ver20/analytics/wsdl'', ''AnalyticsEnginePort'',
       [''GetServiceCapabilities'', ''GetSupportedAnalyticsModules'', ''GetAnalyticsModules'']),
     (''http://www.onvif.org/ver20/analytics/wsdl'', ''RuleEnginePort'', [''GetSupportedRules'']),
     (''http://www.onvif.org/ver10/accesscontrol/wsdl'', ''PACSPort'',
       [''GetServiceCapabilities'', ''GetAccessPointInfoList'', ''GetAccessPointInfo'', ''GetAccessPointState'']),
     (''http://www.onvif.org/ver10/doorcontrol/wsdl'', ''DoorControlPort'',
       [''GetServiceCapabilities'', ''GetDoorInfoList'', ''GetDoorInfo'', ''GetDoorState'']),
     (''http://www.onvif.org/ver10/accessrules/wsdl'', ''AccessRulesPort'', [''GetServiceCapabilities'', ''GetAccessProfileList'']),
     (''http://www.onvif.org/ver10/schedule/wsdl'', ''SchedulePort'', [''GetServiceCapabilities'', ''GetScheduleList'']),
     (''http://www.onvif.org/ver10/receiver/wsdl'', ''ReceiverPort'', [''GetServiceCapabilities'', ''GetReceivers'']),
     (''http://www.onvif.org/ver10/credential/wsdl'', ''CredentialPort'', [''GetServiceCapabilities'']),
     (''http://www.onvif.org/ver10/deviceIO/wsdl'', ''DeviceIOPort'',
       [''GetServiceCapabilities'', ''GetDigitalInputs'', ''GetSerialPorts'']),
     (''http://www.onvif.org/ver20/imaging/wsdl'', ''ImagingPort'', [''GetServiceCapabilities'']),
     (''http://www.onvif.org/ver20/ptz/wsdl'', ''PTZ'', [''GetServiceCapabilities'']),
     (''http://www.onvif.org/ver10/search/wsdl'', ''SearchPort'', [''GetServiceCapabilities'', ''GetRecordingSummary'']),
     (''http://www.onvif.org/ver10/replay/wsdl'', ''ReplayPort'', [''GetServiceCapabilities'', ''GetReplayUri''])]"

definition events_namespace :: string where
  "events_namespace = ''http://www.onvif.org/ver10/events/wsdl''"

definition search_operations :: "string list" where
  "search_operations = [''FindRecordings'', ''FindEvents'', ''FindPTZPosition'', ''FindMetadata'', ''GetRecordingSearchResults'',
     ''GetEventSearchResults'', ''GetPTZPositionSearchResults'', ''GetMetadataSearchResults'', ''EndSearch'']"

definition listed_read :: "operation_reference \<Rightarrow> bool" where
  "listed_read r = list_ex (\<lambda>(ns, port, names). namespace (port_type_qname r) = ns \<and> local_name (port_type_qname r) = port
     \<and> operation_name r \<in> set names) read_rules"

definition native_operation_policy :: "operation_reference \<Rightarrow> bool \<Rightarrow> operation_access \<times> execution_policy" where
  "native_operation_policy r oneway =
     (let safe = \<not> oneway \<and> listed_read r;
          event_state = namespace (port_type_qname r) \<in> {events_namespace, ''http://docs.oasis-open.org/wsn/bw-2''} \<and> \<not> safe;
          search_state = namespace (port_type_qname r) = ''http://www.onvif.org/ver10/search/wsdl''
            \<and> operation_name r \<in> set search_operations
      in (if safe then Read else if event_state \<or> search_state \<or> oneway then Stateful else Unclassified,
          \<lparr>one_way = oneway, safe_operation = safe, idempotent_operation = safe\<rparr>))"

lemma listed_reads_get: "list_all (\<lambda>(ns, port, names). list_all (\<lambda>n. starts_with ''Get'' n) names) read_rules"
  by (simp add: read_rules_def starts_with_def)

lemma search_not_read: "list_all (\<lambda>(ns, port, names). ns = ''http://www.onvif.org/ver10/search/wsdl'' \<longrightarrow>
    list_all (\<lambda>n. n \<notin> set names) search_operations) read_rules"
  by (simp add: read_rules_def search_operations_def)

text \<open>
  An operation that may be repeated or taken for a read is a request with a response whose name says that it
  gets something, and none that drains or holds the state of a search.
\<close>

lemma safe_operations_read:
  assumes "native_operation_policy r oneway = (access, policy)" "safe_operation policy \<or> idempotent_operation policy \<or> access = Read"
  shows "access = Read \<and> \<not> one_way policy \<and> starts_with ''Get'' (operation_name r)
    \<and> \<not> (namespace (port_type_qname r) = ''http://www.onvif.org/ver10/search/wsdl'' \<and> operation_name r \<in> set search_operations)"
proof -
  from assms have s: "\<not> oneway" "listed_read r" "access = Read" "one_way policy = oneway"
    by (auto simp: native_operation_policy_def Let_def split: if_splits)
  from s(2) obtain ns port names where n: "(ns, port, names) \<in> set read_rules" "namespace (port_type_qname r) = ns"
      "operation_name r \<in> set names"
    by (auto simp: listed_read_def list_ex_iff)
  have "starts_with ''Get'' (operation_name r)" using listed_reads_get n by (fastforce simp: list_all_iff)
  moreover have "ns = ''http://www.onvif.org/ver10/search/wsdl'' \<longrightarrow> operation_name r \<notin> set search_operations"
    using search_not_read n unfolding list_all_iff by fastforce
  ultimately show ?thesis using s n(2) by simp
qed

end
