(* ===== verification/Xml_Simple.thy ===== *)
theory Xml_Simple
  imports Xml_Serializer Discovery_Protocol Security_Digest
begin

section \<open>Simple values of XML Schema\<close>

text \<open>
  \<open>xml/simple-values.ts\<close> and \<open>xml/xsd-patterns.ts\<close>: the lexical forms of the built-in types, lists, unions and
  restrictions with their facets, in both directions. The values are the JavaScript values the interpreter
  hands out; the namespace bindings of the element, which writing a name may extend, are handed on. Values
  given to \<open>equivalent\<close> and \<open>identity_value_key\<close> were read by \<open>decode_simple\<close> at the same type. How a
  floating point text is read (\<open>Number(text)\<close>) is a parameter.
\<close>

subsection \<open>Types\<close>

datatype scalar_name =
    XS_String | XS_Boolean | XS_Int32 | XS_Uint32 | XS_Int64 | XS_Uint64 | XS_Integer | XS_Decimal
  | XS_Hex_Binary | XS_Base64_Binary | XS_Date_Time | XS_QName | XS_Float | XS_Double | XS_Duration | XS_Date
  | XS_Time | XS_Year_Month | XS_Year | XS_Month_Day | XS_Day | XS_Month | XS_Normalized_String | XS_Token
  | XS_Language | XS_Name | XS_NCName | XS_NMToken | XS_ID | XS_Any_Uri

datatype white_space = Preserve | Replace | Collapse

record simple_facets =
  facet_enumeration :: "(string \<times> (string \<times> string) list) list option"
  facet_min_inclusive :: "string option"
  facet_max_inclusive :: "string option"
  facet_min_exclusive :: "string option"
  facet_max_exclusive :: "string option"
  facet_length :: "int option"
  facet_min_length :: "int option"
  facet_max_length :: "int option"
  facet_white_space :: "white_space option"
  facet_patterns :: "string list option"

datatype simple_type =
    Scalar_Type scalar_name
  | List_Type simple_type
  | Union_Type "(string \<times> simple_type) list"
  | Restriction simple_type simple_facets

subsection \<open>Lexical forms\<close>

definition xml_blank :: "char \<Rightarrow> bool" where
  "xml_blank c = (c \<in> {CHR 0x09, CHR 0x0A, CHR 0x0D, CHR 0x20})"

definition replaced :: "string \<Rightarrow> string" where
  "replaced s = map (\<lambda>c. if c \<in> {CHR 0x09, CHR 0x0A, CHR 0x0D} then CHR 0x20 else c) s"

fun squeezed :: "string \<Rightarrow> string" where
  "squeezed (c # d # s) = (if c = CHR 0x20 \<and> d = CHR 0x20 then squeezed (d # s) else c # squeezed (d # s))"
| "squeezed s = s"

definition collapsed :: "string \<Rightarrow> string" where
  "collapsed s = squeezed (trim s)"

definition some_digits :: "string \<Rightarrow> bool" where
  "some_digits s = (s \<noteq> [] \<and> list_all is_digit_char s)"

definition unsigned :: "string \<Rightarrow> string" where
  "unsigned s = (case s of c # t \<Rightarrow> if c = CHR ''+'' \<or> c = CHR ''-'' then t else s | [] \<Rightarrow> [])"

definition integer_lexical :: "string \<Rightarrow> bool" where
  "integer_lexical s = some_digits (unsigned s)"

definition decimal_lexical :: "string \<Rightarrow> bool" where
  "decimal_lexical s =
     (let t = unsigned s; whole = takeWhile is_digit_char t in
      case dropWhile is_digit_char t of
        [] \<Rightarrow> whole \<noteq> []
      | c # fraction \<Rightarrow> c = CHR ''.'' \<and> list_all is_digit_char fraction \<and> (whole \<noteq> [] \<or> fraction \<noteq> []))"

definition float_lexical :: "string \<Rightarrow> bool" where
  "float_lexical s =
     (s \<in> {''INF'', ''-INF'', ''NaN''} \<or>
      decimal_lexical (takeWhile (\<lambda>c. c \<noteq> CHR ''e'' \<and> c \<noteq> CHR ''E'') s)
      \<and> (case dropWhile (\<lambda>c. c \<noteq> CHR ''e'' \<and> c \<noteq> CHR ''E'') s of [] \<Rightarrow> True | _ # t \<Rightarrow> some_digits (unsigned t)))"

definition language_lexical :: "string \<Rightarrow> bool" where
  "language_lexical s =
     (let parts = split_at (CHR ''-'') s; short = (\<lambda>p. 1 \<le> length p \<and> length p \<le> 8) in
      short (hd parts) \<and> list_all is_alpha_char (hd parts)
      \<and> list_all (\<lambda>p. short p \<and> list_all (\<lambda>c. is_alpha_char c \<or> is_digit_char c) p) (tl parts))"

definition xml_name_lexical :: "string \<Rightarrow> bool" where
  "xml_name_lexical s = (case code_points s of
       [] \<Rightarrow> False
     | p # ps \<Rightarrow> in_ranges ((58, 58) # xml_name_start) (point p)
         \<and> list_all (\<lambda>q. in_ranges ((58, 58) # xml_name_char) (point q)) ps)"

definition xml_token_lexical :: "string \<Rightarrow> bool" where
  "xml_token_lexical s = (s \<noteq> [] \<and> list_all (\<lambda>q. in_ranges ((58, 58) # xml_name_char) (point q)) (code_points s))"

text \<open>An optional component of a duration: digits and their designator.\<close>

definition skip_component :: "char \<Rightarrow> string \<Rightarrow> string" where
  "skip_component c s =
     (case dropWhile is_digit_char s of d # r \<Rightarrow> if d = c \<and> takeWhile is_digit_char s \<noteq> [] then r else s | [] \<Rightarrow> s)"

definition skip_seconds :: "string \<Rightarrow> string" where
  "skip_seconds s =
     (case (takeWhile is_digit_char s, dropWhile is_digit_char s) of
        (w # ws, d # r) \<Rightarrow>
          if d = CHR ''S'' then r
          else if d = CHR ''.'' \<and> takeWhile is_digit_char r \<noteq> [] then
            (case dropWhile is_digit_char r of e # t \<Rightarrow> if e = CHR ''S'' then t else s | [] \<Rightarrow> s)
          else s
      | _ \<Rightarrow> s)"

definition digit_ahead :: "string \<Rightarrow> bool" where
  "digit_ahead s = (case s of c # _ \<Rightarrow> is_digit_char c | [] \<Rightarrow> False)"

definition duration_lexical :: "string \<Rightarrow> bool" where
  "duration_lexical s =
     (case (case s of c # t \<Rightarrow> if c = CHR ''-'' then t else s | [] \<Rightarrow> []) of
        [] \<Rightarrow> False
      | p # r \<Rightarrow>
          p = CHR ''P'' \<and> (digit_ahead r \<or> hd r = CHR ''T'' \<and> r \<noteq> [] \<and> digit_ahead (tl r))
          \<and> (case skip_component (CHR ''D'') (skip_component (CHR ''M'') (skip_component (CHR ''Y'') r)) of
               [] \<Rightarrow> True
             | c # t \<Rightarrow> c = CHR ''T'' \<and> digit_ahead t
                 \<and> skip_seconds (skip_component (CHR ''M'') (skip_component (CHR ''H'') t)) = []))"

definition hex_lexical :: "string \<Rightarrow> bool" where
  "hex_lexical s = (even (length s) \<and> list_all is_hex_char s)"

subsection \<open>Dates and times\<close>

text \<open>\<open>(-?[0-9]{4,})-(\d{2})-(\d{2})T(\d{2}):(\d{2}):(\d{2})(\.\d+)?(Z|[+-]\d{2}:\d{2})?\<close>\<close>

record date_parts =
  year_text :: string
  month_text :: string
  day_text :: string
  hour_text :: string
  minute_text :: string
  second_text :: string
  fraction_text :: "string option"
  zone_text :: "string option"

definition two_after :: "char \<Rightarrow> string \<Rightarrow> (string \<times> string) option" where
  "two_after c s = (case s of
       d # x # y # r \<Rightarrow> if d = c \<and> is_digit_char x \<and> is_digit_char y then Some ([x, y], r) else None
     | _ \<Rightarrow> None)"

definition zone_of :: "string \<Rightarrow> string option option" where
  "zone_of s =
     (if s = [] then Some None
      else if s = ''Z'' then Some (Some s)
      else case s of
          c # a # b # d # e # f # r \<Rightarrow>
            if (c = CHR ''+'' \<or> c = CHR ''-'') \<and> list_all is_digit_char [a, b, e, f] \<and> d = CHR '':'' \<and> r = []
            then Some (Some s) else None
        | _ \<Rightarrow> None)"

definition fraction_of :: "string \<Rightarrow> (string option \<times> string) option" where
  "fraction_of s = (case s of
       c # r \<Rightarrow> if c \<noteq> CHR ''.'' then Some (None, s)
         else if takeWhile is_digit_char r = [] then None
         else Some (Some (c # takeWhile is_digit_char r), dropWhile is_digit_char r)
     | [] \<Rightarrow> Some (None, []))"

definition year_of :: "string \<Rightarrow> (string \<times> string) option" where
  "year_of s =
     (let sign = takeWhile (\<lambda>c. c = CHR ''-'') (take 1 s); t = drop (length sign) s; digits = takeWhile is_digit_char t in
      if length digits < 4 then None else Some (sign @ digits, dropWhile is_digit_char t))"

definition date_parts_of :: "string \<Rightarrow> date_parts option" where
  "date_parts_of s =
     Option.bind (year_of s) (\<lambda>(year, s1).
     Option.bind (two_after (CHR ''-'') s1) (\<lambda>(month, s2).
     Option.bind (two_after (CHR ''-'') s2) (\<lambda>(day, s3).
     Option.bind (two_after (CHR ''T'') s3) (\<lambda>(hour, s4).
     Option.bind (two_after (CHR '':'') s4) (\<lambda>(minute, s5).
     Option.bind (two_after (CHR '':'') s5) (\<lambda>(second, s6).
     Option.bind (fraction_of s6) (\<lambda>(fraction, s7).
     Option.bind (zone_of s7) (\<lambda>zone.
       Some \<lparr>year_text = year, month_text = month, day_text = day, hour_text = hour, minute_text = minute,
         second_text = second, fraction_text = fraction, zone_text = zone\<rparr>))))))))"

definition signed_value :: "string \<Rightarrow> int" where
  "signed_value s = (if s \<noteq> [] \<and> hd s = CHR ''-'' then - digits_value (unsigned s) else digits_value (unsigned s))"

definition leap_year :: "int \<Rightarrow> bool" where
  "leap_year y = (y mod 4 = 0 \<and> (y mod 100 \<noteq> 0 \<or> y mod 400 = 0))"

definition month_days :: "int \<Rightarrow> int \<Rightarrow> int" where
  "month_days y m = [31, if leap_year y then 29 else 28, 31, 30, 31, 30, 31, 31, 30, 31, 30, 31] ! nat (m - 1)"

definition time_zone_ok :: "string option \<Rightarrow> bool" where
  "time_zone_ok z = (case z of None \<Rightarrow> True
     | Some t \<Rightarrow> t = ''Z'' \<or>
         (let hours = digits_value (take 2 (drop 1 t)); minutes = digits_value (take 2 (drop 4 t)) in
          hours \<le> 14 \<and> minutes \<le> 59 \<and> (hours = 14 \<longrightarrow> minutes = 0)))"

definition date_parts_ok :: "date_parts \<Rightarrow> bool" where
  "date_parts_ok d =
     (let year = signed_value (year_text d); digits = filter (\<lambda>c. c \<noteq> CHR ''-'') (year_text d);
          month = digits_value (month_text d); day = digits_value (day_text d);
          hour = digits_value (hour_text d); minute = digits_value (minute_text d); second = digits_value (second_text d) in
      length (year_text d) \<le> 4096 \<and> year \<noteq> 0 \<and> \<not> (length digits > 4 \<and> hd digits = CHR ''0'')
      \<and> 1 \<le> month \<and> month \<le> 12 \<and> 1 \<le> day \<and> day \<le> month_days year month
      \<and> hour \<le> 24 \<and> minute \<le> 59 \<and> second \<le> 59
      \<and> (hour = 24 \<longrightarrow> minute = 0 \<and> second = 0
           \<and> (case fraction_text d of None \<Rightarrow> True | Some f \<Rightarrow> list_all (\<lambda>c. c = CHR ''.'' \<or> c = CHR ''0'') f))
      \<and> time_zone_ok (zone_text d))"

definition valid_date_time :: "string \<Rightarrow> bool" where
  "valid_date_time s = (case date_parts_of s of None \<Rightarrow> False | Some d \<Rightarrow> date_parts_ok d)"

text \<open>
  \<open>^(.+?)(Z|[+-]\d{2}:\d{2})?$\<close>: the shortest value before a zone. A value with a line terminator, which
  the pattern excludes, is no date either.
\<close>

definition temporal_parts :: "string \<Rightarrow> string \<times> string" where
  "temporal_parts s =
     (if length s > 6 \<and> s \<noteq> [] \<and> zone_of (drop (length s - 6) s) \<noteq> None then (take (length s - 6) s, drop (length s - 6) s)
      else if length s > 1 \<and> last s = CHR ''Z'' then (butlast s, ''Z'')
      else (s, []))"

definition shaped :: "string \<Rightarrow> string \<Rightarrow> bool" where
  "shaped p s = list_all2 (\<lambda>a c. if a = CHR ''d'' then is_digit_char c else c = a) p s"

definition valid_temporal :: "scalar_name \<Rightarrow> string \<Rightarrow> bool" where
  "valid_temporal t s =
     (let (v, suffix) = temporal_parts s in
      s \<noteq> [] \<and>
      (case t of
         XS_Date \<Rightarrow> valid_date_time (v @ ''T00:00:00'' @ suffix)
       | XS_Time \<Rightarrow> valid_date_time (''2000-01-01T'' @ v @ suffix)
       | XS_Year_Month \<Rightarrow> valid_date_time (v @ ''-01T00:00:00'' @ suffix)
       | XS_Year \<Rightarrow> valid_date_time (v @ ''-01-01T00:00:00'' @ suffix)
       | XS_Month_Day \<Rightarrow> shaped ''--dd-dd'' v \<and> valid_date_time (''2000'' @ drop 1 v @ ''T00:00:00'' @ suffix)
       | XS_Day \<Rightarrow> shaped ''---dd'' v \<and> valid_date_time (''2000-01-'' @ drop 3 v @ ''T00:00:00'' @ suffix)
       | XS_Month \<Rightarrow> (shaped ''--dd'' v \<or> shaped ''--dd--'' v)
           \<and> valid_date_time (''2000-'' @ take 2 (drop 2 v) @ ''-01T00:00:00'' @ suffix)
       | _ \<Rightarrow> False))"

subsection \<open>Octets\<close>

text \<open>
  \<open>Buffer.from(text, "base64")\<close> of a text in the full form: four characters for three octets. Encoding the
  octets again gives the text back exactly when the bits of the last character that belong to no octet are zero.
\<close>

definition base64_digit :: "char \<Rightarrow> nat option" where
  "base64_digit c =
     (if is_upper_char c then Some (byte_of c - 65) else if is_lower_char c then Some (byte_of c - 71)
      else if is_digit_char c then Some (byte_of c + 4)
      else if c = CHR ''+'' then Some 62 else if c = CHR ''/'' then Some 63 else None)"

fun base64_octets :: "string \<Rightarrow> nat list option" where
  "base64_octets [] = Some []"
| "base64_octets [a, b, c, d] =
     (case (base64_digit a, base64_digit b) of
        (Some x, Some y) \<Rightarrow>
          (if c = CHR ''='' \<and> d = CHR ''='' then if y mod 16 = 0 then Some [4 * x + y div 16] else None
           else case base64_digit c of
               None \<Rightarrow> None
             | Some z \<Rightarrow>
                 if d = CHR ''='' then if z mod 4 = 0 then Some [4 * x + y div 16, 16 * (y mod 16) + z div 4] else None
                 else map_option (\<lambda>w. [4 * x + y div 16, 16 * (y mod 16) + z div 4, 64 * (z mod 4) + w]) (base64_digit d))
      | _ \<Rightarrow> None)"
| "base64_octets (a # b # c # d # s) =
     (case (base64_digit a, base64_digit b, base64_digit c, base64_digit d) of
        (Some x, Some y, Some z, Some w) \<Rightarrow>
          map_option (\<lambda>rest. [4 * x + y div 16, 16 * (y mod 16) + z div 4, 64 * (z mod 4) + w] @ rest) (base64_octets s)
      | _ \<Rightarrow> None)"
| "base64_octets _ = None"

subsection \<open>Built-in types\<close>

definition integer_range :: "scalar_name \<Rightarrow> (int \<times> int) option" where
  "integer_range t = (case t of
       XS_Int32 \<Rightarrow> Some (- 2147483648, 2147483647)
     | XS_Uint32 \<Rightarrow> Some (0, 4294967295)
     | XS_Int64 \<Rightarrow> Some (- 9223372036854775808, 9223372036854775807)
     | XS_Uint64 \<Rightarrow> Some (0, 18446744073709551615)
     | _ \<Rightarrow> None)"

definition decode_integer :: "scalar_name \<Rightarrow> string \<Rightarrow> js result" where
  "decode_integer t s =
     (if \<not> integer_lexical s then raise InvalidValue
      else if length s > 4096 then raise XmlLimit
      else case integer_range t of
          None \<Rightarrow> Inr (JStr s)
        | Some (low, high) \<Rightarrow>
            if signed_value s < low \<or> signed_value s > high then raise InvalidValue
            else Inr (if t = XS_Int32 \<or> t = XS_Uint32 then JNum (Whole (signed_value s)) else JStr s))"

definition scalar_text :: "scalar_name \<Rightarrow> string \<Rightarrow> string" where
  "scalar_text t s = (if t = XS_String then s else if t = XS_Normalized_String then replaced s else collapsed (replaced s))"

definition text_if :: "bool \<Rightarrow> string \<Rightarrow> js result" where
  "text_if ok s = (if ok then Inr (JStr s) else raise InvalidValue)"

definition decode_scalar :: "scalar_name \<Rightarrow> string \<Rightarrow> (string \<times> string) list \<Rightarrow> js result" where
  "decode_scalar t input ns =
     (let s = scalar_text t input in
      case t of
        XS_String \<Rightarrow> Inr (JStr s)
      | XS_Normalized_String \<Rightarrow> Inr (JStr s)
      | XS_Token \<Rightarrow> Inr (JStr s)
      | XS_Any_Uri \<Rightarrow> Inr (JStr s)
      | XS_Language \<Rightarrow> text_if (language_lexical s) s
      | XS_NCName \<Rightarrow> text_if (is_ncname s) s
      | XS_ID \<Rightarrow> text_if (is_ncname s) s
      | XS_Name \<Rightarrow> text_if (xml_name_lexical s) s
      | XS_NMToken \<Rightarrow> text_if (xml_token_lexical s) s
      | XS_QName \<Rightarrow> bind_result (resolve_qname s ns) (\<lambda>q. Inr (js_of_qname q))
      | XS_Boolean \<Rightarrow>
          if s = ''true'' \<or> s = ''1'' then Inr (JBool True)
          else if s = ''false'' \<or> s = ''0'' then Inr (JBool False) else raise InvalidValue
      | XS_Int32 \<Rightarrow> decode_integer t s
      | XS_Uint32 \<Rightarrow> decode_integer t s
      | XS_Int64 \<Rightarrow> decode_integer t s
      | XS_Uint64 \<Rightarrow> decode_integer t s
      | XS_Integer \<Rightarrow> decode_integer t s
      | XS_Decimal \<Rightarrow> text_if (decimal_lexical s) s
      | XS_Float \<Rightarrow> text_if (float_lexical s) s
      | XS_Double \<Rightarrow> text_if (float_lexical s) s
      | XS_Date_Time \<Rightarrow> text_if (valid_date_time s) s
      | XS_Duration \<Rightarrow> text_if (duration_lexical s) s
      | XS_Hex_Binary \<Rightarrow> text_if (hex_lexical s) s
      | XS_Base64_Binary \<Rightarrow>
          let c = filter (\<lambda>d. \<not> xml_blank d) s in text_if (base64_octets c \<noteq> None) c
      | _ \<Rightarrow> text_if (valid_temporal t s) s)"

definition signed_decimal :: "int \<Rightarrow> string" where
  "signed_decimal n = (if n < 0 then CHR ''-'' # decimal (nat (- n)) else decimal (nat n))"

text \<open>\<open>qnameText\<close>: the text and the bindings, which the name may need another prefix in.\<close>

definition string_of :: "js \<Rightarrow> string" where
  "string_of v = (case v of JStr s \<Rightarrow> s | _ \<Rightarrow> [])"

definition q_prefix :: "nat \<Rightarrow> string" where
  "q_prefix i = CHR ''q'' # decimal i"

fun free_q :: "nat \<Rightarrow> (string \<times> string) list \<Rightarrow> nat \<Rightarrow> nat" where
  "free_q 0 ns i = i"
| "free_q (Suc fuel) ns i = (if map_of ns (q_prefix i) \<noteq> None then free_q fuel ns (Suc i) else i)"

definition qname_lexical :: "string \<Rightarrow> string \<Rightarrow> (string \<times> string) list \<Rightarrow> string \<times> (string \<times> string) list" where
  "qname_lexical space l ns =
     (if space = [] then (l, AList.update [] [] ns)
      else case find (\<lambda>k. k \<noteq> [] \<and> map_of ns k = Some space) (map fst ns) of
          Some p \<Rightarrow> (p @ '':'' @ l, ns)
        | None \<Rightarrow> let p = q_prefix (free_q (Suc (length ns)) ns 0) in (p @ '':'' @ l, ns @ [(p, space)]))"

definition same_text :: "js \<Rightarrow> js \<Rightarrow> bool" where
  "same_text v w = (case (v, w) of (JStr s, JStr u) \<Rightarrow> s = u | _ \<Rightarrow> True)"

definition encode_scalar :: "scalar_name \<Rightarrow> js \<Rightarrow> (string \<times> string) list \<Rightarrow> (string \<times> (string \<times> string) list) result" where
  "encode_scalar t v ns =
     (case t of
        XS_QName \<Rightarrow>
          if is_qname_js v then Inr (qname_lexical (string_of (get v ''namespace'')) (string_of (get v ''localName'')) ns)
          else raise InvalidValue
      | XS_Boolean \<Rightarrow> (case v of JBool b \<Rightarrow> Inr (if b then ''true'' else ''false'', ns) | _ \<Rightarrow> raise InvalidValue)
      | _ \<Rightarrow>
          bind_result (case v of
              JNum (Whole n) \<Rightarrow>
                if (t = XS_Int32 \<or> t = XS_Uint32) \<and> is_safe_integer (Whole n) then Inr (signed_decimal n) else raise InvalidValue
            | JStr s \<Rightarrow> if t = XS_Int32 \<or> t = XS_Uint32 then raise InvalidValue else Inr s
            | _ \<Rightarrow> raise InvalidValue) (\<lambda>s.
          bind_result (decode_scalar t s ns) (\<lambda>d.
            if t \<noteq> XS_Base64_Binary \<and> \<not> same_text d v then raise InvalidValue else Inr (s, ns))))"

subsection \<open>Patterns\<close>

text \<open>The four patterns the schemas have, named as in the source.\<close>

definition oid_pattern :: string where
  "oid_pattern = ''[0-9]+(.[0-9]+)*''"

definition passphrase_pattern :: string where
  "passphrase_pattern = ''[ -~]{8,63}''"

definition topic_name_pattern :: string where
  "topic_name_pattern = concat [''(['', [CHR 0x5C], ''i-[:]]['', [CHR 0x5C], ''c-[:]]*:)?'']"

definition topic_local_pattern :: string where
  "topic_local_pattern = concat [''['', [CHR 0x5C], ''i-[:]]['', [CHR 0x5C], ''c-[:]]*'']"

definition concrete_topic_pattern :: string where
  "concrete_topic_pattern =
     (let q = topic_name_pattern @ topic_local_pattern in ''('' @ q @ '')(/'' @ q @ '')*'')"

definition full_path_pattern :: string where
  "full_path_pattern =
     (let star = [CHR 0x5C] @ ''*'' in
      topic_name_pattern @ ''(//)?('' @ topic_local_pattern @ ''|'' @ star @ '')((/|//)('' @ topic_name_pattern
        @ topic_local_pattern @ ''|'' @ star @ ''|[.]))*'')"

definition full_topic_pattern :: string where
  "full_topic_pattern = full_path_pattern @ ''('' @ [CHR 0x5C] @ ''|'' @ full_path_pattern @ '')*''"

definition lexical_qname :: "string \<Rightarrow> bool" where
  "lexical_qname s = (let parts = split_at (CHR '':'') s in length parts \<le> 2 \<and> list_all is_ncname parts)"

text \<open>The rest of a text after a name, and after a name with a colon.\<close>

definition after_name :: "string list \<Rightarrow> string list option" where
  "after_name ps = (case ps of
       p # r \<Rightarrow> if in_ranges xml_name_start (point p) then Some (dropWhile (\<lambda>q. in_ranges xml_name_char (point q)) r) else None
     | [] \<Rightarrow> None)"

definition after_prefix :: "string list \<Rightarrow> string list" where
  "after_prefix ps = (case after_name ps of Some (c # r) \<Rightarrow> if c = '':'' then r else ps | _ \<Rightarrow> ps)"

lemma after_name_shorter: "after_name ps = Some r \<Longrightarrow> length r < length ps"
  by (auto simp: after_name_def length_dropWhile_le less_Suc_eq_le split: list.splits if_splits)

lemma after_prefix_le: "length (after_prefix ps) \<le> length ps"
  by (auto simp: after_prefix_def dest: after_name_shorter split: option.split list.split)

definition after_step :: "string list \<Rightarrow> string list option" where
  "after_step ps = (case ps of
       c # r \<Rightarrow> if c = ''*'' \<or> c = ''.'' then Some r else after_name (after_prefix ps)
     | [] \<Rightarrow> None)"

function topic_steps :: "string list \<Rightarrow> bool" where
  "topic_steps [] = True"
| "topic_steps (c # r) =
     (if c \<noteq> ''/'' then False
      else case after_step (case r of d # t \<Rightarrow> if d = ''/'' then t else r | [] \<Rightarrow> []) of
          None \<Rightarrow> False
        | Some t \<Rightarrow> topic_steps t)"
  by pat_completeness auto
termination
proof (relation "measure length", rule wf_measure)
  fix c r t
  assume "after_step (case r of [] \<Rightarrow> [] | d # t \<Rightarrow> if d = ''/'' then t else r) = Some t"
  moreover have "length (case r of [] \<Rightarrow> [] | d # t \<Rightarrow> if d = ''/'' then t else r) \<le> length r" by (cases r) auto
  moreover have "after_step ps = Some t \<Longrightarrow> length t \<le> length ps" for ps
    using after_prefix_le[of ps] by (auto simp: after_step_def split: list.splits if_splits dest!: after_name_shorter)
  ultimately have "length t \<le> length r" by (meson le_trans)
  then show "(t, c # r) \<in> measure length" by simp
qed

declare topic_steps.simps [simp del]

definition full_topic_path :: "string \<Rightarrow> bool" where
  "full_topic_path s =
     (let ps = after_prefix (code_points s);
          qs = (case ps of c # d # r \<Rightarrow> if c = ''/'' \<and> d = ''/'' then r else ps | _ \<Rightarrow> ps)
      in case (case qs of c # r \<Rightarrow> if c = ''*'' then Some r else after_name qs | [] \<Rightarrow> None) of
          None \<Rightarrow> False
        | Some r \<Rightarrow> topic_steps r)"

fun oid_scan :: "bool \<Rightarrow> bool \<Rightarrow> string list \<Rightarrow> bool" where
  "oid_scan digit separator [] = digit"
| "oid_scan digit separator (p # ps) =
     (let numeric = (point p \<ge> 48 \<and> point p \<le> 57) in
      if point p = 13 \<or> point p = 10 then False
      else if \<not> digit \<and> \<not> separator \<and> \<not> numeric then False
      else if separator \<and> \<not> numeric then False
      else oid_scan numeric (\<not> numeric) ps)"

definition matches_xsd_pattern :: "string \<Rightarrow> string \<Rightarrow> bool result" where
  "matches_xsd_pattern p s =
     (if p \<notin> {oid_pattern, passphrase_pattern, concrete_topic_pattern, full_topic_pattern} then raise UnsupportedCapability
      else if utf16_length s > 65536 then raise XmlLimit
      else if p = passphrase_pattern then
        Inr (8 \<le> length s \<and> length s \<le> 63 \<and> list_all (\<lambda>c. 32 \<le> byte_of c \<and> byte_of c \<le> 126) s)
      else if p = concrete_topic_pattern then Inr (list_all lexical_qname (split_at (CHR ''/'') s))
      else if p = full_topic_pattern then Inr (list_all full_topic_path (split_at (CHR ''|'') s))
      else Inr (oid_scan False False (code_points s)))"

subsection \<open>Comparison of values\<close>

text \<open>\<open>String(value)\<close> of a value that was read, in which a number is whole.\<close>

fun js_text :: "js \<Rightarrow> string" where
  "js_text (JStr s) = s"
| "js_text (JNum n) = (case n of Whole i \<Rightarrow> signed_decimal i | _ \<Rightarrow> ''NaN'')"
| "js_text (JBool b) = (if b then ''true'' else ''false'')"
| "js_text (JArr vs) = joined '','' (map js_text vs)"
| "js_text _ = ''[object Object]''"

text \<open>The digits of a decimal without its point, and the number of them behind it.\<close>

definition decimal_parts :: "string \<Rightarrow> (int \<times> nat) result" where
  "decimal_parts s =
     (if length s > 4096 \<or> \<not> decimal_lexical s then raise InvalidValue
      else
        let whole = takeWhile (\<lambda>c. c \<noteq> CHR ''.'') s; fraction = drop 1 (dropWhile (\<lambda>c. c \<noteq> CHR ''.'') s)
        in Inr (signed_value ((if whole = [] then ''0'' else whole) @ fraction), length fraction))"

definition compare_decimal :: "string \<Rightarrow> string \<Rightarrow> int result" where
  "compare_decimal a b =
     bind_result (decimal_parts a) (\<lambda>(m, j). bind_result (decimal_parts b) (\<lambda>(n, k).
       Inr (sgn (m * 10 ^ (max j k - j) - n * 10 ^ (max j k - k)))))"

definition numeric_types :: "scalar_name set" where
  "numeric_types = {XS_Int32, XS_Uint32, XS_Int64, XS_Uint64, XS_Integer, XS_Decimal}"

definition equivalent_scalar :: "(string \<Rightarrow> jsnum) \<Rightarrow> scalar_name \<Rightarrow> js \<Rightarrow> js \<Rightarrow> bool result" where
  "equivalent_scalar number t v w =
     (if t \<in> numeric_types then bind_result (compare_decimal (js_text v) (js_text w)) (\<lambda>c. Inr (c = 0))
      else if t = XS_Float \<or> t = XS_Double then
        Inr (v = w \<or> number (js_text v) = number (js_text w) \<and> number (js_text v) \<noteq> NaN)
      else if t = XS_Hex_Binary then Inr (ascii_lower (js_text v) = ascii_lower (js_text w))
      else if t = XS_QName then
        Inr (is_qname_js v \<and> is_qname_js w \<and> get v ''namespace'' = get w ''namespace'' \<and> get v ''localName'' = get w ''localName'')
      else Inr (v = w))"

fun every_pair :: "('a \<Rightarrow> 'b \<Rightarrow> bool result) \<Rightarrow> 'a list \<Rightarrow> 'b list \<Rightarrow> bool result" where
  "every_pair f (x # xs) (y # ys) = bind_result (f x y) (\<lambda>b. if b then every_pair f xs ys else Inr False)"
| "every_pair f _ _ = Inr True"

definition selected_member :: "js \<Rightarrow> (string \<times> 'a) list \<Rightarrow> (string \<times> 'a) option" where
  "selected_member v members = find (\<lambda>m. get v ''$member'' = JStr (fst m)) members"

lemma member_of_size: "selected_member v ms = Some m \<Longrightarrow> m \<in> set ms"
  by (auto simp: selected_member_def find_Some_iff)

lemma member_size: "m \<in> set ms \<Longrightarrow> size (snd m) < Suc (size_list (size_prod (\<lambda>_. 0) size) ms)"
  by (induction ms) (auto simp: prod.size_gen)

function equivalent :: "(string \<Rightarrow> jsnum) \<Rightarrow> simple_type \<Rightarrow> js \<Rightarrow> js \<Rightarrow> bool result" where
  "equivalent number (Restriction b f) v w = equivalent number b v w"
| "equivalent number (List_Type i) v w =
     (case (v, w) of
        (JArr vs, JArr ws) \<Rightarrow> if length vs = length ws then every_pair (equivalent number i) vs ws else Inr False
      | _ \<Rightarrow> Inr False)"
| "equivalent number (Union_Type ms) v w =
     (if \<not> is_record v \<or> \<not> is_record w \<or> get v ''$member'' \<noteq> get w ''$member'' then Inr False
      else case selected_member v ms of
          None \<Rightarrow> Inr False
        | Some m \<Rightarrow> equivalent number (snd m) (get v ''$value'') (get w ''$value''))"
| "equivalent number (Scalar_Type t) v w = equivalent_scalar number t v w"
  by pat_completeness auto
termination
  by (relation "measure (\<lambda>(_, t, _, _). size t)") (auto dest!: member_of_size member_size)

declare equivalent.simps [simp del]

text \<open>The key of a value for an identity constraint.\<close>

function stripped_decimal :: "int \<Rightarrow> nat \<Rightarrow> int \<times> nat" where
  "stripped_decimal n 0 = (n, 0)"
| "stripped_decimal n (Suc k) = (if n mod 10 = 0 then stripped_decimal (n div 10) k else (n, Suc k))"
  by pat_completeness auto
termination by (relation "measure snd") auto

definition scalar_key :: "scalar_name \<Rightarrow> js \<Rightarrow> string result" where
  "scalar_key t v =
     (if t \<in> numeric_types then
        bind_result (decimal_parts (js_text v)) (\<lambda>(m, j).
          let (n, k) = stripped_decimal m j in
          Inr (''decimal:'' @ signed_decimal n @ '':'' @ decimal (if n = 0 then 0 else k)))
      else if t = XS_QName then
        (if is_qname_js v then
           Inr (''QName:['' @ quoted (string_of (get v ''namespace'')) @ '','' @ quoted (string_of (get v ''localName'')) @ '']'')
         else raise InvalidValue)
      else if t = XS_Hex_Binary then Inr (''binary:'' @ ascii_lower (js_text v))
      else if t = XS_Base64_Binary then
        Inr (''binary:'' @ concat (map (\<lambda>n. [hex_digit (n div 16), hex_digit (n mod 16)])
          (case base64_octets (js_text v) of None \<Rightarrow> [] | Some ns \<Rightarrow> ns)))
      else if t \<in> {XS_Float, XS_Double, XS_Date_Time, XS_Date, XS_Time, XS_Duration, XS_Year_Month, XS_Year, XS_Month_Day,
          XS_Day, XS_Month} then raise UnsupportedCapability
      else Inr (if t = XS_Boolean then ''boolean:'' @ js_text v else ''string:'' @ quoted (js_text v)))"

function identity_value_key :: "simple_type \<Rightarrow> js \<Rightarrow> string result" where
  "identity_value_key (Restriction b f) v = identity_value_key b v"
| "identity_value_key (Union_Type ms) v =
     (if \<not> is_record v then raise InvalidValue
      else case selected_member v ms of None \<Rightarrow> raise InvalidValue | Some m \<Rightarrow> identity_value_key (snd m) (get v ''$value''))"
| "identity_value_key (List_Type i) v =
     (case v of
        JArr vs \<Rightarrow> bind_result (map_result (identity_value_key i) vs) (\<lambda>ks. Inr (''list:['' @ joined '','' (map quoted ks) @ '']''))
      | _ \<Rightarrow> raise InvalidValue)"
| "identity_value_key (Scalar_Type t) v = scalar_key t v"
  by pat_completeness auto
termination
  by (relation "measure (\<lambda>(t, _). size t)") (auto dest!: member_of_size member_size)

declare identity_value_key.simps [simp del]

subsection \<open>Facets\<close>

fun white_space_of :: "simple_type \<Rightarrow> white_space" where
  "white_space_of (Restriction b f) = (case facet_white_space f of Some w \<Rightarrow> w | None \<Rightarrow> white_space_of b)"
| "white_space_of (Scalar_Type t) = (if t = XS_String then Preserve else if t = XS_Normalized_String then Replace else Collapse)"
| "white_space_of _ = Collapse"

fun scalar_base :: "simple_type \<Rightarrow> scalar_name option" where
  "scalar_base (Restriction b f) = scalar_base b"
| "scalar_base (Scalar_Type t) = Some t"
| "scalar_base _ = None"

definition spaced :: "white_space \<Rightarrow> string \<Rightarrow> string" where
  "spaced w s = (case w of Preserve \<Rightarrow> s | Replace \<Rightarrow> replaced s | Collapse \<Rightarrow> collapsed (replaced s))"

definition patterns_ok :: "simple_facets \<Rightarrow> string \<Rightarrow> unit result" where
  "patterns_ok f s =
     (case facet_patterns f of
        None \<Rightarrow> Inr ()
      | Some ps \<Rightarrow> bind_result (some_result (\<lambda>p. matches_xsd_pattern p s) ps) (\<lambda>b. if b then Inr () else raise InvalidValue))"

definition value_length :: "simple_type \<Rightarrow> js \<Rightarrow> int option" where
  "value_length b v =
     (case v of
        JArr vs \<Rightarrow> Some (int (length vs))
      | JStr s \<Rightarrow> Some (int (
          if scalar_base b = Some XS_Hex_Binary then length s div 2
          else if scalar_base b = Some XS_Base64_Binary then length (case base64_octets s of None \<Rightarrow> [] | Some ns \<Rightarrow> ns)
          else length (code_points s)))
      | _ \<Rightarrow> None)"

definition length_ok :: "simple_facets \<Rightarrow> int option \<Rightarrow> bool" where
  "length_ok f n =
     ((facet_length f \<noteq> None \<longrightarrow> n = facet_length f)
      \<and> (case facet_min_length f of None \<Rightarrow> True | Some m \<Rightarrow> (case n of None \<Rightarrow> False | Some k \<Rightarrow> k \<ge> m))
      \<and> (case facet_max_length f of None \<Rightarrow> True | Some m \<Rightarrow> (case n of None \<Rightarrow> False | Some k \<Rightarrow> k \<le> m)))"

definition bound_ok :: "string \<Rightarrow> (int \<Rightarrow> bool) \<Rightarrow> string option \<Rightarrow> unit result" where
  "bound_ok s test limit =
     (case limit of
        None \<Rightarrow> Inr ()
      | Some l \<Rightarrow> bind_result (compare_decimal s l) (\<lambda>c. if test c then Inr () else raise InvalidValue))"

definition bounds_ok :: "simple_facets \<Rightarrow> js \<Rightarrow> unit result" where
  "bounds_ok f v =
     bind_result (bound_ok (js_text v) (\<lambda>c. c \<ge> 0) (facet_min_inclusive f)) (\<lambda>_.
     bind_result (bound_ok (js_text v) (\<lambda>c. c \<le> 0) (facet_max_inclusive f)) (\<lambda>_.
     bind_result (bound_ok (js_text v) (\<lambda>c. c \<ge> 1) (facet_min_exclusive f)) (\<lambda>_.
       bound_ok (js_text v) (\<lambda>c. c \<le> - 1) (facet_max_exclusive f))))"

definition value_ok :: "simple_type \<Rightarrow> simple_facets \<Rightarrow> js \<Rightarrow> unit result" where
  "value_ok b f v = (if length_ok f (value_length b v) then bounds_ok f v else raise InvalidValue)"

subsection \<open>Reading and writing\<close>

type_synonym prefix_bindings = "(string \<times> string) list"

definition merged_bindings :: "prefix_bindings \<Rightarrow> prefix_bindings \<Rightarrow> prefix_bindings" where
  "merged_bindings ns more_ns = fold (\<lambda>(k, v). AList.update k v) more_ns ns"

fun split_blanks :: "string \<Rightarrow> string list" where
  "split_blanks [] = [[]]"
| "split_blanks (c # s) =
     (if xml_blank c then [] # split_blanks s else case split_blanks s of [] \<Rightarrow> [[c]] | w # ws \<Rightarrow> (c # w) # ws)"

text \<open>The parts of a trimmed text between runs of blanks.\<close>

definition list_words :: "string \<Rightarrow> string list" where
  "list_words s = filter (\<lambda>w. w \<noteq> []) (split_blanks (trim s))"

definition union_value :: "string \<Rightarrow> js \<Rightarrow> js" where
  "union_value name v = JObj [(''$member'', JStr name), (''$value'', v)]"

fun first_member :: "('a \<Rightarrow> js result) \<Rightarrow> (string \<times> 'a) list \<Rightarrow> js result" where
  "first_member f [] = raise InvalidValue"
| "first_member f (m # ms) =
     (case f (snd m) of
        Inr v \<Rightarrow> Inr (union_value (fst m) v)
      | Inl e \<Rightarrow> (case e of OnvifError c _ \<Rightarrow> if c = InvalidValue then first_member f ms else Inl e | HostError \<Rightarrow> Inl e))"

lemma first_member_cong [fundef_cong]:
  "ms = ms' \<Longrightarrow> (\<And>m. m \<in> set ms' \<Longrightarrow> f (snd m) = g (snd m)) \<Longrightarrow> first_member f ms = first_member g ms'"
proof -
  have "(\<And>m. m \<in> set ms' \<Longrightarrow> f (snd m) = g (snd m)) \<Longrightarrow> first_member f ms' = first_member g ms'"
    by (induction ms') (auto split: sum.split onvif_error.split)
  then show "ms = ms' \<Longrightarrow> (\<And>m. m \<in> set ms' \<Longrightarrow> f (snd m) = g (snd m)) \<Longrightarrow> first_member f ms = first_member g ms'"
    by blast
qed

function decode_simple :: "(string \<Rightarrow> jsnum) \<Rightarrow> simple_type \<Rightarrow> string \<Rightarrow> prefix_bindings \<Rightarrow> js result" where
  "decode_simple number (Scalar_Type t) input ns = decode_scalar t input ns"
| "decode_simple number (List_Type i) input ns =
     bind_result (map_result (\<lambda>w. decode_simple number i w ns) (list_words input)) (\<lambda>vs. Inr (JArr vs))"
| "decode_simple number (Restriction b f) input ns =
     (let s = spaced (white_space_of (Restriction b f)) input in
      bind_result (patterns_ok f s) (\<lambda>_.
      bind_result (decode_simple number b s ns) (\<lambda>v.
      bind_result (case facet_enumeration f of
          None \<Rightarrow> Inr True
        | Some items \<Rightarrow> some_result (\<lambda>item. bind_result (decode_simple number b (fst item) (merged_bindings ns (snd item)))
            (equivalent number b v)) items) (\<lambda>listed.
        if \<not> listed then raise InvalidValue else bind_result (value_ok b f v) (\<lambda>_. Inr v)))))"
| "decode_simple number (Union_Type ms) input ns = first_member (\<lambda>t. decode_simple number t input ns) ms"
  by pat_completeness auto
termination
  by (relation "measure (\<lambda>(_, t, _, _). size t)") (auto dest!: member_size)

declare decode_simple.simps [simp del]

fun encode_items :: "(js \<Rightarrow> prefix_bindings \<Rightarrow> (string \<times> prefix_bindings) result) \<Rightarrow> js list \<Rightarrow> prefix_bindings
    \<Rightarrow> (string list \<times> prefix_bindings) result" where
  "encode_items f [] ns = Inr ([], ns)"
| "encode_items f (v # vs) ns =
     bind_result (f v ns) (\<lambda>(s, ns1).
       if s = [] \<or> list_ex xml_blank s then raise InvalidValue
       else bind_result (encode_items f vs ns1) (\<lambda>(ss, ns2). Inr (s # ss, ns2)))"

function encode_simple :: "(string \<Rightarrow> jsnum) \<Rightarrow> simple_type \<Rightarrow> js \<Rightarrow> prefix_bindings \<Rightarrow> (string \<times> prefix_bindings) result" where
  "encode_simple number (Scalar_Type t) v ns = encode_scalar t v ns"
| "encode_simple number (Restriction b f) v ns =
     bind_result (encode_simple number b v ns) (\<lambda>(s, ns1).
       bind_result (decode_simple number (Restriction b f) s ns1) (\<lambda>_. Inr (s, ns1)))"
| "encode_simple number (List_Type i) v ns =
     (case v of
        JArr vs \<Rightarrow> bind_result (encode_items (encode_simple number i) vs ns) (\<lambda>(ss, ns1). Inr (joined '' '' ss, ns1))
      | _ \<Rightarrow> raise InvalidValue)"
| "encode_simple number (Union_Type ms) v ns =
     (if \<not> is_record v \<or> \<not> set (own_keys v) \<subseteq> {''$member'', ''$value''} then raise InvalidValue
      else case selected_member v ms of
          None \<Rightarrow> raise InvalidValue
        | Some m \<Rightarrow>
            bind_result (encode_simple number (snd m) (get v ''$value'') ns) (\<lambda>(s, ns1).
            bind_result (decode_simple number (Union_Type ms) s ns1) (\<lambda>d.
              if is_record d \<and> get d ''$member'' = JStr (fst m) then Inr (s, ns1) else raise InvalidValue)))"
  by pat_completeness auto
termination
  by (relation "measure (\<lambda>(_, t, _, _). size t)") (auto dest!: member_of_size member_size)

declare encode_simple.simps [simp del]

end
