(* ===== verification/Events_Time.thy ===== *)
theory Events_Time
  imports Xml_Simple
begin

section \<open>Durations and instants of events\<close>

text \<open>
  \<open>events/time.ts\<close> without the clock of the host itself. The days of a date are those of ECMAScript's
  \<open>MakeDay\<close>; the floating point arithmetic on the four captured numbers of a duration is a parameter.
\<close>

type_synonym duration_host = "string \<Rightarrow> string \<Rightarrow> string \<Rightarrow> string \<Rightarrow> jsnum"

definition max_delay :: int where
  "max_delay = 2147483647"

definition optional_component :: "char \<Rightarrow> string \<Rightarrow> string option \<times> string" where
  "optional_component c s =
     (if skip_component c s = s then (None, s) else (Some (takeWhile is_digit_char s), skip_component c s))"

definition optional_seconds :: "string \<Rightarrow> string option \<times> string" where
  "optional_seconds s = (if skip_seconds s = s then (None, s) else (Some (takeWhile (\<lambda>c. c \<noteq> CHR ''S'') s), skip_seconds s))"

text \<open>\<open>^P(?:(\d+)D)?(?:T(?=\d)(?:(\d+)H)?(?:(\d+)M)?(?:(\d+(?:\.\d+)?)S)?)?$\<close>: the four groups.\<close>

definition duration_groups :: "string \<Rightarrow> string option list option" where
  "duration_groups s =
     (case s of
        [] \<Rightarrow> None
      | p # r \<Rightarrow>
          if p \<noteq> CHR ''P'' then None
          else
            let (days, after) = optional_component (CHR ''D'') r in
            (case after of
               [] \<Rightarrow> Some [days, None, None, None]
             | c # t \<Rightarrow>
                 if c \<noteq> CHR ''T'' \<or> \<not> digit_ahead t then None
                 else
                   let (hours, after_hours) = optional_component (CHR ''H'') t;
                       (minutes, after_minutes) = optional_component (CHR ''M'') after_hours;
                       (seconds, rest) = optional_seconds after_minutes
                   in if rest = [] then Some [days, hours, minutes, seconds] else None))"

definition group_text :: "string option \<Rightarrow> string" where
  "group_text g = (case g of None \<Rightarrow> ''0'' | Some s \<Rightarrow> s)"

definition finite_value :: "jsnum \<Rightarrow> rat option" where
  "finite_value n = (case n of Whole i \<Rightarrow> Some (of_int i) | Fraction q \<Rightarrow> Some q | _ \<Rightarrow> None)"

definition fixed_duration :: "duration_host \<Rightarrow> string \<Rightarrow> rat result" where
  "fixed_duration h s =
     (case duration_groups s of
        Some [days, hours, minutes, seconds] \<Rightarrow>
          if list_all (\<lambda>g. g = None) [days, hours, minutes, seconds] then raise InvalidValue
          else case finite_value (h (group_text days) (group_text hours) (group_text minutes) (group_text seconds)) of
              None \<Rightarrow> raise XmlLimit
            | Some ms \<Rightarrow> if ms > of_int max_delay then raise XmlLimit else Inr ms
      | _ \<Rightarrow> raise InvalidValue)"

text \<open>\<open>`PT${milliseconds / 1000}S`\<close>: whole seconds, and thousandths without their trailing zeros.\<close>

definition thousandths :: "nat \<Rightarrow> string" where
  "thousandths n =
     (if n = 0 then []
      else CHR ''.'' # rev (dropWhile (\<lambda>c. c = CHR ''0'')
        (rev (map (\<lambda>d. char_of (48 + d)) [n div 100, n div 10 mod 10, n mod 10]))))"

definition duration_text :: "int \<Rightarrow> string" where
  "duration_text ms = ''PT'' @ decimal (nat ms div 1000) @ thousandths (nat ms mod 1000) @ ''S''"

definition duration :: "int \<Rightarrow> string result" where
  "duration ms = (if \<not> is_safe_integer (Whole ms) \<or> ms < 0 \<or> ms > max_delay then raise InvalidValue else Inr (duration_text ms))"

definition day_from_year :: "int \<Rightarrow> int" where
  "day_from_year y = 365 * (y - 1970) + (y - 1969) div 4 - (y - 1901) div 100 + (y - 1601) div 400"

definition make_day :: "int \<Rightarrow> int \<Rightarrow> int \<Rightarrow> int" where
  "make_day y m d = day_from_year y + (\<Sum>k\<leftarrow>[1..m - 1]. month_days y k) + d - 1"

definition time_clip :: "int \<Rightarrow> int option" where
  "time_clip t = (if \<bar>t\<bar> > 8640000000000000 then None else Some t)"

definition milliseconds_of :: "string option \<Rightarrow> int" where
  "milliseconds_of f =
     digits_value (take 3 ((case f of None \<Rightarrow> [] | Some s \<Rightarrow> drop 1 s) @ ''000''))"

definition zone_offset :: "string \<Rightarrow> int" where
  "zone_offset z =
     (if z = ''Z'' then 0
      else (digits_value (take 2 (drop 1 z)) * 60 + digits_value (take 2 (drop 4 z))) * 60000
        * (if hd z = CHR ''-'' then - 1 else 1))"

definition date_instant :: "date_parts \<Rightarrow> int option" where
  "date_instant d =
     (let day = make_day (signed_value (year_text d)) (digits_value (month_text d)) (digits_value (day_text d)) in
      Option.bind (time_clip (day * 86400000)) (\<lambda>t.
        time_clip (t + digits_value (hour_text d) * 3600000 + digits_value (minute_text d) * 60000
          + digits_value (second_text d) * 1000 + milliseconds_of (fraction_text d))))"

definition instant :: "string \<Rightarrow> int result" where
  "instant s =
     bind_result (decode_scalar XS_Date_Time s []) (\<lambda>_.
       case date_parts_of s of
         None \<Rightarrow> raise UnsupportedCapability
       | Some d \<Rightarrow>
           (case zone_text d of
              None \<Rightarrow> raise UnsupportedCapability
            | Some z \<Rightarrow> (case date_instant d of None \<Rightarrow> raise XmlLimit | Some t \<Rightarrow> Inr (t - zone_offset z))))"

end
