(* ===== verification/Events_Contracts.thy ===== *)
theory Events_Contracts
  imports Events_Time Binding_Executor
begin

section \<open>The contracts of a subscription\<close>

text \<open>
  \<open>events/contracts.ts\<close>: the operations a subscription is made of, resolved in the registry, and the filter
  of topics as the element the schema declares. The interpreter of schema descriptors is a parameter.
\<close>

abbreviation EVENT_NS :: string where "EVENT_NS \<equiv> ''http://www.onvif.org/ver10/events/wsdl''"
abbreviation WSN_NS :: string where "WSN_NS \<equiv> ''http://docs.oasis-open.org/wsn/b-2''"
abbreviation WSN_WSDL_NS :: string where "WSN_WSDL_NS \<equiv> ''http://docs.oasis-open.org/wsn/bw-2''"
abbreviation CONCRETE_SET :: string where "CONCRETE_SET \<equiv> ''http://www.onvif.org/ver10/tev/topicExpression/ConcreteSet''"
abbreviation CONCRETE_TOPIC :: string where "CONCRETE_TOPIC \<equiv> ''http://docs.oasis-open.org/wsn/t-1/TopicExpression/Concrete''"
abbreviation FULL_TOPIC :: string where "FULL_TOPIC \<equiv> ''http://docs.oasis-open.org/wsn/t-1/TopicExpression/Full''"

definition event_reference :: "string \<Rightarrow> string \<Rightarrow> string \<Rightarrow> string \<Rightarrow> operation_reference" where
  "event_reference binding port operation ns =
     \<lparr>binding_qname = qn EVENT_NS binding, port_type_qname = qn ns port, operation_name = operation\<rparr>"

definition create_reference :: operation_reference where
  "create_reference = event_reference ''EventBinding'' ''EventPortType'' ''CreatePullPointSubscription'' EVENT_NS"

definition pull_reference :: operation_reference where
  "pull_reference = event_reference ''PullPointSubscriptionBinding'' ''PullPointSubscription'' ''PullMessages'' EVENT_NS"

definition unsubscribe_references :: "operation_reference list" where
  "unsubscribe_references =
     [event_reference ''PullPointSubscriptionBinding'' ''PullPointSubscription'' ''Unsubscribe'' EVENT_NS,
      event_reference ''SubscriptionManagerBinding'' ''SubscriptionManager'' ''Unsubscribe'' WSN_WSDL_NS]"

definition renew_reference :: operation_reference where
  "renew_reference = event_reference ''SubscriptionManagerBinding'' ''SubscriptionManager'' ''Renew'' WSN_WSDL_NS"

definition synchronize_reference :: operation_reference where
  "synchronize_reference = event_reference ''PullPointSubscriptionBinding'' ''PullPointSubscription'' ''SetSynchronizationPoint'' EVENT_NS"

record 't resolved_subscription =
  sub_create :: "'t operation_descriptor"
  sub_pull :: "'t operation_descriptor"
  sub_unsubscribe :: "'t operation_descriptor"
  sub_renew :: "'t operation_descriptor option"
  sub_synchronize :: "'t operation_descriptor option"
  sub_default_input :: js
  sub_notification :: "'t element_descriptor"

definition resolve_expected :: "('t, 'v, 'w) executor \<Rightarrow> operation_reference list \<Rightarrow> js \<Rightarrow> 't operation_descriptor result" where
  "resolve_expected x wanted v =
     bind_result (read_operation v) (\<lambda>r.
     if r \<notin> set wanted then raise InvalidRegistry
     else
       bind_result (resolve_operation (run_operations x) r) (\<lambda>operation.
       if response_element operation = None then raise InvalidRegistry
       else bind_result (check_implemented (run_implemented x) operation) (\<lambda>_. Inr operation)))"

definition resolve_optional :: "('t, 'v, 'w) executor \<Rightarrow> operation_reference \<Rightarrow> js \<Rightarrow> 't operation_descriptor option result" where
  "resolve_optional x r v =
     (if v = JUndefined then Inr None else bind_result (resolve_expected x [r] v) (\<lambda>operation. Inr (Some operation)))"

definition resolve_subscription :: "('t, 'v, 'w) executor \<Rightarrow> js \<Rightarrow> 't resolved_subscription result" where
  "resolve_subscription x v =
     (if \<not> is_object v \<or> get v ''mode'' \<noteq> JStr ''pullpoint''
        \<or> \<not> set (own_keys v) \<subseteq> {''mode'', ''create'', ''pull'', ''unsubscribe'', ''renew'', ''synchronize'', ''defaultInput''}
        \<or> get v ''defaultInput'' \<noteq> JUndefined \<and> \<not> is_object (get v ''defaultInput'')
      then raise InvalidRegistry
      else
        bind_result (resolve_expected x [create_reference] (get v ''create'')) (\<lambda>create.
        bind_result (resolve_expected x [pull_reference] (get v ''pull'')) (\<lambda>pull.
        bind_result (resolve_expected x unsubscribe_references (get v ''unsubscribe'')) (\<lambda>unsubscribe.
        bind_result (resolve_optional x renew_reference (get v ''renew'')) (\<lambda>renew.
        bind_result (resolve_optional x synchronize_reference (get v ''synchronize'')) (\<lambda>synchronize.
        case map_of (run_elements x) (expanded_name (qn WSN_NS ''NotificationMessage'')) of
          None \<Rightarrow> raise InvalidRegistry
        | Some notification \<Rightarrow>
            bind_result (run_implemented x notification) (\<lambda>_.
              Inr \<lparr>sub_create = create, sub_pull = pull, sub_unsubscribe = unsubscribe, sub_renew = renew,
                sub_synchronize = synchronize, sub_default_input = get v ''defaultInput'',
                sub_notification = notification\<rparr>)))))))"

subsection \<open>Topic filters\<close>

text \<open>A token is bound when its prefix, if it has one, is a name with a nonempty namespace.\<close>

definition token_bound :: "js \<Rightarrow> string \<Rightarrow> bool" where
  "token_bound namespaces token =
     (CHR '':'' \<notin> set token \<or>
      (let p = takeWhile (\<lambda>c. c \<noteq> CHR '':'') token in
       is_ncname p \<and> is_string (get namespaces p) \<and> get namespaces p \<noteq> JStr []))"

definition topic_bindings :: "js \<Rightarrow> prefix_bindings" where
  "topic_bindings namespaces =
     merged_bindings [([], [])] (concat (map (\<lambda>k. case get namespaces k of JStr s \<Rightarrow> [(k, s)] | _ \<Rightarrow> []) (own_keys namespaces)))"

definition filter_element :: "string \<Rightarrow> string \<Rightarrow> js \<Rightarrow> xml_node" where
  "filter_element dialect expression namespaces =
     Xml_Element (qn EVENT_NS ''Filter'') None [] []
       [Xml_Element (qn WSN_NS ''TopicExpression'') None (topic_bindings namespaces) [unqualified ''Dialect'' dialect]
         [Xml_Text expression]]"

definition canonical_topic_filter :: "(xml_node \<Rightarrow> js result) \<Rightarrow> js \<Rightarrow> js result" where
  "canonical_topic_filter decode v =
     (let dialect = or_default (get v ''dialect'') (JStr CONCRETE_SET) in
      case (get v ''expression'', is_object (get v ''namespaces'')) of
        (JStr expression, True) \<Rightarrow>
          (case dialect of
             JStr d \<Rightarrow>
               if d \<notin> {CONCRETE_SET, CONCRETE_TOPIC, FULL_TOPIC} then raise UnsupportedCapability
               else
                 bind_result (every_result (matches_xsd_pattern (if d = FULL_TOPIC then full_topic_pattern else concrete_topic_pattern))
                   (if d = CONCRETE_SET then split_at (CHR ''|'') expression else [expression])) (\<lambda>ok.
                 if \<not> ok then raise InvalidValue
                 else if \<not> list_all (token_bound (get v ''namespaces''))
                   (concat (map (split_at (CHR ''/'')) (split_at (CHR ''|'') expression))) then raise InvalidValue
                 else decode (filter_element d expression (get v ''namespaces'')))
           | _ \<Rightarrow> raise UnsupportedCapability)
      | _ \<Rightarrow> raise InvalidValue)"

text \<open>
  The input of the subscription: the default of the contract, what the caller gives, the filter of topics and a first
  lease, each only where there is none yet.
\<close>

fun object_fields :: "js \<Rightarrow> (string \<times> js) list" where
  "object_fields (JObj kvs) = kvs"
| "object_fields _ = []"

definition spread :: "js \<Rightarrow> js \<Rightarrow> (string \<times> js) list" where
  "spread a b = fold (\<lambda>(k, v). AList.update k v) (object_fields b) (object_fields a)"

definition duration_member :: "js \<Rightarrow> js" where
  "duration_member v = JObj [(''$member'', JStr ''{http://www.w3.org/2001/XMLSchema}duration''), (''$value'', v)]"

definition subscription_input :: "(xml_node \<Rightarrow> js result) \<Rightarrow> js \<Rightarrow> js \<Rightarrow> js \<Rightarrow> string \<Rightarrow> js result" where
  "subscription_input decode default_input given topic_filter lease =
     (let fields = spread default_input given in
      bind_result (if topic_filter = JUndefined then Inr fields
        else if get (JObj fields) ''Filter'' \<noteq> JUndefined then raise InvalidValue
        else bind_result (canonical_topic_filter decode topic_filter) (\<lambda>f. Inr (AList.update ''Filter'' f fields))) (\<lambda>filtered.
      Inr (JObj (if get (JObj filtered) ''InitialTerminationTime'' \<in> {JUndefined, JNull}
        then AList.update ''InitialTerminationTime'' (duration_member (JStr lease)) filtered else filtered))))"

end
