(* ===== verification/Events_Pullpoint.thy ===== *)
theory Events_Pullpoint
  imports Events_Contracts
begin

section \<open>Managed event subscriptions\<close>

text \<open>
  \<open>events/pullpoint.ts\<close>: the settings and the class \<open>OwnedPullPoint\<close>. The class is one task that creates a
  subscription, pulls from it in a loop and cleans up (\<open>start\<close>, \<open>run\<close>, \<open>finish\<close>), and a second one that hands
  the records to the listener (\<open>drain\<close>). Where a task awaits, its position is kept (\<open>phase\<close>, \<open>delivery\<close>), and
  what it waits for is an event of its own, so that events come in any order and with any result. Requests
  and records handed over are appended to logs. The clock gives the \<open>n\<close>th reading as \<open>pull_clock c n\<close>.
\<close>

subsection \<open>Settings\<close>

record pull_settings =
  pull_timeout :: int
  message_limit :: int
  minimum_poll :: int
  request_grace :: int
  cleanup_timeout :: int
  lease_duration :: string
  wants_synchronize :: bool
  renewal_duration :: "string option"
  renewal_margin :: int
  restart_on_expiry :: bool
  max_restarts :: int
  max_queued_messages :: int
  max_queued_bytes :: int
  delivery_timeout :: int

definition setting_names :: "string set" where
  "setting_names = {''input'', ''topicFilter'', ''pullTimeoutMs'', ''messageLimit'', ''minimumPollIntervalMs'', ''requestGraceMs'',
     ''cleanupTimeoutMs'', ''leaseDuration'', ''synchronize'', ''renewal'', ''restartOnExpiry'', ''maxRestarts'',
     ''maxQueuedMessages'', ''maxQueuedBytes'', ''deliveryTimeoutMs'', ''signal''}"

definition boolean_option :: "js \<Rightarrow> bool" where
  "boolean_option v = (v = JUndefined \<or> is_boolean v)"

definition positive_duration :: "duration_host \<Rightarrow> js \<Rightarrow> string result" where
  "positive_duration h v =
     (case v of
        JStr s \<Rightarrow> bind_result (fixed_duration h s) (\<lambda>d. if d \<le> 0 then raise InvalidConfiguration else Inr s)
      | _ \<Rightarrow> raise InvalidValue)"

definition lease_setting :: "duration_host \<Rightarrow> js \<Rightarrow> string result" where
  "lease_setting h v = (if is_string v then positive_duration h v else raise InvalidConfiguration)"

definition renewal_setting :: "duration_host \<Rightarrow> js \<Rightarrow> string \<Rightarrow> string option result" where
  "renewal_setting h v lease =
     (if v = JUndefined then Inr None
      else if \<not> is_object v \<or> get v ''supported'' \<noteq> JBool True \<or> \<not> set (own_keys v) \<subseteq> {''supported'', ''duration'', ''marginMs''}
      then raise InvalidConfiguration
      else bind_result (positive_duration h (or_default (get v ''duration'') (JStr lease))) (\<lambda>s. Inr (Some s)))"

definition integer_within :: "js \<Rightarrow> int \<Rightarrow> int result" where
  "integer_within v most =
     (case v of JNum (Whole n) \<Rightarrow> if 0 \<le> n \<and> n \<le> most then Inr n else raise InvalidConfiguration | _ \<Rightarrow> raise InvalidConfiguration)"

definition positive_setting :: "js \<Rightarrow> string \<Rightarrow> int \<Rightarrow> int \<Rightarrow> int result" where
  "positive_setting v name preset most = positive_integer_js (or_default (get v name) (JNum (Whole preset))) most"

definition settings :: "duration_host \<Rightarrow> js \<Rightarrow> pull_settings result" where
  "settings h v =
     (if \<not> is_object v \<or> \<not> set (own_keys v) \<subseteq> setting_names then raise InvalidConfiguration
      else if get v ''input'' \<noteq> JUndefined \<and> \<not> is_object (get v ''input'')
        \<or> get v ''signal'' \<notin> {JUndefined, JHost ''AbortSignal''}
        \<or> \<not> boolean_option (get v ''synchronize'') \<or> \<not> boolean_option (get v ''restartOnExpiry'')
      then raise InvalidConfiguration
      else
        bind_result (lease_setting h (or_default (get v ''leaseDuration'') (JStr ''PT60S''))) (\<lambda>lease.
        bind_result (renewal_setting h (get v ''renewal'') lease) (\<lambda>renewal.
        bind_result (integer_within (or_default (get v ''maxRestarts'') (JNum (Whole 1))) 10) (\<lambda>most_restarts.
        bind_result (integer_within (or_default (get v ''pullTimeoutMs'') (JNum (Whole 60000))) 2147000000) (\<lambda>timeout.
        bind_result (positive_setting v ''messageLimit'' 16 1024) (\<lambda>limit.
        bind_result (positive_setting v ''minimumPollIntervalMs'' 50 60000) (\<lambda>poll.
        bind_result (positive_setting v ''requestGraceMs'' 5000 300000) (\<lambda>grace.
        bind_result (positive_setting v ''cleanupTimeoutMs'' 10000 300000) (\<lambda>cleanup.
        bind_result (positive_setting (get v ''renewal'') ''marginMs'' 10000 300000) (\<lambda>margin.
        bind_result (positive_setting v ''maxQueuedMessages'' 128 4096) (\<lambda>messages.
        bind_result (positive_setting v ''maxQueuedBytes'' 4194304 16777216) (\<lambda>octets.
        bind_result (positive_setting v ''deliveryTimeoutMs'' 10000 300000) (\<lambda>delivery_ms.
          Inr \<lparr>pull_timeout = timeout, message_limit = limit, minimum_poll = poll, request_grace = grace,
            cleanup_timeout = cleanup, lease_duration = lease, wants_synchronize = (get v ''synchronize'' = JBool True),
            renewal_duration = renewal, renewal_margin = margin, restart_on_expiry = (get v ''restartOnExpiry'' = JBool True),
            max_restarts = most_restarts, max_queued_messages = messages, max_queued_bytes = octets,
            delivery_timeout = delivery_ms\<rparr>)))))))))))))"

subsection \<open>State\<close>

text \<open>
  What is thrown: an error object that an event brings, a fault or another error, with its identity; an error that
  this code has just made, which is a new object wherever it occurs; or a value that is no error at all.
\<close>

datatype event_error = Fault_Error nat "js native_fault" | Thrown_Error nat onvif_error | Plain_Error onvif_error | Foreign_Value

definition event_execution :: "event_error \<Rightarrow> execution option" where
  "event_execution e =
     (case (case e of Fault_Error _ f \<Rightarrow> soap_fault_error f | Thrown_Error _ p \<Rightarrow> p | Plain_Error p \<Rightarrow> p | Foreign_Value \<Rightarrow> HostError) of
        OnvifError _ x \<Rightarrow> Some x | HostError \<Rightarrow> None)"

definition error_value :: "event_error \<Rightarrow> event_error" where
  "error_value e = (if e = Foreign_Value then Plain_Error (OnvifError InvalidValue NotSent) else e)"

text \<open>\<open>[...new Set(errors)]\<close>: an object that occurs twice is kept once, two errors made apart are two objects.\<close>

definition made_here :: "event_error \<Rightarrow> bool" where
  "made_here e = (case e of Plain_Error _ \<Rightarrow> True | _ \<Rightarrow> False)"

definition distinct_objects :: "event_error list \<Rightarrow> event_error list" where
  "distinct_objects es = foldl (\<lambda>ds e. if e \<in> set ds \<and> \<not> made_here e then ds else ds @ [e]) [] es"

text \<open>What a listener rejects with, or what its deadline does: an error object, or any other value.\<close>

datatype rejection = Rejected_Object nat "js native_fault + onvif_error" | Rejected_Value

definition rejected_error :: "rejection \<Rightarrow> event_error" where
  "rejected_error r = (case r of
       Rejected_Object i (Inl f) \<Rightarrow> Fault_Error i f
     | Rejected_Object i (Inr e) \<Rightarrow> Thrown_Error i e
     | Rejected_Value \<Rightarrow> Foreign_Value)"

datatype severity = Info | Gap_Severity | Error_Severity

record event_diagnostic =
  diag_at :: int
  diag_code :: string
  diag_generation :: nat
  diag_severity :: severity
  diag_execution :: "execution option"

datatype lease_basis = Server_Current_Time | Previous_Server_Clock

record event_lease =
  lease_current :: string
  lease_termination :: "string option"
  lease_observed :: int
  lease_expires :: "int option"
  lease_basis :: lease_basis

datatype continuity = Initial | Continuous | Gap

record event_record =
  rec_value :: js
  rec_xml :: xml_node
  rec_received :: int
  rec_current :: string
  rec_termination :: "string option"
  rec_generation :: nat
  rec_continuity :: continuity

datatype subscription_state = Sub_Creating | Sub_Active | Sub_Recovering | Sub_Closing | Sub_Closed | Sub_Failed | Sub_Uncertain

datatype origin = Starting | Restarting

text \<open>Where the task awaits; \<open>bool\<close> tells whether \<open>finish\<close> was called by \<open>start\<close>.\<close>

datatype pull_phase =
    Unstarted | Creating origin int | Synchronizing origin | Looping | Renewing int | Pulling int | Pausing
  | Releasing | Cleaning bool "event_error list" | Settling bool "event_error list" | Notifying bool "event_error list"
  | Finished

text \<open>
  The delivery promise: none; the listener is being called for an entry; the loop has returned or thrown and
  the handlers of its promise have not run yet; it has thrown and they have.
\<close>

datatype delivery_task =
    No_Delivery | Calling event_record nat | Returned | Threw event_error | Failed_Delivery event_error

datatype pull_call = Call_Create | Call_Synchronize | Call_Renew | Call_Pull string int | Call_Unsubscribe

datatype promise = Open | Fulfilled | Failed_With "event_error list"

record pullpoint =
  pp_state :: subscription_state
  pp_lease :: "event_lease option"
  pp_endpoint :: "service_endpoint option"
  endpoint_gone :: bool
  cleanup_attempted :: bool
  server_offset :: "int option"
  pp_generation :: nat
  restarts :: nat
  limit_negotiations :: nat
  request_timeout :: int
  request_limit :: int
  stop_requested :: bool
  unsubscribe_input :: js
  pp_aborted :: bool
  pp_queue :: "(event_record \<times> nat) list"
  queued_bytes :: int
  delivering :: bool
  delivery :: delivery_task
  delivery_failure :: "event_error option"
  pp_failure :: "event_error list"
  delivered_count :: nat
  pp_continuity :: continuity
  pp_findings :: "event_diagnostic list"
  phase :: pull_phase
  clock_reads :: nat
  pp_calls :: "(nat \<times> pull_call) list"
  enqueued :: "event_record list"
  handed :: "event_record list"
  start_promise :: promise
  stop_promise :: promise
  remote_promise :: promise

record pull_config =
  pull_options :: pull_settings
  can_renew :: bool
  can_synchronize :: bool
  pull_clock :: "nat \<Rightarrow> jsnum"
  pull_durations :: duration_host
  pull_authorize :: "service_endpoint \<Rightarrow> unit result"
  pull_bytes :: "js \<Rightarrow> nat"
  has_error_listener :: bool
  pull_encodes :: "js \<Rightarrow> unit result"

definition new_pullpoint :: "pull_config \<Rightarrow> pullpoint result" where
  "new_pullpoint c =
     (if renewal_duration (pull_options c) \<noteq> None \<and> \<not> can_renew c then raise UnsupportedCapability
      else if wants_synchronize (pull_options c) \<and> \<not> can_synchronize c then raise UnsupportedCapability
      else Inr \<lparr>pp_state = Sub_Creating, pp_lease = None, pp_endpoint = None, endpoint_gone = False, cleanup_attempted = False,
        server_offset = None, pp_generation = 0, restarts = 0, limit_negotiations = 0,
        request_timeout = pull_timeout (pull_options c), request_limit = message_limit (pull_options c),
        stop_requested = False, unsubscribe_input = JObj [], pp_aborted = False, pp_queue = [], queued_bytes = 0,
        delivering = False, delivery = No_Delivery, delivery_failure = None, pp_failure = [], delivered_count = 0,
        pp_continuity = Initial, pp_findings = [], phase = Unstarted, clock_reads = 0, pp_calls = [], enqueued = [],
        handed = [], start_promise = Open, stop_promise = Open, remote_promise = Open\<rparr>)"

subsection \<open>Steps that may throw\<close>

type_synonym 'a pull = "pullpoint \<Rightarrow> (event_error + 'a) \<times> pullpoint"

definition pull_bind :: "'a pull \<Rightarrow> ('a \<Rightarrow> 'b pull) \<Rightarrow> 'b pull" where
  "pull_bind m f s = (case m s of (Inl e, t) \<Rightarrow> (Inl e, t) | (Inr x, t) \<Rightarrow> f x t)"

definition pull_lift :: "'a result \<Rightarrow> 'a pull" where
  "pull_lift r s = (case r of Inl e \<Rightarrow> (Inl (Plain_Error e), s) | Inr x \<Rightarrow> (Inr x, s))"

definition pull_fail :: "event_error \<Rightarrow> 'a pull" where
  "pull_fail e s = (Inl e, s)"

definition pull_update :: "(pullpoint \<Rightarrow> pullpoint) \<Rightarrow> unit pull" where
  "pull_update f s = (Inr (), f s)"

definition pull_read :: "(pullpoint \<Rightarrow> 'a) \<Rightarrow> 'a pull" where
  "pull_read f s = (Inr (f s), s)"

definition unknown_error :: "error_code \<Rightarrow> event_error" where
  "unknown_error e = Plain_Error (OnvifError e Unknown)"

definition now :: "pull_config \<Rightarrow> int pull" where
  "now c s =
     (let t = s\<lparr>clock_reads := Suc (clock_reads s)\<rparr> in
      case pull_clock c (clock_reads s) of
        Whole n \<Rightarrow> if is_safe_integer (Whole n) then (Inr n, t) else (Inl (Plain_Error (OnvifError InvalidConfiguration NotSent)), t)
      | _ \<Rightarrow> (Inl (Plain_Error (OnvifError InvalidConfiguration NotSent)), t))"

definition make_room_findings :: "event_diagnostic list \<Rightarrow> event_diagnostic list" where
  "make_room_findings ds = (if length ds = 256 then tl ds else ds)"

definition report :: "pull_config \<Rightarrow> string \<Rightarrow> severity \<Rightarrow> event_error option \<Rightarrow> unit pull" where
  "report c name sev e =
     pull_bind (pull_update (\<lambda>s. s\<lparr>pp_continuity := (if sev = Gap_Severity then Gap else pp_continuity s),
       pp_findings := make_room_findings (pp_findings s)\<rparr>)) (\<lambda>_.
     pull_bind (now c) (\<lambda>instant_now.
       pull_update (\<lambda>s. s\<lparr>pp_findings := pp_findings s @ [\<lparr>diag_at = instant_now, diag_code = name, diag_generation = pp_generation s,
         diag_severity = sev, diag_execution = Option.bind e event_execution\<rparr>]\<rparr>)))"

definition issue :: "pull_call \<Rightarrow> pull_phase \<Rightarrow> unit pull" where
  "issue k p = pull_update (\<lambda>s. s\<lparr>pp_calls := pp_calls s @ [(pp_generation s, k)], phase := p\<rparr>)"

subsection \<open>The lease\<close>

definition check_regression :: "pull_config \<Rightarrow> int \<Rightarrow> unit pull" where
  "check_regression c server =
     pull_bind (pull_read pp_lease) (\<lambda>lease. case lease of
         None \<Rightarrow> pull_update id
       | Some l \<Rightarrow> pull_bind (pull_lift (instant (lease_current l))) (\<lambda>before.
           if server < before then report c ''ServerClockRegression'' Gap_Severity None else pull_update id))"

definition note_current :: "pull_config \<Rightarrow> string option \<Rightarrow> int \<Rightarrow> unit pull" where
  "note_current c current started =
     (case current of
        None \<Rightarrow> pull_update id
      | Some t \<Rightarrow>
          pull_bind (pull_lift (instant t)) (\<lambda>server.
          pull_bind (check_regression c server) (\<lambda>_.
            pull_update (\<lambda>s. s\<lparr>server_offset := Some (started - server)\<rparr>))))"

definition optional_string :: "js \<Rightarrow> string option result" where
  "optional_string v = (case v of JUndefined \<Rightarrow> Inr None | JStr s \<Rightarrow> Inr (Some s) | _ \<Rightarrow> raise_unknown InvalidValue)"

definition termination_text :: "js \<Rightarrow> string option result" where
  "termination_text v =
     (if is_object v \<and> get v ''$nil'' = JBool True then Inr None
      else case v of JStr s \<Rightarrow> Inr (Some s) | _ \<Rightarrow> raise_unknown InvalidValue)"

definition expiry :: "int \<Rightarrow> string option \<Rightarrow> int option result" where
  "expiry offset until = (case until of None \<Rightarrow> Inr None | Some t \<Rightarrow> bind_result (instant t) (\<lambda>n. Inr (Some (n + offset))))"

definition set_lease :: "pull_config \<Rightarrow> string option \<Rightarrow> string option \<Rightarrow> unit pull" where
  "set_lease c current until =
     pull_bind (pull_read (\<lambda>s. (server_offset s, map_option lease_current (pp_lease s)))) (\<lambda>(offset, previous).
       case (offset, case current of None \<Rightarrow> previous | Some t \<Rightarrow> Some t) of
         (Some off, Some t) \<Rightarrow>
           pull_bind (now c) (\<lambda>instant_now.
           pull_bind (pull_lift (expiry off until)) (\<lambda>expires.
             pull_update (\<lambda>s. s\<lparr>pp_lease := Some \<lparr>lease_current = t, lease_termination = until, lease_observed = instant_now,
               lease_expires = expires, lease_basis = (if current = None then Previous_Server_Clock else Server_Current_Time)\<rparr>\<rparr>)))
       | _ \<Rightarrow> pull_fail (unknown_error InvalidValue))"

definition timing :: "pull_config \<Rightarrow> js \<Rightarrow> int \<Rightarrow> unit pull" where
  "timing c v started =
     (if \<not> is_object v then pull_fail (unknown_error InvalidValue)
      else
        pull_bind (pull_lift (optional_string (get v ''CurrentTime''))) (\<lambda>current.
        pull_bind (pull_lift (termination_text (get v ''TerminationTime''))) (\<lambda>until.
        pull_bind (note_current c current started) (\<lambda>_.
          set_lease c current until))))"

subsection \<open>Creating and releasing\<close>

datatype exec_reply = Exec_Ok js "xml_node option" | Exec_Failed event_error

definition begin_create :: "pull_config \<Rightarrow> origin \<Rightarrow> unit pull" where
  "begin_create c via = pull_bind (now c) (\<lambda>started. issue Call_Create (Creating via started))"

definition finish_create :: "pull_config \<Rightarrow> origin \<Rightarrow> unit pull" where
  "finish_create c via =
     pull_bind (pull_update (\<lambda>s. s\<lparr>pp_state := Sub_Active\<rparr>)) (\<lambda>_.
     pull_bind (report c ''SubscriptionCreated'' Info None) (\<lambda>_.
       pull_update (\<lambda>s. case via of
           Starting \<Rightarrow> s\<lparr>start_promise := Fulfilled, phase := Looping\<rparr>
         | Restarting \<Rightarrow> s\<lparr>pp_continuity := Gap, phase := Looping\<rparr>)))"

definition subscription_reference :: "xml_node option \<Rightarrow> service_endpoint result" where
  "subscription_reference xml =
     (case xml of
        None \<Rightarrow> raise_unknown InvalidXml
      | Some n \<Rightarrow> (case find (has_qname (qn EVENT_NS ''SubscriptionReference'')) (child_elements n) of
            None \<Rightarrow> raise_unknown InvalidXml
          | Some r \<Rightarrow> read_endpoint_reference r))"

definition created :: "pull_config \<Rightarrow> origin \<Rightarrow> int \<Rightarrow> exec_reply \<Rightarrow> unit pull" where
  "created c via started reply =
     (case reply of
        Exec_Failed e \<Rightarrow> pull_fail e
      | Exec_Ok v xml \<Rightarrow>
          pull_bind (pull_lift (subscription_reference xml)) (\<lambda>endpoint.
          pull_bind (pull_update (\<lambda>s. s\<lparr>pp_endpoint := Some endpoint, cleanup_attempted := False, endpoint_gone := False,
            pp_generation := Suc (pp_generation s)\<rparr>)) (\<lambda>_.
          pull_bind (pull_lift (pull_authorize c endpoint)) (\<lambda>_.
          pull_bind (timing c v started) (\<lambda>_.
            if wants_synchronize (pull_options c) \<and> can_synchronize c then issue Call_Synchronize (Synchronizing via)
            else finish_create c via)))))"

definition synchronized :: "pull_config \<Rightarrow> origin \<Rightarrow> exec_reply \<Rightarrow> unit pull" where
  "synchronized c via reply = (case reply of Exec_Failed e \<Rightarrow> pull_fail e | Exec_Ok _ _ \<Rightarrow> finish_create c via)"

definition resource_ns :: string where
  "resource_ns = ''http://docs.oasis-open.org/wsrf/r-2''"

definition resource_unknown :: "event_error \<Rightarrow> bool" where
  "resource_unknown e = (case e of
       Fault_Error _ f \<Rightarrow>
         list_ex (\<lambda>q. namespace q = resource_ns \<and> local_name q \<in> {''ResourceUnknown'', ''ResourceUnknownFault''}) (fault_subcodes f)
         \<or> list_ex (\<lambda>d. detail_name d = qn resource_ns ''ResourceUnknownFault'') (fault_typed f)
     | _ \<Rightarrow> False)"

definition needs_release :: "pullpoint \<Rightarrow> bool" where
  "needs_release s = (pp_endpoint s \<noteq> None \<and> \<not> endpoint_gone s \<and> \<not> cleanup_attempted s)"

definition issue_release :: "pull_phase \<Rightarrow> pullpoint \<Rightarrow> pullpoint" where
  "issue_release p s =
     s\<lparr>cleanup_attempted := True, pp_calls := pp_calls s @ [(pp_generation s, Call_Unsubscribe)], phase := p\<rparr>"

definition released :: "pull_config \<Rightarrow> exec_reply \<Rightarrow> unit pull" where
  "released c reply =
     (case reply of
        Exec_Ok _ _ \<Rightarrow> pull_update (\<lambda>s. s\<lparr>endpoint_gone := True\<rparr>)
      | Exec_Failed e \<Rightarrow>
          if \<not> resource_unknown e then pull_fail e
          else pull_bind (pull_update (\<lambda>s. s\<lparr>endpoint_gone := True\<rparr>)) (\<lambda>_. report c ''CleanupResourceAbsent'' Info (Some e)))"

definition restart :: "pull_config \<Rightarrow> unit pull" where
  "restart c =
     pull_bind (pull_update (\<lambda>s. s\<lparr>pp_lease := None, server_offset := None, restarts := Suc (restarts s)\<rparr>)) (\<lambda>_.
       begin_create c Restarting)"

definition recover :: "pull_config \<Rightarrow> string \<Rightarrow> bool \<Rightarrow> unit pull" where
  "recover c reason gone =
     pull_bind (report c reason Gap_Severity None) (\<lambda>_.
     pull_bind (pull_update (\<lambda>s. s\<lparr>endpoint_gone := gone\<rparr>)) (\<lambda>_.
     pull_bind (pull_read (\<lambda>s. restart_on_expiry (pull_options c) \<and> int (restarts s) < max_restarts (pull_options c))) (\<lambda>allowed.
       if \<not> allowed then pull_fail (unknown_error OutcomeUnknown)
       else
         pull_bind (pull_update (\<lambda>s. s\<lparr>pp_state := Sub_Recovering\<rparr>)) (\<lambda>_.
         pull_bind (pull_read needs_release) (\<lambda>needed.
           if needed then pull_update (issue_release Releasing) else restart c)))))"

subsection \<open>Finishing\<close>

definition settle_remote :: "promise \<Rightarrow> pullpoint \<Rightarrow> pullpoint" where
  "settle_remote p s = s\<lparr>remote_promise := p,
     pp_failure := (case p of Failed_With es \<Rightarrow> if pp_failure s = [] then es else pp_failure s | _ \<Rightarrow> pp_failure s)\<rparr>"

definition begin_finish :: "bool \<Rightarrow> event_error option \<Rightarrow> pullpoint \<Rightarrow> pullpoint" where
  "begin_finish from_start e s =
     (let t = s\<lparr>stop_requested := True, pp_aborted := True, pp_state := Sub_Closing\<rparr>;
          errors = (case e of None \<Rightarrow> [] | Some x \<Rightarrow> [error_value x]) in
      if needs_release t then issue_release (Cleaning from_start errors) t
      else settle_remote Fulfilled (t\<lparr>phase := Settling from_start errors\<rparr>))"

text \<open>An exception out of \<open>finish\<close> itself, which only the clock can cause.\<close>

definition finish_threw :: "bool \<Rightarrow> event_error \<Rightarrow> pullpoint \<Rightarrow> pullpoint" where
  "finish_threw from_start e s =
     (if from_start then s\<lparr>start_promise := Failed_With [e], phase := Finished\<rparr>
      else s\<lparr>pp_failure := [e], stop_promise := Failed_With [e], phase := Finished\<rparr>)"

definition finish_step :: "bool \<Rightarrow> (pullpoint \<Rightarrow> pullpoint) \<Rightarrow> unit pull \<Rightarrow> pullpoint \<Rightarrow> pullpoint" where
  "finish_step from_start f m s = (case m s of (Inl e, t) \<Rightarrow> finish_threw from_start e t | (Inr _, t) \<Rightarrow> f t)"

definition cleaned :: "pull_config \<Rightarrow> bool \<Rightarrow> event_error list \<Rightarrow> exec_reply \<Rightarrow> pullpoint \<Rightarrow> pullpoint" where
  "cleaned c from_start errors reply s =
     (case released c reply s of
        (Inr _, t) \<Rightarrow> settle_remote Fulfilled (t\<lparr>phase := Settling from_start errors\<rparr>)
      | (Inl e, t) \<Rightarrow>
          finish_step from_start (\<lambda>u. u\<lparr>phase := Settling from_start (errors @ [error_value e])\<rparr>)
            (report c ''UnsubscribeOutcomeUnknown'' Error_Severity (Some e))
            ((settle_remote (Failed_With [error_value e]) t)\<lparr>pp_state := Sub_Uncertain\<rparr>))"

definition end_failed :: "bool \<Rightarrow> pullpoint \<Rightarrow> pullpoint" where
  "end_failed from_start s =
     s\<lparr>stop_promise := Failed_With (pp_failure s), phase := Finished,
       start_promise := (if from_start then Failed_With (pp_failure s) else start_promise s)\<rparr>"

definition conclude :: "pull_config \<Rightarrow> bool \<Rightarrow> event_error list \<Rightarrow> pullpoint \<Rightarrow> pullpoint" where
  "conclude c from_start errors s =
     (let distinct_errors = distinct_objects errors in
      if distinct_errors = [] then s\<lparr>pp_state := Sub_Closed, stop_promise := Fulfilled, phase := Finished\<rparr>
      else
        let t = s\<lparr>pp_failure := distinct_errors, pp_state := (if pp_state s = Sub_Uncertain then Sub_Uncertain else Sub_Failed)\<rparr> in
        if has_error_listener c then t\<lparr>phase := Notifying from_start distinct_errors\<rparr> else end_failed from_start t)"

definition delivery_error :: "pullpoint \<Rightarrow> event_error list" where
  "delivery_error s = (case delivery s of Failed_Delivery e \<Rightarrow> [error_value e] | _ \<Rightarrow> [])"

definition drop_undelivered :: "pull_config \<Rightarrow> unit pull" where
  "drop_undelivered c =
     pull_bind (pull_read pp_queue) (\<lambda>q.
       if q = [] then pull_update id
       else pull_bind (report c ''UndeliveredNotifications'' Gap_Severity None) (\<lambda>_.
         pull_update (\<lambda>s. s\<lparr>pp_queue := [], queued_bytes := 0\<rparr>)))"

text \<open>The delivery has settled and its handlers have run.\<close>

definition delivery_over :: "pullpoint \<Rightarrow> bool" where
  "delivery_over s = (case delivery s of No_Delivery \<Rightarrow> True | Failed_Delivery _ \<Rightarrow> True | _ \<Rightarrow> False)"

definition settling_resumed :: "pull_config \<Rightarrow> bool \<Rightarrow> event_error list \<Rightarrow> pullpoint \<Rightarrow> pullpoint" where
  "settling_resumed c from_start errors s =
     (if delivery_over s then
        finish_step from_start (conclude c from_start (errors @ delivery_error s)) (drop_undelivered c) s
      else s)"

definition notified :: "bool \<Rightarrow> event_error option \<Rightarrow> pullpoint \<Rightarrow> pullpoint" where
  "notified from_start e s =
     end_failed from_start (s\<lparr>pp_failure := pp_failure s @ (case e of None \<Rightarrow> [] | Some x \<Rightarrow> [error_value x])\<rparr>)"

subsection \<open>Delivery\<close>

definition pull_drain :: "pullpoint \<Rightarrow> pullpoint" where
  "pull_drain s =
     (if stop_requested s then s\<lparr>delivery := Returned\<rparr>
      else case pp_queue s of
          [] \<Rightarrow> s\<lparr>delivery := Returned\<rparr>
        | (r, n) # q \<Rightarrow> s\<lparr>pp_queue := q, delivering := True, delivery := Calling r n, handed := handed s @ [r]\<rparr>)"

definition enqueue :: "pull_config \<Rightarrow> event_record \<Rightarrow> unit pull" where
  "enqueue c r =
     (let n = pull_bytes c (rec_value r) in
      pull_bind (pull_read (\<lambda>s. int (length (pp_queue s) + (if delivering s then 1 else 0)) \<ge> max_queued_messages (pull_options c)
          \<or> queued_bytes s + int n > max_queued_bytes (pull_options c))) (\<lambda>full.
        if full then
          pull_bind (report c ''DeliveryOverflow'' Gap_Severity None) (\<lambda>_. pull_fail (unknown_error XmlLimit))
        else
          pull_bind (pull_update (\<lambda>s. s\<lparr>pp_queue := pp_queue s @ [(r, n)], queued_bytes := queued_bytes s + int n,
            enqueued := enqueued s @ [r]\<rparr>)) (\<lambda>_.
          pull_update (\<lambda>s. if delivery s = No_Delivery then pull_drain s else s))))"

text \<open>The callback has settled, or its deadline has passed; then the handlers of the promise run.\<close>

definition callback_settled :: "rejection option \<Rightarrow> pullpoint \<Rightarrow> pullpoint" where
  "callback_settled outcome s =
     (case delivery s of
        Calling r n \<Rightarrow>
          let t = s\<lparr>delivering := False, queued_bytes := queued_bytes s - int n\<rparr> in
          (case outcome of
             None \<Rightarrow> pull_drain (t\<lparr>delivered_count := Suc (delivered_count t)\<rparr>)
           | Some e \<Rightarrow> t\<lparr>delivery := Threw (rejected_error e)\<rparr>)
      | _ \<Rightarrow> s)"

definition delivery_noted :: "pull_config \<Rightarrow> pullpoint \<Rightarrow> pullpoint" where
  "delivery_noted c s =
     (case delivery s of
        Returned \<Rightarrow> s\<lparr>delivery := No_Delivery\<rparr>
      | Threw e \<Rightarrow>
          (case report c ''DeliveryFailed'' Gap_Severity (Some e) (s\<lparr>delivery_failure := Some (error_value e), delivery := Failed_Delivery e\<rparr>) of
             (Inr _, t) \<Rightarrow> t\<lparr>pp_aborted := True\<rparr>
           | (Inl _, t) \<Rightarrow> t)
      | _ \<Rightarrow> s)"

subsection \<open>The loop\<close>

definition fault_limits :: "js native_fault \<Rightarrow> js option" where
  "fault_limits f =
     Option.bind (find (\<lambda>d. detail_name d = qn EVENT_NS ''PullMessagesFaultResponse'') (fault_typed f))
       (\<lambda>d. if is_object (detail_value d) then Some (detail_value d) else None)"

definition advertised_limits :: "pull_config \<Rightarrow> js \<Rightarrow> (int \<times> int) result" where
  "advertised_limits c v =
     (case (get v ''MaxTimeout'', get v ''MaxMessageLimit'') of
        (JStr t, JNum (Whole m)) \<Rightarrow>
          if \<not> is_safe_integer (Whole m) \<or> m \<le> 0 then raise_unknown InvalidValue
          else bind_result (fixed_duration (pull_durations c) t) (\<lambda>d.
            if \<lfloor>d\<rfloor> < 0 then raise InvalidValue else Inr (\<lfloor>d\<rfloor>, m))
      | _ \<Rightarrow> raise_unknown InvalidValue)"

definition reduce_limits :: "pull_config \<Rightarrow> int \<times> int \<Rightarrow> bool pull" where
  "reduce_limits c limits =
     pull_bind (pull_read (\<lambda>s. (min (request_timeout s) (fst limits), min (request_limit s) (snd limits)))) (\<lambda>(timeout, limit).
     pull_bind (pull_read (\<lambda>s. timeout = request_timeout s \<and> limit = request_limit s)) (\<lambda>same.
       if same then pull_read (\<lambda>_. False)
       else
         pull_bind (pull_update (\<lambda>s. s\<lparr>request_timeout := timeout, request_limit := limit,
           limit_negotiations := Suc (limit_negotiations s)\<rparr>)) (\<lambda>_.
         pull_bind (report c ''ServerRequestLimits'' Info None) (\<lambda>_. pull_read (\<lambda>_. True)))))"

definition limit_fault :: "pull_config \<Rightarrow> event_error \<Rightarrow> bool pull" where
  "limit_fault c e =
     (case e of
        Fault_Error _ f \<Rightarrow>
          pull_bind (pull_read (\<lambda>s. event_execution e \<noteq> Some Rejected \<or> limit_negotiations s \<ge> 2)) (\<lambda>ignored.
            if ignored then pull_read (\<lambda>_. False)
            else case fault_limits f of
                None \<Rightarrow> pull_read (\<lambda>_. False)
              | Some v \<Rightarrow> pull_bind (pull_lift (advertised_limits c v)) (reduce_limits c))
      | _ \<Rightarrow> pull_read (\<lambda>_. False))"

definition return_run :: "unit pull" where
  "return_run = pull_update (begin_finish False None)"

text \<open>The time left before the lease ends. The timeout is within the range of \<open>duration\<close>, which does not throw.\<close>

definition available :: "pull_config \<Rightarrow> int \<Rightarrow> int pull" where
  "available c started =
     pull_bind (pull_read (\<lambda>s. (pp_lease s, request_timeout s))) (\<lambda>(lease, timeout).
       case lease of
         Some l \<Rightarrow>
           (case lease_expires l of
              None \<Rightarrow> pull_read (\<lambda>_. timeout)
            | Some e \<Rightarrow> pull_bind (now c) (\<lambda>n. pull_read (\<lambda>_. max 0 (e - n - 1))))
       | None \<Rightarrow> pull_bind (now c) (\<lambda>n. pull_read (\<lambda>_. max 0 (started - n - 1))))"

definition start_pull :: "pull_config \<Rightarrow> int \<Rightarrow> unit pull" where
  "start_pull c started =
     pull_bind (available c started) (\<lambda>a.
     pull_bind (pull_read (\<lambda>s. (min (request_timeout s) a, request_limit s))) (\<lambda>(timeout, limit).
       issue (Call_Pull (duration_text timeout) limit) (Pulling started)))"

definition must_renew :: "pull_config \<Rightarrow> int \<Rightarrow> event_lease \<Rightarrow> bool" where
  "must_renew c started lease =
     (renewal_duration (pull_options c) \<noteq> None \<and> can_renew c
      \<and> (case lease_expires lease of None \<Rightarrow> False | Some e \<Rightarrow> e - started \<le> renewal_margin (pull_options c)))"

definition fail_if :: "event_error option \<Rightarrow> unit pull" where
  "fail_if e = (case e of None \<Rightarrow> pull_update id | Some x \<Rightarrow> pull_fail x)"

definition expired :: "int \<Rightarrow> event_lease \<Rightarrow> bool" where
  "expired started lease = (case lease_expires lease of None \<Rightarrow> False | Some e \<Rightarrow> e \<le> started)"

definition iterate_loop :: "pull_config \<Rightarrow> unit pull" where
  "iterate_loop c =
     pull_bind (pull_read delivery_failure) (\<lambda>failed.
     pull_bind (fail_if failed) (\<lambda>_.
     pull_bind (now c) (\<lambda>started.
     pull_bind (pull_read pp_lease) (\<lambda>lease. case lease of
         None \<Rightarrow> pull_fail (Plain_Error (OnvifError InvalidValue NotSent))
       | Some l \<Rightarrow>
           if expired started l then recover c ''LeaseExpired'' False
           else if must_renew c started l then issue Call_Renew (Renewing started)
           else start_pull c started))))"

definition loop_head :: "pull_config \<Rightarrow> unit pull" where
  "loop_head c = pull_bind (pull_read stop_requested) (\<lambda>stopped. if stopped then return_run else iterate_loop c)"

definition renewed :: "pull_config \<Rightarrow> int \<Rightarrow> exec_reply \<Rightarrow> unit pull" where
  "renewed c started reply =
     (case reply of
        Exec_Ok v _ \<Rightarrow>
          pull_bind (timing c v started) (\<lambda>_.
          pull_bind (report c ''SubscriptionRenewed'' Info None) (\<lambda>_. start_pull c started))
      | Exec_Failed e \<Rightarrow>
          pull_bind (pull_read stop_requested) (\<lambda>stopped.
            if stopped then pull_bind (report c ''RenewCancelled'' Gap_Severity (Some e)) (\<lambda>_. return_run)
            else if resource_unknown e then recover c ''ResourceUnknownOrReboot'' True
            else pull_bind (report c ''RenewFailed'' Gap_Severity (Some e)) (\<lambda>_. pull_fail e)))"

definition after_limits :: "pull_config \<Rightarrow> event_error \<Rightarrow> bool \<Rightarrow> unit pull" where
  "after_limits c e reduced =
     (if reduced then loop_head c
      else if resource_unknown e then recover c ''ResourceUnknownOrReboot'' True
      else pull_bind (report c ''PullFailed'' Gap_Severity (Some e)) (\<lambda>_. pull_fail e))"

definition pull_failed :: "pull_config \<Rightarrow> event_error \<Rightarrow> unit pull" where
  "pull_failed c e =
     pull_bind (pull_read (\<lambda>s. (delivery_failure s, stop_requested s))) (\<lambda>(failed, stopped).
     pull_bind (fail_if failed) (\<lambda>_.
       if stopped then pull_bind (report c ''PullCancelled'' Gap_Severity (Some e)) (\<lambda>_. return_run)
       else pull_bind (limit_fault c e) (after_limits c e)))"

definition notification_nodes :: "xml_node \<Rightarrow> xml_node list" where
  "notification_nodes n = filter (has_qname (qn WSN_NS ''NotificationMessage'')) (child_elements n)"

definition notifications :: "int \<Rightarrow> js \<Rightarrow> xml_node option \<Rightarrow> (js \<times> xml_node) list result" where
  "notifications limit v xml =
     (case (is_object v, get v ''NotificationMessage'', xml) of
        (True, JArr ms, Some n) \<Rightarrow>
          if length ms \<noteq> length (notification_nodes n) \<or> int (length ms) > limit then raise_unknown InvalidValue
          else Inr (zip ms (notification_nodes n))
      | _ \<Rightarrow> raise_unknown InvalidValue)"

definition accept_message :: "pull_config \<Rightarrow> event_lease \<Rightarrow> js \<times> xml_node \<Rightarrow> unit pull" where
  "accept_message c lease m =
     pull_bind (now c) (\<lambda>received.
     pull_bind (pull_read (\<lambda>s. \<lparr>rec_value = fst m, rec_xml = snd m, rec_received = received, rec_current = lease_current lease,
       rec_termination = lease_termination lease, rec_generation = pp_generation s, rec_continuity = pp_continuity s\<rparr>)) (\<lambda>r.
     pull_bind (enqueue c r) (\<lambda>_. pull_update (\<lambda>s. s\<lparr>pp_continuity := Continuous\<rparr>))))"

fun accept_messages :: "pull_config \<Rightarrow> event_lease \<Rightarrow> (js \<times> xml_node) list \<Rightarrow> unit pull" where
  "accept_messages c lease [] = pull_update id"
| "accept_messages c lease (m # ms) = pull_bind (accept_message c lease m) (\<lambda>_. accept_messages c lease ms)"

definition pause :: "pull_config \<Rightarrow> int \<Rightarrow> unit pull" where
  "pause c started =
     pull_bind (now c) (\<lambda>n.
       if minimum_poll (pull_options c) - (n - started) > 0 then pull_update (\<lambda>s. s\<lparr>phase := Pausing\<rparr>) else loop_head c)"

definition pulled :: "pull_config \<Rightarrow> int \<Rightarrow> exec_reply \<Rightarrow> unit pull" where
  "pulled c started reply =
     (case reply of
        Exec_Failed e \<Rightarrow> pull_failed c e
      | Exec_Ok v xml \<Rightarrow>
          pull_bind (timing c v started) (\<lambda>_.
          pull_bind (pull_read (\<lambda>s. (stop_requested s, request_limit s, pp_lease s))) (\<lambda>(stopped, limit, lease).
            if stopped then return_run
            else
              pull_bind (pull_lift (notifications limit v xml)) (\<lambda>ms. case lease of
                  None \<Rightarrow> pull_fail (Plain_Error (OnvifError InvalidValue NotSent))
                | Some l \<Rightarrow> pull_bind (accept_messages c l ms) (\<lambda>_. pause c started)))))"

definition slept :: "pull_config \<Rightarrow> event_error option \<Rightarrow> unit pull" where
  "slept c outcome =
     (case outcome of
        None \<Rightarrow> loop_head c
      | Some e \<Rightarrow>
          pull_bind (pull_read (\<lambda>s. (delivery_failure s, stop_requested s))) (\<lambda>(failed, stopped).
          pull_bind (fail_if failed) (\<lambda>_. if \<not> stopped then pull_fail e else loop_head c)))"

subsection \<open>Events\<close>

datatype pull_event =
    Start bool | Executed exec_reply | Slept "event_error option" | Resume | Delivered "rejection option" | Delivery_Noted
  | Notified "event_error option" | Stop bool js

definition guarded_task :: "bool \<Rightarrow> unit pull \<Rightarrow> pullpoint \<Rightarrow> pullpoint" where
  "guarded_task from_start m s = (case m s of (Inl e, t) \<Rightarrow> begin_finish from_start (Some e) t | (Inr _, t) \<Rightarrow> t)"

definition start :: "pull_config \<Rightarrow> bool \<Rightarrow> pullpoint \<Rightarrow> pullpoint" where
  "start c cancelled s =
     (if cancelled then s\<lparr>start_promise := Failed_With [Plain_Error (OnvifError RuntimeClosed NotSent)], phase := Finished\<rparr>
      else guarded_task True (begin_create c Starting) s)"

definition external_stop :: "pullpoint \<Rightarrow> pullpoint" where
  "external_stop s = (if stop_requested s then s else s\<lparr>stop_requested := True, pp_state := Sub_Closing, pp_aborted := True\<rparr>)"

text \<open>The options of an interaction: only its data are accepted.\<close>

definition stop_options_ok :: "js \<Rightarrow> bool" where
  "stop_options_ok v =
     (is_object v \<and> set (own_keys v) \<subseteq> {''uriVariables'', ''formIndex'', ''data''} \<and> get v ''uriVariables'' = JUndefined
      \<and> (get v ''formIndex'' = JUndefined \<or> get v ''formIndex'' = JNum (Whole 0)))"

text \<open>
  The promise that \<open>stop\<close> returns: inside a callback of the listener, where waiting for the callbacks would wait for
  itself, the one of the remote cleanup alone, and outside the one of the whole shutdown.
\<close>

datatype stop_handle = Whole_Stop | Remote_Stop

definition handle_outcome :: "stop_handle \<Rightarrow> pullpoint \<Rightarrow> promise" where
  "handle_outcome h s = (case h of Whole_Stop \<Rightarrow> stop_promise s | Remote_Stop \<Rightarrow> remote_promise s)"

definition stop_call :: "pull_config \<Rightarrow> bool \<Rightarrow> js \<Rightarrow> pullpoint \<Rightarrow> stop_handle result \<times> pullpoint" where
  "stop_call c inside options s =
     (if \<not> stop_options_ok options then (Inl (OnvifError UnsupportedCapability NotSent), s)
      else
        let handle = (if inside then Remote_Stop else Whole_Stop) in
        if stop_requested s \<or> get options ''data'' = JUndefined then (Inr handle, external_stop s)
        else case pull_encodes c (get options ''data'') of
            Inl e \<Rightarrow> (Inl e, s)
          | Inr _ \<Rightarrow> (Inr handle, external_stop (s\<lparr>unsubscribe_input := get options ''data''\<rparr>)))"

definition executed :: "pull_config \<Rightarrow> exec_reply \<Rightarrow> pullpoint \<Rightarrow> pullpoint" where
  "executed c reply s =
     (case phase s of
        Creating via started \<Rightarrow> guarded_task (via = Starting) (created c via started reply) s
      | Synchronizing via \<Rightarrow> guarded_task (via = Starting) (synchronized c via reply) s
      | Renewing started \<Rightarrow> guarded_task False (renewed c started reply) s
      | Pulling started \<Rightarrow> guarded_task False (pulled c started reply) s
      | Releasing \<Rightarrow> guarded_task False (pull_bind (released c reply) (\<lambda>_. restart c)) s
      | Cleaning from_start errors \<Rightarrow> cleaned c from_start errors reply s
      | _ \<Rightarrow> s)"

definition pull_resume :: "pull_config \<Rightarrow> pullpoint \<Rightarrow> pullpoint" where
  "pull_resume c s =
     (case phase s of
        Looping \<Rightarrow> guarded_task False (loop_head c) s
      | Settling from_start errors \<Rightarrow> settling_resumed c from_start errors s
      | _ \<Rightarrow> s)"

fun pull_step :: "pull_config \<Rightarrow> pull_event \<Rightarrow> pullpoint \<Rightarrow> pullpoint" where
  "pull_step c (Start cancelled) s = (if phase s = Unstarted then start c cancelled s else s)"
| "pull_step c (Executed reply) s = executed c reply s"
| "pull_step c (Slept outcome) s = (if phase s = Pausing then guarded_task False (slept c outcome) s else s)"
| "pull_step c Resume s = pull_resume c s"
| "pull_step c (Delivered outcome) s = callback_settled outcome s"
| "pull_step c Delivery_Noted s = delivery_noted c s"
| "pull_step c (Notified e) s = (case phase s of Notifying from_start _ \<Rightarrow> notified from_start e s | _ \<Rightarrow> s)"
| "pull_step c (Stop inside options) s = snd (stop_call c inside options s)"

definition pull_run :: "pull_config \<Rightarrow> pull_event list \<Rightarrow> pullpoint \<Rightarrow> pullpoint" where
  "pull_run c events s = fold (pull_step c) events s"

end
