(* ===== verification/Events_Pullpoint_Frame.thy ===== *)
theory Events_Pullpoint_Frame
  imports Events_Pullpoint
begin

section \<open>What the bookkeeping of a subscription leaves alone\<close>

text \<open>
  Readings of the clock, diagnostics and the lease are bookkeeping. A relation between states that their three
  updates keep is kept by every operation that is made of them (\<open>bookkeeping_law\<close>); it is interpreted on
  \<open>quiet\<close>, which says that nothing else has changed.
\<close>

text \<open>What holds after a step that may throw: \<open>E\<close> where it has thrown and \<open>Q\<close> where it has not.\<close>

definition ends_in :: "(pullpoint \<Rightarrow> bool) \<Rightarrow> ('a \<Rightarrow> pullpoint \<Rightarrow> bool) \<Rightarrow> (event_error + 'a) \<times> pullpoint \<Rightarrow> bool" where
  "ends_in E Q p = (case p of (Inl e, t) \<Rightarrow> E t | (Inr x, t) \<Rightarrow> Q x t)"

lemma ends_in_simps [simp]:
  "ends_in E Q (Inl e, t) = E t"
  "ends_in E Q (Inr x, t) = Q x t"
  "ends_in E Q (pull_read g s) = Q (g s) s"
  "ends_in E Q (pull_fail e s) = E s"
  by (simp_all add: ends_in_def pull_read_def pull_fail_def)

lemma ends_in_update [simp]: "ends_in E Q (pull_update f s) = Q () (f s)"
  by (simp add: ends_in_def pull_update_def)

lemma ends_in_bind: "ends_in E Q (pull_bind m f s) = ends_in E (\<lambda>x t. ends_in E Q (f x t)) (m s)"
  by (auto simp: ends_in_def pull_bind_def split: prod.split sum.split)

lemma ends_in_mono:
  "ends_in E Q p \<Longrightarrow> (\<And>t. E t \<Longrightarrow> E' t) \<Longrightarrow> (\<And>x t. Q x t \<Longrightarrow> Q' x t) \<Longrightarrow> ends_in E' Q' p"
  by (auto simp: ends_in_def split: prod.splits sum.splits)

lemma ends_in_lift: "ends_in E Q (pull_lift r s) = (case r of Inl e \<Rightarrow> E s | Inr x \<Rightarrow> Q x s)"
  by (simp add: pull_lift_def split: sum.split)

lemma ends_in_if: "ends_in E Q ((if b then m else n) s) = (if b then ends_in E Q (m s) else ends_in E Q (n s))"
  by simp

lemma ends_in_fail_if: "ends_in E Q (fail_if e s) = (case e of None \<Rightarrow> Q () s | Some x \<Rightarrow> E s)"
  by (simp add: fail_if_def split: option.split)

locale bookkeeping_law =
  fixes R :: "pullpoint \<Rightarrow> pullpoint \<Rightarrow> bool"
  assumes refl: "R s s"
    and trans: "R s t \<Longrightarrow> R t u \<Longrightarrow> R s u"
    and clock: "R s (s\<lparr>clock_reads := n\<rparr>)"
    and finding: "R s (s\<lparr>pp_continuity := (if sev = Gap_Severity then Gap else pp_continuity s), pp_findings := make_room_findings (pp_findings s)\<rparr>)"
    and noted: "length (pp_findings s) < 256 \<Longrightarrow> R s (s\<lparr>pp_findings := pp_findings s @ [d]\<rparr>)"
    and few: "length (pp_findings s) \<le> 256 \<Longrightarrow> R s t \<Longrightarrow> length (pp_findings t) \<le> 256"
    and leased: "R s (s\<lparr>pp_lease := l\<rparr>)" "R s (s\<lparr>server_offset := off\<rparr>)"
begin

definition keeps :: "'a pull \<Rightarrow> bool" where
  "keeps m = (\<forall>s. length (pp_findings s) \<le> 256 \<longrightarrow> ends_in (R s) (\<lambda>_. R s) (m s))"

lemma keepsD: "keeps m \<Longrightarrow> length (pp_findings s) \<le> 256 \<Longrightarrow> ends_in (R s) (\<lambda>_. R s) (m s)"
  by (simp add: keeps_def)

lemma pull_keeps_bind: "keeps m \<Longrightarrow> (\<And>x. keeps (f x)) \<Longrightarrow> keeps (pull_bind m f)"
proof -
  assume m: "keeps m" and f: "\<And>x. keeps (f x)"
  have "ends_in (R s) (\<lambda>_. R s) (pull_bind m f s)" if n: "length (pp_findings s) \<le> 256" for s
    unfolding ends_in_bind
  proof (rule ends_in_mono[OF keepsD[OF m n]])
    fix x t
    assume r: "R s t"
    show "ends_in (R s) (\<lambda>_. R s) (f x t)"
      by (rule ends_in_mono[OF keepsD[OF f few[OF n r]]]) (blast intro: trans[OF r])+
  qed
  then show ?thesis by (simp add: keeps_def)
qed

lemma keeps_read [simp]: "keeps (pull_read g)" "keeps (pull_fail e)" "keeps (pull_lift r)" "keeps (pull_update id)"
  by (auto simp: keeps_def refl ends_in_lift split: sum.split)

lemma keeps_now [simp]: "keeps (now c)"
  by (auto simp: keeps_def now_def Let_def clock split: jsnum.split)

lemma few_findings: "length (make_room_findings ds) < 256" if "length ds \<le> 256" for ds :: "event_diagnostic list"
  using that by (auto simp: make_room_findings_def)

lemma keeps_report [simp]: "keeps (report c name sev e)"
proof -
  have "ends_in (R s) (\<lambda>_. R s) (report c name sev e s)" if "length (pp_findings s) \<le> 256" for s
  proof -
    let ?s = "s\<lparr>pp_continuity := (if sev = Gap_Severity then Gap else pp_continuity s), pp_findings := make_room_findings (pp_findings s)\<rparr>"
    have a: "R s ?s" by (rule finding)
    have f: "length (pp_findings ?s) < 256" using few_findings[OF that] by simp
    have "R s (?s\<lparr>clock_reads := n\<rparr>)" for n by (rule trans[OF a clock])
    moreover have "R s (?s\<lparr>clock_reads := n, pp_findings := pp_findings ?s @ [d]\<rparr>)" for n d
    proof -
      have "R (?s\<lparr>clock_reads := n\<rparr>) (?s\<lparr>clock_reads := n\<rparr>\<lparr>pp_findings := pp_findings (?s\<lparr>clock_reads := n\<rparr>) @ [d]\<rparr>)"
        by (rule noted) (use f in simp)
      then show ?thesis using trans[OF a trans[OF clock]] by simp
    qed
    ultimately show ?thesis
      by (auto simp: report_def ends_in_bind now_def Let_def split: jsnum.split)
  qed
  then show ?thesis by (simp add: keeps_def)
qed

lemma keeps_leased: "keeps (pull_update (\<lambda>s. s\<lparr>pp_lease := l\<rparr>))" "keeps (pull_update (\<lambda>s. s\<lparr>server_offset := off\<rparr>))"
  by (simp_all add: keeps_def leased)

lemma keeps_timing [simp]: "keeps (timing c v started)"
proof -
  have 1: "keeps (check_regression c server)" for server
    by (auto simp: check_regression_def intro!: pull_keeps_bind split: option.split)
  have 2: "keeps (note_current c current started)" for current
    by (auto simp: note_current_def intro!: pull_keeps_bind 1 keeps_leased split: option.split)
  have 3: "keeps (set_lease c current until)" for current until
    by (auto simp: set_lease_def intro!: pull_keeps_bind keeps_leased split: option.split)
  show ?thesis by (auto simp: timing_def intro!: pull_keeps_bind 2 3)
qed

lemma keeps_available [simp]: "keeps (available c started)"
  by (auto simp: available_def intro!: pull_keeps_bind split: option.split)

end

definition quiet :: "pullpoint \<Rightarrow> pullpoint \<Rightarrow> bool" where
  "quiet s t =
     (t = s\<lparr>pp_lease := pp_lease t, server_offset := server_offset t, clock_reads := clock_reads t, pp_findings := pp_findings t,
        pp_continuity := pp_continuity t\<rparr>
      \<and> (pp_continuity t = pp_continuity s \<or> pp_continuity t = Gap)
      \<and> (length (pp_findings s) \<le> 256 \<longrightarrow> length (pp_findings t) \<le> 256))"

lemma quiet_cases:
  assumes "quiet s t"
  obtains l off k f m where "t = s\<lparr>pp_lease := l, server_offset := off, clock_reads := k, pp_findings := f, pp_continuity := m\<rparr>"
    "m = pp_continuity s \<or> m = Gap" "length (pp_findings s) \<le> 256 \<longrightarrow> length f \<le> 256"
  using assms unfolding quiet_def by blast

lemma quietI:
  "m = pp_continuity s \<or> m = Gap \<Longrightarrow> (length (pp_findings s) \<le> 256 \<Longrightarrow> length f \<le> 256) \<Longrightarrow>
   quiet s (s\<lparr>pp_lease := l, server_offset := off, clock_reads := k, pp_findings := f, pp_continuity := m\<rparr>)"
  by (simp add: quiet_def)

lemma quiet_pull_trans:
  assumes "quiet s t" "quiet t u"
  shows "quiet s u"
proof (rule quiet_cases[OF assms(1)], rule quiet_cases[OF assms(2)])
  fix l off k f m l2 off2 k2 f2 m2
  assume t: "t = s\<lparr>pp_lease := l, server_offset := off, clock_reads := k, pp_findings := f, pp_continuity := m\<rparr>"
    "m = pp_continuity s \<or> m = Gap" "length (pp_findings s) \<le> 256 \<longrightarrow> length f \<le> 256"
    and u: "u = t\<lparr>pp_lease := l2, server_offset := off2, clock_reads := k2, pp_findings := f2, pp_continuity := m2\<rparr>"
    "m2 = pp_continuity t \<or> m2 = Gap" "length (pp_findings t) \<le> 256 \<longrightarrow> length f2 \<le> 256"
  have "u = s\<lparr>pp_lease := l2, server_offset := off2, clock_reads := k2, pp_findings := f2, pp_continuity := m2\<rparr>"
    using t(1) u(1) by simp
  moreover have "m2 = pp_continuity s \<or> m2 = Gap" "length (pp_findings s) \<le> 256 \<longrightarrow> length f2 \<le> 256" using t u(2,3) by auto
  ultimately show ?thesis using quietI by blast
qed

interpretation books: bookkeeping_law quiet
proof unfold_locales
  fix s t u
  show "quiet s t \<Longrightarrow> quiet t u \<Longrightarrow> quiet s u" by (rule quiet_pull_trans)
qed (auto simp: quiet_def make_room_findings_def)

lemma quiet_fields:
  assumes "quiet s t"
  shows "pp_state t = pp_state s" "pp_endpoint t = pp_endpoint s" "endpoint_gone t = endpoint_gone s"
    "cleanup_attempted t = cleanup_attempted s" "pp_generation t = pp_generation s" "restarts t = restarts s"
    "limit_negotiations t = limit_negotiations s" "request_timeout t = request_timeout s" "request_limit t = request_limit s"
    "stop_requested t = stop_requested s" "pp_aborted t = pp_aborted s" "pp_queue t = pp_queue s" "queued_bytes t = queued_bytes s"
    "delivering t = delivering s" "delivery t = delivery s" "delivery_failure t = delivery_failure s"
    "pp_failure t = pp_failure s" "delivered_count t = delivered_count s" "phase t = phase s" "pp_calls t = pp_calls s"
    "enqueued t = enqueued s" "handed t = handed s" "start_promise t = start_promise s" "stop_promise t = stop_promise s"
    "remote_promise t = remote_promise s" "unsubscribe_input t = unsubscribe_input s"
  by (rule quiet_cases[OF assms], simp)+

lemma quiet_marks: "quiet s t \<Longrightarrow> pp_continuity t = pp_continuity s \<or> pp_continuity t = Gap"
  and quiet_few: "quiet s t \<Longrightarrow> length (pp_findings s) \<le> 256 \<Longrightarrow> length (pp_findings t) \<le> 256"
  by (auto simp: quiet_def)

end
