(* ===== verification/Events_Pullpoint_Laws.thy ===== *)
theory Events_Pullpoint_Laws
  imports Events_Pullpoint_Frame
begin

section \<open>What a managed subscription promises\<close>

text \<open>
  The invariant of a subscription (\<open>core\<close>: the bounds of the delivery queue and of the negotiated limits, the
  requests that were issued, the marks of the records; \<open>phase_ok\<close>: what holds where the task awaits), that
  every event keeps it, and what follows from it in every state the events can reach.
\<close>

subsection \<open>The invariant\<close>

definition in_flight :: "pullpoint \<Rightarrow> int" where
  "in_flight s = (case delivery s of Calling r n \<Rightarrow> int n | _ \<Rightarrow> 0)"

definition queue_ok :: "pull_config \<Rightarrow> pullpoint \<Rightarrow> bool" where
  "queue_ok c s =
     (int (length (pp_queue s) + (if delivering s then 1 else 0)) \<le> max_queued_messages (pull_options c)
      \<and> queued_bytes s = (\<Sum>e\<leftarrow>pp_queue s. int (snd e)) + in_flight s
      \<and> queued_bytes s \<le> max_queued_bytes (pull_options c)
      \<and> delivering s = (\<exists>r n. delivery s = Calling r n))"

definition limits_ok :: "pull_config \<Rightarrow> pullpoint \<Rightarrow> bool" where
  "limits_ok c s =
     (0 \<le> request_timeout s \<and> request_timeout s \<le> pull_timeout (pull_options c)
      \<and> 1 \<le> request_limit s \<and> request_limit s \<le> message_limit (pull_options c)
      \<and> limit_negotiations s \<le> 2 \<and> int (restarts s) \<le> max_restarts (pull_options c) \<and> length (pp_findings s) \<le> 256)"

definition pull_in_range :: "pull_config \<Rightarrow> pull_call \<Rightarrow> bool" where
  "pull_in_range c k = (case k of
       Call_Pull t l \<Rightarrow> (\<exists>n. 0 \<le> n \<and> n \<le> pull_timeout (pull_options c) \<and> t = duration_text n)
         \<and> 1 \<le> l \<and> l \<le> message_limit (pull_options c)
     | _ \<Rightarrow> True)"

definition calls_ok :: "pull_config \<Rightarrow> pullpoint \<Rightarrow> bool" where
  "calls_ok c s =
     ((\<forall>g. count_list (pp_calls s) (g, Call_Unsubscribe) \<le> (if g = pp_generation s \<and> \<not> cleanup_attempted s then 0 else 1))
      \<and> (\<forall>e\<in>set (pp_calls s). fst e \<le> pp_generation s \<and> pull_in_range c (snd e))
      \<and> (cleanup_attempted s \<longrightarrow> (pp_generation s, Call_Unsubscribe) \<in> set (pp_calls s)))"

text \<open>
  The remote cleanup is taken for done only when there is nothing to release: no resource was created, it is
  confirmed to be gone, or its release was already tried once.
\<close>

definition remote_ok :: "pullpoint \<Rightarrow> bool" where
  "remote_ok s = (remote_promise s = Fulfilled \<longrightarrow> pp_endpoint s = None \<or> endpoint_gone s \<or> cleanup_attempted s)"

definition marked :: "event_record list \<Rightarrow> bool" where
  "marked rs =
     (\<forall>i<length rs. (rec_continuity (rs ! i) = Initial \<longrightarrow> i = 0)
        \<and> (rec_continuity (rs ! i) = Continuous \<longrightarrow> 0 < i \<and> rec_generation (rs ! i) = rec_generation (rs ! (i - 1))))"

definition marks_ok :: "pullpoint \<Rightarrow> bool" where
  "marks_ok s =
     (marked (enqueued s)
      \<and> (pp_continuity s = Initial \<longrightarrow> enqueued s = [])
      \<and> (pp_continuity s = Continuous \<longrightarrow> enqueued s \<noteq> [] \<and> rec_generation (last (enqueued s)) = pp_generation s))"

definition core :: "pull_config \<Rightarrow> pullpoint \<Rightarrow> bool" where
  "core c s = (queue_ok c s \<and> limits_ok c s \<and> calls_ok c s \<and> marks_ok s \<and> remote_ok s \<and> prefix (handed s @ map fst (pp_queue s)) (enqueued s))"

lemmas core_defs = core_def queue_ok_def limits_ok_def calls_ok_def marks_ok_def remote_ok_def in_flight_def

definition kept :: "pullpoint \<Rightarrow> bool" where
  "kept s = (enqueued s = handed s @ map fst (pp_queue s) \<and> stop_promise s = Open)"

definition whole :: "pullpoint \<Rightarrow> bool" where
  "whole s = (kept s \<and> remote_promise s = Open)"

definition clean :: "pullpoint \<Rightarrow> bool" where
  "clean s = ((pp_endpoint s = None \<or> endpoint_gone s) \<and> remote_promise s = Fulfilled)"

definition fresh_marks :: "origin \<Rightarrow> pullpoint \<Rightarrow> bool" where
  "fresh_marks via s = (if via = Starting then enqueued s = [] else pp_continuity s = Gap)"

definition phase_ok :: "pull_config \<Rightarrow> pullpoint \<Rightarrow> bool" where
  "phase_ok c s = (case phase s of
       Unstarted \<Rightarrow> whole s \<and> enqueued s = []
     | Creating via _ \<Rightarrow> whole s \<and> fresh_marks via s
     | Synchronizing via \<Rightarrow> whole s \<and> \<not> cleanup_attempted s \<and> fresh_marks via s
     | Looping \<Rightarrow> whole s \<and> \<not> cleanup_attempted s
     | Renewing _ \<Rightarrow> whole s \<and> \<not> cleanup_attempted s
     | Pulling _ \<Rightarrow> whole s \<and> \<not> cleanup_attempted s
     | Pausing \<Rightarrow> whole s \<and> \<not> cleanup_attempted s
     | Releasing \<Rightarrow> whole s \<and> pp_continuity s = Gap \<and> int (restarts s) < max_restarts (pull_options c)
     | Cleaning _ _ \<Rightarrow> whole s
     | Settling _ es \<Rightarrow> kept s \<and> (es = [] \<longrightarrow> clean s)
     | Notifying _ es \<Rightarrow> stop_promise s = Open
     | Finished \<Rightarrow> stop_promise s = Fulfilled \<longrightarrow> clean s)"

definition pull_inv :: "pull_config \<Rightarrow> pullpoint \<Rightarrow> bool" where
  "pull_inv c s = (core c s \<and> phase_ok c s)"

text \<open>What holds whenever a step throws, and in the body of the loop.\<close>

definition sane :: "pull_config \<Rightarrow> pullpoint \<Rightarrow> bool" where
  "sane c s = (core c s \<and> whole s)"

definition steady :: "pull_config \<Rightarrow> pullpoint \<Rightarrow> bool" where
  "steady c s = (core c s \<and> kept s)"

definition body :: "pull_config \<Rightarrow> pullpoint \<Rightarrow> bool" where
  "body c s = (sane c s \<and> \<not> cleanup_attempted s)"

definition options_ok :: "pull_config \<Rightarrow> bool" where
  "options_ok c =
     (0 \<le> pull_timeout (pull_options c) \<and> pull_timeout (pull_options c) \<le> 2147000000 \<and> 1 \<le> message_limit (pull_options c)
      \<and> 0 \<le> max_restarts (pull_options c) \<and> max_restarts (pull_options c) \<le> 10
      \<and> 1 \<le> max_queued_messages (pull_options c) \<and> 1 \<le> max_queued_bytes (pull_options c))"

lemma integer_within_Inr: "integer_within v most = Inr n \<longleftrightarrow> v = JNum (Whole n) \<and> 0 \<le> n \<and> n \<le> most"
  by (auto simp: integer_within_def split: js.splits jsnum.splits)

lemma settings_ok: "settings h v = Inr (pull_options c) \<Longrightarrow> options_ok c"
proof -
  have "settings h v = Inr p \<Longrightarrow> 0 \<le> pull_timeout p \<and> pull_timeout p \<le> 2147000000 \<and> 1 \<le> message_limit p
      \<and> 0 \<le> max_restarts p \<and> max_restarts p \<le> 10 \<and> 1 \<le> max_queued_messages p \<and> 1 \<le> max_queued_bytes p" for p
    by (auto simp: settings_def bind_result_Inr_iff integer_within_Inr positive_setting_def positive_integer_js_Inr split: if_splits)
  then show "settings h v = Inr (pull_options c) \<Longrightarrow> options_ok c" by (simp add: options_ok_def)
qed

subsection \<open>Bookkeeping\<close>

lemma core_findings: "core c s \<Longrightarrow> length (pp_findings s) \<le> 256"
  by (simp add: core_defs)

lemma core_quiet: "core c s \<Longrightarrow> quiet s t \<Longrightarrow> core c t"
  using quiet_marks[of s t] quiet_few[of s t] by (auto simp: core_defs quiet_fields)

lemma sane_quiet: "sane c s \<Longrightarrow> quiet s t \<Longrightarrow> sane c t"
  by (auto simp: sane_def whole_def kept_def quiet_fields intro: core_quiet)

lemma steady_quiet: "steady c s \<Longrightarrow> quiet s t \<Longrightarrow> steady c t"
  by (auto simp: steady_def kept_def quiet_fields intro: core_quiet)

lemma sane_steady: "sane c s \<Longrightarrow> steady c s"
  by (simp add: sane_def steady_def whole_def)

lemma body_quiet: "body c s \<Longrightarrow> quiet s t \<Longrightarrow> body c t"
  by (auto simp: body_def quiet_fields intro: sane_quiet)

lemma quiet_then:
  assumes "books.keeps m" "sane c s" "\<And>x t. quiet s t \<Longrightarrow> ends_in (sane c) Q (f x t)"
  shows "ends_in (sane c) Q (pull_bind m f s)"
proof -
  have n: "length (pp_findings s) \<le> 256" using assms(2) by (auto simp: sane_def dest: core_findings)
  show ?thesis unfolding ends_in_bind
    by (rule ends_in_mono[OF books.keepsD[OF assms(1) n]]) (auto intro: assms(3) sane_quiet[OF assms(2)])
qed

lemma body_sane: "body c s \<Longrightarrow> sane c s"
  by (simp add: body_def)

text \<open>A gap that is reported marks the next record.\<close>

lemma gap_then:
  assumes "sane c s" "\<And>t. quiet s t \<Longrightarrow> pp_continuity t = Gap \<Longrightarrow> ends_in (sane c) Q (f t)"
  shows "ends_in (sane c) Q (pull_bind (report c name Gap_Severity e) (\<lambda>_. f) s)"
proof -
  have g: "pp_continuity (snd (report c name Gap_Severity e s)) = Gap"
    by (auto simp: report_def pull_bind_def pull_update_def now_def Let_def split: jsnum.split)
  have n: "length (pp_findings s) \<le> 256" using assms(1) by (auto simp: sane_def dest: core_findings)
  have k: "ends_in (quiet s) (\<lambda>_. quiet s) (report c name Gap_Severity e s)" by (rule books.keepsD) (simp_all add: n)
  obtain r t where p: "report c name Gap_Severity e s = (r, t)" by fastforce
  show ?thesis using k g assms(2)[of t] sane_quiet[OF assms(1), of t]
    by (cases r) (simp_all add: ends_in_bind p)
qed

subsection \<open>The loop\<close>

lemma loop_phase: "body c s \<Longrightarrow> phase s \<in> {Looping, Pausing} \<union> range Renewing \<union> range Pulling \<Longrightarrow> pull_inv c s"
  by (auto simp: pull_inv_def phase_ok_def body_def sane_def)

lemma frame_simps [simp]:
  "queue_ok c (s\<lparr>phase := p\<rparr>) = queue_ok c s" "limits_ok c (s\<lparr>phase := p\<rparr>) = limits_ok c s"
  "calls_ok c (s\<lparr>phase := p\<rparr>) = calls_ok c s" "marks_ok (s\<lparr>phase := p\<rparr>) = marks_ok s" "whole (s\<lparr>phase := p\<rparr>) = whole s"
  "queue_ok c (s\<lparr>pp_calls := k\<rparr>) = queue_ok c s" "limits_ok c (s\<lparr>pp_calls := k\<rparr>) = limits_ok c s"
  "marks_ok (s\<lparr>pp_calls := k\<rparr>) = marks_ok s" "whole (s\<lparr>pp_calls := k\<rparr>) = whole s"
  "queue_ok c (s\<lparr>pp_state := st\<rparr>) = queue_ok c s" "limits_ok c (s\<lparr>pp_state := st\<rparr>) = limits_ok c s"
  "calls_ok c (s\<lparr>pp_state := st\<rparr>) = calls_ok c s" "marks_ok (s\<lparr>pp_state := st\<rparr>) = marks_ok s" "whole (s\<lparr>pp_state := st\<rparr>) = whole s"
  "queue_ok c (s\<lparr>stop_requested := b\<rparr>) = queue_ok c s" "limits_ok c (s\<lparr>stop_requested := b\<rparr>) = limits_ok c s"
  "calls_ok c (s\<lparr>stop_requested := b\<rparr>) = calls_ok c s" "marks_ok (s\<lparr>stop_requested := b\<rparr>) = marks_ok s"
  "whole (s\<lparr>stop_requested := b\<rparr>) = whole s"
  "queue_ok c (s\<lparr>pp_aborted := b\<rparr>) = queue_ok c s" "limits_ok c (s\<lparr>pp_aborted := b\<rparr>) = limits_ok c s"
  "calls_ok c (s\<lparr>pp_aborted := b\<rparr>) = calls_ok c s" "marks_ok (s\<lparr>pp_aborted := b\<rparr>) = marks_ok s"
  "whole (s\<lparr>pp_aborted := b\<rparr>) = whole s"
  "queue_ok c (s\<lparr>cleanup_attempted := b\<rparr>) = queue_ok c s" "limits_ok c (s\<lparr>cleanup_attempted := b\<rparr>) = limits_ok c s"
  "marks_ok (s\<lparr>cleanup_attempted := b\<rparr>) = marks_ok s" "whole (s\<lparr>cleanup_attempted := b\<rparr>) = whole s"
  "queue_ok c (s\<lparr>endpoint_gone := b\<rparr>) = queue_ok c s" "limits_ok c (s\<lparr>endpoint_gone := b\<rparr>) = limits_ok c s"
  "calls_ok c (s\<lparr>endpoint_gone := b\<rparr>) = calls_ok c s" "marks_ok (s\<lparr>endpoint_gone := b\<rparr>) = marks_ok s"
  "whole (s\<lparr>endpoint_gone := b\<rparr>) = whole s"
  "queue_ok c (settle_remote r s) = queue_ok c s" "limits_ok c (settle_remote r s) = limits_ok c s"
  "calls_ok c (settle_remote r s) = calls_ok c s" "marks_ok (settle_remote r s) = marks_ok s" "kept (settle_remote r s) = kept s"
  "kept (s\<lparr>phase := p\<rparr>) = kept s" "kept (s\<lparr>pp_state := st\<rparr>) = kept s" "kept (s\<lparr>endpoint_gone := b\<rparr>) = kept s"
  "kept (s\<lparr>stop_requested := b\<rparr>) = kept s" "kept (s\<lparr>pp_aborted := b\<rparr>) = kept s"
  "queue_ok c (s\<lparr>pp_continuity := m\<rparr>) = queue_ok c s" "limits_ok c (s\<lparr>pp_continuity := m\<rparr>) = limits_ok c s"
  "calls_ok c (s\<lparr>pp_continuity := m\<rparr>) = calls_ok c s" "whole (s\<lparr>pp_continuity := m\<rparr>) = whole s"
  "queue_ok c (s\<lparr>pp_lease := l\<rparr>) = queue_ok c s" "limits_ok c (s\<lparr>pp_lease := l\<rparr>) = limits_ok c s"
  "calls_ok c (s\<lparr>pp_lease := l\<rparr>) = calls_ok c s" "marks_ok (s\<lparr>pp_lease := l\<rparr>) = marks_ok s" "whole (s\<lparr>pp_lease := l\<rparr>) = whole s"
  "queue_ok c (s\<lparr>server_offset := off\<rparr>) = queue_ok c s" "limits_ok c (s\<lparr>server_offset := off\<rparr>) = limits_ok c s"
  "calls_ok c (s\<lparr>server_offset := off\<rparr>) = calls_ok c s" "marks_ok (s\<lparr>server_offset := off\<rparr>) = marks_ok s"
  "whole (s\<lparr>server_offset := off\<rparr>) = whole s"
  "queue_ok c (s\<lparr>restarts := n\<rparr>) = queue_ok c s" "calls_ok c (s\<lparr>restarts := n\<rparr>) = calls_ok c s"
  "marks_ok (s\<lparr>restarts := n\<rparr>) = marks_ok s" "whole (s\<lparr>restarts := n\<rparr>) = whole s"
  "queue_ok c (s\<lparr>pp_endpoint := ep\<rparr>) = queue_ok c s" "limits_ok c (s\<lparr>pp_endpoint := ep\<rparr>) = limits_ok c s"
  "calls_ok c (s\<lparr>pp_endpoint := ep\<rparr>) = calls_ok c s" "marks_ok (s\<lparr>pp_endpoint := ep\<rparr>) = marks_ok s"
  "whole (s\<lparr>pp_endpoint := ep\<rparr>) = whole s"
  "queue_ok c (s\<lparr>pp_generation := gn\<rparr>) = queue_ok c s" "limits_ok c (s\<lparr>pp_generation := gn\<rparr>) = limits_ok c s"
  "whole (s\<lparr>pp_generation := gn\<rparr>) = whole s"
  "queue_ok c (s\<lparr>pp_failure := es\<rparr>) = queue_ok c s" "limits_ok c (s\<lparr>pp_failure := es\<rparr>) = limits_ok c s"
  "calls_ok c (s\<lparr>pp_failure := es\<rparr>) = calls_ok c s" "marks_ok (s\<lparr>pp_failure := es\<rparr>) = marks_ok s" "whole (s\<lparr>pp_failure := es\<rparr>) = whole s"
  "queue_ok c (s\<lparr>stop_promise := r\<rparr>) = queue_ok c s" "limits_ok c (s\<lparr>stop_promise := r\<rparr>) = limits_ok c s"
  "calls_ok c (s\<lparr>stop_promise := r\<rparr>) = calls_ok c s" "marks_ok (s\<lparr>stop_promise := r\<rparr>) = marks_ok s"
  "queue_ok c (s\<lparr>unsubscribe_input := v\<rparr>) = queue_ok c s" "limits_ok c (s\<lparr>unsubscribe_input := v\<rparr>) = limits_ok c s"
  "calls_ok c (s\<lparr>unsubscribe_input := v\<rparr>) = calls_ok c s" "marks_ok (s\<lparr>unsubscribe_input := v\<rparr>) = marks_ok s"
  "queue_ok c (s\<lparr>start_promise := r\<rparr>) = queue_ok c s" "limits_ok c (s\<lparr>start_promise := r\<rparr>) = limits_ok c s"
  "calls_ok c (s\<lparr>start_promise := r\<rparr>) = calls_ok c s" "marks_ok (s\<lparr>start_promise := r\<rparr>) = marks_ok s"
  "whole (s\<lparr>start_promise := r\<rparr>) = whole s"
  "remote_ok (s\<lparr>phase := p\<rparr>) = remote_ok s" "remote_ok (s\<lparr>pp_calls := k\<rparr>) = remote_ok s"
  "remote_ok (s\<lparr>pp_state := st\<rparr>) = remote_ok s" "remote_ok (s\<lparr>stop_requested := b\<rparr>) = remote_ok s"
  "remote_ok (s\<lparr>pp_aborted := b\<rparr>) = remote_ok s" "remote_ok (s\<lparr>pp_continuity := m\<rparr>) = remote_ok s"
  "remote_ok (s\<lparr>pp_lease := l\<rparr>) = remote_ok s" "remote_ok (s\<lparr>server_offset := off\<rparr>) = remote_ok s"
  "remote_ok (s\<lparr>restarts := n\<rparr>) = remote_ok s" "remote_ok (s\<lparr>pp_generation := gn\<rparr>) = remote_ok s"
  "remote_ok (s\<lparr>pp_failure := es\<rparr>) = remote_ok s" "remote_ok (s\<lparr>stop_promise := r\<rparr>) = remote_ok s"
  "remote_ok (s\<lparr>unsubscribe_input := v\<rparr>) = remote_ok s" "remote_ok (s\<lparr>start_promise := r\<rparr>) = remote_ok s"
  "remote_ok (s\<lparr>endpoint_gone := True\<rparr>)" "remote_ok (s\<lparr>cleanup_attempted := True\<rparr>)"
  "pr \<noteq> Fulfilled \<Longrightarrow> remote_ok (settle_remote pr s)"
  by (simp_all add: core_defs whole_def kept_def settle_remote_def)

lemma remote_frame [simp]:
  "remote_ok (s\<lparr>request_timeout := n\<rparr>) = remote_ok s"
  "remote_ok (s\<lparr>request_limit := n\<rparr>) = remote_ok s"
  "remote_ok (s\<lparr>limit_negotiations := k\<rparr>) = remote_ok s"
  "remote_ok (s\<lparr>pp_queue := q\<rparr>) = remote_ok s"
  "remote_ok (s\<lparr>queued_bytes := n\<rparr>) = remote_ok s"
  "remote_ok (s\<lparr>enqueued := rs\<rparr>) = remote_ok s"
  "remote_ok (s\<lparr>handed := rs\<rparr>) = remote_ok s"
  "remote_ok (s\<lparr>delivering := b\<rparr>) = remote_ok s"
  "remote_ok (s\<lparr>delivery := d\<rparr>) = remote_ok s"
  "remote_ok (s\<lparr>delivered_count := k\<rparr>) = remote_ok s"
  "remote_ok (s\<lparr>delivery_failure := x\<rparr>) = remote_ok s"
  "remote_ok (s\<lparr>clock_reads := k\<rparr>) = remote_ok s"
  "remote_ok (s\<lparr>pp_findings := ds\<rparr>) = remote_ok s"
  "remote_ok (pull_drain s) = remote_ok s"
  by (auto simp: remote_ok_def pull_drain_def split: list.split)

lemma remote_ok_open: "remote_promise s = Open \<Longrightarrow> remote_ok s"
  by (simp add: remote_ok_def)

lemma calls_ok_issue:
  "calls_ok c s \<Longrightarrow> k \<noteq> Call_Unsubscribe \<Longrightarrow> pull_in_range c k \<Longrightarrow> calls_ok c (s\<lparr>pp_calls := pp_calls s @ [(pp_generation s, k)]\<rparr>)"
  by (simp add: calls_ok_def)

lemma calls_ok_release:
  assumes "calls_ok c s" "\<not> cleanup_attempted s"
  shows "calls_ok c (s\<lparr>cleanup_attempted := True, pp_calls := pp_calls s @ [(pp_generation s, Call_Unsubscribe)]\<rparr>)"
proof -
  have n: "count_list (pp_calls s) (g, Call_Unsubscribe) \<le> (if g = pp_generation s then 0 else 1)" for g
    using assms by (auto simp: calls_ok_def)
  have "count_list (pp_calls s @ [(pp_generation s, Call_Unsubscribe)]) (g, Call_Unsubscribe) \<le> 1" for g
    using n[of g] by (simp split: if_splits)
  then show ?thesis using assms by (simp add: calls_ok_def pull_in_range_def)
qed

lemma body_issue:
  assumes "body c s" "k \<noteq> Call_Unsubscribe" "pull_in_range c k"
  shows "body c (s\<lparr>pp_calls := pp_calls s @ [(pp_generation s, k)], phase := p\<rparr>)"
  using assms calls_ok_issue[of c s k] by (simp add: body_def sane_def core_def)

lemma body_phase: "body c s \<Longrightarrow> body c (s\<lparr>phase := p\<rparr>)"
  by (simp add: body_def sane_def core_def)

lemma started_pull:
  assumes "body c s" "options_ok c"
  shows "ends_in (sane c) (\<lambda>_. pull_inv c) (start_pull c started s)"
proof -
  have n: "length (pp_findings s) \<le> 256" using assms(1) by (auto simp: body_def sane_def dest: core_findings)
  have r: "0 \<le> request_timeout s" using assms(1) by (simp add: body_def sane_def core_defs)
  have a: "ends_in (sane c) (\<lambda>a t. quiet s t \<and> a \<ge> 0) (available c started s)"
  proof -
    have k: "ends_in (quiet s) (\<lambda>_. quiet s) (available c started s)" by (rule books.keepsD) (simp_all add: n)
    moreover have "ends_in (\<lambda>_. True) (\<lambda>a t. a \<ge> 0) (available c started s)"
      using r by (auto simp: available_def ends_in_bind now_def Let_def split: option.split jsnum.split)
    ultimately show ?thesis using sane_quiet[OF body_sane[OF assms(1)]]
      by (cases "available c started s"; cases "fst (available c started s)") auto
  qed
  show ?thesis unfolding start_pull_def ends_in_bind
  proof (rule ends_in_mono[OF a], goal_cases)
    case (2 a t)
    then have b: "body c t" and f: "request_timeout t = request_timeout s" using body_quiet[OF assms(1)] by (auto simp: quiet_fields)
    have "pull_in_range c (Call_Pull (duration_text (min (request_timeout t) a)) (request_limit t))"
      using b 2 r f by (auto simp: pull_in_range_def body_def sane_def core_defs intro!: exI[of _ "min (request_timeout s) a"])
    then have "body c (t\<lparr>pp_calls := pp_calls t @ [(pp_generation t, Call_Pull (duration_text (min (request_timeout t) a)) (request_limit t))],
        phase := Pulling started\<rparr>)"
      by (intro body_issue[OF b]) simp
    from loop_phase[OF this] show ?case by (simp add: issue_def)
  qed simp
qed

lemma released_core:
  assumes "core c s" "\<not> cleanup_attempted s"
  shows "core c (issue_release p s)"
  using assms calls_ok_release[of c s] by (simp add: core_def issue_release_def)

lemma finish_core: assumes "core c s" shows "core c (begin_finish f e s)"
proof -
  let ?t = "s\<lparr>stop_requested := True, pp_aborted := True, pp_state := Sub_Closing\<rparr>"
  have t: "core c ?t" using assms by (simp add: core_def)
  show ?thesis
  proof (cases "needs_release ?t")
    case True
    then show ?thesis using released_core[OF t] by (simp add: begin_finish_def Let_def needs_release_def)
  next
    case False
    then have "remote_ok (settle_remote Fulfilled (?t\<lparr>phase := p\<rparr>))" for p
      by (auto simp: needs_release_def remote_ok_def settle_remote_def)
    with False show ?thesis using t by (simp add: begin_finish_def Let_def core_def) (simp add: settle_remote_def)
  qed
qed

lemma sane_finish: assumes "sane c s" shows "pull_inv c (begin_finish f (Some e) s)"
proof -
  have "phase_ok c (begin_finish f (Some e) s)" using assms
    by (simp add: phase_ok_def begin_finish_def Let_def issue_release_def settle_remote_def sane_def whole_def kept_def needs_release_def)
  then show ?thesis using assms by (simp add: pull_inv_def finish_core sane_def)
qed

lemma body_return: assumes "body c s" shows "pull_inv c (begin_finish False None s)"
proof -
  have "phase_ok c (begin_finish False None s)" using assms
    by (auto simp: phase_ok_def begin_finish_def Let_def issue_release_def settle_remote_def body_def sane_def whole_def kept_def needs_release_def clean_def)
  then show ?thesis using assms by (simp add: pull_inv_def finish_core sane_def body_def)
qed

lemma guarded_inv: "ends_in (sane c) (\<lambda>_. pull_inv c) (m s) \<Longrightarrow> pull_inv c (guarded_task f m s)"
  by (auto simp: guarded_task_def ends_in_def intro: sane_finish split: prod.splits sum.splits)

subsection \<open>Creating and recovering\<close>

lemma sane_findings: "sane c s \<Longrightarrow> length (pp_findings s) \<le> 256"
  by (simp add: sane_def core_defs)

lemma fresh_quiet: "fresh_marks via s \<Longrightarrow> quiet s t \<Longrightarrow> fresh_marks via t"
  using quiet_marks[of s t] by (auto simp: fresh_marks_def quiet_fields)

lemma begun_create:
  assumes "sane c s" "fresh_marks via s"
  shows "ends_in (sane c) (\<lambda>_. pull_inv c) (begin_create c via s)"
  unfolding begin_create_def
proof (rule quiet_then[OF _ assms(1)])
  fix x t
  assume q: "quiet s t"
  have t: "sane c t" "fresh_marks via t" using sane_quiet[OF assms(1) q] fresh_quiet[OF assms(2) q] by auto
  then show "ends_in (sane c) (\<lambda>_. pull_inv c) (issue Call_Create (Creating via x) t)"
    using calls_ok_issue[of c t Call_Create]
    by (simp add: issue_def pull_inv_def phase_ok_def sane_def core_def pull_in_range_def fresh_marks_def)
qed simp

lemma marks_gap: "marks_ok s \<Longrightarrow> marks_ok (s\<lparr>pp_continuity := Gap\<rparr>)"
  by (simp add: marks_ok_def)

lemma finished_create:
  assumes "body c s" "fresh_marks via s"
  shows "ends_in (sane c) (\<lambda>_. pull_inv c) (finish_create c via s)"
proof -
  let ?s = "s\<lparr>pp_state := Sub_Active\<rparr>"
  have b: "body c ?s" using assms(1) by (simp add: body_def sane_def core_def)
  have "ends_in (sane c) (\<lambda>_. pull_inv c)
      (pull_bind (report c ''SubscriptionCreated'' Info None) (\<lambda>_. pull_update (\<lambda>s. case via of
           Starting \<Rightarrow> s\<lparr>start_promise := Fulfilled, phase := Looping\<rparr>
         | Restarting \<Rightarrow> s\<lparr>pp_continuity := Gap, phase := Looping\<rparr>)) ?s)"
  proof (rule quiet_then[OF _ body_sane[OF b]])
    fix t
    assume q: "quiet ?s t"
    have t: "body c t" by (rule body_quiet[OF b q])
    then have g: "marks_ok (t\<lparr>pp_continuity := Gap\<rparr>)" by (simp add: body_def sane_def core_def marks_gap)
    have "body c (t\<lparr>start_promise := Fulfilled, phase := Looping\<rparr>)" using t by (simp add: body_def sane_def core_def)
    moreover have "body c (t\<lparr>pp_continuity := Gap, phase := Looping\<rparr>)" using t g
      by (simp add: body_def sane_def core_def)
    ultimately show "ends_in (sane c) (\<lambda>_. pull_inv c) (pull_update (\<lambda>s. case via of
           Starting \<Rightarrow> s\<lparr>start_promise := Fulfilled, phase := Looping\<rparr>
         | Restarting \<Rightarrow> s\<lparr>pp_continuity := Gap, phase := Looping\<rparr>) t)"
      by (auto intro: loop_phase split: origin.split)
  qed simp
  then show ?thesis by (simp add: finish_create_def ends_in_bind)
qed

lemma entered_core:
  assumes "sane c s" "fresh_marks via s"
  shows "body c (s\<lparr>pp_endpoint := e, cleanup_attempted := False, endpoint_gone := g, pp_generation := Suc (pp_generation s)\<rparr>)"
proof -
  have o: "count_list (pp_calls s) (Suc (pp_generation s), Call_Unsubscribe) = 0"
    using assms(1) by (intro count_list_0_iff[THEN iffD2]) (auto simp: sane_def core_def calls_ok_def)
  have "count_list (pp_calls s) (n, Call_Unsubscribe) \<le> 1" for n
    using assms(1) by (auto simp: sane_def core_def calls_ok_def dest!: spec[of _ n] split: if_splits)
  then have k: "calls_ok c (s\<lparr>pp_endpoint := e, cleanup_attempted := False, endpoint_gone := g, pp_generation := Suc (pp_generation s)\<rparr>)"
    using assms(1) o by (auto simp: sane_def core_def calls_ok_def)
  have "pp_continuity s \<noteq> Continuous"
    using assms by (auto simp: fresh_marks_def sane_def core_def marks_ok_def split: if_splits)
  then have "marks_ok (s\<lparr>pp_endpoint := e, cleanup_attempted := False, endpoint_gone := g, pp_generation := Suc (pp_generation s)\<rparr>)"
    using assms(1) by (simp add: sane_def core_def marks_ok_def)
  then show ?thesis using assms(1) k by (simp add: body_def sane_def core_def whole_def kept_def remote_ok_open)
qed

lemma created_inv:
  assumes "sane c s" "fresh_marks via s"
  shows "ends_in (sane c) (\<lambda>_. pull_inv c) (created c via started reply s)"
proof (cases reply)
  case (Exec_Failed e)
  then show ?thesis using assms by (simp add: created_def)
next
  case (Exec_Ok v xml)
  have "ends_in (sane c) (\<lambda>_. pull_inv c) (pull_bind (timing c v started) (\<lambda>_.
      if wants_synchronize (pull_options c) \<and> can_synchronize c then issue Call_Synchronize (Synchronizing via)
      else finish_create c via) t)" if b: "body c t" and f: "fresh_marks via t" for t
  proof (rule quiet_then[OF _ body_sane[OF b]])
    fix u
    assume q: "quiet t u"
    have u: "body c u" "fresh_marks via u" using body_quiet[OF b q] fresh_quiet[OF f q] by auto
    then have "pull_inv c (u\<lparr>pp_calls := pp_calls u @ [(pp_generation u, Call_Synchronize)], phase := Synchronizing via\<rparr>)"
      using calls_ok_issue[of c u Call_Synchronize]
      by (simp add: pull_inv_def phase_ok_def body_def sane_def core_def pull_in_range_def fresh_marks_def)
    then show "ends_in (sane c) (\<lambda>_. pull_inv c) ((if wants_synchronize (pull_options c) \<and> can_synchronize c
        then issue Call_Synchronize (Synchronizing via) else finish_create c via) u)"
      using finished_create[OF u] by (simp add: issue_def)
  qed simp
  moreover have "fresh_marks via (s\<lparr>pp_endpoint := e, cleanup_attempted := False, endpoint_gone := False, pp_generation := Suc (pp_generation s)\<rparr>)" for e
    using assms(2) by (simp add: fresh_marks_def)
  ultimately show ?thesis using entered_core[OF assms] assms(1)
    by (auto simp: created_def Exec_Ok ends_in_bind ends_in_lift body_sane split: sum.split)
qed

lemma restarted:
  assumes "sane c s" "pp_continuity s = Gap" "int (restarts s) < max_restarts (pull_options c)"
  shows "ends_in (sane c) (\<lambda>_. pull_inv c) (restart c s)"
proof -
  have "sane c (s\<lparr>pp_lease := None, server_offset := None, restarts := Suc (restarts s)\<rparr>)"
    using assms(1,3) by (simp add: sane_def core_def) (simp add: limits_ok_def)
  then show ?thesis using assms(2) by (auto simp: restart_def ends_in_bind fresh_marks_def intro!: begun_create)
qed

lemma recovered:
  assumes "sane c s"
  shows "ends_in (sane c) (\<lambda>_. pull_inv c) (recover c reason gone s)"
  unfolding recover_def
proof (rule gap_then[OF assms])
  fix t
  assume q: "quiet s t" and g: "pp_continuity t = Gap"
  let ?t = "t\<lparr>endpoint_gone := gone\<rparr>"
  let ?r = "?t\<lparr>pp_state := Sub_Recovering\<rparr>"
  have t: "sane c ?t" "sane c ?r" using sane_quiet[OF assms q] by (auto simp: sane_def core_def whole_def intro: remote_ok_open)
  have "pull_inv c (issue_release Releasing ?r)" if "needs_release ?r" "int (restarts t) < max_restarts (pull_options c)"
    using released_core[of c ?r] t(2) that g
    by (simp add: pull_inv_def phase_ok_def issue_release_def sane_def needs_release_def whole_def kept_def)
  moreover have "ends_in (sane c) (\<lambda>_. pull_inv c) (restart c ?r)" if "int (restarts t) < max_restarts (pull_options c)"
    by (rule restarted[OF t(2)]) (use g that in simp_all)
  ultimately show "ends_in (sane c) (\<lambda>_. pull_inv c) (pull_bind (pull_update (\<lambda>s. s\<lparr>endpoint_gone := gone\<rparr>)) (\<lambda>_.
      pull_bind (pull_read (\<lambda>s. restart_on_expiry (pull_options c) \<and> int (restarts s) < max_restarts (pull_options c))) (\<lambda>allowed.
        if \<not> allowed then pull_fail (unknown_error OutcomeUnknown)
        else pull_bind (pull_update (\<lambda>s. s\<lparr>pp_state := Sub_Recovering\<rparr>)) (\<lambda>_.
          pull_bind (pull_read needs_release) (\<lambda>needed. if needed then pull_update (issue_release Releasing) else restart c)))) t)"
    using t by (simp add: ends_in_bind)
qed

lemma released_sane:
  assumes "sane c s"
  shows "ends_in (sane c) (\<lambda>_ t. sane c t \<and> (pp_continuity s = Gap \<longrightarrow> pp_continuity t = Gap) \<and> restarts t = restarts s
     \<and> endpoint_gone t) (released c reply s)"
proof -
  let ?s = "s\<lparr>endpoint_gone := True\<rparr>"
  have t: "sane c ?s" using assms by (simp add: sane_def core_def)
  have "ends_in (sane c) (\<lambda>_ t. sane c t \<and> (pp_continuity s = Gap \<longrightarrow> pp_continuity t = Gap) \<and> restarts t = restarts s \<and> endpoint_gone t)
      (report c ''CleanupResourceAbsent'' Info e ?s)" for e
    by (rule ends_in_mono[OF books.keepsD[OF books.keeps_report sane_findings[OF t]]])
      (use sane_quiet[OF t] quiet_marks in \<open>fastforce simp: quiet_fields\<close>)+
  then show ?thesis using t assms by (auto simp: released_def ends_in_bind split: exec_reply.split)
qed

subsection \<open>Pulling\<close>

lemma looped:
  assumes "body c s" "options_ok c"
  shows "ends_in (sane c) (\<lambda>_. pull_inv c) (loop_head c s)"
proof -
  have "ends_in (sane c) (\<lambda>_. pull_inv c) (pull_bind (now c) (\<lambda>started.
     pull_bind (pull_read pp_lease) (\<lambda>lease. case lease of
         None \<Rightarrow> pull_fail (Plain_Error (OnvifError InvalidValue NotSent))
       | Some l \<Rightarrow>
           if expired started l then recover c ''LeaseExpired'' False
           else if must_renew c started l then issue Call_Renew (Renewing started)
           else start_pull c started)) s)"
  proof (rule quiet_then[OF _ body_sane[OF assms(1)]])
    fix x t
    assume "quiet s t"
    then have t: "body c t" by (rule body_quiet[OF assms(1)])
    have "body c (t\<lparr>pp_calls := pp_calls t @ [(pp_generation t, Call_Renew)], phase := Renewing x\<rparr>)"
      by (rule body_issue[OF t]) (simp_all add: pull_in_range_def)
    then show "ends_in (sane c) (\<lambda>_. pull_inv c) (pull_bind (pull_read pp_lease) (\<lambda>lease. case lease of
         None \<Rightarrow> pull_fail (Plain_Error (OnvifError InvalidValue NotSent))
       | Some l \<Rightarrow> if expired x l then recover c ''LeaseExpired'' False
           else if must_renew c x l then issue Call_Renew (Renewing x) else start_pull c x) t)"
      using recovered[OF body_sane[OF t]] started_pull[OF t assms(2)] body_sane[OF t] loop_phase
      by (auto simp: ends_in_bind issue_def split: option.split)
  qed simp
  then show ?thesis using body_return[OF assms(1)] body_sane[OF assms(1)]
    by (simp add: loop_head_def iterate_loop_def return_run_def ends_in_bind ends_in_fail_if split: option.split)
qed

lemma gap_fail: "sane c s \<Longrightarrow> ends_in (sane c) Q (pull_bind (report c name Gap_Severity e) (\<lambda>_. pull_fail x) s)"
  by (rule gap_then) (auto intro: sane_quiet)

lemma gap_return: "body c s \<Longrightarrow> ends_in (sane c) (\<lambda>_. pull_inv c) (pull_bind (report c name Gap_Severity e) (\<lambda>_. return_run) s)"
  by (rule gap_then) (auto intro: body_sane body_return body_quiet simp: return_run_def)

lemma renewed_inv:
  assumes "body c s" "options_ok c"
  shows "ends_in (sane c) (\<lambda>_. pull_inv c) (renewed c started reply s)"
proof (cases reply)
  case (Exec_Failed e)
  then show ?thesis using gap_fail[OF body_sane[OF assms(1)], of "\<lambda>_::unit. pull_inv c"] gap_return[OF assms(1)] recovered[OF body_sane[OF assms(1)]]
    by (simp add: renewed_def ends_in_bind[of _ _ "pull_read stop_requested"])
next
  case (Exec_Ok v xml)
  have k: "books.keeps (pull_bind (timing c v started) (\<lambda>_. report c ''SubscriptionRenewed'' Info None))"
    by (rule books.pull_keeps_bind) simp_all
  have "ends_in (sane c) (\<lambda>_. pull_inv c) (pull_bind (timing c v started) (\<lambda>_. pull_bind (report c ''SubscriptionRenewed'' Info None)
      (\<lambda>_. start_pull c started)) s)"
  proof (rule quiet_then[OF _ body_sane[OF assms(1)]])
    fix t
    assume "quiet s t"
    then have t: "body c t" by (rule body_quiet[OF assms(1)])
    show "ends_in (sane c) (\<lambda>_. pull_inv c) (pull_bind (report c ''SubscriptionRenewed'' Info None) (\<lambda>_. start_pull c started) t)"
      by (rule quiet_then[OF _ body_sane[OF t]]) (auto intro: started_pull assms(2) body_quiet[OF t])
  qed simp
  then show ?thesis by (simp add: renewed_def Exec_Ok)
qed

lemma reduced:
  assumes "body c s" "limit_negotiations s < 2" "0 \<le> fst l" "0 < snd l"
  shows "ends_in (sane c) (\<lambda>_. body c) (reduce_limits c l s)"
proof -
  let ?s = "s\<lparr>request_timeout := min (request_timeout s) (fst l), request_limit := min (request_limit s) (snd l),
      limit_negotiations := Suc (limit_negotiations s)\<rparr>"
  have "limits_ok c ?s" using assms by (auto simp: body_def sane_def core_def limits_ok_def)
  moreover have "queue_ok c ?s = queue_ok c s" "calls_ok c ?s = calls_ok c s" "marks_ok ?s = marks_ok s" "whole ?s = whole s"
    by (simp_all add: queue_ok_def in_flight_def calls_ok_def marks_ok_def whole_def kept_def)
  ultimately have b: "body c ?s" using assms(1) by (simp add: body_def sane_def core_def)
  have "ends_in (sane c) (\<lambda>_. body c) (pull_bind (report c ''ServerRequestLimits'' Info None) (\<lambda>_. pull_read (\<lambda>_. True)) ?s)"
    by (rule quiet_then[OF _ body_sane[OF b]]) (auto intro: body_quiet[OF b])
  then show ?thesis using assms(1) by (auto simp: reduce_limits_def ends_in_bind[of _ _ "pull_read _"] ends_in_bind[of _ _ "pull_update _"])
qed

lemma advertised: "advertised_limits c v = Inr l \<Longrightarrow> 0 \<le> fst l \<and> 0 < snd l"
  by (auto simp: advertised_limits_def bind_result_Inr_iff not_less split: js.splits jsnum.splits if_splits)

lemma limited:
  assumes "body c s"
  shows "ends_in (sane c) (\<lambda>_. body c) (limit_fault c e s)"
  using assms body_sane[OF assms]
  by (auto simp: limit_fault_def ends_in_bind[of _ _ "pull_read _"] ends_in_bind[of _ _ "pull_lift _"] ends_in_lift not_le
      dest!: advertised intro: reduced split: event_error.split option.split sum.split)

lemma pull_failed_inv:
  assumes "body c s" "options_ok c"
  shows "ends_in (sane c) (\<lambda>_. pull_inv c) (pull_failed c e s)"
proof -
  have "ends_in (sane c) (\<lambda>_. pull_inv c) (pull_bind (limit_fault c e) (after_limits c e) s)"
    unfolding ends_in_bind[of _ _ "limit_fault c e"]
  proof (rule ends_in_mono[OF limited[OF assms(1)]])
    fix b t
    assume t: "body c t"
    show "ends_in (sane c) (\<lambda>_. pull_inv c) (after_limits c e b t)"
      using looped[OF t assms(2)] recovered[OF body_sane[OF t]] gap_fail[OF body_sane[OF t], of "\<lambda>_::unit. pull_inv c"]
      by (simp add: after_limits_def)
  qed simp
  then show ?thesis using gap_return[OF assms(1)] body_sane[OF assms(1)]
    by (simp add: pull_failed_def ends_in_bind[of _ _ "pull_read _"] ends_in_bind[of _ _ "fail_if _"] ends_in_fail_if split: option.split)
qed

subsection \<open>Accepting messages\<close>

lemma marked_snoc:
  assumes "marked rs" "rec_continuity r = Initial \<Longrightarrow> rs = []"
    "rec_continuity r = Continuous \<Longrightarrow> rs \<noteq> [] \<and> rec_generation (last rs) = rec_generation r"
  shows "marked (rs @ [r])"
  using assms by (auto simp: marked_def nth_append last_conv_nth less_Suc_eq)

lemma drained_queue:
  assumes "queue_ok c s" "delivering s = False" "\<nexists>r n. delivery s = Calling r n"
  shows "queue_ok c (pull_drain s)"
  using assms by (auto simp: pull_drain_def queue_ok_def in_flight_def split: list.split delivery_task.splits)

lemma drain_fields [simp]:
  "limits_ok c (pull_drain s) = limits_ok c s" "calls_ok c (pull_drain s) = calls_ok c s" "marks_ok (pull_drain s) = marks_ok s"
  "handed (pull_drain s) @ map fst (pp_queue (pull_drain s)) = handed s @ map fst (pp_queue s)" "enqueued (pull_drain s) = enqueued s"
  "phase (pull_drain s) = phase s" "stop_promise (pull_drain s) = stop_promise s" "cleanup_attempted (pull_drain s) = cleanup_attempted s"
  "pp_continuity (pull_drain s) = pp_continuity s" "pp_generation (pull_drain s) = pp_generation s" "pp_endpoint (pull_drain s) = pp_endpoint s"
  "endpoint_gone (pull_drain s) = endpoint_gone s" "remote_promise (pull_drain s) = remote_promise s" "restarts (pull_drain s) = restarts s"
  "pp_calls (pull_drain s) = pp_calls s" "stop_requested (pull_drain s) = stop_requested s"
  by (auto simp: pull_drain_def limits_ok_def calls_ok_def marks_ok_def split: list.split)

lemma enqueue_inv:
  assumes "body c s" "rec_continuity r = pp_continuity s" "rec_generation r = pp_generation s"
  shows "ends_in (sane c) (\<lambda>_ t. body c (t\<lparr>pp_continuity := Continuous\<rparr>)) (enqueue c r s)"
proof -
  let ?n = "pull_bytes c (rec_value r)"
  let ?s = "s\<lparr>pp_queue := pp_queue s @ [(r, ?n)], queued_bytes := queued_bytes s + int ?n, enqueued := enqueued s @ [r]\<rparr>"
  have o: "ends_in (sane c) Q (pull_bind (report c name Gap_Severity None) (\<lambda>_. pull_fail e) s)" for Q :: "unit \<Rightarrow> pullpoint \<Rightarrow> bool" and name e
    by (rule gap_fail[OF body_sane[OF assms(1)]])
  have m: "marked (enqueued s @ [r])"
    using assms by (intro marked_snoc) (auto simp: body_def sane_def core_def marks_ok_def)
  have "body c (t\<lparr>pp_continuity := Continuous\<rparr>)" if t: "t = ?s \<or> delivery s = No_Delivery \<and> t = pull_drain ?s"
    and room: "int (length (pp_queue s) + (if delivering s then 1 else 0)) < max_queued_messages (pull_options c)"
      "queued_bytes s + int ?n \<le> max_queued_bytes (pull_options c)" for t
  proof -
    have q: "queue_ok c ?s" using assms(1) room by (auto simp: body_def sane_def core_def queue_ok_def in_flight_def)
    moreover have "queue_ok c (pull_drain ?s)" if "delivery s = No_Delivery"
      by (rule drained_queue[OF q]) (use that assms(1) in \<open>auto simp: body_def sane_def core_def queue_ok_def\<close>)
    ultimately have "queue_ok c t" using t by auto
    moreover have l: "limits_ok c ?s = limits_ok c s" "calls_ok c ?s = calls_ok c s" by (simp_all add: limits_ok_def calls_ok_def)
    moreover have "limits_ok c t = limits_ok c s" "calls_ok c t = calls_ok c s" "enqueued t = enqueued s @ [r]"
      "handed t @ map fst (pp_queue t) = handed s @ map fst (pp_queue s) @ [r]" "stop_promise t = stop_promise s"
      "cleanup_attempted t = cleanup_attempted s" "pp_generation t = pp_generation s"
      "remote_promise t = remote_promise s" "remote_ok t = remote_ok s"
      using t by (auto simp: l)
    ultimately show ?thesis using assms(1,3) m by (simp add: body_def sane_def core_def whole_def kept_def marks_ok_def)
  qed
  then show ?thesis using o
    by (auto simp: enqueue_def Let_def ends_in_bind[of _ _ "pull_read _"] ends_in_bind[of _ _ "pull_update _"] not_le not_less)
qed

lemma accepted_message:
  assumes "body c s"
  shows "ends_in (sane c) (\<lambda>_. body c) (accept_message c lease m s)"
  unfolding accept_message_def
proof (rule quiet_then[OF _ body_sane[OF assms]])
  fix x t
  assume "quiet s t"
  then have t: "body c t" by (rule body_quiet[OF assms])
  let ?r = "\<lparr>rec_value = fst m, rec_xml = snd m, rec_received = x, rec_current = lease_current lease,
       rec_termination = lease_termination lease, rec_generation = pp_generation t, rec_continuity = pp_continuity t\<rparr>"
  have "ends_in (sane c) (\<lambda>_ u. body c (u\<lparr>pp_continuity := Continuous\<rparr>)) (enqueue c ?r t)"
    by (rule enqueue_inv[OF t]) simp_all
  then show "ends_in (sane c) (\<lambda>_. body c) (pull_bind (pull_read (\<lambda>s. \<lparr>rec_value = fst m, rec_xml = snd m, rec_received = x,
       rec_current = lease_current lease, rec_termination = lease_termination lease, rec_generation = pp_generation s,
       rec_continuity = pp_continuity s\<rparr>)) (\<lambda>r. pull_bind (enqueue c r) (\<lambda>_. pull_update (\<lambda>s. s\<lparr>pp_continuity := Continuous\<rparr>))) t)"
    by (simp add: ends_in_bind)
qed simp

lemma accepted_messages:
  assumes "body c s"
  shows "ends_in (sane c) (\<lambda>_. body c) (accept_messages c lease ms s)"
  using assms
proof (induction ms arbitrary: s)
  case Nil
  then show ?case by simp
next
  case (Cons m ms)
  show ?case unfolding accept_messages.simps ends_in_bind
    by (rule ends_in_mono[OF accepted_message[OF Cons.prems]]) (auto intro: Cons.IH)
qed

lemma paused:
  assumes "body c s" "options_ok c"
  shows "ends_in (sane c) (\<lambda>_. pull_inv c) (pause c started s)"
  unfolding pause_def
  by (rule quiet_then[OF _ body_sane[OF assms(1)]])
    (auto intro!: looped assms(2) loop_phase[OF body_phase] body_quiet[OF assms(1)])

lemma pulled_inv:
  assumes "body c s" "options_ok c"
  shows "ends_in (sane c) (\<lambda>_. pull_inv c) (pulled c started reply s)"
proof (cases reply)
  case (Exec_Failed e)
  then show ?thesis using pull_failed_inv[OF assms] by (simp add: pulled_def)
next
  case (Exec_Ok v xml)
  have a: "ends_in (sane c) (\<lambda>_. pull_inv c) (pull_bind (accept_messages c l ms) (\<lambda>_. pause c started) t)" if "body c t" for l ms t
    unfolding ends_in_bind by (rule ends_in_mono[OF accepted_messages[OF that]]) (auto intro: paused assms(2))
  show ?thesis unfolding pulled_def Exec_Ok exec_reply.case
  proof (rule quiet_then[OF _ body_sane[OF assms(1)]])
    fix t
    assume "quiet s t"
    then have t: "body c t" by (rule body_quiet[OF assms(1)])
    show "ends_in (sane c) (\<lambda>_. pull_inv c) (pull_bind (pull_read (\<lambda>s. (stop_requested s, request_limit s, pp_lease s))) (\<lambda>(stopped, limit, lease).
            if stopped then return_run
            else pull_bind (pull_lift (notifications limit v xml)) (\<lambda>ms. case lease of
                  None \<Rightarrow> pull_fail (Plain_Error (OnvifError InvalidValue NotSent))
                | Some l \<Rightarrow> pull_bind (accept_messages c l ms) (\<lambda>_. pause c started))) t)"
      using body_return[OF t] body_sane[OF t] a[OF t]
      by (auto simp: ends_in_bind[of _ _ "pull_read _"] ends_in_bind[of _ _ "pull_lift _"] ends_in_lift return_run_def
          split: option.split sum.split)
  qed simp
qed

lemma slept_inv:
  assumes "body c s" "options_ok c"
  shows "ends_in (sane c) (\<lambda>_. pull_inv c) (slept c outcome s)"
  using looped[OF assms] body_sane[OF assms(1)]
  by (simp add: slept_def ends_in_bind ends_in_fail_if split: option.split)

subsection \<open>Finishing\<close>

lemma threw_inv: "core c s \<Longrightarrow> stop_promise s = Open \<Longrightarrow> pull_inv c (finish_threw f e s)"
  by (simp add: pull_inv_def finish_threw_def phase_ok_def core_def)

lemma finish_report:
  assumes "steady c s" "\<And>t. quiet s t \<Longrightarrow> pull_inv c (g t)"
  shows "pull_inv c (finish_step f g (report c name sev e) s)"
proof -
  obtain r t where p: "report c name sev e s = (r, t)" by fastforce
  have "length (pp_findings s) \<le> 256" using assms(1) by (auto simp: steady_def dest: core_findings)
  then have "quiet s t" using books.keepsD[OF books.keeps_report, of s c name sev e]
    by (cases r) (simp_all add: p)
  then show ?thesis using assms steady_quiet[OF assms(1), of t]
    by (cases r) (simp_all add: finish_step_def p threw_inv steady_def kept_def)
qed

lemma cleaned_inv:
  assumes "sane c s"
  shows "pull_inv c (cleaned c f es reply s)"
proof -
  obtain r t where p: "released c reply s = (r, t)" by fastforce
  show ?thesis
  proof (cases r)
    case (Inr x)
    have t: "sane c t" "endpoint_gone t" using released_sane[OF assms, of reply] by (simp_all add: p Inr)
    have "phase_ok c (settle_remote Fulfilled (t\<lparr>phase := Settling f es\<rparr>))"
      using t by (simp add: phase_ok_def sane_def clean_def settle_remote_def whole_def kept_def)
    moreover have "remote_ok (settle_remote Fulfilled (t\<lparr>phase := Settling f es\<rparr>))"
      using t(2) by (simp add: remote_ok_def settle_remote_def)
    ultimately show ?thesis using t by (simp add: cleaned_def p Inr pull_inv_def sane_def core_def) (simp add: settle_remote_def)
  next
    case (Inl e)
    have t: "sane c t" using released_sane[OF assms, of reply] by (simp add: p Inl)
    have u: "steady c ((settle_remote (Failed_With [error_value e]) t)\<lparr>pp_state := Sub_Uncertain\<rparr>)"
      using t by (simp add: sane_def steady_def whole_def core_def) (simp add: settle_remote_def)
    show ?thesis unfolding cleaned_def p Inl prod.case sum.case
      by (rule finish_report[OF u]) (use steady_quiet[OF u] in \<open>auto simp: pull_inv_def phase_ok_def steady_def core_def\<close>)
  qed
qed

lemma distinct_objects_empty [simp]: "distinct_objects es = [] \<longleftrightarrow> es = []"
proof -
  have "foldl (\<lambda>ds e. if e \<in> set ds \<and> \<not> made_here e then ds else ds @ [e]) ds es = [] \<longleftrightarrow> ds = [] \<and> es = []" for ds
  proof (induction es arbitrary: ds)
    case (Cons e es)
    show ?case unfolding foldl_Cons Cons.IH by auto
  qed simp
  then show ?thesis by (simp add: distinct_objects_def)
qed

lemma concluded_inv:
  assumes "core c s" "stop_promise s = Open" "es = [] \<Longrightarrow> clean s"
  shows "pull_inv c (conclude c f es s)"
proof -
  show ?thesis using assms
    by (simp add: conclude_def Let_def end_failed_def pull_inv_def phase_ok_def core_def clean_def)
qed

lemma dropped_core:
  assumes "core c s" "delivery_over s"
  shows "core c (s\<lparr>pp_queue := [], queued_bytes := 0\<rparr>)"
proof -
  have "in_flight s = 0" "\<not> delivering s"
    using assms by (auto simp: in_flight_def delivery_over_def core_def queue_ok_def split: delivery_task.splits)
  moreover have n: "0 \<le> (\<Sum>e\<leftarrow>pp_queue s. int (snd e))" by (rule sum_list_nonneg) auto
  moreover have "0 \<le> max_queued_bytes (pull_options c)" "0 \<le> max_queued_messages (pull_options c)"
    using assms(1) n by (auto simp: core_def queue_ok_def \<open>in_flight s = 0\<close>)
  ultimately have "queue_ok c (s\<lparr>pp_queue := [], queued_bytes := 0\<rparr>)"
    using assms(1) by (auto simp: core_def queue_ok_def in_flight_def)
  moreover have "limits_ok c (s\<lparr>pp_queue := [], queued_bytes := 0\<rparr>) = limits_ok c s"
    "calls_ok c (s\<lparr>pp_queue := [], queued_bytes := 0\<rparr>) = calls_ok c s" "marks_ok (s\<lparr>pp_queue := [], queued_bytes := 0\<rparr>) = marks_ok s"
    by (simp_all add: limits_ok_def calls_ok_def marks_ok_def)
  ultimately show ?thesis using assms(1) by (auto simp: core_def dest: append_prefixD)
qed

lemma settled_inv:
  assumes "steady c s" "es = [] \<Longrightarrow> clean s" "delivery_over s"
  shows "pull_inv c (settling_resumed c f es s)"
proof (cases "pp_queue s = []")
  case True
  then show ?thesis using assms
    by (auto simp: settling_resumed_def drop_undelivered_def pull_bind_def pull_read_def pull_update_def finish_step_def steady_def kept_def
        intro!: concluded_inv)
next
  case False
  obtain r t where p: "report c ''UndeliveredNotifications'' Gap_Severity None s = (r, t)" by fastforce
  have q: "quiet s t" using books.keepsD[OF books.keeps_report core_findings[of c], of s c "''UndeliveredNotifications''" Gap_Severity None]
    using assms(1) by (cases r) (simp_all add: p steady_def)
  have t: "core c t" "stop_promise t = Open" "delivery_over t" "clean t = clean s"
    using steady_quiet[OF assms(1) q] q assms(3) by (auto simp: steady_def kept_def delivery_over_def quiet_fields clean_def)
  have "pull_inv c (conclude c f (es @ delivery_error s) (t\<lparr>pp_queue := [], queued_bytes := 0\<rparr>))"
    by (rule concluded_inv) (use dropped_core[OF t(1,3)] t assms(2) in \<open>auto simp: clean_def\<close>)
  then show ?thesis using t assms(3) False
    by (cases r) (auto simp: settling_resumed_def drop_undelivered_def pull_bind_def pull_read_def pull_update_def finish_step_def p intro: threw_inv)
qed

lemma notified_inv: "core c s \<Longrightarrow> pull_inv c (notified f e s)"
  by (simp add: notified_def end_failed_def pull_inv_def phase_ok_def core_def)

subsection \<open>Delivery\<close>

text \<open>What the delivery leaves alone is all that the phases need.\<close>

lemma phase_ok_delivery:
  assumes "phase t = phase s" "enqueued t = enqueued s" "handed t @ map fst (pp_queue t) = handed s @ map fst (pp_queue s)"
    "stop_promise t = stop_promise s" "cleanup_attempted t = cleanup_attempted s" "pp_continuity t = pp_continuity s \<or> pp_continuity t = Gap"
    "restarts t = restarts s" "pp_endpoint t = pp_endpoint s" "endpoint_gone t = endpoint_gone s" "remote_promise t = remote_promise s"
  shows "phase_ok c s \<Longrightarrow> phase_ok c t"
  using assms by (auto simp: phase_ok_def whole_def kept_def fresh_marks_def clean_def split: pull_phase.splits)

lemma delivered_inv:
  assumes "pull_inv c s"
  shows "pull_inv c (callback_settled outcome s)"
proof (cases "delivery s")
  case (Calling r n)
  let ?t = "s\<lparr>delivering := False, queued_bytes := queued_bytes s - int n\<rparr>"
  have q: "queue_ok c (pull_drain (?t\<lparr>delivered_count := k\<rparr>))" for k
  proof -
    have "queue_ok c (?t\<lparr>delivered_count := k, delivery := No_Delivery\<rparr>)"
      using assms by (auto simp: pull_inv_def core_def queue_ok_def in_flight_def Calling)
    from drained_queue[OF this] have "queue_ok c (pull_drain (?t\<lparr>delivered_count := k, delivery := No_Delivery\<rparr>))" by simp
    moreover have "pull_drain (?t\<lparr>delivered_count := k, delivery := No_Delivery\<rparr>) = pull_drain (?t\<lparr>delivered_count := k\<rparr>)"
      by (auto simp: pull_drain_def split: list.split)
    ultimately show ?thesis by simp
  qed
  have e: "queue_ok c (?t\<lparr>delivery := Threw x\<rparr>)" for x
    using assms by (auto simp: pull_inv_def core_def queue_ok_def in_flight_def Calling)
  have "limits_ok c (?t\<lparr>delivered_count := k\<rparr>) = limits_ok c s" "calls_ok c (?t\<lparr>delivered_count := k\<rparr>) = calls_ok c s"
    "marks_ok (?t\<lparr>delivered_count := k\<rparr>) = marks_ok s" "limits_ok c (?t\<lparr>delivery := d\<rparr>) = limits_ok c s"
    "calls_ok c (?t\<lparr>delivery := d\<rparr>) = calls_ok c s" "marks_ok (?t\<lparr>delivery := d\<rparr>) = marks_ok s" for k d
    by (simp_all add: limits_ok_def calls_ok_def marks_ok_def)
  then have "core c (callback_settled outcome s)" using q e assms
    by (cases outcome) (simp_all add: callback_settled_def Calling Let_def pull_inv_def core_def)
  moreover have "phase_ok c (callback_settled outcome s)"
    by (rule phase_ok_delivery[of _ s])
      (use assms in \<open>auto simp: callback_settled_def Calling Let_def pull_inv_def split: option.split\<close>)
  ultimately show ?thesis by (simp add: pull_inv_def)
qed (use assms in \<open>simp_all add: callback_settled_def\<close>)

lemma noted_inv:
  assumes "pull_inv c s"
  shows "pull_inv c (delivery_noted c s)"
proof (cases "delivery s")
  case Returned
  have "core c (s\<lparr>delivery := No_Delivery\<rparr>)" using assms
    by (simp add: pull_inv_def core_def queue_ok_def in_flight_def Returned limits_ok_def calls_ok_def marks_ok_def)
  moreover have "phase_ok c (s\<lparr>delivery := No_Delivery\<rparr>)"
    by (rule phase_ok_delivery[of _ s]) (use assms in \<open>simp_all add: pull_inv_def\<close>)
  ultimately show ?thesis by (simp add: delivery_noted_def Returned pull_inv_def)
next
  case (Threw e)
  let ?s = "s\<lparr>delivery_failure := Some (error_value e), delivery := Failed_Delivery e\<rparr>"
  have s: "core c ?s" using assms
    by (simp add: pull_inv_def core_def queue_ok_def in_flight_def Threw limits_ok_def calls_ok_def marks_ok_def)
  obtain r t where p: "report c ''DeliveryFailed'' Gap_Severity (Some e) ?s = (r, t)" by fastforce
  have q: "quiet ?s t" using books.keepsD[OF books.keeps_report core_findings[OF s], of c "''DeliveryFailed''" Gap_Severity "Some e"]
    by (cases r) (simp_all add: p)
  have "core c t" by (rule core_quiet[OF s q])
  moreover have "phase_ok c t" "phase_ok c (t\<lparr>pp_aborted := True\<rparr>)"
    by (rule phase_ok_delivery[of _ s]; use assms q quiet_marks[OF q] in \<open>simp_all add: pull_inv_def quiet_fields\<close>)+
  ultimately show ?thesis by (cases r) (simp_all add: delivery_noted_def Threw p pull_inv_def core_def)
qed (use assms in \<open>simp_all add: delivery_noted_def\<close>)

subsection \<open>Every event keeps the invariant\<close>

lemma phase_body:
  "pull_inv c s \<Longrightarrow> phase s \<in> {Looping, Pausing} \<union> range Renewing \<union> range Pulling \<Longrightarrow> body c s"
  by (auto simp: pull_inv_def phase_ok_def body_def sane_def)

lemma executed_inv:
  assumes "pull_inv c s" "options_ok c"
  shows "pull_inv c (executed c reply s)"
proof (cases "phase s")
  case (Creating via x)
  have "sane c s" "fresh_marks via s" using assms(1) by (simp_all add: pull_inv_def phase_ok_def Creating sane_def)
  then show ?thesis by (simp add: executed_def Creating guarded_inv created_inv)
next
  case (Synchronizing via)
  have "body c s" "fresh_marks via s" using assms(1) by (simp_all add: pull_inv_def phase_ok_def Synchronizing body_def sane_def)
  then have "ends_in (sane c) (\<lambda>_. pull_inv c) (synchronized c via reply s)"
    by (auto simp: synchronized_def finished_create body_sane split: exec_reply.split)
  then show ?thesis by (simp add: executed_def Synchronizing guarded_inv)
next
  case Releasing
  have s: "sane c s" "pp_continuity s = Gap" "int (restarts s) < max_restarts (pull_options c)"
    using assms(1) by (simp_all add: pull_inv_def phase_ok_def Releasing sane_def)
  have "ends_in (sane c) (\<lambda>_. pull_inv c) (pull_bind (released c reply) (\<lambda>_. restart c) s)"
    unfolding ends_in_bind by (rule ends_in_mono[OF released_sane[OF s(1)]]) (use s(2,3) in \<open>auto intro: restarted\<close>)
  then show ?thesis by (simp add: executed_def Releasing guarded_inv)
next
  case (Cleaning f es)
  have "sane c s" using assms(1) by (simp add: pull_inv_def phase_ok_def Cleaning sane_def)
  then show ?thesis by (simp add: executed_def Cleaning cleaned_inv)
next
  case (Renewing x)
  then show ?thesis using phase_body[OF assms(1)] assms(2) by (simp add: executed_def guarded_inv renewed_inv)
next
  case (Pulling x)
  then show ?thesis using phase_body[OF assms(1)] assms(2) by (simp add: executed_def guarded_inv pulled_inv)
qed (use assms in \<open>simp_all add: executed_def\<close>)

lemma resumed_inv:
  assumes "pull_inv c s" "options_ok c"
  shows "pull_inv c (pull_resume c s)"
proof (cases "phase s")
  case Looping
  then show ?thesis using phase_body[OF assms(1)] assms(2) by (simp add: pull_resume_def guarded_inv looped)
next
  case (Settling f es)
  have "steady c s" "es = [] \<Longrightarrow> clean s" using assms(1) by (simp_all add: pull_inv_def phase_ok_def Settling steady_def)
  then show ?thesis using assms(1) settled_inv[of c s es f] by (cases "delivery_over s") (simp_all add: pull_resume_def Settling settling_resumed_def)
qed (use assms in \<open>simp_all add: pull_resume_def\<close>)

lemma stopped_inv:
  assumes "pull_inv c s"
  shows "pull_inv c (snd (stop_call c inside options s))"
proof -
  have 1: "pull_inv c (external_stop t)" if "pull_inv c t" for t
  proof -
    have "phase_ok c (external_stop t)"
      by (rule phase_ok_delivery[of _ t]) (use that in \<open>auto simp: external_stop_def pull_inv_def\<close>)
    then show ?thesis using that by (simp add: external_stop_def pull_inv_def core_def)
  qed
  have "phase_ok c (s\<lparr>unsubscribe_input := data\<rparr>)" for data
    by (rule phase_ok_delivery[of _ s]) (use assms in \<open>simp_all add: pull_inv_def\<close>)
  moreover have "core c (s\<lparr>unsubscribe_input := data\<rparr>)" for data using assms
    by (simp add: pull_inv_def core_def)
  ultimately have "pull_inv c (external_stop (s\<lparr>unsubscribe_input := data\<rparr>))" for data by (intro 1) (simp add: pull_inv_def)
  then show ?thesis using 1[OF assms] assms by (auto simp: stop_call_def Let_def split: sum.split)
qed

lemma started_inv:
  assumes "pull_inv c s" "phase s = Unstarted"
  shows "pull_inv c (start c cancelled s)"
proof -
  have s: "sane c s" "fresh_marks Starting s" using assms by (simp_all add: pull_inv_def phase_ok_def sane_def fresh_marks_def)
  then show ?thesis using guarded_inv[where m = "begin_create c Starting" and s = s and f = True, OF begun_create[OF s]] assms
    by (auto simp: start_def pull_inv_def phase_ok_def core_def whole_def kept_def)
qed

lemma step_inv:
  assumes "pull_inv c s" "options_ok c"
  shows "pull_inv c (pull_step c ev s)"
proof (cases ev)
  case (Start cancelled)
  then show ?thesis using assms started_inv by simp
next
  case (Slept e)
  then show ?thesis using assms phase_body[OF assms(1)] by (simp add: guarded_inv slept_inv)
next
  case (Notified e)
  then show ?thesis using assms by (auto simp: pull_inv_def notified_inv[unfolded pull_inv_def] split: pull_phase.split)
qed (use assms in \<open>simp_all add: executed_inv resumed_inv delivered_inv noted_inv stopped_inv\<close>)

inductive pull_reachable :: "pull_config \<Rightarrow> pullpoint \<Rightarrow> bool" for c where
  built: "settings (pull_durations c) v = Inr (pull_options c) \<Longrightarrow> new_pullpoint c = Inr s \<Longrightarrow> pull_reachable c s"
| stepped: "pull_reachable c s \<Longrightarrow> pull_reachable c (pull_step c ev s)"

lemma new_inv: "options_ok c \<Longrightarrow> new_pullpoint c = Inr s \<Longrightarrow> pull_inv c s"
  by (auto simp: new_pullpoint_def options_ok_def pull_inv_def core_defs phase_ok_def whole_def kept_def marked_def split: if_splits)

lemma pull_reachable_inv: "pull_reachable c s \<Longrightarrow> pull_inv c s \<and> options_ok c"
  by (induction rule: pull_reachable.induct) (auto intro: settings_ok new_inv step_inv)

end
