(* ===== verification/Events_Pullpoint_Properties.thy ===== *)
theory Events_Pullpoint_Properties
  imports Events_Pullpoint_Laws
begin

section \<open>Every state of a managed subscription\<close>

text \<open>
  What the invariant gives in every state a subscription can reach, what no event can bring back once the
  task has begun to finish, that it does finish once it is asked to stop, and two runs in which the code
  falls short of what it means to do.
\<close>

subsection \<open>Once the task has begun to finish\<close>


definition only_releases :: "pullpoint \<Rightarrow> pullpoint \<Rightarrow> bool" where
  "only_releases s t = (\<exists>us. pp_calls t = pp_calls s @ us \<and> snd ` set us \<subseteq> {Call_Unsubscribe})"


lemma only_releases_same: "pp_calls t = pp_calls s \<Longrightarrow> only_releases s t"
  by (simp add: only_releases_def)

lemma quiet_report: "core c s \<Longrightarrow> quiet s (snd (report k name sev e s))"
  using books.keepsD[OF books.keeps_report core_findings, of c s k name sev e]
  by (cases "report k name sev e s"; cases "fst (report k name sev e s)") simp_all

lemma report_ends:
  assumes "core c s" "\<And>t. quiet s t \<Longrightarrow> E t" "\<And>t. quiet s t \<Longrightarrow> ends_in E Q (f t)"
  shows "ends_in E Q (pull_bind (report k name sev e) (\<lambda>_. f) s)"
  using quiet_report[OF assms(1), of k name sev e] assms(2,3)
  by (cases "report k name sev e s"; cases "fst (report k name sev e s)") (simp_all add: ends_in_bind)









lemma noted_frame:
  assumes "core c s"
  shows "phase (delivery_noted c s) = phase s" "pp_calls (delivery_noted c s) = pp_calls s"
    "stop_requested (delivery_noted c s) = stop_requested s"
    "delivery (delivery_noted c s) = (case delivery s of Returned \<Rightarrow> No_Delivery | Threw e \<Rightarrow> Failed_Delivery e | d \<Rightarrow> d)"
proof -
  have "quiet (s\<lparr>delivery_failure := Some (error_value e), delivery := Failed_Delivery e\<rparr>) (snd (report c ''DeliveryFailed'' Gap_Severity (Some e)
      (s\<lparr>delivery_failure := Some (error_value e), delivery := Failed_Delivery e\<rparr>)))" if "delivery s = Threw e" for e
    by (rule quiet_report[of c])
      (use assms that in \<open>simp add: core_def queue_ok_def in_flight_def limits_ok_def calls_ok_def marks_ok_def\<close>)
  note q = quiet_fields[OF this]
  show "phase (delivery_noted c s) = phase s" "pp_calls (delivery_noted c s) = pp_calls s"
    "stop_requested (delivery_noted c s) = stop_requested s"
    "delivery (delivery_noted c s) = (case delivery s of Returned \<Rightarrow> No_Delivery | Threw e \<Rightarrow> Failed_Delivery e | d \<Rightarrow> d)"
    by (auto simp: delivery_noted_def q split: delivery_task.split prod.split sum.split dest!: arg_cong[where f = snd])
qed

lemma delivered_frame:
  "phase (callback_settled d s) = phase s" "pp_calls (callback_settled d s) = pp_calls s" "stop_requested (callback_settled d s) = stop_requested s"
  by (auto simp: callback_settled_def Let_def split: delivery_task.split option.split)

lemma stop_frame:
  "phase (snd (stop_call c inside options s)) = phase s" "pp_calls (snd (stop_call c inside options s)) = pp_calls s"
  "stop_requested s \<Longrightarrow> stop_requested (snd (stop_call c inside options s))"
  by (auto simp: stop_call_def external_stop_def Let_def split: sum.split)



subsection \<open>Every step goes onward\<close>

text \<open>
  Generations only grow, and a request is issued in the current one. The relation is kept by the bookkeeping, so by
  \<open>bookkeeping_law\<close> it is kept by every operation that is made of it.
\<close>

definition onward :: "pullpoint \<Rightarrow> pullpoint \<Rightarrow> bool" where
  "onward s t \<longleftrightarrow> pp_generation s \<le> pp_generation t
     \<and> (\<exists>us. pp_calls t = pp_calls s @ us \<and> (\<forall>e\<in>set us. pp_generation s \<le> fst e))
     \<and> (length (pp_findings s) \<le> 256 \<longrightarrow> length (pp_findings t) \<le> 256)"

lemma onward_same:
  "pp_generation t = pp_generation s \<Longrightarrow> pp_calls t = pp_calls s \<Longrightarrow> pp_findings t = pp_findings s \<Longrightarrow> onward s t"
  by (simp add: onward_def)

lemma onward_trans:
  assumes "onward s t" "onward t u"
  shows "onward s u"
proof -
  obtain us vs where u: "pp_calls t = pp_calls s @ us" "\<forall>e\<in>set us. pp_generation s \<le> fst e"
    and v: "pp_calls u = pp_calls t @ vs" "\<forall>e\<in>set vs. pp_generation t \<le> fst e"
    using assms unfolding onward_def by blast
  have g: "pp_generation s \<le> pp_generation t" "pp_generation t \<le> pp_generation u" using assms by (simp_all add: onward_def)
  have "pp_calls u = pp_calls s @ (us @ vs) \<and> (\<forall>e\<in>set (us @ vs). pp_generation s \<le> fst e)" using u v g(1) by auto
  then have "\<exists>ws. pp_calls u = pp_calls s @ ws \<and> (\<forall>e\<in>set ws. pp_generation s \<le> fst e)" by blast
  then show ?thesis using g assms by (simp add: onward_def)
qed

interpretation moves: bookkeeping_law onward
proof unfold_locales
  fix s t u
  show "onward s t \<Longrightarrow> onward t u \<Longrightarrow> onward s u" by (rule onward_trans)
qed (auto simp: onward_def make_room_findings_def)

lemma moves_update: "(\<And>s. onward s (f s)) \<Longrightarrow> moves.keeps (pull_update f)"
  by (simp add: moves.keeps_def)

lemma onward_call: "onward s (s\<lparr>pp_calls := pp_calls s @ [(pp_generation s, k)], phase := p\<rparr>)"
  by (simp add: onward_def)

lemma onward_release: "onward s (issue_release p s)"
  by (simp add: onward_def issue_release_def)

lemma onward_finish: "onward s (begin_finish f e s)"
  by (simp add: onward_def begin_finish_def Let_def issue_release_def settle_remote_def)

lemma onward_drain: "onward s (pull_drain s)"
  by (rule onward_same) (auto simp: pull_drain_def split: list.split)

lemmas moves_intros = moves.pull_keeps_bind moves_update onward_call onward_release onward_finish onward_drain onward_same

lemma moves_issue [simp]: "moves.keeps (issue k p)"
  unfolding issue_def by (intro moves_intros)

lemma moves_create [simp]: "moves.keeps (begin_create c via)"
  unfolding begin_create_def by (intro moves_intros) simp_all

lemma moves_finish_create [simp]: "moves.keeps (finish_create c via)"
  unfolding finish_create_def by (intro moves_intros) (auto split: origin.split)

lemma moves_created [simp]: "moves.keeps (created c via started reply)"
proof -
  have "moves.keeps (pull_update (\<lambda>s. s\<lparr>pp_endpoint := Some endpoint, cleanup_attempted := False, endpoint_gone := False,
      pp_generation := Suc (pp_generation s)\<rparr>))" for endpoint
    by (rule moves_update) (simp add: onward_def)
  then show ?thesis unfolding created_def by (cases reply) (auto intro!: moves.pull_keeps_bind)
qed

lemma moves_synchronized [simp]: "moves.keeps (synchronized c via reply)"
  unfolding synchronized_def by (auto split: exec_reply.split)


lemma moves_restart [simp]: "moves.keeps (restart c)"
  unfolding restart_def by (intro moves_intros) simp_all

lemma moves_recover [simp]: "moves.keeps (recover c reason gone)"
  unfolding recover_def by (auto intro!: moves_intros)

lemma moves_return [simp]: "moves.keeps return_run" "moves.keeps (fail_if e)"
  unfolding return_run_def fail_if_def by (auto intro!: moves_intros split: option.split)

lemma moves_start_pull [simp]: "moves.keeps (start_pull c started)"
  unfolding start_pull_def by (auto intro!: moves.pull_keeps_bind)

lemma moves_loop [simp]: "moves.keeps (loop_head c)"
  unfolding loop_head_def iterate_loop_def by (auto intro!: moves.pull_keeps_bind split: option.split)

lemma moves_renewed [simp]: "moves.keeps (renewed c started reply)"
  unfolding renewed_def by (auto intro!: moves.pull_keeps_bind split: exec_reply.split)

lemma moves_limit_fault [simp]: "moves.keeps (limit_fault c e)"
  unfolding limit_fault_def reduce_limits_def by (auto intro!: moves_intros split: event_error.split option.split)

lemma moves_pull_failed [simp]: "moves.keeps (pull_failed c e)"
  unfolding pull_failed_def after_limits_def by (auto intro!: moves.pull_keeps_bind)

lemma moves_enqueue [simp]: "moves.keeps (enqueue c r)"
  unfolding enqueue_def Let_def by (auto intro!: moves.pull_keeps_bind moves_update onward_drain) (simp_all add: onward_same moves.refl)

lemma moves_accept [simp]: "moves.keeps (accept_message c lease m)" "moves.keeps (accept_messages c lease ms)"
proof -
  show 1: "moves.keeps (accept_message c lease m)" for m unfolding accept_message_def by (auto intro!: moves_intros)
  show "moves.keeps (accept_messages c lease ms)" by (induction ms) (auto intro!: moves.pull_keeps_bind 1)
qed

lemma moves_pulled [simp]: "moves.keeps (pulled c started reply)"
  unfolding pulled_def pause_def by (auto intro!: moves_intros split: exec_reply.split option.split)

lemma moves_slept [simp]: "moves.keeps (slept c outcome)"
  unfolding slept_def by (auto intro!: moves.pull_keeps_bind split: option.split)









subsection \<open>Uncertain requests\<close>






















subsection \<open>Bounds and order\<close>

text \<open>
  C27. In every reachable state the records that wait for the listener, and the one it is being called for, are
  within the configured number and size, limits are negotiated at most twice and only downwards, and the
  subscription is restarted at most as often as configured.
\<close>

theorem subscription_bounded:
  assumes "pull_reachable c s"
  shows "int (length (pp_queue s) + (if delivering s then 1 else 0)) \<le> max_queued_messages (pull_options c)
    \<and> (\<Sum>e\<leftarrow>pp_queue s. int (snd e)) \<le> max_queued_bytes (pull_options c)
    \<and> 0 \<le> request_timeout s \<and> request_timeout s \<le> pull_timeout (pull_options c)
    \<and> 1 \<le> request_limit s \<and> request_limit s \<le> message_limit (pull_options c)
    \<and> limit_negotiations s \<le> 2 \<and> int (restarts s) \<le> max_restarts (pull_options c) \<and> length (pp_findings s) \<le> 256"
proof -
  have k: "queue_ok c s" "limits_ok c s" using pull_reachable_inv[OF assms] by (simp_all add: pull_inv_def core_def)
  have "0 \<le> in_flight s" by (simp add: in_flight_def split: delivery_task.split)
  then have "(\<Sum>e\<leftarrow>pp_queue s. int (snd e)) \<le> max_queued_bytes (pull_options c)"
    using k(1) unfolding queue_ok_def by linarith
  moreover have "int (length (pp_queue s) + (if delivering s then 1 else 0)) \<le> max_queued_messages (pull_options c)"
    using k(1) unfolding queue_ok_def by (elim conjE)
  ultimately show ?thesis using k(2) by (simp add: limits_ok_def)
qed

text \<open>
  C28. The listener is called for the records in the order they were accepted, each once, and no gap is hidden:
  only the first record of all is marked as initial, and a record that is marked as continuous has the
  generation of the record before it.
\<close>

theorem event_gaps_marked:
  assumes "pull_reachable c s"
  shows "prefix (handed s) (enqueued s) \<and> (\<forall>i. i < length (enqueued s) \<longrightarrow>
      (rec_continuity (enqueued s ! i) = Initial \<longrightarrow> i = 0)
      \<and> (rec_continuity (enqueued s ! i) = Continuous \<longrightarrow>
           0 < i \<and> rec_generation (enqueued s ! i) = rec_generation (enqueued s ! (i - 1))))"
proof -
  have "core c s" using pull_reachable_inv[OF assms] by (simp add: pull_inv_def)
  then show ?thesis by (auto simp: core_def marks_ok_def marked_def dest: append_prefixD)
qed




subsection \<open>Stopping\<close>

text \<open>
  How far a phase is from the end once stopping has been requested. The result of what the task awaits
  (\<open>settling\<close> is one round of them, with any outcomes) brings it nearer.
\<close>

fun remaining_steps :: "pull_phase \<Rightarrow> nat" where
  "remaining_steps Unstarted = 8"
| "remaining_steps Releasing = 7"
| "remaining_steps (Creating _ _) = 6"
| "remaining_steps (Synchronizing _) = 5"
| "remaining_steps (Renewing _) = 5"
| "remaining_steps (Pulling _) = 4"
| "remaining_steps Looping = 4"
| "remaining_steps Pausing = 4"
| "remaining_steps (Cleaning _ _) = 3"
| "remaining_steps (Settling _ _) = 2"
| "remaining_steps (Notifying _ _) = 1"
| "remaining_steps Finished = 0"

lemma remaining_within: "p \<noteq> Unstarted \<Longrightarrow> remaining_steps p \<le> 7"
  by (cases p) simp_all

definition nearer :: "nat \<Rightarrow> pullpoint \<Rightarrow> bool" where
  "nearer n t = (stop_requested t \<and> remaining_steps (phase t) < n)"

lemma nearer_finish: "n > 3 \<Longrightarrow> nearer n (begin_finish f e s)"
  by (simp add: nearer_def begin_finish_def Let_def issue_release_def settle_remote_def)

lemma nearer_guarded: "n > 3 \<Longrightarrow> ends_in E (\<lambda>_. nearer n) (m s) \<Longrightarrow> nearer n (guarded_task f m s)"
  by (auto simp: guarded_task_def ends_in_def nearer_finish split: prod.splits sum.splits)

text \<open>The bookkeeping of a stopped subscription, whatever it throws.\<close>

lemma stopped_then:
  assumes "books.keeps m" "core c s" "stop_requested s"
    "\<And>x t. core c t \<Longrightarrow> stop_requested t \<Longrightarrow> phase t = phase s \<Longrightarrow> ends_in (\<lambda>_. True) Q (f x t)"
  shows "ends_in (\<lambda>_. True) Q (pull_bind m f s)"
  unfolding ends_in_bind
  by (rule ends_in_mono[OF books.keepsD[OF assms(1) core_findings[OF assms(2)]]])
    (use assms core_quiet in \<open>auto simp: quiet_fields\<close>)

lemma loop_stops: "stop_requested s \<Longrightarrow> n > 3 \<Longrightarrow> ends_in (\<lambda>_. True) (\<lambda>_. nearer n) (loop_head c s)"
  by (simp add: loop_head_def ends_in_bind return_run_def nearer_finish)

lemma create_nearer: "core c s \<Longrightarrow> stop_requested s \<Longrightarrow> ends_in (\<lambda>_. True) (\<lambda>_. nearer 7) (begin_create c via s)"
  unfolding begin_create_def by (rule stopped_then[where c = c]) (simp_all add: issue_def nearer_def)

lemma finish_create_nearer: "core c s \<Longrightarrow> stop_requested s \<Longrightarrow> ends_in (\<lambda>_. True) (\<lambda>_. nearer 5) (finish_create c via s)"
proof -
  assume s: "core c s" "stop_requested s"
  have "ends_in (\<lambda>_. True) (\<lambda>_. nearer 5) (pull_bind (report c ''SubscriptionCreated'' Info None) (\<lambda>_. pull_update (\<lambda>s. case via of
           Starting \<Rightarrow> s\<lparr>start_promise := Fulfilled, phase := Looping\<rparr>
         | Restarting \<Rightarrow> s\<lparr>pp_continuity := Gap, phase := Looping\<rparr>)) (s\<lparr>pp_state := Sub_Active\<rparr>))"
    by (rule stopped_then[where c = c]) (use s in \<open>simp_all add: core_def nearer_def split: origin.split\<close>)
  then show ?thesis by (simp add: finish_create_def ends_in_bind)
qed

lemma created_nearer:
  assumes "sane c s" "fresh_marks via s" "stop_requested s"
  shows "ends_in (\<lambda>_. True) (\<lambda>_. nearer 6) (created c via started reply s)"
proof (cases reply)
  case (Exec_Ok v xml)
  let ?e = "\<lambda>e. s\<lparr>pp_endpoint := Some e, cleanup_attempted := False, endpoint_gone := False, pp_generation := Suc (pp_generation s)\<rparr>"
  have "ends_in (\<lambda>_. True) (\<lambda>_. nearer 6) (pull_bind (timing c v started) (\<lambda>_.
      if wants_synchronize (pull_options c) \<and> can_synchronize c then issue Call_Synchronize (Synchronizing via)
      else finish_create c via) (?e e))" for e
  proof (rule stopped_then[where c = c])
    show "core c (?e e)" using entered_core[OF assms(1,2)] by (simp add: body_def sane_def)
    fix x :: unit and t
    assume t: "core c t" "stop_requested t"
    have "ends_in (\<lambda>_. True) (\<lambda>_. nearer 6) (finish_create c via t)"
      by (rule ends_in_mono[OF finish_create_nearer[OF t]]) (simp_all add: nearer_def)
    then show "ends_in (\<lambda>_. True) (\<lambda>_. nearer 6) ((if wants_synchronize (pull_options c) \<and> can_synchronize c
        then issue Call_Synchronize (Synchronizing via) else finish_create c via) t)"
      using t by (simp add: issue_def nearer_def)
  qed (simp_all add: assms)
  then show ?thesis
    by (auto simp: created_def Exec_Ok ends_in_bind[of _ _ "pull_lift _"] ends_in_bind[of _ _ "pull_update _"] ends_in_lift split: sum.split)
qed (simp add: created_def)

lemma released_nearer:
  assumes "core c s" "stop_requested s"
  shows "ends_in (\<lambda>_. True) (\<lambda>_. nearer 7) (pull_bind (released c reply) (\<lambda>_. restart c) s)"
proof -
  have r: "ends_in (\<lambda>_. True) (\<lambda>_. nearer 7) (restart c t)" if "core c t" "stop_requested t" for t
  proof -
    have "ends_in (\<lambda>_. True) (\<lambda>_. nearer 7) (begin_create c Restarting u)" if "stop_requested u" for u
      using that by (simp add: begin_create_def ends_in_bind now_def Let_def issue_def nearer_def split: jsnum.split)
    then show ?thesis using that by (simp add: restart_def ends_in_bind)
  qed
  let ?s = "s\<lparr>endpoint_gone := True\<rparr>"
  have s: "core c ?s" "stop_requested ?s" using assms by (simp_all add: core_def)
  have "ends_in (\<lambda>_. True) (\<lambda>_ t. core c t \<and> stop_requested t) (report c ''CleanupResourceAbsent'' Info e ?s)" for e
    by (rule ends_in_mono[OF books.keepsD[OF books.keeps_report core_findings[OF s(1)]]])
      (use core_quiet[OF s(1)] s(2) in \<open>auto simp: quiet_fields\<close>)
  then have "ends_in (\<lambda>_. True) (\<lambda>_ t. core c t \<and> stop_requested t) (released c reply s)"
    using s by (auto simp: released_def ends_in_bind[of _ _ "pull_update _"] split: exec_reply.split)
  from ends_in_mono[OF this] show ?thesis unfolding ends_in_bind using r by (auto intro: ends_in_mono)
qed

lemma reported_return: "core c s \<Longrightarrow> stop_requested s \<Longrightarrow> n > 3 \<Longrightarrow>
   ends_in (\<lambda>_. True) (\<lambda>_. nearer n) (pull_bind (report k name sev e) (\<lambda>_. return_run) s)"
  by (rule stopped_then[where c = c]) (simp_all add: return_run_def nearer_finish)

lemma renewed_nearer:
  assumes "core c s" "stop_requested s"
  shows "ends_in (\<lambda>_. True) (\<lambda>_. nearer 5) (renewed c started reply s)"
proof (cases reply)
  case (Exec_Failed e)
  then show ?thesis using assms reported_return[OF assms, of 5] by (simp add: renewed_def ends_in_bind[of _ _ "pull_read _"])
next
  case (Exec_Ok v xml)
  have p: "ends_in (\<lambda>_. True) (\<lambda>_. nearer 5) (start_pull c started t)" if "core c t" "stop_requested t" for t
    unfolding start_pull_def
    by (rule stopped_then[where c = c]) (use that in \<open>simp_all add: ends_in_bind issue_def nearer_def\<close>)
  have "ends_in (\<lambda>_. True) (\<lambda>_. nearer 5)
      (pull_bind (timing c v started) (\<lambda>_. pull_bind (report c ''SubscriptionRenewed'' Info None) (\<lambda>_. start_pull c started)) s)"
  proof (rule stopped_then[where c = c])
    fix x :: unit and t
    assume t: "core c t" "stop_requested t"
    show "ends_in (\<lambda>_. True) (\<lambda>_. nearer 5) (pull_bind (report c ''SubscriptionRenewed'' Info None) (\<lambda>_. start_pull c started) t)"
      by (rule stopped_then[where c = c]) (use t p in simp_all)
  qed (simp_all add: assms)
  then show ?thesis by (simp add: renewed_def Exec_Ok)
qed

lemma pulled_nearer:
  assumes "core c s" "stop_requested s"
  shows "ends_in (\<lambda>_. True) (\<lambda>_. nearer 4) (pulled c started reply s)"
proof (cases reply)
  case (Exec_Failed e)
  then show ?thesis using assms reported_return[OF assms, of 4]
    by (simp add: pulled_def pull_failed_def ends_in_bind[of _ _ "pull_read _"] ends_in_bind[of _ _ "fail_if _"] ends_in_fail_if
        split: option.split)
next
  case (Exec_Ok v xml)
  show ?thesis unfolding pulled_def Exec_Ok exec_reply.case
    by (rule stopped_then[where c = c])
      (use assms in \<open>simp_all add: ends_in_bind[of _ _ "pull_read _"] return_run_def nearer_finish\<close>)
qed

lemma cleaned_nearer:
  assumes "sane c s" "stop_requested s"
  shows "nearer 3 (cleaned c f es reply s)"
proof -
  let ?s = "s\<lparr>endpoint_gone := True\<rparr>"
  have k: "sane c ?s" "core c ?s" "stop_requested ?s" using assms by (simp_all add: core_def sane_def)
  have "ends_in (\<lambda>t. core c t \<and> stop_requested t) (\<lambda>_ t. stop_requested t) (report c ''CleanupResourceAbsent'' Info e ?s)" for e
    by (rule ends_in_mono[OF books.keepsD[OF books.keeps_report core_findings[OF k(2)]]])
      (use core_quiet[OF k(2)] k(3) in \<open>auto simp: quiet_fields\<close>)
  then have r: "ends_in (\<lambda>t. core c t \<and> stop_requested t) (\<lambda>_ t. stop_requested t) (released c reply s)"
    using assms by (auto simp: released_def ends_in_bind[of _ _ "pull_update _"] sane_def split: exec_reply.split)
  have "nearer 3 (finish_step f (\<lambda>u. u\<lparr>phase := Settling f (es @ [error_value e])\<rparr>) (report c ''UnsubscribeOutcomeUnknown'' Error_Severity (Some e))
      ((settle_remote (Failed_With [error_value e]) t)\<lparr>pp_state := Sub_Uncertain\<rparr>))" if t: "core c t" "stop_requested t" for e t
  proof -
    have u: "core c ((settle_remote (Failed_With [error_value e]) t)\<lparr>pp_state := Sub_Uncertain\<rparr>)"
      using t(1) by (simp add: core_def) (simp add: settle_remote_def)
    show ?thesis using quiet_report[OF u, of c "''UnsubscribeOutcomeUnknown''" Error_Severity "Some e"] t(2)
      by (auto simp: finish_step_def finish_threw_def nearer_def settle_remote_def quiet_fields split: prod.split sum.split
          dest: quiet_fields(10))
  qed
  then show ?thesis using r
    by (cases "released c reply s"; cases "fst (released c reply s)")
      (auto simp: cleaned_def nearer_def[of _ "settle_remote _ _"], simp_all add: settle_remote_def)
qed

lemma executed_nearer:
  assumes "pull_inv c s" "stop_requested s"
  shows "nearer (remaining_steps (phase s)) (executed c reply s) \<or> executed c reply s = s \<and>
    phase s \<in> {Unstarted, Looping, Pausing, Finished} \<union> {p. \<exists>f es. p = Settling f es \<or> p = Notifying f es}"
proof (cases "phase s")
  case (Creating via x)
  have "sane c s" "fresh_marks via s" using assms(1) by (simp_all add: pull_inv_def phase_ok_def Creating sane_def)
  from created_nearer[OF this assms(2), of x reply] show ?thesis by (simp add: executed_def Creating nearer_guarded)
next
  case (Synchronizing via)
  have "core c s" using assms(1) by (simp add: pull_inv_def)
  then have "ends_in (\<lambda>_. True) (\<lambda>_. nearer 5) (synchronized c via reply s)"
    using finish_create_nearer assms(2) by (simp add: synchronized_def split: exec_reply.split)
  then show ?thesis by (simp add: executed_def Synchronizing nearer_guarded)
next
  case Releasing
  have "core c s" using assms(1) by (simp add: pull_inv_def)
  from released_nearer[OF this assms(2), of reply] show ?thesis by (simp add: executed_def Releasing nearer_guarded)
next
  case (Cleaning f es)
  have "sane c s" using assms(1) by (simp add: pull_inv_def phase_ok_def Cleaning sane_def)
  then show ?thesis using assms(2) by (simp add: executed_def Cleaning cleaned_nearer)
next
  case (Renewing x)
  have "core c s" using assms(1) by (simp add: pull_inv_def)
  from renewed_nearer[OF this assms(2), of x reply] show ?thesis by (simp add: executed_def Renewing nearer_guarded)
next
  case (Pulling x)
  have "core c s" using assms(1) by (simp add: pull_inv_def)
  from pulled_nearer[OF this assms(2), of x reply] show ?thesis by (simp add: executed_def Pulling nearer_guarded)
qed (simp_all add: executed_def)

definition approaches :: "pullpoint \<Rightarrow> pullpoint \<Rightarrow> bool" where
  "approaches s t =
     (stop_requested t \<and> remaining_steps (phase t) \<le> remaining_steps (phase s)
      \<and> (remaining_steps (phase t) = remaining_steps (phase s) \<longrightarrow> phase t = phase s))"

lemma approaches_trans: "approaches s t \<Longrightarrow> approaches t u \<Longrightarrow> approaches s u"
  by (auto simp: approaches_def)

lemma approaches_nearer: "nearer (remaining_steps (phase s)) t \<Longrightarrow> approaches s t"
  by (simp add: approaches_def nearer_def)

lemma approaches_same: "stop_requested t \<Longrightarrow> phase t = phase s \<Longrightarrow> approaches s t"
  by (simp add: approaches_def)

lemma slept_nearer:
  assumes "stop_requested s" "phase s = Pausing"
  shows "nearer 4 (pull_step c (Slept outcome) s)"
proof -
  have "ends_in (\<lambda>_. True) (\<lambda>_. nearer 4) (slept c outcome s)"
    using loop_stops[OF assms(1), of 4 c] assms(1) by (simp add: slept_def ends_in_bind[of _ _ "pull_read _"] ends_in_bind[of _ _ "fail_if _"]
        ends_in_fail_if split: option.split)
  then show ?thesis using assms by (simp add: nearer_guarded)
qed

lemma settled_nearer:
  assumes "core c s" "stop_requested s" "delivery_over s"
  shows "nearer 2 (settling_resumed c f es s)"
proof -
  have "ends_in (\<lambda>t. stop_requested t) (\<lambda>_ t. stop_requested t)
      (pull_bind (report c ''UndeliveredNotifications'' Gap_Severity None) (\<lambda>_. pull_update (\<lambda>s. s\<lparr>pp_queue := [], queued_bytes := 0\<rparr>)) s)"
    by (rule report_ends[OF assms(1)]) (simp_all add: quiet_fields assms(2))
  then have "ends_in (\<lambda>t. stop_requested t) (\<lambda>_ t. stop_requested t) (drop_undelivered c s)"
    using assms(2) by (auto simp: drop_undelivered_def ends_in_bind[of _ _ "pull_read _"])
  then show ?thesis using assms(3)
    by (auto simp: settling_resumed_def finish_step_def finish_threw_def conclude_def end_failed_def nearer_def Let_def ends_in_def
        split: prod.splits sum.splits)
qed

lemma resumed_nearer:
  assumes "pull_inv c s" "stop_requested s"
  shows "phase s = Looping \<Longrightarrow> nearer 4 (pull_resume c s)" "phase s = Settling f es \<Longrightarrow> delivery_over s \<Longrightarrow> nearer 2 (pull_resume c s)"
    "approaches s (pull_resume c s)"
proof -
  show 1: "phase s = Looping \<Longrightarrow> nearer 4 (pull_resume c s)"
    using nearer_guarded[where m = "loop_head c" and s = s, OF _ loop_stops[OF assms(2)]] by (simp add: pull_resume_def)
  show 2: "phase s = Settling f es \<Longrightarrow> delivery_over s \<Longrightarrow> nearer 2 (pull_resume c s)" for f es
    using settled_nearer[of c s] assms by (simp add: pull_resume_def pull_inv_def)
  show "approaches s (pull_resume c s)"
  proof (cases "phase s")
    case Looping
    then show ?thesis using 1 by (simp add: approaches_nearer)
  next
    case (Settling f es)
    then show ?thesis using 2[OF Settling] assms(2)
      by (cases "delivery_over s") (simp_all add: approaches_nearer pull_resume_def settling_resumed_def approaches_same)
  qed (simp_all add: pull_resume_def approaches_same assms(2))
qed

definition settle_round :: "exec_reply \<times> event_error option \<times> rejection option \<times> event_error option \<Rightarrow> pull_event list" where
  "settle_round x = (case x of (r, a, d, n) \<Rightarrow> [Executed r, Slept a, Delivered d, Delivery_Noted, Resume, Notified n])"

lemma event_approaches:
  assumes "pull_inv c s" "options_ok c" "stop_requested s" "\<And>b. ev \<noteq> Start b" "\<And>b v. ev \<noteq> Stop b v"
  shows "approaches s (pull_step c ev s) \<and> pull_inv c (pull_step c ev s)"
proof
  have k: "core c s" using assms(1) by (simp add: pull_inv_def)
  show "approaches s (pull_step c ev s)"
  proof (cases ev)
    case (Executed r)
    then show ?thesis using executed_nearer[OF assms(1,3), of r] assms(3) by (auto intro: approaches_nearer approaches_same)
  next
    case (Slept a)
    then show ?thesis using slept_nearer[OF assms(3), of c a] assms(3)
      by (cases "phase s = Pausing") (auto intro: approaches_nearer approaches_same)
  next
    case (Notified n)
    then show ?thesis using assms(3) by (auto simp: notified_def end_failed_def approaches_def split: pull_phase.split)
  qed (use assms resumed_nearer(3) in \<open>auto simp: delivered_frame noted_frame[OF k] intro: approaches_same\<close>)
qed (rule step_inv[OF assms(1,2)])

lemma approaches_stuck:
  assumes "approaches s t" "approaches t u" "\<not> remaining_steps (phase u) < remaining_steps (phase s)"
  shows "phase t = phase s \<and> phase u = phase t \<and> \<not> remaining_steps (phase u) < remaining_steps (phase t)"
  using assms by (simp add: approaches_def)

lemma delivery_settles:
  assumes "core c (callback_settled d s)" "stop_requested s"
  shows "delivery_over (delivery_noted c (callback_settled d s))"
proof -
  have "\<nexists>r n. delivery (callback_settled d s) = Calling r n" using assms(2)
    by (auto simp: callback_settled_def pull_drain_def Let_def split: delivery_task.splits option.splits)
  then show ?thesis using noted_frame(4)[OF assms(1)] by (auto simp: delivery_over_def split: delivery_task.splits)
qed

text \<open>A subscription that stays where it is although everything it could await has settled has finished.\<close>

lemma stuck_finished:
  assumes "stop_requested s" "phase s \<noteq> Unstarted" "pull_inv c s"
    and "pull_inv c s4" "stop_requested s4" "delivery_over s4"
    and "phase (executed c r s) = phase s" "stop_requested s1" "phase s1 = phase s" "phase (pull_step c (Slept a) s1) = phase s"
    and "phase s4 = phase s" "phase (pull_resume c s4) = phase s" "phase (pull_step c (Notified n) s5) = phase s" "phase s5 = phase s"
  shows "phase s = Finished"
proof (cases "phase s")
  case (Settling f es)
  then show ?thesis using resumed_nearer(2)[OF assms(4,5) _ assms(6), of f es] assms by (simp add: nearer_def)
next
  case (Notifying f es)
  then show ?thesis using assms by (simp add: notified_def end_failed_def)
next
  case Looping
  then show ?thesis using resumed_nearer(1)[OF assms(4,5)] assms by (simp add: nearer_def)
next
  case Pausing
  then show ?thesis using slept_nearer[OF assms(8), of c a] assms by (simp add: nearer_def)
qed (use executed_nearer[OF assms(3,1), of r] assms(2,7) in \<open>simp_all add: nearer_def\<close>)

lemma round_nearer:
  assumes "pull_inv c s" "options_ok c" "stop_requested s" "phase s \<noteq> Unstarted" "t = pull_run c (settle_round x) s"
  shows "pull_inv c t \<and> stop_requested t \<and> phase t \<noteq> Unstarted
    \<and> (remaining_steps (phase t) < remaining_steps (phase s) \<or> phase t = Finished)"
proof -
  obtain r a d n where x: "x = (r, a, d, n)" by (cases x)
  define s1 where "s1 = pull_step c (Executed r) s"
  define s2 where "s2 = pull_step c (Slept a) s1"
  define s3 where "s3 = pull_step c (Delivered d) s2"
  define s4 where "s4 = pull_step c Delivery_Noted s3"
  define s5 where "s5 = pull_step c Resume s4"
  note defs = s1_def s2_def s3_def s4_def s5_def
  have t: "t = pull_step c (Notified n) s5" using assms(5) by (simp add: defs x settle_round_def pull_run_def)
  have stop: "approaches u v \<Longrightarrow> stop_requested v" for u v by (simp add: approaches_def)
  note next_state = event_approaches[OF _ assms(2)]
  have 1: "approaches s s1" "pull_inv c s1" using next_state[OF assms(1,3), of "Executed r"] by (simp_all add: s1_def)
  have 2: "approaches s1 s2" "pull_inv c s2" using next_state[OF 1(2) stop[OF 1(1)], of "Slept a"] unfolding s2_def by blast+
  have 3: "approaches s2 s3" "pull_inv c s3" using next_state[OF 2(2) stop[OF 2(1)], of "Delivered d"] by (simp_all add: s3_def)
  have 4: "approaches s3 s4" "pull_inv c s4" using next_state[OF 3(2) stop[OF 3(1)], of Delivery_Noted] by (simp_all add: s4_def)
  have 5: "approaches s4 s5" "pull_inv c s5" using next_state[OF 4(2) stop[OF 4(1)], of Resume] by (simp_all add: s5_def)
  have 6: "approaches s5 t" "pull_inv c t" using next_state[OF 5(2) stop[OF 5(1)], of "Notified n"] unfolding t by blast+
  have over: "delivery_over s4" using delivery_settles[of c d s2] 3(2) stop[OF 2(1)] by (simp add: s3_def s4_def pull_inv_def)
  note tail5 = approaches_trans[OF 5(1) 6(1)]
  note tail4 = approaches_trans[OF 4(1) tail5]
  note tail3 = approaches_trans[OF 3(1) tail4]
  note tail2 = approaches_trans[OF 2(1) tail3]
  note whole_way = approaches_trans[OF 1(1) tail2]
  have "phase t = Finished" if u: "\<not> remaining_steps (phase t) < remaining_steps (phase s)"
  proof -
    note u1 = approaches_stuck[OF 1(1) tail2 u]
    note u2 = approaches_stuck[OF 2(1) tail3 u1[THEN conjunct2, THEN conjunct2]]
    note u3 = approaches_stuck[OF 3(1) tail4 u2[THEN conjunct2, THEN conjunct2]]
    note u4 = approaches_stuck[OF 4(1) tail5 u3[THEN conjunct2, THEN conjunct2]]
    note u5 = approaches_stuck[OF 5(1) 6(1) u4[THEN conjunct2, THEN conjunct2]]
    have e: "phase s1 = phase s" "phase s2 = phase s" "phase s4 = phase s" "phase s5 = phase s" "phase t = phase s"
      using u1 u2 u3 u4 u5 by simp_all
    have "phase s = Finished"
      by (rule stuck_finished[OF assms(3,4,1) 4(2) stop[OF 4(1)] over, of r s1 a n s5])
        (use e stop[OF 1(1)] in \<open>simp_all add: s1_def[symmetric] s2_def[symmetric] s5_def[symmetric] t[symmetric]
           flip: pull_step.simps\<close>)
    then show ?thesis using e by simp
  qed
  moreover have "phase t \<noteq> Unstarted" using whole_way remaining_within[OF assms(4)] by (auto simp: approaches_def)
  ultimately show ?thesis using whole_way 6(2) by (auto simp: approaches_def)
qed

lemma rounds_finish:
  assumes "pull_inv c s" "options_ok c" "stop_requested s" "phase s \<noteq> Unstarted" "remaining_steps (phase s) \<le> length rounds"
  shows "phase (pull_run c (concat (map settle_round rounds)) s) = Finished"
  using assms(1,3-5)
proof (induction rounds arbitrary: s)
  case Nil
  then show ?case by (cases "phase s") (simp_all add: pull_run_def)
next
  case (Cons x rounds)
  let ?t = "pull_run c (settle_round x) s"
  have t: "pull_inv c ?t \<and> stop_requested ?t \<and> phase ?t \<noteq> Unstarted
    \<and> (remaining_steps (phase ?t) < remaining_steps (phase s) \<or> phase ?t = Finished)"
    by (rule round_nearer[OF Cons.prems(1) assms(2) Cons.prems(2,3) refl])
  have "remaining_steps (phase ?t) \<le> length rounds" using t Cons.prems(4) by auto
  then have "phase (pull_run c (concat (map settle_round rounds)) ?t) = Finished" using t by (intro Cons.IH) auto
  then show ?case by (simp add: pull_run_def)
qed

text \<open>
  C26. A subscription that was started and asked to stop comes to its end: whatever the outcomes of the requests,
  waits and callbacks it awaits, seven rounds of them are enough.
\<close>

theorem stopped_subscription_finishes:
  assumes "pull_reachable c s" "stop_requested s" "phase s \<noteq> Unstarted" "7 \<le> length rounds"
  shows "phase (pull_run c (concat (map settle_round rounds)) s) = Finished"
proof -
  have "remaining_steps (phase s) \<le> 7" by (rule remaining_within[OF assms(3)])
  then show ?thesis using assms pull_reachable_inv[OF assms(1)] by (intro rounds_finish) auto
qed

subsection \<open>A sample subscription\<close>

text \<open>
  The clock stands still; the lease is over at once or has no end. Every duration is taken for a minute.
\<close>

definition sample_settings :: pull_settings where
  "sample_settings = \<lparr>pull_timeout = 60000, message_limit = 16, minimum_poll = 50, request_grace = 5000, cleanup_timeout = 10000,
     lease_duration = ''PT60S'', wants_synchronize = False, renewal_duration = None, renewal_margin = 10000,
     restart_on_expiry = True, max_restarts = 1, max_queued_messages = 128, max_queued_bytes = 4194304, delivery_timeout = 10000\<rparr>"

definition sample_config :: pull_config where
  "sample_config = \<lparr>pull_options = sample_settings, can_renew = False, can_synchronize = False, pull_clock = (\<lambda>n. Whole 1000),
     pull_durations = (\<lambda>days hours minutes seconds. Whole 60000), pull_authorize = (\<lambda>e. Inr ()), pull_bytes = (\<lambda>v. 10),
     has_error_listener = False, pull_encodes = (\<lambda>v. Inr ())\<rparr>"

lemma sample_valid: "settings (pull_durations sample_config) (JObj [(''restartOnExpiry'', JBool True)]) = Inr (pull_options sample_config)"
  by (simp add: settings_def is_object_def is_function_def setting_names_def boolean_option_def lease_setting_def positive_duration_def
      or_default_def renewal_setting_def integer_within_def positive_setting_def fixed_duration_def duration_groups_def
      optional_component_def optional_seconds_def skip_component_def skip_seconds_def digit_ahead_def is_digit_char_def
      finite_value_def max_delay_def max_safe_integer_def sample_config_def sample_settings_def Let_def)

definition fresh_sample :: pullpoint where
  "fresh_sample = projr (new_pullpoint sample_config)"

lemma sample_new: "new_pullpoint sample_config = Inr fresh_sample"
  by (simp add: fresh_sample_def new_pullpoint_def sample_config_def sample_settings_def)

lemma sample_run_reachable: "pull_reachable sample_config (pull_run sample_config evs fresh_sample)"
proof (induction evs rule: rev_induct)
  case Nil
  show ?case using built[OF sample_valid sample_new] by (simp add: pull_run_def)
next
  case (snoc ev evs)
  then show ?case by (simp add: pull_run_def stepped)
qed

definition sample_time :: string where
  "sample_time = ''2024-01-01T00:00:00Z''"

lemma sample_instant: "instant sample_time = Inr 1704067200000"
proof -
  have c: "code_points sample_time = map (\<lambda>c. [c]) sample_time"
    by (simp add: sample_time_def trailing_bytes.simps byte_of_def)
  have "trim sample_time = sample_time"
    unfolding trim_def c by (simp add: js_space_def point_def byte_of_def sample_time_def)
  then have s: "scalar_text XS_Date_Time sample_time = sample_time"
    by (simp add: scalar_text_def replaced_def collapsed_def sample_time_def)
  have d: "date_parts_of sample_time = Some \<lparr>year_text = ''2024'', month_text = ''01'', day_text = ''01'', hour_text = ''00'',
      minute_text = ''00'', second_text = ''00'', fraction_text = None, zone_text = Some ''Z''\<rparr>"
    by (simp add: sample_time_def date_parts_of_def year_of_def two_after_def fraction_of_def zone_of_def is_digit_char_def Let_def)
  have "valid_date_time sample_time"
    by (simp add: valid_date_time_def d date_parts_ok_def signed_value_def unsigned_def digits_value_def digit_value_def
        month_days_def leap_year_def time_zone_ok_def Let_def)
  then show ?thesis
    by (simp add: instant_def decode_scalar_def text_if_def s d date_instant_def make_day_def day_from_year_def time_clip_def
        zone_offset_def milliseconds_of_def signed_value_def unsigned_def digits_value_def digit_value_def Let_def)
qed

text \<open>The reply to the creation: the reference of the new resource and a lease.\<close>

definition event_reference_node :: xml_node where
  "event_reference_node = Xml_Element (qn EVENT_NS ''SubscriptionReference'') None [] []
     [Xml_Element (qn WSA_NS ''Address'') None [] [] [Xml_Text ''u:s'']]"

definition created_reply :: "js \<Rightarrow> exec_reply" where
  "created_reply until = Exec_Ok (JObj [(''CurrentTime'', JStr sample_time), (''TerminationTime'', until)])
     (Some (Xml_Element (qn EVENT_NS ''Response'') None [] [] [event_reference_node]))"

definition sample_endpoint :: service_endpoint where
  "sample_endpoint = \<lparr>service_address = ''u:s'', service_parameters = [], service_properties = [], service_namespace = WSA_NS,
     service_xml = event_reference_node\<rparr>"

lemma sample_names: "is_ncname ''Address''" "is_ncname ''SubscriptionReference''" "trim ''u:s'' = ''u:s''"
  by (simp_all add: is_ncname_def trim_def js_space_def in_ranges_def xml_name_start_def xml_name_char_def point_def byte_of_def trailing_bytes.simps)

lemma sample_reference_read: "read_endpoint_reference event_reference_node = Inr sample_endpoint"
proof -
  have "assert_xml_element 0 (js_of_node event_reference_node) = Inr ()"
    by (simp add: event_reference_node_def assert_xml_element.simps js_of_qname_def js_field_def content_ok_def is_qname_js_def
        is_ncname_js_def prefix_ok_def sample_names)
  then show ?thesis
    by (simp add: read_endpoint_reference_def event_reference_node_def address_node_def child_elements_def text_content_def sample_names
        one_child_def has_qname_def stray_text_def reference_headers_of_def sample_endpoint_def Let_def)
qed

lemma sample_subscribed:
  "subscription_reference (Some (Xml_Element (qn EVENT_NS ''Response'') None [] [] [event_reference_node])) = Inr sample_endpoint"
proof -
  have "is_element event_reference_node" "el_name event_reference_node = qn EVENT_NS ''SubscriptionReference''"
    by (simp_all add: event_reference_node_def)
  then show ?thesis by (simp add: subscription_reference_def child_elements_def has_qname_def sample_reference_read)
qed

lemma sample_now: "now sample_config s = (Inr 1000, s\<lparr>clock_reads := Suc (clock_reads s)\<rparr>)"
  by (simp add: now_def sample_config_def max_safe_integer_def)

lemma sample_pull_options [simp]:
  "pull_options sample_config = sample_settings" "pull_authorize sample_config e = Inr ()" "can_synchronize sample_config = False"
  "can_renew sample_config = False" "pull_bytes sample_config v = 10" "has_error_listener sample_config = False"
  by (simp_all add: sample_config_def)

lemmas sample_steps = pull_run_def start_def guarded_task_def begin_create_def pull_bind_def sample_now issue_def pull_update_def
  executed_def created_def created_reply_def sample_subscribed pull_lift_def pull_read_def pull_fail_def timing_def is_object_def is_function_def
  optional_string_def termination_text_def note_current_def check_regression_def set_lease_def sample_instant expiry_def
  finish_create_def report_def make_room_findings_def pull_resume_def loop_head_def iterate_loop_def fail_if_def expired_def must_renew_def
  start_pull_def available_def

definition endless :: js where
  "endless = JObj [(''$nil'', JBool True)]"

definition sample_opening :: "js \<Rightarrow> pull_event list" where
  "sample_opening until = [Start False, Executed (created_reply until), Resume]"

lemma sample_pulling: "phase (pull_run sample_config (sample_opening endless) fresh_sample) = Pulling 1000"
  by (simp add: sample_opening_def endless_def sample_steps fresh_sample_def new_pullpoint_def sample_settings_def)

definition lost_answer :: event_error where
  "lost_answer = Thrown_Error 0 (OnvifError TransportError Unknown)"


theorem subscription_bounded_witness:
  "request_timeout (pull_run sample_config (sample_opening endless) fresh_sample) \<le> 60000"
  using subscription_bounded[OF sample_run_reachable, of "sample_opening endless"] by (simp add: sample_settings_def)

text \<open>A reply to a pull with two messages.\<close>

definition message_node :: xml_node where
  "message_node = Xml_Element (qn WSN_NS ''NotificationMessage'') None [] [] []"

definition pulled_reply :: "nat \<Rightarrow> exec_reply" where
  "pulled_reply n = Exec_Ok (JObj [(''TerminationTime'', endless), (''NotificationMessage'', JArr (replicate n JNull))])
     (Some (Xml_Element (qn EVENT_NS ''Response'') None [] [] (replicate n message_node)))"

lemmas sample_deliveries = pulled_def pulled_reply_def notifications_def notification_nodes_def child_elements_def message_node_def has_qname_def
  accept_message_def enqueue_def pull_drain_def pause_def endless_def

lemma sample_records:
  "map rec_continuity (enqueued (pull_run sample_config (sample_opening endless @ [Executed (pulled_reply 2)]) fresh_sample)) = [Initial, Continuous]"
  by (simp add: sample_opening_def sample_steps sample_deliveries fresh_sample_def new_pullpoint_def sample_settings_def numeral_2_eq_2)

theorem event_gaps_marked_witness:
  "rec_generation (enqueued (pull_run sample_config (sample_opening endless @ [Executed (pulled_reply 2)]) fresh_sample) ! 1)
     = rec_generation (enqueued (pull_run sample_config (sample_opening endless @ [Executed (pulled_reply 2)]) fresh_sample) ! 0)"
proof -
  let ?rs = "enqueued (pull_run sample_config (sample_opening endless @ [Executed (pulled_reply 2)]) fresh_sample)"
  have "length ?rs = 2" using arg_cong[OF sample_records, of length] by simp
  moreover have "rec_continuity (?rs ! 1) = Continuous"
    using arg_cong[OF sample_records, of "\<lambda>xs. xs ! 1"] \<open>length ?rs = 2\<close> by simp
  ultimately show ?thesis
    using event_gaps_marked[OF sample_run_reachable, of "sample_opening endless @ [Executed (pulled_reply 2)]"] by fastforce
qed


lemma sample_stop: "stop_call sample_config False (JObj []) s = (Inr Whole_Stop, external_stop s)"
  by (simp add: stop_call_def stop_options_ok_def is_object_def is_function_def Let_def)



definition sample_rounds :: "(exec_reply \<times> event_error option \<times> rejection option \<times> event_error option) list" where
  "sample_rounds = replicate 7 (Exec_Failed lost_answer, None, None, None)"

theorem stopped_subscription_finishes_witness:
  "phase (pull_run sample_config (concat (map settle_round sample_rounds))
     (pull_run sample_config (sample_opening endless @ [Stop False (JObj [])]) fresh_sample)) = Finished"
proof (rule stopped_subscription_finishes[OF sample_run_reachable])
  have s: "pull_run sample_config (sample_opening endless @ [Stop False (JObj [])]) fresh_sample
      = pull_step sample_config (Stop False (JObj [])) (pull_run sample_config (sample_opening endless) fresh_sample)"
    by (simp add: pull_run_def)
  show "stop_requested (pull_run sample_config (sample_opening endless @ [Stop False (JObj [])]) fresh_sample)"
    unfolding s by (simp add: sample_stop external_stop_def)
  show "phase (pull_run sample_config (sample_opening endless @ [Stop False (JObj [])]) fresh_sample) \<noteq> Unstarted"
    unfolding s by (simp add: stop_frame sample_pulling)
qed (simp add: sample_rounds_def)

subsection \<open>Two runs that end differently than they should\<close>

text \<open>
  A lease that is over makes the task release the old resource and start again. When that release fails, the
  resource may still be there; yet \<open>finish\<close> does not try again, takes the release for done and fulfils the
  promise of the remote cleanup, which is the one \<open>stop\<close> returns to a listener, and the subscription ends as failed
  and not as uncertain.
\<close>

lemma unreleased_reported_done:
  "let s = pull_run sample_config (sample_opening (JStr sample_time) @ [Executed (Exec_Failed lost_answer)]) fresh_sample in
   remote_promise s = Fulfilled \<and> pp_endpoint s = Some sample_endpoint \<and> \<not> endpoint_gone s \<and> pp_state s = Sub_Closing"
  by (simp add: sample_opening_def sample_steps fresh_sample_def new_pullpoint_def sample_settings_def recover_def needs_release_def
      issue_release_def released_def lost_answer_def resource_unknown_def begin_finish_def settle_remote_def Let_def)

text \<open>
  A record that is accepted after the delivery loop has seen the queue empty and before the handlers of its promise
  have run starts no loop of its own: it waits in the queue while nothing delivers, until another record comes.
\<close>

lemma record_left_waiting:
  "let s = pull_run sample_config (sample_opening endless @ [Executed (pulled_reply 1), Slept None, Delivered None,
     Executed (pulled_reply 1), Delivery_Noted]) fresh_sample in
   length (pp_queue s) = 1 \<and> delivery s = No_Delivery \<and> phase s = Pausing \<and> \<not> stop_requested s"
  by (simp add: sample_opening_def sample_steps sample_deliveries slept_def callback_settled_def delivery_noted_def fresh_sample_def
      new_pullpoint_def sample_settings_def Let_def)

end
