(* ===== verification/Xml_Simple_Laws.thy ===== *)
theory Xml_Simple_Laws
  imports Complex_Main Xml_Simple Discovery_Protocol_Laws
begin

section \<open>Laws of simple values\<close>

text \<open>
  The key that an identity constraint compares (\<open>identityValueKey\<close>) and the comparison of enumerations
  (\<open>equivalent\<close>) are written apart; of numbers both tell the same values apart. Which number a text is the
  text of is said here, over the rationals, without the integers and scales that the code computes with.
\<close>

subsection \<open>Texts of numbers\<close>

lemma decimal_inj: "decimal m = decimal n \<longleftrightarrow> m = n"
  using digits_value_decimal[of m] digits_value_decimal[of n] by (metis of_nat_eq_iff)

lemma decimal_digits: "list_all is_digit_char (decimal n)" "decimal n \<noteq> []"
  using digits_value_decimal by blast+

lemma signed_decimal_inj: "signed_decimal m = signed_decimal n \<longleftrightarrow> m = n"
proof -
  have "CHR ''-'' # decimal k \<noteq> decimal l" for k l
  proof
    assume "CHR ''-'' # decimal k = decimal l"
    then have "is_digit_char (CHR ''-'')" using decimal_digits(1)[of l] by (metis list.pred_inject(2))
    then show False by (simp add: is_digit_char_def)
  qed
  note 1 = this this[symmetric]
  show ?thesis by (auto simp: signed_decimal_def decimal_inj 1 split: if_splits)
qed

lemma signed_decimal_no_colon: "CHR '':'' \<notin> set (signed_decimal n)"
proof -
  have "CHR '':'' \<notin> set (decimal k)" for k
    using decimal_digits(1)[of k] by (auto simp: list_all_iff is_digit_char_def)
  then show ?thesis by (simp add: signed_decimal_def)
qed

lemma pair_text_inj:
  "signed_decimal m @ '':'' @ decimal j = signed_decimal n @ '':'' @ decimal k \<longleftrightarrow> m = n \<and> j = k"
proof
  assume e: "signed_decimal m @ '':'' @ decimal j = signed_decimal n @ '':'' @ decimal k"
  have h: "takeWhile (\<lambda>c. c \<noteq> CHR '':'') (signed_decimal i @ '':'' @ s) = signed_decimal i" for i s
    using signed_decimal_no_colon[of i] by (subst takeWhile_append2) (auto simp: in_set_conv_decomp)
  have "signed_decimal m = signed_decimal n" using h[of m "decimal j"] h[of n "decimal k"] e by simp
  then show "m = n \<and> j = k" using e by (simp add: signed_decimal_inj decimal_inj)
qed simp

subsection \<open>The normal form of a decimal\<close>

definition normal_decimal :: "int \<times> nat \<Rightarrow> bool" where
  "normal_decimal d = (snd d = 0 \<or> fst d mod 10 \<noteq> 0)"

lemma stripped_normal:
  "normal_decimal (stripped_decimal m j) \<and> snd (stripped_decimal m j) \<le> j
   \<and> m = fst (stripped_decimal m j) * 10 ^ (j - snd (stripped_decimal m j))"
proof (induction m j rule: stripped_decimal.induct)
  case (2 n k)
  show ?case
  proof (cases "n mod 10 = 0")
    case True
    let ?d = "stripped_decimal (n div 10) k"
    have "n = 10 * (n div 10)" using True by presburger
    also have "\<dots> = fst ?d * 10 ^ Suc (k - snd ?d)" using 2[OF True] by simp
    finally show ?thesis using 2[OF True] True by (simp add: Suc_diff_le)
  qed (simp add: normal_decimal_def)
qed (simp add: normal_decimal_def)

lemma normal_unique_le:
  assumes "normal_decimal (n', k')" "k \<le> k'" "n * 10 ^ k' = n' * 10 ^ k"
  shows "n = n' \<and> k = k'"
proof -
  have "n * 10 ^ (k' - k) * 10 ^ k = n' * 10 ^ k" using assms(2,3) by (simp add: mult.assoc flip: power_add)
  then have e: "n * 10 ^ (k' - k) = n'" by simp
  have "k = k'"
  proof (rule ccontr)
    assume "k \<noteq> k'"
    then obtain d where d: "k' - k = Suc d" using assms(2) by (metis Suc_diff_Suc le_neq_implies_less)
    have "n' mod 10 = 0" using e by (simp add: d mult.assoc flip: e)
    then show False using assms(1,2) \<open>k \<noteq> k'\<close> by (simp add: normal_decimal_def)
  qed
  then show ?thesis using e by simp
qed

lemma normal_unique:
  assumes "normal_decimal (n, k)" "normal_decimal (n', k')"
  shows "n * 10 ^ k' = n' * 10 ^ k \<longleftrightarrow> n = n' \<and> k = k'"
  using normal_unique_le[of n' k' k n] normal_unique_le[of n k k' n'] assms by (metis linorder_linear)

lemma compare_parts:
  assumes "decimal_parts a = Inr (m, j)" "decimal_parts b = Inr (m', j')"
  shows "compare_decimal a b = Inr 0 \<longleftrightarrow> m * 10 ^ j' = m' * 10 ^ j"
proof -
  have "compare_decimal a b = Inr (sgn (m * 10 ^ (max j j' - j) - m' * 10 ^ (max j j' - j')))"
    by (simp add: compare_decimal_def assms)
  then have "compare_decimal a b = Inr 0 \<longleftrightarrow> m * 10 ^ (max j j' - j) = m' * 10 ^ (max j j' - j')" by (simp add: sgn_eq_0_iff)
  also have "\<dots> \<longleftrightarrow> m * 10 ^ (max j j' - j) * 10 ^ min j j' = m' * 10 ^ (max j j' - j') * 10 ^ min j j'" by simp
  also have "\<dots> \<longleftrightarrow> m * 10 ^ j' = m' * 10 ^ j"
    by (cases "j \<le> j'") (simp_all add: mult.assoc max_def min_def flip: power_add)
  finally show ?thesis .
qed

lemma same_decimal:
  fixes m m' :: int
  shows "m * 10 ^ j' = m' * 10 ^ j \<longleftrightarrow> stripped_decimal m j = stripped_decimal m' j'"
proof -
  obtain n k where d: "stripped_decimal m j = (n, k)" by force
  obtain n' k' where d': "stripped_decimal m' j' = (n', k')" by force
  have m: "normal_decimal (n, k)" "k \<le> j" "m = n * 10 ^ (j - k)" using stripped_normal[of m j] by (simp_all add: d)
  have m': "normal_decimal (n', k')" "k' \<le> j'" "m' = n' * 10 ^ (j' - k')" using stripped_normal[of m' j'] by (simp_all add: d')
  have "m * 10 ^ j' = n * 10 ^ k' * 10 ^ (j - k + (j' - k'))"
    using m m' by (simp add: mult.assoc flip: power_add)
  moreover have "m' * 10 ^ j = n' * 10 ^ k * 10 ^ (j - k + (j' - k'))"
    using m m' by (simp add: mult.assoc flip: power_add) (simp add: algebra_simps)
  ultimately have "m * 10 ^ j' = m' * 10 ^ j \<longleftrightarrow> n * 10 ^ k' = n' * 10 ^ k" by simp
  then show ?thesis using normal_unique[OF m(1) m'(1)] by (simp add: d d')
qed

subsection \<open>Identity\<close>

lemma numeric_key:
  assumes "t \<in> numeric_types" "scalar_key t v = Inr k"
  obtains m j where "decimal_parts (js_text v) = Inr (m, j)"
    and "k = ''decimal:'' @ signed_decimal (fst (stripped_decimal m j)) @ '':'' @ decimal (snd (stripped_decimal m j))"
proof -
  obtain m j where p: "decimal_parts (js_text v) = Inr (m, j)"
    using assms by (auto simp: scalar_key_def bind_result_def split: sum.splits)
  obtain n i where d: "stripped_decimal m j = (n, i)" by force
  have "normal_decimal (n, i)" using stripped_normal[of m j] by (simp add: d)
  then have "n = 0 \<Longrightarrow> i = 0" by (simp add: normal_decimal_def)
  then have "k = ''decimal:'' @ signed_decimal n @ '':'' @ decimal i" using assms by (auto simp: scalar_key_def p d)
  then show thesis using that p by (simp add: d)
qed

subsection \<open>The number of a text\<close>

text \<open>The value a decimal text stands for: a sign, digits that each weigh ten times the next, a point, digits
  that each weigh a tenth of the one before.\<close>

definition digit_weight :: "char \<Rightarrow> rat" where
  "digit_weight c = of_int (of_char c - 48)"

fun fraction_value :: "string \<Rightarrow> rat" where
  "fraction_value [] = 0"
| "fraction_value (c # s) = (digit_weight c + fraction_value s) / 10"

fun unsigned_decimal_value :: "rat \<Rightarrow> string \<Rightarrow> rat" where
  "unsigned_decimal_value n [] = n"
| "unsigned_decimal_value n (c # s) =
     (if c = CHR ''.'' then n + fraction_value s else unsigned_decimal_value (10 * n + digit_weight c) s)"

definition text_value :: "string \<Rightarrow> rat" where
  "text_value s = (case s of
       [] \<Rightarrow> 0
     | c # t \<Rightarrow> if c = CHR ''-'' then - unsigned_decimal_value 0 t
         else if c = CHR ''+'' then unsigned_decimal_value 0 t else unsigned_decimal_value 0 s)"

definition number_value :: "js \<Rightarrow> rat" where
  "number_value v = (case v of JNum (Whole i) \<Rightarrow> of_int i | _ \<Rightarrow> text_value (js_text v))"

lemma digit_weight_value: "digit_weight c = of_int (digit_value c)"
  by (simp add: digit_weight_def digit_value_def byte_of_def)

lemma digit_no_mark: "is_digit_char c \<Longrightarrow> c \<noteq> CHR ''.'' \<and> c \<noteq> CHR ''-'' \<and> c \<noteq> CHR ''+''"
  by (auto simp: is_digit_char_def byte_of_def)

lemma fraction_digits: "fraction_value s = of_int (digits_value s) / 10 ^ length s"
proof -
  have "of_int (foldl (\<lambda>n c. 10 * n + digit_value c) n s) / 10 ^ length s = of_int n + fraction_value s" for n
  proof (induction s arbitrary: n)
    case (Cons c s)
    then show ?case using Cons[of "10 * n + digit_value c"]
      by (simp add: digit_weight_value field_simps)
  qed simp
  from this[of 0] show ?thesis by (simp add: digits_value_def)
qed

lemma digits_value_join: "digits_value (s @ t) = digits_value s * 10 ^ length t + digits_value t"
proof (induction t rule: rev_induct)
  case (snoc c t)
  have "digits_value (s @ t @ [c]) = 10 * digits_value (s @ t) + digit_value c"
    using digits_value_append[of "s @ t"] by simp
  then show ?case using snoc by (simp add: digits_value_append algebra_simps)
qed (simp add: digits_value_def)

lemma unsigned_decimal_digits:
  "list_all is_digit_char w
   \<Longrightarrow> unsigned_decimal_value (of_int n) (w @ s) = unsigned_decimal_value (of_int (foldl (\<lambda>n c. 10 * n + digit_value c) n w)) s"
proof (induction w arbitrary: n)
  case (Cons c w)
  then show ?case using Cons.IH[of "10 * n + digit_value c"] digit_no_mark[of c] by (simp add: digit_weight_value)
qed simp

lemma unsigned_decimal_parts:
  assumes "list_all is_digit_char w"
  shows "unsigned_decimal_value 0 w = of_int (digits_value w)"
    and "unsigned_decimal_value 0 (w @ CHR ''.'' # f) = of_int (digits_value (w @ f)) / 10 ^ length f"
  using unsigned_decimal_digits[OF assms, of 0 "[]"] unsigned_decimal_digits[OF assms, of 0 "CHR ''.'' # f"]
  by (simp_all add: fraction_digits digits_value_join add_divide_distrib flip: digits_value_def)

lemma decimal_shape:
  assumes "decimal_lexical s"
  obtains (whole) g w where "s = g @ w" "w \<noteq> []" "list_all is_digit_char w" "g \<in> {[], ''+'', ''-''}"
  | (point) g w f where "s = g @ w @ CHR ''.'' # f" "list_all is_digit_char w" "list_all is_digit_char f" "g \<in> {[], ''+'', ''-''}"
      "w \<noteq> [] \<or> f \<noteq> []"
proof -
  define t where "t = unsigned s"
  have "\<exists>g. s = g @ t \<and> g \<in> {[], ''+'', ''-''}"
  proof (cases s)
    case (Cons c r)
    show ?thesis
    proof (cases "c = CHR ''+'' \<or> c = CHR ''-''")
      case True
      then show ?thesis by (intro exI[of _ "[c]"]) (auto simp: Cons t_def unsigned_def)
    qed (simp add: Cons t_def unsigned_def)
  qed (simp add: t_def unsigned_def)
  then obtain g where g: "s = g @ t" "g \<in> {[], ''+'', ''-''}" by blast
  have d: "list_all is_digit_char (takeWhile is_digit_char t)" by (auto simp: list_all_iff dest: set_takeWhileD)
  have e: "t = takeWhile is_digit_char t @ dropWhile is_digit_char t" by simp
  show thesis
  proof (cases "dropWhile is_digit_char t")
    case Nil
    then have "takeWhile is_digit_char t \<noteq> []" using assms unfolding decimal_lexical_def Let_def t_def[symmetric] Nil by simp
    moreover have "takeWhile is_digit_char t = t" using e unfolding Nil by simp
    ultimately show thesis using whole[of g t] g d by metis
  next
    case (Cons c f)
    have c: "c = CHR ''.'' \<and> list_all is_digit_char f \<and> (takeWhile is_digit_char t \<noteq> [] \<or> f \<noteq> [])"
      using assms unfolding decimal_lexical_def Let_def t_def[symmetric] Cons by simp
    have "s = g @ takeWhile is_digit_char t @ CHR ''.'' # f" using g(1) e c unfolding Cons by simp
    then show thesis using point d g(2) c by blast
  qed
qed

lemma sign_cases:
  assumes "g \<in> {[], ''+'', ''-''}" obtains "g = []" | "g = ''+''" | "g = ''-''"
  using assms by blast

lemma no_point: "list_all is_digit_char w \<Longrightarrow> g \<in> {[], ''+'', ''-''} \<Longrightarrow> c \<in> set (g @ w) \<Longrightarrow> c \<noteq> CHR ''.''"
proof -
  assume d: "list_all is_digit_char w" and g: "g \<in> {[], ''+'', ''-''}" and c: "c \<in> set (g @ w)"
  have "c \<in> set g \<or> is_digit_char c" using c d by (auto simp only: set_append Un_iff list_all_iff)
  then show "c \<noteq> CHR ''.''"
  proof
    assume "c \<in> set g"
    with g show ?thesis by (elim sign_cases) simp_all
  qed (simp add: digit_no_mark)
qed

lemma sign_value:
  assumes "list_all is_digit_char w" "w \<noteq> []" "g \<in> {[], ''+'', ''-''}"
  shows "signed_value (g @ w) = (if g = ''-'' then - digits_value w else digits_value w)"
proof -
  obtain c r where w: "w = c # r" using assms(2) by (auto simp: neq_Nil_conv)
  then have c: "(c = CHR ''-'') = False" "(c = CHR ''+'') = False" using assms(1) digit_no_mark[of c] by auto
  show ?thesis using assms(3) by (elim sign_cases) (simp_all only: w signed_value_def unsigned_def c append.simps list.simps list.sel
      char.inject simp_thms if_True if_False)
qed

lemma sign_text:
  assumes "list_all is_digit_char w" "g \<in> {[], ''+'', ''-''}" "w \<noteq> [] \<or> (\<exists>f. s = CHR ''.'' # f)"
  shows "text_value (g @ w @ s) = (if g = ''-'' then - unsigned_decimal_value 0 (w @ s) else unsigned_decimal_value 0 (w @ s))"
proof -
  have "\<exists>c r. w @ s = c # r \<and> (is_digit_char c \<or> c = CHR ''.'')" using assms(1,3) by (cases w) auto
  then obtain c r where w: "w @ s = c # r" "is_digit_char c \<or> c = CHR ''.''" by blast
  then have c: "(c = CHR ''-'') = False" "(c = CHR ''+'') = False" using digit_no_mark[of c] by auto
  show ?thesis using assms(2) unfolding w(1) by (elim sign_cases) (simp_all add: text_value_def c)
qed

lemma decimal_parts_value:
  assumes "decimal_parts s = Inr (m, j)"
  shows "text_value s = of_int m / 10 ^ j"
proof -
  have l: "decimal_lexical s" using assms by (simp add: decimal_parts_def split: if_splits)
  from l show ?thesis
  proof (cases rule: decimal_shape)
    case (whole g w)
    have e: "takeWhile (\<lambda>c. c \<noteq> CHR ''.'') s = s" "dropWhile (\<lambda>c. c \<noteq> CHR ''.'') s = []"
      using no_point[OF whole(3,4)] by (auto simp only: whole(1) takeWhile_eq_all_conv dropWhile_eq_Nil_conv)
    have "s \<noteq> []" using whole(1,2) by simp
    then have "m = signed_value s" "j = 0" using assms unfolding decimal_parts_def Let_def e by (auto split: if_split_asm)
    then have "of_int m / 10 ^ j = (if g = ''-'' then - of_int (digits_value w) else (of_int (digits_value w) :: rat))"
      using sign_value[OF whole(3,2,4)] by (simp only: whole(1)) simp
    moreover have "text_value s = (if g = ''-'' then - of_int (digits_value w) else of_int (digits_value w))"
      using sign_text[OF whole(3,4), of "[]"] whole(2) unfolding whole(1) append_Nil2 unsigned_decimal_parts(1)[OF whole(3)] by blast
    ultimately show ?thesis by simp
  next
    case (point g w f)
    have e: "takeWhile (\<lambda>c. c \<noteq> CHR ''.'') s = g @ w" "dropWhile (\<lambda>c. c \<noteq> CHR ''.'') s = CHR ''.'' # f"
      using takeWhile_append2[of "g @ w" "\<lambda>c. c \<noteq> CHR ''.''"] dropWhile_append2[of "g @ w" "\<lambda>c. c \<noteq> CHR ''.''"]
        no_point[OF point(2,4)] unfolding point(1) append_assoc[symmetric] by simp_all
    have j: "j = length f" and m: "m = signed_value ((if g @ w = [] then ''0'' else g @ w) @ f)"
      using assms unfolding decimal_parts_def Let_def e by (auto split: if_split_asm)
    have "m = (if g = ''-'' then - digits_value (w @ f) else digits_value (w @ f))"
    proof (cases "g @ w = []")
      case True
      then have "m = signed_value ([] @ ''0'' @ f)" using m by simp
      also have "\<dots> = digits_value (''0'' @ f)" using sign_value[of "''0'' @ f" "[]"] point(3) by (simp add: is_digit_char_def byte_of_def)
      also have "\<dots> = digits_value f" by (simp add: digits_value_def digit_value_def byte_of_def)
      finally show ?thesis using True by simp
    next
      case False
      have "m = signed_value (g @ w @ f)" using m by (simp only: False if_False append_assoc)
      then show ?thesis using sign_value[of "w @ f" g] point(2-5) by simp
    qed
    moreover have "text_value s = (if g = ''-'' then - (of_int (digits_value (w @ f)) / 10 ^ length f)
        else of_int (digits_value (w @ f)) / 10 ^ length f)"
      using sign_text[OF point(2,4), of "CHR ''.'' # f"] unfolding point(1) unsigned_decimal_parts(2)[OF point(2)] by blast
    ultimately show ?thesis unfolding j by (cases "g = ''-''") (simp_all only: if_True if_False of_int_minus minus_divide_left simp_thms)
  qed
qed

lemma signed_decimal_value: "text_value (signed_decimal n) = of_int n"
proof -
  have d: "unsigned_decimal_value 0 (decimal k) = of_nat k" for k
    using unsigned_decimal_parts(1)[OF decimal_digits(1)[of k]] digits_value_decimal[of k] by simp
  have t: "text_value (decimal k) = of_nat k" for k
    using sign_text[OF decimal_digits(1)[of k], of "[]" "[]"] decimal_digits(2)[of k] by (simp add: d)
  have "text_value (CHR ''-'' # decimal k) = - of_nat k" for k by (simp add: text_value_def d)
  then show ?thesis by (simp add: signed_decimal_def t of_nat_nat)
qed

lemma number_parts_value: "decimal_parts (js_text v) = Inr (m, j) \<Longrightarrow> number_value v = of_int m / 10 ^ j"
  using decimal_parts_value[of "js_text v" m j]
  by (auto simp: number_value_def signed_decimal_value split: js.splits jsnum.splits)

lemma same_number:
  fixes m m' :: int
  shows "m * 10 ^ j' = m' * 10 ^ j \<longleftrightarrow> (of_int m / 10 ^ j :: rat) = of_int m' / 10 ^ j'"
proof -
  have "(of_int m / 10 ^ j :: rat) = of_int m' / 10 ^ j' \<longleftrightarrow> (of_int (m * 10 ^ j') :: rat) = of_int (m' * 10 ^ j)"
    by (simp add: field_simps)
  then show ?thesis by (simp only: of_int_eq_iff)
qed

text \<open>
  C34. Numbers are identified exactly. A value of a type that restricts a numeric one stands for the rational
  number that its text denotes, read as a sign, digits and a fraction. Of two values that identity constraints
  accept, the keys the constraint compares are the same exactly when those numbers are equal, and the comparison
  of enumerations answers, without an error, whether they are: whatever signs, leading zeros and trailing zeros
  look like, and no two different numbers are taken for one.
\<close>

theorem numeric_identity_exact:
  assumes "scalar_base ty = Some t" "t \<in> numeric_types"
    and "identity_value_key ty v = Inr k" "identity_value_key ty w = Inr l"
  shows "(k = l \<longleftrightarrow> number_value v = number_value w) \<and> equivalent number ty v w = Inr (number_value v = number_value w)"
  using assms
proof (induction ty rule: scalar_base.induct)
  case (2 u)
  then have u: "u = t" "t \<in> numeric_types" by simp_all
  obtain m j where m: "decimal_parts (js_text v) = Inr (m, j)"
      "k = ''decimal:'' @ signed_decimal (fst (stripped_decimal m j)) @ '':'' @ decimal (snd (stripped_decimal m j))"
    using 2 numeric_key[of t v k] by (auto simp: identity_value_key.simps)
  obtain m' j' where m': "decimal_parts (js_text w) = Inr (m', j')"
      "l = ''decimal:'' @ signed_decimal (fst (stripped_decimal m' j')) @ '':'' @ decimal (snd (stripped_decimal m' j'))"
    using 2 numeric_key[of t w l] by (auto simp: identity_value_key.simps)
  have "k = l \<longleftrightarrow> stripped_decimal m j = stripped_decimal m' j'"
    unfolding m(2) m'(2) same_append_eq pair_text_inj by (auto simp: prod_eq_iff)
  then have "k = l \<longleftrightarrow> number_value v = number_value w"
    using same_decimal[of m j' m' j] same_number[of m j' m' j] by (simp add: number_parts_value[OF m(1)] number_parts_value[OF m'(1)])
  moreover have "compare_decimal (js_text v) (js_text w) = Inr 0 \<longleftrightarrow> number_value v = number_value w"
    using compare_parts[OF m(1) m'(1)] same_number[of m j' m' j] by (simp add: number_parts_value[OF m(1)] number_parts_value[OF m'(1)])
  moreover have "equivalent number (Scalar_Type u) v w = Inr (compare_decimal (js_text v) (js_text w) = Inr 0)"
    by (auto simp: equivalent.simps equivalent_scalar_def u bind_result_def compare_decimal_def m(1) m'(1))
  ultimately show ?case by simp
qed (simp_all add: identity_value_key.simps equivalent.simps)

theorem numeric_identity_exact_witness:
  "equivalent (\<lambda>_. NaN) (Scalar_Type XS_Decimal) (JStr ''+1.50'') (JStr ''01.5'') = Inr True
   \<and> equivalent (\<lambda>_. NaN) (Scalar_Type XS_Decimal) (JStr ''+1.50'') (JStr ''-1.5'') = Inr False"
proof -
  let ?t = "Scalar_Type XS_Decimal"
  have k: "identity_value_key ?t (JStr ''+1.50'') = Inr ''decimal:15:1''" "identity_value_key ?t (JStr ''01.5'') = Inr ''decimal:15:1''"
      "identity_value_key ?t (JStr ''-1.5'') = Inr ''decimal:-15:1''"
    by (simp_all add: identity_value_key.simps scalar_key_def numeric_types_def decimal_parts_def decimal_lexical_def unsigned_def
        signed_value_def digits_value_def digit_value_def is_digit_char_def signed_decimal_def decimal.simps char_of_def bit_Suc_0_iff Let_def)
  have t: "scalar_base ?t = Some XS_Decimal" "XS_Decimal \<in> numeric_types" by (simp_all add: numeric_types_def)
  show ?thesis using numeric_identity_exact[OF t k(1,2), of "\<lambda>_. NaN"] numeric_identity_exact[OF t k(1,3), of "\<lambda>_. NaN"] by auto
qed

subsection \<open>White space of a restriction\<close>

text \<open>
  Writing a text checks it against the white space rule of the built-in type alone. Under a restriction that
  collapses, a text with a blank in front is written as it is, and read back as another value.
\<close>

definition collapsing :: simple_type where
  "collapsing = Restriction (Scalar_Type XS_String) \<lparr>facet_enumeration = None, facet_min_inclusive = None,
     facet_max_inclusive = None, facet_min_exclusive = None, facet_max_exclusive = None, facet_length = None,
     facet_min_length = None, facet_max_length = None, facet_white_space = Some Collapse, facet_patterns = None\<rparr>"

lemma collapsing_reads: "decode_simple number collapsing '' a'' [] = Inr (JStr ''a'')"
proof -
  have c: "code_points '' a'' = map (\<lambda>c. [c]) '' a''" by (simp add: trailing_bytes.simps byte_of_def)
  have "trim '' a'' = ''a''" unfolding trim_def c by (simp add: js_space_def point_def byte_of_def)
  then show ?thesis
    by (simp add: collapsing_def decode_simple.simps spaced_def collapsed_def replaced_def patterns_ok_def value_ok_def length_ok_def
        bounds_ok_def bound_ok_def decode_scalar_def scalar_text_def Let_def)
qed

lemma collapsing_writes_otherwise:
  "encode_simple number collapsing (JStr '' a'') [] = Inr ('' a'', []) \<and> decode_simple number collapsing '' a'' [] = Inr (JStr ''a'')"
proof -
  have "encode_simple number (Scalar_Type XS_String) (JStr '' a'') [] = Inr ('' a'', [])"
    by (simp add: encode_simple.simps encode_scalar_def decode_scalar_def scalar_text_def same_text_def Let_def)
  then show ?thesis using collapsing_reads
    by (simp add: collapsing_def encode_simple.simps)
qed

end
