(* ===== verification/Spec2Isabelle.thy ===== *)
theory Spec2Isabelle
  imports Media_Session_Properties Discovery_Inventory_Laws Discovery_Protocol_Laws Binding_Executor_Laws
    Binding_Policy Events_Pullpoint_Properties Xml_Simple_Laws
begin

text \<open>
  This development models the reference runtime of the ONVIF binding under
  src/onvif/samples/reference-runtime/src: the part of the repository that talks to devices. File names
  below are relative to that directory.

  \<^bold>\<open>The program.\<close> The runtime has five parts.

  \<^item> The \<^emph>\<open>binding\<close> invokes one SOAP operation of a device: it reads a Thing Description form
    (binding/forms.ts), builds an envelope (binding/soap.ts, xml/parser.ts), sends it within a budget of
    time and attempts (binding/executor.ts) and reads the answer.
  \<^item> \<^emph>\<open>Security\<close> selects the schemes of a form, confines targets and credentials (security/policy.ts),
    answers HTTP Digest challenges (security/digest.ts), writes the WS-Security header
    (security/username-token.ts) and derives the identity of projected descriptions
    (security/logical-endpoint.ts). The binding asks it before and between its requests.
  \<^item> \<^emph>\<open>Media\<close> owns a native worker process per stream: media/policy.ts decides what a worker may be
    asked to do, media/ipc.ts frames what travels over its pipes, media/protocol.ts encodes commands and
    checks what comes back, media/session.ts is the state machine over them, and media/queue.ts hands the
    frames to several readers.
  \<^item> \<^emph>\<open>Discovery\<close> accepts WS-Discovery announcements (discovery/protocol.ts), confines the addresses
    they name (discovery/policy.ts) and keeps an inventory of devices (discovery/inventory.ts) that
    announcements, seeds, liveness rounds and inspections update.
  \<^item> \<^emph>\<open>Events\<close> keeps a pull point subscription at a device (events/pullpoint.ts): it creates one through the
    binding, renews and pulls from it in a loop, hands the records to a listener within bounds, recovers from
    its loss and releases it in the end. Its operations are resolved by events/contracts.ts, its times read by
    events/time.ts, which rests on the simple values of xml/simple-values.ts.

  \<^bold>\<open>Theories.\<close> A theory of definitions has the name of its part; its \<open>_Laws\<close>, \<open>_Frame\<close>, \<open>_Lifecycle\<close> and
  \<open>_Properties\<close> companions hold the lemmas and properties.

  \<^item> \<open>Prelude\<close>: binding/errors.ts. A function that throws returns \<open>'a result\<close>, the left side an
    \<open>onvif_error\<close> with its code and the certainty of execution (\<open>raise\<close>, \<open>bind_result\<close>).
    \<open>Js_Values\<close>: what the sources take as \<open>unknown\<close>, as the tree \<open>js\<close>, with the property reads and
    type tests on it.
  \<^item> \<open>Media_Queue\<close>: class BoundedMediaQueue as the record \<open>queue\<close>, one definition per method, the
    iterators of its subscribers included. What it does to the world outside (a callback of
    \<open>release\<close> run, a read settled) is appended to the log \<open>effects\<close>.
  \<^item> \<open>Media_Ipc\<close>: the 24 byte envelope, the incremental decoder (\<open>decoder\<close>, \<open>push\<close>, \<open>end_decoder\<close>), the
    bounded walk over a control message. \<open>Media_Policy\<close> and \<open>Media_Protocol\<close>: every check and encoder of
    media/policy.ts and media/protocol.ts.
  \<^item> \<open>Media_Session\<close>, \<open>Media_Session_Events\<close>: class NativeSession as the record \<open>native_session\<close>, one
    handler per event (a chunk from a pipe, an exit, a timer, a call of the client); \<open>session_step\<close> is
    one \<open>session_event\<close>, and the properties are about sequences of them in any order.
  \<^item> \<open>Xml_Types\<close>: the element tree of xml/types.ts. \<open>Xml_Serializer\<close>: the limits, \<open>assertXmlElement\<close> and
    \<open>serializeXml\<close> of xml/parser.ts, with the identifiers of xml/identity.ts.
  \<^item> \<open>Xml_Simple\<close>: xml/simple-values.ts, xml/xsd-patterns.ts and the types of simple values of xml/types.ts;
    a function that may bind another prefix returns the bindings it leaves.
  \<^item> \<open>Discovery_Types\<close>, \<open>Discovery_Json\<close>: the values of discovery/types.ts, and each as the JavaScript
    object that the bound on canonical JSON walks. \<open>Discovery_Policy\<close>, \<open>Discovery_Protocol\<close>: their files.
    \<open>Discovery_Inventory\<close>: class Inventory as the record \<open>inventory\<close> with all its operations.
  \<^item> \<open>Security_Policy\<close>, \<open>Security_Digest\<close>, \<open>Security_Token\<close>, \<open>Security_Endpoint\<close>: the files of security/;
    the last with \<open>canonicalJson\<close> of catalog/sources.ts.
  \<^item> \<open>Binding_Soap\<close>: binding/soap.ts with the descriptors of binding/registry.ts. \<open>Binding_Executor\<close>:
    binding/executor.ts, binding/forms.ts and the requests and replies of binding/transport.ts.
    \<open>Binding_Policy\<close>: binding/operation-policy.ts.
  \<^item> \<open>Events_Time\<close>, \<open>Events_Contracts\<close>: their files of events/. \<open>Events_Pullpoint\<close>: class OwnedPullPoint as the
    record \<open>pullpoint\<close>. The class is two tasks, the life of the subscription and the delivery to the listener;
    the field \<open>phase\<close> says where the first awaits, \<open>delivery\<close> where the second does. \<open>pull_step\<close> takes one
    \<open>pull_event\<close>: the outcome of a request, of a wait or of a callback, or a call of the client. Requests and
    records handed over are appended to logs, \<open>pull_reachable\<close> are the states that any events lead to.

  \<^bold>\<open>Interfaces.\<close> Where several operations keep one contract, the contract is a locale, its consequences
  are proved once inside it, and it is interpreted on the model's own definitions.

  \<^item> \<open>release_ledger\<close> (interpreted as \<open>ledger\<close>): what an account of released units needs from the queue.
  \<^item> \<open>session_law\<close> (\<open>life\<close>): a relation between the session before and after that single writes, settlements
    and closings keep is kept by every handler and by every sequence of events.
  \<^item> \<open>findings_law\<close>, \<open>device_law\<close>, \<open>inspection_law\<close>, each extending the one before: a law of one device
    that holds of the updates the inventory makes holds after every operation (\<open>noise\<close>, \<open>calm\<close>, \<open>bounded\<close>,
    \<open>quarantine\<close>, \<open>announced\<close>).
  \<^item> \<open>step_law\<close> and its extension \<open>request_law\<close>: what a use of the world outside and the memory of a nonce
    keep, every operation of the executor keeps (\<open>silent\<close>: only a request extends the log of requests;
    \<open>memory\<close>: the nonces).
  \<^item> \<open>bookkeeping_law\<close> (\<open>books\<close>): a relation that readings of the clock, diagnostics and the lease keep is kept
    by every part of the subscription that only keeps its books.

  \<^bold>\<open>What the lemmas show.\<close>

  \<^item> Queue: memory within its bounds, every unit released once, order and no duplicates for every reader,
    lossless recording, ending settles every read.
  \<^item> Framing: frames are decoded as they were encoded for every partition into chunks, the decoder's memory
    is bounded for every input, a cut envelope is reported.
  \<^item> Media policy and protocol: a validated trust policy is closed, targets and credentials stay inside it,
    READY, CLOSED and data frames say nothing the request excludes.
  \<^item> Session: phases only move forward, commands are well formed and in order, controls are answered in
    order, closing is silent and always completes, its result claims nothing the receipt and the exit do not
    allow; and the one way a control is left unsettled.
  \<^item> Discovery: accepted messages are well formed, acceptance refines an abstract order of epochs and
    message numbers, canonical JSON is decided exactly, the inventory is bounded, a conflict of identities is
    permanent, only an inspection verifies a device, and an overtaken inspection changes nothing.
  \<^item> Security: no scheme of a conjunction is dropped, targets and credentials are confined, Digest is not
    downgraded and its answer is read back by the grammar of the challenges.
  \<^item> Binding and XML: an exchange sends at most three requests and never repeats one that may have been
    executed, what it reports as not sent was not executed, its result is the last reply's, nonces are fresh,
    callers cannot replace the runtime's headers, a payload comes only from a successful envelope, and
    escaped text is read back; identity keys of numbers are equal exactly for equal numbers.
  \<^item> Events: what waits for the listener is bounded, records arrive in order and no gap is hidden, a pull of
    unknown outcome is never repeated, a subscription is released at most once per generation, a stop that
    succeeds leaves nothing behind at the device, and a stopped subscription comes to its end; and two runs, one
    that reports a cleanup it did not confirm and one that leaves a record waiting.

  \<^bold>\<open>Representation.\<close> Strings are the bytes of their UTF-8 form (\<open>utf8\<close>, \<open>code_points\<close>); a length in UTF-16 units
  is counted as the source counts it. Bytes on the pipes are 8 bit words; integers of the source that are
  checked against \<open>Number.isSafeInteger\<close> are \<open>int\<close> with the check written out. A \<open>Map\<close> or \<open>Set\<close> whose order
  shows is an association list or a list in insertion order. An await is a boundary between events
  (session, queue, inventory, subscription) or a state handed on (executor), so that orders and interleavings
  are sequences of steps.

  \<^bold>\<open>Parameters.\<close> Code outside the repository is an argument: the URL parser and isIP of node, toLowerCase
  beyond ASCII, the JSON and the XML parser, SHA and MD5, Base64, toISOString, the texts of numbers, the credential
  provider, the clock, the transport. In \<open>Binding_Executor\<close> clock, random source, provider and transport act
  on a state \<open>'w\<close> of the world that the executor hands on and never reads; every request is
  recorded in a log with its outcome. In \<open>Events_Pullpoint\<close> the \<open>n\<close>th reading of the clock, the floating point sum
  of a duration, the authorisation of an endpoint and the size of a record are functions of the
  configuration. The interpreter of schema descriptors is a parameter as well. The samples
  instantiate each parameter by a concrete function.

  \<^bold>\<open>Termination.\<close> All definitions are total, with measures where the recursion is not structural: the decoder by
  the bytes that are left, scanners by their remaining text. The walk for a free prefix is given the
  number of bindings plus one as its fuel, which a list without repetition cannot exhaust; a stopped
  subscription ends within seven rounds of outcomes, as the number of awaits ahead (\<open>remaining_steps\<close>) is at most
  seven and every round lowers it; the
  attempts of an exchange count down from three, which is the source's own bound.

  \<^bold>\<open>Not modelled.\<close> Of modelled files: message texts; the wiping of secret buffers (no value is read after
  it); \<open>abortable\<close> of media/async.ts and the invocation of an operation from an input stream (promises and streams of
  the host); the HTTP agent and the checks of node objects among the executor's options; \<open>parseXml\<close>, which drives a
  third-party parser; the construction of registries and the content codec. Left out as a whole: the
  interpreter of XML Schema descriptors and its identity constraints (xml/mapper.ts,
  xml/metadata.ts); processes, sockets, timers and files (media/process.ts,
  discovery/engine.ts, discovery/datagrams.ts, discovery/persistence.ts, publication/); the timer of events/time.ts and
  events/consumer.ts; catalog/ and projection/, which compile documents off line; node-wot glue
  (binding/runtime.ts, binding/multiplexer.ts, bridge.ts), the command line, the simulators and
  scripts of other directories, and vendored pages.
\<close>

end
